(* ===== verification/Prelude.thy ===== *)
theory Prelude
  imports Main "HOL-Library.Char_ord" "HOL-Library.List_Lexorder" "HOL-Library.AList"
begin

text \<open>
  Shared vocabulary of the development: the types that stand for Rust's \<open>str\<close>, \<open>[u8]\<close> and
  \<open>Result\<close>, the fact collections of the component theories, and the generic facts on lists,
  options and sums that the component proofs use.

  A Rust string is modelled by its UTF-8 bytes and a byte by the eight-bit HOL type
  \<^typ>\<open>char\<close>, so \<open>len()\<close> is \<^const>\<open>length\<close> and slicing is \<^const>\<open>take\<close> and
  \<^const>\<open>drop\<close>, as in the source.
\<close>

section \<open>Types\<close>

type_synonym bytes = string

text \<open>\<open>Result<A, E>\<close>: \<^const>\<open>Inl\<close> is \<open>Err\<close>, \<^const>\<open>Inr\<close> is \<open>Ok\<close>.\<close>

type_synonym ('e, 'a) result = "'e + 'a"

text \<open>A miette report is modelled by its message.\<close>

type_synonym report = string

section \<open>Fact collections\<close>

named_theorems text_simps \<open>equations of the string routines that are safe rewrite rules\<close>
named_theorems ip_simps \<open>the address predicates unfolded to bit tests\<close>
named_theorems rego_simps \<open>the rules of the policy module, unfolded\<close>

section \<open>Results\<close>

fun result_bind :: "('e, 'a) result \<Rightarrow> ('a \<Rightarrow> ('e, 'b) result) \<Rightarrow> ('e, 'b) result" where
  "result_bind (Inl e) f = Inl e"
| "result_bind (Inr a) f = f a"

fun result_map_err :: "('e \<Rightarrow> 'd) \<Rightarrow> ('e, 'a) result \<Rightarrow> ('d, 'a) result" where
  "result_map_err g (Inl e) = Inl (g e)"
| "result_map_err g (Inr a) = Inr a"

fun ok_or :: "'e \<Rightarrow> 'a option \<Rightarrow> ('e, 'a) result" where
  "ok_or e None = Inl e"
| "ok_or e (Some a) = Inr a"

fun result_ok :: "('e, 'a) result \<Rightarrow> 'a option" where
  "result_ok (Inl e) = None"
| "result_ok (Inr a) = Some a"

lemma result_bind_Inr_iff [simp]:
  "result_bind r f = Inr b \<longleftrightarrow> (\<exists>a. r = Inr a \<and> f a = Inr b)"
  by (cases r) auto

lemma ok_or_Inr_iff [simp]: "ok_or e x = Inr a \<longleftrightarrow> x = Some a"
  by (cases x) auto

lemma result_map_err_Inr_iff [simp]: "result_map_err g r = Inr a \<longleftrightarrow> r = Inr a"
  by (cases r) auto

text \<open>A call that returns, or panics.\<close>

datatype 'a outcome = Panicked | Returned 'a

section \<open>Options\<close>

lemma map_option_idI: "(\<And>x. f x = x) \<Longrightarrow> map_option f y = y"
  by (cases y) auto

section \<open>Lists\<close>

lemma take_prefix_nth_eq: "take n xs = ys \<Longrightarrow> i < length ys \<Longrightarrow> xs ! i = ys ! i"
  by auto

lemma filter_map_option_set:
  "y \<in> set (List.map_filter f xs) \<longleftrightarrow> (\<exists>x\<in>set xs. f x = Some y)"
  by (induction xs) (auto simp: List.map_filter_simps split: option.splits)

lemma find_Some_in: "find P xs = Some x \<Longrightarrow> x \<in> set xs \<and> P x"
  by (auto simp: find_Some_iff)

lemma find_list_ex: "find P xs \<noteq> None \<longleftrightarrow> list_ex P xs"
  by (induction xs) auto

lemma find_None_all: "find P xs = None \<Longrightarrow> x \<in> set xs \<Longrightarrow> \<not> P x"
  by (auto simp: find_None_iff)

end
