(* ===== verification/Rust_Text.thy ===== *)
theory Rust_Text
  imports Prelude
begin

text \<open>
  The string routines of Rust's standard library that the sandbox uses, over bytes:
  ASCII case mapping, prefixes and suffixes, substring search and splitting, \<open>lines\<close>,
  whitespace, and integer parsing and printing. The facts below are what the parsers of the
  components need of them.
\<close>

section \<open>Bytes and ASCII case\<close>

abbreviation byte :: "char \<Rightarrow> nat" where
  "byte c \<equiv> of_char c"

definition crlf :: bytes where
  "crlf = [CHR 0x0D, CHR 0x0A]"

definition crlf2 :: bytes where
  "crlf2 = [CHR 0x0D, CHR 0x0A, CHR 0x0D, CHR 0x0A]"

definition ascii_lower_char :: "char \<Rightarrow> char" where
  "ascii_lower_char c = (if 65 \<le> byte c \<and> byte c \<le> 90 then char_of (byte c + 32) else c)"

definition ascii_upper_char :: "char \<Rightarrow> char" where
  "ascii_upper_char c = (if 97 \<le> byte c \<and> byte c \<le> 122 then char_of (byte c - 32) else c)"

definition to_ascii_lowercase :: "bytes \<Rightarrow> bytes" where
  "to_ascii_lowercase s = map ascii_lower_char s"

definition to_ascii_uppercase :: "bytes \<Rightarrow> bytes" where
  "to_ascii_uppercase s = map ascii_upper_char s"

definition eq_ignore_ascii_case :: "bytes \<Rightarrow> bytes \<Rightarrow> bool" where
  "eq_ignore_ascii_case s t \<longleftrightarrow> to_ascii_lowercase s = to_ascii_lowercase t"

definition is_ascii_digit :: "char \<Rightarrow> bool" where
  "is_ascii_digit c \<longleftrightarrow> 48 \<le> byte c \<and> byte c \<le> 57"

definition is_ascii_hexdigit :: "char \<Rightarrow> bool" where
  "is_ascii_hexdigit c \<longleftrightarrow>
     is_ascii_digit c \<or> (65 \<le> byte c \<and> byte c \<le> 70) \<or> (97 \<le> byte c \<and> byte c \<le> 102)"

section \<open>Prefixes, suffixes and search\<close>

definition starts_with :: "bytes \<Rightarrow> bytes \<Rightarrow> bool" where
  "starts_with s p \<longleftrightarrow> take (length p) s = p"

definition ends_with :: "bytes \<Rightarrow> bytes \<Rightarrow> bool" where
  "ends_with s p \<longleftrightarrow> length p \<le> length s \<and> drop (length s - length p) s = p"

definition strip_prefix :: "bytes \<Rightarrow> bytes \<Rightarrow> bytes option" where
  "strip_prefix s p = (if starts_with s p then Some (drop (length p) s) else None)"

definition strip_suffix :: "bytes \<Rightarrow> bytes \<Rightarrow> bytes option" where
  "strip_suffix s p = (if ends_with s p then Some (take (length s - length p) s) else None)"

text \<open>\<open>windows(k).position(|w| w == pat)\<close> on bytes and \<open>find(pat)\<close> on strings.\<close>

fun find_sub :: "bytes \<Rightarrow> bytes \<Rightarrow> nat option" where
  "find_sub p [] = (if p = [] then Some 0 else None)"
| "find_sub p (c # cs) =
     (if starts_with (c # cs) p then Some 0 else map_option Suc (find_sub p cs))"

definition contains_sub :: "bytes \<Rightarrow> bytes \<Rightarrow> bool" where
  "contains_sub s p \<longleftrightarrow> find_sub p s \<noteq> None"

definition split_once :: "bytes \<Rightarrow> bytes \<Rightarrow> (bytes \<times> bytes) option" where
  "split_once s p =
     (case find_sub p s of None \<Rightarrow> None | Some i \<Rightarrow> Some (take i s, drop (i + length p) s))"

text \<open>\<open>rsplit_once(c)\<close>: split at the last occurrence of a character.\<close>

definition rsplit_once :: "bytes \<Rightarrow> char \<Rightarrow> (bytes \<times> bytes) option" where
  "rsplit_once s c =
     (case find_sub [c] (rev s) of
        None \<Rightarrow> None
      | Some i \<Rightarrow> Some (take (length s - Suc i) s, drop (length s - i) s))"

text \<open>\<open>split(c)\<close> on a character, and \<open>split(pat)\<close> on a non-empty string.\<close>

fun split_char :: "char \<Rightarrow> bytes \<Rightarrow> bytes list" where
  "split_char c [] = [[]]"
| "split_char c (x # xs) =
     (if x = c then [] # split_char c xs
      else (case split_char c xs of [] \<Rightarrow> [[x]] | y # ys \<Rightarrow> (x # y) # ys))"

lemma find_sub_Some_bound: "find_sub p s = Some i \<Longrightarrow> i + length p \<le> length s"
proof (induction s arbitrary: i)
  case Nil
  then show ?case by (auto split: if_splits)
next
  case (Cons c cs)
  show ?case
  proof (cases "starts_with (c # cs) p")
    case True
    then have "length p \<le> length (c # cs)"
      by (metis length_take min.cobounded1 starts_with_def)
    with True Cons.prems show ?thesis by simp
  next
    case False
    with Cons show ?thesis by fastforce
  qed
qed

lemma split_once_length:
  "split_once s p = Some (a, b) \<Longrightarrow> p \<noteq> [] \<Longrightarrow> length b < length s"
  using find_sub_Some_bound [of p s]
  by (cases p) (fastforce simp: split_once_def split: option.splits)+

function split_str :: "bytes \<Rightarrow> bytes \<Rightarrow> bytes list" where
  "split_str p s =
     (if p = [] then [s]
      else case split_once s p of None \<Rightarrow> [s] | Some (a, b) \<Rightarrow> a # split_str p b)"
  by pat_completeness auto
termination split_str
  by (relation "measure (\<lambda>(p, s). length s)") (auto dest: split_once_length)

declare split_str.simps [simp del]

text \<open>\<open>lines()\<close>: \<open>split_inclusive('\n')\<close>, then a terminated line loses its newline and one
  carriage return before it. A last line without a newline keeps a trailing carriage return.\<close>

fun split_inclusive_nl :: "bytes \<Rightarrow> bytes list" where
  "split_inclusive_nl [] = []"
| "split_inclusive_nl (x # xs) =
     (if x = CHR 0x0A then [x] # split_inclusive_nl xs
      else (case split_inclusive_nl xs of [] \<Rightarrow> [[x]] | y # ys \<Rightarrow> (x # y) # ys))"

definition strip_line_end :: "bytes \<Rightarrow> bytes" where
  "strip_line_end l =
     (case strip_suffix l [CHR 0x0A] of
        None \<Rightarrow> l
      | Some l' \<Rightarrow> (case strip_suffix l' [CHR 0x0D] of None \<Rightarrow> l' | Some l'' \<Rightarrow> l''))"

definition str_lines :: "bytes \<Rightarrow> bytes list" where
  "str_lines s = map strip_line_end (split_inclusive_nl s)"

section \<open>Whitespace\<close>

text \<open>
  \<open>char::is_whitespace\<close> is Unicode's \<open>White_Space\<close>. Over UTF-8 bytes, \<open>ws_len s\<close> is the length
  of the white-space character at the head of \<open>s\<close> and 0 where there is none. In valid UTF-8 a
  lead byte stands only at a character boundary, so walking by bytes finds the same characters.
\<close>

definition ws_scalars :: "bytes list" where
  "ws_scalars = [[CHR 0x09], [CHR 0x0A], [CHR 0x0B], [CHR 0x0C], [CHR 0x0D], [CHR 0x20],
     [CHR 0xC2, CHR 0x85], [CHR 0xC2, CHR 0xA0], [CHR 0xE1, CHR 0x9A, CHR 0x80],
     [CHR 0xE2, CHR 0x80, CHR 0xA8], [CHR 0xE2, CHR 0x80, CHR 0xA9],
     [CHR 0xE2, CHR 0x80, CHR 0xAF], [CHR 0xE2, CHR 0x81, CHR 0x9F],
     [CHR 0xE3, CHR 0x80, CHR 0x80]]"

definition is_ws_scalar :: "bytes \<Rightarrow> bool" where
  "is_ws_scalar w \<longleftrightarrow>
     w \<in> set ws_scalars
     \<or> (length w = 3 \<and> take 2 w = [CHR 0xE2, CHR 0x80]
         \<and> 0x80 \<le> byte (w ! 2) \<and> byte (w ! 2) \<le> 0x8A)"

definition ws_len :: "bytes \<Rightarrow> nat" where
  "ws_len s = (if is_ws_scalar (take 1 s) then 1
               else if is_ws_scalar (take 2 s) then 2
               else if is_ws_scalar (take 3 s) then 3 else 0)"

definition ws_len_end :: "bytes \<Rightarrow> nat" where
  "ws_len_end s = (let n = length s in
     if is_ws_scalar (drop (n - 1) s) then 1
     else if is_ws_scalar (drop (n - 2) s) then 2
     else if is_ws_scalar (drop (n - 3) s) then 3 else 0)"

lemma is_ws_scalar_Nil [simp]: "\<not> is_ws_scalar []"
  by (simp add: is_ws_scalar_def ws_scalars_def)

lemma ws_len_Nil [simp]: "ws_len [] = 0"
  by (simp add: ws_len_def)

lemma ws_len_end_Nil [simp]: "ws_len_end [] = 0"
  by (simp add: ws_len_end_def)

lemma ws_len_pos_nonempty: "0 < ws_len s \<Longrightarrow> s \<noteq> []"
  by (cases s) auto

lemma ws_len_end_pos_nonempty: "0 < ws_len_end s \<Longrightarrow> s \<noteq> []"
  by (cases s) auto

function trim_start :: "bytes \<Rightarrow> bytes" where
  "trim_start s = (if ws_len s = 0 then s else trim_start (drop (ws_len s) s))"
  by pat_completeness auto
termination trim_start
  by (relation "measure length") (auto intro: diff_less dest: ws_len_pos_nonempty)

function trim_end :: "bytes \<Rightarrow> bytes" where
  "trim_end s = (if ws_len_end s = 0 then s else trim_end (take (length s - ws_len_end s) s))"
  by pat_completeness auto
termination trim_end
  by (relation "measure length") (auto intro: diff_less dest: ws_len_end_pos_nonempty)

declare trim_start.simps [simp del] trim_end.simps [simp del]

definition trim_ws :: "bytes \<Rightarrow> bytes" where
  "trim_ws s = trim_end (trim_start s)"

text \<open>\<open>find(char::is_whitespace)\<close>.\<close>

fun find_ws :: "bytes \<Rightarrow> nat option" where
  "find_ws [] = None"
| "find_ws (c # cs) = (if ws_len (c # cs) \<noteq> 0 then Some 0 else map_option Suc (find_ws cs))"

lemma find_ws_Some_ws_len: "find_ws s = Some i \<Longrightarrow> i < length s \<and> 0 < ws_len (drop i s)"
  by (induction s arbitrary: i) (auto split: if_splits)

text \<open>\<open>split_whitespace()\<close>: the maximal runs of characters that are not white space.\<close>

function split_whitespace :: "bytes \<Rightarrow> bytes list" where
  "split_whitespace s =
     (if s = [] then []
      else if ws_len s \<noteq> 0 then split_whitespace (drop (ws_len s) s)
      else case find_ws s of
             None \<Rightarrow> [s]
           | Some i \<Rightarrow> take i s # split_whitespace (drop (i + ws_len (drop i s)) s))"
  by pat_completeness auto
termination split_whitespace
  by (relation "measure length") (auto dest: find_ws_Some_ws_len)

declare split_whitespace.simps [simp del]

section \<open>Integers\<close>

definition digit_value :: "char \<Rightarrow> nat option" where
  "digit_value c =
     (if is_ascii_digit c then Some (byte c - 48)
      else if 97 \<le> byte c \<and> byte c \<le> 122 then Some (byte c - 87)
      else if 65 \<le> byte c \<and> byte c \<le> 90 then Some (byte c - 55)
      else None)"

fun digits_value :: "nat \<Rightarrow> nat \<Rightarrow> bytes \<Rightarrow> nat option" where
  "digits_value r acc [] = Some acc"
| "digits_value r acc (c # cs) =
     (case digit_value c of
        None \<Rightarrow> None
      | Some d \<Rightarrow> if d < r then digits_value r (acc * r + d) cs else None)"

text \<open>
  \<open>from_str_radix\<close> of the unsigned types: empty input and a lone sign are errors, one leading
  \<open>+\<close> is accepted, every other character is a digit of the radix, and a value above the type's
  maximum is an error.
\<close>

definition from_str_radix :: "nat \<Rightarrow> nat \<Rightarrow> bytes \<Rightarrow> nat option" where
  "from_str_radix maxv r s =
     (let ds = (if starts_with s ''+'' then drop 1 s else s) in
      if ds = [] then None
      else case digits_value r 0 ds of
             None \<Rightarrow> None
           | Some v \<Rightarrow> if v \<le> maxv then Some v else None)"

definition parse_u64 :: "bytes \<Rightarrow> nat option" where
  "parse_u64 s = from_str_radix (2 ^ 64 - 1) 10 s"

definition parse_u32 :: "bytes \<Rightarrow> nat option" where
  "parse_u32 s = from_str_radix (2 ^ 32 - 1) 10 s"

definition parse_u16 :: "bytes \<Rightarrow> nat option" where
  "parse_u16 s = from_str_radix (2 ^ 16 - 1) 10 s"

text \<open>\<open>usize\<close> is 64 bits wide on the targets the sandbox runs on.\<close>

definition parse_usize_hex :: "bytes \<Rightarrow> nat option" where
  "parse_usize_hex s = from_str_radix (2 ^ 64 - 1) 16 s"

text \<open>\<open>checked_add\<close> on \<open>usize\<close>.\<close>

definition checked_add_usize :: "nat \<Rightarrow> nat \<Rightarrow> nat option" where
  "checked_add_usize a b = (if a + b < 2 ^ 64 then Some (a + b) else None)"

definition digit_char :: "nat \<Rightarrow> char" where
  "digit_char d = (if d < 10 then char_of (48 + d) else char_of (87 + d))"

text \<open>\<open>{}\<close> (radix 10) and \<open>{:x}\<close> (radix 16).\<close>

fun show_radix :: "nat \<Rightarrow> nat \<Rightarrow> bytes" where
  "show_radix r n =
     (if n < r \<or> r < 2 then [digit_char n] else show_radix r (n div r) @ [digit_char (n mod r)])"

declare show_radix.simps [simp del]

definition show_nat :: "nat \<Rightarrow> bytes" where
  "show_nat n = show_radix 10 n"

definition show_int :: "int \<Rightarrow> bytes" where
  "show_int i = (if i < 0 then ''-'' @ show_nat (nat (- i)) else show_nat (nat i))"

text \<open>\<open>parse::<i64>()\<close>.\<close>

definition parse_i64 :: "bytes \<Rightarrow> int option" where
  "parse_i64 s =
     (if starts_with s ''-'' then
        (let ds = drop 1 s in
         if ds = [] then None
         else case digits_value 10 0 ds of None \<Rightarrow> None | Some v \<Rightarrow> if v \<le> 2 ^ 63 then Some (- int v) else None)
      else map_option int (from_str_radix (2 ^ 63 - 1) 10 s))"

definition show_hex :: "nat \<Rightarrow> bytes" where
  "show_hex n = show_radix 16 n"

text \<open>\<open>join(sep)\<close> on a slice of strings.\<close>

fun join_str :: "bytes \<Rightarrow> bytes list \<Rightarrow> bytes" where
  "join_str sep [] = []"
| "join_str sep [x] = x"
| "join_str sep (x # y # zs) = x @ sep @ join_str sep (y # zs)"

section \<open>Facts: search and splitting\<close>

lemma starts_with_append [simp]: "starts_with (p @ s) p"
  by (simp add: starts_with_def)

lemma starts_with_Nil [simp]: "starts_with s []"
  by (simp add: starts_with_def)

lemma starts_with_split: "starts_with s p \<longleftrightarrow> (\<exists>t. s = p @ t)"
  by (metis append_take_drop_id starts_with_append starts_with_def)

lemma ends_with_split: "ends_with s p \<longleftrightarrow> (\<exists>t. s = t @ p)"
proof
  assume "ends_with s p"
  then have "s = take (length s - length p) s @ p"
    by (metis append_take_drop_id ends_with_def)
  then show "\<exists>t. s = t @ p" by blast
qed (auto simp: ends_with_def)

lemma find_sub_Some_match: "find_sub p s = Some i \<Longrightarrow> starts_with (drop i s) p"
  by (induction s arbitrary: i) (auto split: if_splits)

lemma find_sub_Some_first: "find_sub p s = Some i \<Longrightarrow> j < i \<Longrightarrow> \<not> starts_with (drop j s) p"
proof (induction s arbitrary: i j)
  case (Cons c cs)
  from Cons.prems obtain i' where i': "find_sub p cs = Some i'" "i = Suc i'"
    and no: "\<not> starts_with (c # cs) p"
    by (auto split: if_splits)
  show ?case
  proof (cases j)
    case 0
    with no show ?thesis by simp
  next
    case (Suc j')
    with Cons.IH [OF i'(1), of j'] Cons.prems(2) i'(2) show ?thesis by simp
  qed
qed (auto split: if_splits)

lemma find_sub_None_no_match: "find_sub p s = None \<Longrightarrow> \<not> starts_with (drop j s) p"
proof (induction s arbitrary: j)
  case Nil
  then show ?case by (auto simp: starts_with_def split: if_splits)
next
  case (Cons c cs)
  then show ?case by (cases j) (auto split: if_splits)
qed

lemma find_sub_at:
  assumes "starts_with (drop i s) p" "i \<le> length s"
    and "\<And>j. j < i \<Longrightarrow> \<not> starts_with (drop j s) p"
  shows "find_sub p s = Some i"
proof (cases "find_sub p s")
  case None
  with assms(1) show ?thesis using find_sub_None_no_match by blast
next
  case (Some k)
  have "\<not> k < i" using assms(3) [of k] find_sub_Some_match [OF Some] by blast
  moreover have "\<not> i < k" using find_sub_Some_first [OF Some, of i] assms(1) by blast
  ultimately show ?thesis using Some by simp
qed

lemma split_once_Some:
  assumes "split_once s p = Some (a, b)"
  shows "s = a @ p @ b"
proof -
  obtain i where i: "find_sub p s = Some i" "a = take i s" "b = drop (i + length p) s"
    using assms by (auto simp: split_once_def split: option.splits)
  obtain t where t: "drop i s = p @ t"
    using find_sub_Some_match [OF i(1)] starts_with_split by blast
  then have "b = t"
    using i(3) by (metis add.commute append_eq_conv_conj drop_drop)
  with i(2) t show ?thesis by (metis append_take_drop_id)
qed

lemma find_sub_single: "find_sub [c] s = None \<longleftrightarrow> c \<notin> set s"
  by (induction s) (auto simp: starts_with_def)

lemma find_sub_char_Some: "find_sub [c] s = Some i \<Longrightarrow> c \<notin> set (take i s) \<and> s ! i = c \<and> i < length s"
  by (induction s arbitrary: i) (auto simp: starts_with_def split: if_splits)

lemma find_sub_char_append:
  "c \<notin> set a \<Longrightarrow> find_sub [c] (a @ c # b) = Some (length a)"
  by (induction a) (auto simp: starts_with_def)

lemma split_once_char_append:
  "c \<notin> set a \<Longrightarrow> split_once (a @ c # b) [c] = Some (a, b)"
  by (simp add: split_once_def find_sub_char_append)

lemma contains_sub_char: "contains_sub s [c] \<longleftrightarrow> c \<in> set s"
  by (simp add: contains_sub_def find_sub_single)

lemma split_char_nonempty [simp]: "split_char c s \<noteq> []"
  by (induction s) (auto split: list.splits)

lemma split_char_join: "join_str [c] (split_char c s) = s"
proof (induction s)
  case (Cons x xs)
  obtain y ys where y: "split_char c xs = y # ys"
    by (cases "split_char c xs") auto
  with Cons show ?case by (cases ys) auto
qed simp

lemma split_char_single: "c \<notin> set w \<Longrightarrow> split_char c w = [w]"
  by (induction w) auto

lemma split_char_append_sep:
  "c \<notin> set w \<Longrightarrow> split_char c (w @ c # s) = w # split_char c s"
  by (induction w) auto

lemma split_char_join_inverse:
  "ws \<noteq> [] \<Longrightarrow> (\<And>w. w \<in> set ws \<Longrightarrow> c \<notin> set w) \<Longrightarrow> split_char c (join_str [c] ws) = ws"
proof (induction ws)
  case (Cons w ws)
  show ?case
  proof (cases ws)
    case Nil
    with Cons.prems show ?thesis by (simp add: split_char_single)
  next
    case (Cons v vs)
    with Cons.IH Cons.prems show ?thesis by (simp add: split_char_append_sep)
  qed
qed simp

lemma split_char_no_sep: "w \<in> set (split_char c s) \<Longrightarrow> c \<notin> set w"
  by (induction s arbitrary: w) (auto split: list.splits if_splits)

lemma split_char_length_count: "length (split_char c s) = Suc (count_list s c)"
proof (induction s)
  case (Cons x xs)
  obtain y ys where "split_char c xs = y # ys"
    by (cases "split_char c xs") auto
  with Cons show ?case by auto
qed simp

lemma join_str_Cons: "ys \<noteq> [] \<Longrightarrow> join_str sep (x # ys) = x @ sep @ join_str sep ys"
  by (cases ys) auto

lemma split_str_join: "p \<noteq> [] \<Longrightarrow> join_str p (split_str p s) = s"
proof (induction p s rule: split_str.induct)
  case (1 p s)
  show ?case
  proof (cases "split_once s p")
    case None
    with 1 show ?thesis by (simp add: split_str.simps [of p s])
  next
    case (Some ab)
    then obtain a b where ab: "split_once s p = Some (a, b)" by (cases ab) auto
    have "split_str p b \<noteq> []" using 1(2) by (auto simp: split_str.simps [of p b] split: option.splits)
    then have "join_str p (a # split_str p b) = a @ p @ b"
      using 1(1) [OF 1(2) ab] 1(2) by (simp add: join_str_Cons)
    moreover have "split_str p s = a # split_str p b"
      using ab 1(2) by (subst split_str.simps) simp
    ultimately show ?thesis using split_once_Some [OF ab] by simp
  qed
qed

section \<open>Facts: case mapping\<close>

lemma byte_char_of [simp]: "n < 256 \<Longrightarrow> byte (char_of n) = n"
  by simp

lemma ascii_lower_char_idem [simp]: "ascii_lower_char (ascii_lower_char c) = ascii_lower_char c"
  by (auto simp: ascii_lower_char_def)

lemma to_ascii_lowercase_idem [simp]:
  "to_ascii_lowercase (to_ascii_lowercase s) = to_ascii_lowercase s"
  by (simp add: to_ascii_lowercase_def)

lemma length_to_ascii_lowercase [simp]: "length (to_ascii_lowercase s) = length s"
  by (simp add: to_ascii_lowercase_def)

lemma eq_ignore_ascii_case_refl [simp]: "eq_ignore_ascii_case s s"
  by (simp add: eq_ignore_ascii_case_def)

section \<open>Facts: white space\<close>

lemma trim_ws_id: "ws_len s = 0 \<Longrightarrow> ws_len_end s = 0 \<Longrightarrow> trim_ws s = s"
  by (subst trim_ws_def, subst trim_start.simps, simp, subst trim_end.simps, simp)

lemma ws_scalar_ascii:
  assumes "is_ws_scalar w" "byte (hd w) < 0x80 \<or> byte (last w) < 0x80"
  shows "length w = 1"
proof -
  have "byte (hd w) = 0xE2 \<and> 0x80 \<le> byte (last w)"
    if l: "length w = 3" and w: "take 2 w = [CHR 0xE2, CHR 0x80]" "0x80 \<le> byte (w ! 2)"
  proof -
    obtain a b c where "w = [a, b, c]" using l by (auto simp: numeral_3_eq_3 length_Suc_conv)
    then show ?thesis using w by simp
  qed
  moreover have "\<forall>v\<in>set ws_scalars. length v = 1 \<or> 0x80 \<le> byte (hd v) \<and> 0x80 \<le> byte (last v)"
    by (simp add: ws_scalars_def)
  ultimately show ?thesis using assms unfolding is_ws_scalar_def by fastforce
qed

lemma ws_len_ascii:
  assumes "byte c < 0x80"
  shows "ws_len (c # s) = (if is_ws_scalar [c] then 1 else 0)"
proof -
  have "is_ws_scalar (c # take n s) \<Longrightarrow> is_ws_scalar [c]" for n
    using ws_scalar_ascii [of "c # take n s"] assms by (auto simp: min_def split: if_splits)
  from this [of 1] this [of 2] show ?thesis by (auto simp: ws_len_def)
qed

lemma ws_len_end_ascii:
  assumes "s \<noteq> []" "byte (last s) < 0x80" "\<not> is_ws_scalar [last s]"
  shows "ws_len_end s = 0"
proof -
  have "\<not> is_ws_scalar (drop n s)" for n
  proof
    assume w: "is_ws_scalar (drop n s)"
    then have n: "n < length s" by (metis drop_all is_ws_scalar_Nil not_le)
    then have "length (drop n s) = 1" using ws_scalar_ascii [OF w] assms(2) by simp
    then obtain x where "drop n s = [x]" by (metis One_nat_def length_0_conv length_Suc_conv)
    then have "drop n s = [last s]" using n by (metis last_drop last_ConsL)
    then show False using w assms(3) by simp
  qed
  then show ?thesis by (simp add: ws_len_end_def Let_def)
qed

definition no_ws :: "bytes \<Rightarrow> bool" where
  "no_ws w \<longleftrightarrow> (\<forall>c\<in>set w. byte c < 0x80 \<and> \<not> is_ws_scalar [c])"

lemma find_ws_word: "no_ws w \<Longrightarrow> find_ws (w @ CHR 0x20 # s) = Some (length w)"
  by (induction w) (auto simp: no_ws_def ws_len_ascii is_ws_scalar_def ws_scalars_def)

lemma no_ws_trim: "no_ws s \<Longrightarrow> trim_ws s = s"
proof (cases "s = []")
  case False
  assume "no_ws s"
  then have "no_ws [hd s]" "no_ws [last s]" using False by (auto simp: no_ws_def)
  then show ?thesis using False ws_len_end_ascii [of s] ws_len_ascii [of "hd s" "tl s"]
    by (intro trim_ws_id) (auto simp: no_ws_def)
qed (simp add: trim_ws_id)

section \<open>Facts: line ends\<close>

lemma length_crlf [simp]: "length crlf = 2" and length_crlf2 [simp]: "length crlf2 = 4"
  by (simp_all add: crlf_def crlf2_def)

lemma crlf2_crlf: "crlf2 = crlf @ crlf"
  by (simp add: crlf_def crlf2_def)

lemma starts_with_append_mono: "starts_with s p \<Longrightarrow> starts_with (s @ t) p"
  by (auto simp: starts_with_split)

lemma find_sub_append_Some: "find_sub p s = Some i \<Longrightarrow> find_sub p (s @ t) = Some i"
proof -
  assume a: "find_sub p s = Some i"
  have b: "i + length p \<le> length s" by (rule find_sub_Some_bound [OF a])
  have "\<not> starts_with (drop j (s @ t)) p" if "j < i" for j
    using find_sub_Some_first [OF a that] b that by (auto simp: starts_with_def)
  then show ?thesis
    using find_sub_Some_match [OF a] b
    by (intro find_sub_at) (auto simp: starts_with_append_mono)
qed

lemma starts_with_crlf:
  "starts_with (drop j s) crlf \<longleftrightarrow> Suc j < length s \<and> s ! j = CHR 0x0D \<and> s ! Suc j = CHR 0x0A"
proof (cases "Suc j < length s")
  case True
  then have "drop j s = s ! j # s ! Suc j # drop (Suc (Suc j)) s"
    by (simp add: Cons_nth_drop_Suc)
  then show ?thesis using True by (simp add: starts_with_def crlf_def)
next
  case False
  then have "length (take (length crlf) (drop j s)) < length crlf" by simp
  then show ?thesis using False unfolding starts_with_def by (metis less_irrefl)
qed

lemma find_crlf_append: "find_sub crlf s = None \<Longrightarrow> find_sub crlf (s @ crlf @ t) = Some (length s)"
proof (intro find_sub_at)
  fix j assume n: "find_sub crlf s = None" and j: "j < length s"
  have "\<not> starts_with (drop j s) crlf" by (rule find_sub_None_no_match [OF n])
  then have "\<not> (Suc j < length s \<and> s ! j = CHR 0x0D \<and> s ! Suc j = CHR 0x0A)"
    by (simp add: starts_with_crlf)
  moreover have "(s @ crlf @ t) ! Suc j = CHR 0x0D" if "Suc j = length s"
    using that by (simp add: nth_append crlf_def)
  ultimately show "\<not> starts_with (drop j (s @ crlf @ t)) crlf"
    using j by (cases "Suc j = length s") (auto simp: starts_with_crlf nth_append simp del: drop_append)
qed auto

lemma find_crlf_no_cr: "CHR 0x0D \<notin> set s \<Longrightarrow> find_sub crlf s = None"
  by (induction s) (auto simp: starts_with_def crlf_def)

lemma split_str_crlf_append:
  "split_str crlf (s @ crlf @ t) = split_str crlf s @ split_str crlf t"
proof (induction crlf s rule: split_str.induct)
  case (1 s)
  have ne: "crlf \<noteq> []" by (simp add: crlf_def)
  show ?case
  proof (cases "find_sub crlf s")
    case None
    then have "split_once (s @ crlf @ t) crlf = Some (s, t)" "split_once s crlf = None"
      by (simp_all add: split_once_def find_crlf_append)
    then show ?thesis using ne by (simp add: split_str.simps [of crlf "s @ crlf @ t"] split_str.simps [of crlf s])
  next
    case (Some i)
    have b: "i + 2 \<le> length s" using find_sub_Some_bound [OF Some] by simp
    have o: "split_once s crlf = Some (take i s, drop (i + 2) s)" using Some by (simp add: split_once_def)
    have "split_once (s @ crlf @ t) crlf = Some (take i s, drop (i + 2) s @ crlf @ t)"
      using find_sub_append_Some [OF Some, of "crlf @ t"] b by (simp add: split_once_def)
    then show ?thesis using 1 [OF ne o refl] o ne
      by (simp add: split_str.simps [of crlf "s @ crlf @ t"] split_str.simps [of crlf s])
  qed
qed

text \<open>Before the blank line that ends a header block, no line but the first is empty.\<close>

lemma split_str_crlf_nonempty:
  assumes "\<And>j. j < length s \<Longrightarrow> \<not> starts_with (drop j (s @ crlf2)) crlf2"
  shows "[] \<notin> set (tl (split_str crlf s))"
  using assms
proof (induction crlf s rule: split_str.induct)
  case (1 s)
  have ne: "crlf \<noteq> []" by (simp add: crlf_def)
  show ?case
  proof (cases "split_once s crlf")
    case None
    then show ?thesis using ne by (simp add: split_str.simps [of crlf s])
  next
    case (Some ab)
    obtain a b where ab: "ab = (a, b)" by force
    have s: "s = a @ crlf @ b" using Some ab by (simp add: split_once_Some)
    have e: "split_str crlf s = a # split_str crlf b" using Some ab ne by (simp add: split_str.simps [of crlf s])
    have "\<not> starts_with (drop j (b @ crlf2)) crlf2" if "j < length b" for j
      using 1(2) [of "length a + 2 + j"] that by (simp add: s)
    then have tl: "[] \<notin> set (tl (split_str crlf b))" using 1(1) [OF ne Some ab [symmetric]] by simp
    have "hd (split_str crlf b) \<noteq> []"
    proof
      assume h: "hd (split_str crlf b) = []"
      have "b = [] \<or> (\<exists>b'. b = crlf @ b')"
      proof (cases "split_once b crlf")
        case None
        then show ?thesis using h ne by (simp add: split_str.simps [of crlf b])
      next
        case (Some xy)
        then show ?thesis using h ne split_once_Some [of b crlf "fst xy" "snd xy"]
          by (cases xy) (auto simp: split_str.simps [of crlf b])
      qed
      then have "starts_with (drop (length a) (s @ crlf2)) crlf2"
        by (auto simp: s crlf2_crlf starts_with_def)
      then show False using 1(2) [of "length a"] by (simp add: s)
    qed
    moreover have "split_str crlf b \<noteq> []" using ne by (subst split_str.simps) (auto split: option.splits)
    ultimately show ?thesis using tl e by (cases "split_str crlf b") auto
  qed
qed

section \<open>Facts: integers\<close>

lemma digits_value_append:
  "digits_value r acc (xs @ ys) =
     (case digits_value r acc xs of None \<Rightarrow> None | Some v \<Rightarrow> digits_value r v ys)"
  by (induction r acc xs rule: digits_value.induct) (auto split: option.splits)

lemma digit_value_digit_char: "d < 36 \<Longrightarrow> digit_value (digit_char d) = Some d"
  by (auto simp: digit_value_def digit_char_def is_ascii_digit_def)

lemma show_radix_nonempty [simp]: "show_radix r n \<noteq> []"
  by (subst show_radix.simps) simp

lemma digits_value_show_radix:
  "2 \<le> r \<Longrightarrow> r \<le> 36 \<Longrightarrow> digits_value r 0 (show_radix r n) = Some n"
proof (induction r n rule: show_radix.induct)
  case (1 r n)
  show ?case
  proof (cases "n < r")
    case True
    with 1 show ?thesis by (simp add: show_radix.simps [of r n] digit_value_digit_char)
  next
    case False
    with 1 have ih: "digits_value r 0 (show_radix r (n div r)) = Some (n div r)" by simp
    have "n mod r < r" using 1(2) by simp
    then have "digit_value (digit_char (n mod r)) = Some (n mod r)"
      using 1(3) by (intro digit_value_digit_char) linarith
    with False 1 ih show ?thesis
      by (simp add: show_radix.simps [of r n] digits_value_append)
  qed
qed

lemma digit_char_not_plus: "d < 36 \<Longrightarrow> digit_char d \<noteq> CHR ''+''"
proof
  assume "d < 36" "digit_char d = CHR ''+''"
  then have "digit_value (CHR ''+'') = Some d" using digit_value_digit_char by metis
  then show False by (simp add: digit_value_def is_ascii_digit_def)
qed

lemma set_show_radix: "2 \<le> r \<Longrightarrow> c \<in> set (show_radix r n) \<Longrightarrow> \<exists>d<r. c = digit_char d"
proof (induction r n rule: show_radix.induct)
  case (1 r n)
  show ?case
  proof (cases "n < r")
    case False
    with 1(2,3) have "c \<in> set (show_radix r (n div r)) \<or> c = digit_char (n mod r)"
      by (auto simp: show_radix.simps [of r n])
    moreover have "n mod r < r" using 1(2) by simp
    ultimately show ?thesis using 1(1,2) False by fastforce
  qed (use 1(3) in \<open>auto simp: show_radix.simps [of r n]\<close>)
qed

lemma from_str_radix_show:
  assumes "2 \<le> r" "r \<le> 36" "n \<le> maxv"
  shows "from_str_radix maxv r (show_radix r n) = Some n"
proof -
  obtain c cs where s: "show_radix r n = c # cs" by (cases "show_radix r n") auto
  then obtain d where "d < r" "c = digit_char d" using set_show_radix assms(1) by (metis list.set_intros(1))
  then have "c \<noteq> CHR ''+''" using digit_char_not_plus assms(2) by auto
  then have "\<not> starts_with (show_radix r n) ''+''" using s by (simp add: starts_with_def)
  then show ?thesis
    using assms digits_value_show_radix [of r n] by (simp add: from_str_radix_def Let_def)
qed

lemma from_str_radix_bound: "from_str_radix maxv r s = Some v \<Longrightarrow> v \<le> maxv"
  by (auto simp: from_str_radix_def Let_def split: option.splits if_splits)

lemma digit_char_byte: "d < 36 \<Longrightarrow> byte (digit_char d) \<in> {48..57} \<union> {97..122}"
  by (auto simp: digit_char_def)

lemma show_radix_bytes:
  "2 \<le> r \<Longrightarrow> r \<le> 36 \<Longrightarrow> c \<in> set (show_radix r n) \<Longrightarrow> byte c \<in> {48..57} \<union> {97..122}"
  using set_show_radix [of r c n] digit_char_byte by (metis less_le_trans)

lemma digit_bytes_no_ws: "byte c \<in> {48..57} \<union> {97..122} \<Longrightarrow> byte c < 0x80 \<and> \<not> is_ws_scalar [c]"
  by (auto simp: is_ws_scalar_def ws_scalars_def)

lemma show_hex_no_ws: "no_ws (show_hex n)"
  unfolding no_ws_def show_hex_def using show_radix_bytes [of 16] digit_bytes_no_ws by simp

end
