(* ===== verification/Rust_Utf8.thy ===== *)
theory Rust_Utf8
  imports Rust_Text
begin

text \<open>
  UTF-8 as \<open>std::str::from_utf8\<close> and \<open>String::from_utf8_lossy\<close> see it. \<open>utf8_step\<close> follows
  \<open>Utf8Chunks::next\<close>: on non-empty input it returns the length of the valid character at the head
  (\<^const>\<open>Inr\<close>) or the length of the maximal invalid prefix to be replaced (\<^const>\<open>Inl\<close>).
\<close>

definition in_range :: "nat \<Rightarrow> nat \<Rightarrow> nat \<Rightarrow> bool" where
  "in_range lo hi x \<longleftrightarrow> lo \<le> x \<and> x \<le> hi"

definition byte_at :: "bytes \<Rightarrow> nat \<Rightarrow> nat" where
  "byte_at s i = (if i < length s then byte (s ! i) else 0)"

definition is_cont :: "nat \<Rightarrow> bool" where
  "is_cont b \<longleftrightarrow> in_range 0x80 0xBF b"

definition utf8_second3 :: "nat \<Rightarrow> nat \<Rightarrow> bool" where
  "utf8_second3 b0 b1 \<longleftrightarrow>
     (b0 = 0xE0 \<and> in_range 0xA0 0xBF b1) \<or> (in_range 0xE1 0xEC b0 \<and> is_cont b1)
     \<or> (b0 = 0xED \<and> in_range 0x80 0x9F b1) \<or> (in_range 0xEE 0xEF b0 \<and> is_cont b1)"

definition utf8_second4 :: "nat \<Rightarrow> nat \<Rightarrow> bool" where
  "utf8_second4 b0 b1 \<longleftrightarrow>
     (b0 = 0xF0 \<and> in_range 0x90 0xBF b1) \<or> (in_range 0xF1 0xF3 b0 \<and> is_cont b1)
     \<or> (b0 = 0xF4 \<and> in_range 0x80 0x8F b1)"

definition utf8_step :: "bytes \<Rightarrow> nat + nat" where
  "utf8_step s =
     (let b0 = byte_at s 0; b1 = byte_at s 1; b2 = byte_at s 2; b3 = byte_at s 3 in
      if b0 < 0x80 then Inr 1
      else if in_range 0xC2 0xDF b0 then (if is_cont b1 then Inr 2 else Inl 1)
      else if in_range 0xE0 0xEF b0 then
        (if \<not> utf8_second3 b0 b1 then Inl 1 else if is_cont b2 then Inr 3 else Inl 2)
      else if in_range 0xF0 0xF4 b0 then
        (if \<not> utf8_second4 b0 b1 then Inl 1
         else if \<not> is_cont b2 then Inl 2 else if is_cont b3 then Inr 4 else Inl 3)
      else Inl 1)"

definition replacement_char :: bytes where
  "replacement_char = [CHR 0xEF, CHR 0xBF, CHR 0xBD]"

lemma utf8_step_pos:
  "utf8_step s = Inr n \<Longrightarrow> 0 < n"
  "utf8_step s = Inl n \<Longrightarrow> 0 < n"
  by (auto simp: utf8_step_def Let_def split: if_splits)

function utf8_valid :: "bytes \<Rightarrow> bool" where
  "utf8_valid s \<longleftrightarrow>
     (if s = [] then True
      else case utf8_step s of Inl n \<Rightarrow> False | Inr n \<Rightarrow> utf8_valid (drop n s))"
  by pat_completeness auto
termination utf8_valid
  by (relation "measure length") (auto intro!: diff_less dest: utf8_step_pos)

function from_utf8_lossy :: "bytes \<Rightarrow> bytes" where
  "from_utf8_lossy s =
     (if s = [] then []
      else case utf8_step s of
             Inr n \<Rightarrow> take n s @ from_utf8_lossy (drop n s)
           | Inl n \<Rightarrow> replacement_char @ from_utf8_lossy (drop n s))"
  by pat_completeness auto
termination from_utf8_lossy
  by (relation "measure length") (auto intro!: diff_less dest: utf8_step_pos)

declare utf8_valid.simps [simp del] from_utf8_lossy.simps [simp del]

text \<open>The characters of a string.\<close>

function scalars :: "bytes \<Rightarrow> bytes list" where
  "scalars s = (if s = [] then [] else case utf8_step s of Inl n \<Rightarrow> take n s # scalars (drop n s) | Inr n \<Rightarrow> take n s # scalars (drop n s))"
  by pat_completeness auto
termination scalars
  by (relation "measure length") (auto dest: utf8_step_pos)

declare scalars.simps [simp del]

text \<open>\<open>std::str::from_utf8\<close>.\<close>

definition from_utf8 :: "bytes \<Rightarrow> bytes option" where
  "from_utf8 s = (if utf8_valid s then Some s else None)"

text \<open>\<open>is_char_boundary\<close>: slicing a string elsewhere panics.\<close>

definition is_char_boundary :: "bytes \<Rightarrow> nat \<Rightarrow> bool" where
  "is_char_boundary s i \<longleftrightarrow> i = 0 \<or> i = length s \<or> (i < length s \<and> \<not> is_cont (byte (s ! i)))"

definition is_ascii :: "bytes \<Rightarrow> bool" where
  "is_ascii s \<longleftrightarrow> (\<forall>c\<in>set s. byte c < 0x80)"

section \<open>Facts\<close>

lemma utf8_valid_Nil [simp]: "utf8_valid []"
  by (simp add: utf8_valid.simps)

lemma from_utf8_lossy_Nil [simp]: "from_utf8_lossy [] = []"
  by (simp add: from_utf8_lossy.simps)

lemma from_utf8_lossy_valid_id: "utf8_valid s \<Longrightarrow> from_utf8_lossy s = s"
proof (induction s rule: utf8_valid.induct)
  case (1 s)
  show ?case
  proof (cases "s = []")
    case False
    then obtain n where n: "utf8_step s = Inr n" "utf8_valid (drop n s)"
      using 1(2) by (subst (asm) utf8_valid.simps) (auto split: sum.splits)
    with 1(1) False have "from_utf8_lossy (drop n s) = drop n s" by blast
    with False n show ?thesis by (subst from_utf8_lossy.simps) simp
  qed simp
qed

lemma utf8_step_ascii: "s \<noteq> [] \<Longrightarrow> byte (hd s) < 0x80 \<Longrightarrow> utf8_step s = Inr 1"
  by (cases s) (auto simp: utf8_step_def byte_at_def)

lemma is_ascii_valid: "is_ascii s \<Longrightarrow> utf8_valid s"
proof (induction s)
  case (Cons c cs)
  then have "utf8_step (c # cs) = Inr 1" by (simp add: utf8_step_ascii is_ascii_def)
  with Cons show ?case by (subst utf8_valid.simps) (simp add: is_ascii_def)
qed simp

lemma from_utf8_lossy_ascii: "is_ascii s \<Longrightarrow> from_utf8_lossy s = s"
  by (simp add: from_utf8_lossy_valid_id is_ascii_valid)

text \<open>The first bytes alone decide a step, so a valid character stays valid before any rest.\<close>

lemma byte_at_append: "i < length s \<Longrightarrow> byte_at (s @ t) i = byte_at s i"
  by (simp add: byte_at_def nth_append)

lemma byte_at_take: "i < n \<Longrightarrow> byte_at (take n s) i = byte_at s i"
  by (simp add: byte_at_def)

lemma byte_at_pos: "0 < byte_at s i \<Longrightarrow> i < length s"
  by (auto simp: byte_at_def split: if_splits)

lemma is_cont_byte_at: "is_cont (byte_at s i) \<Longrightarrow> i < length s"
  by (auto simp: is_cont_def in_range_def intro: byte_at_pos)

lemma utf8_second3_byte_at: "utf8_second3 b0 (byte_at s i) \<Longrightarrow> i < length s"
  by (auto simp: utf8_second3_def is_cont_def in_range_def intro: byte_at_pos)

lemma utf8_second4_byte_at: "utf8_second4 b0 (byte_at s i) \<Longrightarrow> i < length s"
  by (auto simp: utf8_second4_def is_cont_def in_range_def intro: byte_at_pos)

lemma utf8_step_Inr_bound: "utf8_step s = Inr n \<Longrightarrow> s \<noteq> [] \<Longrightarrow> n \<le> length s"
  by (auto simp: utf8_step_def Let_def Suc_le_eq split: if_splits dest: is_cont_byte_at)

lemma utf8_step_Inr_append:
  assumes "utf8_step s = Inr n" "s \<noteq> []"
  shows "utf8_step (s @ t) = Inr n"
proof -
  have b: "\<And>i. i < n \<Longrightarrow> byte_at (s @ t) i = byte_at s i"
    using utf8_step_Inr_bound [OF assms] by (simp add: byte_at_append)
  have "0 < n" using assms(1) by (rule utf8_step_pos)
  then have b0: "byte_at (s @ t) 0 = byte_at s 0" by (rule b)
  show ?thesis
    using assms(1) b [of 1] b [of 2] b [of 3]
    by (auto simp: utf8_step_def Let_def b0 split: if_splits)
qed

lemma utf8_valid_append: "utf8_valid s \<Longrightarrow> utf8_valid t \<Longrightarrow> utf8_valid (s @ t)"
proof (induction s rule: utf8_valid.induct)
  case (1 s)
  show ?case
  proof (cases "s = []")
    case False
    then obtain n where n: "utf8_step s = Inr n" "utf8_valid (drop n s)"
      using 1(2) by (subst (asm) utf8_valid.simps) (auto split: sum.splits)
    have "utf8_valid (drop n s @ t)" using 1(1) [OF False n(1) n(2) 1(3)] .
    moreover have "drop n (s @ t) = drop n s @ t"
      using utf8_step_Inr_bound [OF n(1) False] by simp
    ultimately show ?thesis
      using False utf8_step_Inr_append [OF n(1) False, of t] by (subst utf8_valid.simps) simp
  qed (use 1(3) in simp)
qed

lemma utf8_valid_concat: "(\<And>w. w \<in> set ws \<Longrightarrow> utf8_valid w) \<Longrightarrow> utf8_valid (concat ws)"
  by (induction ws) (auto intro: utf8_valid_append)

lemma utf8_valid_replacement_char: "utf8_valid replacement_char"
  by (simp add: utf8_valid.simps replacement_char_def utf8_step_def byte_at_def
      utf8_second3_def is_cont_def in_range_def)

lemma utf8_step_Inr_take_valid:
  assumes "utf8_step s = Inr n" "s \<noteq> []"
  shows "utf8_valid (take n s)"
proof -
  have b: "\<And>i. i < n \<Longrightarrow> byte_at (take n s) i = byte_at s i" by (simp add: byte_at_take)
  have n: "0 < n" using assms(1) by (rule utf8_step_pos)
  have "utf8_step (take n s) = Inr n"
    using assms(1) b [OF n] b [of 1] b [of 2] b [of 3]
    by (auto simp: utf8_step_def Let_def split: if_splits)
  with n assms(2) show ?thesis by (subst utf8_valid.simps) simp
qed

text \<open>The lossy conversion always yields a string, and leaves a string alone.\<close>

lemma from_utf8_lossy_valid: "utf8_valid (from_utf8_lossy s)"
proof (induction s rule: from_utf8_lossy.induct)
  case (1 s)
  show ?case
  proof (cases "s = []")
    case False
    with 1 utf8_step_Inr_take_valid [of s] show ?thesis
      by (subst from_utf8_lossy.simps)
        (auto intro!: utf8_valid_append utf8_valid_replacement_char split: sum.splits)
  qed simp
qed

end
