(* ===== verification/Rust_Map.thy ===== *)
theory Rust_Map
  imports Prelude
begin

text \<open>
  Rust's keyed containers. A \<open>HashMap\<close> is the list of its entries in some iteration order, a
  \<open>BTreeMap\<close> (which \<open>serde_json::Map\<close> is, the \<open>preserve_order\<close> feature being off) the list of its
  entries in key order. \<open>keyed_map\<close> is the contract both promise; what a client needs of a map is
  proved once from the contract and obtained for both by interpretation.
\<close>

section \<open>The contract\<close>

locale keyed_map =
  fixes inv :: "('k \<times> 'v) list \<Rightarrow> bool"
    and ins :: "'k \<Rightarrow> 'v \<Rightarrow> ('k \<times> 'v) list \<Rightarrow> ('k \<times> 'v) list"
    and del :: "'k \<Rightarrow> ('k \<times> 'v) list \<Rightarrow> ('k \<times> 'v) list"
  assumes inv_empty: "inv []"
    and inv_ins: "inv m \<Longrightarrow> inv (ins k v m)"
    and inv_del: "inv m \<Longrightarrow> inv (del k m)"
    and inv_distinct: "inv m \<Longrightarrow> distinct (map fst m)"
    and get_ins: "inv m \<Longrightarrow> map_of (ins k v m) = (map_of m)(k \<mapsto> v)"
    and get_del: "inv m \<Longrightarrow> map_of (del k m) = (map_of m)(k := None)"
begin

text \<open>\<open>collect()\<close> inserts the pairs of an iterator one after the other.\<close>

lemma inv_fold_ins: "inv m \<Longrightarrow> inv (fold (\<lambda>(k, v). ins k v) kvs m)"
  by (induction kvs arbitrary: m) (auto intro: inv_ins)

lemma get_fold_ins:
  "inv m \<Longrightarrow> map_of (fold (\<lambda>(k, v). ins k v) kvs m) = map_of m ++ map_of (rev kvs)"
proof (induction kvs arbitrary: m)
  case (Cons kv kvs)
  obtain k v where kv: "kv = (k, v)" by force
  have "inv (ins k v m)" using Cons.prems by (rule inv_ins)
  from Cons.IH [OF this] kv Cons.prems show ?case
    by (simp add: get_ins map_add_def fun_eq_iff split: option.splits)
qed simp

lemma inv_collect: "inv (fold (\<lambda>(k, v). ins k v) kvs [])"
  by (simp add: inv_fold_ins inv_empty)

lemma get_collect: "map_of (fold (\<lambda>(k, v). ins k v) kvs []) = map_of (rev kvs)"
  by (simp add: get_fold_ins inv_empty)

lemma set_collect:
  assumes "distinct (map fst kvs)"
  shows "set (fold (\<lambda>(k, v). ins k v) kvs []) = set kvs"
proof -
  have "distinct (map fst (rev kvs))" using assms by (simp add: rev_map [symmetric])
  moreover have "distinct (map fst (fold (\<lambda>(k, v). ins k v) kvs []))"
    by (rule inv_distinct [OF inv_collect])
  ultimately have "set (fold (\<lambda>(k, v). ins k v) kvs []) = set (rev kvs)"
    using get_collect by (metis map_of_inject_set)
  then show ?thesis by simp
qed

lemma get_collect_distinct:
  assumes "distinct (map fst kvs)"
  shows "map_of (fold (\<lambda>(k, v). ins k v) kvs []) = map_of kvs"
  using assms set_collect [OF assms] inv_distinct [OF inv_collect]
  by (metis map_of_inject_set)

end

section \<open>HashMap\<close>

definition hm_inv :: "('k \<times> 'v) list \<Rightarrow> bool" where
  "hm_inv m \<longleftrightarrow> distinct (map fst m)"

definition hm_insert :: "'k \<Rightarrow> 'v \<Rightarrow> ('k \<times> 'v) list \<Rightarrow> ('k \<times> 'v) list" where
  "hm_insert k v m = AList.update k v m"

definition hm_remove :: "'k \<Rightarrow> ('k \<times> 'v) list \<Rightarrow> ('k \<times> 'v) list" where
  "hm_remove k m = AList.delete k m"

interpretation hm: keyed_map hm_inv hm_insert hm_remove
  by unfold_locales
    (auto simp: hm_inv_def hm_insert_def hm_remove_def distinct_update update_conv' delete_conv'
      distinct_delete)

section \<open>BTreeMap\<close>

definition bt_inv :: "('k::linorder \<times> 'v) list \<Rightarrow> bool" where
  "bt_inv m \<longleftrightarrow> sorted_wrt (<) (map fst m)"

fun bt_insert :: "'k::linorder \<Rightarrow> 'v \<Rightarrow> ('k \<times> 'v) list \<Rightarrow> ('k \<times> 'v) list" where
  "bt_insert k v [] = [(k, v)]"
| "bt_insert k v ((k', v') # m) =
     (if k < k' then (k, v) # (k', v') # m
      else if k = k' then (k, v) # m
      else (k', v') # bt_insert k v m)"

fun bt_remove :: "'k \<Rightarrow> ('k \<times> 'v) list \<Rightarrow> ('k \<times> 'v) list" where
  "bt_remove k [] = []"
| "bt_remove k ((k', v') # m) = (if k = k' then m else (k', v') # bt_remove k m)"

lemma bt_insert_keys: "fst ` set (bt_insert k v m) = insert k (fst ` set m)"
  by (induction k v m rule: bt_insert.induct) auto

lemma bt_remove_keys: "fst ` set (bt_remove k m) \<subseteq> fst ` set m"
  by (induction k m rule: bt_remove.induct) auto

lemma bt_inv_Cons [simp]:
  "bt_inv ((k, v) # m) \<longleftrightarrow> (\<forall>k'\<in>fst ` set m. k < k') \<and> bt_inv m"
  by (simp add: bt_inv_def)

lemma bt_inv_insert: "bt_inv m \<Longrightarrow> bt_inv (bt_insert k v m)"
proof (induction k v m rule: bt_insert.induct)
  case (2 k v k' v' m)
  then show ?case by (auto simp: bt_insert_keys)
qed (simp add: bt_inv_def)

lemma bt_inv_remove: "bt_inv m \<Longrightarrow> bt_inv (bt_remove k m)"
  by (induction k m rule: bt_remove.induct) (use bt_remove_keys in fastforce)+

lemma bt_get_insert: "map_of (bt_insert k v m) = (map_of m)(k \<mapsto> v)"
  by (induction k v m rule: bt_insert.induct) (auto simp: fun_upd_twist)

lemma bt_get_fresh: "(\<forall>k'\<in>fst ` set m. (k :: 'k::linorder) < k') \<Longrightarrow> map_of m k = None"
  by (metis less_irrefl map_of_eq_None_iff)

lemma bt_get_remove: "bt_inv m \<Longrightarrow> map_of (bt_remove k m) = (map_of m)(k := None)"
  by (induction k m rule: bt_remove.induct) (auto simp: fun_upd_twist bt_get_fresh fun_upd_idem)

lemma bt_inv_distinct: "bt_inv m \<Longrightarrow> distinct (map fst m)"
  by (induction m) (auto simp: bt_inv_def strict_sorted_iff)

interpretation bt: keyed_map bt_inv bt_insert bt_remove
  by unfold_locales
    (auto simp: bt_inv_insert bt_inv_remove bt_get_insert bt_get_remove bt_inv_distinct,
      simp add: bt_inv_def)

text \<open>Entries in key order are determined by the map they represent.\<close>

lemma bt_inv_ext: "bt_inv m \<Longrightarrow> bt_inv m' \<Longrightarrow> map_of m = map_of m' \<Longrightarrow> m = m'"
proof -
  assume inv: "bt_inv m" "bt_inv m'" and eq: "map_of m = map_of m'"
  have "set (map fst m) = set (map fst m')"
    using eq by (metis dom_map_of_conv_image_fst set_map)
  then have keys: "map fst m = map fst m'"
    using inv by (auto simp: bt_inv_def intro: strict_sorted_equal)
  have d: "distinct (map fst m)" "distinct (map fst m')"
    using inv by (auto intro: bt_inv_distinct)
  have "map snd m = map (the \<circ> map_of m) (map fst m)" if "distinct (map fst m)" for m :: "('a \<times> 'b) list"
    using that by (auto simp: map_of_is_SomeI)
  from this [OF d(1)] this [OF d(2)] have "map snd m = map snd m'" using keys eq by simp
  with keys show "m = m'" by (metis zip_map_fst_snd)
qed

section \<open>Collecting an iterator\<close>

definition hm_collect :: "('k \<times> 'v) list \<Rightarrow> ('k \<times> 'v) list" where
  "hm_collect kvs = fold (\<lambda>(k, v). hm_insert k v) kvs []"

definition bt_collect :: "('k::linorder \<times> 'v) list \<Rightarrow> ('k \<times> 'v) list" where
  "bt_collect kvs = fold (\<lambda>(k, v). bt_insert k v) kvs []"

lemmas hm_collect_inv = hm.inv_collect [folded hm_collect_def]
  and hm_collect_get = hm.get_collect_distinct [folded hm_collect_def]
  and hm_collect_set = hm.set_collect [folded hm_collect_def]
  and bt_collect_inv = bt.inv_collect [folded bt_collect_def]
  and bt_collect_get = bt.get_collect_distinct [folded bt_collect_def]
  and bt_collect_set = bt.set_collect [folded bt_collect_def]

text \<open>Mapping over the values keeps the keys.\<close>

lemma map_of_map_value:
  "map_of (map (\<lambda>(k, v). (k, f k v)) m) k = map_option (f k) (map_of m k)"
  by (induction m) auto

lemma keys_map_value: "map fst (map (\<lambda>(k, v). (k, f k v)) m) = map fst m"
  by (induction m) auto

end
