(* ===== verification/Sandbox_Policy.thy ===== *)
theory Sandbox_Policy
  imports Rust_Utf8 Rust_Map
begin

text \<open>
  The sandbox policy: the messages of \<open>proto/sandbox.proto\<close>, the YAML file schema of
  \<open>crates/clustershell-policy/src/lib.rs\<close> and its operations: the two conversions, the restrictive
  default, the process-identity default, the safety validation and lexical path normalisation.

  Messages and files are records; \<open>u32\<close> fields are natural numbers, since the code only copies and
  compares them. The \<open>network_policies\<close> of a message are a \<open>HashMap\<close> (entries in some order), those
  of a file a \<open>BTreeMap\<close> (entries in key order).
\<close>

section \<open>Messages\<close>

record l7_allow =
  la_method :: bytes
  la_path :: bytes
  la_command :: bytes

record l7_rule =
  lr_allow :: "l7_allow option"

record network_endpoint =
  ne_host :: bytes
  ne_port :: nat
  ne_protocol :: bytes
  ne_tls :: bytes
  ne_enforcement :: bytes
  ne_access :: bytes
  ne_rules :: "l7_rule list"
  ne_allowed_ips :: "bytes list"
  ne_ports :: "nat list"

record network_binary =
  nb_path :: bytes
  nb_harness :: bool

record network_policy_rule =
  npr_name :: bytes
  npr_endpoints :: "network_endpoint list"
  npr_binaries :: "network_binary list"

record filesystem_policy =
  fs_include_workdir :: bool
  fs_read_only :: "bytes list"
  fs_read_write :: "bytes list"

record landlock_policy =
  ll_compatibility :: bytes

record process_policy =
  pp_run_as_user :: bytes
  pp_run_as_group :: bytes

record sandbox_policy =
  sp_version :: nat
  sp_filesystem :: "filesystem_policy option"
  sp_landlock :: "landlock_policy option"
  sp_process :: "process_policy option"
  sp_network_policies :: "(bytes \<times> network_policy_rule) list"

definition l7_allow_default :: l7_allow where
  "l7_allow_default = \<lparr>la_method = [], la_path = [], la_command = []\<rparr>"

definition process_policy_default :: process_policy where
  "process_policy_default = \<lparr>pp_run_as_user = [], pp_run_as_group = []\<rparr>"

section \<open>The YAML file schema\<close>

record l7_allow_def =
  lad_method :: bytes
  lad_path :: bytes
  lad_command :: bytes

record l7_rule_def =
  lrd_allow :: l7_allow_def

record network_endpoint_def =
  ned_host :: bytes
  ned_port :: nat
  ned_ports :: "nat list"
  ned_protocol :: bytes
  ned_tls :: bytes
  ned_enforcement :: bytes
  ned_access :: bytes
  ned_rules :: "l7_rule_def list"
  ned_allowed_ips :: "bytes list"

record network_binary_def =
  nbd_path :: bytes
  nbd_harness :: bool

record network_policy_rule_def =
  nprd_name :: bytes
  nprd_endpoints :: "network_endpoint_def list"
  nprd_binaries :: "network_binary_def list"

record filesystem_def =
  fsd_include_workdir :: bool
  fsd_read_only :: "bytes list"
  fsd_read_write :: "bytes list"

record landlock_def =
  lld_compatibility :: bytes

record process_def =
  pd_run_as_user :: bytes
  pd_run_as_group :: bytes

record policy_file =
  pf_version :: nat
  pf_filesystem_policy :: "filesystem_def option"
  pf_landlock :: "landlock_def option"
  pf_process :: "process_def option"
  pf_network_policies :: "(bytes \<times> network_policy_rule_def) list"

section \<open>YAML to proto\<close>

text \<open>\<open>ports\<close> takes precedence, else a single port is promoted to an array.\<close>

definition normalized_ports :: "nat list \<Rightarrow> nat \<Rightarrow> nat list" where
  "normalized_ports ports port =
     (if ports \<noteq> [] then ports else if 0 < port then [port] else [])"

definition first_port :: "nat list \<Rightarrow> nat \<Rightarrow> nat" where
  "first_port ps d = (case ps of [] \<Rightarrow> d | p # _ \<Rightarrow> p)"

definition rule_to_proto :: "l7_rule_def \<Rightarrow> l7_rule" where
  "rule_to_proto r =
     \<lparr>lr_allow = Some \<lparr>la_method = lad_method (lrd_allow r), la_path = lad_path (lrd_allow r),
                       la_command = lad_command (lrd_allow r)\<rparr>\<rparr>"

definition endpoint_to_proto :: "network_endpoint_def \<Rightarrow> network_endpoint" where
  "endpoint_to_proto e =
     (let ps = normalized_ports (ned_ports e) (ned_port e) in
      \<lparr>ne_host = ned_host e, ne_port = first_port ps 0, ne_protocol = ned_protocol e,
       ne_tls = ned_tls e, ne_enforcement = ned_enforcement e, ne_access = ned_access e,
       ne_rules = map rule_to_proto (ned_rules e), ne_allowed_ips = ned_allowed_ips e,
       ne_ports = ps\<rparr>)"

definition policy_rule_to_proto :: "bytes \<Rightarrow> network_policy_rule_def \<Rightarrow> network_policy_rule" where
  "policy_rule_to_proto key r =
     \<lparr>npr_name = (if nprd_name r = [] then key else nprd_name r),
      npr_endpoints = map endpoint_to_proto (nprd_endpoints r),
      npr_binaries = map (\<lambda>b. \<lparr>nb_path = nbd_path b, nb_harness = False\<rparr>) (nprd_binaries r)\<rparr>"

definition to_proto :: "policy_file \<Rightarrow> sandbox_policy" where
  "to_proto raw =
     \<lparr>sp_version = pf_version raw,
      sp_filesystem = map_option (\<lambda>fs. \<lparr>fs_include_workdir = fsd_include_workdir fs,
        fs_read_only = fsd_read_only fs, fs_read_write = fsd_read_write fs\<rparr>)
        (pf_filesystem_policy raw),
      sp_landlock = map_option (\<lambda>ll. \<lparr>ll_compatibility = lld_compatibility ll\<rparr>) (pf_landlock raw),
      sp_process = map_option (\<lambda>p. \<lparr>pp_run_as_user = pd_run_as_user p,
        pp_run_as_group = pd_run_as_group p\<rparr>) (pf_process raw),
      sp_network_policies =
        hm_collect (map (\<lambda>(k, r). (k, policy_rule_to_proto k r)) (pf_network_policies raw))\<rparr>"

section \<open>Proto to YAML\<close>

definition rule_from_proto :: "l7_rule \<Rightarrow> l7_rule_def" where
  "rule_from_proto r =
     (let a = (case lr_allow r of None \<Rightarrow> l7_allow_default | Some a \<Rightarrow> a) in
      \<lparr>lrd_allow = \<lparr>lad_method = la_method a, lad_path = la_path a, lad_command = la_command a\<rparr>\<rparr>)"

text \<open>The compact form: a single port is emitted as the scalar, several as the array.\<close>

definition endpoint_from_proto :: "network_endpoint \<Rightarrow> network_endpoint_def" where
  "endpoint_from_proto e =
     (let (port, ports) = (if 1 < length (ne_ports e) then (0, ne_ports e)
                           else (first_port (ne_ports e) (ne_port e), [])) in
      \<lparr>ned_host = ne_host e, ned_port = port, ned_ports = ports, ned_protocol = ne_protocol e,
       ned_tls = ne_tls e, ned_enforcement = ne_enforcement e, ned_access = ne_access e,
       ned_rules = map rule_from_proto (ne_rules e), ned_allowed_ips = ne_allowed_ips e\<rparr>)"

definition policy_rule_from_proto :: "network_policy_rule \<Rightarrow> network_policy_rule_def" where
  "policy_rule_from_proto r =
     \<lparr>nprd_name = npr_name r, nprd_endpoints = map endpoint_from_proto (npr_endpoints r),
      nprd_binaries = map (\<lambda>b. \<lparr>nbd_path = nb_path b, nbd_harness = False\<rparr>) (npr_binaries r)\<rparr>"

definition process_from_proto :: "process_policy \<Rightarrow> process_def option" where
  "process_from_proto p =
     (if pp_run_as_user p = [] \<and> pp_run_as_group p = [] then None
      else Some \<lparr>pd_run_as_user = pp_run_as_user p, pd_run_as_group = pp_run_as_group p\<rparr>)"

definition from_proto :: "sandbox_policy \<Rightarrow> policy_file" where
  "from_proto p =
     \<lparr>pf_version = sp_version p,
      pf_filesystem_policy = map_option (\<lambda>fs. \<lparr>fsd_include_workdir = fs_include_workdir fs,
        fsd_read_only = fs_read_only fs, fsd_read_write = fs_read_write fs\<rparr>) (sp_filesystem p),
      pf_landlock = map_option (\<lambda>ll. \<lparr>lld_compatibility = ll_compatibility ll\<rparr>) (sp_landlock p),
      pf_process = Option.bind (sp_process p) process_from_proto,
      pf_network_policies =
        bt_collect (map (\<lambda>(k, r). (k, policy_rule_from_proto r)) (sp_network_policies p))\<rparr>"

section \<open>Parsing, serialising and loading\<close>

text \<open>
  \<open>serde_yaml\<close> is a parameter: \<open>from_str\<close> and \<open>to_str\<close>. So are the file system and the
  environment variable. \<open>wrap_err\<close> puts its message in front of the cause.
\<close>

definition wrap_err :: "bytes \<Rightarrow> ('e, 'a) result \<Rightarrow> (bytes \<times> 'e, 'a) result" where
  "wrap_err msg r = result_map_err (\<lambda>e. (msg, e)) r"

definition parse_sandbox_policy ::
  "(bytes \<Rightarrow> ('e, policy_file) result) \<Rightarrow> bytes \<Rightarrow> (bytes \<times> 'e, sandbox_policy) result" where
  "parse_sandbox_policy from_str yaml =
     result_bind (wrap_err ''failed to parse sandbox policy YAML'' (from_str yaml))
       (\<lambda>raw. Inr (to_proto raw))"

definition serialize_sandbox_policy ::
  "(policy_file \<Rightarrow> ('e, bytes) result) \<Rightarrow> sandbox_policy \<Rightarrow> (bytes \<times> 'e, bytes) result" where
  "serialize_sandbox_policy to_str p =
     wrap_err ''failed to serialize policy to YAML'' (to_str (from_proto p))"

definition load_sandbox_policy ::
  "(bytes \<Rightarrow> ('e, bytes) result) \<Rightarrow> (bytes \<Rightarrow> ('e, policy_file) result) \<Rightarrow> bytes option
     \<Rightarrow> bytes option \<Rightarrow> (bytes \<times> 'e, sandbox_policy option) result" where
  "load_sandbox_policy read_to_string from_str env_path cli_path =
     (let load = (\<lambda>p. result_bind
                  (wrap_err (''failed to read sandbox policy from '' @ p) (read_to_string p))
                  (\<lambda>contents. result_bind (parse_sandbox_policy from_str contents) (\<lambda>q. Inr (Some q)))) in
      case cli_path of
        Some p \<Rightarrow> load p
      | None \<Rightarrow> (case env_path of Some p \<Rightarrow> load p | None \<Rightarrow> Inr None))"

section \<open>Defaults\<close>

definition restrictive_default_policy :: sandbox_policy where
  "restrictive_default_policy =
     \<lparr>sp_version = 1,
      sp_filesystem = Some \<lparr>fs_include_workdir = True,
        fs_read_only = [''/usr'', ''/lib'', ''/proc'', ''/dev/urandom'', ''/app'', ''/etc'', ''/var/log''],
        fs_read_write = [''/sandbox'', ''/tmp'', ''/dev/null'']\<rparr>,
      sp_landlock = Some \<lparr>ll_compatibility = ''best_effort''\<rparr>,
      sp_process = Some \<lparr>pp_run_as_user = ''sandbox'', pp_run_as_group = ''sandbox''\<rparr>,
      sp_network_policies = []\<rparr>"

definition ensure_sandbox_process_identity :: "sandbox_policy \<Rightarrow> sandbox_policy" where
  "ensure_sandbox_process_identity p =
     (let q = (case sp_process p of None \<Rightarrow> process_policy_default | Some q \<Rightarrow> q);
          q1 = (if pp_run_as_user q = [] then q\<lparr>pp_run_as_user := ''sandbox''\<rparr> else q);
          q2 = (if pp_run_as_group q1 = [] then q1\<lparr>pp_run_as_group := ''sandbox''\<rparr> else q1)
      in p\<lparr>sp_process := Some q2\<rparr>)"

section \<open>Paths\<close>

text \<open>\<open>std::path\<close> on Unix: components are separated by \<open>/\<close>; empty ones are dropped, and so is
  \<open>.\<close> except at the start of a relative path.\<close>

datatype path_component = RootDir | CurDir | ParentDir | Normal bytes

definition has_root :: "bytes \<Rightarrow> bool" where
  "has_root p \<longleftrightarrow> starts_with p ''/''"

definition segment_component :: "bytes \<Rightarrow> path_component option" where
  "segment_component w =
     (if w = [] \<or> w = ''.'' then None else if w = ''..'' then Some ParentDir else Some (Normal w))"

definition path_components :: "bytes \<Rightarrow> path_component list" where
  "path_components p =
     (let segs = split_char (CHR ''/'') p in
      (if has_root p then [RootDir] else if hd segs = ''.'' then [CurDir] else [])
      @ List.map_filter segment_component segs)"

definition path_push :: "bytes \<Rightarrow> bytes \<Rightarrow> bytes" where
  "path_push buf c =
     (if has_root c then c
      else if buf = [] \<or> last buf = CHR ''/'' then buf @ c else buf @ ''/'' @ c)"

fun push_component :: "bytes \<Rightarrow> path_component \<Rightarrow> bytes" where
  "push_component buf RootDir = path_push buf ''/''"
| "push_component buf CurDir = buf"
| "push_component buf ParentDir = path_push buf ''..''"
| "push_component buf (Normal c) = path_push buf c"

definition normalize_path :: "bytes \<Rightarrow> bytes" where
  "normalize_path p = foldl push_component [] (path_components p)"

section \<open>Safety validation\<close>

definition MAX_FILESYSTEM_PATHS :: nat where
  "MAX_FILESYSTEM_PATHS = 256"

definition MAX_PATH_LENGTH :: nat where
  "MAX_PATH_LENGTH = 4096"

datatype policy_violation =
    InvalidProcessIdentity bytes bytes
  | PathTraversal bytes
  | RelativePath bytes
  | OverlyBroadPath bytes
  | FieldTooLong bytes nat
  | TooManyPaths nat

fun violation_display :: "policy_violation \<Rightarrow> bytes" where
  "violation_display (InvalidProcessIdentity field v) =
     field @ '' must be 'sandbox', got '' @ [CHR 0x27] @ v @ [CHR 0x27]"
| "violation_display (PathTraversal p) = ''path contains '..' traversal component: '' @ p"
| "violation_display (RelativePath p) = ''path must be absolute (start with '/'): '' @ p"
| "violation_display (OverlyBroadPath p) = ''read-write path is overly broad: '' @ p"
| "violation_display (FieldTooLong p n) =
     ''path exceeds maximum length ('' @ show_nat n @ '' > '' @ show_nat MAX_PATH_LENGTH @ ''): '' @ p"
| "violation_display (TooManyPaths n) =
     ''too many filesystem paths ('' @ show_nat n @ '' > '' @ show_nat MAX_FILESYSTEM_PATHS @ '')''"

text \<open>\<open>&s[..77]\<close> panics when byte 77 is inside a character: \<^const>\<open>None\<close> is the panic.\<close>

definition truncate_for_display :: "bytes \<Rightarrow> bytes option" where
  "truncate_for_display s =
     (if length s \<le> 80 then Some s
      else if is_char_boundary s 77 then Some (take 77 s @ ''...'') else None)"

definition identity_violations :: "process_policy option \<Rightarrow> policy_violation list" where
  "identity_violations q =
     (case q of
        None \<Rightarrow> []
      | Some p \<Rightarrow>
          (if pp_run_as_user p \<noteq> ''sandbox''
           then [InvalidProcessIdentity ''run_as_user'' (pp_run_as_user p)] else []) @
          (if pp_run_as_group p \<noteq> ''sandbox''
           then [InvalidProcessIdentity ''run_as_group'' (pp_run_as_group p)] else []))"

text \<open>One turn of the loop over all paths; \<open>continue\<close> after a length violation.\<close>

definition path_violations :: "bytes \<Rightarrow> policy_violation list option" where
  "path_violations p =
     (if MAX_PATH_LENGTH < length p
      then (case truncate_for_display p of
              None \<Rightarrow> None | Some t \<Rightarrow> Some [FieldTooLong t (length p)])
      else Some ((if \<not> has_root p then [RelativePath p] else []) @
                 (if ParentDir \<in> set (path_components p) then [PathTraversal p] else [])))"

fun all_path_violations :: "bytes list \<Rightarrow> policy_violation list option" where
  "all_path_violations [] = Some []"
| "all_path_violations (p # ps) =
     (case path_violations p of
        None \<Rightarrow> None
      | Some vs \<Rightarrow> (case all_path_violations ps of None \<Rightarrow> None | Some ws \<Rightarrow> Some (vs @ ws)))"

text \<open>\<open>trim_end_matches('/')\<close> leaves the empty string exactly on a run of slashes.\<close>

definition trim_end_slashes :: "bytes \<Rightarrow> bytes" where
  "trim_end_slashes p = rev (dropWhile (\<lambda>c. c = CHR ''/'') (rev p))"

definition broad_violations :: "bytes list \<Rightarrow> policy_violation list" where
  "broad_violations ps = map OverlyBroadPath (filter (\<lambda>p. trim_end_slashes p = []) ps)"

definition filesystem_violations :: "filesystem_policy option \<Rightarrow> policy_violation list option" where
  "filesystem_violations q =
     (case q of
        None \<Rightarrow> Some []
      | Some fs \<Rightarrow>
          (let total = length (fs_read_only fs) + length (fs_read_write fs);
               many = (if MAX_FILESYSTEM_PATHS < total then [TooManyPaths total] else []) in
           case all_path_violations (fs_read_only fs @ fs_read_write fs) of
             None \<Rightarrow> None
           | Some vs \<Rightarrow> Some (many @ vs @ broad_violations (fs_read_write fs))))"

definition validate_sandbox_policy ::
  "sandbox_policy \<Rightarrow> (policy_violation list, unit) result option" where
  "validate_sandbox_policy p =
     (case filesystem_violations (sp_filesystem p) of
        None \<Rightarrow> None
      | Some fvs \<Rightarrow>
          (let vs = identity_violations (sp_process p) @ fvs in
           Some (if vs = [] then Inr () else Inl vs)))"

section \<open>Facts: paths\<close>

fun segment_of :: "path_component \<Rightarrow> bytes" where
  "segment_of ParentDir = ''..''"
| "segment_of (Normal w) = w"
| "segment_of RootDir = ''/''"
| "segment_of CurDir = ''.''"

lemma segment_component_inv:
  "segment_component w = Some c \<Longrightarrow> segment_of c = w \<and> segment_component (segment_of c) = Some c"
  by (auto simp: segment_component_def split: if_splits)

lemma segment_component_Some:
  "segment_component w = Some c \<Longrightarrow> w \<noteq> [] \<and> w \<noteq> ''.'' \<and> c \<noteq> RootDir \<and> c \<noteq> CurDir"
  by (auto simp: segment_component_def split: if_splits)

text \<open>The segments of a path that are components: everything but the root and a leading dot.\<close>

definition path_body :: "bytes \<Rightarrow> path_component list" where
  "path_body p = List.map_filter segment_component (split_char (CHR ''/'') p)"

lemma path_body_mem:
  assumes "c \<in> set (path_body p)"
  shows "segment_component (segment_of c) = Some c" "CHR ''/'' \<notin> set (segment_of c)"
    "segment_of c \<noteq> []" "segment_of c \<noteq> ''.''" "c \<noteq> RootDir" "c \<noteq> CurDir"
proof -
  obtain w where w: "w \<in> set (split_char (CHR ''/'') p)" "segment_component w = Some c"
    using assms by (auto simp: path_body_def filter_map_option_set)
  show "segment_component (segment_of c) = Some c" using segment_component_inv [OF w(2)] by auto
  show "CHR ''/'' \<notin> set (segment_of c)"
    using split_char_no_sep [OF w(1)] segment_component_inv [OF w(2)] by simp
  show "segment_of c \<noteq> []" "segment_of c \<noteq> ''.''" "c \<noteq> RootDir" "c \<noteq> CurDir"
    using segment_component_Some [OF w(2)] segment_component_inv [OF w(2)] by auto
qed

lemma path_components_alt:
  "filter (\<lambda>c. c \<noteq> CurDir) (path_components p) =
     (if has_root p then [RootDir] else []) @ path_body p"
proof -
  have "filter (\<lambda>c. c \<noteq> CurDir) (path_body p) = path_body p"
    by (rule filter_True) (auto dest: path_body_mem)
  then show ?thesis by (auto simp: path_components_def Let_def path_body_def)
qed

lemma parent_dir_component: "ParentDir \<in> set (path_components p) \<longleftrightarrow> ''..'' \<in> set (split_char (CHR ''/'') p)"
proof -
  have "ParentDir \<in> set (path_components p) \<longleftrightarrow> ParentDir \<in> set (path_body p)"
    by (auto simp: path_components_def Let_def path_body_def)
  also have "\<dots> \<longleftrightarrow> ''..'' \<in> set (split_char (CHR ''/'') p)"
    by (auto simp: path_body_def filter_map_option_set segment_component_def split: if_splits)
  finally show ?thesis .
qed

lemma push_component_body:
  assumes "c \<in> set (path_body p)"
  shows "push_component buf c = (if buf = [] \<or> last buf = CHR ''/'' then buf @ segment_of c
           else buf @ ''/'' @ segment_of c)"
proof -
  have "\<not> has_root (segment_of c)"
    using path_body_mem(2,3) [OF assms]
    by (cases "segment_of c") (auto simp: has_root_def starts_with_def)
  then show ?thesis using path_body_mem(5,6) [OF assms] by (cases c) (auto simp: path_push_def)
qed

lemma foldl_push_nonempty:
  assumes "\<And>c. c \<in> set cs \<Longrightarrow> c \<in> set (path_body p)" "buf \<noteq> []" "last buf \<noteq> CHR ''/''"
  shows "foldl push_component buf cs = buf @ concat (map (\<lambda>c. ''/'' @ segment_of c) cs)"
  using assms
proof (induction cs arbitrary: buf)
  case (Cons c cs)
  have c: "c \<in> set (path_body p)" using Cons.prems(1) by simp
  have "last (segment_of c) \<noteq> CHR ''/''"
    using path_body_mem(2,3) [OF c] by (metis last_in_set)
  then have "last (buf @ ''/'' @ segment_of c) \<noteq> CHR ''/''" using path_body_mem(3) [OF c] by simp
  moreover have "push_component buf c = buf @ ''/'' @ segment_of c"
    using Cons.prems(2,3) push_component_body [OF c] by simp
  moreover have "\<And>d. d \<in> set cs \<Longrightarrow> d \<in> set (path_body p)" using Cons.prems(1) by simp
  ultimately show ?case using Cons.IH [of "buf @ ''/'' @ segment_of c"] by simp
qed simp

lemma join_slash_Cons:
  "join_str ''/'' (w # ws) = w @ concat (map (\<lambda>v. ''/'' @ v) ws)"
  by (induction ws arbitrary: w) auto

lemma foldl_push_body:
  assumes "buf = [] \<or> buf = ''/''"
  shows "foldl push_component buf (path_body p) = buf @ join_str ''/'' (map segment_of (path_body p))"
proof (cases "path_body p")
  case (Cons c cs)
  have c: "c \<in> set (path_body p)" using Cons by simp
  let ?b = "buf @ segment_of c"
  have "push_component buf c = ?b" using push_component_body [OF c] assms by auto
  moreover have "?b \<noteq> []" "last ?b \<noteq> CHR ''/''"
    using path_body_mem(2,3) [OF c] by (auto dest: last_in_set)
  moreover have "\<And>d. d \<in> set cs \<Longrightarrow> d \<in> set (path_body p)" using Cons by simp
  ultimately show ?thesis
    using Cons foldl_push_nonempty [of cs p ?b] by (simp add: join_slash_Cons comp_def)
qed simp

lemma foldl_push_skip_CurDir:
  "foldl push_component buf cs = foldl push_component buf (filter (\<lambda>c. c \<noteq> CurDir) cs)"
  by (induction cs arbitrary: buf) auto

lemma normalize_path_join:
  "normalize_path p =
     (if has_root p then ''/'' else []) @ join_str ''/'' (map segment_of (path_body p))"
proof -
  have "normalize_path p = foldl push_component []
          ((if has_root p then [RootDir] else []) @ path_body p)"
    unfolding normalize_path_def by (subst foldl_push_skip_CurDir) (simp only: path_components_alt)
  then show ?thesis
    by (auto simp: foldl_push_body path_push_def has_root_def)
qed

lemma split_join_body:
  "split_char (CHR ''/'') (join_str ''/'' (map segment_of (path_body p))) =
     (if path_body p = [] then [[]] else map segment_of (path_body p))"
  by (cases "path_body p = []") (auto intro!: split_char_join_inverse dest: path_body_mem(2))

lemma map_filter_segments:
  "List.map_filter segment_component (map segment_of (path_body p)) = path_body p"
proof -
  have "\<And>cs. set cs \<subseteq> set (path_body p) \<Longrightarrow>
          List.map_filter segment_component (map segment_of cs) = cs"
    subgoal for cs by (induction cs) (auto simp: List.map_filter_simps path_body_mem(1))
    done
  then show ?thesis by blast
qed

lemma path_body_normalize: "path_body (normalize_path p) = path_body p"
proof (cases "has_root p")
  case True
  then have "split_char (CHR ''/'') (normalize_path p) =
      [] # split_char (CHR ''/'') (join_str ''/'' (map segment_of (path_body p)))"
    by (simp add: normalize_path_join)
  then show ?thesis
    unfolding path_body_def [of "normalize_path p"]
    by (auto simp: split_join_body map_filter_segments segment_component_def [of "[]"]
        List.map_filter_simps)
next
  case False
  then show ?thesis
    unfolding path_body_def [of "normalize_path p"]
    by (auto simp: normalize_path_join split_join_body map_filter_segments
        segment_component_def [of "[]"] List.map_filter_simps)
qed

lemma has_root_normalize: "has_root (normalize_path p) = has_root p"
proof (cases "has_root p")
  case False
  show ?thesis
  proof (cases "path_body p")
    case (Cons c cs)
    have "segment_of c \<noteq> []" "CHR ''/'' \<notin> set (segment_of c)"
      using path_body_mem [of c p] Cons by auto
    then show ?thesis using False Cons
      by (cases "segment_of c") (auto simp: normalize_path_join join_slash_Cons has_root_def starts_with_def)
  qed (use False in \<open>simp add: normalize_path_join has_root_def starts_with_def\<close>)
qed (simp add: normalize_path_join has_root_def starts_with_def)

section \<open>Facts: validation\<close>

text \<open>What the validator promises: the declarative reading of its checks.\<close>

definition safe_path :: "bytes \<Rightarrow> bool" where
  "safe_path p \<longleftrightarrow>
     length p \<le> MAX_PATH_LENGTH \<and> (\<exists>r. p = ''/'' @ r) \<and> ''..'' \<notin> set (split_char (CHR ''/'') p)"

definition safe_process :: "process_policy option \<Rightarrow> bool" where
  "safe_process q =
     (case q of None \<Rightarrow> True
      | Some p \<Rightarrow> pp_run_as_user p = ''sandbox'' \<and> pp_run_as_group p = ''sandbox'')"

definition safe_filesystem :: "filesystem_policy option \<Rightarrow> bool" where
  "safe_filesystem q =
     (case q of None \<Rightarrow> True
      | Some fs \<Rightarrow>
          length (fs_read_only fs) + length (fs_read_write fs) \<le> MAX_FILESYSTEM_PATHS
          \<and> (\<forall>p\<in>set (fs_read_only fs) \<union> set (fs_read_write fs). safe_path p)
          \<and> (\<forall>p\<in>set (fs_read_write fs). \<exists>c\<in>set p. c \<noteq> CHR ''/''))"

definition safe_policy :: "sandbox_policy \<Rightarrow> bool" where
  "safe_policy p \<longleftrightarrow> safe_process (sp_process p) \<and> safe_filesystem (sp_filesystem p)"

lemma path_violations_safe: "path_violations p = Some [] \<longleftrightarrow> safe_path p"
  by (auto simp: path_violations_def safe_path_def has_root_def starts_with_split
      parent_dir_component split: option.splits)

lemma all_path_violations_safe: "all_path_violations ps = Some [] \<longleftrightarrow> (\<forall>p\<in>set ps. safe_path p)"
  by (induction ps) (auto simp: path_violations_safe [symmetric] split: option.splits)

lemma trim_end_slashes_Nil: "trim_end_slashes p = [] \<longleftrightarrow> (\<forall>c\<in>set p. c = CHR ''/'')"
  by (auto simp: trim_end_slashes_def dropWhile_eq_Nil_conv)

lemma broad_violations_Nil:
  "broad_violations ps = [] \<longleftrightarrow> (\<forall>p\<in>set ps. \<exists>c\<in>set p. c \<noteq> CHR ''/'')"
  by (auto simp: broad_violations_def filter_empty_conv trim_end_slashes_Nil)

lemma identity_violations_Nil: "identity_violations q = [] \<longleftrightarrow> safe_process q"
  by (auto simp: identity_violations_def safe_process_def split: option.splits)

lemma filesystem_violations_Nil: "filesystem_violations q = Some [] \<longleftrightarrow> safe_filesystem q"
proof (cases q)
  case (Some fs)
  have "filesystem_violations (Some fs) = Some [] \<longleftrightarrow>
      length (fs_read_only fs) + length (fs_read_write fs) \<le> MAX_FILESYSTEM_PATHS
      \<and> all_path_violations (fs_read_only fs @ fs_read_write fs) = Some []
      \<and> broad_violations (fs_read_write fs) = []"
    by (auto simp: filesystem_violations_def Let_def split: option.splits if_splits)
  also have "\<dots> \<longleftrightarrow> safe_filesystem (Some fs)"
    unfolding all_path_violations_safe broad_violations_Nil safe_filesystem_def by auto
  finally show ?thesis using Some by simp
qed (simp add: filesystem_violations_def safe_filesystem_def)

lemma validate_ok_iff: "validate_sandbox_policy p = Some (Inr ()) \<longleftrightarrow> safe_policy p"
  unfolding safe_policy_def identity_violations_Nil [symmetric] filesystem_violations_Nil [symmetric]
  by (auto simp: validate_sandbox_policy_def Let_def split: option.splits if_splits)

section \<open>Facts: the conversions\<close>

text \<open>
  The policies that survive a trip through YAML unchanged: the deprecated \<open>harness\<close> flag is off,
  every rule has its \<open>allow\<close> part, a rule with no name has an empty key, the scalar port repeats
  the first of the ports, a lone port is not 0, and a process section names a user or a group.
\<close>

definition canonical_endpoint :: "network_endpoint \<Rightarrow> bool" where
  "canonical_endpoint e \<longleftrightarrow>
     ne_port e = first_port (ne_ports e) 0 \<and> ne_ports e \<noteq> [0] \<and> (\<forall>r\<in>set (ne_rules e). lr_allow r \<noteq> None)"

definition canonical_rule :: "bytes \<Rightarrow> network_policy_rule \<Rightarrow> bool" where
  "canonical_rule key r \<longleftrightarrow>
     (npr_name r = [] \<longrightarrow> key = []) \<and> (\<forall>e\<in>set (npr_endpoints r). canonical_endpoint e)
     \<and> (\<forall>b\<in>set (npr_binaries r). \<not> nb_harness b)"

definition canonical_policy :: "sandbox_policy \<Rightarrow> bool" where
  "canonical_policy p \<longleftrightarrow>
     hm_inv (sp_network_policies p) \<and> sp_process p \<noteq> Some process_policy_default
     \<and> (\<forall>(k, r)\<in>set (sp_network_policies p). canonical_rule k r)"

text \<open>Two policies are the same message when they differ at most in the order of the map.\<close>

definition same_policy :: "sandbox_policy \<Rightarrow> sandbox_policy \<Rightarrow> bool" where
  "same_policy p q \<longleftrightarrow>
     p\<lparr>sp_network_policies := []\<rparr> = q\<lparr>sp_network_policies := []\<rparr>
     \<and> map_of (sp_network_policies p) = map_of (sp_network_policies q)"

lemma rule_roundtrip: "lr_allow r \<noteq> None \<Longrightarrow> rule_to_proto (rule_from_proto r) = r"
  by (cases r) (auto simp: rule_to_proto_def rule_from_proto_def Let_def split: option.splits)

lemma endpoint_ports_roundtrip:
  "normalized_ports (ned_ports (endpoint_from_proto e)) (ned_port (endpoint_from_proto e)) =
     (if ne_ports e = [] then (if 0 < ne_port e then [ne_port e] else [])
      else if ne_ports e = [0] then [] else ne_ports e)"
  by (cases "ne_ports e" rule: remdups_adj.cases)
    (auto simp: endpoint_from_proto_def normalized_ports_def first_port_def Let_def)

lemma endpoint_roundtrip:
  assumes "canonical_endpoint e"
  shows "endpoint_to_proto (endpoint_from_proto e) = e"
proof -
  have ports: "normalized_ports (ned_ports (endpoint_from_proto e)) (ned_port (endpoint_from_proto e)) = ne_ports e"
    using assms by (auto simp: endpoint_ports_roundtrip canonical_endpoint_def first_port_def)
  have "map rule_to_proto (map rule_from_proto (ne_rules e)) = ne_rules e"
    using assms by (auto simp: canonical_endpoint_def rule_roundtrip intro: map_idI)
  with ports assms show ?thesis
    by (cases e) (auto simp: endpoint_to_proto_def canonical_endpoint_def Let_def
        endpoint_from_proto_def split: if_splits)
qed

lemma endpoint_canonical: "canonical_endpoint (endpoint_to_proto (endpoint_from_proto e))"
proof -
  have "ne_ports (endpoint_to_proto (endpoint_from_proto e)) \<noteq> [0]"
    by (auto simp: endpoint_to_proto_def Let_def endpoint_ports_roundtrip)
  then show ?thesis
    by (auto simp: canonical_endpoint_def endpoint_to_proto_def Let_def rule_to_proto_def)
qed

lemma policy_rule_roundtrip:
  assumes "canonical_rule k r"
  shows "policy_rule_to_proto k (policy_rule_from_proto r) = r"
proof -
  have "map endpoint_to_proto (map endpoint_from_proto (npr_endpoints r)) = npr_endpoints r"
    using assms by (auto simp: canonical_rule_def endpoint_roundtrip intro: map_idI)
  moreover have "map (\<lambda>b. \<lparr>nb_path = nb_path b, nb_harness = False\<rparr>) (npr_binaries r) = npr_binaries r"
    using assms by (intro map_idI) (auto simp: canonical_rule_def)
  ultimately show ?thesis
    using assms
    by (cases r) (auto simp: policy_rule_to_proto_def policy_rule_from_proto_def canonical_rule_def comp_def)
qed

lemma policy_rule_canonical: "canonical_rule k (policy_rule_to_proto k (policy_rule_from_proto r))"
  by (auto simp: canonical_rule_def policy_rule_to_proto_def policy_rule_from_proto_def
      endpoint_canonical)

lemma process_roundtrip:
  "map_option (\<lambda>p. \<lparr>pp_run_as_user = pd_run_as_user p, pp_run_as_group = pd_run_as_group p\<rparr>)
     (Option.bind q process_from_proto) = (if q = Some process_policy_default then None else q)"
  by (cases q) (auto simp: process_from_proto_def process_policy_default_def
      intro: process_policy.equality)

lemma file_policies_get:
  assumes "hm_inv (sp_network_policies p)"
  shows "map_of (pf_network_policies (from_proto p)) k =
           map_option policy_rule_from_proto (map_of (sp_network_policies p) k)"
    and "distinct (map fst (pf_network_policies (from_proto p)))"
proof -
  let ?m = "map (\<lambda>(k, r). (k, policy_rule_from_proto r)) (sp_network_policies p)"
  have d: "distinct (map fst ?m)"
    using assms unfolding hm_inv_def by (simp only: keys_map_value [of "\<lambda>_. policy_rule_from_proto"])
  show "map_of (pf_network_policies (from_proto p)) k =
      map_option policy_rule_from_proto (map_of (sp_network_policies p) k)"
    by (simp add: from_proto_def bt_collect_get [OF d] map_of_map_value)
  show "distinct (map fst (pf_network_policies (from_proto p)))"
    using bt.inv_distinct [OF bt_collect_inv] by (simp add: from_proto_def)
qed

lemma proto_policies_get:
  assumes "distinct (map fst (pf_network_policies f))"
  shows "map_of (sp_network_policies (to_proto f)) k =
           map_option (policy_rule_to_proto k) (map_of (pf_network_policies f) k)"
proof -
  have "distinct (map fst (map (\<lambda>(k, r). (k, policy_rule_to_proto k r)) (pf_network_policies f)))"
    using assms by (simp only: keys_map_value)
  from hm_collect_get [OF this] show ?thesis by (simp add: to_proto_def map_of_map_value)
qed

lemma roundtrip_policies_get:
  assumes "hm_inv (sp_network_policies p)"
  shows "map_of (sp_network_policies (to_proto (from_proto p))) k =
           map_option (\<lambda>r. policy_rule_to_proto k (policy_rule_from_proto r))
             (map_of (sp_network_policies p) k)"
  using proto_policies_get [OF file_policies_get(2) [OF assms]] file_policies_get(1) [OF assms]
  by (simp add: option.map_comp comp_def)

lemma hm_inv_to_proto: "hm_inv (sp_network_policies (to_proto f))"
  using hm_collect_inv by (simp add: to_proto_def)

lemma roundtrip_canonical:
  assumes "canonical_policy p"
  shows "same_policy (to_proto (from_proto p)) p"
proof -
  have inv: "hm_inv (sp_network_policies p)" using assms by (simp add: canonical_policy_def)
  have "map_of (sp_network_policies (to_proto (from_proto p))) = map_of (sp_network_policies p)"
  proof
    fix k
    show "map_of (sp_network_policies (to_proto (from_proto p))) k = map_of (sp_network_policies p) k"
    proof (cases "map_of (sp_network_policies p) k")
      case (Some r)
      then have "canonical_rule k r" using assms by (auto simp: canonical_policy_def dest: map_of_SomeD)
      with Some show ?thesis by (simp add: roundtrip_policies_get [OF inv] policy_rule_roundtrip)
    qed (simp add: roundtrip_policies_get [OF inv])
  qed
  moreover have "(to_proto (from_proto p))\<lparr>sp_network_policies := []\<rparr> = p\<lparr>sp_network_policies := []\<rparr>"
    using assms
    by (cases p) (auto simp: to_proto_def from_proto_def process_roundtrip canonical_policy_def
        option.map_comp comp_def intro!: map_option_idI)
  ultimately show ?thesis by (simp add: same_policy_def)
qed

lemma roundtrip_is_canonical:
  assumes "hm_inv (sp_network_policies p)"
  shows "canonical_policy (to_proto (from_proto p))"
proof -
  have "canonical_rule k r" if "(k, r) \<in> set (sp_network_policies (to_proto (from_proto p)))" for k r
  proof -
    have "map_of (sp_network_policies (to_proto (from_proto p))) k = Some r"
      using that hm_inv_to_proto [of "from_proto p"] by (simp add: hm_inv_def)
    then obtain r' where "r = policy_rule_to_proto k (policy_rule_from_proto r')"
      by (auto simp: roundtrip_policies_get [OF assms])
    then show ?thesis by (simp add: policy_rule_canonical)
  qed
  moreover have "sp_process (to_proto (from_proto p)) \<noteq> Some process_policy_default"
    by (auto simp: to_proto_def from_proto_def process_roundtrip split: if_splits)
  ultimately show ?thesis using hm_inv_to_proto by (auto simp: canonical_policy_def)
qed

section \<open>An example policy\<close>

text \<open>The policy of \<open>examples/sandbox-policy-quickstart/policy.yaml\<close>, as a message.\<close>

definition quickstart_rule :: network_policy_rule where
  "quickstart_rule =
     \<lparr>npr_name = ''github-api-readonly'',
      npr_endpoints = [\<lparr>ne_host = ''api.github.com'', ne_port = 443, ne_protocol = ''rest'',
        ne_tls = ''terminate'', ne_enforcement = ''enforce'', ne_access = ''read-only'',
        ne_rules = [], ne_allowed_ips = [], ne_ports = [443]\<rparr>],
      npr_binaries = [\<lparr>nb_path = ''/usr/bin/curl'', nb_harness = False\<rparr>]\<rparr>"

definition quickstart_policy :: sandbox_policy where
  "quickstart_policy =
     \<lparr>sp_version = 1,
      sp_filesystem = Some \<lparr>fs_include_workdir = True,
        fs_read_only = [''/usr'', ''/lib'', ''/proc'', ''/dev/urandom'', ''/app'', ''/etc'', ''/var/log''],
        fs_read_write = [''/sandbox'', ''/tmp'', ''/dev/null'']\<rparr>,
      sp_landlock = Some \<lparr>ll_compatibility = ''best_effort''\<rparr>,
      sp_process = Some \<lparr>pp_run_as_user = ''sandbox'', pp_run_as_group = ''sandbox''\<rparr>,
      sp_network_policies = [(''github_api'', quickstart_rule)]\<rparr>"

lemma quickstart_canonical: "canonical_policy quickstart_policy"
  by (simp add: canonical_policy_def quickstart_policy_def quickstart_rule_def hm_inv_def
      process_policy_default_def canonical_rule_def canonical_endpoint_def first_port_def)

section \<open>Properties\<close>

text \<open>C6: \<open>validate_sandbox_policy\<close> accepts exactly the safe policies: it returns \<open>Ok\<close> if and only
  if the process section, when present, names \<open>sandbox\<close> for both user and group, there are at most
  256 paths, each of at most 4096 bytes, absolute and without a \<open>..\<close> segment, and no read-write path
  consists of slashes only.\<close>

theorem validate_accepts_exactly_safe:
  "validate_sandbox_policy p = Some (Inr ()) \<longleftrightarrow> safe_policy p"
  by (rule validate_ok_iff)

text \<open>\<open>validate_sandbox_policy\<close> returns unless it panics, and it panics exactly when some path is
  longer than 4096 bytes and its byte 77 lies inside a character, where \<open>truncate_for_display\<close>
  slices.\<close>

theorem validate_panics_iff:
  "validate_sandbox_policy p = None \<longleftrightarrow>
     (\<exists>fs. sp_filesystem p = Some fs \<and>
        (\<exists>q \<in> set (fs_read_only fs @ fs_read_write fs).
           MAX_PATH_LENGTH < length q \<and> is_cont (byte (q ! 77))))"
proof -
  have one: "path_violations q = None \<longleftrightarrow> MAX_PATH_LENGTH < length q \<and> is_cont (byte (q ! 77))" for q
    by (auto simp: path_violations_def truncate_for_display_def is_char_boundary_def
        MAX_PATH_LENGTH_def split: option.splits)
  have "all_path_violations qs = None \<longleftrightarrow> (\<exists>q\<in>set qs. path_violations q = None)" for qs
    by (induction qs) (auto split: option.splits)
  with one have all: "all_path_violations qs = None \<longleftrightarrow>
      (\<exists>q\<in>set qs. MAX_PATH_LENGTH < length q \<and> is_cont (byte (q ! 77)))" for qs
    by simp
  have "validate_sandbox_policy p = None \<longleftrightarrow>
      (\<exists>fs. sp_filesystem p = Some fs \<and> all_path_violations (fs_read_only fs @ fs_read_write fs) = None)"
    by (cases "sp_filesystem p")
      (auto simp: validate_sandbox_policy_def filesystem_violations_def Let_def split: option.splits)
  then show ?thesis by (simp only: all)
qed

text \<open>C40: a canonical policy survives serialisation and parsing unchanged, given that \<open>serde_yaml\<close>
  reads back the file it wrote.\<close>

theorem policy_yaml_roundtrip:
  assumes "canonical_policy p"
    and "to_str (from_proto p) = Inr y"
    and "from_str y = Inr (from_proto p)"
  shows "serialize_sandbox_policy to_str p = Inr y
    \<and> (\<exists>q. parse_sandbox_policy from_str y = Inr q \<and> same_policy q p)"
  using assms roundtrip_canonical [OF assms(1)]
  by (auto simp: serialize_sandbox_policy_def parse_sandbox_policy_def wrap_err_def)

theorem policy_yaml_roundtrip_witness:
  "serialize_sandbox_policy (\<lambda>_. Inr ''yaml'' :: unit + bytes) quickstart_policy = Inr ''yaml''
   \<and> (\<exists>q. parse_sandbox_policy (\<lambda>_. Inr (from_proto quickstart_policy) :: unit + policy_file) ''yaml''
            = Inr q \<and> same_policy q quickstart_policy)"
  by (rule policy_yaml_roundtrip [OF quickstart_canonical]) simp_all

text \<open>Whatever the policy, one trip through the YAML file makes it canonical, so every further
  trip leaves it unchanged.\<close>

theorem policy_conversion_idempotent:
  assumes "hm_inv (sp_network_policies p)"
  shows "same_policy (to_proto (from_proto (to_proto (from_proto p)))) (to_proto (from_proto p))"
  by (rule roundtrip_canonical [OF roundtrip_is_canonical [OF assms]])

theorem policy_conversion_idempotent_witness:
  "same_policy (to_proto (from_proto (to_proto (from_proto quickstart_policy))))
     (to_proto (from_proto quickstart_policy))"
  by (rule policy_conversion_idempotent) (use quickstart_canonical in \<open>simp add: canonical_policy_def\<close>)

text \<open>After \<open>ensure_sandbox_process_identity\<close> a process section is present and the validator finds
  no identity violation, except where the policy itself names another user or group.\<close>

theorem ensure_identity_then_validate:
  "identity_violations (sp_process (ensure_sandbox_process_identity p)) = [] \<longleftrightarrow>
     (case sp_process p of
        None \<Rightarrow> True
      | Some q \<Rightarrow> pp_run_as_user q \<in> {[], ''sandbox''} \<and> pp_run_as_group q \<in> {[], ''sandbox''})"
  by (auto simp: ensure_sandbox_process_identity_def process_policy_default_def Let_def
      identity_violations_Nil safe_process_def split: option.splits)

text \<open>Lexical normalisation keeps the components of a path except \<open>.\<close>, so it changes neither its
  root nor its \<open>..\<close> components, and it is idempotent.\<close>

theorem normalize_path_components:
  "path_components (normalize_path p) = filter (\<lambda>c. c \<noteq> CurDir) (path_components p)
   \<and> normalize_path (normalize_path p) = normalize_path p"
proof
  have "CurDir \<notin> set (path_components (normalize_path p))"
  proof (cases "has_root p \<or> path_body p = []")
    case False
    then obtain c cs where c: "path_body p = c # cs" by (cases "path_body p") auto
    have "hd (split_char (CHR ''/'') (normalize_path p)) = segment_of c"
      using False c split_join_body [of p] by (simp add: normalize_path_join)
    then have "hd (split_char (CHR ''/'') (normalize_path p)) \<noteq> ''.''"
      using path_body_mem(4) [of c p] c by simp
    then show ?thesis
      by (auto simp: path_components_def Let_def path_body_def [symmetric] dest: path_body_mem(6))
  qed (auto simp: path_components_def Let_def path_body_def [symmetric] has_root_normalize
      normalize_path_join dest: path_body_mem(6))
  then have "path_components (normalize_path p) =
      filter (\<lambda>c. c \<noteq> CurDir) (path_components (normalize_path p))"
    by (metis (mono_tags, lifting) filter_True)
  then show "path_components (normalize_path p) = filter (\<lambda>c. c \<noteq> CurDir) (path_components p)"
    by (simp only: path_components_alt has_root_normalize path_body_normalize)
  have "normalize_path (normalize_path p) =
      (if has_root p then ''/'' else []) @ join_str ''/'' (map segment_of (path_body p))"
    by (subst normalize_path_join) (simp only: has_root_normalize path_body_normalize)
  then show "normalize_path (normalize_path p) = normalize_path p"
    by (simp only: normalize_path_join [of p])
qed

end
