(* ===== verification/Json.thy ===== *)
theory Json
  imports Rust_Text Rust_Map
begin

text \<open>
  \<open>serde_json::Value\<close>: an object is a \<open>BTreeMap\<close>, so its entries are kept in key order. A number is
  an integer or, as \<open>JFloat\<close>, the text of any other number. Serialising a value and parsing it back
  yields the value, so the places where the code does both pass the value itself.
\<close>

datatype json =
    JNull
  | JBool bool
  | JNum int
  | JFloat bytes
  | JStr bytes
  | JArr "json list"
  | JObj "(bytes \<times> json) list"

fun json_get :: "json \<Rightarrow> bytes \<Rightarrow> json option" where
  "json_get (JObj m) k = map_of m k"
| "json_get v k = None"

fun as_str :: "json \<Rightarrow> bytes option" where
  "as_str (JStr s) = Some s"
| "as_str v = None"

fun as_array :: "json \<Rightarrow> json list option" where
  "as_array (JArr vs) = Some vs"
| "as_array v = None"

fun as_object :: "json \<Rightarrow> (bytes \<times> json) list option" where
  "as_object (JObj m) = Some m"
| "as_object v = None"

fun as_u64 :: "json \<Rightarrow> nat option" where
  "as_u64 (JNum i) = (if 0 \<le> i \<and> i < 2 ^ 64 then Some (nat i) else None)"
| "as_u64 v = None"

text \<open>\<open>json!({...})\<close>, \<open>v[k] = w\<close> and \<open>remove\<close>.\<close>

definition json_object :: "(bytes \<times> json) list \<Rightarrow> json" where
  "json_object kvs = JObj (bt_collect kvs)"

fun json_set :: "bytes \<Rightarrow> json \<Rightarrow> json \<Rightarrow> json" where
  "json_set k w (JObj m) = JObj (bt_insert k w m)"
| "json_set k w v = v"

fun json_remove :: "bytes \<Rightarrow> json \<Rightarrow> json" where
  "json_remove k (JObj m) = JObj (bt_remove k m)"
| "json_remove k v = v"

definition json_str_array :: "bytes list \<Rightarrow> json" where
  "json_str_array ss = JArr (map JStr ss)"

text \<open>The string under a key, or the empty string.\<close>

definition str_field :: "json \<Rightarrow> bytes \<Rightarrow> bytes" where
  "str_field v k = (case Option.bind (json_get v k) as_str of None \<Rightarrow> [] | Some s \<Rightarrow> s)"

definition array_field :: "json \<Rightarrow> bytes \<Rightarrow> json list option" where
  "array_field v k = Option.bind (json_get v k) as_array"

definition u64_field :: "json \<Rightarrow> bytes \<Rightarrow> nat option" where
  "u64_field v k = Option.bind (json_get v k) as_u64"

text \<open>Objects all the way down keep their keys in order.\<close>

fun json_wf :: "json \<Rightarrow> bool" where
  "json_wf (JObj m) = (bt_inv m \<and> (\<forall>kv\<in>set m. json_wf (snd kv)))"
| "json_wf (JArr vs) = (\<forall>v\<in>set vs. json_wf v)"
| "json_wf v = True"

section \<open>Facts\<close>

lemma json_get_object: "json_get (json_object kvs) k = map_of (rev kvs) k"
  by (simp add: json_object_def bt_collect_def bt.get_collect)

lemma json_get_set:
  "as_object v \<noteq> None \<Longrightarrow> json_get (json_set k w v) k' = (if k' = k then Some w else json_get v k')"
  by (cases v) (auto simp: bt_get_insert)

lemma as_object_set [simp]: "(as_object (json_set k w v) = None) = (as_object v = None)"
  by (cases v) auto

lemma as_object_json_object [simp]: "as_object (json_object kvs) \<noteq> None"
  by (simp add: json_object_def)

lemma json_get_Some_object: "json_get v k = Some w \<Longrightarrow> as_object v \<noteq> None"
  by (cases v) auto

end
