(* ===== verification/L7_Config.thy ===== *)
theory L7_Config
  imports Json
begin

text \<open>
  The L7 configuration of an endpoint, from \<open>crates/clustershell-sandbox/src/l7/mod.rs\<close>: the
  endpoint settings the proxy acts on, the validation of the policy data and the expansion of the
  \<open>access\<close> presets into explicit rules.
\<close>

section \<open>Endpoint settings\<close>

datatype l7_protocol = Rest | Sql

datatype tls_mode = Passthrough | Terminate

datatype enforcement_mode = Audit | Enforce

record l7_endpoint_config =
  lc_protocol :: l7_protocol
  lc_tls :: tls_mode
  lc_enforcement :: enforcement_mode

record l7_request_info =
  ri_action :: bytes
  ri_target :: bytes

definition l7_protocol_parse :: "bytes \<Rightarrow> l7_protocol option" where
  "l7_protocol_parse s =
     (let l = to_ascii_lowercase s in
      if l = ''rest'' then Some Rest else if l = ''sql'' then Some Sql else None)"

definition get_object_str :: "json \<Rightarrow> bytes \<Rightarrow> bytes option" where
  "get_object_str v key =
     (case json_get v key of
        Some (JStr s) \<Rightarrow> (if s = [] then None else Some s)
      | _ \<Rightarrow> None)"

definition parse_l7_config :: "json \<Rightarrow> l7_endpoint_config option" where
  "parse_l7_config v =
     (case get_object_str v ''protocol'' of
        None \<Rightarrow> None
      | Some protocol_val \<Rightarrow>
          (case l7_protocol_parse protocol_val of
             None \<Rightarrow> None
           | Some protocol \<Rightarrow>
               Some \<lparr>lc_protocol = protocol,
                     lc_tls = (if get_object_str v ''tls'' = Some ''terminate'' then Terminate
                               else Passthrough),
                     lc_enforcement = (if get_object_str v ''enforcement'' = Some ''enforce'' then Enforce
                                       else Audit)\<rparr>))"

section \<open>Validation\<close>

definition valid_methods :: "bytes list" where
  "valid_methods = [''GET'', ''HEAD'', ''POST'', ''PUT'', ''DELETE'', ''PATCH'', ''OPTIONS'', ''*'']"

definition has_rules :: "json \<Rightarrow> bool" where
  "has_rules ep = (case array_field ep ''rules'' of None \<Rightarrow> False | Some a \<Rightarrow> a \<noteq> [])"

definition endpoint_ports :: "json \<Rightarrow> nat list" where
  "endpoint_ports ep =
     (case array_field ep ''ports'' of
        Some arr \<Rightarrow> List.map_filter as_u64 arr
      | None \<Rightarrow> (case u64_field ep ''port'' of
                  None \<Rightarrow> [] | Some p \<Rightarrow> if 0 < p then [p] else []))"

text \<open>The errors and the warnings the wildcard check pushes.\<close>

definition wildcard_errors :: "bytes \<Rightarrow> bytes \<Rightarrow> bytes list" where
  "wildcard_errors loc host =
     (if contains_sub host ''*'' then
        (if host = ''*'' \<or> host = ''**'' then
           [loc @ '': host wildcard '' @ [CHR 0x27] @ host @ [CHR 0x27] @
            '' matches all hosts; use specific patterns like '*.example.com'' @ [CHR 0x27]]
         else if \<not> starts_with host ''*.'' \<and> \<not> starts_with host ''**.'' then
           [loc @ '': host wildcard must start with '*.' or '**.' (e.g., '*.example.com'), got '' @
            [CHR 0x27] @ host @ [CHR 0x27]]
         else [])
      else [])"

definition wildcard_warnings :: "bytes \<Rightarrow> bytes \<Rightarrow> bytes list" where
  "wildcard_warnings loc host =
     (if contains_sub host ''*'' \<and> host \<noteq> ''*'' \<and> host \<noteq> ''**''
         \<and> (starts_with host ''*.'' \<or> starts_with host ''**.'')
         \<and> length (split_char (CHR ''.'') host) \<le> 2
      then [loc @ '': host wildcard '' @ [CHR 0x27] @ host @ [CHR 0x27] @
            '' is very broad (covers all subdomains of a TLD)'']
      else [])"

definition endpoint_errors :: "bytes \<Rightarrow> json \<Rightarrow> bytes list" where
  "endpoint_errors loc ep =
     (let protocol = str_field ep ''protocol''; tls = str_field ep ''tls'';
          enforcement = str_field ep ''enforcement''; access = str_field ep ''access'';
          host = str_field ep ''host'';
          has_scalar_port = (case u64_field ep ''port'' of None \<Rightarrow> False | Some p \<Rightarrow> 0 < p);
          has_ports_array = (case array_field ep ''ports'' of None \<Rightarrow> False | Some a \<Rightarrow> a \<noteq> [])
      in wildcard_errors loc host @
         (if has_scalar_port \<and> has_ports_array
          then [loc @ '': port and ports are mutually exclusive; use ports for multiple ports''] else []) @
         (if has_rules ep \<and> access \<noteq> []
          then [loc @ '': rules and access are mutually exclusive''] else []) @
         (if protocol \<noteq> [] \<and> \<not> has_rules ep \<and> access = []
          then [loc @ '': protocol requires rules or access to define allowed traffic''] else []) @
         (if tls = ''terminate'' \<and> protocol = []
          then [loc @ '': TLS termination requires a protocol for L7 inspection''] else []) @
         (if protocol = ''sql'' \<and> enforcement = ''enforce''
          then [loc @ '': SQL enforcement requires full SQL parsing (not available in v1). Use `enforcement: audit`.'']
          else []) @
         (if array_field ep ''rules'' = Some []
          then [loc @ '': rules list cannot be empty (would deny all traffic). Use `access: full` or remove rules.'']
          else []))"

definition rule_method :: "json \<Rightarrow> bytes option" where
  "rule_method rule =
     Option.bind (Option.bind (json_get rule ''allow'') (\<lambda>a. json_get a ''method'')) as_str"

definition method_warnings :: "bytes \<Rightarrow> json list \<Rightarrow> bytes list" where
  "method_warnings loc rules =
     List.map_filter (\<lambda>rule.
       case rule_method rule of
         None \<Rightarrow> None
       | Some m \<Rightarrow>
           if m \<noteq> [] \<and> to_ascii_uppercase m \<notin> set valid_methods
           then Some (loc @ '': Unknown HTTP method '' @ [CHR 0x27] @ m @ [CHR 0x27] @
                ''. Standard methods: GET, HEAD, POST, PUT, DELETE, PATCH, OPTIONS.'')
           else None) rules"

definition endpoint_warnings :: "bytes \<Rightarrow> json \<Rightarrow> bytes list" where
  "endpoint_warnings loc ep =
     (let protocol = str_field ep ''protocol''; tls = str_field ep ''tls'' in
      wildcard_warnings loc (str_field ep ''host'') @
      (if protocol = ''rest'' \<and> 443 \<in> set (endpoint_ports ep) \<and> tls \<noteq> ''terminate''
       then [loc @ '': L7 rules won't be evaluated on encrypted traffic without `tls: terminate`'']
       else []) @
      (if has_rules ep \<and> protocol = ''rest''
       then (case array_field ep ''rules'' of None \<Rightarrow> [] | Some rules \<Rightarrow> method_warnings loc rules)
       else []))"

definition policy_endpoints :: "json \<Rightarrow> json list" where
  "policy_endpoints policy = (case array_field policy ''endpoints'' of None \<Rightarrow> [] | Some eps \<Rightarrow> eps)"

text \<open>Every endpoint of the data, with the location string the messages carry.\<close>

definition located_endpoints :: "(bytes \<times> json) list \<Rightarrow> (bytes \<times> json) list" where
  "located_endpoints policies =
     concat (map (\<lambda>(name, policy).
       map (\<lambda>(i, ep). (name @ ''.endpoints['' @ show_nat i @ '']'', ep))
         (enumerate 0 (policy_endpoints policy))) policies)"

definition data_network_policies :: "json \<Rightarrow> (bytes \<times> json) list option" where
  "data_network_policies d = Option.bind (json_get d ''network_policies'') as_object"

definition validate_l7_policies :: "json \<Rightarrow> bytes list \<times> bytes list" where
  "validate_l7_policies d =
     (case data_network_policies d of
        None \<Rightarrow> ([], [])
      | Some policies \<Rightarrow>
          (concat (map (\<lambda>(loc, ep). endpoint_errors loc ep) (located_endpoints policies)),
           concat (map (\<lambda>(loc, ep). endpoint_warnings loc ep) (located_endpoints policies))))"

section \<open>Access presets\<close>

definition rule_json :: "bytes \<Rightarrow> bytes \<Rightarrow> json" where
  "rule_json method path =
     json_object [(''allow'', json_object [(''method'', JStr method), (''path'', JStr path)])]"

definition preset_methods :: "bytes \<Rightarrow> bytes list option" where
  "preset_methods access =
     (if access = ''read-only'' then Some [''GET'', ''HEAD'', ''OPTIONS'']
      else if access = ''read-write''
      then Some [''GET'', ''HEAD'', ''OPTIONS'', ''POST'', ''PUT'', ''PATCH'']
      else if access = ''full'' then Some [''*''] else None)"

definition expand_endpoint :: "json \<Rightarrow> json" where
  "expand_endpoint ep =
     (let access = str_field ep ''access'' in
      if access = [] then ep
      else if has_rules ep then ep
      else case preset_methods access of
             None \<Rightarrow> ep
           | Some ms \<Rightarrow> json_set ''rules'' (JArr (map (\<lambda>m. rule_json m ''**'') ms)) ep)"

text \<open>Both passes over the data rewrite every endpoint of every policy in place.\<close>

definition map_policy_endpoints :: "(json \<Rightarrow> json) \<Rightarrow> json \<Rightarrow> json" where
  "map_policy_endpoints f policy =
     (case array_field policy ''endpoints'' of
        None \<Rightarrow> policy
      | Some eps \<Rightarrow> json_set ''endpoints'' (JArr (map f eps)) policy)"

definition map_data_endpoints :: "(json \<Rightarrow> json) \<Rightarrow> json \<Rightarrow> json" where
  "map_data_endpoints f d =
     (case data_network_policies d of
        None \<Rightarrow> d
      | Some policies \<Rightarrow>
          json_set ''network_policies'' (JObj (map (\<lambda>(k, p). (k, map_policy_endpoints f p)) policies)) d)"

definition expand_access_presets :: "json \<Rightarrow> json" where
  "expand_access_presets d = map_data_endpoints expand_endpoint d"

end
