(* ===== verification/Opa_Data.thy ===== *)
theory Opa_Data
  imports Sandbox_Policy L7_Config
begin

text \<open>
  The policy data the OPA engine is loaded with, from \<open>crates/clustershell-sandbox/src/opa.rs\<close>:
  the conversion of a typed policy to JSON, the port normalisation of YAML data, and the pipeline
  both run through (validate, then expand the presets), with the readers of the static
  configuration. \<open>serde_yaml\<close> is a parameter.
\<close>

section \<open>Proto to JSON\<close>

definition rule_to_json :: "l7_rule \<Rightarrow> json" where
  "rule_to_json r =
     (let a = lr_allow r in
      json_object [(''allow'', json_object
        [(''method'', JStr (case a of None \<Rightarrow> [] | Some x \<Rightarrow> la_method x)),
         (''path'', JStr (case a of None \<Rightarrow> [] | Some x \<Rightarrow> la_path x)),
         (''command'', JStr (case a of None \<Rightarrow> [] | Some x \<Rightarrow> la_command x))])])"

definition set_nonempty_str :: "bytes \<Rightarrow> bytes \<Rightarrow> json \<Rightarrow> json" where
  "set_nonempty_str k s v = (if s \<noteq> [] then json_set k (JStr s) v else v)"

definition endpoint_to_json :: "network_endpoint \<Rightarrow> json" where
  "endpoint_to_json e =
     (let ports = normalized_ports (ne_ports e) (ne_port e);
          ep0 = json_object [(''host'', JStr (ne_host e)),
                             (''ports'', JArr (map (\<lambda>p. JNum (int p)) ports))];
          ep1 = set_nonempty_str ''protocol'' (ne_protocol e) ep0;
          ep2 = set_nonempty_str ''tls'' (ne_tls e) ep1;
          ep3 = set_nonempty_str ''enforcement'' (ne_enforcement e) ep2;
          ep4 = set_nonempty_str ''access'' (ne_access e) ep3;
          ep5 = (if ne_rules e \<noteq> [] then json_set ''rules'' (JArr (map rule_to_json (ne_rules e))) ep4
                 else ep4);
          ep6 = (if ne_allowed_ips e \<noteq> []
                 then json_set ''allowed_ips'' (json_str_array (ne_allowed_ips e)) ep5 else ep5)
      in ep6)"

definition policy_rule_to_json :: "network_policy_rule \<Rightarrow> json" where
  "policy_rule_to_json r =
     json_object
       [(''name'', JStr (npr_name r)),
        (''endpoints'', JArr (map endpoint_to_json (npr_endpoints r))),
        (''binaries'', JArr (map (\<lambda>b. json_object [(''path'', JStr (nb_path b))]) (npr_binaries r)))]"

definition proto_to_opa_data_json :: "sandbox_policy \<Rightarrow> json" where
  "proto_to_opa_data_json p =
     (let fs = (case sp_filesystem p of
                  None \<Rightarrow> json_object [(''include_workdir'', JBool True), (''read_only'', JArr []),
                                      (''read_write'', JArr [])]
                | Some f \<Rightarrow> json_object [(''include_workdir'', JBool (fs_include_workdir f)),
                                        (''read_only'', json_str_array (fs_read_only f)),
                                        (''read_write'', json_str_array (fs_read_write f))]);
          ll = json_object [(''compatibility'',
                 JStr (case sp_landlock p of None \<Rightarrow> ''best_effort'' | Some l \<Rightarrow> ll_compatibility l))];
          pr = (case sp_process p of
                  None \<Rightarrow> json_object [(''run_as_user'', JStr ''sandbox''), (''run_as_group'', JStr ''sandbox'')]
                | Some q \<Rightarrow> json_object [(''run_as_user'', JStr (pp_run_as_user q)),
                                        (''run_as_group'', JStr (pp_run_as_group q))]);
          np = JObj (bt_collect (map (\<lambda>(k, r). (k, policy_rule_to_json r)) (sp_network_policies p)))
      in json_object [(''filesystem_policy'', fs), (''landlock'', ll), (''process'', pr),
                      (''network_policies'', np)])"

section \<open>Port normalisation of YAML data\<close>

definition normalize_endpoint :: "json \<Rightarrow> json" where
  "normalize_endpoint ep =
     (case as_object ep of
        None \<Rightarrow> ep
      | Some _ \<Rightarrow>
          (let has_ports = (case array_field ep ''ports'' of None \<Rightarrow> False | Some a \<Rightarrow> a \<noteq> []);
               port = (case u64_field ep ''port'' of None \<Rightarrow> 0 | Some p \<Rightarrow> p);
               ep1 = (if \<not> has_ports \<and> 0 < port
                      then json_set ''ports'' (JArr [JNum (int port)]) ep else ep)
           in json_remove ''port'' ep1))"

definition normalize_endpoint_ports :: "json \<Rightarrow> json" where
  "normalize_endpoint_ports d = map_data_endpoints normalize_endpoint d"

section \<open>The loading pipeline\<close>

text \<open>Validate before expanding the presets, so that \<open>rules\<close> and \<open>access\<close> together are caught.\<close>

definition validate_and_expand :: "json \<Rightarrow> (report, json) result" where
  "validate_and_expand d =
     (let (errors, warnings) = validate_l7_policies d in
      if errors \<noteq> [] then Inl (''L7 policy validation failed:'' @ [CHR 0x0A] @ join_str [CHR 0x0A] errors)
      else Inr (expand_access_presets d))"

definition preprocess_yaml_data ::
  "(bytes \<Rightarrow> (report, json) result) \<Rightarrow> bytes \<Rightarrow> (report, json) result" where
  "preprocess_yaml_data yaml_from_str yaml =
     result_bind (result_map_err (\<lambda>e. ''failed to parse YAML data: '' @ e) (yaml_from_str yaml))
       (\<lambda>d. validate_and_expand (normalize_endpoint_ports d))"

section \<open>Static configuration\<close>

datatype landlock_compatibility = BestEffort | HardRequirement

record sandbox_config =
  sc_read_only :: "bytes list"
  sc_read_write :: "bytes list"
  sc_include_workdir :: bool
  sc_landlock :: landlock_compatibility
  sc_run_as_user :: "bytes option"
  sc_run_as_group :: "bytes option"

definition get_str :: "json \<Rightarrow> bytes \<Rightarrow> bytes option" where
  "get_str v key = (case json_get v key of Some (JStr s) \<Rightarrow> Some s | _ \<Rightarrow> None)"

definition get_bool :: "json \<Rightarrow> bytes \<Rightarrow> bool option" where
  "get_bool v key = (case json_get v key of Some (JBool b) \<Rightarrow> Some b | _ \<Rightarrow> None)"

definition get_str_array :: "json \<Rightarrow> bytes \<Rightarrow> bytes list" where
  "get_str_array v key =
     (case json_get v key of Some (JArr vs) \<Rightarrow> List.map_filter as_str vs | _ \<Rightarrow> [])"

definition parse_filesystem_policy :: "json \<Rightarrow> bytes list \<times> bytes list \<times> bool" where
  "parse_filesystem_policy v =
     (get_str_array v ''read_only'', get_str_array v ''read_write'',
      case get_bool v ''include_workdir'' of None \<Rightarrow> True | Some b \<Rightarrow> b)"

definition parse_landlock_policy :: "json \<Rightarrow> landlock_compatibility" where
  "parse_landlock_policy v =
     (let compat = (case get_str v ''compatibility'' of None \<Rightarrow> [] | Some s \<Rightarrow> s) in
      if compat = ''hard_requirement'' then HardRequirement else BestEffort)"

definition parse_process_policy :: "json \<Rightarrow> bytes option \<times> bytes option" where
  "parse_process_policy v = (get_str v ''run_as_user'', get_str v ''run_as_group'')"

section \<open>Facts: the JSON of an endpoint\<close>

lemma set_nonempty_str_object [simp]:
  "(as_object (set_nonempty_str k s v) = None) = (as_object v = None)"
  by (simp add: set_nonempty_str_def)

lemma json_get_set_nonempty:
  "as_object v \<noteq> None \<Longrightarrow>
     json_get (set_nonempty_str k s v) k' = (if k' = k \<and> s \<noteq> [] then Some (JStr s) else json_get v k')"
  by (auto simp: set_nonempty_str_def json_get_set)

lemmas endpoint_json_simps =
  endpoint_to_json_def Let_def json_get_set json_get_set_nonempty json_get_object

lemma endpoint_json_host: "json_get (endpoint_to_json e) ''host'' = Some (JStr (ne_host e))"
  by (simp add: endpoint_json_simps)

lemma endpoint_json_ports:
  "json_get (endpoint_to_json e) ''ports'' =
     Some (JArr (map (\<lambda>p. JNum (int p)) (normalized_ports (ne_ports e) (ne_port e))))"
  by (simp add: endpoint_json_simps)

lemma endpoint_json_port: "json_get (endpoint_to_json e) ''port'' = None"
  by (simp add: endpoint_json_simps)

lemma endpoint_json_strings:
  "json_get (endpoint_to_json e) ''protocol'' = (if ne_protocol e = [] then None else Some (JStr (ne_protocol e)))"
  "json_get (endpoint_to_json e) ''tls'' = (if ne_tls e = [] then None else Some (JStr (ne_tls e)))"
  "json_get (endpoint_to_json e) ''enforcement'' = (if ne_enforcement e = [] then None else Some (JStr (ne_enforcement e)))"
  "json_get (endpoint_to_json e) ''access'' = (if ne_access e = [] then None else Some (JStr (ne_access e)))"
  by (simp_all add: endpoint_json_simps)

lemma endpoint_json_rules:
  "json_get (endpoint_to_json e) ''rules'' =
     (if ne_rules e = [] then None else Some (JArr (map rule_to_json (ne_rules e))))"
  by (simp add: endpoint_json_simps)

lemma endpoint_json_allowed_ips:
  "json_get (endpoint_to_json e) ''allowed_ips'' =
     (if ne_allowed_ips e = [] then None else Some (json_str_array (ne_allowed_ips e)))"
  by (simp add: endpoint_json_simps)

lemma endpoint_json_object: "as_object (endpoint_to_json e) \<noteq> None"
  by (rule json_get_Some_object [OF endpoint_json_host])

lemmas endpoint_json_fields [simp] =
  endpoint_json_host endpoint_json_ports endpoint_json_port endpoint_json_strings
  endpoint_json_rules endpoint_json_allowed_ips

lemma policy_rule_json_fields [simp]:
  "json_get (policy_rule_to_json r) ''name'' = Some (JStr (npr_name r))"
  "json_get (policy_rule_to_json r) ''endpoints'' = Some (JArr (map endpoint_to_json (npr_endpoints r)))"
  "json_get (policy_rule_to_json r) ''binaries'' =
     Some (JArr (map (\<lambda>b. json_object [(''path'', JStr (nb_path b))]) (npr_binaries r)))"
  by (simp_all add: policy_rule_to_json_def json_get_object)

lemma data_policies_proto:
  "data_network_policies (proto_to_opa_data_json p) =
     Some (bt_collect (map (\<lambda>(k, r). (k, policy_rule_to_json r)) (sp_network_policies p)))"
  by (simp add: data_network_policies_def proto_to_opa_data_json_def Let_def json_get_object)

end
