(* ===== verification/Rego_Rules.thy ===== *)
theory Rego_Rules
  imports Opa_Data
begin

text \<open>
  The policy module \<open>crates/clustershell-sandbox/data/sandbox-policy.rego\<close>, rule by rule, over the
  JSON data it is loaded with. The built-in functions of the Rego engine that depend on Unicode or on
  the engine's glob dialect are parameters (\<open>builtins\<close>).

  A Rego rule body holds when all its expressions are defined and not \<open>false\<close>; a reference to a
  missing key is undefined, and \<open>x[_]\<close> ranges over the elements of an array or the values of an
  object. The data's \<open>network_policies\<close> is taken as an object, which is what the loaders produce.
\<close>

section \<open>Built-ins, input and references\<close>

record builtins =
  rb_glob :: "bytes \<Rightarrow> bytes list \<Rightarrow> bytes \<Rightarrow> bool"
  rb_lower :: "bytes \<Rightarrow> bytes"
  rb_upper :: "bytes \<Rightarrow> bytes"

record rego_request =
  rq_method :: bytes
  rq_path :: bytes
  rq_command :: "bytes option"

text \<open>The input document the Rust side builds: always \<open>network\<close> and \<open>exec\<close>, \<open>request\<close> for L7 only.\<close>

record rego_input =
  in_host :: bytes
  in_port :: nat
  in_path :: bytes
  in_ancestors :: "bytes list"
  in_cmdline_paths :: "bytes list"
  in_request :: "rego_request option"

fun json_elems :: "json \<Rightarrow> json list" where
  "json_elems (JArr vs) = vs"
| "json_elems (JObj m) = map snd m"
| "json_elems v = []"

definition elems_at :: "json \<Rightarrow> bytes \<Rightarrow> json list" where
  "elems_at v k = (case json_get v k of None \<Rightarrow> [] | Some w \<Rightarrow> json_elems w)"

text \<open>An expression \<open>v.k\<close> as a body literal: defined and not \<open>false\<close>.\<close>

definition truthy_at :: "json \<Rightarrow> bytes \<Rightarrow> bool" where
  "truthy_at v k \<longleftrightarrow> json_get v k \<noteq> None \<and> json_get v k \<noteq> Some (JBool False)"

text \<open>\<open>count(object.get(v, k, [])) > 0\<close>.\<close>

definition nonempty_at :: "json \<Rightarrow> bytes \<Rightarrow> bool" where
  "nonempty_at v k =
     (case json_get v k of
        Some (JArr vs) \<Rightarrow> vs \<noteq> [] | Some (JObj m) \<Rightarrow> m \<noteq> [] | Some (JStr s) \<Rightarrow> s \<noteq> [] | _ \<Rightarrow> False)"

section \<open>Endpoints and binaries\<close>

definition port_listed :: "json \<Rightarrow> nat \<Rightarrow> bool" where
  "port_listed ep port \<longleftrightarrow> JNum (int port) \<in> set (elems_at ep ''ports'')"

definition endpoint_matches_exact :: "builtins \<Rightarrow> json \<Rightarrow> rego_input \<Rightarrow> bool" where
  "endpoint_matches_exact B ep i =
     (case json_get ep ''host'' of
        Some (JStr h) \<Rightarrow> \<not> contains_sub h ''*'' \<and> rb_lower B h = rb_lower B (in_host i)
                        \<and> port_listed ep (in_port i)
      | _ \<Rightarrow> False)"

definition endpoint_matches_glob :: "builtins \<Rightarrow> json \<Rightarrow> rego_input \<Rightarrow> bool" where
  "endpoint_matches_glob B ep i =
     (case json_get ep ''host'' of
        Some (JStr h) \<Rightarrow> contains_sub h ''*'' \<and> rb_glob B (rb_lower B h) [''.''] (rb_lower B (in_host i))
                        \<and> port_listed ep (in_port i)
      | _ \<Rightarrow> False)"

definition endpoint_matches_hostless :: "json \<Rightarrow> rego_input \<Rightarrow> bool" where
  "endpoint_matches_hostless ep i \<longleftrightarrow>
     (json_get ep ''host'' = None \<or> json_get ep ''host'' = Some (JStr []))
     \<and> nonempty_at ep ''allowed_ips'' \<and> port_listed ep (in_port i)"

definition endpoint_matches_request :: "builtins \<Rightarrow> json \<Rightarrow> rego_input \<Rightarrow> bool" where
  "endpoint_matches_request B ep i \<longleftrightarrow>
     endpoint_matches_exact B ep i \<or> endpoint_matches_glob B ep i \<or> endpoint_matches_hostless ep i"

text \<open>\<open>endpoint_allowed\<close>: its three clauses are those of \<open>endpoint_matches_request\<close>, over the
  endpoints of the policy.\<close>

definition endpoint_allowed :: "builtins \<Rightarrow> json \<Rightarrow> rego_input \<Rightarrow> bool" where
  "endpoint_allowed B policy i \<longleftrightarrow>
     (\<exists>ep \<in> set (elems_at policy ''endpoints''). endpoint_matches_exact B ep i)
     \<or> (\<exists>ep \<in> set (elems_at policy ''endpoints''). endpoint_matches_glob B ep i)
     \<or> (\<exists>ep \<in> set (elems_at policy ''endpoints''). endpoint_matches_hostless ep i)"

definition binary_path_matches :: "builtins \<Rightarrow> bytes \<Rightarrow> rego_input \<Rightarrow> bool" where
  "binary_path_matches B bp i \<longleftrightarrow>
     (\<not> contains_sub bp ''*'' \<and> bp = in_path i)
     \<or> (\<not> contains_sub bp ''*'' \<and> bp \<in> set (in_ancestors i))
     \<or> (contains_sub bp ''*'' \<and> (\<exists>p \<in> set (in_path i # in_ancestors i). rb_glob B bp [''/''] p))"

definition binary_allowed :: "builtins \<Rightarrow> json \<Rightarrow> rego_input \<Rightarrow> bool" where
  "binary_allowed B policy i \<longleftrightarrow>
     (\<exists>b \<in> set (elems_at policy ''binaries'').
        case json_get b ''path'' of Some (JStr bp) \<Rightarrow> binary_path_matches B bp i | _ \<Rightarrow> False)"

section \<open>L4 rules\<close>

definition rego_policies :: "json \<Rightarrow> (bytes \<times> json) list" where
  "rego_policies d = (case data_network_policies d of None \<Rightarrow> [] | Some m \<Rightarrow> m)"

definition policy_matches :: "builtins \<Rightarrow> json \<Rightarrow> rego_input \<Rightarrow> bool" where
  "policy_matches B policy i \<longleftrightarrow> endpoint_allowed B policy i \<and> binary_allowed B policy i"

definition network_policy_for_request :: "builtins \<Rightarrow> json \<Rightarrow> rego_input \<Rightarrow> bool" where
  "network_policy_for_request B d i \<longleftrightarrow> (\<exists>kp \<in> set (rego_policies d). policy_matches B (snd kp) i)"

definition allow_network :: "builtins \<Rightarrow> json \<Rightarrow> rego_input \<Rightarrow> bool" where
  "allow_network B d i = network_policy_for_request B d i"

definition network_action_rule :: "builtins \<Rightarrow> json \<Rightarrow> rego_input \<Rightarrow> bytes" where
  "network_action_rule B d i = (if network_policy_for_request B d i then ''allow'' else ''deny'')"

definition matching_policy_names :: "builtins \<Rightarrow> json \<Rightarrow> rego_input \<Rightarrow> bytes list" where
  "matching_policy_names B d i = map fst (filter (\<lambda>kp. policy_matches B (snd kp) i) (rego_policies d))"

fun min_name :: "bytes list \<Rightarrow> bytes option" where
  "min_name [] = None"
| "min_name (x # xs) = Some (fold min xs x)"

definition matched_network_policy :: "builtins \<Rightarrow> json \<Rightarrow> rego_input \<Rightarrow> bytes option" where
  "matched_network_policy B d i = min_name (matching_policy_names B d i)"

definition endpoint_misses :: "builtins \<Rightarrow> json \<Rightarrow> rego_input \<Rightarrow> bytes list" where
  "endpoint_misses B d i =
     map (\<lambda>(name, p). ''endpoint '' @ in_host i @ '':'' @ show_nat (in_port i) @ '' not in policy '' @
            [CHR 0x27] @ name @ [CHR 0x27])
       (filter (\<lambda>(name, p). \<not> endpoint_allowed B p i) (rego_policies d))"

definition binary_misses :: "builtins \<Rightarrow> json \<Rightarrow> rego_input \<Rightarrow> bytes list" where
  "binary_misses B d i =
     map (\<lambda>(name, p). ''binary '' @ [CHR 0x27] @ in_path i @ [CHR 0x27] @ '' (ancestors: ['' @
            join_str '' -> '' (in_ancestors i) @ ''], cmdline: ['' @ join_str '', '' (in_cmdline_paths i) @
            '']) not allowed in policy '' @ [CHR 0x27] @ name @ [CHR 0x27])
       (filter (\<lambda>(name, p). endpoint_allowed B p i \<and> \<not> binary_allowed B p i) (rego_policies d))"

text \<open>\<open>deny_reason\<close>: its first two clauses need an input without \<open>network\<close> or \<open>exec\<close>.\<close>

definition deny_reason :: "builtins \<Rightarrow> json \<Rightarrow> rego_input \<Rightarrow> bytes option" where
  "deny_reason B d i =
     (let all_reasons = endpoint_misses B d i @ binary_misses B d i in
      if network_policy_for_request B d i then None
      else if all_reasons \<noteq> [] then Some (join_str ''; '' all_reasons)
      else if data_network_policies d = Some [] then Some ''network connections not allowed by policy''
      else None)"

section \<open>L7 rules\<close>

definition method_matches :: "builtins \<Rightarrow> bytes \<Rightarrow> bytes \<Rightarrow> bool" where
  "method_matches B actual expected \<longleftrightarrow>
     expected = ''*'' \<or> (expected \<noteq> ''*'' \<and> rb_upper B actual = rb_upper B expected)"

definition path_matches :: "builtins \<Rightarrow> bytes \<Rightarrow> bytes \<Rightarrow> bool" where
  "path_matches B actual pattern \<longleftrightarrow>
     pattern = ''**'' \<or> (pattern \<noteq> ''**'' \<and> rb_glob B pattern [''/''] actual)"

definition command_matches :: "builtins \<Rightarrow> bytes \<Rightarrow> bytes \<Rightarrow> bool" where
  "command_matches B actual expected \<longleftrightarrow>
     expected = ''*'' \<or> (expected \<noteq> ''*'' \<and> rb_upper B actual = rb_upper B expected)"

definition rest_rule_allows :: "builtins \<Rightarrow> rego_request \<Rightarrow> json \<Rightarrow> bool" where
  "rest_rule_allows B r rule =
     (case json_get rule ''allow'' of
        None \<Rightarrow> False
      | Some a \<Rightarrow>
          (case (json_get a ''method'', json_get a ''path'') of
             (Some (JStr m), Some (JStr p)) \<Rightarrow>
               method_matches B (rq_method r) m \<and> path_matches B (rq_path r) p
           | _ \<Rightarrow> False))"

definition sql_rule_allows :: "builtins \<Rightarrow> rego_request \<Rightarrow> json \<Rightarrow> bool" where
  "sql_rule_allows B r rule =
     (case (Option.bind (json_get rule ''allow'') (\<lambda>a. json_get a ''command''), rq_command r) of
        (Some (JStr expected), Some actual) \<Rightarrow> command_matches B actual expected
      | _ \<Rightarrow> False)"

definition request_allowed_for_endpoint :: "builtins \<Rightarrow> rego_request \<Rightarrow> json \<Rightarrow> bool" where
  "request_allowed_for_endpoint B r ep \<longleftrightarrow>
     (\<exists>rule \<in> set (elems_at ep ''rules''). rest_rule_allows B r rule)
     \<or> (\<exists>rule \<in> set (elems_at ep ''rules''). sql_rule_allows B r rule)"

definition allow_request :: "builtins \<Rightarrow> json \<Rightarrow> rego_input \<Rightarrow> bool" where
  "allow_request B d i =
     (case in_request i of
        None \<Rightarrow> False
      | Some r \<Rightarrow>
          (\<exists>kp \<in> set (rego_policies d).
             endpoint_allowed B (snd kp) i \<and> binary_allowed B (snd kp) i
             \<and> (\<exists>ep \<in> set (elems_at (snd kp) ''endpoints'').
                  endpoint_matches_request B ep i \<and> request_allowed_for_endpoint B r ep)))"

definition request_deny_reason :: "builtins \<Rightarrow> json \<Rightarrow> rego_input \<Rightarrow> bytes option" where
  "request_deny_reason B d i =
     (case in_request i of
        None \<Rightarrow> None
      | Some r \<Rightarrow> if allow_request B d i then None
                  else Some (rq_method r @ '' '' @ rq_path r @ '' not permitted by policy''))"

definition endpoint_has_extended_config :: "json \<Rightarrow> bool" where
  "endpoint_has_extended_config ep \<longleftrightarrow> truthy_at ep ''protocol'' \<or> nonempty_at ep ''allowed_ips''"

definition matching_endpoint_configs :: "builtins \<Rightarrow> json \<Rightarrow> rego_input \<Rightarrow> json list" where
  "matching_endpoint_configs B d i =
     concat (map (\<lambda>(name, p).
       filter (\<lambda>ep. endpoint_matches_request B ep i \<and> endpoint_has_extended_config ep)
         (elems_at p ''endpoints''))
       (filter (\<lambda>(name, p). endpoint_allowed B p i \<and> binary_allowed B p i) (rego_policies d)))"

definition matched_endpoint_config :: "builtins \<Rightarrow> json \<Rightarrow> rego_input \<Rightarrow> json option" where
  "matched_endpoint_config B d i =
     (case matching_endpoint_configs B d i of [] \<Rightarrow> None | ep # _ \<Rightarrow> Some ep)"

section \<open>Facts\<close>

lemma endpoint_allowed_iff:
  "endpoint_allowed B policy i \<longleftrightarrow>
     (\<exists>ep \<in> set (elems_at policy ''endpoints''). endpoint_matches_request B ep i)"
  by (auto simp: endpoint_allowed_def endpoint_matches_request_def)

lemma min_name_eq: "xs \<noteq> [] \<Longrightarrow> min_name xs = Some (Min (set xs))"
  by (cases xs) (auto simp only: min_name.simps Min.set_eq_fold)

lemma matched_policy_defined_iff:
  "matched_network_policy B d i \<noteq> None \<longleftrightarrow> network_policy_for_request B d i"
proof -
  have "matching_policy_names B d i \<noteq> [] \<longleftrightarrow> network_policy_for_request B d i"
    by (auto simp: matching_policy_names_def network_policy_for_request_def filter_empty_conv)
  then show ?thesis
    by (cases "matching_policy_names B d i") (auto simp: matched_network_policy_def)
qed

lemma matched_endpoint_config_in:
  assumes "matched_endpoint_config B d i = Some ep"
  obtains k p where "(k, p) \<in> set (rego_policies d)" "policy_matches B p i"
    "ep \<in> set (elems_at p ''endpoints'')" "endpoint_matches_request B ep i"
    "endpoint_has_extended_config ep"
proof -
  have "ep \<in> set (matching_endpoint_configs B d i)"
    using assms by (auto simp: matched_endpoint_config_def split: list.splits)
  then show ?thesis
    using that by (auto simp: matching_endpoint_configs_def policy_matches_def)
qed

text \<open>The passes over the data keep everything the matching rules read.\<close>

lemma elems_at_map_endpoints:
  assumes "array_field p ''endpoints'' = Some eps"
  shows "elems_at (map_policy_endpoints f p) ''endpoints'' = map f eps"
    and "elems_at (map_policy_endpoints f p) ''binaries'' = elems_at p ''binaries''"
proof -
  have obj: "as_object p \<noteq> None"
    using assms by (auto simp: array_field_def bind_eq_Some_conv dest: json_get_Some_object)
  show "elems_at (map_policy_endpoints f p) ''endpoints'' = map f eps"
    using assms obj by (simp add: map_policy_endpoints_def elems_at_def json_get_set)
  show "elems_at (map_policy_endpoints f p) ''binaries'' = elems_at p ''binaries''"
    using assms obj by (simp add: map_policy_endpoints_def elems_at_def json_get_set)
qed

lemma rego_policies_map:
  assumes "data_network_policies d = Some m"
  shows "data_network_policies (map_data_endpoints f d) =
           Some (map (\<lambda>(k, p). (k, map_policy_endpoints f p)) m)"
proof -
  have "as_object d \<noteq> None"
    using assms by (auto simp: data_network_policies_def bind_eq_Some_conv dest: json_get_Some_object)
  then show ?thesis
    using assms by (simp add: map_data_endpoints_def data_network_policies_def json_get_set)
qed

lemma json_get_expand_endpoint:
  "k \<noteq> ''rules'' \<Longrightarrow> json_get (expand_endpoint ep) k = json_get ep k"
  by (cases ep) (auto simp: expand_endpoint_def Let_def bt_get_insert split: option.splits)

lemma endpoint_matches_expand [simp]:
  "endpoint_matches_request B (expand_endpoint ep) i = endpoint_matches_request B ep i"
  by (simp add: endpoint_matches_request_def endpoint_matches_exact_def endpoint_matches_glob_def
      endpoint_matches_hostless_def nonempty_at_def port_listed_def elems_at_def
      json_get_expand_endpoint cong del: option.case_cong_weak json.case_cong_weak)

lemma endpoint_extended_expand [simp]:
  "endpoint_has_extended_config (expand_endpoint ep) = endpoint_has_extended_config ep"
  by (simp add: endpoint_has_extended_config_def truthy_at_def nonempty_at_def
      json_get_expand_endpoint)

end
