(* ===== verification/Secrets.thy ===== *)
theory Secrets
  imports Rust_Utf8 Rust_Map
begin

text \<open>
  Credential placeholders, \<open>crates/clustershell-sandbox/src/secrets.rs\<close>: the child process sees a
  placeholder per provider variable, and the proxy replaces placeholders by the credentials in the
  header values of the requests it forwards.
\<close>

definition PLACEHOLDER_PREFIX :: bytes where
  "PLACEHOLDER_PREFIX = ''clustershell:resolve:env:''"

record secret_resolver =
  by_placeholder :: "(bytes \<times> bytes) list"

definition placeholder_for_env_key :: "bytes \<Rightarrow> bytes" where
  "placeholder_for_env_key key = PLACEHOLDER_PREFIX @ key"

text \<open>The argument lists the provider's map in its iteration order.\<close>

definition from_provider_env ::
  "(bytes \<times> bytes) list \<Rightarrow> (bytes \<times> bytes) list \<times> secret_resolver option" where
  "from_provider_env provider_env =
     (if provider_env = [] then ([], None)
      else let (child_env, placeholders) =
             fold (\<lambda>(key, value) (ce, bp).
                     (hm_insert key (placeholder_for_env_key key) ce,
                      hm_insert (placeholder_for_env_key key) value bp))
                  provider_env ([], [])
           in (child_env, Some \<lparr>by_placeholder = placeholders\<rparr>))"

definition resolve_placeholder :: "secret_resolver \<Rightarrow> bytes \<Rightarrow> bytes option" where
  "resolve_placeholder rs value = map_of (by_placeholder rs) value"

definition rewrite_header_value :: "secret_resolver \<Rightarrow> bytes \<Rightarrow> bytes option" where
  "rewrite_header_value rs value =
     (case resolve_placeholder rs (trim_ws value) of
        Some secret \<Rightarrow> Some secret
      | None \<Rightarrow>
          (let trimmed = trim_ws value in
           case find_ws trimmed of
             None \<Rightarrow> None
           | Some split_at \<Rightarrow>
               (let prefix = take split_at trimmed;
                    candidate = trim_ws (drop split_at trimmed) in
                case resolve_placeholder rs candidate of
                  None \<Rightarrow> None
                | Some secret \<Rightarrow> Some (prefix @ '' '' @ secret))))"

definition rewrite_header_line :: "secret_resolver \<Rightarrow> bytes \<Rightarrow> bytes" where
  "rewrite_header_line rs line =
     (case split_once line '':'' of
        None \<Rightarrow> line
      | Some (name, value) \<Rightarrow>
          (case rewrite_header_value rs (trim_ws value) of
             Some rewritten \<Rightarrow> name @ '': '' @ rewritten
           | None \<Rightarrow> line))"

text \<open>The header lines up to the first empty one, each followed by CRLF.\<close>

fun rewrite_lines :: "secret_resolver \<Rightarrow> bytes list \<Rightarrow> bytes" where
  "rewrite_lines rs [] = []"
| "rewrite_lines rs (line # lines) =
     (if line = [] then [] else rewrite_header_line rs line @ crlf @ rewrite_lines rs lines)"

definition rewrite_http_header_block :: "bytes \<Rightarrow> secret_resolver option \<Rightarrow> bytes" where
  "rewrite_http_header_block raw resolver =
     (case resolver of
        None \<Rightarrow> raw
      | Some rs \<Rightarrow>
          (case find_sub crlf2 raw of
             None \<Rightarrow> raw
           | Some p \<Rightarrow>
               (let header_end = p + 4;
                    header_str = from_utf8_lossy (take header_end raw) in
                case split_str crlf header_str of
                  [] \<Rightarrow> raw
                | request_line # lines \<Rightarrow>
                    request_line @ crlf @ rewrite_lines rs lines @ crlf @ drop header_end raw)))"

section \<open>Facts\<close>

lemma placeholder_inj [simp]: "placeholder_for_env_key a = placeholder_for_env_key b \<longleftrightarrow> a = b"
  by (simp add: placeholder_for_env_key_def)

lemma provider_fold:
  "fold (\<lambda>(key, value) (ce, bp). (hm_insert key (placeholder_for_env_key key) ce,
          hm_insert (placeholder_for_env_key key) value bp)) env (ce, bp) =
   (fold (\<lambda>(k, v). hm_insert k v) (map (\<lambda>(k, v). (k, placeholder_for_env_key k)) env) ce,
    fold (\<lambda>(k, v). hm_insert k v) (map (\<lambda>(k, v). (placeholder_for_env_key k, v)) env) bp)"
  by (induction env arbitrary: ce bp) auto

lemma map_of_placeholders:
  "map_of (map (\<lambda>(k, v). (placeholder_for_env_key k, v)) env) (placeholder_for_env_key key) = map_of env key"
  by (induction env) auto

lemma from_provider_env_cases:
  assumes "env \<noteq> []" "distinct (map fst env)"
  obtains ce rs where "from_provider_env env = (ce, Some rs)"
    and "map_of ce = map_option placeholder_for_env_key \<circ> (\<lambda>k. map_option (\<lambda>_. k) (map_of env k))"
    and "map_of (by_placeholder rs) = map_of (map (\<lambda>(k, v). (placeholder_for_env_key k, v)) env)"
proof -
  let ?ce = "map (\<lambda>(k, v). (k, placeholder_for_env_key k)) env"
  let ?bp = "map (\<lambda>(k, v). (placeholder_for_env_key k, v)) env"
  have "map fst ?bp = map placeholder_for_env_key (map fst env)" by (induction env) auto
  then have bp: "distinct (map fst ?bp)"
    using assms(2) by (simp add: distinct_map inj_on_def del: map_map)
  have ce: "distinct (map fst ?ce)" using assms(2) by (simp only: keys_map_value)
  have "map_of ?ce k = map_option placeholder_for_env_key (map_option (\<lambda>_. k) (map_of env k))" for k
    by (simp add: map_of_map_value option.map_comp comp_def)
  then show thesis
    using that [of "hm_collect ?ce" "\<lparr>by_placeholder = hm_collect ?bp\<rparr>"] assms(1)
      hm_collect_get [OF ce] hm_collect_get [OF bp]
    by (auto simp: from_provider_env_def provider_fold hm_collect_def fun_eq_iff)
qed

lemma rewrite_lines_block:
  "[] \<notin> set ls \<Longrightarrow> rewrite_lines rs (ls @ [[], []]) = concat (map (\<lambda>l. rewrite_header_line rs l @ crlf) ls)"
  by (induction ls) auto

lemma join_str_concat: "x @ sep @ concat (map (\<lambda>l. f l @ sep) ls) = join_str sep (x # map f ls) @ sep"
  by (induction ls arbitrary: x) auto

section \<open>Properties\<close>

text \<open>Every provider variable becomes a placeholder in the child's environment, the placeholder
  resolves to the variable's credential, nothing but a placeholder of a provider variable resolves,
  and the child's environment has no other variable.\<close>

theorem placeholders_resolve_to_credentials:
  assumes "env \<noteq> []" "distinct (map fst env)"
  shows "\<exists>ce rs. from_provider_env env = (ce, Some rs)
    \<and> (\<forall>k. map_of ce k = (if k \<in> fst ` set env then Some (placeholder_for_env_key k) else None))
    \<and> (\<forall>p v. resolve_placeholder rs p = Some v \<longleftrightarrow>
          (\<exists>k. p = placeholder_for_env_key k \<and> map_of env k = Some v))"
proof -
  from assms obtain ce rs where f: "from_provider_env env = (ce, Some rs)"
    and ce: "map_of ce = map_option placeholder_for_env_key \<circ> (\<lambda>k. map_option (\<lambda>_. k) (map_of env k))"
    and rs: "map_of (by_placeholder rs) = map_of (map (\<lambda>(k, v). (placeholder_for_env_key k, v)) env)"
    by (rule from_provider_env_cases)
  have "map_of ce k = (if k \<in> fst ` set env then Some (placeholder_for_env_key k) else None)" for k
    using map_of_eq_None_iff [of env k] by (cases "map_of env k") (auto simp: ce)
  moreover have "resolve_placeholder rs p = Some v \<longleftrightarrow>
      (\<exists>k. p = placeholder_for_env_key k \<and> map_of env k = Some v)" for p v
    using map_of_placeholders [of env]
    by (auto simp: resolve_placeholder_def rs dest!: map_of_SomeD [of "map _ env"])
      (metis map_of_SomeD assms(2) map_of_is_SomeI)
  ultimately show ?thesis using f by blast
qed

theorem placeholders_resolve_to_credentials_witness:
  "\<exists>ce rs. from_provider_env [(''API_KEY'', ''s3cr3t'')] = (ce, Some rs)
     \<and> map_of ce ''API_KEY'' = Some ''clustershell:resolve:env:API_KEY''
     \<and> resolve_placeholder rs ''clustershell:resolve:env:API_KEY'' = Some ''s3cr3t''"
  using placeholders_resolve_to_credentials [of "[(''API_KEY'', ''s3cr3t'')]"]
  by (force simp: placeholder_for_env_key_def PLACEHOLDER_PREFIX_def)

text \<open>Rewriting a header block touches header values only: the request line, the framing and
  every byte after the blank line stay, and each header line is rewritten on its own.\<close>

theorem header_block_rewritten_per_line:
  assumes "find_sub crlf2 (head @ crlf2 @ body) = Some (length head)" "utf8_valid (head @ crlf2)"
  shows "rewrite_http_header_block (head @ crlf2 @ body) (Some rs) =
    join_str crlf (hd (split_str crlf head) # map (rewrite_header_line rs) (tl (split_str crlf head)))
      @ crlf2 @ body"
proof -
  have ne: "crlf \<noteq> []" by (simp add: crlf_def)
  have "split_str crlf ([] :: bytes) = [[]]"
    by (subst split_str.simps) (simp add: split_once_def crlf_def)
  then have sp: "split_str crlf (head @ crlf2) = split_str crlf head @ [[], []]"
    using split_str_crlf_append [of head crlf] split_str_crlf_append [of "[]" "[]"]
    by (simp add: crlf2_crlf)
  have "\<not> starts_with (drop j (head @ crlf2)) crlf2" if "j < length head" for j
    using find_sub_Some_first [OF assms(1) that] starts_with_append_mono [of "drop j (head @ crlf2)" crlf2 body]
      that by auto
  then have tl: "[] \<notin> set (tl (split_str crlf head))" by (rule split_str_crlf_nonempty)
  obtain l ls where ls: "split_str crlf head = l # ls"
    by (cases "split_once head crlf") (auto simp: split_str.simps [of crlf head] ne)
  have "rewrite_http_header_block (head @ crlf2 @ body) (Some rs) =
      l @ crlf @ rewrite_lines rs (ls @ [[], []]) @ crlf @ body"
    using assms from_utf8_lossy_valid_id [OF assms(2)] sp ls
    by (simp add: rewrite_http_header_block_def)
  also have "\<dots> = (l @ crlf @ concat (map (\<lambda>x. rewrite_header_line rs x @ crlf) ls)) @ crlf @ body"
    using tl ls by (simp add: rewrite_lines_block)
  finally show ?thesis using ls by (simp add: join_str_concat crlf2_crlf)
qed

theorem header_block_rewritten_per_line_witness:
  "rewrite_http_header_block
     (''GET / HTTP/1.1'' @ crlf @ ''X-Key: clustershell:resolve:env:K'' @ crlf2 @ ''body'')
     (Some \<lparr>by_placeholder = [(placeholder_for_env_key ''K'', ''s3cr3t'')]\<rparr>) =
   ''GET / HTTP/1.1'' @ crlf @ ''X-Key: s3cr3t'' @ crlf2 @ ''body''"
proof -
  let ?rs = "\<lparr>by_placeholder = [(placeholder_for_env_key ''K'', ''s3cr3t'')]\<rparr>"
  let ?h = "''GET / HTTP/1.1'' @ crlf @ ''X-Key: clustershell:resolve:env:K''"
  have f: "find_sub crlf2 (?h @ crlf2 @ ''body'') = Some (length ?h)" by code_simp
  have u: "utf8_valid (?h @ crlf2)" by code_simp
  have "join_str crlf (hd (split_str crlf ?h) # map (rewrite_header_line ?rs) (tl (split_str crlf ?h))) =
      ''GET / HTTP/1.1'' @ crlf @ ''X-Key: s3cr3t''" by code_simp
  with header_block_rewritten_per_line [OF f u, of ?rs] show ?thesis by simp
qed

text \<open>A header whose value is an authentication scheme followed by a placeholder is forwarded
  with the credential in the placeholder's position.\<close>

theorem scheme_header_receives_credential:
  assumes "resolve_placeholder rs (placeholder_for_env_key k) = Some secret"
    and "resolve_placeholder rs (scheme @ '' '' @ placeholder_for_env_key k) = None"
    and "CHR '':'' \<notin> set name" "no_ws scheme" "scheme \<noteq> []" "no_ws k"
  shows "rewrite_header_line rs (name @ '': '' @ scheme @ '' '' @ placeholder_for_env_key k) =
    name @ '': '' @ scheme @ '' '' @ secret"
proof -
  let ?p = "placeholder_for_env_key k"
  let ?v = "scheme @ '' '' @ ?p"
  have pre: "no_ws ?p" using assms(6)
    by (auto simp: no_ws_def placeholder_for_env_key_def PLACEHOLDER_PREFIX_def is_ws_scalar_def ws_scalars_def)
  have p: "?p \<noteq> []" "last ?p = last (CHR '':'' # k)"
    by (simp_all add: placeholder_for_env_key_def PLACEHOLDER_PREFIX_def)
  have word: "trim_ws w = w" if "w \<noteq> []" "no_ws [hd w]" "no_ws [last w]" for w
    using that ws_len_end_ascii [of w] ws_len_ascii [of "hd w" "tl w"]
    by (intro trim_ws_id) (auto simp: no_ws_def)
  have h: "no_ws [hd ?p]" "no_ws [last ?p]" "no_ws [hd scheme]"
    using pre p(1) assms(4,5) hd_in_set [of ?p] last_in_set [of ?p] hd_in_set [of scheme]
    by (auto simp: no_ws_def simp del: hd_in_set last_in_set)
  have tp: "trim_ws ?p = ?p" using p h by (intro word) auto
  have tv: "trim_ws ?v = ?v" using p h assms(5) by (intro word) auto
  have ts: "trim_ws ('' '' @ t) = trim_ws t" for t
    by (simp add: trim_ws_def trim_start.simps [of "CHR 0x20 # t"] ws_len_ascii is_ws_scalar_def ws_scalars_def)
  have fw: "find_ws ?v = Some (length scheme)" using find_ws_word [OF assms(4)] by simp
  have so: "split_once (name @ '': '' @ ?v) '':'' = Some (name, '' '' @ ?v)"
    using split_once_char_append [OF assms(3)] by simp
  show ?thesis
    using assms(1,2) ts [of ?v] ts [of ?p] tp tv fw so
    by (simp add: rewrite_header_line_def rewrite_header_value_def)
qed

theorem scheme_header_receives_credential_witness:
  "rewrite_header_line \<lparr>by_placeholder = [(placeholder_for_env_key ''K'', ''s3cr3t'')]\<rparr>
     (''Authorization'' @ '': '' @ ''Bearer'' @ '' '' @ placeholder_for_env_key ''K'') =
   ''Authorization: Bearer s3cr3t''"
proof -
  let ?rs = "\<lparr>by_placeholder = [(placeholder_for_env_key ''K'', ''s3cr3t'')]\<rparr>"
  have r: "resolve_placeholder ?rs (placeholder_for_env_key ''K'') = Some ''s3cr3t''"
    "resolve_placeholder ?rs (''Bearer'' @ '' '' @ placeholder_for_env_key ''K'') = None"
    by code_simp+
  have w: "no_ws ''Bearer''" "no_ws ''K''" by code_simp+
  show ?thesis
    using scheme_header_receives_credential [OF r _ w(1) _ w(2), of "''Authorization''"] by simp
qed

end
