(* ===== verification/Opa_Engine.thy ===== *)
theory Opa_Engine
  imports Rego_Rules Secrets
begin

text \<open>
  The policy engine of \<open>crates/clustershell-sandbox/src/opa.rs\<close>: loading, the queries the proxy makes
  and hot reload. The engine is the package its module declares, its data and whether its lock is
  poisoned; \<open>eval_rule\<close> evaluates the rules of \<open>Rego_Rules\<close> under that package and is an error on
  any other path, as \<open>regorus\<close> documents.
\<close>

section \<open>Engine, inputs and results\<close>

record opa_engine =
  eng_package :: bytes
  eng_data :: json
  eng_poisoned :: bool

datatype rego_value = Undefined | Value json

record network_input =
  ni_host :: bytes
  ni_port :: nat
  ni_binary_path :: bytes
  ni_binary_sha256 :: bytes
  ni_ancestors :: "bytes list"
  ni_cmdline_paths :: "bytes list"

record policy_decision =
  pdn_allowed :: bool
  pdn_reason :: bytes
  pdn_matched_policy :: "bytes option"

datatype network_action = Allow "bytes option" | Deny bytes

text \<open>The package of the module compiled into the binary, and the package every query names.\<close>

definition BAKED_PACKAGE :: bytes where
  "BAKED_PACKAGE = ''openshell.sandbox''"

definition QUERY_PACKAGE :: bytes where
  "QUERY_PACKAGE = ''clustershell.sandbox''"

fun opt_value :: "bytes option \<Rightarrow> rego_value" where
  "opt_value None = Undefined"
| "opt_value (Some s) = Value (JStr s)"

definition rule_value :: "builtins \<Rightarrow> json \<Rightarrow> rego_input \<Rightarrow> bytes \<Rightarrow> rego_value option" where
  "rule_value B d i rule =
     (if rule = ''allow_network'' then Some (Value (JBool (allow_network B d i)))
      else if rule = ''network_action'' then Some (Value (JStr (network_action_rule B d i)))
      else if rule = ''deny_reason'' then Some (opt_value (deny_reason B d i))
      else if rule = ''matched_network_policy'' then Some (opt_value (matched_network_policy B d i))
      else if rule = ''allow_request'' then Some (Value (JBool (allow_request B d i)))
      else if rule = ''request_deny_reason'' then Some (opt_value (request_deny_reason B d i))
      else if rule = ''matched_endpoint_config'' then
        Some (case matched_endpoint_config B d i of None \<Rightarrow> Undefined | Some ep \<Rightarrow> Value ep)
      else if rule = ''filesystem_policy'' then
        Some (case json_get d ''filesystem_policy'' of None \<Rightarrow> Undefined | Some v \<Rightarrow> Value v)
      else if rule = ''landlock_policy'' then
        Some (case json_get d ''landlock'' of None \<Rightarrow> Undefined | Some v \<Rightarrow> Value v)
      else if rule = ''process_policy'' then
        Some (case json_get d ''process'' of None \<Rightarrow> Undefined | Some v \<Rightarrow> Value v)
      else None)"

definition eval_rule ::
  "builtins \<Rightarrow> opa_engine \<Rightarrow> rego_input \<Rightarrow> bytes \<Rightarrow> (report, rego_value) result" where
  "eval_rule B e i path =
     ok_or ''not a valid rule path''
       (Option.bind (strip_prefix path (''data.'' @ eng_package e @ ''.'')) (rule_value B (eng_data e) i))"

text \<open>\<open>value_to_string\<close>; the engine's printer of other values is a parameter.\<close>

fun value_to_string :: "(json \<Rightarrow> bytes) \<Rightarrow> rego_value \<Rightarrow> bytes" where
  "value_to_string pr (Value (JStr s)) = s"
| "value_to_string pr Undefined = []"
| "value_to_string pr (Value v) = pr v"

section \<open>Loading\<close>

definition engine_from_data :: "bytes \<Rightarrow> json \<Rightarrow> opa_engine" where
  "engine_from_data pkg d = \<lparr>eng_package = pkg, eng_data = d, eng_poisoned = False\<rparr>"

text \<open>\<open>OpaEngine::from_proto\<close> for a module of package \<open>pkg\<close>, and with the compiled-in module.\<close>

definition engine_load_proto :: "bytes \<Rightarrow> sandbox_policy \<Rightarrow> (report, opa_engine) result" where
  "engine_load_proto pkg p =
     result_bind (validate_and_expand (proto_to_opa_data_json p)) (\<lambda>d. Inr (engine_from_data pkg d))"

definition engine_from_proto :: "sandbox_policy \<Rightarrow> (report, opa_engine) result" where
  "engine_from_proto p = engine_load_proto BAKED_PACKAGE p"

section \<open>Queries\<close>

definition input_json :: "network_input \<Rightarrow> rego_input" where
  "input_json ni =
     \<lparr>in_host = ni_host ni, in_port = ni_port ni, in_path = from_utf8_lossy (ni_binary_path ni),
      in_ancestors = map from_utf8_lossy (ni_ancestors ni),
      in_cmdline_paths = map from_utf8_lossy (ni_cmdline_paths ni), in_request = None\<rparr>"

definition engine_lock :: "opa_engine \<Rightarrow> (report, opa_engine) result" where
  "engine_lock e = (if eng_poisoned e then Inl ''OPA engine lock poisoned'' else Inr e)"

definition query_path :: "bytes \<Rightarrow> bytes" where
  "query_path rule = ''data.clustershell.sandbox.'' @ rule"

definition value_to_option :: "(json \<Rightarrow> bytes) \<Rightarrow> rego_value \<Rightarrow> bytes option" where
  "value_to_option pr v = (if v = Undefined then None else Some (value_to_string pr v))"

definition evaluate_network ::
  "builtins \<Rightarrow> (json \<Rightarrow> bytes) \<Rightarrow> opa_engine \<Rightarrow> network_input \<Rightarrow> (report, policy_decision) result" where
  "evaluate_network B pr e ni =
     (let i = input_json ni in
      result_bind (engine_lock e) (\<lambda>e.
      result_bind (eval_rule B e i (query_path ''allow_network'')) (\<lambda>allowed.
      result_bind (eval_rule B e i (query_path ''deny_reason'')) (\<lambda>reason.
      result_bind (eval_rule B e i (query_path ''matched_network_policy'')) (\<lambda>matched.
        Inr \<lparr>pdn_allowed = (allowed = Value (JBool True)), pdn_reason = value_to_string pr reason,
             pdn_matched_policy = value_to_option pr matched\<rparr>)))))"

definition evaluate_network_action ::
  "builtins \<Rightarrow> (json \<Rightarrow> bytes) \<Rightarrow> opa_engine \<Rightarrow> network_input \<Rightarrow> (report, network_action) result" where
  "evaluate_network_action B pr e ni =
     (let i = input_json ni in
      result_bind (engine_lock e) (\<lambda>e.
      result_bind (eval_rule B e i (query_path ''network_action'')) (\<lambda>action_val.
      result_bind (eval_rule B e i (query_path ''matched_network_policy'')) (\<lambda>matched.
        if value_to_string pr action_val = ''allow'' then Inr (Allow (value_to_option pr matched))
        else result_bind (eval_rule B e i (query_path ''deny_reason''))
               (\<lambda>reason. Inr (Deny (value_to_string pr reason)))))))"

definition query_endpoint_config ::
  "builtins \<Rightarrow> opa_engine \<Rightarrow> network_input \<Rightarrow> (report, json option) result" where
  "query_endpoint_config B e ni =
     result_bind (engine_lock e) (\<lambda>e.
     result_bind (eval_rule B e (input_json ni) (query_path ''matched_endpoint_config'')) (\<lambda>v.
       Inr (case v of Undefined \<Rightarrow> None | Value j \<Rightarrow> Some j)))"

definition query_allowed_ips ::
  "builtins \<Rightarrow> opa_engine \<Rightarrow> network_input \<Rightarrow> (report, bytes list) result" where
  "query_allowed_ips B e ni =
     result_bind (query_endpoint_config B e ni) (\<lambda>c.
       Inr (case c of None \<Rightarrow> [] | Some v \<Rightarrow> get_str_array v ''allowed_ips''))"

definition value_json :: "rego_value \<Rightarrow> json" where
  "value_json v = (case v of Undefined \<Rightarrow> JNull | Value j \<Rightarrow> j)"

text \<open>Static configuration, read without an input document.\<close>

definition query_sandbox_config ::
  "builtins \<Rightarrow> opa_engine \<Rightarrow> rego_input \<Rightarrow> (report, sandbox_config) result" where
  "query_sandbox_config B e i =
     result_bind (engine_lock e) (\<lambda>e.
     result_bind (eval_rule B e i (query_path ''filesystem_policy'')) (\<lambda>fs_val.
     result_bind (eval_rule B e i (query_path ''landlock_policy'')) (\<lambda>ll_val.
     result_bind (eval_rule B e i (query_path ''process_policy'')) (\<lambda>proc_val.
       (let (ro, rw, wd) = parse_filesystem_policy (value_json fs_val);
            (user, group) = parse_process_policy (value_json proc_val) in
        Inr \<lparr>sc_read_only = ro, sc_read_write = rw, sc_include_workdir = wd,
             sc_landlock = parse_landlock_policy (value_json ll_val),
             sc_run_as_user = user, sc_run_as_group = group\<rparr>)))))"

section \<open>Hot reload\<close>

text \<open>\<open>reload_from_proto\<close> replaces the engine on success; on any error the caller's engine stays.\<close>

definition reload_from_proto ::
  "bytes \<Rightarrow> opa_engine \<Rightarrow> sandbox_policy \<Rightarrow> (report, unit) result \<times> opa_engine" where
  "reload_from_proto pkg e p =
     (case engine_load_proto pkg p of
        Inl err \<Rightarrow> (Inl err, e)
      | Inr new \<Rightarrow> (case engine_lock e of Inl err \<Rightarrow> (Inl err, e) | Inr _ \<Rightarrow> (Inr (), new)))"

section \<open>L7 evaluation\<close>

text \<open>\<open>evaluate_l7_request\<close> of \<open>l7/relay.rs\<close>; the input has a \<open>request\<close> without \<open>command\<close>.\<close>

record l7_eval_context =
  cx_host :: bytes
  cx_port :: nat
  cx_policy_name :: bytes
  cx_binary_path :: bytes
  cx_ancestors :: "bytes list"
  cx_cmdline_paths :: "bytes list"
  cx_secret_resolver :: "secret_resolver option"

definition l7_input :: "l7_eval_context \<Rightarrow> l7_request_info \<Rightarrow> rego_input" where
  "l7_input cx req =
     \<lparr>in_host = cx_host cx, in_port = cx_port cx, in_path = cx_binary_path cx,
      in_ancestors = cx_ancestors cx, in_cmdline_paths = cx_cmdline_paths cx,
      in_request = Some \<lparr>rq_method = ri_action req, rq_path = ri_target req, rq_command = None\<rparr>\<rparr>"

definition evaluate_l7_request ::
  "builtins \<Rightarrow> (json \<Rightarrow> bytes) \<Rightarrow> opa_engine \<Rightarrow> l7_eval_context \<Rightarrow> l7_request_info
     \<Rightarrow> (report, bool \<times> bytes) result" where
  "evaluate_l7_request B pr e cx req =
     (let i = l7_input cx req in
      result_bind (engine_lock e) (\<lambda>e.
      result_bind (eval_rule B e i (query_path ''allow_request'')) (\<lambda>allowed_val.
        if allowed_val = Value (JBool True) then Inr (True, [])
        else result_bind (eval_rule B e i (query_path ''request_deny_reason'')) (\<lambda>val.
               Inr (False, case val of
                             Value (JStr s) \<Rightarrow> s
                           | Undefined \<Rightarrow> ''request denied by policy''
                           | Value other \<Rightarrow> pr other)))))"

end
