(* ===== verification/Policy_Refinement.thy ===== *)
theory Policy_Refinement
  imports Opa_Engine
begin

text \<open>
  What a sandbox policy promises, stated on the typed policy alone, and the proof that the loading
  pipeline (JSON conversion, validation, preset expansion) followed by the Rego rules implements it:
  a connection is allowed exactly when some rule of the policy has an endpoint that covers the
  destination and a binary that covers the process, and a request exactly when such an endpoint also
  has an effective rule for its method and path.
\<close>

section \<open>The specification\<close>

definition host_covers :: "builtins \<Rightarrow> bytes \<Rightarrow> bytes \<Rightarrow> bool" where
  "host_covers B pattern host \<longleftrightarrow>
     (if CHR ''*'' \<in> set pattern then rb_glob B (rb_lower B pattern) [''.''] (rb_lower B host)
      else rb_lower B pattern = rb_lower B host)"

definition endpoint_covers :: "builtins \<Rightarrow> network_endpoint \<Rightarrow> bytes \<Rightarrow> nat \<Rightarrow> bool" where
  "endpoint_covers B e host port \<longleftrightarrow>
     port \<in> set (normalized_ports (ne_ports e) (ne_port e))
     \<and> (host_covers B (ne_host e) host \<or> (ne_host e = [] \<and> ne_allowed_ips e \<noteq> []))"

definition binary_covers :: "builtins \<Rightarrow> bytes \<Rightarrow> bytes \<Rightarrow> bytes list \<Rightarrow> bool" where
  "binary_covers B bp path ancestors \<longleftrightarrow>
     (\<exists>p \<in> set (path # ancestors).
        if CHR ''*'' \<in> set bp then rb_glob B bp [''/''] p else bp = p)"

definition rule_covers ::
  "builtins \<Rightarrow> network_policy_rule \<Rightarrow> bytes \<Rightarrow> nat \<Rightarrow> bytes \<Rightarrow> bytes list \<Rightarrow> bool" where
  "rule_covers B r host port path ancestors \<longleftrightarrow>
     (\<exists>e \<in> set (npr_endpoints r). endpoint_covers B e host port)
     \<and> (\<exists>b \<in> set (npr_binaries r). binary_covers B (nb_path b) path ancestors)"

definition connection_permitted ::
  "builtins \<Rightarrow> sandbox_policy \<Rightarrow> bytes \<Rightarrow> nat \<Rightarrow> bytes \<Rightarrow> bytes list \<Rightarrow> bool" where
  "connection_permitted B p host port path ancestors \<longleftrightarrow>
     (\<exists>kr \<in> set (sp_network_policies p). rule_covers B (snd kr) host port path ancestors)"

text \<open>The rules of an endpoint: its own, else those its preset stands for.\<close>

definition rule_pair :: "l7_rule \<Rightarrow> bytes \<times> bytes" where
  "rule_pair r = (case lr_allow r of None \<Rightarrow> ([], []) | Some a \<Rightarrow> (la_method a, la_path a))"

definition effective_rules :: "network_endpoint \<Rightarrow> (bytes \<times> bytes) list" where
  "effective_rules e =
     (if ne_rules e \<noteq> [] then map rule_pair (ne_rules e)
      else case preset_methods (ne_access e) of None \<Rightarrow> [] | Some ms \<Rightarrow> map (\<lambda>m. (m, ''**'')) ms)"

definition pair_permits :: "builtins \<Rightarrow> bytes \<Rightarrow> bytes \<Rightarrow> bytes \<times> bytes \<Rightarrow> bool" where
  "pair_permits B method path mp \<longleftrightarrow>
     (fst mp = ''*'' \<or> rb_upper B method = rb_upper B (fst mp))
     \<and> (snd mp = ''**'' \<or> rb_glob B (snd mp) [''/''] path)"

definition endpoint_permits :: "builtins \<Rightarrow> network_endpoint \<Rightarrow> bytes \<Rightarrow> bytes \<Rightarrow> bool" where
  "endpoint_permits B e method path \<longleftrightarrow> (\<exists>mp \<in> set (effective_rules e). pair_permits B method path mp)"

definition request_permitted ::
  "builtins \<Rightarrow> sandbox_policy \<Rightarrow> bytes \<Rightarrow> nat \<Rightarrow> bytes \<Rightarrow> bytes list \<Rightarrow> bytes \<Rightarrow> bytes \<Rightarrow> bool" where
  "request_permitted B p host port path ancestors method target \<longleftrightarrow>
     (\<exists>kr \<in> set (sp_network_policies p).
        (\<exists>b \<in> set (npr_binaries (snd kr)). binary_covers B (nb_path b) path ancestors)
        \<and> (\<exists>e \<in> set (npr_endpoints (snd kr)).
             endpoint_covers B e host port \<and> endpoint_permits B e method target))"

section \<open>One policy rule\<close>

lemma endpoint_matches_proto:
  "endpoint_matches_request B (endpoint_to_json e) i \<longleftrightarrow> endpoint_covers B e (in_host i) (in_port i)"
proof -
  have "port_listed (endpoint_to_json e) (in_port i) \<longleftrightarrow>
      in_port i \<in> set (normalized_ports (ne_ports e) (ne_port e))"
    by (auto simp: port_listed_def elems_at_def)
  moreover have "nonempty_at (endpoint_to_json e) ''allowed_ips'' \<longleftrightarrow> ne_allowed_ips e \<noteq> []"
    by (simp add: nonempty_at_def json_str_array_def)
  ultimately show ?thesis
    by (auto simp: endpoint_matches_request_def endpoint_matches_exact_def endpoint_matches_glob_def
        endpoint_matches_hostless_def endpoint_covers_def host_covers_def contains_sub_char)
qed

lemma binary_path_matches_covers:
  "binary_path_matches B bp i \<longleftrightarrow> binary_covers B bp (in_path i) (in_ancestors i)"
  by (auto simp: binary_path_matches_def binary_covers_def contains_sub_char)

text \<open>The policy of a rule after the presets are expanded.\<close>

definition loaded_rule :: "network_policy_rule \<Rightarrow> json" where
  "loaded_rule r = map_policy_endpoints expand_endpoint (policy_rule_to_json r)"

lemma loaded_rule_elems:
  "elems_at (loaded_rule r) ''endpoints'' = map (\<lambda>e. expand_endpoint (endpoint_to_json e)) (npr_endpoints r)"
  "elems_at (loaded_rule r) ''binaries'' =
     map (\<lambda>b. json_object [(''path'', JStr (nb_path b))]) (npr_binaries r)"
  using elems_at_map_endpoints [of "policy_rule_to_json r" "map endpoint_to_json (npr_endpoints r)" expand_endpoint]
  by (simp_all add: loaded_rule_def array_field_def elems_at_def comp_def)

lemma loaded_endpoint_allowed:
  "endpoint_allowed B (loaded_rule r) i \<longleftrightarrow>
     (\<exists>e \<in> set (npr_endpoints r). endpoint_covers B e (in_host i) (in_port i))"
  by (simp add: endpoint_allowed_iff loaded_rule_elems endpoint_matches_proto)

lemma loaded_binary_allowed:
  "binary_allowed B (loaded_rule r) i \<longleftrightarrow>
     (\<exists>b \<in> set (npr_binaries r). binary_covers B (nb_path b) (in_path i) (in_ancestors i))"
  by (simp add: binary_allowed_def loaded_rule_elems json_get_object binary_path_matches_covers)

lemma loaded_policy_matches:
  "policy_matches B (loaded_rule r) i \<longleftrightarrow>
     rule_covers B r (in_host i) (in_port i) (in_path i) (in_ancestors i)"
  by (simp add: policy_matches_def loaded_endpoint_allowed loaded_binary_allowed rule_covers_def)

section \<open>Loading\<close>

lemma engine_load_proto_Inr:
  assumes "engine_load_proto pkg p = Inr e"
  shows "eng_package e = pkg" and "\<not> eng_poisoned e"
    and "eng_data e = expand_access_presets (proto_to_opa_data_json p)"
    and "fst (validate_l7_policies (proto_to_opa_data_json p)) = []"
  using assms
  by (auto simp: engine_load_proto_def engine_from_data_def validate_and_expand_def Let_def
      split: prod.splits if_splits)

lemma loaded_policies:
  assumes "hm_inv (sp_network_policies p)"
  shows "set (rego_policies (expand_access_presets (proto_to_opa_data_json p))) =
           (\<lambda>kr. (fst kr, loaded_rule (snd kr))) ` set (sp_network_policies p)"
proof -
  let ?m = "map (\<lambda>(k, r). (k, policy_rule_to_json r)) (sp_network_policies p)"
  have "distinct (map fst ?m)"
    using assms unfolding hm_inv_def by (simp only: keys_map_value [of "\<lambda>_. policy_rule_to_json"])
  then have "set (bt_collect ?m) = set ?m" by (rule bt_collect_set)
  then have "set (rego_policies (expand_access_presets (proto_to_opa_data_json p))) =
      (\<lambda>(k, q). (k, map_policy_endpoints expand_endpoint q)) ` set ?m"
    by (simp add: rego_policies_def expand_access_presets_def rego_policies_map [OF data_policies_proto])
  then show ?thesis by (simp add: loaded_rule_def image_image case_prod_beta')
qed

lemma network_policy_refines:
  assumes "hm_inv (sp_network_policies p)"
  shows "network_policy_for_request B (expand_access_presets (proto_to_opa_data_json p)) i \<longleftrightarrow>
           connection_permitted B p (in_host i) (in_port i) (in_path i) (in_ancestors i)"
  by (simp add: network_policy_for_request_def loaded_policies [OF assms] connection_permitted_def
      loaded_policy_matches)

section \<open>Requests\<close>

lemma rule_json_get [simp]:
  "json_get (rule_json m pat) ''allow'' = Some (json_object [(''method'', JStr m), (''path'', JStr pat)])"
  by (simp add: rule_json_def json_get_object)

lemma rest_rule_allows_rule_json:
  "rest_rule_allows B r (rule_json m pat) \<longleftrightarrow> pair_permits B (rq_method r) (rq_path r) (m, pat)"
  by (auto simp: rest_rule_allows_def json_get_object pair_permits_def method_matches_def path_matches_def)

lemma rest_rule_allows_proto:
  "rest_rule_allows B r (rule_to_json lr) \<longleftrightarrow>
     pair_permits B (rq_method r) (rq_path r) (rule_pair lr)"
  by (cases "lr_allow lr")
    (auto simp: rest_rule_allows_def rule_to_json_def Let_def json_get_object rule_pair_def
      pair_permits_def method_matches_def path_matches_def)

text \<open>The rules Rego sees on a loaded endpoint, when the policy passed validation.\<close>

lemma has_rules_proto: "has_rules (endpoint_to_json e) \<longleftrightarrow> ne_rules e \<noteq> []"
  by (simp add: has_rules_def array_field_def)

lemma str_field_proto: "str_field (endpoint_to_json e) ''access'' = ne_access e"
  by (simp add: str_field_def)

lemma expanded_rules:
  "elems_at (expand_endpoint (endpoint_to_json e)) ''rules'' =
     (if ne_rules e \<noteq> [] then map rule_to_json (ne_rules e)
      else if ne_access e = [] then []
      else case preset_methods (ne_access e) of None \<Rightarrow> [] | Some ms \<Rightarrow> map (\<lambda>m. rule_json m ''**'') ms)"
  using endpoint_json_object [of e]
  by (auto simp: expand_endpoint_def Let_def has_rules_proto str_field_proto elems_at_def json_get_set
      split: option.splits)

lemma preset_methods_Nil [simp]: "preset_methods [] = None"
  by (simp add: preset_methods_def)

lemma request_allowed_refines:
  assumes "rq_command r = None"
  shows "request_allowed_for_endpoint B r (expand_endpoint (endpoint_to_json e)) \<longleftrightarrow>
           endpoint_permits B e (rq_method r) (rq_path r)"
proof -
  have sql: "\<not> sql_rule_allows B r rule" for rule
    using assms by (auto simp: sql_rule_allows_def split: option.splits json.splits)
  show ?thesis
    by (cases "preset_methods (ne_access e)")
      (auto simp: request_allowed_for_endpoint_def sql expanded_rules endpoint_permits_def
        effective_rules_def rest_rule_allows_rule_json rest_rule_allows_proto)
qed

lemma allow_request_refines:
  assumes "hm_inv (sp_network_policies p)" "in_request i = Some r" "rq_command r = None"
  shows "allow_request B (expand_access_presets (proto_to_opa_data_json p)) i \<longleftrightarrow>
           request_permitted B p (in_host i) (in_port i) (in_path i) (in_ancestors i)
             (rq_method r) (rq_path r)"
proof -
  have "allow_request B (expand_access_presets (proto_to_opa_data_json p)) i \<longleftrightarrow>
      (\<exists>kr \<in> set (sp_network_policies p).
         (\<exists>e \<in> set (npr_endpoints (snd kr)). endpoint_covers B e (in_host i) (in_port i))
         \<and> (\<exists>b \<in> set (npr_binaries (snd kr)). binary_covers B (nb_path b) (in_path i) (in_ancestors i))
         \<and> (\<exists>e \<in> set (npr_endpoints (snd kr)). endpoint_covers B e (in_host i) (in_port i)
               \<and> endpoint_permits B e (rq_method r) (rq_path r)))"
    by (simp add: allow_request_def assms(2) loaded_policies [OF assms(1)]
        loaded_endpoint_allowed loaded_binary_allowed loaded_rule_elems endpoint_matches_proto
        request_allowed_refines [OF assms(3)])
  then show ?thesis by (auto simp: request_permitted_def)
qed

section \<open>Engine queries\<close>

lemma eval_rule_query:
  assumes "eng_package e = QUERY_PACKAGE"
  shows "eval_rule B e i (query_path rule) = ok_or ''not a valid rule path'' (rule_value B (eng_data e) i rule)"
proof -
  have "query_path rule = (''data.'' @ eng_package e @ ''.'') @ rule"
    by (simp add: query_path_def assms QUERY_PACKAGE_def)
  then have "strip_prefix (query_path rule) (''data.'' @ eng_package e @ ''.'') = Some rule"
    by (simp add: strip_prefix_def starts_with_def)
  then show ?thesis by (simp add: eval_rule_def)
qed

lemma eval_rule_baked:
  assumes "eng_package e = BAKED_PACKAGE"
  shows "eval_rule B e i (query_path rule) = Inl ''not a valid rule path''"
  by (simp add: eval_rule_def query_path_def assms BAKED_PACKAGE_def strip_prefix_def starts_with_def)

lemma evaluate_network_action_eq:
  assumes "eng_package e = QUERY_PACKAGE" "\<not> eng_poisoned e"
  shows "evaluate_network_action B pr e ni =
     Inr (let i = input_json ni in
          if network_policy_for_request B (eng_data e) i
          then Allow (matched_network_policy B (eng_data e) i)
          else Deny (case deny_reason B (eng_data e) i of None \<Rightarrow> [] | Some s \<Rightarrow> s))"
proof -
  have "value_to_option pr (opt_value x) = x" for x
    by (cases x) (auto simp: value_to_option_def)
  moreover have "value_to_string pr (opt_value x) = (case x of None \<Rightarrow> [] | Some s \<Rightarrow> s)" for x
    by (cases x) auto
  ultimately show ?thesis
    using assms
    by (simp add: evaluate_network_action_def engine_lock_def eval_rule_query rule_value_def
        network_action_rule_def Let_def)
qed

lemma query_endpoint_config_eq:
  assumes "eng_package e = QUERY_PACKAGE" "\<not> eng_poisoned e"
  shows "query_endpoint_config B e ni = Inr (matched_endpoint_config B (eng_data e) (input_json ni))"
  using assms
  by (simp add: query_endpoint_config_def engine_lock_def eval_rule_query rule_value_def
      split: option.splits)

lemma evaluate_l7_request_eq:
  assumes "eng_package e = QUERY_PACKAGE" "\<not> eng_poisoned e"
  shows "evaluate_l7_request B pr e cx req =
     Inr (if allow_request B (eng_data e) (l7_input cx req) then (True, [])
          else (False, ri_action req @ '' '' @ ri_target req @ '' not permitted by policy''))"
  using assms
  by (simp add: evaluate_l7_request_def engine_lock_def eval_rule_query rule_value_def Let_def
      request_deny_reason_def l7_input_def)

section \<open>Validation on the typed policy\<close>

definition wildcard_ok :: "bytes \<Rightarrow> bool" where
  "wildcard_ok host \<longleftrightarrow>
     (CHR ''*'' \<in> set host \<longrightarrow>
        host \<noteq> ''*'' \<and> host \<noteq> ''**'' \<and> ((\<exists>r. host = ''*.'' @ r) \<or> (\<exists>r. host = ''**.'' @ r)))"

definition l7_wf_endpoint :: "network_endpoint \<Rightarrow> bool" where
  "l7_wf_endpoint e \<longleftrightarrow>
     wildcard_ok (ne_host e) \<and> (ne_rules e = [] \<or> ne_access e = [])
     \<and> (ne_protocol e \<noteq> [] \<longrightarrow> ne_rules e \<noteq> [] \<or> ne_access e \<noteq> [])
     \<and> (ne_tls e = ''terminate'' \<longrightarrow> ne_protocol e \<noteq> [])
     \<and> \<not> (ne_protocol e = ''sql'' \<and> ne_enforcement e = ''enforce'')"

lemma wildcard_errors_Nil: "wildcard_errors loc host = [] \<longleftrightarrow> wildcard_ok host"
  by (auto simp: wildcard_errors_def wildcard_ok_def contains_sub_char starts_with_split)

lemma str_fields_proto:
  "str_field (endpoint_to_json e) ''protocol'' = ne_protocol e"
  "str_field (endpoint_to_json e) ''tls'' = ne_tls e"
  "str_field (endpoint_to_json e) ''enforcement'' = ne_enforcement e"
  "str_field (endpoint_to_json e) ''host'' = ne_host e"
  by (simp_all add: str_field_def)

lemma endpoint_errors_proto: "endpoint_errors loc (endpoint_to_json e) = [] \<longleftrightarrow> l7_wf_endpoint e"
  by (auto simp: endpoint_errors_def Let_def wildcard_errors_Nil has_rules_proto str_field_proto
      str_fields_proto l7_wf_endpoint_def array_field_def u64_field_def)

lemma enumerate_snd: "snd ` set (map (\<lambda>(i, ep). (f i, ep)) (enumerate n eps)) = set eps"
  by (induction eps arbitrary: n) auto

lemma located_endpoints_snd:
  "snd ` set (located_endpoints policies) = (\<Union>kp\<in>set policies. set (policy_endpoints (snd kp)))"
  unfolding located_endpoints_def set_concat set_map [of _ policies] image_Union image_image
  by (rule SUP_cong [OF refl]) (simp only: case_prod_beta enumerate_snd)

lemma validate_errors_Nil:
  assumes "data_network_policies d = Some m"
  shows "fst (validate_l7_policies d) = [] \<longleftrightarrow>
           (\<forall>x \<in> set (located_endpoints m). endpoint_errors (fst x) (snd x) = [])"
  using assms by (auto simp: validate_l7_policies_def)

lemma loaded_validation:
  assumes "hm_inv (sp_network_policies p)"
  shows "fst (validate_l7_policies (proto_to_opa_data_json p)) = [] \<longleftrightarrow>
           (\<forall>kr \<in> set (sp_network_policies p). \<forall>e \<in> set (npr_endpoints (snd kr)). l7_wf_endpoint e)"
proof -
  let ?m = "map (\<lambda>(k, r). (k, policy_rule_to_json r)) (sp_network_policies p)"
  have "distinct (map fst ?m)"
    using assms unfolding hm_inv_def by (simp only: keys_map_value [of "\<lambda>_. policy_rule_to_json"])
  then have set: "set (bt_collect ?m) = set ?m" by (rule bt_collect_set)
  have eps: "policy_endpoints (policy_rule_to_json r) = map endpoint_to_json (npr_endpoints r)" for r
    by (simp add: policy_endpoints_def array_field_def)
  have snds: "snd ` set (located_endpoints (bt_collect ?m)) =
      endpoint_to_json ` (\<Union>kr\<in>set (sp_network_policies p). set (npr_endpoints (snd kr)))"
    unfolding located_endpoints_snd set by (simp add: image_UN eps case_prod_beta')
  have "endpoint_errors (fst x) (snd x) = [] \<longleftrightarrow> endpoint_errors [] (snd x) = []"
    if "x \<in> set (located_endpoints (bt_collect ?m))" for x
  proof -
    have "snd x \<in> snd ` set (located_endpoints (bt_collect ?m))" using that by (rule imageI)
    then obtain e where "snd x = endpoint_to_json e" unfolding snds by blast
    then show ?thesis by (simp add: endpoint_errors_proto)
  qed
  then have "(\<forall>x \<in> set (located_endpoints (bt_collect ?m)). endpoint_errors (fst x) (snd x) = []) \<longleftrightarrow>
      (\<forall>ep \<in> snd ` set (located_endpoints (bt_collect ?m)). endpoint_errors [] ep = [])"
    by simp
  then show ?thesis
    using validate_errors_Nil [OF data_policies_proto [of p]] snds endpoint_errors_proto by simp
qed

lemma opa_data_order_independent:
  assumes "hm_inv (sp_network_policies p)" "hm_inv (sp_network_policies q)" "same_policy p q"
  shows "proto_to_opa_data_json p = proto_to_opa_data_json q"
proof -
  let ?m = "\<lambda>p. map (\<lambda>(k, r). (k, policy_rule_to_json r)) (sp_network_policies p)"
  have d: "distinct (map fst (?m p))" "distinct (map fst (?m q))"
    using assms(1,2) unfolding hm_inv_def
    by (simp_all only: keys_map_value [of "\<lambda>_. policy_rule_to_json"])
  have "map_of (bt_collect (?m p)) = map_of (bt_collect (?m q))"
    using assms(3) by (simp add: bt_collect_get [OF d(1)] bt_collect_get [OF d(2)] fun_eq_iff
        map_of_map_value same_policy_def)
  then have "bt_collect (?m p) = bt_collect (?m q)"
    by (intro bt_inv_ext bt_collect_inv)
  moreover have "sp_filesystem p = sp_filesystem q" "sp_landlock p = sp_landlock q"
    "sp_process p = sp_process q"
    using assms(3) unfolding same_policy_def
    by (cases p; cases q; simp)+
  ultimately show ?thesis by (simp add: proto_to_opa_data_json_def)
qed

lemma load_ok_iff:
  assumes "hm_inv (sp_network_policies p)"
  shows "(\<exists>e. engine_load_proto pkg p = Inr e) \<longleftrightarrow>
           (\<forall>kr \<in> set (sp_network_policies p). \<forall>e \<in> set (npr_endpoints (snd kr)). l7_wf_endpoint e)"
proof -
  have "(\<exists>e. engine_load_proto pkg p = Inr e) \<longleftrightarrow>
      fst (validate_l7_policies (proto_to_opa_data_json p)) = []"
    by (auto simp: engine_load_proto_def validate_and_expand_def Let_def split: prod.splits)
  with loaded_validation [OF assms] show ?thesis by simp
qed

section \<open>Decisions of a loaded engine\<close>

lemma network_action_of_policy:
  assumes "hm_inv (sp_network_policies p)" "engine_load_proto QUERY_PACKAGE p = Inr e"
  shows "if connection_permitted B p (ni_host ni) (ni_port ni) (from_utf8_lossy (ni_binary_path ni))
              (map from_utf8_lossy (ni_ancestors ni))
         then \<exists>m. evaluate_network_action B pr e ni = Inr (Allow (Some m))
         else \<exists>reason. evaluate_network_action B pr e ni = Inr (Deny reason)"
proof -
  note load = engine_load_proto_Inr [OF assms(2)]
  have "network_policy_for_request B (eng_data e) (input_json ni) \<longleftrightarrow>
      connection_permitted B p (ni_host ni) (ni_port ni) (from_utf8_lossy (ni_binary_path ni))
        (map from_utf8_lossy (ni_ancestors ni))"
    using network_policy_refines [OF assms(1)] by (simp add: load(3) input_json_def)
  with evaluate_network_action_eq [OF load(1,2)] matched_policy_defined_iff show ?thesis
    by (auto simp: Let_def)
qed

lemma l7_request_of_policy:
  assumes "hm_inv (sp_network_policies p)" "engine_load_proto QUERY_PACKAGE p = Inr e"
  shows "\<exists>reason. evaluate_l7_request B pr e cx req =
           Inr (request_permitted B p (cx_host cx) (cx_port cx) (cx_binary_path cx) (cx_ancestors cx)
                  (ri_action req) (ri_target req), reason)"
proof -
  note load = engine_load_proto_Inr [OF assms(2)]
  have "allow_request B (eng_data e) (l7_input cx req) \<longleftrightarrow>
      request_permitted B p (cx_host cx) (cx_port cx) (cx_binary_path cx) (cx_ancestors cx)
        (ri_action req) (ri_target req)"
    using allow_request_refines [OF assms(1)] by (simp add: load(3) l7_input_def)
  with evaluate_l7_request_eq [OF load(1,2), of B pr cx req] show ?thesis by auto
qed

section \<open>An example engine\<close>

text \<open>The quickstart policy, a request of curl to the GitHub API, and built-ins that treat letters as
  ASCII and a glob pattern as a literal.\<close>

definition literal_builtins :: builtins where
  "literal_builtins =
     \<lparr>rb_glob = (\<lambda>pat ds s. pat = s), rb_lower = to_ascii_lowercase, rb_upper = to_ascii_uppercase\<rparr>"

definition quickstart_engine :: opa_engine where
  "quickstart_engine =
     engine_from_data QUERY_PACKAGE (expand_access_presets (proto_to_opa_data_json quickstart_policy))"

definition curl_input :: network_input where
  "curl_input =
     \<lparr>ni_host = ''api.github.com'', ni_port = 443, ni_binary_path = ''/usr/bin/curl'',
      ni_binary_sha256 = ''0'', ni_ancestors = [], ni_cmdline_paths = []\<rparr>"

definition curl_context :: l7_eval_context where
  "curl_context =
     \<lparr>cx_host = ''api.github.com'', cx_port = 443, cx_policy_name = ''github_api'',
      cx_binary_path = ''/usr/bin/curl'', cx_ancestors = [], cx_cmdline_paths = [], cx_secret_resolver = None\<rparr>"

lemma quickstart_hm_inv: "hm_inv (sp_network_policies quickstart_policy)"
  by (simp add: quickstart_policy_def hm_inv_def)

lemma quickstart_load: "engine_load_proto QUERY_PACKAGE quickstart_policy = Inr quickstart_engine"
proof -
  have "\<forall>kr \<in> set (sp_network_policies quickstart_policy). \<forall>e \<in> set (npr_endpoints (snd kr)). l7_wf_endpoint e"
    by (simp add: quickstart_policy_def quickstart_rule_def l7_wf_endpoint_def wildcard_ok_def)
  then obtain e where e: "engine_load_proto QUERY_PACKAGE quickstart_policy = Inr e"
    using load_ok_iff [OF quickstart_hm_inv] by blast
  have "e = quickstart_engine"
    using engine_load_proto_Inr [OF e] by (cases e) (simp add: quickstart_engine_def engine_from_data_def)
  with e show ?thesis by simp
qed

lemmas quickstart_spec_simps =
  quickstart_policy_def quickstart_rule_def curl_input_def curl_context_def literal_builtins_def
  rule_covers_def endpoint_covers_def host_covers_def normalized_ports_def binary_covers_def
  from_utf8_lossy_ascii is_ascii_def to_ascii_lowercase_def ascii_lower_char_def
  to_ascii_uppercase_def ascii_upper_char_def

lemma curl_permitted:
  "connection_permitted literal_builtins quickstart_policy (ni_host curl_input) (ni_port curl_input)
     (from_utf8_lossy (ni_binary_path curl_input)) (map from_utf8_lossy (ni_ancestors curl_input))"
  by (simp add: connection_permitted_def quickstart_spec_simps)

lemma post_not_permitted:
  "\<not> request_permitted literal_builtins quickstart_policy (cx_host curl_context) (cx_port curl_context)
     (cx_binary_path curl_context) (cx_ancestors curl_context) ''POST'' ''/user/repos''"
  by (simp add: request_permitted_def quickstart_spec_simps endpoint_permits_def effective_rules_def
      preset_methods_def pair_permits_def)

section \<open>Properties\<close>





text \<open>Loading accepts exactly the policies whose endpoints are well formed for L7: wildcard hosts
  start with \<open>*.\<close> or \<open>**.\<close>, rules and access exclude each other, a protocol has one of them, TLS
  termination has a protocol, and SQL is not enforced.\<close>

theorem load_accepts_exactly_wellformed:
  assumes "hm_inv (sp_network_policies p)"
  shows "(\<exists>e. engine_load_proto pkg p = Inr e) \<longleftrightarrow>
           (\<forall>kr \<in> set (sp_network_policies p). \<forall>e \<in> set (npr_endpoints (snd kr)). l7_wf_endpoint e)"
  by (rule load_ok_iff [OF assms])

theorem load_accepts_exactly_wellformed_witness:
  "(\<exists>e. engine_load_proto QUERY_PACKAGE quickstart_policy = Inr e) \<longleftrightarrow>
     (\<forall>kr \<in> set (sp_network_policies quickstart_policy).
        \<forall>e \<in> set (npr_endpoints (snd kr)). l7_wf_endpoint e)"
  by (rule load_accepts_exactly_wellformed [OF quickstart_hm_inv])

text \<open>The engine's data, and so every decision and the reported policy name, does not depend on
  the iteration order of the policy's hash map.\<close>

theorem load_independent_of_map_order:
  assumes "hm_inv (sp_network_policies p)" "hm_inv (sp_network_policies q)" "same_policy p q"
  shows "engine_load_proto pkg p = engine_load_proto pkg q"
  using opa_data_order_independent [OF assms] by (simp add: engine_load_proto_def)

theorem load_independent_of_map_order_witness:
  "engine_load_proto QUERY_PACKAGE
     (quickstart_policy\<lparr>sp_network_policies := [(''a'', quickstart_rule), (''b'', quickstart_rule)]\<rparr>) =
   engine_load_proto QUERY_PACKAGE
     (quickstart_policy\<lparr>sp_network_policies := [(''b'', quickstart_rule), (''a'', quickstart_rule)]\<rparr>)"
  by (rule load_independent_of_map_order) (auto simp: hm_inv_def same_policy_def)

text \<open>The compiled-in module declares the package \<open>openshell.sandbox\<close> while every query names
  \<open>clustershell.sandbox\<close>: an engine loaded by \<open>from_proto\<close> answers every network and every request
  query with an error.\<close>

theorem baked_package_never_evaluates:
  assumes "engine_from_proto p = Inr e"
  shows "evaluate_network_action B pr e ni = Inl ''not a valid rule path''
       \<and> evaluate_l7_request B pr e cx req = Inl ''not a valid rule path''"
proof -
  have "eng_package e = BAKED_PACKAGE" "\<not> eng_poisoned e"
    using engine_load_proto_Inr(1,2) [OF assms [unfolded engine_from_proto_def]] by auto
  then show ?thesis
    by (simp add: evaluate_network_action_def evaluate_l7_request_def engine_lock_def eval_rule_baked Let_def)
qed

theorem baked_package_never_evaluates_witness:
  "evaluate_network_action literal_builtins (\<lambda>_. []) (quickstart_engine\<lparr>eng_package := BAKED_PACKAGE\<rparr>)
     curl_input = Inl ''not a valid rule path''"
proof -
  have "engine_from_proto quickstart_policy = Inr (quickstart_engine\<lparr>eng_package := BAKED_PACKAGE\<rparr>)"
    using quickstart_load
    by (auto simp: engine_from_proto_def engine_load_proto_def engine_from_data_def quickstart_engine_def)
  from baked_package_never_evaluates [OF this, of literal_builtins "\<lambda>_. []" curl_input] show ?thesis
    by simp
qed

text \<open>Command-line paths, which a process can choose freely, never influence a network or a
  request decision.\<close>

theorem cmdline_paths_never_grant:
  "network_policy_for_request B d (i\<lparr>in_cmdline_paths := cs\<rparr>) = network_policy_for_request B d i
   \<and> allow_request B d (i\<lparr>in_cmdline_paths := cs\<rparr>) = allow_request B d i
   \<and> matched_endpoint_config B d (i\<lparr>in_cmdline_paths := cs\<rparr>) = matched_endpoint_config B d i"
proof -
  have ep: "endpoint_matches_request B ep (i\<lparr>in_cmdline_paths := cs\<rparr>) = endpoint_matches_request B ep i" for ep
    by (simp add: endpoint_matches_request_def endpoint_matches_exact_def endpoint_matches_glob_def
        endpoint_matches_hostless_def cong del: option.case_cong_weak json.case_cong_weak)
  then have ea: "endpoint_allowed B p (i\<lparr>in_cmdline_paths := cs\<rparr>) = endpoint_allowed B p i" for p
    by (simp add: endpoint_allowed_iff)
  have "binary_path_matches B bp (i\<lparr>in_cmdline_paths := cs\<rparr>) = binary_path_matches B bp i" for bp
    by (simp add: binary_path_matches_def)
  then have ba: "binary_allowed B p (i\<lparr>in_cmdline_paths := cs\<rparr>) = binary_allowed B p i" for p
    by (simp add: binary_allowed_def cong del: option.case_cong_weak json.case_cong_weak)
  show ?thesis
    by (simp add: network_policy_for_request_def policy_matches_def allow_request_def
        matched_endpoint_config_def matching_endpoint_configs_def ep ea ba cong: option.case_cong)
qed

text \<open>The proxy inspects an endpoint at L7 exactly when its protocol is \<open>rest\<close> or \<open>sql\<close> up to
  ASCII case; any other non-empty protocol passes validation but yields no L7 configuration, so the
  tunnel is copied without inspection whatever its rules and enforcement say.\<close>

theorem unknown_protocol_disables_inspection:
  "parse_l7_config (expand_endpoint (endpoint_to_json e)) = None \<longleftrightarrow>
     to_ascii_lowercase (ne_protocol e) \<notin> {''rest'', ''sql''}"
  by (auto simp: parse_l7_config_def get_object_str_def json_get_expand_endpoint l7_protocol_parse_def
      Let_def to_ascii_lowercase_def split: option.splits)

text \<open>Without network policies every connection is denied with the reason
  \<open>network connections not allowed by policy\<close>; the restrictive default policy is such a policy, and
  it passes both validations.\<close>

theorem restrictive_default_denies_all:
  "\<exists>e. engine_load_proto QUERY_PACKAGE restrictive_default_policy = Inr e
     \<and> safe_policy restrictive_default_policy
     \<and> (\<forall>B pr ni. evaluate_network_action B pr e ni = Inr (Deny ''network connections not allowed by policy''))"
proof -
  have inv: "hm_inv (sp_network_policies restrictive_default_policy)"
    and none: "sp_network_policies restrictive_default_policy = []"
    by (simp_all add: restrictive_default_policy_def hm_inv_def)
  obtain e where e: "engine_load_proto QUERY_PACKAGE restrictive_default_policy = Inr e"
    using load_ok_iff [OF inv] none by auto
  note load = engine_load_proto_Inr [OF e]
  have "data_network_policies (eng_data e) = Some []"
    using rego_policies_map [OF data_policies_proto [of restrictive_default_policy]] none
    by (simp add: load(3) expand_access_presets_def bt_collect_def)
  then have "evaluate_network_action B pr e ni = Inr (Deny ''network connections not allowed by policy'')"
    for B pr ni
    by (simp add: evaluate_network_action_eq [OF load(1,2)] network_policy_for_request_def
        rego_policies_def deny_reason_def endpoint_misses_def binary_misses_def Let_def)
  moreover have "safe_policy restrictive_default_policy"
    by (simp add: safe_policy_def safe_process_def safe_filesystem_def safe_path_def
        restrictive_default_policy_def MAX_FILESYSTEM_PATHS_def MAX_PATH_LENGTH_def)
  ultimately show ?thesis using e by blast
qed

text \<open>On a \<open>read-only\<close> endpoint exactly the methods GET, HEAD and OPTIONS are permitted, on any
  path.\<close>

theorem read_only_preset_methods:
  assumes "ne_rules e = []" "ne_access e = ''read-only''"
  shows "endpoint_permits B e method path \<longleftrightarrow>
           rb_upper B method \<in> rb_upper B ` {''GET'', ''HEAD'', ''OPTIONS''}"
  using assms
  by (auto simp: endpoint_permits_def effective_rules_def preset_methods_def pair_permits_def)

theorem read_only_preset_methods_witness:
  "\<not> endpoint_permits literal_builtins (hd (npr_endpoints quickstart_rule)) ''DELETE'' ''/x''"
  by (subst read_only_preset_methods)
    (simp_all add: quickstart_rule_def literal_builtins_def to_ascii_uppercase_def ascii_upper_char_def)

end
