(* ===== verification/Net_Io.thy ===== *)
theory Net_Io
  imports Rust_Text
begin

text \<open>
  Byte streams as the relay code sees them (\<open>tokio::io::AsyncRead\<close> and \<open>AsyncWrite\<close>). A connection
  is what its peer will still send, how the transport cuts it into reads, how it ends, what has been
  written to it and what the coming writes will meet. Every run of the program against a peer is a
  run against such a connection; a peer that stays silent for ever is the run up to that read.
\<close>

datatype io_kind = UnexpectedEof | ConnectionReset | BrokenPipe | OtherKind

record io_error =
  ie_kind :: io_kind
  ie_msg :: bytes

datatype stream_end = Eof | IoFail io_error

text \<open>
  \<open>cn_cuts\<close> holds the sizes of the coming reads, \<open>0\<close> standing for a pause longer than any idle
  timeout. An entry \<open>Some (k, e)\<close> of \<open>cn_writes\<close> is a write that fails with \<open>e\<close> after \<open>k\<close> bytes.
\<close>

record conn =
  cn_in :: bytes
  cn_cuts :: "nat list"
  cn_end :: stream_end
  cn_out :: bytes
  cn_writes :: "(nat \<times> io_error) option list"

section \<open>Reading\<close>

text \<open>\<open>read(&mut buf[..k])\<close>: at least one byte, or the end of the stream.\<close>

definition read_size :: "nat \<Rightarrow> bytes \<Rightarrow> nat list \<Rightarrow> nat" where
  "read_size k s cuts =
     (case cuts of [] \<Rightarrow> min k (length s) | m # _ \<Rightarrow> min m (min k (length s)))"

definition conn_read :: "nat \<Rightarrow> conn \<Rightarrow> (io_error + bytes) \<times> conn" where
  "conn_read k c =
     (if k = 0 then (Inr [], c)
      else if cn_in c = [] then
        ((case cn_end c of Eof \<Rightarrow> Inr [] | IoFail e \<Rightarrow> Inl e), c)
      else let cuts = dropWhile (\<lambda>m. m = 0) (cn_cuts c);
               n = read_size k (cn_in c) cuts in
           (Inr (take n (cn_in c)), c\<lparr>cn_in := drop n (cn_in c), cn_cuts := tl cuts\<rparr>))"

text \<open>\<open>timeout(..., read(...))\<close>: \<^const>\<open>None\<close> when the pause outlasts the timeout.\<close>

definition conn_read_timeout :: "nat \<Rightarrow> conn \<Rightarrow> (io_error + bytes) option \<times> conn" where
  "conn_read_timeout k c =
     (case cn_cuts c of
        0 # cuts \<Rightarrow> (None, c\<lparr>cn_cuts := cuts\<rparr>)
      | _ \<Rightarrow> (case conn_read k c of (r, c') \<Rightarrow> (Some r, c')))"

definition unexpected_eof :: io_error where
  "unexpected_eof = \<lparr>ie_kind = UnexpectedEof, ie_msg = ''unexpected end of file''\<rparr>"

definition conn_read_u8 :: "conn \<Rightarrow> (io_error + char) \<times> conn" where
  "conn_read_u8 c =
     (case conn_read 1 c of
        (Inl e, c') \<Rightarrow> (Inl e, c')
      | (Inr [], c') \<Rightarrow> (Inl unexpected_eof, c')
      | (Inr (b # _), c') \<Rightarrow> (Inr b, c'))"

section \<open>Writing\<close>

definition conn_write :: "bytes \<Rightarrow> conn \<Rightarrow> (io_error + unit) \<times> conn" where
  "conn_write bs c =
     (if bs = [] then (Inr (), c)
      else case cn_writes c of
             [] \<Rightarrow> (Inr (), c\<lparr>cn_out := cn_out c @ bs\<rparr>)
           | None # ws \<Rightarrow> (Inr (), c\<lparr>cn_out := cn_out c @ bs, cn_writes := ws\<rparr>)
           | Some (k, e) # ws \<Rightarrow> (Inl e, c\<lparr>cn_out := cn_out c @ take k bs, cn_writes := ws\<rparr>))"

definition conn_flush :: "conn \<Rightarrow> (io_error + unit) \<times> conn" where
  "conn_flush c =
     (case cn_writes c of
        [] \<Rightarrow> (Inr (), c)
      | None # ws \<Rightarrow> (Inr (), c\<lparr>cn_writes := ws\<rparr>)
      | Some (k, e) # ws \<Rightarrow> (Inl e, c\<lparr>cn_writes := ws\<rparr>))"

text \<open>Reading up to \<open>k\<close> bytes and forwarding them, as every relay loop does; no bytes at the end of
  the stream.\<close>

definition pump :: "nat \<Rightarrow> conn \<Rightarrow> conn \<Rightarrow> (report, bytes) result \<times> conn \<times> conn" where
  "pump k r w =
     (case conn_read k r of
        (Inl e, r') \<Rightarrow> (Inl (ie_msg e), r', w)
      | (Inr bs, r') \<Rightarrow>
          (if bs = [] then (Inr [], r', w)
           else case conn_write bs w of
                  (Inl e, w') \<Rightarrow> (Inl (ie_msg e), r', w')
                | (Inr _, w') \<Rightarrow> (Inr bs, r', w')))"

text \<open>The two streams of a tunnel and the connection a sound peer offers.\<close>

definition fresh_conn :: "bytes \<Rightarrow> nat list \<Rightarrow> conn" where
  "fresh_conn s cuts = \<lparr>cn_in = s, cn_cuts = cuts, cn_end = Eof, cn_out = [], cn_writes = []\<rparr>"

section \<open>Facts\<close>

definition writable :: "conn \<Rightarrow> bool" where
  "writable c \<longleftrightarrow> set (cn_writes c) \<subseteq> {None}"

lemma conn_read_Inr:
  assumes "conn_read k c = (Inr bs, c')"
  shows "cn_in c = bs @ cn_in c'" "length bs \<le> k" "cn_out c' = cn_out c"
    "cn_end c' = cn_end c" "cn_writes c' = cn_writes c"
  using assms by (auto simp: conn_read_def read_size_def Let_def split: if_splits list.splits stream_end.splits)

lemma conn_read_Inl:
  assumes "conn_read k c = (Inl e, c')"
  shows "c' = c" "cn_in c = []" "cn_end c = IoFail e"
  using assms by (auto simp: conn_read_def Let_def split: if_splits stream_end.splits)

lemma conn_read_progress:
  assumes "conn_read k c = (Inr bs, c')" "0 < k" "cn_in c \<noteq> []"
  shows "bs \<noteq> []"
proof -
  have "read_size k (cn_in c) (dropWhile (\<lambda>m. m = 0) (cn_cuts c)) \<noteq> 0"
    using assms(2,3) hd_dropWhile [of "\<lambda>m. m = 0" "cn_cuts c"]
    by (cases "dropWhile (\<lambda>m. m = 0) (cn_cuts c)")
      (auto simp: read_size_def min_def simp del: dropWhile_eq_Nil_conv)
  then show ?thesis using assms by (auto simp: conn_read_def Let_def)
qed

lemma conn_read_end:
  assumes "conn_read k c = (Inr [], c')" "0 < k"
  shows "cn_in c = []" "cn_end c = Eof" "c' = c"
proof -
  show i: "cn_in c = []" using conn_read_progress [OF assms] by blast
  show "cn_end c = Eof" "c' = c"
    using assms i by (auto simp: conn_read_def split: if_splits stream_end.splits)
qed

lemma conn_write_in:
  "conn_write bs c = (r, c') \<Longrightarrow> cn_in c' = cn_in c"
  "conn_write bs c = (r, c') \<Longrightarrow> cn_end c' = cn_end c"
  "conn_write bs c = (r, c') \<Longrightarrow> cn_cuts c' = cn_cuts c"
  by (auto simp: conn_write_def split: if_splits list.splits option.splits)

lemma conn_write_out:
  "conn_write bs c = (x, c') \<Longrightarrow> \<exists>k. cn_out c' = cn_out c @ take k bs"
  "conn_write bs c = (Inr u, c') \<Longrightarrow> cn_out c' = cn_out c @ bs"
  by (auto simp: conn_write_def split: if_splits list.splits option.splits
      intro: exI [of _ "length bs"])

lemma conn_write_writable:
  "writable c \<Longrightarrow> conn_write bs c =
     (Inr (), c\<lparr>cn_out := cn_out c @ bs, cn_writes := (if bs = [] then cn_writes c else tl (cn_writes c))\<rparr>)"
  by (cases "cn_writes c") (auto simp: conn_write_def writable_def)

lemma conn_flush_frame:
  "conn_flush c = (x, c') \<Longrightarrow> cn_in c' = cn_in c"
  "conn_flush c = (x, c') \<Longrightarrow> cn_out c' = cn_out c"
  by (auto simp: conn_flush_def split: list.splits option.splits)

lemma conn_flush_writable:
  "writable c \<Longrightarrow> conn_flush c = (Inr (), c\<lparr>cn_writes := tl (cn_writes c)\<rparr>)"
  by (cases "cn_writes c") (auto simp: conn_flush_def writable_def)

lemma writable_tl [simp]: "writable c \<Longrightarrow> writable (c\<lparr>cn_out := y, cn_writes := tl (cn_writes c)\<rparr>)"
  by (cases "cn_writes c") (auto simp: writable_def)

text \<open>What one step of a relay loop does: it moves bytes from the one side to the other.\<close>

lemma pump_moves:
  assumes "pump k r w = (x, r', w')"
  shows "\<exists>bs n. cn_in r = bs @ cn_in r' \<and> cn_out w' = cn_out w @ take n bs"
    "cn_out r' = cn_out r" "cn_in w' = cn_in w"
proof -
  obtain y r1 where y: "conn_read k r = (y, r1)" by force
  show "\<exists>bs n. cn_in r = bs @ cn_in r' \<and> cn_out w' = cn_out w @ take n bs"
  proof (cases y)
    case (Inl e)
    then show ?thesis using assms y conn_read_Inl(1) [of k r e r1] by (auto simp: pump_def)
  next
    case (Inr bs)
    then show ?thesis
      using assms y conn_read_Inr(1) [of k r bs r1] conn_write_out(1) [of bs w]
      by (fastforce simp: pump_def split: if_splits sum.splits prod.splits)
  qed
  show "cn_out r' = cn_out r" "cn_in w' = cn_in w"
    using assms y conn_read_Inl(1) [of k r _ r1] conn_read_Inr(3) [of k r _ r1]
    by (auto simp: pump_def split: sum.splits if_splits prod.splits dest: conn_write_in)
qed

lemma pump_Inr:
  assumes "pump k r w = (Inr bs, r', w')"
  shows "cn_in r = bs @ cn_in r'" "cn_out w' = cn_out w @ bs" "length bs \<le> k"
    "cn_out r' = cn_out r" "cn_in w' = cn_in w" "cn_end r' = cn_end r" "cn_end w' = cn_end w"
proof -
  show "cn_in r = bs @ cn_in r'" "length bs \<le> k" "cn_out r' = cn_out r" "cn_end r' = cn_end r"
    using assms by (auto simp: pump_def split: prod.splits sum.splits if_splits dest: conn_read_Inr)
  show "cn_out w' = cn_out w @ bs" "cn_in w' = cn_in w" "cn_end w' = cn_end w"
    using assms by (auto simp: pump_def split: prod.splits sum.splits if_splits
        dest: conn_write_out(2) conn_write_in)
qed

lemma pump_progress:
  assumes "pump k r w = (Inr bs, r', w')" "bs \<noteq> []"
  shows "length (cn_in r') < length (cn_in r)"
  using pump_Inr(1) [OF assms(1)] assms(2) by simp

lemma pump_shrinks:
  "(Inr bs, r', w') = pump k r w \<Longrightarrow> bs \<noteq> [] \<Longrightarrow> length (cn_in r') < length (cn_in r)"
  by (rule pump_progress [OF sym])

lemma pump_writable:
  assumes "writable w" "0 < k" "cn_end r = Eof"
  obtains bs r' w' where "pump k r w = (Inr bs, r', w')" "writable w'" "bs = [] \<longleftrightarrow> cn_in r = []"
    "cn_end r' = Eof"
proof -
  obtain x r' where c: "conn_read k r = (x, r')" by force
  have "\<exists>bs. x = Inr bs"
  proof (cases x)
    case (Inl e)
    then show ?thesis using c assms(3) conn_read_Inl(3) [of k r e r'] by simp
  qed simp
  then obtain bs where bs: "conn_read k r = (Inr bs, r')" using c by blast
  have e: "bs = [] \<longleftrightarrow> cn_in r = []"
    using conn_read_progress [OF bs assms(2)] conn_read_Inr(1) [OF bs] by auto
  then show thesis
    using that [of bs r'] bs e assms conn_read_Inr(4) [OF bs] writable_tl [OF assms(1)]
    by (cases "bs = []") (auto simp: pump_def conn_write_writable)
qed

end
