(* ===== verification/Chunked_Coding.thy ===== *)
theory Chunked_Coding
  imports Rust_Utf8
begin

text \<open>
  The chunked transfer coding as a function of the bytes of a message body: what the size lines mean,
  where the body ends and what it decodes to. Both readers of the program, \<open>relay_chunked\<close> of
  \<open>l7/rest.rs\<close> and \<open>parse_chunked_body\<close> of \<open>l7/inference.rs\<close>, are compared with it.
\<close>

text \<open>The size of a chunk from its size line, as both readers compute it.\<close>

definition chunk_size_of :: "bytes \<Rightarrow> nat option" where
  "chunk_size_of line =
     Option.bind (from_utf8 line) (\<lambda>l. parse_usize_hex (trim_ws (hd (split_char (CHR '';'') l))))"

text \<open>The length of the trailer section: lines up to and including the first empty one.\<close>

function trailer_scan :: "bytes \<Rightarrow> nat option" where
  "trailer_scan s =
     (case find_sub crlf s of
        None \<Rightarrow> None
      | Some i \<Rightarrow> if i = 0 then Some 2
                  else map_option (\<lambda>n. i + 2 + n) (trailer_scan (drop (i + 2) s)))"
  by pat_completeness auto
termination trailer_scan
  by (relation "measure length") (auto dest: find_sub_Some_bound)

text \<open>The decoded body and its encoded length; \<^const>\<open>None\<close> for a malformed or unfinished body.\<close>

function chunk_scan :: "bytes \<Rightarrow> (bytes \<times> nat) option" where
  "chunk_scan s =
     (case find_sub crlf s of
        None \<Rightarrow> None
      | Some i \<Rightarrow>
          (case chunk_size_of (take i s) of
             None \<Rightarrow> None
           | Some sz \<Rightarrow>
               (let rest = drop (i + 2) s in
                if sz = 0 then map_option (\<lambda>n. ([], i + 2 + n)) (trailer_scan rest)
                else if length rest < sz + 2 \<or> take 2 (drop sz rest) \<noteq> crlf then None
                else map_option (\<lambda>(body, n). (take sz rest @ body, i + 2 + (sz + 2) + n))
                       (chunk_scan (drop (sz + 2) rest)))))"
  by pat_completeness auto
termination chunk_scan
  by (relation "measure length") (auto dest: find_sub_Some_bound)

declare trailer_scan.simps [simp del] chunk_scan.simps [simp del]

section \<open>Facts\<close>

lemma chunk_size_of_show_hex:
  assumes "n < 2 ^ 64"
  shows "chunk_size_of (show_hex n) = Some n"
proof -
  have "is_ascii (show_hex n)" using show_hex_no_ws [of n] by (auto simp: no_ws_def is_ascii_def)
  then have u: "from_utf8 (show_hex n) = Some (show_hex n)" by (simp add: from_utf8_def is_ascii_valid)
  have "CHR '';'' \<notin> set (show_hex n)"
    using show_radix_bytes [of 16 "CHR '';''" n] by (auto simp: show_hex_def)
  moreover have "parse_usize_hex (show_hex n) = Some n"
    using assms by (simp add: parse_usize_hex_def show_hex_def from_str_radix_show)
  ultimately show ?thesis
    using u by (simp add: chunk_size_of_def split_char_single no_ws_trim [OF show_hex_no_ws])
qed

lemma trailer_scan_bound: "trailer_scan s = Some n \<Longrightarrow> n \<le> length s"
proof (induction s arbitrary: n rule: trailer_scan.induct)
  case (1 s)
  then show ?case
    by (subst (asm) (2) trailer_scan.simps)
      (fastforce dest: find_sub_Some_bound split: option.splits if_splits)
qed

lemma chunk_scan_bound: "chunk_scan s = Some (b, n) \<Longrightarrow> n \<le> length s"
proof (induction s arbitrary: b n rule: chunk_scan.induct)
  case (1 s)
  from 1(2) obtain i sz where i: "find_sub crlf s = Some i" and z: "chunk_size_of (take i s) = Some sz"
    by (subst (asm) chunk_scan.simps) (auto split: option.splits)
  have bi: "i + 2 \<le> length s" using find_sub_Some_bound [OF i] by simp
  show ?case
  proof (cases "sz = 0")
    case True
    then show ?thesis using 1(2) i z bi
      by (subst (asm) chunk_scan.simps) (fastforce dest: trailer_scan_bound)
  next
    case False
    with 1(2) i z obtain b' m where m: "chunk_scan (drop (sz + 2) (drop (i + 2) s)) = Some (b', m)"
      and n: "n = i + 2 + (sz + 2) + m" and l: "\<not> length (drop (i + 2) s) < sz + 2"
      and c: "take 2 (drop sz (drop (i + 2) s)) = crlf"
      by (subst (asm) chunk_scan.simps) (auto simp: Let_def split: if_splits)
    from 1(1) [OF i z refl False _ m] l c bi n show ?thesis by simp
  qed
qed

lemma chunk_scan_data:
  assumes "chunk_scan s = Some (body, n)" "find_sub crlf s = Some i" "chunk_size_of (take i s) = Some sz"
    and "sz \<noteq> 0"
  shows "take 2 (drop sz (drop (i + 2) s)) = crlf" "sz + 2 \<le> length (drop (i + 2) s)"
    "\<exists>b m. chunk_scan (drop (sz + 2) (drop (i + 2) s)) = Some (b, m)
       \<and> body = take sz (drop (i + 2) s) @ b \<and> n = i + 2 + (sz + 2) + m"
  using assms by (auto simp: chunk_scan.simps [of s] Let_def not_less split: if_splits)

lemma find_crlf_show_hex: "find_sub crlf (show_hex n @ crlf @ s) = Some (length (show_hex n))"
proof (rule find_crlf_append)
  have "CHR 0x0D \<notin> set (show_hex n)"
    using show_radix_bytes [of 16 "CHR 0x0D" n] by (auto simp: show_hex_def)
  then show "find_sub crlf (show_hex n) = None"
    by (rule find_crlf_no_cr)
qed

text \<open>A chunk followed by the rest of a body, and the last chunk.\<close>

lemma chunk_scan_chunk:
  assumes "d \<noteq> []" "length d < 2 ^ 64"
  shows "chunk_scan (show_hex (length d) @ crlf @ d @ crlf @ s) =
    map_option (\<lambda>(b, n). (d @ b, length (show_hex (length d)) + 2 + (length d + 2) + n)) (chunk_scan s)"
  using assms by (simp add: chunk_scan.simps [of "show_hex _ @ _"] find_crlf_show_hex chunk_size_of_show_hex Let_def)

lemma chunk_size_of_zero: "chunk_size_of ''0'' = Some 0"
proof -
  have "show_hex 0 = ''0''" by code_simp
  then show ?thesis using chunk_size_of_show_hex [of 0] by simp
qed

lemma chunk_scan_last: "chunk_scan (''0'' @ crlf2 @ s) = Some ([], 5)"
proof -
  have "find_sub crlf (''0'' @ crlf @ crlf @ s) = Some 1" "trailer_scan (crlf @ s) = Some 2"
    by (simp_all add: trailer_scan.simps crlf_def starts_with_def)
  then show ?thesis
    by (simp add: chunk_scan.simps [of "_ # _"] crlf2_crlf chunk_size_of_zero)
qed

text \<open>More bytes behind a complete body change nothing.\<close>

lemma trailer_scan_append: "trailer_scan s = Some n \<Longrightarrow> trailer_scan (s @ t) = Some n"
proof (induction s arbitrary: n rule: trailer_scan.induct)
  case (1 s)
  then obtain i where i: "find_sub crlf s = Some i"
    by (subst (asm) (2) trailer_scan.simps) (auto split: option.splits)
  have b: "i + 2 \<le> length s" using find_sub_Some_bound [OF i] by simp
  note a = find_sub_append_Some [OF i, of t]
  show ?case
  proof (cases "i = 0")
    case True
    then show ?thesis using 1(2) i a by (simp add: trailer_scan.simps)
  next
    case False
    then obtain m where m: "trailer_scan (drop (i + 2) s) = Some m" "n = i + 2 + m"
      using 1(2) i by (auto simp: trailer_scan.simps [of s])
    have "trailer_scan (drop (i + 2) (s @ t)) = Some m" using 1(1) [OF i False m(1)] b by simp
    then show ?thesis using a m False by (simp add: trailer_scan.simps [of "s @ t"])
  qed
qed

lemma chunk_scan_append: "chunk_scan s = Some (b, n) \<Longrightarrow> chunk_scan (s @ t) = Some (b, n)"
proof (induction s arbitrary: b n rule: chunk_scan.induct)
  case (1 s)
  from 1(2) obtain i sz where i: "find_sub crlf s = Some i" and z: "chunk_size_of (take i s) = Some sz"
    by (subst (asm) chunk_scan.simps) (auto split: option.splits)
  have bi: "i + 2 \<le> length s" using find_sub_Some_bound [OF i] by simp
  note a = find_sub_append_Some [OF i, of t]
  have za: "chunk_size_of (take i (s @ t)) = Some sz" using z bi by simp
  have d: "drop (i + 2) (s @ t) = drop (i + 2) s @ t" using bi by simp
  show ?case
  proof (cases "sz = 0")
    case True
    then obtain m where m: "trailer_scan (drop (i + 2) s) = Some m" "b = []" "n = i + 2 + m"
      using 1(2) i z by (auto simp: chunk_scan.simps [of s])
    show ?thesis unfolding chunk_scan.simps [of "s @ t"] a za d option.case Let_def
      using True m trailer_scan_append [OF m(1)] by simp
  next
    case False
    note data = chunk_scan_data [OF 1(2) i z False]
    from data(3) obtain b' m where m: "chunk_scan (drop (sz + 2) (drop (i + 2) s)) = Some (b', m)"
      "b = take sz (drop (i + 2) s) @ b'" "n = i + 2 + (sz + 2) + m" by blast
    have cr: "take 2 (drop sz (drop (i + 2) s @ t)) = crlf" "\<not> length (drop (i + 2) s @ t) < sz + 2"
      using data(1,2) by auto
    have dd: "drop (sz + 2) (drop (i + 2) s @ t) = drop (sz + 2) (drop (i + 2) s) @ t"
      "take sz (drop (i + 2) s @ t) = take sz (drop (i + 2) s)" using data(2) by auto
    have g: "\<not> (length (drop (i + 2) s) < sz + 2 \<or> take 2 (drop sz (drop (i + 2) s)) \<noteq> crlf)"
      using data(1,2) by simp
    show ?thesis unfolding chunk_scan.simps [of "s @ t"] a za d option.case Let_def dd
      using False cr m 1(1) [OF i z refl False g m(1)] by simp
  qed
qed

end
