(* ===== verification/Http_Wire.thy ===== *)
theory Http_Wire
  imports Net_Io Secrets Json Chunked_Coding
begin

text \<open>
  HTTP/1.1 on the wire: \<open>crates/clustershell-sandbox/src/l7/rest.rs\<close> and the types of
  \<open>l7/provider.rs\<close>. Requests are read from the client byte by byte up to the blank line, forwarded
  with their bodies, and the responses are relayed back.
\<close>

section \<open>Requests\<close>

datatype body_length = ContentLength nat | Chunked | NoBody

record l7_request =
  rq_action :: bytes
  rq_target :: bytes
  rq_raw_header :: bytes
  rq_body_length :: body_length

definition MAX_HEADER_BYTES :: nat where
  "MAX_HEADER_BYTES = 16384"

definition RELAY_BUF_SIZE :: nat where
  "RELAY_BUF_SIZE = 8192"

definition is_benign_close :: "io_error \<Rightarrow> bool" where
  "is_benign_close e \<longleftrightarrow> ie_kind e \<in> {UnexpectedEof, ConnectionReset, BrokenPipe}"

fun body_length_of_lines :: "bytes list \<Rightarrow> body_length" where
  "body_length_of_lines [] = NoBody"
| "body_length_of_lines (line # lines) =
     (let lower = to_ascii_lowercase line;
          val = (case split_once lower '':'' of None \<Rightarrow> [] | Some (_, v) \<Rightarrow> trim_ws v) in
      if starts_with lower ''transfer-encoding:'' \<and> contains_sub val ''chunked'' then Chunked
      else case (if starts_with lower ''content-length:'' then parse_u64 val else None) of
             Some len \<Rightarrow> ContentLength len
           | None \<Rightarrow> body_length_of_lines lines)"

definition parse_body_length :: "bytes \<Rightarrow> body_length" where
  "parse_body_length headers = body_length_of_lines (drop 1 (str_lines headers))"

text \<open>The read loop of \<open>parse_http_request\<close>; \<^const>\<open>None\<close> is a clean close before any byte.\<close>

function read_header :: "bytes \<Rightarrow> conn \<Rightarrow> (report, bytes option) result \<times> conn" where
  "read_header buf c =
     (if length buf > MAX_HEADER_BYTES then
        (Inl (''HTTP request headers exceed '' @ show_nat MAX_HEADER_BYTES @ '' bytes''), c)
      else case conn_read_u8 c of
             (Inl e, c') \<Rightarrow>
               (if buf = [] \<and> is_benign_close e then (Inr None, c')
                else if buf = [] \<and> ie_kind e = UnexpectedEof then (Inr None, c')
                else (Inl (ie_msg e), c'))
           | (Inr b, c') \<Rightarrow>
               (let buf' = buf @ [b] in
                if ends_with buf' crlf2 then (Inr (Some buf'), c') else read_header buf' c'))"
  by pat_completeness auto

lemma conn_read_u8_Inr:
  assumes "conn_read_u8 c = (Inr b, c')"
  shows "cn_in c = b # cn_in c'" "cn_out c' = cn_out c" "cn_end c' = cn_end c"
proof -
  obtain bs where bs: "conn_read 1 c = (Inr (b # bs), c')"
    using assms by (auto simp: conn_read_u8_def split: prod.splits sum.splits list.splits)
  then have "bs = []" using conn_read_Inr(2) [OF bs] by simp
  then show "cn_in c = b # cn_in c'" "cn_out c' = cn_out c" "cn_end c' = cn_end c"
    using conn_read_Inr [OF bs] by auto
qed

termination read_header
  by (relation "measure (\<lambda>(buf, c). length (cn_in c))") (auto dest: conn_read_u8_Inr(1) [OF sym])

declare read_header.simps [simp del]

text \<open>The parsing of the header block that was read.\<close>

definition parse_request_head :: "bytes \<Rightarrow> (report, l7_request) result" where
  "parse_request_head buf =
     (let header_end = (case find_sub crlf2 buf of None \<Rightarrow> length buf | Some p \<Rightarrow> p + 4);
          header_str = from_utf8_lossy (take header_end buf) in
      case str_lines header_str of
        [] \<Rightarrow> Inl ''Empty HTTP request''
      | request_line # _ \<Rightarrow>
          (case split_whitespace request_line of
             [] \<Rightarrow> Inl ''Missing HTTP method''
           | [_] \<Rightarrow> Inl ''Missing HTTP path''
           | meth # path # _ \<Rightarrow>
               Inr \<lparr>rq_action = meth, rq_target = path, rq_raw_header = buf,
                    rq_body_length = parse_body_length header_str\<rparr>))"

definition parse_http_request :: "conn \<Rightarrow> (report, l7_request option) result \<times> conn" where
  "parse_http_request client =
     (case read_header [] client of
        (Inl e, c) \<Rightarrow> (Inl e, c)
      | (Inr None, c) \<Rightarrow> (Inr None, c)
      | (Inr (Some buf), c) \<Rightarrow>
          (case parse_request_head buf of
             Inl e \<Rightarrow> (Inl e, c)
           | Inr req \<Rightarrow> (Inr (Some req), c)))"

section \<open>Bodies\<close>

function relay_fixed :: "conn \<Rightarrow> conn \<Rightarrow> nat \<Rightarrow> (report, unit) result \<times> conn \<times> conn" where
  "relay_fixed r w remaining =
     (if remaining = 0 then (Inr (), r, w)
      else case pump (min remaining RELAY_BUF_SIZE) r w of
             (Inl e, r', w') \<Rightarrow> (Inl e, r', w')
           | (Inr bs, r', w') \<Rightarrow>
               (if bs = [] then
                  (Inl (''Connection closed with '' @ show_nat remaining @ '' bytes remaining''), r', w')
                else relay_fixed r' w' (remaining - length bs)))"
  by pat_completeness auto
termination relay_fixed
  by (relation "measure (\<lambda>(r, w, n). length (cn_in r))") (auto dest: pump_shrinks)

declare relay_fixed.simps [simp del]

definition find_crlf :: "bytes \<Rightarrow> nat \<Rightarrow> nat option" where
  "find_crlf buf start =
     (if start \<le> length buf then map_option (\<lambda>offset. start + offset) (find_sub crlf (drop start buf))
      else None)"

text \<open>The inner loops of \<open>relay_chunked\<close>: reading until \<open>parse_buf\<close> has a line end at or after
  \<open>pos\<close>, and until it is \<open>n\<close> bytes long. \<open>eof\<close> is the message of the loop when the stream ends.\<close>

function fill_line ::
  "bytes \<Rightarrow> conn \<Rightarrow> conn \<Rightarrow> bytes \<Rightarrow> nat \<Rightarrow> (report, nat \<times> bytes) result \<times> conn \<times> conn" where
  "fill_line eof r w buf pos =
     (case find_crlf buf pos of
        Some e \<Rightarrow> (Inr (e, buf), r, w)
      | None \<Rightarrow>
          (case pump RELAY_BUF_SIZE r w of
             (Inl e, r', w') \<Rightarrow> (Inl e, r', w')
           | (Inr bs, r', w') \<Rightarrow>
               (if bs = [] then (Inl eof, r', w') else fill_line eof r' w' (buf @ bs) pos)))"
  by pat_completeness auto
termination fill_line
  by (relation "measure (\<lambda>(eof, r, w, b, p). length (cn_in r))") (auto dest: pump_shrinks)

function fill_to ::
  "bytes \<Rightarrow> conn \<Rightarrow> conn \<Rightarrow> bytes \<Rightarrow> nat \<Rightarrow> (report, bytes) result \<times> conn \<times> conn" where
  "fill_to eof r w buf n =
     (if n \<le> length buf then (Inr buf, r, w)
      else case pump RELAY_BUF_SIZE r w of
             (Inl e, r', w') \<Rightarrow> (Inl e, r', w')
           | (Inr bs, r', w') \<Rightarrow>
               (if bs = [] then (Inl eof, r', w') else fill_to eof r' w' (buf @ bs) n))"
  by pat_completeness auto
termination fill_to
  by (relation "measure (\<lambda>(eof, r, w, b, n). length (cn_in r))") (auto dest: pump_shrinks)

declare fill_line.simps [simp del] fill_to.simps [simp del]

lemma find_crlf_Some: "find_crlf buf pos = Some e \<Longrightarrow> pos \<le> e \<and> e + 2 \<le> length buf"
  using find_sub_Some_bound [of crlf "drop pos buf"]
  by (auto simp: find_crlf_def split: if_splits)

text \<open>Filling moves bytes from the stream into the buffer, forwarding each of them.\<close>

lemma fill_line_Inr:
  "fill_line eof r w buf pos = (Inr (e, buf'), r', w') \<Longrightarrow>
     (\<exists>bs. buf' = buf @ bs \<and> cn_in r = bs @ cn_in r' \<and> cn_out w' = cn_out w @ bs)
     \<and> find_crlf buf' pos = Some e \<and> cn_out r' = cn_out r \<and> cn_in w' = cn_in w
     \<and> cn_end r' = cn_end r"
proof (induction eof r w buf pos rule: fill_line.induct)
  case (1 eof r w buf pos)
  show ?case
  proof (cases "find_crlf buf pos")
    case (Some x)
    then show ?thesis using 1(2) by (auto simp: fill_line.simps [of eof r w buf pos])
  next
    case None
    obtain x r1 w1 where p: "pump RELAY_BUF_SIZE r w = (x, r1, w1)" by (metis prod_cases3)
    obtain bs where bs: "x = Inr bs" "bs \<noteq> []"
      and rec: "fill_line eof r1 w1 (buf @ bs) pos = (Inr (e, buf'), r', w')"
      using 1(2) None p by (auto simp: fill_line.simps [of eof r w buf pos] split: sum.splits if_splits)
    from 1(1) [OF None p [symmetric] bs(1) refl bs(2) rec] pump_Inr [OF p [unfolded bs(1)]]
    show ?thesis by auto
  qed
qed

lemma fill_to_Inr:
  "fill_to eof r w buf n = (Inr buf', r', w') \<Longrightarrow>
     (\<exists>bs. buf' = buf @ bs \<and> cn_in r = bs @ cn_in r' \<and> cn_out w' = cn_out w @ bs)
     \<and> n \<le> length buf' \<and> cn_out r' = cn_out r \<and> cn_in w' = cn_in w \<and> cn_end r' = cn_end r"
proof (induction eof r w buf n rule: fill_to.induct)
  case (1 eof r w buf n)
  show ?case
  proof (cases "n \<le> length buf")
    case True
    then show ?thesis using 1(2) by (auto simp: fill_to.simps [of eof r w buf n])
  next
    case False
    obtain x r1 w1 where p: "pump RELAY_BUF_SIZE r w = (x, r1, w1)" by (metis prod_cases3)
    obtain bs where bs: "x = Inr bs" "bs \<noteq> []"
      and rec: "fill_to eof r1 w1 (buf @ bs) n = (Inr buf', r', w')"
      using 1(2) False p by (auto simp: fill_to.simps [of eof r w buf n] split: sum.splits if_splits)
    from 1(1) [OF False p [symmetric] bs(1) refl bs(2) rec] pump_Inr [OF p [unfolded bs(1)]]
    show ?thesis by auto
  qed
qed

text \<open>The trailer loop and the chunk loop of \<open>relay_chunked\<close>. The text of an invalid size token is left
  out of its message.\<close>

function relay_trailers :: "conn \<Rightarrow> conn \<Rightarrow> bytes \<Rightarrow> nat \<Rightarrow> (report, unit) result \<times> conn \<times> conn" where
  "relay_trailers r w buf pos =
     (case fill_line ''Chunked body ended before trailer terminator'' r w buf pos of
        (Inl e, r', w') \<Rightarrow> (Inl e, r', w')
      | (Inr (trailer_end, buf'), r', w') \<Rightarrow>
          (if trailer_end = pos then (Inr (), r', w')
           else relay_trailers r' w' buf' (trailer_end + 2)))"
  by pat_completeness auto

lemma fill_line_total:
  assumes "fill_line eof r w buf pos = (Inr (e, buf'), r', w')"
  shows "length (cn_in r') + length buf' = length (cn_in r) + length buf"
    "pos \<le> e" "e + 2 \<le> length buf'"
  using fill_line_Inr [OF assms] find_crlf_Some [of buf' pos e] by auto

lemma fill_line_shrinks:
  assumes "(Inr (e, buf'), r', w') = fill_line eof r w buf pos"
  shows "length (cn_in r') + length buf' - (e + 2) < length (cn_in r) + length buf - pos"
  using fill_line_total [OF assms [symmetric]] by simp

termination relay_trailers
  by (relation "measure (\<lambda>(r, w, buf, pos). length (cn_in r) + length buf - pos)")
    (auto dest: fill_line_shrinks)

definition drained :: "bytes \<Rightarrow> nat \<Rightarrow> bytes \<times> nat" where
  "drained buf pos = (if pos > RELAY_BUF_SIZE * 4 then (drop pos buf, 0) else (buf, pos))"

function relay_chunked_loop ::
  "conn \<Rightarrow> conn \<Rightarrow> bytes \<Rightarrow> nat \<Rightarrow> (report, unit) result \<times> conn \<times> conn" where
  "relay_chunked_loop r w buf pos =
     (case fill_line ''Chunked body ended before chunk-size line'' r w buf pos of
        (Inl e, r', w') \<Rightarrow> (Inl e, r', w')
      | (Inr (size_line_end, buf'), r', w') \<Rightarrow>
          (let size_line = take (size_line_end - pos) (drop pos buf') in
           if from_utf8 size_line = None then (Inl ''Invalid UTF-8 in chunk-size line'', r', w')
           else case chunk_size_of size_line of
             None \<Rightarrow> (Inl ''Invalid chunk size token'', r', w')
           | Some chunk_size \<Rightarrow>
               (let pos' = size_line_end + 2 in
                if chunk_size = 0 then relay_trailers r' w' buf' pos'
                else case Option.bind (checked_add_usize pos' chunk_size)
                            (\<lambda>chunk_end. checked_add_usize chunk_end 2) of
                  None \<Rightarrow> (Inl ''Chunk size overflow'', r', w')
                | Some chunk_with_crlf_end \<Rightarrow>
                    (case fill_to ''Chunked body ended mid-chunk'' r' w' buf' chunk_with_crlf_end of
                       (Inl e, r2, w2) \<Rightarrow> (Inl e, r2, w2)
                     | (Inr buf2, r2, w2) \<Rightarrow>
                         (if take 2 (drop (pos' + chunk_size) buf2) \<noteq> crlf then
                            (Inl ''Chunk missing terminating CRLF'', r2, w2)
                          else case drained buf2 chunk_with_crlf_end of
                                 (buf3, pos3) \<Rightarrow> relay_chunked_loop r2 w2 buf3 pos3)))))"
  by pat_completeness auto

lemma fill_to_total:
  assumes "fill_to eof r w buf n = (Inr buf', r', w')"
  shows "length (cn_in r') + length buf' = length (cn_in r) + length buf" "n \<le> length buf'"
  using fill_to_Inr [OF assms] by auto

lemma drained_drop: "drained buf pos = (buf', pos') \<Longrightarrow> drop pos' buf' = drop pos buf"
  by (auto simp: drained_def split: if_splits)

lemma drained_length:
  "drained buf pos = (buf', pos') \<Longrightarrow> pos \<le> length buf \<Longrightarrow>
     length buf' - pos' = length buf - pos \<and> pos' \<le> length buf' \<and> length buf' \<le> length buf"
  by (auto simp: drained_def split: if_splits)

lemma chunk_end_Some:
  "Option.bind (checked_add_usize p c) (\<lambda>e. checked_add_usize e 2) = Some q \<longleftrightarrow> q = p + c + 2 \<and> p + c + 2 < 2 ^ 64"
  by (auto simp: checked_add_usize_def split: if_splits)

lemma relay_chunked_shrinks:
  assumes "(Inr (e, buf'), r', w') = fill_line eof r w buf pos"
    and "Option.bind (checked_add_usize (e + 2) c) (\<lambda>x. checked_add_usize x 2) = Some q"
    and "(Inr buf2, r2, w2) = fill_to eof2 r' w' buf' q" and "(buf3, pos3) = drained buf2 q"
  shows "length (cn_in r2) + length buf3 - pos3 < length (cn_in r) + length buf - pos"
  using fill_line_total [OF assms(1) [symmetric]] fill_to_total [OF assms(3) [symmetric]]
    drained_length [OF assms(4) [symmetric]] assms(2) unfolding chunk_end_Some
  by linarith

termination relay_chunked_loop
  by (relation "measure (\<lambda>(r, w, buf, pos). length (cn_in r) + length buf - pos)")
    (auto simp del: add_2_eq_Suc' split: prod.splits intro: relay_chunked_shrinks)

declare relay_trailers.simps [simp del] relay_chunked_loop.simps [simp del]

definition relay_chunked :: "conn \<Rightarrow> conn \<Rightarrow> bytes \<Rightarrow> (report, unit) result \<times> conn \<times> conn" where
  "relay_chunked r w already_forwarded = relay_chunked_loop r w already_forwarded 0"

section \<open>Responses\<close>

definition parse_status_code :: "bytes \<Rightarrow> nat option" where
  "parse_status_code headers =
     (case str_lines headers of
        [] \<Rightarrow> None
      | status_line # _ \<Rightarrow>
          (case split_whitespace status_line of _ # code_str # _ \<Rightarrow> parse_u16 code_str | _ \<Rightarrow> None))"

fun connection_close_of_lines :: "bytes list \<Rightarrow> bool" where
  "connection_close_of_lines [] = False"
| "connection_close_of_lines (line # lines) =
     (let lower = to_ascii_lowercase line in
      if starts_with lower ''connection:'' then
        contains_sub (case split_once lower '':'' of None \<Rightarrow> [] | Some (_, v) \<Rightarrow> trim_ws v) ''close''
      else connection_close_of_lines lines)"

definition parse_connection_close :: "bytes \<Rightarrow> bool" where
  "parse_connection_close headers = connection_close_of_lines (drop 1 (str_lines headers))"

definition is_bodiless_response :: "bytes \<Rightarrow> nat \<Rightarrow> bool" where
  "is_bodiless_response request_method status_code \<longleftrightarrow>
     eq_ignore_ascii_case request_method ''HEAD''
     \<or> (100 \<le> status_code \<and> status_code < 200) \<or> status_code = 204 \<or> status_code = 304"

function relay_until_eof :: "conn \<Rightarrow> conn \<Rightarrow> (report, unit) result \<times> conn \<times> conn" where
  "relay_until_eof r w =
     (case conn_read_timeout RELAY_BUF_SIZE r of
        (None, r') \<Rightarrow> (Inr (), r', w)
      | (Some (Inl e), r') \<Rightarrow> (Inl (ie_msg e), r', w)
      | (Some (Inr bs), r') \<Rightarrow>
          (if bs = [] then (Inr (), r', w)
           else case conn_write bs w of
                  (Inl e, w') \<Rightarrow> (Inl (ie_msg e), r', w')
                | (Inr _, w') \<Rightarrow> relay_until_eof r' w'))"
  by pat_completeness auto

lemma conn_read_timeout_shrinks:
  assumes "(Some (Inr bs), r') = conn_read_timeout k r" "bs \<noteq> []"
  shows "length (cn_in r') < length (cn_in r)"
proof -
  have "conn_read k r = (Inr bs, r')"
    using assms(1) by (auto simp: conn_read_timeout_def split: list.splits nat.splits prod.splits)
  from conn_read_Inr(1) [OF this] assms(2) show ?thesis by simp
qed

termination relay_until_eof
  by (relation "measure (\<lambda>(r, w). length (cn_in r))") (auto dest: conn_read_timeout_shrinks)

text \<open>The header loop of \<open>relay_response\<close>; \<open>HeadClosed\<close> is a stream that ends before the blank line.\<close>

datatype head_read = HeadClosed bytes | HeadComplete bytes

function read_response_head :: "bytes \<Rightarrow> conn \<Rightarrow> (report, head_read) result \<times> conn" where
  "read_response_head buf u =
     (if length buf > MAX_HEADER_BYTES then (Inl ''HTTP response headers exceed limit'', u)
      else case conn_read 1024 u of
             (Inl e, u') \<Rightarrow> (Inl (ie_msg e), u')
           | (Inr bs, u') \<Rightarrow>
               (if bs = [] then (Inr (HeadClosed buf), u')
                else if contains_sub (buf @ bs) crlf2 then (Inr (HeadComplete (buf @ bs)), u')
                else read_response_head (buf @ bs) u'))"
  by pat_completeness auto
termination read_response_head
  by (relation "measure (\<lambda>(buf, u). length (cn_in u))") (auto dest: conn_read_Inr(1) [OF sym])

declare relay_until_eof.simps [simp del] read_response_head.simps [simp del]

text \<open>Writing in sequence; the first failure ends it.\<close>

fun conn_writes :: "bytes list \<Rightarrow> conn \<Rightarrow> (report, unit) result \<times> conn" where
  "conn_writes [] c = (Inr (), c)"
| "conn_writes (bs # bss) c =
     (case conn_write bs c of (Inl e, c') \<Rightarrow> (Inl (ie_msg e), c') | (Inr _, c') \<Rightarrow> conn_writes bss c')"

definition flush_then :: "'a \<Rightarrow> conn \<Rightarrow> (report, 'a) result \<times> conn" where
  "flush_then x c = (case conn_flush c of (Inl e, c') \<Rightarrow> (Inl (ie_msg e), c') | (Inr _, c') \<Rightarrow> (Inr x, c'))"

definition write_flush :: "'a \<Rightarrow> bytes list \<Rightarrow> conn \<Rightarrow> (report, 'a) result \<times> conn" where
  "write_flush x bss c =
     (case conn_writes bss c of (Inl e, c') \<Rightarrow> (Inl e, c') | (Inr _, c') \<Rightarrow> flush_then x c')"

definition header_end_of :: "bytes \<Rightarrow> nat" where
  "header_end_of raw = (case find_sub crlf2 raw of None \<Rightarrow> length raw | Some p \<Rightarrow> p + 4)"

text \<open>The body of a message with explicit framing, of which \<open>overflow\<close> is already forwarded.\<close>

definition relay_body ::
  "body_length \<Rightarrow> bytes \<Rightarrow> conn \<Rightarrow> conn \<Rightarrow> (report, unit) result \<times> conn \<times> conn" where
  "relay_body bl overflow r w =
     (case bl of
        ContentLength len \<Rightarrow>
          (let remaining = len - length overflow in
           if remaining > 0 then relay_fixed r w remaining else (Inr (), r, w))
      | Chunked \<Rightarrow> relay_chunked r w overflow
      | NoBody \<Rightarrow> (Inr (), r, w))"

definition relay_response_body ::
  "bytes \<Rightarrow> bytes \<Rightarrow> conn \<Rightarrow> conn \<Rightarrow> (report, bool) result \<times> conn \<times> conn" where
  "relay_response_body request_method buf upstream client =
     (let header_end = header_end_of buf;
          header_str = from_utf8_lossy (take header_end buf);
          status_code = (case parse_status_code header_str of None \<Rightarrow> 200 | Some s \<Rightarrow> s);
          server_wants_close = parse_connection_close header_str;
          bl = parse_body_length header_str;
          overflow = drop header_end buf in
      if is_bodiless_response request_method status_code then
        (case write_flush (\<not> server_wants_close) [take header_end buf] client of (x, c) \<Rightarrow> (x, upstream, c))
      else if bl = NoBody then
        (if server_wants_close then
           (case conn_writes [take (header_end - 2) buf, ''Connection: close'' @ crlf2, overflow] client of
              (Inl e, c) \<Rightarrow> (Inl e, upstream, c)
            | (Inr _, c) \<Rightarrow>
                (case relay_until_eof upstream c of
                   (Inl e, u', c') \<Rightarrow> (Inl e, u', c')
                 | (Inr _, u', c') \<Rightarrow> (case flush_then False c' of (x, c2) \<Rightarrow> (x, u', c2))))
         else (case write_flush True [take header_end buf] client of (x, c) \<Rightarrow> (x, upstream, c)))
      else
        (case conn_writes [buf] client of
           (Inl e, c) \<Rightarrow> (Inl e, upstream, c)
         | (Inr _, c) \<Rightarrow>
             (case relay_body bl overflow upstream c of
                (Inl e, u', c') \<Rightarrow> (Inl e, u', c')
              | (Inr _, u', c') \<Rightarrow> (case flush_then True c' of (x, c2) \<Rightarrow> (x, u', c2)))))"

definition relay_response ::
  "bytes \<Rightarrow> conn \<Rightarrow> conn \<Rightarrow> (report, bool) result \<times> conn \<times> conn" where
  "relay_response request_method upstream client =
     (case read_response_head [] upstream of
        (Inl e, u) \<Rightarrow> (Inl e, u, client)
      | (Inr (HeadClosed buf), u) \<Rightarrow>
          (case conn_writes [buf] client of (Inl e, c) \<Rightarrow> (Inl e, u, c) | (Inr _, c) \<Rightarrow> (Inr False, u, c))
      | (Inr (HeadComplete buf), u) \<Rightarrow> relay_response_body request_method buf u client)"

section \<open>Forwarding and denying\<close>

definition relay_http_request_with_resolver ::
  "l7_request \<Rightarrow> conn \<Rightarrow> conn \<Rightarrow> secret_resolver option \<Rightarrow> (report, bool) result \<times> conn \<times> conn" where
  "relay_http_request_with_resolver req client upstream resolver =
     (let header_end = header_end_of (rq_raw_header req);
          rewritten_header = rewrite_http_header_block (take header_end (rq_raw_header req)) resolver;
          overflow = drop header_end (rq_raw_header req) in
      case conn_writes [rewritten_header, overflow] upstream of
        (Inl e, u) \<Rightarrow> (Inl e, client, u)
      | (Inr _, u) \<Rightarrow>
          (case relay_body (rq_body_length req) overflow client u of
             (Inl e, c', u') \<Rightarrow> (Inl e, c', u')
           | (Inr _, c', u') \<Rightarrow>
               (case flush_then () u' of
                  (Inl e, u2) \<Rightarrow> (Inl e, c', u2)
                | (Inr _, u2) \<Rightarrow>
                    (case relay_response (rq_action req) u2 c' of (x, u3, c3) \<Rightarrow> (x, c3, u3)))))"

definition relay_http_request :: "l7_request \<Rightarrow> conn \<Rightarrow> conn \<Rightarrow> (report, bool) result \<times> conn \<times> conn" where
  "relay_http_request req client upstream = relay_http_request_with_resolver req client upstream None"

text \<open>\<open>js\<close> is the printer of \<open>serde_json\<close>.\<close>

definition deny_response :: "(json \<Rightarrow> bytes) \<Rightarrow> l7_request \<Rightarrow> bytes \<Rightarrow> bytes \<Rightarrow> bytes" where
  "deny_response js req policy_name reason =
     (let body = js (json_object [(''error'', JStr ''policy_denied''), (''policy'', JStr policy_name),
            (''rule'', JStr (rq_action req @ '' '' @ rq_target req)), (''detail'', JStr reason)]) in
      ''HTTP/1.1 403 Forbidden'' @ crlf @ ''Content-Type: application/json'' @ crlf
      @ ''Content-Length: '' @ show_nat (length body) @ crlf
      @ ''X-ClusterShell-Policy: '' @ policy_name @ crlf @ ''Connection: close'' @ crlf2 @ body)"

definition send_deny_response ::
  "(json \<Rightarrow> bytes) \<Rightarrow> l7_request \<Rightarrow> bytes \<Rightarrow> bytes \<Rightarrow> conn \<Rightarrow> (report, unit) result \<times> conn" where
  "send_deny_response js req policy_name reason client =
     write_flush () [deny_response js req policy_name reason] client"

definition looks_like_http :: "bytes \<Rightarrow> bool" where
  "looks_like_http peek \<longleftrightarrow>
     (\<exists>m\<in>set [''GET '', ''HEAD '', ''POST '', ''PUT '', ''DELETE '', ''PATCH '', ''OPTIONS '', ''CONNECT '',
              ''TRACE '']. starts_with peek m)"

end
