(* ===== verification/Http_Framing.thy ===== *)
theory Http_Framing
  imports Http_Wire
begin

text \<open>
  What the routines of \<open>Http_Wire\<close> take from one stream and put on the other: a request is read up to
  its blank line and no further, a fixed-length body is moved exactly, and a chunked body is accepted
  exactly when \<^const>\<open>chunk_scan\<close> finds its end, whatever the reads look like.
\<close>

section \<open>Request heads\<close>

lemma ends_with_snoc_contains:
  assumes "p \<noteq> []" "find_sub p buf = None" "\<not> ends_with (buf @ [b]) p"
  shows "find_sub p (buf @ [b]) = None"
proof (rule ccontr)
  assume "find_sub p (buf @ [b]) \<noteq> None"
  then obtain i where i: "find_sub p (buf @ [b]) = Some i" by blast
  have l: "i + length p \<le> length buf + 1" using find_sub_Some_bound [OF i] by simp
  obtain t where t: "drop i (buf @ [b]) = p @ t"
    using find_sub_Some_match [OF i] by (auto simp: starts_with_split)
  show False
  proof (cases t rule: rev_cases)
    case Nil
    then have "buf @ [b] = take i (buf @ [b]) @ p" using t by (metis append_Nil2 append_take_drop_id)
    then show False using assms(3) by (auto simp: ends_with_split)
  next
    case (snoc t' x)
    have "i \<le> length buf" using l assms(1) by (cases p) auto
    then have "drop i buf = p @ t'" using t snoc by simp
    then show False using find_sub_None_no_match [OF assms(2), of i] by simp
  qed
qed

lemma find_sub_ends:
  assumes "p \<noteq> []" "find_sub p buf = None" "ends_with (buf @ [b]) p"
  shows "find_sub p (buf @ [b]) = Some (length buf + 1 - length p)"
proof (rule find_sub_at)
  have l: "length p \<le> length buf + 1" "drop (length buf + 1 - length p) (buf @ [b]) = p"
    using assms(3) by (auto simp: ends_with_def)
  show "starts_with (drop (length buf + 1 - length p) (buf @ [b])) p" using l by (simp add: starts_with_def)
  show "length buf + 1 - length p \<le> length (buf @ [b])" by simp
  fix j assume j: "j < length buf + 1 - length p"
  have "\<not> starts_with (drop j buf) p" by (rule find_sub_None_no_match [OF assms(2)])
  then show "\<not> starts_with (drop j (buf @ [b])) p" using j by (auto simp: starts_with_def)
qed

lemma read_header_Some:
  assumes "read_header buf c = (Inr (Some b), c')" "find_sub crlf2 buf = None"
  shows "(\<exists>bs. b = buf @ bs \<and> cn_in c = bs @ cn_in c' \<and> bs \<noteq> []) \<and> cn_out c' = cn_out c \<and> cn_end c' = cn_end c
    \<and> find_sub crlf2 b = Some (length b - 4) \<and> 4 \<le> length b \<and> length b \<le> MAX_HEADER_BYTES + 1"
  using assms
proof (induction buf c rule: read_header.induct)
  case (1 buf c)
  have len: "length buf \<le> MAX_HEADER_BYTES" using 1(2) by (subst (asm) read_header.simps) (auto split: if_splits)
  obtain x c1 where x: "conn_read_u8 c = (x, c1)" by force
  then obtain ch where ch: "conn_read_u8 c = (Inr ch, c1)"
    using 1(2) len by (cases x) (auto simp: read_header.simps [of buf c] split: if_splits)
  note io = conn_read_u8_Inr [OF ch]
  have ne: "crlf2 \<noteq> []" by (simp add: crlf2_def)
  show ?case
  proof (cases "ends_with (buf @ [ch]) crlf2")
    case True
    then have "b = buf @ [ch]" "c' = c1" using 1(2) len ch by (auto simp: read_header.simps [of buf c])
    moreover have "4 \<le> length (buf @ [ch])" using True unfolding ends_with_def by simp
    ultimately show ?thesis using find_sub_ends [OF ne 1(3) True] io len by auto
  next
    case False
    then have rec: "read_header (buf @ [ch]) c1 = (Inr (Some b), c')"
      using 1(2) len ch by (auto simp: read_header.simps [of buf c])
    from 1(1) [OF _ ch [symmetric] refl refl False rec ends_with_snoc_contains [OF ne 1(3) False]] len io
    show ?thesis by auto
  qed
qed

lemma conn_read_u8_hd:
  "cn_in c = b # bs \<Longrightarrow> \<exists>cuts. conn_read_u8 c = (Inr b, c\<lparr>cn_in := bs, cn_cuts := cuts\<rparr>)"
proof -
  assume i: "cn_in c = b # bs"
  obtain x c' where x: "conn_read 1 c = (x, c')" by force
  then obtain ys where ys: "x = Inr ys" using i conn_read_Inl(2) [of 1 c _ c'] by (cases x) auto
  then have "ys \<noteq> []" "length ys \<le> 1" "cn_in c = ys @ cn_in c'"
    using conn_read_progress [of 1 c ys c'] conn_read_Inr [of 1 c ys c'] x i by auto
  then have "ys = [b]" using i by (cases ys) auto
  moreover obtain n cuts where "c' = c\<lparr>cn_in := drop n (cn_in c), cn_cuts := cuts\<rparr>"
    using x i by (auto simp: conn_read_def Let_def)
  ultimately show ?thesis using x ys i \<open>cn_in c = ys @ cn_in c'\<close> by (auto simp: conn_read_u8_def)
qed

text \<open>A head within the limit is read whole.\<close>

lemma read_header_finds:
  assumes "find_sub crlf2 (buf @ cn_in c) = Some p" "length buf < p + 4" "p + 4 \<le> MAX_HEADER_BYTES + 1"
  shows "\<exists>cuts. read_header buf c =
    (Inr (Some (take (p + 4) (buf @ cn_in c))), c\<lparr>cn_in := drop (p + 4 - length buf) (cn_in c), cn_cuts := cuts\<rparr>)"
  using assms
proof (induction "cn_in c" arbitrary: buf c)
  case Nil
  then show ?case using find_sub_Some_bound [of crlf2 buf p] by simp
next
  case (Cons b bs)
  obtain cuts where r: "conn_read_u8 c = (Inr b, c\<lparr>cn_in := bs, cn_cuts := cuts\<rparr>)"
    using conn_read_u8_hd Cons(2) by metis
  let ?c = "c\<lparr>cn_in := bs, cn_cuts := cuts\<rparr>"
  have eq: "(buf @ [b]) @ cn_in ?c = buf @ cn_in c" by (simp flip: Cons(2))
  have bnd: "p + 4 \<le> length (buf @ cn_in c)" using find_sub_Some_bound [OF Cons(3)] by simp
  have end_iff: "ends_with (buf @ [b]) crlf2 \<longleftrightarrow> p + 4 = length buf + 1"
  proof
    assume e: "ends_with (buf @ [b]) crlf2"
    then have four: "4 \<le> length buf + 1" and "starts_with (drop (length buf + 1 - 4) (buf @ [b])) crlf2"
      unfolding ends_with_def starts_with_def by auto
    then have "starts_with (drop (length buf + 1 - 4) (buf @ cn_in c)) crlf2"
      using starts_with_append_mono [of "drop (length buf + 1 - 4) (buf @ [b])" crlf2 "cn_in ?c"] eq
      by (auto simp: Cons(2) [symmetric])
    then have "\<not> length buf + 1 - 4 < p" using find_sub_Some_first [OF Cons(3)] by blast
    then show "p + 4 = length buf + 1" using Cons(4) four by simp
  next
    assume e: "p + 4 = length buf + 1"
    have "take 4 (drop p (buf @ cn_in c)) = crlf2"
      using find_sub_Some_match [OF Cons(3)] by (simp add: starts_with_def)
    moreover have "4 + p - length buf = 1" "p \<le> length buf" using e Cons(4) by simp_all
    ultimately have "drop p (buf @ [b]) = crlf2" by (simp add: Cons(2) [symmetric])
    moreover have "length buf - 3 = p" "length buf = p + 3" using e by simp_all
    ultimately show "ends_with (buf @ [b]) crlf2" by (simp add: ends_with_def)
  qed
  show ?case
  proof (cases "p + 4 = length buf + 1")
    case True
    then have lb: "length buf = p + 3" by simp
    have "read_header buf c = (Inr (Some (buf @ [b])), ?c)"
      using lb r end_iff Cons(5) by (subst read_header.simps) simp
    moreover have "take (p + 4) (buf @ cn_in c) = buf @ [b]" "drop (p + 4 - length buf) (cn_in c) = bs"
      by (simp_all add: lb flip: Cons(2))
    ultimately show ?thesis by (intro exI [of _ cuts]) simp
  next
    case False
    have "\<exists>cuts. read_header (buf @ [b]) ?c = (Inr (Some (take (p + 4) ((buf @ [b]) @ cn_in ?c))),
        ?c\<lparr>cn_in := drop (p + 4 - length (buf @ [b])) (cn_in ?c), cn_cuts := cuts\<rparr>)"
      using Cons(1) [of ?c "buf @ [b]"] eq Cons(3-5) False by simp
    moreover have "read_header buf c = read_header (buf @ [b]) ?c"
      using r end_iff False Cons(4,5) by (subst read_header.simps) simp
    moreover have "drop (p + 4 - length (buf @ [b])) bs = drop (p + 4 - length buf) (cn_in c)"
      using Cons(2,4) False by (simp add: Cons(2) [symmetric] Suc_diff_le drop_Cons')
    ultimately show ?thesis using eq by simp
  qed
qed

lemma parse_http_request_Some:
  assumes "parse_http_request c = (Inr (Some req), c')"
  shows "cn_in c = rq_raw_header req @ cn_in c'" "cn_out c' = cn_out c" "cn_end c' = cn_end c"
    "find_sub crlf2 (rq_raw_header req) = Some (length (rq_raw_header req) - 4)"
    "4 \<le> length (rq_raw_header req)" "length (rq_raw_header req) \<le> MAX_HEADER_BYTES + 1"
    "parse_request_head (rq_raw_header req) = Inr req"
proof -
  obtain b where h: "read_header [] c = (Inr (Some b), c')" and p: "parse_request_head b = Inr req"
    using assms by (auto simp: parse_http_request_def split: prod.splits sum.splits option.splits)
  have r: "rq_raw_header req = b"
    using p by (auto simp: parse_request_head_def Let_def split: list.splits)
  have "find_sub crlf2 [] = None" by (simp add: crlf2_def)
  from read_header_Some [OF h this] r p
  show "cn_in c = rq_raw_header req @ cn_in c'" "cn_out c' = cn_out c" "cn_end c' = cn_end c"
    "find_sub crlf2 (rq_raw_header req) = Some (length (rq_raw_header req) - 4)"
    "4 \<le> length (rq_raw_header req)" "length (rq_raw_header req) \<le> MAX_HEADER_BYTES + 1"
    "parse_request_head (rq_raw_header req) = Inr req" by auto
qed

section \<open>Fixed-length bodies\<close>

lemma relay_fixed_Inr:
  "relay_fixed r w n = (Inr u, r', w') \<Longrightarrow>
     n \<le> length (cn_in r) \<and> cn_in r' = drop n (cn_in r) \<and> cn_out w' = cn_out w @ take n (cn_in r)
     \<and> cn_out r' = cn_out r \<and> cn_in w' = cn_in w \<and> cn_end r' = cn_end r"
proof (induction r w n rule: relay_fixed.induct)
  case (1 r w n)
  show ?case
  proof (cases "n = 0")
    case True
    then show ?thesis using 1(2) by (simp add: relay_fixed.simps)
  next
    case False
    obtain x r1 w1 where p: "pump (min n RELAY_BUF_SIZE) r w = (x, r1, w1)" by (metis prod_cases3)
    obtain bs where bs: "x = Inr bs" "bs \<noteq> []"
      and rec: "relay_fixed r1 w1 (n - length bs) = (Inr u, r', w')"
      using 1(2) False p by (auto simp: relay_fixed.simps [of r w n] split: sum.splits if_splits)
    from 1(1) [OF False p [symmetric] bs(1) refl bs(2) rec] pump_Inr [OF p [unfolded bs(1)]]
    show ?thesis by auto
  qed
qed

lemma relay_fixed_total:
  assumes "writable w" "cn_end r = Eof"
  shows "fst (relay_fixed r w n) = Inr () \<longleftrightarrow> n \<le> length (cn_in r)"
  using assms
proof (induction r w n rule: relay_fixed.induct)
  case (1 r w n)
  show ?case
  proof (cases "n = 0")
    case False
    then have "0 < min n RELAY_BUF_SIZE" by (simp add: RELAY_BUF_SIZE_def)
    then obtain bs r1 w1 where p: "pump (min n RELAY_BUF_SIZE) r w = (Inr bs, r1, w1)"
      and w1: "writable w1" "bs = [] \<longleftrightarrow> cn_in r = []" "cn_end r1 = Eof"
      by (metis pump_writable [OF 1(2) _ 1(3)])
    show ?thesis
    proof (cases "bs = []")
      case True
      then show ?thesis using p w1 False by (simp add: relay_fixed.simps [of r w n])
    next
      case ne: False
      from 1(1) [OF False p [symmetric] refl refl ne w1(1,3)] pump_Inr(1,3) [OF p] ne False p
      show ?thesis by (simp add: relay_fixed.simps [of r w n]) linarith
    qed
  qed (simp add: relay_fixed.simps)
qed

section \<open>Chunked bodies\<close>

text \<open>The bytes a reader has not parsed yet: the rest of its buffer and the rest of the stream.\<close>

abbreviation unparsed :: "conn \<Rightarrow> bytes \<Rightarrow> nat \<Rightarrow> bytes" where
  "unparsed r buf pos \<equiv> drop pos buf @ cn_in r"

text \<open>Bytes moved from the one stream to the other, and nothing else changed.\<close>

definition moved :: "bytes \<Rightarrow> conn \<Rightarrow> conn \<Rightarrow> conn \<Rightarrow> conn \<Rightarrow> bool" where
  "moved bs r w r' w' \<longleftrightarrow> cn_in r = bs @ cn_in r' \<and> cn_out w' = cn_out w @ bs
     \<and> cn_out r' = cn_out r \<and> cn_in w' = cn_in w \<and> cn_end r' = cn_end r"

lemma moved_Nil [simp]: "moved [] r w r w"
  by (simp add: moved_def)

lemma moved_append: "moved as r w r1 w1 \<Longrightarrow> moved bs r1 w1 r' w' \<Longrightarrow> moved (as @ bs) r w r' w'"
  by (simp add: moved_def)

lemma fill_line_scan:
  assumes "fill_line eof r w buf pos = (Inr (e, buf'), r', w')" "pos \<le> length buf"
  obtains bs where "moved bs r w r' w'" "length buf' = length buf + length bs"
    "unparsed r' buf' pos = unparsed r buf pos" "find_sub crlf (unparsed r buf pos) = Some (e - pos)"
    "pos \<le> e" "e + 2 \<le> length buf'" "take (e - pos) (unparsed r buf pos) = take (e - pos) (drop pos buf')"
    "drop (e - pos + 2) (unparsed r buf pos) = unparsed r' buf' (e + 2)"
proof -
  from fill_line_Inr [OF assms(1)] obtain bs where b: "buf' = buf @ bs" "cn_in r = bs @ cn_in r'"
    and o: "cn_out w' = cn_out w @ bs" and f: "find_crlf buf' pos = Some e"
    and m: "cn_out r' = cn_out r" "cn_in w' = cn_in w" "cn_end r' = cn_end r" by blast
  have u: "unparsed r' buf' pos = unparsed r buf pos" using b assms(2) by simp
  have le: "pos \<le> e" "e + 2 \<le> length buf'" using find_crlf_Some [OF f] by auto
  have "find_sub crlf (drop pos buf') = Some (e - pos)"
    using f by (auto simp: find_crlf_def split: if_splits)
  then have fs: "find_sub crlf (unparsed r' buf' pos) = Some (e - pos)" by (rule find_sub_append_Some)
  have "take (e - pos) (unparsed r' buf' pos) = take (e - pos) (drop pos buf')"
    "drop (e - pos + 2) (unparsed r' buf' pos) = unparsed r' buf' (e + 2)" using le by auto
  then show thesis
    using that [of bs] b(1) le fs u unfolding moved_def by (simp only: b(2) o m length_append u)
qed

lemma fill_to_scan:
  assumes "fill_to eof r w buf n = (Inr buf', r', w')" "pos \<le> length buf"
  obtains bs where "moved bs r w r' w'" "length buf' = length buf + length bs"
    "unparsed r' buf' pos = unparsed r buf pos" "n \<le> length buf'"
proof -
  from fill_to_Inr [OF assms(1)] show thesis using that assms(2) by (fastforce simp: moved_def)
qed

lemma relay_trailers_Inr:
  "relay_trailers r w buf pos = (Inr u, r', w') \<Longrightarrow> pos \<le> length buf \<Longrightarrow>
     \<exists>bs n. moved bs r w r' w' \<and> trailer_scan (unparsed r buf pos) = Some n
       \<and> n \<le> length buf - pos + length bs"
proof (induction r w buf pos rule: relay_trailers.induct)
  case (1 r w buf pos)
  let ?eof = "''Chunked body ended before trailer terminator''"
  obtain x r1 w1 where x: "fill_line ?eof r w buf pos = (x, r1, w1)" by (metis prod_cases3)
  then obtain e buf1 where f: "fill_line ?eof r w buf pos = (Inr (e, buf1), r1, w1)"
    using 1(2) by (cases x) (auto simp: relay_trailers.simps [of r w buf pos])
  from fill_line_scan [OF f 1(3)] obtain bs where bs: "moved bs r w r1 w1"
    "length buf1 = length buf + length bs" and fs: "find_sub crlf (unparsed r buf pos) = Some (e - pos)"
    and le: "pos \<le> e" "e + 2 \<le> length buf1"
    and dr: "drop (e - pos + 2) (unparsed r buf pos) = unparsed r1 buf1 (e + 2)" by metis
  show ?case
  proof (cases "e = pos")
    case True
    then have "r' = r1" "w' = w1" using 1(2) f by (auto simp: relay_trailers.simps [of r w buf pos])
    moreover have "trailer_scan (unparsed r buf pos) = Some 2"
      using fs True by (simp add: trailer_scan.simps)
    ultimately show ?thesis using bs le True by (intro exI [of _ bs] exI [of _ 2]) auto
  next
    case False
    then have "relay_trailers r1 w1 buf1 (e + 2) = (Inr u, r', w')"
      using 1(2) f by (auto simp: relay_trailers.simps [of r w buf pos])
    from 1(1) [OF f [symmetric] refl refl refl False this le(2)] obtain cs n
      where "moved cs r1 w1 r' w'" "trailer_scan (unparsed r1 buf1 (e + 2)) = Some n"
        "n \<le> length buf1 - (e + 2) + length cs" by blast
    moreover from this False le fs dr have "trailer_scan (unparsed r buf pos) = Some (e - pos + 2 + n)"
      by (subst trailer_scan.simps) simp
    ultimately show ?thesis
      using bs le by (intro exI [of _ "bs @ cs"] exI [of _ "e - pos + 2 + n"]) (auto intro: moved_append)
  qed
qed

lemma chunk_size_of_utf8: "chunk_size_of l = Some sz \<Longrightarrow> from_utf8 l \<noteq> None"
  by (cases "from_utf8 l") (auto simp: chunk_size_of_def)

text \<open>One round of the chunk loop after its size line.\<close>

lemma relay_chunked_loop_round:
  assumes "fill_line ''Chunked body ended before chunk-size line'' r w buf pos = (Inr (e, buf1), r1, w1)"
    and "chunk_size_of (take (e - pos) (drop pos buf1)) = Some sz"
  shows "relay_chunked_loop r w buf pos =
    (if sz = 0 then relay_trailers r1 w1 buf1 (e + 2)
     else if 2 ^ 64 \<le> e + 2 + sz + 2 then (Inl ''Chunk size overflow'', r1, w1)
     else case fill_to ''Chunked body ended mid-chunk'' r1 w1 buf1 (e + 2 + sz + 2) of
            (Inl m, r2, w2) \<Rightarrow> (Inl m, r2, w2)
          | (Inr buf2, r2, w2) \<Rightarrow>
              (if take 2 (drop (e + 2 + sz) buf2) \<noteq> crlf then (Inl ''Chunk missing terminating CRLF'', r2, w2)
               else case drained buf2 (e + 2 + sz + 2) of (buf3, pos3) \<Rightarrow> relay_chunked_loop r2 w2 buf3 pos3))"
proof -
  have b: "Option.bind (checked_add_usize (e + 2) sz) (\<lambda>x. checked_add_usize x 2) =
      (if 2 ^ 64 \<le> e + 2 + sz + 2 then None else Some (e + 2 + sz + 2))"
    by (simp add: checked_add_usize_def)
  show ?thesis
    unfolding relay_chunked_loop.simps [of r w buf pos] assms(1)
    using assms(2) chunk_size_of_utf8 [OF assms(2)]
    by (simp only: Let_def b prod.case sum.case option.case if_False if_True split: if_split) auto
qed

lemma relay_chunked_loop_Inr:
  "relay_chunked_loop r w buf pos = (Inr u, r', w') \<Longrightarrow> pos \<le> length buf \<Longrightarrow>
     \<exists>bs body n. moved bs r w r' w' \<and> chunk_scan (unparsed r buf pos) = Some (body, n)
       \<and> n \<le> length buf - pos + length bs"
proof (induction "length (unparsed r buf pos)" arbitrary: r w buf pos rule: less_induct)
  case less
  let ?eof = "''Chunked body ended before chunk-size line''"
  obtain x r1 w1 where x: "fill_line ?eof r w buf pos = (x, r1, w1)" by (metis prod_cases3)
  then obtain e buf1 where f: "fill_line ?eof r w buf pos = (Inr (e, buf1), r1, w1)"
    using less(2) by (cases x) (auto simp: relay_chunked_loop.simps [of r w buf pos])
  from fill_line_scan [OF f less(3)] obtain bs where bs: "moved bs r w r1 w1"
    "length buf1 = length buf + length bs" and fs: "find_sub crlf (unparsed r buf pos) = Some (e - pos)"
    and le: "pos \<le> e" "e + 2 \<le> length buf1"
    and tk: "take (e - pos) (unparsed r buf pos) = take (e - pos) (drop pos buf1)"
    and dr: "drop (e - pos + 2) (unparsed r buf pos) = unparsed r1 buf1 (e + 2)" by metis
  obtain sz where z: "chunk_size_of (take (e - pos) (drop pos buf1)) = Some sz"
    using less(2) f
    by (cases "chunk_size_of (take (e - pos) (drop pos buf1))")
      (auto simp: relay_chunked_loop.simps [of r w buf pos] Let_def split: if_splits)
  note round = relay_chunked_loop_round [OF f z]
  show ?case
  proof (cases "sz = 0")
    case True
    then have "relay_trailers r1 w1 buf1 (e + 2) = (Inr u, r', w')" using less(2) round by simp
    from relay_trailers_Inr [OF this le(2)] obtain cs n where cs: "moved cs r1 w1 r' w'"
      "trailer_scan (unparsed r1 buf1 (e + 2)) = Some n" "n \<le> length buf1 - (e + 2) + length cs" by auto
    then have "chunk_scan (unparsed r buf pos) = Some ([], e - pos + 2 + n)"
      using fs z True tk dr by (subst chunk_scan.simps) simp
    moreover have "e - pos + 2 + n \<le> length buf - pos + length (bs @ cs)"
      using cs(3) bs(2) le less(3) by simp
    ultimately show ?thesis using moved_append [OF bs(1) cs(1)] by blast
  next
    case False
    let ?q = "e + 2 + sz + 2"
    obtain y r2 w2 where y: "fill_to ''Chunked body ended mid-chunk'' r1 w1 buf1 ?q = (y, r2, w2)"
      by (metis prod_cases3)
    with False less(2) round obtain buf2 where b2: "y = Inr buf2"
      and cr: "take 2 (drop (e + 2 + sz) buf2) = crlf"
      by (cases y) (auto split: if_splits)
    obtain buf3 pos3 where d: "drained buf2 ?q = (buf3, pos3)" by force
    have rec: "relay_chunked_loop r2 w2 buf3 pos3 = (Inr u, r', w')"
      using False less(2) round y b2 cr d by (auto split: if_splits)
    from fill_to_scan [OF y [unfolded b2] le(2)] obtain cs where cs: "moved cs r1 w1 r2 w2"
      "length buf2 = length buf1 + length cs" "unparsed r2 buf2 (e + 2) = unparsed r1 buf1 (e + 2)"
      "?q \<le> length buf2" by metis
    have p3: "length buf3 - pos3 = length buf2 - ?q" "pos3 \<le> length buf3"
      using drained_length [OF d cs(4)] by auto
    have u3: "unparsed r2 buf3 pos3 = drop (sz + 2) (unparsed r1 buf1 (e + 2))"
      unfolding cs(3) [symmetric] drained_drop [OF d] using cs(4) by (simp add: add.commute)
    have len: "length (unparsed r2 buf3 pos3) < length (unparsed r buf pos)"
      using find_sub_Some_bound [OF fs] unfolding u3 dr [symmetric] length_drop length_crlf
      by linarith
    from less(1) [OF len rec p3(2)] obtain ds body n where ds: "moved ds r2 w2 r' w'"
      "chunk_scan (unparsed r2 buf3 pos3) = Some (body, n)" "n \<le> length buf3 - pos3 + length ds" by blast
    have "take 2 (drop sz (unparsed r1 buf1 (e + 2))) = crlf" "\<not> length (unparsed r1 buf1 (e + 2)) < sz + 2"
      unfolding cs(3) [symmetric] using cr cs(4) by (auto simp: add.commute)
    then have "chunk_scan (unparsed r buf pos) =
        Some (take sz (unparsed r1 buf1 (e + 2)) @ body, e - pos + 2 + (sz + 2) + n)"
      using fs z False tk dr ds(2) u3 by (subst chunk_scan.simps) simp
    moreover have "e - pos + 2 + (sz + 2) + n \<le> length buf - pos + length (bs @ cs @ ds)"
      using ds(3) p3(1) cs(2,4) bs(2) le less(3) by simp
    ultimately show ?thesis using moved_append [OF bs(1) moved_append [OF cs(1) ds(1)]] by blast
  qed
qed

text \<open>A sound sender and receiver: filling fails only where the stream ends too early.\<close>

lemma fill_line_total_ok:
  assumes "writable w" "cn_end r = Eof" "pos \<le> length buf" "find_sub crlf (unparsed r buf pos) = Some i"
  shows "\<exists>buf' r' w'. fill_line eof r w buf pos = (Inr (pos + i, buf'), r', w') \<and> writable w'"
  using assms
proof (induction eof r w buf pos rule: fill_line.induct)
  case (1 eof r w buf pos)
  show ?case
  proof (cases "find_crlf buf pos")
    case (Some e)
    then have "find_sub crlf (drop pos buf) = Some (e - pos)" "pos \<le> e"
      by (auto simp: find_crlf_def split: if_splits)
    from find_sub_append_Some [OF this(1), of "cn_in r"] this(2) have "e = pos + i" using 1(5) by simp
    then show ?thesis using Some 1(2) by (simp add: fill_line.simps [of eof r w buf pos])
  next
    case None
    have "0 < RELAY_BUF_SIZE" by (simp add: RELAY_BUF_SIZE_def)
    then obtain bs r1 w1 where p: "pump RELAY_BUF_SIZE r w = (Inr bs, r1, w1)"
      and w1: "writable w1" "bs = [] \<longleftrightarrow> cn_in r = []" "cn_end r1 = Eof"
      by (metis pump_writable [OF 1(2) _ 1(3)])
    have "find_sub crlf (drop pos buf) = None" using None 1(4) by (auto simp: find_crlf_def)
    then have ne: "bs \<noteq> []" using 1(5) w1(2) by auto
    have u: "find_sub crlf (unparsed r1 (buf @ bs) pos) = Some i"
      using 1(4,5) pump_Inr(1) [OF p] by simp
    have "pos \<le> length (buf @ bs)" using 1(4) by simp
    from 1(1) [OF None p [symmetric] refl refl ne w1(1,3) this u]
    show ?thesis using None p ne by (simp add: fill_line.simps [of eof r w buf pos])
  qed
qed

lemma fill_to_total_ok:
  assumes "writable w" "cn_end r = Eof" "n \<le> length buf + length (cn_in r)"
  shows "\<exists>buf' r' w'. fill_to eof r w buf n = (Inr buf', r', w') \<and> writable w'"
  using assms
proof (induction eof r w buf n rule: fill_to.induct)
  case (1 eof r w buf n)
  show ?case
  proof (cases "n \<le> length buf")
    case True
    then show ?thesis using 1(2) by (simp add: fill_to.simps [of eof r w buf n])
  next
    case False
    have "0 < RELAY_BUF_SIZE" by (simp add: RELAY_BUF_SIZE_def)
    then obtain bs r1 w1 where p: "pump RELAY_BUF_SIZE r w = (Inr bs, r1, w1)"
      and w1: "writable w1" "bs = [] \<longleftrightarrow> cn_in r = []" "cn_end r1 = Eof"
      by (metis pump_writable [OF 1(2) _ 1(3)])
    have ne: "bs \<noteq> []" using 1(4) w1(2) False by auto
    have "n \<le> length (buf @ bs) + length (cn_in r1)" using 1(4) pump_Inr(1) [OF p] by simp
    from 1(1) [OF False p [symmetric] refl refl ne w1(1,3) this]
    show ?thesis using False p ne by (simp add: fill_to.simps [of eof r w buf n])
  qed
qed

lemma relay_trailers_ok:
  assumes "writable w" "cn_end r = Eof" "pos \<le> length buf" "trailer_scan (unparsed r buf pos) = Some n"
  shows "fst (relay_trailers r w buf pos) = Inr ()"
  using assms
proof (induction r w buf pos arbitrary: n rule: relay_trailers.induct)
  case (1 r w buf pos)
  let ?eof = "''Chunked body ended before trailer terminator''"
  obtain i where i: "find_sub crlf (unparsed r buf pos) = Some i"
    using 1(5) by (subst (asm) trailer_scan.simps) (auto split: option.splits)
  from fill_line_total_ok [OF 1(2-4) i, of ?eof] obtain buf1 r1 w1
    where f: "fill_line ?eof r w buf pos = (Inr (pos + i, buf1), r1, w1)" and w1: "writable w1" by blast
  show ?case
  proof (cases "i = 0")
    case True
    then show ?thesis using f by (simp add: relay_trailers.simps [of r w buf pos])
  next
    case False
    from fill_line_scan [OF f 1(4)] obtain bs where m: "moved bs r w r1 w1" and le: "pos + i + 2 \<le> length buf1"
      and dr: "drop (pos + i - pos + 2) (unparsed r buf pos) = unparsed r1 buf1 (pos + i + 2)" by metis
    obtain n' where n': "trailer_scan (unparsed r1 buf1 (pos + i + 2)) = Some n'"
      using 1(5) i False dr by (subst (asm) trailer_scan.simps) auto
    have "cn_end r1 = Eof" "pos + i \<noteq> pos" using m 1(3) False by (auto simp: moved_def)
    from 1(1) [OF f [symmetric] refl refl refl this(2) w1 this(1) le n'] False f
    show ?thesis by (simp add: relay_trailers.simps [of r w buf pos])
  qed
qed

lemma relay_chunked_loop_ok:
  assumes "writable w" "cn_end r = Eof" "pos \<le> length buf" "chunk_scan (unparsed r buf pos) = Some (body, n)"
    and "length buf + length (cn_in r) < 2 ^ 63"
  shows "fst (relay_chunked_loop r w buf pos) = Inr ()"
  using assms
proof (induction "length (unparsed r buf pos)" arbitrary: r w buf pos body n rule: less_induct)
  case less
  let ?eof = "''Chunked body ended before chunk-size line''"
  obtain i sz where i: "find_sub crlf (unparsed r buf pos) = Some i"
    and z0: "chunk_size_of (take i (unparsed r buf pos)) = Some sz"
    using less(5) by (subst (asm) chunk_scan.simps) (auto split: option.splits)
  from fill_line_total_ok [OF less(2-4) i, of ?eof] obtain buf1 r1 w1
    where f: "fill_line ?eof r w buf pos = (Inr (pos + i, buf1), r1, w1)" and w1: "writable w1" by blast
  from fill_line_scan [OF f less(4)] obtain bs where m: "moved bs r w r1 w1"
    "length buf1 = length buf + length bs" and le: "pos + i + 2 \<le> length buf1"
    and tk: "take (pos + i - pos) (unparsed r buf pos) = take (pos + i - pos) (drop pos buf1)"
    and dr: "drop (pos + i - pos + 2) (unparsed r buf pos) = unparsed r1 buf1 (pos + i + 2)" by metis
  have z: "chunk_size_of (take (pos + i - pos) (drop pos buf1)) = Some sz" using z0 tk by simp
  have eo: "cn_end r1 = Eof" using m less(3) by (simp add: moved_def)
  note round = relay_chunked_loop_round [OF f z]
  show ?case
  proof (cases "sz = 0")
    case True
    then obtain t where "trailer_scan (unparsed r1 buf1 (pos + i + 2)) = Some t"
      using less(5) i z0 dr by (subst (asm) chunk_scan.simps) auto
    from relay_trailers_ok [OF w1 eo le this] round True show ?thesis by simp
  next
    case False
    let ?q = "pos + i + 2 + sz + 2"
    obtain b n' where cr: "take 2 (drop sz (unparsed r1 buf1 (pos + i + 2))) = crlf"
      and l: "sz + 2 \<le> length (unparsed r1 buf1 (pos + i + 2))"
      and rec: "chunk_scan (drop (sz + 2) (unparsed r1 buf1 (pos + i + 2))) = Some (b, n')"
      using chunk_scan_data [OF less(5) i z0 False, unfolded dr [unfolded add_diff_cancel_left']] by blast
    have len: "length buf1 + length (cn_in r1) = length buf + length (cn_in r)" using m by (simp add: moved_def)
    have q: "?q \<le> length buf1 + length (cn_in r1)" using l le by simp
    have "\<not> 2 ^ 64 \<le> ?q" using q len less(6) by simp
    moreover from fill_to_total_ok [OF w1 eo q] obtain buf2 r2 w2
      where f2: "fill_to ''Chunked body ended mid-chunk'' r1 w1 buf1 ?q = (Inr buf2, r2, w2)" and w2: "writable w2"
      by blast
    moreover from fill_to_scan [OF f2 le] obtain cs where cs: "moved cs r1 w1 r2 w2"
      "length buf2 = length buf1 + length cs"
      "unparsed r2 buf2 (pos + i + 2) = unparsed r1 buf1 (pos + i + 2)" "?q \<le> length buf2" by metis
    moreover have "take 2 (drop (pos + i + 2 + sz) buf2) = crlf"
      using cr cs(4) unfolding cs(3) [symmetric] by (simp add: add.commute)
    ultimately have step: "relay_chunked_loop r w buf pos =
        (case drained buf2 ?q of (buf3, pos3) \<Rightarrow> relay_chunked_loop r2 w2 buf3 pos3)"
      using round False by simp
    obtain buf3 pos3 where d: "drained buf2 ?q = (buf3, pos3)" by force
    have u3: "unparsed r2 buf3 pos3 = drop (sz + 2) (unparsed r1 buf1 (pos + i + 2))"
      unfolding cs(3) [symmetric] drained_drop [OF d] using cs(4) by (simp add: add.commute)
    have shorter: "length (unparsed r2 buf3 pos3) < length (unparsed r buf pos)"
      using find_sub_Some_bound [OF i] unfolding u3 dr [symmetric] length_drop length_crlf by linarith
    have "cn_end r2 = Eof" using cs(1) eo by (simp add: moved_def)
    moreover have "pos3 \<le> length buf3" "length buf3 + length (cn_in r2) < 2 ^ 63"
      using drained_length [OF d cs(4)] cs(1,2) len less(6) by (auto simp: moved_def)
    ultimately show ?thesis
      using less(1) [OF shorter w2 _ _ rec [folded u3]] step d by simp
  qed
qed

section \<open>Whatever happens\<close>

text \<open>Also on an error the relays only move bytes: what reaches the writer is a prefix of what was
  taken from the reader.\<close>

definition part_moved :: "bytes \<Rightarrow> conn \<Rightarrow> conn \<Rightarrow> conn \<Rightarrow> conn \<Rightarrow> bool" where
  "part_moved bs r w r' w' \<longleftrightarrow> cn_in r = bs @ cn_in r' \<and> (\<exists>k. cn_out w' = cn_out w @ take k bs)
     \<and> cn_out r' = cn_out r \<and> cn_in w' = cn_in w"

lemma moved_is_part: "moved bs r w r' w' \<Longrightarrow> part_moved bs r w r' w'"
  by (auto simp: moved_def part_moved_def intro: exI [of _ "length bs"])

lemma moved_part:
  assumes "moved as r w r1 w1" "part_moved bs r1 w1 r' w'"
  shows "part_moved (as @ bs) r w r' w'"
proof -
  obtain k where "cn_out w' = cn_out w1 @ take k bs" using assms(2) by (auto simp: part_moved_def)
  then have "cn_out w' = cn_out w @ take (length as + k) (as @ bs)" using assms(1) by (simp add: moved_def)
  moreover have "cn_in r = (as @ bs) @ cn_in r'" "cn_out r' = cn_out r" "cn_in w' = cn_in w"
    using assms by (auto simp: moved_def part_moved_def)
  ultimately show ?thesis unfolding part_moved_def by blast
qed

lemma pump_part: "pump k r w = (x, r', w') \<Longrightarrow> \<exists>bs. part_moved bs r w r' w' \<and> length bs \<le> k \<and> (\<forall>y. x = Inr y \<longrightarrow> moved y r w r' w')"
proof -
  assume p: "pump k r w = (x, r', w')"
  show ?thesis
  proof (cases x)
    case (Inr y)
    have "moved y r w r' w'" "length y \<le> k" using pump_Inr [OF p [unfolded Inr]] by (auto simp: moved_def)
    then show ?thesis using Inr moved_is_part by blast
  next
    case (Inl e)
    obtain y r1 where y: "conn_read k r = (y, r1)" by force
    have "\<exists>bs. length bs \<le> k \<and> cn_in r = bs @ cn_in r' \<and> (\<exists>n. cn_out w' = cn_out w @ take n bs)"
    proof (cases y)
      case (Inl e)
      then show ?thesis using p y conn_read_Inl(1) [of k r e r1] by (auto simp: pump_def)
    next
      case (Inr bs)
      then show ?thesis
        using p y conn_read_Inr(1,2) [of k r bs r1] conn_write_out(1) [of bs w]
        by (fastforce simp: pump_def split: if_splits sum.splits prod.splits)
    qed
    then show ?thesis using pump_moves(2,3) [OF p] Inl by (auto simp: part_moved_def)
  qed
qed

lemma fill_line_part: "fill_line eof r w buf pos = (x, r', w') \<Longrightarrow> \<exists>bs. part_moved bs r w r' w'"
proof (induction eof r w buf pos rule: fill_line.induct)
  case (1 eof r w buf pos)
  obtain y r1 w1 where p: "pump RELAY_BUF_SIZE r w = (y, r1, w1)" by (metis prod_cases3)
  from pump_part [OF p] obtain bs where bs: "part_moved bs r w r1 w1" "\<forall>z. y = Inr z \<longrightarrow> moved z r w r1 w1" by blast
  show ?case
    using 1(2) bs p moved_is_part [OF moved_Nil, of r w]
    by (auto simp: fill_line.simps [of eof r w buf pos] split: option.splits sum.splits if_splits
        dest!: 1(1) [OF _ p [symmetric] _ refl] intro: moved_part)
qed

lemma fill_to_part: "fill_to eof r w buf n = (x, r', w') \<Longrightarrow> \<exists>bs. part_moved bs r w r' w'"
proof (induction eof r w buf n rule: fill_to.induct)
  case (1 eof r w buf n)
  obtain y r1 w1 where p: "pump RELAY_BUF_SIZE r w = (y, r1, w1)" by (metis prod_cases3)
  from pump_part [OF p] obtain bs where bs: "part_moved bs r w r1 w1" "\<forall>z. y = Inr z \<longrightarrow> moved z r w r1 w1" by blast
  show ?case
    using 1(2) bs p moved_is_part [OF moved_Nil, of r w]
    by (auto simp: fill_to.simps [of eof r w buf n] split: sum.splits if_splits
        dest!: 1(1) [OF _ p [symmetric] _ refl] intro: moved_part)
qed

lemma fill_line_moved:
  assumes "fill_line eof r w buf pos = (Inr (e, buf'), r', w')"
  obtains bs where "moved bs r w r' w'"
  using fill_line_Inr [OF assms] by (auto simp: moved_def)

lemma fill_to_moved:
  assumes "fill_to eof r w buf n = (Inr buf', r', w')"
  obtains bs where "moved bs r w r' w'"
  using fill_to_Inr [OF assms] by (auto simp: moved_def)

lemma relay_fixed_part:
  "relay_fixed r w n = (x, r', w') \<Longrightarrow> \<exists>bs. part_moved bs r w r' w' \<and> length bs \<le> n"
proof (induction r w n rule: relay_fixed.induct)
  case (1 r w n)
  show ?case
  proof (cases "n = 0")
    case True
    then show ?thesis using 1(2) moved_is_part [OF moved_Nil] by (auto simp: relay_fixed.simps)
  next
    case False
    obtain y r1 w1 where p: "pump (min n RELAY_BUF_SIZE) r w = (y, r1, w1)" by (metis prod_cases3)
    from pump_part [OF p] obtain bs where bs: "part_moved bs r w r1 w1" "length bs \<le> n"
      and m: "\<forall>z. y = Inr z \<longrightarrow> moved z r w r1 w1" by auto
    show ?thesis
    proof (cases "\<exists>z. y = Inr z \<and> z \<noteq> []")
      case True
      then obtain z where z: "y = Inr z" "z \<noteq> []" by blast
      then have "relay_fixed r1 w1 (n - length z) = (x, r', w')"
        using 1(2) False p by (simp add: relay_fixed.simps [of r w n])
      from 1(1) [OF False p [symmetric] z(1) refl z(2) this] obtain cs
        where "part_moved cs r1 w1 r' w'" "length cs \<le> n - length z" by blast
      moreover have "length z \<le> n" using pump_Inr(3) [OF p [unfolded z(1)]] by simp
      ultimately show ?thesis using m z moved_part [of z r w r1 w1 cs r' w'] by (intro exI [of _ "z @ cs"]) auto
    next
      case no: False
      then have "r' = r1" "w' = w1"
        using 1(2) False p by (auto simp: relay_fixed.simps [of r w n] split: sum.splits if_splits)
      then show ?thesis using bs by blast
    qed
  qed
qed

lemma relay_trailers_part:
  "relay_trailers r w buf pos = (x, r', w') \<Longrightarrow> \<exists>bs. part_moved bs r w r' w'"
proof (induction r w buf pos rule: relay_trailers.induct)
  case (1 r w buf pos)
  let ?eof = "''Chunked body ended before trailer terminator''"
  obtain y r1 w1 where f: "fill_line ?eof r w buf pos = (y, r1, w1)" by (metis prod_cases3)
  show ?case
  proof (cases y)
    case (Inl e)
    then show ?thesis using 1(2) f fill_line_part [OF f] by (auto simp: relay_trailers.simps [of r w buf pos])
  next
    case (Inr eb)
    obtain e buf1 where eb: "eb = (e, buf1)" by force
    note f = f [unfolded Inr eb]
    obtain bs where bs: "moved bs r w r1 w1" by (rule fill_line_moved [OF f])
    show ?thesis
    proof (cases "e = pos")
      case True
      then show ?thesis using 1(2) f moved_is_part [OF bs] by (auto simp: relay_trailers.simps [of r w buf pos])
    next
      case False
      then have "relay_trailers r1 w1 buf1 (e + 2) = (x, r', w')"
        using 1(2) f by (simp add: relay_trailers.simps [of r w buf pos])
      from 1(1) [OF f [symmetric] refl refl refl False this] moved_part [OF bs] show ?thesis by blast
    qed
  qed
qed

lemma relay_chunked_loop_part:
  "relay_chunked_loop r w buf pos = (x, r', w') \<Longrightarrow> \<exists>bs. part_moved bs r w r' w'"
proof (induction "length (cn_in r) + length buf - pos" arbitrary: r w buf pos rule: less_induct)
  case less
  let ?eof = "''Chunked body ended before chunk-size line''"
  obtain y r1 w1 where f: "fill_line ?eof r w buf pos = (y, r1, w1)" by (metis prod_cases3)
  show ?case
  proof (cases y)
    case (Inl e)
    then show ?thesis using less(2) f fill_line_part [OF f] by (auto simp: relay_chunked_loop.simps [of r w buf pos])
  next
    case (Inr eb)
    obtain e buf1 where eb: "eb = (e, buf1)" by force
    note f = f [unfolded Inr eb]
    obtain bs where bs: "moved bs r w r1 w1" by (rule fill_line_moved [OF f])
    show ?thesis
    proof (cases "chunk_size_of (take (e - pos) (drop pos buf1))")
      case None
      then have "r' = r1" "w' = w1"
        using less(2) f by (auto simp: relay_chunked_loop.simps [of r w buf pos] Let_def split: if_splits)
      then show ?thesis using moved_is_part [OF bs] by blast
    next
      case (Some sz)
      note round = relay_chunked_loop_round [OF f Some]
      let ?q = "e + 2 + sz + 2"
      obtain z r2 w2 where g: "fill_to ''Chunked body ended mid-chunk'' r1 w1 buf1 ?q = (z, r2, w2)"
        by (metis prod_cases3)
      from fill_to_part [OF g] obtain cs where cs: "part_moved cs r1 w1 r2 w2" by blast
      consider (trailers) "relay_trailers r1 w1 buf1 (e + 2) = (x, r', w')"
        | (overflow) "r' = r1" "w' = w1" | (stop) "r' = r2" "w' = w2"
        | (again) buf2 buf3 pos3 where "z = Inr buf2" "drained buf2 ?q = (buf3, pos3)" "?q < 2 ^ 64"
            "relay_chunked_loop r2 w2 buf3 pos3 = (x, r', w')"
        using less(2) round g
        by (cases z) (auto split: if_splits prod.splits)
      then show ?thesis
      proof cases
        case trailers
        from relay_trailers_part [OF this] moved_part [OF bs] show ?thesis by blast
      next
        case overflow
        then show ?thesis using moved_is_part [OF bs] by blast
      next
        case stop
        then show ?thesis using moved_part [OF bs cs] by blast
      next
        case again
        obtain ds where ds: "moved ds r1 w1 r2 w2" by (rule fill_to_moved [OF g [unfolded again(1)]])
        have "Option.bind (checked_add_usize (e + 2) sz) (\<lambda>x. checked_add_usize x 2) = Some ?q"
          using again(3) unfolding chunk_end_Some by simp
        from less(1) [OF relay_chunked_shrinks [OF f [symmetric] this g [symmetric, unfolded again(1)]
              again(2) [symmetric]] again(4)]
        show ?thesis using moved_part [OF bs] moved_part [OF ds] by blast
      qed
    qed
  qed
qed

text \<open>A last chunk and what follows it, all arriving in one read.\<close>

lemma relay_last_chunk:
  assumes "length tail \<le> 8187"
  shows "relay_chunked (fresh_conn (''0'' @ crlf2 @ tail) []) (fresh_conn [] []) [] =
    (Inr (), fresh_conn [] [], (fresh_conn [] [])\<lparr>cn_out := ''0'' @ crlf2 @ tail\<rparr>)"
proof -
  let ?s = "''0'' @ crlf2 @ tail"
  let ?r = "fresh_conn [] []" and ?w = "(fresh_conn [] [])\<lparr>cn_out := ?s\<rparr>"
  have p: "pump RELAY_BUF_SIZE (fresh_conn ?s []) (fresh_conn [] []) = (Inr ?s, ?r, ?w)"
    using assms
    by (simp add: pump_def conn_read_def read_size_def conn_write_def fresh_conn_def RELAY_BUF_SIZE_def crlf2_def)
  have f: "find_crlf [] 0 = None" "find_crlf ?s 0 = Some 1" "find_crlf ?s (1 + 2) = Some (1 + 2)"
    by (simp_all add: find_crlf_def crlf_def crlf2_def starts_with_def)
  have "fill_line eof ?r ?w ?s 0 = (Inr (1, ?s), ?r, ?w)" "fill_line eof ?r ?w ?s (1 + 2) = (Inr (1 + 2, ?s), ?r, ?w)" for eof
    unfolding fill_line.simps [of eof ?r] f by simp_all
  note line = this
  have first: "fill_line eof (fresh_conn ?s []) (fresh_conn [] []) [] 0 = (Inr (1, ?s), ?r, ?w)" for eof
    unfolding fill_line.simps [of eof "fresh_conn ?s []"] f p using line(1) by simp
  have z: "chunk_size_of (take (1 - 0) (drop 0 ?s)) = Some 0" by (simp add: chunk_size_of_zero)
  have "relay_trailers ?r ?w ?s (1 + 2) = (Inr (), ?r, ?w)"
    unfolding relay_trailers.simps [of ?r] line by simp
  then show ?thesis unfolding relay_chunked_def relay_chunked_loop_round [OF first z] by simp
qed

section \<open>Properties\<close>

text \<open>Reading a request takes from the client exactly the bytes up to and including the first
  blank line, at most one more than the header limit, and writes nothing: no byte of a pipelined
  request is taken with the head of the one before it.\<close>

theorem request_head_read_exactly:
  assumes "parse_http_request c = (Inr (Some req), c')"
  shows "cn_in c = rq_raw_header req @ cn_in c'
    \<and> find_sub crlf2 (rq_raw_header req) = Some (length (rq_raw_header req) - 4)
    \<and> length (rq_raw_header req) \<le> MAX_HEADER_BYTES + 1 \<and> cn_out c' = cn_out c"
  using parse_http_request_Some [OF assms] by blast

theorem request_head_read_exactly_witness:
  "cn_in (fresh_conn (''GET / HTTP/1.1'' @ crlf2 @ ''GET /next'') []) =
     (''GET / HTTP/1.1'' @ crlf2) @ ''GET /next''"
proof -
  let ?c = "fresh_conn (''GET / HTTP/1.1'' @ crlf2 @ ''GET /next'') []"
  let ?r = "\<lparr>rq_action = ''GET'', rq_target = ''/'', rq_raw_header = ''GET / HTTP/1.1'' @ crlf2,
      rq_body_length = NoBody\<rparr>"
  have f: "find_sub crlf2 ([] @ cn_in ?c) = Some (length ''GET / HTTP/1.1'')" by code_simp
  have t: "take (length ''GET / HTTP/1.1'' + 4) ([] @ cn_in ?c) = ''GET / HTTP/1.1'' @ crlf2"
    "drop (length ''GET / HTTP/1.1'' + 4 - length ([] :: bytes)) (cn_in ?c) = ''GET /next''" by code_simp+
  from read_header_finds [OF f] t obtain cuts where
    "read_header [] ?c = (Inr (Some (''GET / HTTP/1.1'' @ crlf2)), ?c\<lparr>cn_in := ''GET /next'', cn_cuts := cuts\<rparr>)"
    by (auto simp: MAX_HEADER_BYTES_def)
  moreover have "parse_request_head (''GET / HTTP/1.1'' @ crlf2) = Inr ?r" by code_simp
  ultimately have "parse_http_request ?c = (Inr (Some ?r), ?c\<lparr>cn_in := ''GET /next'', cn_cuts := cuts\<rparr>)"
    by (simp add: parse_http_request_def)
  from request_head_read_exactly [OF this] show ?thesis by (simp add: fresh_conn_def)
qed

text \<open>With a reader that ends cleanly and a writer that accepts, a fixed-length body of \<open>n\<close> bytes
  is relayed exactly, however the reads cut it; a stream with fewer bytes is an error.\<close>

theorem fixed_body_relayed_exactly:
  assumes "writable w" "cn_end r = Eof"
  shows "if n \<le> length (cn_in r)
    then \<exists>r' w'. relay_fixed r w n = (Inr (), r', w') \<and> cn_in r' = drop n (cn_in r)
           \<and> cn_out w' = cn_out w @ take n (cn_in r)
    else \<exists>e. fst (relay_fixed r w n) = Inl e"
proof -
  obtain x r' w' where x: "relay_fixed r w n = (x, r', w')" by (metis prod_cases3)
  show ?thesis
    using relay_fixed_total [OF assms, of n] relay_fixed_Inr [of r w n "()" r' w'] x by (cases x) auto
qed

theorem fixed_body_relayed_exactly_witness:
  "\<exists>r' w'. relay_fixed (fresh_conn ''abcdef'' [1, 2]) (fresh_conn [] []) 4 = (Inr (), r', w')
     \<and> cn_in r' = ''ef'' \<and> cn_out w' = ''abcd''"
  using fixed_body_relayed_exactly [of "fresh_conn [] []" "fresh_conn ''abcdef'' [1, 2]" 4]
  by (simp add: fresh_conn_def writable_def)

text \<open>C36: relaying a chunked body succeeds exactly on the streams that hold a complete chunked body,
  for every way the reads cut the stream.\<close>

theorem chunked_body_accepted_iff_complete:
  assumes "writable w" "cn_end r = Eof" "length already + length (cn_in r) < 2 ^ 63"
  shows "fst (relay_chunked r w already) = Inr () \<longleftrightarrow> chunk_scan (already @ cn_in r) \<noteq> None"
proof -
  obtain x r' w' where x: "relay_chunked_loop r w already 0 = (x, r', w')" by (metis prod_cases3)
  show ?thesis
  proof
    assume "fst (relay_chunked r w already) = Inr ()"
    then have "relay_chunked_loop r w already 0 = (Inr (), r', w')" using x by (simp add: relay_chunked_def)
    from relay_chunked_loop_Inr [OF this] show "chunk_scan (already @ cn_in r) \<noteq> None" by auto
  next
    assume "chunk_scan (already @ cn_in r) \<noteq> None"
    then obtain body n where "chunk_scan (unparsed r already 0) = Some (body, n)" by auto
    from relay_chunked_loop_ok [OF assms(1,2) _ this assms(3)] show "fst (relay_chunked r w already) = Inr ()"
      by (simp add: relay_chunked_def)
  qed
qed

theorem chunked_body_accepted_iff_complete_witness:
  "fst (relay_chunked (fresh_conn (''3'' @ crlf @ ''abc'' @ crlf @ ''0'' @ crlf2) [1, 2, 4]) (fresh_conn [] []) []) = Inr ()"
proof -
  let ?r = "fresh_conn (''3'' @ crlf @ ''abc'' @ crlf @ ''0'' @ crlf2) [1, 2, 4]"
  have "writable (fresh_conn [] [])" "cn_end ?r = Eof" by code_simp+
  moreover have "length ([] :: bytes) + length (cn_in ?r) < 2 ^ 63" by (simp add: fresh_conn_def)
  moreover have "''3'' = show_hex (length ''abc'')"
    by code_simp
  then have "chunk_scan ([] @ cn_in ?r) \<noteq> None"
    using chunk_scan_chunk [of "''abc''" "''0'' @ crlf2"] chunk_scan_last [of "[]"]
    by (simp add: fresh_conn_def)
  ultimately show ?thesis using chunked_body_accepted_iff_complete by blast
qed

text \<open>A chunked body that was relayed lies wholly in the forwarded bytes, and every forwarded byte
  was taken from the reader, in order.\<close>

theorem chunked_body_forwarded:
  assumes "relay_chunked r w already = (Inr (), r', w')"
  shows "\<exists>bs body n. cn_in r = bs @ cn_in r' \<and> cn_out w' = cn_out w @ bs
    \<and> chunk_scan (already @ cn_in r) = Some (body, n) \<and> n \<le> length already + length bs"
  using relay_chunked_loop_Inr [OF assms [unfolded relay_chunked_def]] by (auto simp: moved_def)

theorem chunked_body_forwarded_witness:
  "\<exists>bs body n. ''0'' @ crlf2 = bs @ [] \<and> ''0'' @ crlf2 = [] @ bs
     \<and> chunk_scan ([] @ ''0'' @ crlf2) = Some (body, n) \<and> n \<le> 0 + length bs"
proof -
  have "relay_chunked (fresh_conn (''0'' @ crlf2) []) (fresh_conn [] []) [] =
      (Inr (), fresh_conn [] [], (fresh_conn [] [])\<lparr>cn_out := ''0'' @ crlf2\<rparr>)"
    using relay_last_chunk [of "[]"] by simp
  from chunked_body_forwarded [OF this] show ?thesis by (simp add: fresh_conn_def)
qed

text \<open>The relay does not stop at the end of a chunked body: bytes that arrive in the same read
  behind the last chunk, such as a pipelined request, are forwarded with it.\<close>

theorem chunked_relay_overruns_body:
  assumes "length tail \<le> 8187"
  shows "\<exists>r' w'. relay_chunked (fresh_conn (''0'' @ crlf2 @ tail) []) (fresh_conn [] []) [] = (Inr (), r', w')
    \<and> cn_in r' = [] \<and> cn_out w' = ''0'' @ crlf2 @ tail"
  using relay_last_chunk [OF assms] by (simp add: fresh_conn_def)

theorem chunked_relay_overruns_body_witness:
  "\<exists>r' w'. relay_chunked (fresh_conn (''0'' @ crlf2 @ ''DELETE /admin HTTP/1.1'' @ crlf2) []) (fresh_conn [] []) []
       = (Inr (), r', w')
     \<and> cn_in r' = [] \<and> cn_out w' = ''0'' @ crlf2 @ ''DELETE /admin HTTP/1.1'' @ crlf2"
  using chunked_relay_overruns_body [of "''DELETE /admin HTTP/1.1'' @ crlf2"] by simp

end
