(* ===== verification/L7_Relay.thy ===== *)
theory L7_Relay
  imports Http_Framing Policy_Refinement
begin

text \<open>
  The inspecting relay of a tunnel, \<open>crates/clustershell-sandbox/src/l7/relay.rs\<close>: read a request,
  ask the policy engine, forward or deny it, relay the response, repeat. The decisions the loop logs
  (\<open>L7_REQUEST\<close>) are part of its result.
\<close>

section \<open>The relay\<close>

record l7_log_entry =
  le_action :: bytes
  le_target :: bytes
  le_decision :: bytes
  le_deny_reason :: bytes

definition decision_str :: "bool \<Rightarrow> enforcement_mode \<Rightarrow> bytes" where
  "decision_str allowed enforcement =
     (if allowed then ''allow'' else case enforcement of Audit \<Rightarrow> ''audit'' | Enforce \<Rightarrow> ''deny'')"

definition request_info :: "l7_request \<Rightarrow> l7_request_info" where
  "request_info req = \<lparr>ri_action = rq_action req, ri_target = rq_target req\<rparr>"

definition log_entry :: "l7_request \<Rightarrow> bool \<Rightarrow> enforcement_mode \<Rightarrow> bytes \<Rightarrow> l7_log_entry" where
  "log_entry req allowed enforcement reason =
     \<lparr>le_action = rq_action req, le_target = rq_target req,
      le_decision = decision_str allowed enforcement, le_deny_reason = reason\<rparr>"

text \<open>What forwarding does to the client's stream: it takes the body and leaves the rest.\<close>

lemma conn_writes_in: "conn_writes bss c = (x, c') \<Longrightarrow> cn_in c' = cn_in c"
  by (induction bss c rule: conn_writes.induct)
    (auto split: prod.splits sum.splits dest: conn_write_in)

lemma conn_writes_out:
  "conn_writes bss c = (x, c') \<Longrightarrow> \<exists>k. cn_out c' = cn_out c @ take k (concat bss)"
  "conn_writes bss c = (Inr u, c') \<Longrightarrow> cn_out c' = cn_out c @ concat bss"
proof (induction bss c rule: conn_writes.induct)
  case (2 bs bss c)
  obtain y c1 where w: "conn_write bs c = (y, c1)" by force
  { case 1
    show ?case
    proof (cases y)
      case (Inl e)
      then obtain k where "cn_out c' = cn_out c @ take k bs"
        using 1 w conn_write_out(1) [OF w] by auto
      then show ?thesis by (intro exI [of _ "min k (length bs)"]) (simp add: min_def)
    next
      case (Inr u)
      then have "cn_out c1 = cn_out c @ bs" "conn_writes bss c1 = (x, c')"
        using 1 w conn_write_out(2) by auto
      moreover from 2(1) [OF w [symmetric] Inr this(2)] obtain k where "cn_out c' = cn_out c1 @ take k (concat bss)"
        by blast
      ultimately show ?thesis by (intro exI [of _ "length bs + k"]) simp
    qed
  next
    case 2
    then obtain v where "y = Inr v" "conn_writes bss c1 = (Inr u, c')" using w by (auto split: sum.splits)
    then show ?case using \<open>conn_write bs c = (y, c1)\<close> conn_write_out(2) [of bs c v c1]
        "2.IH"(2) [OF w [symmetric]] by simp }
qed auto

lemma flush_then_frame: "flush_then v c = (x, c') \<Longrightarrow> cn_in c' = cn_in c \<and> cn_out c' = cn_out c"
  by (auto simp: flush_then_def split: prod.splits sum.splits dest: conn_flush_frame)

lemma relay_body_part:
  assumes "relay_body bl overflow r w = (x, r', w')"
  shows "\<exists>bs. part_moved bs r w r' w' \<and> (bl = NoBody \<longrightarrow> bs = [])
    \<and> (\<forall>n. bl = ContentLength n \<longrightarrow> length bs \<le> n - length overflow)"
proof (cases bl)
  case (ContentLength n)
  then show ?thesis
    using assms relay_fixed_part [of r w "n - length overflow" x r' w'] moved_is_part [OF moved_Nil, of r w]
    by (auto simp: relay_body_def Let_def split: if_splits)
next
  case Chunked
  then show ?thesis using assms relay_chunked_loop_part by (auto simp: relay_body_def relay_chunked_def)
next
  case NoBody
  then show ?thesis using assms moved_is_part [OF moved_Nil] by (auto simp: relay_body_def)
qed

lemma read_response_head_out: "read_response_head buf u = (x, u') \<Longrightarrow> cn_out u' = cn_out u"
proof (induction buf u rule: read_response_head.induct)
  case (1 buf u)
  obtain y u1 where r: "conn_read 1024 u = (y, u1)" by force
  have "cn_out u1 = cn_out u"
    using r conn_read_Inl(1) [of 1024 u _ u1] conn_read_Inr(3) [of 1024 u _ u1] by (cases y) auto
  then show ?case
    using 1(2) r 1(1) [OF _ r [symmetric]]
    by (auto simp: read_response_head.simps [of buf u] split: sum.splits if_splits)
qed

lemma relay_until_eof_frame:
  "relay_until_eof r w = (x, r', w') \<Longrightarrow> cn_out r' = cn_out r \<and> cn_in w' = cn_in w"
proof (induction r w rule: relay_until_eof.induct)
  case (1 r w)
  obtain y r1 where r: "conn_read_timeout RELAY_BUF_SIZE r = (y, r1)" by force
  have o: "cn_out r1 = cn_out r"
  proof (cases "\<exists>cuts. cn_cuts r = 0 # cuts")
    case True
    then show ?thesis using r by (auto simp: conn_read_timeout_def)
  next
    case False
    then obtain z where "conn_read RELAY_BUF_SIZE r = (z, r1)"
      using r by (auto simp: conn_read_timeout_def split: list.splits nat.splits prod.splits)
    then show ?thesis
      using conn_read_Inl(1) [of RELAY_BUF_SIZE r _ r1] conn_read_Inr(3) [of RELAY_BUF_SIZE r _ r1] by (cases z) auto
  qed
  show ?case
  proof (cases "\<exists>bs. y = Some (Inr bs) \<and> bs \<noteq> []")
    case True
    then obtain bs where y: "y = Some (Inr bs)" "bs \<noteq> []" by blast
    obtain v w1 where w: "conn_write bs w = (v, w1)" by force
    have i: "cn_in w1 = cn_in w" by (rule conn_write_in(1) [OF w])
    show ?thesis
    proof (cases v)
      case (Inl e)
      then show ?thesis using 1(2) r y w o i by (simp add: relay_until_eof.simps [of r w])
    next
      case (Inr u)
      then have "relay_until_eof r1 w1 = (x, r', w')" using 1(2) r y w by (simp add: relay_until_eof.simps [of r w])
      from 1(1) [OF r [symmetric] y(1) refl y(2) w [symmetric] Inr this] o i show ?thesis by simp
    qed
  next
    case False
    then have "r' = r1" "w' = w"
      using 1(2) r by (auto simp: relay_until_eof.simps [of r w] split: option.splits sum.splits if_splits)
    then show ?thesis using o by simp
  qed
qed

lemma relay_body_frame:
  "relay_body bl overflow r w = (x, r', w') \<Longrightarrow> cn_out r' = cn_out r \<and> cn_in w' = cn_in w"
  using relay_body_part [of bl overflow r w x r' w'] by (auto simp: part_moved_def)

lemma write_flush_in: "write_flush v bss c = (x, c') \<Longrightarrow> cn_in c' = cn_in c"
  unfolding write_flush_def
  by (auto split: prod.splits sum.splits dest!: conn_writes_in flush_then_frame)

text \<open>The tail of a relayed response: a body, then a flush.\<close>

lemma then_flush_frame:
  assumes "(case y of (Inl e, u', c') \<Rightarrow> (Inl e, u', c')
      | (Inr z, u', c') \<Rightarrow> (case flush_then v c' of (x, c2) \<Rightarrow> (x, u', c2))) = (x, u2, c2)"
  shows "u2 = fst (snd y) \<and> cn_in c2 = cn_in (snd (snd y))"
  using assms by (cases y) (auto split: sum.splits prod.splits dest: flush_then_frame)

lemma relay_response_body_frame:
  assumes "relay_response_body m buf u c = (x, u', c')"
  shows "cn_out u' = cn_out u \<and> cn_in c' = cn_in c"
proof -
  let ?head = "take (header_end_of buf) buf"
  let ?h = "from_utf8_lossy ?head" and ?o = "drop (header_end_of buf) buf"
  let ?close = "[take (header_end_of buf - 2) buf, ''Connection: close'' @ crlf2, ?o]"
  consider (flushed) v where "write_flush v [?head] c = (x, c')" "u' = u"
    | (stop) bss e where "conn_writes bss c = (Inl e, c')" "u' = u"
    | (eof) v c1 where "conn_writes ?close c = (Inr v, c1)"
        "(case relay_until_eof u c1 of (Inl e, u', c') \<Rightarrow> (Inl e, u', c')
          | (Inr _, u', c') \<Rightarrow> (case flush_then False c' of (x, c2) \<Rightarrow> (x, u', c2))) = (x, u', c')"
    | (body) v c1 where "conn_writes [buf] c = (Inr v, c1)"
        "(case relay_body (parse_body_length ?h) ?o u c1 of (Inl e, u', c') \<Rightarrow> (Inl e, u', c')
          | (Inr _, u', c') \<Rightarrow> (case flush_then True c' of (x, c2) \<Rightarrow> (x, u', c2))) = (x, u', c')"
    using assms unfolding relay_response_body_def Let_def
    by (simp split: if_splits prod.splits sum.splits del: conn_writes.simps)
  then show ?thesis
  proof cases
    case flushed
    then show ?thesis using write_flush_in [OF flushed(1)] by simp
  next
    case stop
    then show ?thesis using conn_writes_in [OF stop(1)] by simp
  next
    case eof
    obtain y r1 w1 where y: "relay_until_eof u c1 = (y, r1, w1)" by (metis prod_cases3)
    from then_flush_frame [OF eof(2)] y relay_until_eof_frame [OF y] conn_writes_in [OF eof(1)] show ?thesis by simp
  next
    case body
    obtain y r1 w1 where y: "relay_body (parse_body_length ?h) ?o u c1 = (y, r1, w1)" by (metis prod_cases3)
    from then_flush_frame [OF body(2)] y relay_body_frame [OF y] conn_writes_in [OF body(1)] show ?thesis by simp
  qed
qed

lemma relay_response_frame:
  assumes "relay_response m u c = (x, u', c')"
  shows "cn_out u' = cn_out u \<and> cn_in c' = cn_in c"
proof -
  obtain y u1 where y: "read_response_head [] u = (y, u1)" by force
  note o = read_response_head_out [OF y]
  consider (stop) "u' = u1" "c' = c" | (closed) buf v where "conn_writes [buf] c = (v, c')" "u' = u1"
    | (complete) buf where "relay_response_body m buf u1 c = (x, u', c')"
    using assms y unfolding relay_response_def
    by (simp split: prod.splits sum.splits head_read.splits del: conn_writes.simps)
  then show ?thesis
    using o conn_writes_in [of _ c _ c'] relay_response_body_frame [of m _ u1 c x u' c']
    by cases (auto simp del: conn_writes.simps)
qed

text \<open>Forwarding a request: what reaches upstream is a prefix of the rewritten header, the overflow and
  the body, which is taken from the client.\<close>

definition request_bytes :: "secret_resolver option \<Rightarrow> l7_request \<Rightarrow> bytes" where
  "request_bytes resolver req =
     rewrite_http_header_block (take (header_end_of (rq_raw_header req)) (rq_raw_header req)) resolver
     @ drop (header_end_of (rq_raw_header req)) (rq_raw_header req)"

definition body_within :: "l7_request \<Rightarrow> bytes \<Rightarrow> bool" where
  "body_within req body \<longleftrightarrow>
     (case rq_body_length req of NoBody \<Rightarrow> body = [] | ContentLength n \<Rightarrow> length body \<le> n | Chunked \<Rightarrow> True)"

lemma conn_writes_writable: "writable c \<Longrightarrow> fst (conn_writes bss c) = Inr ()"
proof (induction bss c rule: conn_writes.induct)
  case (2 bs bss c)
  let ?c = "c\<lparr>cn_out := cn_out c @ bs, cn_writes := (if bs = [] then cn_writes c else tl (cn_writes c))\<rparr>"
  have w: "conn_write bs c = (Inr (), ?c)" by (rule conn_write_writable [OF 2(2)])
  have "writable ?c" using 2(2) by (cases "bs = []"; cases "cn_writes c") (auto simp: writable_def)
  from 2(1) [OF w [symmetric] refl this] w show ?case by simp
qed simp

lemma relay_request_moves:
  assumes "relay_http_request_with_resolver req c u res = (x, c', u')"
  shows "\<exists>body k. cn_in c = body @ cn_in c' \<and> cn_out u' = cn_out u @ take k (request_bytes res req @ body)
    \<and> body_within req body \<and> (writable u \<longrightarrow> length (request_bytes res req) \<le> k)"
proof -
  let ?he = "header_end_of (rq_raw_header req)"
  let ?ov = "drop ?he (rq_raw_header req)"
  let ?parts = "[rewrite_http_header_block (take ?he (rq_raw_header req)) res, ?ov]"
  have parts: "concat ?parts = request_bytes res req" by (simp add: request_bytes_def)
  obtain y u1 where y: "conn_writes ?parts u = (y, u1)" by force
  show ?thesis
  proof (cases y)
    case (Inl e)
    then have "c' = c" "u' = u1"
      using assms y by (auto simp: relay_http_request_with_resolver_def Let_def simp del: conn_writes.simps)
    moreover obtain k where "cn_out u1 = cn_out u @ take k (request_bytes res req @ [])"
      using conn_writes_out(1) [OF y] unfolding parts by auto
    moreover have "body_within req []" by (simp add: body_within_def split: body_length.splits)
    moreover have "\<not> writable u" using conn_writes_writable [of u ?parts] y Inl by auto
    ultimately show ?thesis by (metis append_Nil)
  next
    case (Inr v)
    have o1: "cn_out u1 = cn_out u @ request_bytes res req" using conn_writes_out(2) [OF y [unfolded Inr]] parts by simp
    obtain z c2 u2 where z: "relay_body (rq_body_length req) ?ov c u1 = (z, c2, u2)" by (metis prod_cases3)
    from relay_body_part [OF z] obtain body where b: "part_moved body c u1 c2 u2"
      and bw: "body_within req body" by (fastforce simp: body_within_def split: body_length.splits)
    then obtain k where k: "cn_in c = body @ cn_in c2" "cn_out u2 = cn_out u1 @ take k body"
      by (auto simp: part_moved_def)
    have "cn_in c' = cn_in c2 \<and> cn_out u' = cn_out u2"
    proof (cases z)
      case (Inl e)
      then show ?thesis using assms y Inr z
        by (simp add: relay_http_request_with_resolver_def Let_def del: conn_writes.simps)
    next
      case (Inr w)
      obtain f u3 where f: "flush_then () u2 = (f, u3)" by force
      obtain g u4 c4 where g: "relay_response (rq_action req) u3 c2 = (g, u4, c4)" by (metis prod_cases3)
      show ?thesis
        using assms y \<open>y = Inr v\<close> z Inr f g flush_then_frame [OF f] relay_response_frame [OF g]
        by (auto simp: relay_http_request_with_resolver_def Let_def simp del: conn_writes.simps split: sum.splits)
    qed
    then have "cn_in c = body @ cn_in c'"
      "cn_out u' = cn_out u @ take (length (request_bytes res req) + k) (request_bytes res req @ body)"
      using k o1 by simp_all
    then show ?thesis using bw le_add1 by blast
  qed
qed

function relay_rest ::
  "builtins \<Rightarrow> (json \<Rightarrow> bytes) \<Rightarrow> (json \<Rightarrow> bytes) \<Rightarrow> l7_endpoint_config \<Rightarrow> opa_engine \<Rightarrow> conn \<Rightarrow> conn
     \<Rightarrow> l7_eval_context \<Rightarrow> l7_log_entry list \<times> (report, unit) result \<times> conn \<times> conn" where
  "relay_rest B pr js config engine client upstream ctx =
     (case parse_http_request client of
        (Inl e, c) \<Rightarrow> ([], Inr (), c, upstream)
      | (Inr None, c) \<Rightarrow> ([], Inr (), c, upstream)
      | (Inr (Some req), c) \<Rightarrow>
          (case evaluate_l7_request B pr engine ctx (request_info req) of
             Inl e \<Rightarrow> ([], Inl e, c, upstream)
           | Inr (allowed, reason) \<Rightarrow>
               (let entry = log_entry req allowed (lc_enforcement config) reason in
                if allowed \<or> lc_enforcement config = Audit then
                  (case relay_http_request_with_resolver req c upstream (cx_secret_resolver ctx) of
                     (Inl e, c', u') \<Rightarrow> ([entry], Inl e, c', u')
                   | (Inr reusable, c', u') \<Rightarrow>
                       (if \<not> reusable then ([entry], Inr (), c', u')
                        else case relay_rest B pr js config engine c' u' ctx of
                               (entries, x, c2, u2) \<Rightarrow> (entry # entries, x, c2, u2)))
                else
                  (case send_deny_response js req (cx_policy_name ctx) reason c of
                     (x, c') \<Rightarrow> ([entry], x, c', upstream)))))"
  by pat_completeness auto

lemma relay_rest_shrinks:
  assumes "(Inr (Some req), c) = parse_http_request client"
    and "(x, c', u') = relay_http_request_with_resolver req c u res"
  shows "length (cn_in c') < length (cn_in client)"
proof -
  note p = parse_http_request_Some(1,5) [OF assms(1) [symmetric]]
  from relay_request_moves [OF assms(2) [symmetric]] have "length (cn_in c') \<le> length (cn_in c)" by force
  also have "\<dots> < length (cn_in client)" using p by (cases "rq_raw_header req") auto
  finally show ?thesis .
qed

termination relay_rest
  by (relation "measure (\<lambda>(B, pr, js, config, engine, c, u, ctx). length (cn_in c))")
    (auto intro: relay_rest_shrinks)

declare relay_rest.simps [simp del]

definition is_benign_connection_error :: "report \<Rightarrow> bool" where
  "is_benign_connection_error err \<longleftrightarrow>
     (\<exists>pat\<in>set [''close_notify'', ''tls handshake eof'', ''connection reset'', ''broken pipe'', ''unexpected eof'',
        ''client disconnected mid-request'']. contains_sub (to_ascii_lowercase err) pat)"

text \<open>\<open>copy\<close> stands for \<open>tokio::io::copy_bidirectional\<close>.\<close>

type_synonym copier = "conn \<Rightarrow> conn \<Rightarrow> (io_error + unit) \<times> conn \<times> conn"

definition relay_with_inspection ::
  "builtins \<Rightarrow> (json \<Rightarrow> bytes) \<Rightarrow> (json \<Rightarrow> bytes) \<Rightarrow> copier \<Rightarrow> l7_endpoint_config \<Rightarrow> opa_engine \<Rightarrow> conn \<Rightarrow> conn
     \<Rightarrow> l7_eval_context \<Rightarrow> l7_log_entry list \<times> (report, unit) result \<times> conn \<times> conn" where
  "relay_with_inspection B pr js copy config engine client upstream ctx =
     (case lc_protocol config of
        Rest \<Rightarrow> relay_rest B pr js config engine client upstream ctx
      | Sql \<Rightarrow> (case copy client upstream of
                 (Inl e, c, u) \<Rightarrow> ([], Inl (ie_msg e), c, u)
               | (Inr _, c, u) \<Rightarrow> ([], Inr (), c, u)))"

section \<open>Properties\<close>

text \<open>A forwarded request: the engine allows it, and what reached upstream for it is a prefix of its
  rewritten bytes and its body.\<close>

definition forwarded_ok ::
  "builtins \<Rightarrow> (json \<Rightarrow> bytes) \<Rightarrow> opa_engine \<Rightarrow> l7_eval_context \<Rightarrow> l7_request \<times> bytes \<times> bytes \<Rightarrow> bool" where
  "forwarded_ok B pr engine ctx = (\<lambda>(req, body, sent).
     evaluate_l7_request B pr engine ctx (request_info req) = Inr (True, [])
     \<and> body_within req body \<and> (\<exists>k. sent = take k (request_bytes (cx_secret_resolver ctx) req @ body)))"

lemma evaluate_allowed_reason:
  "evaluate_l7_request B pr e cx r = Inr (True, reason) \<Longrightarrow> reason = []"
  by (auto simp: evaluate_l7_request_def Let_def split: if_splits)

lemma relay_rest_denied:
  assumes "parse_http_request client = (Inr (Some req), c)"
    and "evaluate_l7_request B pr engine ctx (request_info req) = Inr (False, reason)"
    and "lc_enforcement config = Enforce"
  shows "relay_rest B pr js config engine client upstream ctx =
    (case send_deny_response js req (cx_policy_name ctx) reason c of
       (x, c') \<Rightarrow> ([log_entry req False Enforce reason], x, c', upstream))"
  using assms by (simp add: relay_rest.simps [of B pr js config engine client] Let_def)

lemma read_header_writes: "read_header buf c = (x, c') \<Longrightarrow> cn_writes c' = cn_writes c"
proof (induction buf c rule: read_header.induct)
  case (1 buf c)
  obtain y c1 where y: "conn_read_u8 c = (y, c1)" by force
  obtain z c2 where z: "conn_read 1 c = (z, c2)" by force
  have "cn_writes c2 = cn_writes c"
    using z conn_read_Inl(1) [of 1 c _ c2] conn_read_Inr(5) [of 1 c _ c2] by (cases z) auto
  then have "cn_writes c1 = cn_writes c"
    using y z by (auto simp: conn_read_u8_def split: sum.splits list.splits)
  then show ?case
    using 1(2) y 1(1) [OF _ y [symmetric]]
    by (auto simp: read_header.simps [of buf c] Let_def split: sum.splits if_splits)
qed

lemma parse_request_writable: "parse_http_request c = (x, c') \<Longrightarrow> writable c \<Longrightarrow> writable c'"
proof -
  assume p: "parse_http_request c = (x, c')" and w: "writable c"
  obtain y c1 where y: "read_header [] c = (y, c1)" by force
  have "c' = c1" using p y by (auto simp: parse_http_request_def split: sum.splits option.splits)
  then show ?thesis using read_header_writes [OF y] w by (simp add: writable_def)
qed

lemma relay_rest_forwards:
  assumes "lc_enforcement config = Enforce"
    and "relay_rest B pr js config engine client upstream ctx = (entries, x, c', u')"
  shows "\<exists>fs rest. cn_in client = concat (map (\<lambda>(req, body, sent). rq_raw_header req @ body) fs) @ rest
    \<and> cn_out u' = cn_out upstream @ concat (map (\<lambda>(req, body, sent). sent) fs)
    \<and> (\<forall>f\<in>set fs. forwarded_ok B pr engine ctx f)"
  using assms
proof (induction B pr js config engine client upstream ctx arbitrary: entries x c' u' rule: relay_rest.induct)
  case (1 B pr js config engine client upstream ctx)
  obtain y c where y: "parse_http_request client = (y, c)" by force
  show ?case
  proof (cases "\<exists>req. y = Inr (Some req) \<and> evaluate_l7_request B pr engine ctx (request_info req) = Inr (True, [])")
    case False
    have "u' = upstream"
    proof (cases "\<exists>req reason. y = Inr (Some req) \<and> evaluate_l7_request B pr engine ctx (request_info req) = Inr (False, reason)")
      case True
      then obtain req reason where "parse_http_request client = (Inr (Some req), c)"
        "evaluate_l7_request B pr engine ctx (request_info req) = Inr (False, reason)" using y by blast
      from relay_rest_denied [OF this 1(2), of js upstream] 1(3) show ?thesis by (simp split: prod.splits)
    next
      case no: False
      have "evaluate_l7_request B pr engine ctx (request_info req) \<noteq> Inr (b, reason)" if "y = Inr (Some req)" for req b reason
        using that no False evaluate_allowed_reason [of B pr engine ctx "request_info req" reason] by (cases b) auto
      then show ?thesis
        using 1(3) y
        by (auto simp: relay_rest.simps [of B pr js config engine client] split: sum.splits option.splits)
    qed
    then show ?thesis by (intro exI [of _ "[] :: (l7_request \<times> bytes \<times> bytes) list"] exI [of _ "cn_in client"]) simp
  next
    case True
    then obtain req where req: "y = Inr (Some req)"
      and ev: "evaluate_l7_request B pr engine ctx (request_info req) = Inr (True, [])" by blast
    let ?res = "cx_secret_resolver ctx"
    have ci: "cn_in client = rq_raw_header req @ cn_in c"
      using parse_http_request_Some(1) y req by blast
    obtain z c1 u1 where z: "relay_http_request_with_resolver req c upstream ?res = (z, c1, u1)" by (metis prod_cases3)
    from relay_request_moves [OF z] obtain body k where body: "cn_in c = body @ cn_in c1" "body_within req body"
      and out: "cn_out u1 = cn_out upstream @ take k (request_bytes ?res req @ body)" by blast
    let ?f = "(req, body, take k (request_bytes ?res req @ body))"
    have ok: "forwarded_ok B pr engine ctx ?f" using ev body(2) by (auto simp: forwarded_ok_def)
    show ?thesis
    proof (cases "z = Inr True")
      case True
      obtain entries' where rec: "relay_rest B pr js config engine c1 u1 ctx = (entries', x, c', u')"
        using 1(3) y req ev z True
        by (auto simp: relay_rest.simps [of B pr js config engine client] Let_def split: prod.splits)
      from 1(1) [OF y [symmetric] req refl ev refl refl _ z [symmetric] True refl _ 1(2) rec]
      obtain fs rest where fs: "cn_in c1 = concat (map (\<lambda>(req, body, sent). rq_raw_header req @ body) fs) @ rest"
        "cn_out u' = cn_out u1 @ concat (map (\<lambda>(req, body, sent). sent) fs)"
        "\<forall>f\<in>set fs. forwarded_ok B pr engine ctx f" by auto
      then show ?thesis using ci body out ok by (intro exI [of _ "?f # fs"] exI [of _ rest]) simp
    next
      case no: False
      then have "u' = u1"
        using 1(3) y req ev z
        by (auto simp: relay_rest.simps [of B pr js config engine client] Let_def split: sum.splits if_splits)
      then show ?thesis using ci body out ok by (intro exI [of _ "[?f]"] exI [of _ "cn_in c1"]) simp
    qed
  qed
qed


definition enforced_rest :: l7_endpoint_config where
  "enforced_rest = \<lparr>lc_protocol = Rest, lc_tls = Terminate, lc_enforcement = Enforce\<rparr>"

definition post_request :: bytes where
  "post_request = ''POST /user/repos HTTP/1.1'' @ crlf2"


text \<open>Reading the example requests.\<close>

definition get_request :: bytes where
  "get_request = ''GET /user HTTP/1.1'' @ crlf2"

lemma get_permitted:
  "request_permitted literal_builtins quickstart_policy (cx_host curl_context) (cx_port curl_context)
     (cx_binary_path curl_context) (cx_ancestors curl_context) ''GET'' ''/user''"
  by (simp add: request_permitted_def quickstart_spec_simps endpoint_permits_def effective_rules_def
      preset_methods_def pair_permits_def)

lemma get_request_read:
  "\<exists>req c. parse_http_request (fresh_conn get_request []) = (Inr (Some req), c)
     \<and> request_info req = \<lparr>ri_action = ''GET'', ri_target = ''/user''\<rparr> \<and> rq_raw_header req = get_request"
proof -
  let ?r = "\<lparr>rq_action = ''GET'', rq_target = ''/user'', rq_raw_header = get_request, rq_body_length = NoBody\<rparr>"
  let ?l = "length ''GET /user HTTP/1.1''"
  have f: "find_sub crlf2 ([] @ cn_in (fresh_conn get_request [])) = Some ?l" by code_simp
  have "take (?l + 4) ([] @ cn_in (fresh_conn get_request [])) = get_request" by code_simp
  with read_header_finds [OF f] obtain c where "read_header [] (fresh_conn get_request []) =
      (Inr (Some get_request), c)" by (auto simp: MAX_HEADER_BYTES_def)
  moreover have "parse_request_head get_request = Inr ?r" by code_simp
  ultimately have "parse_http_request (fresh_conn get_request []) = (Inr (Some ?r), c)"
    by (simp add: parse_http_request_def)
  then show ?thesis by (auto simp: request_info_def)
qed

lemma post_request_read:
  "\<exists>req c. parse_http_request (fresh_conn post_request []) = (Inr (Some req), c)
     \<and> request_info req = \<lparr>ri_action = ''POST'', ri_target = ''/user/repos''\<rparr> \<and> cn_in c = [] \<and> cn_out c = []
     \<and> writable c"
proof -
  let ?r = "\<lparr>rq_action = ''POST'', rq_target = ''/user/repos'', rq_raw_header = post_request, rq_body_length = NoBody\<rparr>"
  let ?l = "length ''POST /user/repos HTTP/1.1''"
  have f: "find_sub crlf2 ([] @ cn_in (fresh_conn post_request [])) = Some ?l" by code_simp
  have "take (?l + 4) ([] @ cn_in (fresh_conn post_request [])) = post_request"
    "drop (?l + 4 - length ([] :: bytes)) (cn_in (fresh_conn post_request [])) = []" by code_simp+
  with read_header_finds [OF f] obtain cuts where "read_header [] (fresh_conn post_request []) =
      (Inr (Some post_request), (fresh_conn post_request [])\<lparr>cn_in := [], cn_cuts := cuts\<rparr>)"
    by (auto simp: MAX_HEADER_BYTES_def)
  moreover have "parse_request_head post_request = Inr ?r" by code_simp
  ultimately have "parse_http_request (fresh_conn post_request []) =
      (Inr (Some ?r), (fresh_conn post_request [])\<lparr>cn_in := [], cn_cuts := cuts\<rparr>)"
    by (simp add: parse_http_request_def)
  then show ?thesis by (auto simp: request_info_def fresh_conn_def writable_def)
qed

text \<open>A request the engine denies is never forwarded in enforce mode: the client receives the 403
  response, the relay ends with the logged decision \<open>deny\<close> and the upstream connection is untouched.\<close>

theorem denied_request_gets_403:
  assumes "parse_http_request client = (Inr (Some req), c)" "lc_enforcement config = Enforce" "writable client"
    and "evaluate_l7_request B pr engine ctx (request_info req) = Inr (False, reason)"
  shows "\<exists>c'. relay_rest B pr js config engine client upstream ctx =
      ([log_entry req False Enforce reason], Inr (), c', upstream)
    \<and> cn_out c' = cn_out client @ deny_response js req (cx_policy_name ctx) reason
    \<and> le_decision (log_entry req False Enforce reason) = ''deny''"
proof -
  have w: "writable c" using assms(1,3) parse_request_writable by blast
  let ?d = "deny_response js req (cx_policy_name ctx) reason"
  have "?d \<noteq> []" by (simp add: deny_response_def Let_def)
  then obtain c' where "send_deny_response js req (cx_policy_name ctx) reason c = (Inr (), c')"
    "cn_out c' = cn_out c @ ?d"
    using w writable_tl [OF w, of "cn_out c @ ?d"]
    by (auto simp: send_deny_response_def write_flush_def flush_then_def conn_write_writable conn_flush_writable)
  then show ?thesis
    using relay_rest_denied [OF assms(1,4,2), of js upstream] parse_http_request_Some(2) [OF assms(1)]
    by (simp add: log_entry_def decision_str_def)
qed

theorem denied_request_gets_403_witness:
  "\<exists>entries c'. relay_rest literal_builtins (\<lambda>_. []) (\<lambda>_. []) enforced_rest quickstart_engine
       (fresh_conn post_request []) (fresh_conn [] []) curl_context
     = (entries, Inr (), c', fresh_conn [] []) \<and> starts_with (cn_out c') ''HTTP/1.1 403 Forbidden''"
proof -
  obtain req c where p: "parse_http_request (fresh_conn post_request []) = (Inr (Some req), c)"
    and i: "request_info req = \<lparr>ri_action = ''POST'', ri_target = ''/user/repos''\<rparr>"
    using post_request_read by blast
  obtain reason where ev: "evaluate_l7_request literal_builtins (\<lambda>_. []) quickstart_engine curl_context (request_info req)
      = Inr (False, reason)"
    using l7_request_of_policy [OF quickstart_hm_inv quickstart_load, of literal_builtins "\<lambda>_. []" curl_context
        "request_info req"] post_not_permitted i by auto
  have "writable (fresh_conn post_request [])" "lc_enforcement enforced_rest = Enforce"
    by (simp_all add: fresh_conn_def writable_def enforced_rest_def)
  from denied_request_gets_403 [OF p this(2,1) ev, of "\<lambda>_. []" "fresh_conn [] []"]
  show ?thesis by (auto simp: fresh_conn_def deny_response_def Let_def starts_with_def)
qed

text \<open>Forwarding never takes anything back from the upstream side, and a writable upstream gets the
  whole head.\<close>

lemma relay_rest_extends:
  "relay_rest B pr js config engine client upstream ctx = (entries, x, c', u') \<Longrightarrow>
     \<exists>t. cn_out u' = cn_out upstream @ t"
proof (induction B pr js config engine client upstream ctx arbitrary: entries x c' u' rule: relay_rest.induct)
  case (1 B pr js config engine client upstream ctx)
  obtain y c where y: "parse_http_request client = (y, c)" by force
  consider (same) "u' = upstream"
    | (relayed) req allowed reason z c1 u1 where "y = Inr (Some req)"
        "evaluate_l7_request B pr engine ctx (request_info req) = Inr (allowed, reason)"
        "allowed \<or> lc_enforcement config = Audit"
        "relay_http_request_with_resolver req c upstream (cx_secret_resolver ctx) = (z, c1, u1)"
        "u' = u1 \<or> (z = Inr True \<and> (\<exists>es. relay_rest B pr js config engine c1 u1 ctx = (es, x, c', u')))"
    using 1(2) y
    by (auto simp: relay_rest.simps [of B pr js config engine client] Let_def
        split: sum.splits option.splits prod.splits if_splits)
  then show ?case
  proof cases
    case relayed
    obtain t where t: "cn_out u1 = cn_out upstream @ t" using relay_request_moves [OF relayed(4)] by blast
    from relayed(5) show ?thesis
      using t 1(1) [OF y [symmetric] relayed(1) refl relayed(2) refl refl relayed(3) relayed(4) [symmetric] _ refl]
      by fastforce
  qed simp
qed

lemma relay_request_sends_head:
  assumes "relay_http_request_with_resolver req c u res = (x, c', u')" "writable u"
  shows "\<exists>t. cn_out u' = cn_out u @ request_bytes res req @ t"
proof -
  from relay_request_moves [OF assms(1)] assms(2) obtain body k
    where "cn_out u' = cn_out u @ take k (request_bytes res req @ body)" "length (request_bytes res req) \<le> k" by blast
  then show ?thesis by auto
qed

text \<open>C38: an allowed request reaches a writable upstream: everything written before, then the request's
  header with its credentials in place, then the rest.\<close>

theorem allowed_request_reaches_upstream:
  assumes "parse_http_request client = (Inr (Some req), c)" "writable upstream"
    and "evaluate_l7_request B pr engine ctx (request_info req) = Inr (True, reason)"
    and "relay_rest B pr js config engine client upstream ctx = (entries, x, c', u')"
  shows "\<exists>t. cn_out u' = cn_out upstream @ rewrite_http_header_block (rq_raw_header req) (cx_secret_resolver ctx) @ t"
proof -
  let ?res = "cx_secret_resolver ctx"
  note p = parse_http_request_Some [OF assms(1)]
  have "header_end_of (rq_raw_header req) = length (rq_raw_header req)"
    using p(4,5) by (simp add: header_end_of_def)
  then have rb: "request_bytes ?res req = rewrite_http_header_block (rq_raw_header req) ?res"
    by (simp add: request_bytes_def)
  obtain z c1 u1 where z: "relay_http_request_with_resolver req c upstream ?res = (z, c1, u1)" by (metis prod_cases3)
  from relay_request_sends_head [OF z assms(2)] obtain t where t: "cn_out u1 = cn_out upstream @ request_bytes ?res req @ t"
    by blast
  have "u' = u1 \<or> (\<exists>es. relay_rest B pr js config engine c1 u1 ctx = (es, x, c', u'))"
    using assms(1,3,4) z
    by (auto simp: relay_rest.simps [of B pr js config engine client] Let_def split: sum.splits if_splits prod.splits)
  then show ?thesis using t rb relay_rest_extends [of B pr js config engine c1 u1 ctx _ x c' u'] by fastforce
qed


theorem allowed_request_reaches_upstream_witness:
  "\<exists>entries x c' u' t. relay_rest literal_builtins (\<lambda>_. []) (\<lambda>_. []) enforced_rest quickstart_engine
       (fresh_conn get_request []) (fresh_conn [] []) curl_context = (entries, x, c', u')
     \<and> cn_out u' = get_request @ t"
proof -
  obtain req c where p: "parse_http_request (fresh_conn get_request []) = (Inr (Some req), c)"
    and i: "request_info req = \<lparr>ri_action = ''GET'', ri_target = ''/user''\<rparr>" "rq_raw_header req = get_request"
    using get_request_read by blast
  obtain reason where ev: "evaluate_l7_request literal_builtins (\<lambda>_. []) quickstart_engine curl_context (request_info req)
      = Inr (True, reason)"
    using l7_request_of_policy [OF quickstart_hm_inv quickstart_load, of literal_builtins "\<lambda>_. []" curl_context
        "request_info req"] get_permitted i by auto
  obtain entries x c' u' where r: "relay_rest literal_builtins (\<lambda>_. []) (\<lambda>_. []) enforced_rest quickstart_engine
      (fresh_conn get_request []) (fresh_conn [] []) curl_context = (entries, x, c', u')" by (metis prod_cases4)
  have w: "writable (fresh_conn [] [])" by (simp add: fresh_conn_def writable_def)
  have "rewrite_http_header_block get_request (cx_secret_resolver curl_context) = get_request"
    by (simp add: rewrite_http_header_block_def curl_context_def)
  with allowed_request_reaches_upstream [OF p w ev r] i(2) r show ?thesis by (auto simp: fresh_conn_def)
qed

text \<open>The inspecting relay fails closed: when the engine cannot evaluate a request, the relay ends
  with the error and forwards nothing, in audit mode too.\<close>

theorem evaluation_error_forwards_nothing:
  assumes "parse_http_request client = (Inr (Some req), c)"
    and "evaluate_l7_request B pr engine ctx (request_info req) = Inl err"
  shows "relay_rest B pr js config engine client upstream ctx = ([], Inl err, c, upstream)"
  using assms by (simp add: relay_rest.simps [of B pr js config engine client])

theorem evaluation_error_forwards_nothing_witness:
  "\<exists>c. relay_rest literal_builtins (\<lambda>_. []) (\<lambda>_. []) enforced_rest (quickstart_engine\<lparr>eng_package := BAKED_PACKAGE\<rparr>)
       (fresh_conn get_request []) (fresh_conn [] []) curl_context
     = ([], Inl ''not a valid rule path'', c, fresh_conn [] [])"
proof -
  obtain req c where p: "parse_http_request (fresh_conn get_request []) = (Inr (Some req), c)"
    using get_request_read by blast
  have "evaluate_l7_request literal_builtins (\<lambda>_. []) (quickstart_engine\<lparr>eng_package := BAKED_PACKAGE\<rparr>) curl_context
      (request_info req) = Inl ''not a valid rule path''"
    by (simp add: evaluate_l7_request_def engine_lock_def quickstart_engine_def engine_from_data_def eval_rule_def
        BAKED_PACKAGE_def query_path_def strip_prefix_def starts_with_def)
  from evaluation_error_forwards_nothing [OF p this] show ?thesis by blast
qed

end
