(* ===== verification/Inference.thy ===== *)
theory Inference
  imports Http_Framing
begin

text \<open>
  Inference requests on the intercepted \<open>inference.local\<close> tunnel,
  \<open>crates/clustershell-sandbox/src/l7/inference.rs\<close>: the known API patterns, the request parser over a
  growing buffer, and the response formatter.
\<close>

section \<open>Patterns\<close>

record inference_api_pattern =
  ip_method :: bytes
  ip_path_glob :: bytes
  ip_protocol :: bytes
  ip_kind :: bytes

definition default_patterns :: "inference_api_pattern list" where
  "default_patterns =
     [\<lparr>ip_method = ''POST'', ip_path_glob = ''/v1/chat/completions'',
        ip_protocol = ''openai_chat_completions'', ip_kind = ''chat_completion''\<rparr>,
      \<lparr>ip_method = ''POST'', ip_path_glob = ''/v1/completions'',
        ip_protocol = ''openai_completions'', ip_kind = ''completion''\<rparr>,
      \<lparr>ip_method = ''POST'', ip_path_glob = ''/v1/responses'',
        ip_protocol = ''openai_responses'', ip_kind = ''responses''\<rparr>,
      \<lparr>ip_method = ''POST'', ip_path_glob = ''/v1/messages'',
        ip_protocol = ''anthropic_messages'', ip_kind = ''messages''\<rparr>,
      \<lparr>ip_method = ''GET'', ip_path_glob = ''/v1/models'',
        ip_protocol = ''model_discovery'', ip_kind = ''models_list''\<rparr>,
      \<lparr>ip_method = ''GET'', ip_path_glob = ''/v1/models/*'',
        ip_protocol = ''model_discovery'', ip_kind = ''models_get''\<rparr>]"

definition pattern_matches :: "bytes \<Rightarrow> bytes \<Rightarrow> inference_api_pattern \<Rightarrow> bool" where
  "pattern_matches meth path_only p \<longleftrightarrow>
     (if \<not> eq_ignore_ascii_case meth (ip_method p) then False
      else case strip_suffix (ip_path_glob p) ''/*'' of
             Some prefix \<Rightarrow>
               path_only = prefix
               \<or> (case strip_prefix path_only prefix of None \<Rightarrow> False | Some sfx \<Rightarrow> starts_with sfx ''/'')
           | None \<Rightarrow> path_only = ip_path_glob p)"

definition detect_inference_pattern ::
  "bytes \<Rightarrow> bytes \<Rightarrow> inference_api_pattern list \<Rightarrow> inference_api_pattern option" where
  "detect_inference_pattern meth path patterns =
     (let path_only = hd (split_char (CHR ''?'') path) in find (pattern_matches meth path_only) patterns)"

section \<open>Requests\<close>

record parsed_http_request =
  ph_method :: bytes
  ph_path :: bytes
  ph_headers :: "(bytes \<times> bytes) list"
  ph_body :: bytes

datatype parse_result = Complete parsed_http_request nat | Incomplete

text \<open>Where the code adds two \<open>usize\<close> values unchecked, an overflow is a panic in a debug build, and in a
  release build the wrapped sum makes the slice that follows panic. \<^const>\<open>Panicked\<close> is that outcome.\<close>

text \<open>\<open>find_crlf\<close> of this module is the same function as the one of \<open>l7/rest.rs\<close>.\<close>

function parse_trailers :: "bytes \<Rightarrow> nat \<Rightarrow> nat option" where
  "parse_trailers buf pos =
     (case find_crlf buf pos of
        None \<Rightarrow> None
      | Some trailer_end \<Rightarrow>
          if trailer_end = pos then Some (trailer_end + 2) else parse_trailers buf (trailer_end + 2))"
  by pat_completeness auto
termination parse_trailers
  by (relation "measure (\<lambda>(buf, pos). length buf - pos)") (auto dest!: find_crlf_Some)

function parse_chunks :: "bytes \<Rightarrow> nat \<Rightarrow> bytes \<Rightarrow> (bytes \<times> nat) option outcome" where
  "parse_chunks buf pos body =
     (case find_crlf buf pos of
        None \<Rightarrow> Returned None
      | Some size_line_end \<Rightarrow>
          (case chunk_size_of (take (size_line_end - pos) (drop pos buf)) of
             None \<Rightarrow> Returned None
           | Some chunk_size \<Rightarrow>
               (let pos' = size_line_end + 2 in
                if chunk_size = 0 then
                  Returned (map_option (\<lambda>n. (body, n)) (parse_trailers buf pos'))
                else case checked_add_usize pos' chunk_size of
                       None \<Rightarrow> Returned None
                     | Some chunk_end \<Rightarrow>
                         (if chunk_end + 2 \<ge> 2 ^ 64 then Panicked
                          else if length buf < chunk_end + 2 then Returned None
                          else if take 2 (drop chunk_end buf) \<noteq> crlf then Returned None
                          else parse_chunks buf (chunk_end + 2)
                                 (body @ take (chunk_end - pos') (drop pos' buf))))))"
  by pat_completeness auto
termination parse_chunks
  by (relation "measure (\<lambda>(buf, pos, body). length buf - pos)")
    (auto dest!: find_crlf_Some simp: checked_add_usize_def split: if_splits)

declare parse_trailers.simps [simp del] parse_chunks.simps [simp del]

definition parse_chunked_body :: "bytes \<Rightarrow> nat \<Rightarrow> (bytes \<times> nat) option outcome" where
  "parse_chunked_body buf start = parse_chunks buf start []"

text \<open>The header lines up to the first empty one: the headers, the last valid \<open>Content-Length\<close> and
  whether a \<open>Transfer-Encoding\<close> lists \<open>chunked\<close>.\<close>

fun parse_header_lines ::
  "bytes list \<Rightarrow> (bytes \<times> bytes) list \<Rightarrow> nat \<Rightarrow> bool \<Rightarrow> (bytes \<times> bytes) list \<times> nat \<times> bool" where
  "parse_header_lines [] hs cl ch = (hs, cl, ch)"
| "parse_header_lines (line # lines) hs cl ch =
     (if line = [] then (hs, cl, ch)
      else case split_once line '':'' of
             None \<Rightarrow> parse_header_lines lines hs cl ch
           | Some (n, v) \<Rightarrow>
               (let name = trim_ws n; value = trim_ws v;
                    cl' = (if eq_ignore_ascii_case name ''content-length''
                           then (case parse_u64 value of None \<Rightarrow> 0 | Some l \<Rightarrow> l) else cl);
                    ch' = (ch \<or> eq_ignore_ascii_case name ''transfer-encoding''
                             \<and> (\<exists>enc\<in>set (split_char (CHR '','') value).
                                  eq_ignore_ascii_case (trim_ws enc) ''chunked'')) in
                parse_header_lines lines (hs @ [(name, value)]) cl' ch'))"

definition try_parse_http_request :: "bytes \<Rightarrow> parse_result outcome" where
  "try_parse_http_request buf =
     (case find_sub crlf2 buf of
        None \<Rightarrow> Returned Incomplete
      | Some header_end \<Rightarrow>
          (case from_utf8 (take header_end buf) of
             None \<Rightarrow> Returned Incomplete
           | Some header_str \<Rightarrow>
               (let body_start = header_end + 4; lines = split_str crlf header_str in
                case split_whitespace (hd lines) of
                  meth # path # _ \<Rightarrow>
                    (let (headers, content_length, is_chunked) = parse_header_lines (tl lines) [] 0 False;
                         done = (\<lambda>body consumed.
                           Returned (Complete \<lparr>ph_method = meth, ph_path = path, ph_headers = headers,
                                               ph_body = body\<rparr> consumed)) in
                     if is_chunked then
                       (case parse_chunked_body buf body_start of
                          Panicked \<Rightarrow> Panicked
                        | Returned None \<Rightarrow> Returned Incomplete
                        | Returned (Some (body, consumed)) \<Rightarrow> done body consumed)
                     else if body_start + content_length \<ge> 2 ^ 64 then Panicked
                     else if length buf < body_start + content_length then Returned Incomplete
                     else done (take content_length (drop body_start buf)) (body_start + content_length))
                | _ \<Rightarrow> Returned Incomplete)))"

section \<open>Responses\<close>

definition status_text :: "nat \<Rightarrow> bytes" where
  "status_text status =
     (if status = 200 then ''OK'' else if status = 400 then ''Bad Request''
      else if status = 403 then ''Forbidden'' else if status = 411 then ''Length Required''
      else if status = 413 then ''Payload Too Large'' else if status = 500 then ''Internal Server Error''
      else if status = 502 then ''Bad Gateway'' else ''Unknown'')"

definition header_lines :: "(bytes \<times> bytes) list \<Rightarrow> bytes" where
  "header_lines headers = concat (map (\<lambda>(name, value). name @ '': '' @ value @ crlf) headers)"

definition format_http_response :: "nat \<Rightarrow> (bytes \<times> bytes) list \<Rightarrow> bytes \<Rightarrow> bytes" where
  "format_http_response status headers body =
     ''HTTP/1.1 '' @ show_nat status @ '' '' @ status_text status @ crlf @ header_lines headers
     @ (if \<exists>h\<in>set headers. eq_ignore_ascii_case (fst h) ''content-length'' then []
        else ''content-length: '' @ show_nat (length body) @ crlf)
     @ crlf @ body"

definition stream_status_text :: "nat \<Rightarrow> bytes" where
  "stream_status_text status = (if status = 503 then ''Service Unavailable'' else status_text status)"

definition format_http_response_header :: "nat \<Rightarrow> (bytes \<times> bytes) list \<Rightarrow> bytes" where
  "format_http_response_header status headers =
     ''HTTP/1.1 '' @ show_nat status @ '' '' @ stream_status_text status @ crlf
     @ header_lines (filter (\<lambda>(name, _). \<not> (eq_ignore_ascii_case name ''content-length''
                                              \<or> eq_ignore_ascii_case name ''transfer-encoding'')) headers)
     @ ''transfer-encoding: chunked'' @ crlf @ crlf"

definition format_chunk :: "bytes \<Rightarrow> bytes" where
  "format_chunk data = show_hex (length data) @ crlf @ data @ crlf"

definition format_chunk_terminator :: bytes where
  "format_chunk_terminator = ''0'' @ crlf2"

section \<open>Facts\<close>

lemma find_crlf_scan: "pos \<le> length buf \<Longrightarrow> find_crlf buf pos = map_option (\<lambda>n. pos + n) (find_sub crlf (drop pos buf))"
  by (simp add: find_crlf_def)

lemma parse_trailers_scan:
  "pos \<le> length buf \<Longrightarrow> parse_trailers buf pos = map_option (\<lambda>n. pos + n) (trailer_scan (drop pos buf))"
proof (induction buf pos rule: parse_trailers.induct)
  case (1 buf pos)
  show ?case
  proof (cases "find_sub crlf (drop pos buf)")
    case None
    then show ?thesis using 1(2)
      by (simp add: parse_trailers.simps [of buf pos] trailer_scan.simps [of "drop pos buf"] find_crlf_scan)
  next
    case (Some i)
    then have f: "find_crlf buf pos = Some (pos + i)" using 1(2) by (simp add: find_crlf_scan)
    note b = find_crlf_Some [OF f]
    show ?thesis
    proof (cases "i = 0")
      case True
      then show ?thesis using Some f by (simp add: parse_trailers.simps [of buf pos] trailer_scan.simps [of "drop pos buf"])
    next
      case False
      then have "parse_trailers buf (pos + i + 2) = map_option (\<lambda>n. pos + i + 2 + n) (trailer_scan (drop (pos + i + 2) buf))"
        using 1(1) [OF f] b by simp
      moreover have "drop (i + 2) (drop pos buf) = drop (pos + i + 2) buf" by (simp add: add.commute)
      ultimately show ?thesis using False f Some
        by (simp add: parse_trailers.simps [of buf pos] trailer_scan.simps [of "drop pos buf"] option.map_comp comp_def
            add.assoc add.commute add.left_commute)
    qed
  qed
qed

text \<open>The decoder returns what the chunked coding says, unless it overflows, which an incomplete body
  alone can make it do.\<close>

lemma parse_chunks_scan:
  assumes "pos \<le> length buf" "length buf < 2 ^ 63"
  shows "parse_chunks buf pos body = Returned (map_option (\<lambda>(b, n). (body @ b, pos + n)) (chunk_scan (drop pos buf)))
    \<or> (parse_chunks buf pos body = Panicked \<and> chunk_scan (drop pos buf) = None)"
  using assms
proof (induction buf pos body rule: parse_chunks.induct)
  case (1 buf pos body)
  let ?s = "drop pos buf"
  show ?case
  proof (cases "find_sub crlf ?s")
    case None
    then show ?thesis using 1(2) by (simp add: parse_chunks.simps [of buf pos] chunk_scan.simps [of ?s] find_crlf_scan)
  next
    case (Some i)
    then have f: "find_crlf buf pos = Some (pos + i)" using 1(2) by (simp add: find_crlf_scan)
    note b = find_crlf_Some [OF f]
    have d: "drop (i + 2) ?s = drop (pos + i + 2) buf" by (simp add: add.commute)
    show ?thesis
    proof (cases "chunk_size_of (take i ?s)")
      case None
      then show ?thesis using f Some by (simp add: parse_chunks.simps [of buf pos] chunk_scan.simps [of ?s])
    next
      case z: (Some sz)
      show ?thesis
      proof (cases "sz = 0")
        case True
        then show ?thesis using f Some z b d parse_trailers_scan [of "pos + i + 2" buf]
          by (simp add: parse_chunks.simps [of buf pos] chunk_scan.simps [of ?s] option.map_comp comp_def
              add.assoc add.commute add.left_commute)
      next
        case False
        let ?e = "pos + i + 2 + sz"
        consider (big) "2 ^ 64 \<le> ?e + 2" | (short) "?e + 2 < 2 ^ 64" "length buf < ?e + 2"
          | (bad) "?e + 2 \<le> length buf" "take 2 (drop ?e buf) \<noteq> crlf"
          | (good) "?e + 2 \<le> length buf" "take 2 (drop ?e buf) = crlf" by linarith
        then show ?thesis
        proof cases
          case big
          then have "length (drop (i + 2) ?s) < sz + 2" using 1(3) unfolding d by simp
          then have "chunk_scan ?s = None" using Some z False by (simp add: chunk_scan.simps [of ?s] Let_def)
          then show ?thesis using big f z False
            by (auto simp: parse_chunks.simps [of buf pos] Let_def checked_add_usize_def)
        next
          case short
          then have "length (drop (i + 2) ?s) < sz + 2" unfolding d by simp
          then have "chunk_scan ?s = None" using Some z False by (simp add: chunk_scan.simps [of ?s] Let_def)
          then show ?thesis using short f z False
            by (auto simp: parse_chunks.simps [of buf pos] Let_def checked_add_usize_def)
        next
          case bad
          then have "take 2 (drop sz (drop (i + 2) ?s)) \<noteq> crlf" unfolding d by (simp add: add.commute add.left_commute)
          then have "chunk_scan ?s = None" using Some z False by (simp add: chunk_scan.simps [of ?s] Let_def)
          then show ?thesis using bad f z False 1(3)
            by (auto simp: parse_chunks.simps [of buf pos] Let_def checked_add_usize_def)
        next
          case good
          have z': "chunk_size_of (take (pos + i - pos) (drop pos buf)) = Some sz" using z by simp
          have ca: "checked_add_usize (pos + i + 2) sz = Some ?e" using good 1(3) by (simp add: checked_add_usize_def)
          have lim: "\<not> 2 ^ 64 \<le> ?e + 2" "\<not> length buf < ?e + 2" "\<not> take 2 (drop ?e buf) \<noteq> crlf"
            using good 1(3) by auto
          let ?body = "body @ take (?e - (pos + i + 2)) (drop (pos + i + 2) buf)"
          have step: "parse_chunks buf pos body = parse_chunks buf (?e + 2) ?body"
            unfolding parse_chunks.simps [of buf pos] f option.case z' Let_def ca using False lim by simp
          have "take 2 (drop sz (drop (i + 2) ?s)) = crlf" "\<not> length (drop (i + 2) ?s) < sz + 2"
            "drop (sz + 2) (drop (i + 2) ?s) = drop (?e + 2) buf"
            unfolding d using good by (auto simp: add.commute add.left_commute)
          then have cs: "chunk_scan ?s = map_option (\<lambda>(b, n). (take sz (drop (pos + i + 2) buf) @ b, i + 2 + (sz + 2) + n))
              (chunk_scan (drop (?e + 2) buf))"
            unfolding chunk_scan.simps [of ?s] Some option.case z Let_def d using False by simp
          have "parse_chunks buf (?e + 2) ?body =
              Returned (map_option (\<lambda>(b, n). (?body @ b, ?e + 2 + n)) (chunk_scan (drop (?e + 2) buf)))
            \<or> (parse_chunks buf (?e + 2) ?body = Panicked \<and> chunk_scan (drop (?e + 2) buf) = None)"
            by (rule 1(1) [OF f z' refl False ca lim good(1) 1(3)])
          then show ?thesis unfolding step cs
            by (cases "chunk_scan (drop (?e + 2) buf)") (auto simp: add.commute add.left_commute)
        qed
      qed
    qed
  qed
qed

lemma chunk_scan_format_chunk:
  "d \<noteq> [] \<Longrightarrow> length d < 2 ^ 64 \<Longrightarrow> chunk_scan (format_chunk d @ s) =
     map_option (\<lambda>(b, n). (d @ b, length (format_chunk d) + n)) (chunk_scan s)"
  using chunk_scan_chunk [of d s] by (simp add: format_chunk_def add.assoc)

lemma chunk_scan_stream:
  "(\<And>d. d \<in> set ds \<Longrightarrow> d \<noteq> [] \<and> length d < 2 ^ 64) \<Longrightarrow>
     chunk_scan (concat (map format_chunk ds) @ format_chunk_terminator @ s) =
     Some (concat ds, length (concat (map format_chunk ds)) + 5)"
proof (induction ds)
  case Nil
  then show ?case using chunk_scan_last [of s] by (simp add: format_chunk_terminator_def)
next
  case (Cons d ds)
  have "d \<noteq> []" "length d < 2 ^ 64" using Cons(2) [of d] by auto
  then show ?case using Cons chunk_scan_format_chunk [of d "concat (map format_chunk ds) @ format_chunk_terminator @ s"]
    by simp
qed

lemma parse_chunked_body_scan:
  assumes "start \<le> length buf" "length buf < 2 ^ 63"
  shows "parse_chunked_body buf start = Returned (Some (b, n)) \<longleftrightarrow>
    (\<exists>m. chunk_scan (drop start buf) = Some (b, m) \<and> n = start + m)"
  using parse_chunks_scan [OF assms, of "[]"] unfolding parse_chunked_body_def
  by (cases "chunk_scan (drop start buf)") auto

text \<open>An empty chunk is the terminator, so it ends the body wherever it is written.\<close>

lemma empty_chunk_is_terminator: "format_chunk [] = format_chunk_terminator"
proof -
  have "show_hex 0 = ''0''" by code_simp
  then show ?thesis by (simp add: format_chunk_def format_chunk_terminator_def crlf2_crlf)
qed

section \<open>Properties\<close>

text \<open>A body streamed as non-empty chunks and the terminator decodes to the chunks' data, and the
  decoder consumes exactly the encoding, whatever follows it.\<close>

theorem chunk_encoding_roundtrip:
  assumes "\<forall>d\<in>set ds. d \<noteq> []"
    and "length (concat (map format_chunk ds) @ format_chunk_terminator @ rest) < 2 ^ 63"
  shows "parse_chunked_body (concat (map format_chunk ds) @ format_chunk_terminator @ rest) 0 =
    Returned (Some (concat ds, length (concat (map format_chunk ds) @ format_chunk_terminator)))"
proof -
  have "d \<noteq> [] \<and> length d < 2 ^ 64" if d: "d \<in> set ds" for d
  proof -
    obtain us vs where "ds = us @ d # vs" using split_list [OF d] by blast
    then have "length d \<le> length (concat (map format_chunk ds))" by (simp add: format_chunk_def)
    then show ?thesis using assms d by auto
  qed
  then have "chunk_scan (concat (map format_chunk ds) @ format_chunk_terminator @ rest) =
      Some (concat ds, length (concat (map format_chunk ds)) + 5)" by (rule chunk_scan_stream)
  then show ?thesis
    using parse_chunked_body_scan [of 0 "concat (map format_chunk ds) @ format_chunk_terminator @ rest" "concat ds"] assms(2)
    by (simp add: format_chunk_terminator_def)
qed

theorem chunk_encoding_roundtrip_witness:
  "parse_chunked_body (format_chunk ''ab'' @ format_chunk ''c'' @ format_chunk_terminator @ ''GET'') 0 =
     Returned (Some (''abc'', 18))"
proof -
  have "show_hex (Suc (Suc 0)) = ''2''" "show_hex (Suc 0) = ''1''" by code_simp+
  then show ?thesis
    using chunk_encoding_roundtrip [of "[''ab'', ''c'']" "''GET''"]
    by (simp add: format_chunk_def format_chunk_terminator_def)
qed

text \<open>C37: the program's two readers of chunked bodies agree: on a stream that ends, the L7 relay
  accepts a chunked body exactly when the inference parser decodes it.\<close>

theorem chunked_readers_agree:
  assumes "writable w" "cn_end r = Eof" "length (cn_in r) < 2 ^ 63"
  shows "fst (relay_chunked r w []) = Inr () \<longleftrightarrow>
    (\<exists>body n. parse_chunked_body (cn_in r) 0 = Returned (Some (body, n)))"
proof -
  obtain x r' w' where x: "relay_chunked_loop r w [] 0 = (x, r', w')" by (metis prod_cases3)
  have "fst (relay_chunked r w []) = Inr () \<longleftrightarrow> chunk_scan (cn_in r) \<noteq> None"
    using relay_chunked_loop_Inr [of r w "[]" 0 "()" r' w'] relay_chunked_loop_ok [OF assms(1,2), of 0 "[]"] assms(3) x
    by (auto simp: relay_chunked_def)
  then show ?thesis using parse_chunked_body_scan [of 0 "cn_in r"] assms(3) by auto
qed

theorem chunked_readers_agree_witness:
  "fst (relay_chunked (fresh_conn format_chunk_terminator [2]) (fresh_conn [] []) []) = Inr ()"
proof -
  have "parse_chunked_body format_chunk_terminator 0 = Returned (Some ([], 5))"
    using parse_chunked_body_scan [of 0 format_chunk_terminator "[]" 5] chunk_scan_stream [of "[]" "[]"]
    by (simp add: format_chunk_terminator_def)
  then show ?thesis
    using chunked_readers_agree [of "fresh_conn [] []" "fresh_conn format_chunk_terminator [2]"]
    by (simp add: fresh_conn_def writable_def format_chunk_terminator_def)
qed

text \<open>Parsing is stable: once the buffer holds a complete request, any further bytes leave the
  request and the number of bytes consumed unchanged, and that number lies within the buffer, so the
  next request starts where this one ended.\<close>

theorem parsed_request_is_stable:
  assumes "try_parse_http_request buf = Returned (Complete req n)" "length (buf @ extra) < 2 ^ 63"
  shows "try_parse_http_request (buf @ extra) = Returned (Complete req n) \<and> 4 \<le> n \<and> n \<le> length buf"
proof -
  obtain h where h: "find_sub crlf2 buf = Some h"
    using assms(1) by (auto simp: try_parse_http_request_def split: option.splits)
  have hb: "h + 4 \<le> length buf" using find_sub_Some_bound [OF h] by simp
  have tk: "take h (buf @ extra) = take h buf" using hb by simp
  obtain hd_str where u: "from_utf8 (take h buf) = Some hd_str"
    using assms(1) h by (auto simp: try_parse_http_request_def split: option.splits)
  obtain m p ws where ws: "split_whitespace (hd (split_str crlf hd_str)) = m # p # ws"
    using assms(1) h u by (auto simp: try_parse_http_request_def Let_def split: list.splits)
  obtain hs cl ch where ph: "parse_header_lines (tl (split_str crlf hd_str)) [] 0 False = (hs, cl, ch)"
    by (metis prod_cases3)
  note unf = try_parse_http_request_def option.case Let_def list.case prod.case
  have eq: "try_parse_http_request b =
      (let done = (\<lambda>body consumed. Returned (Complete \<lparr>ph_method = m, ph_path = p, ph_headers = hs, ph_body = body\<rparr> consumed)) in
       if ch then (case parse_chunked_body b (h + 4) of
           Panicked \<Rightarrow> Panicked | Returned None \<Rightarrow> Returned Incomplete
         | Returned (Some (body, consumed)) \<Rightarrow> done body consumed)
       else if h + 4 + cl \<ge> 2 ^ 64 then Panicked
       else if length b < h + 4 + cl then Returned Incomplete
       else done (take cl (drop (h + 4) b)) (h + 4 + cl))"
    if "find_sub crlf2 b = Some h" "from_utf8 (take h b) = Some hd_str" for b
    unfolding unf that ws ph by simp
  note e1 = eq [OF h u] and e2 = eq [OF find_sub_append_Some [OF h] u [folded tk]]
  show ?thesis
  proof (cases ch)
    case True
    then obtain body where b: "parse_chunked_body buf (h + 4) = Returned (Some (body, n))"
      and r: "req = \<lparr>ph_method = m, ph_path = p, ph_headers = hs, ph_body = body\<rparr>"
      using assms(1) e1 by (auto simp: Let_def split: outcome.splits option.splits)
    have "length buf < 2 ^ 63" using assms(2) by simp
    from parse_chunked_body_scan [OF hb this, of body n] b
    obtain k where k: "chunk_scan (drop (h + 4) buf) = Some (body, k)" "n = h + 4 + k" by blast
    have "chunk_scan (drop (h + 4) (buf @ extra)) = Some (body, k)" using chunk_scan_append [OF k(1)] hb by simp
    then have "parse_chunked_body (buf @ extra) (h + 4) = Returned (Some (body, n))"
      using parse_chunked_body_scan [of "h + 4" "buf @ extra" body n] assms(2) hb k(2) by simp
    then show ?thesis using e2 True r k(2) chunk_scan_bound [OF k(1)] hb by (simp add: Let_def)
  next
    case False
    then show ?thesis using assms(1) e1 e2 hb by (auto simp: Let_def split: if_splits)
  qed
qed

theorem parsed_request_is_stable_witness:
  "\<exists>req n. try_parse_http_request (''GET /v1/models HTTP/1.1'' @ crlf2 @ ''GET'') = Returned (Complete req n) \<and> n \<le> 28"
proof -
  let ?b = "''GET /v1/models HTTP/1.1'' @ crlf2"
  have f: "find_sub crlf2 ?b = Some 23" "from_utf8 (take 23 ?b) = Some ''GET /v1/models HTTP/1.1''"
    "split_str crlf ''GET /v1/models HTTP/1.1'' = [''GET /v1/models HTTP/1.1'']"
    "split_whitespace ''GET /v1/models HTTP/1.1'' = [''GET'', ''/v1/models'', ''HTTP/1.1'']" by code_simp+
  have "\<exists>req. try_parse_http_request ?b = Returned (Complete req 27)"
    unfolding try_parse_http_request_def f option.case Let_def list.sel list.case by simp
  then obtain req where "try_parse_http_request ?b = Returned (Complete req 27)" ..
  from parsed_request_is_stable [OF this, of "''GET''"] show ?thesis by auto
qed

text \<open>A \<open>Content-Length\<close> that overflows \<open>usize\<close> with the header makes the parser panic; the request is
  neither refused nor reported as incomplete.\<close>

theorem oversized_content_length_panics:
  "try_parse_http_request (''POST /v1/messages HTTP/1.1'' @ crlf @ ''Content-Length: 18446744073709551615'' @ crlf2) = Panicked"
proof -
  let ?h = "''POST /v1/messages HTTP/1.1'' @ crlf @ ''Content-Length: 18446744073709551615''"
  have f: "find_sub crlf2 (?h @ crlf2) = Some (length ?h)" "from_utf8 (take (length ?h) (?h @ crlf2)) = Some ?h"
    "split_str crlf ?h = [''POST /v1/messages HTTP/1.1'', ''Content-Length: 18446744073709551615'']"
    "split_whitespace ''POST /v1/messages HTTP/1.1'' = [''POST'', ''/v1/messages'', ''HTTP/1.1'']" by code_simp+
  have l: "split_once ''Content-Length: 18446744073709551615'' '':'' = Some (''Content-Length'', '' 18446744073709551615'')"
    "trim_ws ''Content-Length'' = ''Content-Length''" "trim_ws '' 18446744073709551615'' = ''18446744073709551615''"
    "eq_ignore_ascii_case ''Content-Length'' ''content-length''"
    "\<not> eq_ignore_ascii_case ''Content-Length'' ''transfer-encoding''" by code_simp+
  have "parse_u64 ''18446744073709551615'' = Some 18446744073709551615"
    by (simp add: parse_u64_def from_str_radix_def starts_with_def digit_value_def is_ascii_digit_def)
  then have "parse_header_lines [''Content-Length: 18446744073709551615''] [] 0 False =
      ([(''Content-Length'', ''18446744073709551615'')], 18446744073709551615, False)"
    using l by simp
  then show ?thesis
    using f by (simp add: try_parse_http_request_def)
qed

text \<open>Exactly these calls are recognised as inference calls: a POST, in any case, of one of the four
  completion endpoints, and a GET of the model list or of anything below it; the query string does not
  matter.\<close>

theorem recognised_inference_calls:
  "detect_inference_pattern meth path default_patterns \<noteq> None \<longleftrightarrow>
     (let path_only = hd (split_char (CHR ''?'') path) in
      (eq_ignore_ascii_case meth ''POST''
         \<and> path_only \<in> {''/v1/chat/completions'', ''/v1/completions'', ''/v1/responses'', ''/v1/messages''})
      \<or> (eq_ignore_ascii_case meth ''GET''
         \<and> (path_only = ''/v1/models'' \<or> starts_with path_only ''/v1/models/'')))"
proof -
  have s: "strip_suffix ''/v1/models/*'' ''/*'' = Some ''/v1/models''" "strip_suffix ''/v1/models'' ''/*'' = None"
    "strip_suffix ''/v1/messages'' ''/*'' = None" "strip_suffix ''/v1/responses'' ''/*'' = None"
    "strip_suffix ''/v1/completions'' ''/*'' = None" "strip_suffix ''/v1/chat/completions'' ''/*'' = None"
    by code_simp+
  have sub: "(case strip_prefix q ''/v1/models'' of None \<Rightarrow> False | Some sfx \<Rightarrow> starts_with sfx ''/'')
      \<longleftrightarrow> starts_with q ''/v1/models/''" for q
    by (auto simp: strip_prefix_def starts_with_split)
  show ?thesis
    unfolding detect_inference_pattern_def Let_def find_list_ex default_patterns_def
    by (simp add: pattern_matches_def s sub)
qed

end
