(* ===== verification/Router.thy ===== *)
theory Router
  imports Rust_Utf8 Json
begin

text \<open>
  The inference router, \<open>crates/clustershell-router/src\<close> (\<open>lib.rs\<close>, \<open>backend.rs\<close>, \<open>config.rs\<close>, \<open>mock.rs\<close>),
  and the provider registry it uses, \<open>crates/clustershell-core/src/inference.rs\<close>. The HTTP client, the
  JSON parser and printer and the process environment are parameters.
\<close>

section \<open>Provider profiles\<close>

datatype auth_header = Bearer | Custom bytes

record inference_provider_profile =
  ipp_provider_type :: bytes
  ipp_default_base_url :: bytes
  ipp_protocols :: "bytes list"
  ipp_credential_key_names :: "bytes list"
  ipp_base_url_config_keys :: "bytes list"
  ipp_auth :: auth_header
  ipp_default_headers :: "(bytes \<times> bytes) list"

definition OPENAI_PROTOCOLS :: "bytes list" where
  "OPENAI_PROTOCOLS = [''openai_chat_completions'', ''openai_completions'', ''openai_responses'', ''model_discovery'']"

definition ANTHROPIC_PROTOCOLS :: "bytes list" where
  "ANTHROPIC_PROTOCOLS = [''anthropic_messages'', ''model_discovery'']"

definition OPENAI_PROFILE :: inference_provider_profile where
  "OPENAI_PROFILE =
     \<lparr>ipp_provider_type = ''openai'', ipp_default_base_url = ''https://api.openai.com/v1'',
      ipp_protocols = OPENAI_PROTOCOLS, ipp_credential_key_names = [''OPENAI_API_KEY''],
      ipp_base_url_config_keys = [''OPENAI_BASE_URL''], ipp_auth = Bearer, ipp_default_headers = []\<rparr>"

definition ANTHROPIC_PROFILE :: inference_provider_profile where
  "ANTHROPIC_PROFILE =
     \<lparr>ipp_provider_type = ''anthropic'', ipp_default_base_url = ''https://api.anthropic.com/v1'',
      ipp_protocols = ANTHROPIC_PROTOCOLS, ipp_credential_key_names = [''ANTHROPIC_API_KEY''],
      ipp_base_url_config_keys = [''ANTHROPIC_BASE_URL''], ipp_auth = Custom ''x-api-key'',
      ipp_default_headers = [(''anthropic-version'', ''2023-06-01'')]\<rparr>"

definition NVIDIA_PROFILE :: inference_provider_profile where
  "NVIDIA_PROFILE =
     \<lparr>ipp_provider_type = ''nvidia'', ipp_default_base_url = ''https://integrate.api.nvidia.com/v1'',
      ipp_protocols = OPENAI_PROTOCOLS, ipp_credential_key_names = [''NVIDIA_API_KEY''],
      ipp_base_url_config_keys = [''NVIDIA_BASE_URL''], ipp_auth = Bearer, ipp_default_headers = []\<rparr>"

definition profile_for :: "bytes \<Rightarrow> inference_provider_profile option" where
  "profile_for provider_type =
     (let t = to_ascii_lowercase (trim_ws provider_type) in
      if t = ''openai'' then Some OPENAI_PROFILE
      else if t = ''anthropic'' then Some ANTHROPIC_PROFILE
      else if t = ''nvidia'' then Some NVIDIA_PROFILE else None)"

definition auth_for_provider_type :: "bytes \<Rightarrow> auth_header \<times> (bytes \<times> bytes) list" where
  "auth_for_provider_type provider_type =
     (case profile_for provider_type of
        Some profile \<Rightarrow> (ipp_auth profile, ipp_default_headers profile)
      | None \<Rightarrow> (Bearer, []))"

text \<open>The loop of \<open>normalize_protocols\<close>; \<open>seen\<close> always holds the elements of \<open>normalized\<close>.\<close>

fun normalize_loop :: "bytes list \<Rightarrow> bytes list \<Rightarrow> bytes list" where
  "normalize_loop normalized [] = normalized"
| "normalize_loop normalized (protocol # protocols) =
     (let candidate = to_ascii_lowercase (trim_ws protocol) in
      if candidate = [] \<or> candidate \<in> set normalized then normalize_loop normalized protocols
      else normalize_loop (normalized @ [candidate]) protocols)"

definition normalize_protocols :: "bytes list \<Rightarrow> bytes list" where
  "normalize_protocols protocols = normalize_loop [] protocols"

section \<open>Routes\<close>

datatype router_error =
    RouteNotFound bytes
  | NoCompatibleRoute bytes
  | Unauthorized bytes
  | UpstreamUnavailable bytes
  | UpstreamProtocol bytes
  | Internal bytes

record route_config =
  rc_name :: bytes
  rc_endpoint :: bytes
  rc_model :: bytes
  rc_provider_type :: "bytes option"
  rc_protocols :: "bytes list"
  rc_api_key :: "bytes option"
  rc_api_key_env :: "bytes option"

record resolved_route =
  rr_name :: bytes
  rr_endpoint :: bytes
  rr_model :: bytes
  rr_api_key :: bytes
  rr_protocols :: "bytes list"
  rr_auth :: auth_header
  rr_default_headers :: "(bytes \<times> bytes) list"

text \<open>\<open>env\<close> is the process environment.\<close>

definition resolve_api_key :: "(bytes \<Rightarrow> bytes option) \<Rightarrow> route_config \<Rightarrow> (router_error, bytes) result" where
  "resolve_api_key env r =
     (case rc_api_key r of
        Some key \<Rightarrow> Inr key
      | None \<Rightarrow>
          (case rc_api_key_env r of
             Some env_var \<Rightarrow>
               ok_or (Internal (''environment variable '' @ env_var @ '' not set for route '' @ [CHR 0x27]
                        @ rc_name r @ [CHR 0x27])) (env env_var)
           | None \<Rightarrow> Inl (Internal (''route '' @ [CHR 0x27] @ rc_name r @ [CHR 0x27]
                        @ '' has neither api_key nor api_key_env''))))"

definition auth_from_provider_type :: "bytes option \<Rightarrow> auth_header \<times> (bytes \<times> bytes) list" where
  "auth_from_provider_type pt = auth_for_provider_type (case pt of None \<Rightarrow> [] | Some t \<Rightarrow> t)"

definition resolve_route :: "(bytes \<Rightarrow> bytes option) \<Rightarrow> route_config \<Rightarrow> (router_error, resolved_route) result" where
  "resolve_route env r =
     (let protocols = normalize_protocols (rc_protocols r) in
      if protocols = [] then
        Inl (Internal (''route '' @ [CHR 0x27] @ rc_name r @ [CHR 0x27] @ '' has no protocols''))
      else let (auth, default_headers) = auth_from_provider_type (rc_provider_type r) in
           result_bind (resolve_api_key env r) (\<lambda>key.
             Inr \<lparr>rr_name = rc_name r, rr_endpoint = rc_endpoint r, rr_model = rc_model r, rr_api_key = key,
                  rr_protocols = protocols, rr_auth = auth, rr_default_headers = default_headers\<rparr>))"

fun resolve_routes :: "(bytes \<Rightarrow> bytes option) \<Rightarrow> route_config list \<Rightarrow> (router_error, resolved_route list) result" where
  "resolve_routes env [] = Inr []"
| "resolve_routes env (r # rs) =
     result_bind (resolve_route env r) (\<lambda>x. result_bind (resolve_routes env rs) (\<lambda>xs. Inr (x # xs)))"

section \<open>Backend requests\<close>

record backend_request =
  br_method :: bytes
  br_url :: bytes
  br_headers :: "(bytes \<times> bytes) list"
  br_body :: bytes

fun drop_trailing :: "char \<Rightarrow> bytes \<Rightarrow> bytes" where
  "drop_trailing c s = rev (dropWhile (\<lambda>x. x = c) (rev s))"

definition build_backend_url :: "bytes \<Rightarrow> bytes \<Rightarrow> bytes" where
  "build_backend_url endpoint path =
     (let base = drop_trailing (CHR ''/'') endpoint in
      if ends_with base ''/v1'' \<and> (path = ''/v1'' \<or> starts_with path ''/v1/'') then base @ drop 3 path
      else base @ path)"

definition strip_headers :: "bytes list" where
  "strip_headers = [''authorization'', ''x-api-key'', ''host'']"

definition auth_headers :: "resolved_route \<Rightarrow> (bytes \<times> bytes) list" where
  "auth_headers route =
     (case rr_auth route of
        Bearer \<Rightarrow> [(''authorization'', ''Bearer '' @ rr_api_key route)]
      | Custom header_name \<Rightarrow> [(header_name, rr_api_key route)])"

definition backend_headers :: "resolved_route \<Rightarrow> (bytes \<times> bytes) list \<Rightarrow> (bytes \<times> bytes) list" where
  "backend_headers route headers =
     auth_headers route
     @ filter (\<lambda>(name, _). to_ascii_lowercase name \<notin> set strip_headers) headers
     @ filter (\<lambda>(name, _). \<not> (\<exists>h\<in>set headers. eq_ignore_ascii_case (fst h) name)) (rr_default_headers route)"

text \<open>\<open>dec\<close> and \<open>enc\<close> are the JSON parser and printer; printing a parsed value does not fail.\<close>

definition backend_body :: "(bytes \<Rightarrow> json option) \<Rightarrow> (json \<Rightarrow> bytes) \<Rightarrow> resolved_route \<Rightarrow> bytes \<Rightarrow> bytes" where
  "backend_body dec enc route body =
     (case dec body of
        Some j \<Rightarrow> enc (json_set ''model'' (JStr (rr_model route)) j)
      | None \<Rightarrow> body)"

text \<open>A response as the caller sees it: the results of the successive calls of \<open>next_chunk\<close>, where an
  error ends the stream as its end does. \<open>send\<close> is the HTTP client, \<open>valid_method\<close> its method parser.\<close>

record streaming_response =
  sr_status :: nat
  sr_headers :: "(bytes \<times> bytes) list"
  sr_chunks :: "bytes list"

datatype send_error = SendTimeout | SendConnect bytes | SendOther bytes

record http_client =
  hc_send :: "backend_request \<Rightarrow> (send_error, streaming_response) result"
  hc_valid_method :: "bytes \<Rightarrow> bool"
  hc_decode :: "bytes \<Rightarrow> json option"
  hc_encode :: "json \<Rightarrow> bytes"

definition map_send_error :: "bytes \<Rightarrow> send_error \<Rightarrow> router_error" where
  "map_send_error url e =
     (case e of
        SendTimeout \<Rightarrow> UpstreamUnavailable (''request to '' @ url @ '' timed out'')
      | SendConnect m \<Rightarrow> UpstreamUnavailable (''failed to connect to '' @ url @ '': '' @ m)
      | SendOther m \<Rightarrow> Internal (''HTTP request failed: '' @ m))"

definition send_backend_request ::
  "http_client \<Rightarrow> resolved_route \<Rightarrow> bytes \<Rightarrow> bytes \<Rightarrow> (bytes \<times> bytes) list \<Rightarrow> bytes
     \<Rightarrow> (router_error, streaming_response) result" where
  "send_backend_request client route meth path headers body =
     (let url = build_backend_url (rr_endpoint route) path in
      if \<not> hc_valid_method client meth then Inl (Internal (''invalid HTTP method: '' @ meth))
      else result_map_err (map_send_error url)
             (hc_send client
                \<lparr>br_method = meth, br_url = url, br_headers = backend_headers route headers,
                 br_body = backend_body (hc_decode client) (hc_encode client) route body\<rparr>))"

section \<open>Mock routes\<close>

definition is_mock_route :: "resolved_route \<Rightarrow> bool" where
  "is_mock_route route = starts_with (rr_endpoint route) ''mock://''"

definition openai_usage :: json where
  "openai_usage = json_object [(''prompt_tokens'', JNum 1), (''completion_tokens'', JNum 5), (''total_tokens'', JNum 6)]"

definition openai_chat_completion_body :: "bytes \<Rightarrow> json" where
  "openai_chat_completion_body model =
     json_object [(''id'', JStr ''mock-chatcmpl-001''), (''object'', JStr ''chat.completion''),
       (''created'', JNum 1700000000), (''model'', JStr model),
       (''choices'', JArr [json_object [(''index'', JNum 0),
          (''message'', json_object [(''role'', JStr ''assistant''),
                                     (''content'', JStr ''Hello from clustershell mock backend'')]),
          (''finish_reason'', JStr ''stop'')]]),
       (''usage'', openai_usage)]"

definition openai_completion_body :: "bytes \<Rightarrow> json" where
  "openai_completion_body model =
     json_object [(''id'', JStr ''mock-cmpl-001''), (''object'', JStr ''text_completion''),
       (''created'', JNum 1700000000), (''model'', JStr model),
       (''choices'', JArr [json_object [(''index'', JNum 0),
          (''text'', JStr ''Hello from clustershell mock backend''), (''finish_reason'', JStr ''stop'')]]),
       (''usage'', openai_usage)]"

definition anthropic_messages_body :: "bytes \<Rightarrow> json" where
  "anthropic_messages_body model =
     json_object [(''id'', JStr ''mock-msg-001''), (''type'', JStr ''message''), (''role'', JStr ''assistant''),
       (''model'', JStr model),
       (''content'', JArr [json_object [(''type'', JStr ''text''),
          (''text'', JStr ''Hello from clustershell mock backend'')]]),
       (''stop_reason'', JStr ''end_turn''),
       (''usage'', json_object [(''input_tokens'', JNum 1), (''output_tokens'', JNum 5)])]"

definition generic_body :: "bytes \<Rightarrow> json" where
  "generic_body model =
     json_object [(''mock'', JBool True), (''model'', JStr model),
       (''message'', JStr ''Hello from clustershell mock backend'')]"

definition mock_response :: "(json \<Rightarrow> bytes) \<Rightarrow> resolved_route \<Rightarrow> bytes \<Rightarrow> streaming_response" where
  "mock_response enc route source_protocol =
     (let protocol = (if source_protocol \<in> set (rr_protocols route) then source_protocol
                      else case rr_protocols route of [] \<Rightarrow> [] | p # _ \<Rightarrow> p);
          body = (if protocol = ''openai_chat_completions'' then openai_chat_completion_body (rr_model route)
                  else if protocol = ''openai_completions'' then openai_completion_body (rr_model route)
                  else if protocol = ''anthropic_messages'' then anthropic_messages_body (rr_model route)
                  else generic_body (rr_model route)) in
      \<lparr>sr_status = 200,
       sr_headers = [(''content-type'', ''application/json''), (''x-clustershell-mock'', ''true'')],
       sr_chunks = [enc body]\<rparr>)"

section \<open>Routing\<close>

definition compatible_route :: "bytes \<Rightarrow> resolved_route list \<Rightarrow> resolved_route option" where
  "compatible_route source_protocol candidates =
     (let normalized_source = to_ascii_lowercase (trim_ws source_protocol) in
      find (\<lambda>r. normalized_source \<in> set (rr_protocols r)) candidates)"

definition proxy_with_candidates_streaming ::
  "http_client \<Rightarrow> bytes \<Rightarrow> bytes \<Rightarrow> bytes \<Rightarrow> (bytes \<times> bytes) list \<Rightarrow> bytes \<Rightarrow> resolved_route list
     \<Rightarrow> (router_error, streaming_response) result" where
  "proxy_with_candidates_streaming client source_protocol meth path headers body candidates =
     (case compatible_route source_protocol candidates of
        None \<Rightarrow> Inl (NoCompatibleRoute source_protocol)
      | Some route \<Rightarrow>
          (if is_mock_route route then
             Inr (mock_response (hc_encode client) route (to_ascii_lowercase (trim_ws source_protocol)))
           else send_backend_request client route meth path headers body))"

section \<open>Facts\<close>

lemma normalize_loop_set:
  "set (normalize_loop ns ps) = set ns \<union> ((\<lambda>p. to_ascii_lowercase (trim_ws p)) ` set ps - {[]})"
  by (induction ns ps rule: normalize_loop.induct) (auto simp: Let_def)

lemma normalize_loop_distinct: "distinct ns \<Longrightarrow> distinct (normalize_loop ns ps)"
  by (induction ns ps rule: normalize_loop.induct) (auto simp: Let_def)

lemma compatible_route_Some:
  "compatible_route sp cs = Some r \<longleftrightarrow>
     (\<exists>i<length cs. cs ! i = r \<and> to_ascii_lowercase (trim_ws sp) \<in> set (rr_protocols r)
        \<and> (\<forall>j<i. to_ascii_lowercase (trim_ws sp) \<notin> set (rr_protocols (cs ! j))))"
  by (auto simp: compatible_route_def Let_def find_Some_iff)

lemma profile_headers:
  assumes "profile_for t = Some p"
  shows "(ipp_auth p = Bearer \<and> ipp_default_headers p = [])
    \<or> (ipp_auth p = Custom ''x-api-key'' \<and> ipp_default_headers p = [(''anthropic-version'', ''2023-06-01'')])"
  using assms
  by (auto simp: profile_for_def Let_def OPENAI_PROFILE_def NVIDIA_PROFILE_def ANTHROPIC_PROFILE_def split: if_splits)

lemma resolve_route_Inr:
  assumes "resolve_route env rc = Inr r"
  shows "rr_protocols r = normalize_protocols (rc_protocols rc)" "rr_protocols r \<noteq> []"
    "rr_model r = rc_model rc" "rr_endpoint r = rc_endpoint rc"
    "(rr_auth r = Bearer \<and> rr_default_headers r = [])
       \<or> (rr_auth r = Custom ''x-api-key'' \<and> rr_default_headers r = [(''anthropic-version'', ''2023-06-01'')])"
proof -
  obtain auth dh where a: "auth_from_provider_type (rc_provider_type rc) = (auth, dh)" by force
  have "(auth = Bearer \<and> dh = []) \<or> (auth = Custom ''x-api-key'' \<and> dh = [(''anthropic-version'', ''2023-06-01'')])"
    using a by (auto simp: auth_from_provider_type_def auth_for_provider_type_def split: option.splits dest!: profile_headers)
  then show "rr_protocols r = normalize_protocols (rc_protocols rc)" "rr_protocols r \<noteq> []"
    "rr_model r = rc_model rc" "rr_endpoint r = rc_endpoint rc"
    "(rr_auth r = Bearer \<and> rr_default_headers r = [])
       \<or> (rr_auth r = Custom ''x-api-key'' \<and> rr_default_headers r = [(''anthropic-version'', ''2023-06-01'')])"
    using assms a by (auto simp: resolve_route_def Let_def split: if_splits)
qed

section \<open>Properties\<close>

text \<open>A resolved route sends its own credential and nothing of the caller's: in the headers of a
  backend request every \<open>Authorization\<close> and \<open>X-API-Key\<close>, in any case, is the one made from the
  route's key, no \<open>Host\<close> is passed on, and every other header of the caller is.\<close>

theorem backend_credentials_come_from_route:
  assumes "resolve_route env rc = Inr r"
  shows "(\<forall>h\<in>set (backend_headers r headers).
            to_ascii_lowercase (fst h) \<in> {''authorization'', ''x-api-key''} \<longrightarrow> h \<in> set (auth_headers r))
    \<and> (\<forall>h\<in>set (backend_headers r headers). to_ascii_lowercase (fst h) \<noteq> ''host'')
    \<and> (\<forall>h\<in>set headers. to_ascii_lowercase (fst h) \<notin> set strip_headers \<longrightarrow> h \<in> set (backend_headers r headers))
    \<and> (\<exists>n v. auth_headers r = [(n, v)] \<and> v \<in> {rr_api_key r, ''Bearer '' @ rr_api_key r})"
  using resolve_route_Inr(5) [OF assms]
  by (auto simp: backend_headers_def auth_headers_def strip_headers_def to_ascii_lowercase_def
      ascii_lower_char_def)

theorem backend_credentials_come_from_route_witness:
  "''Bearer stolen'' \<notin> snd ` set (backend_headers
       \<lparr>rr_name = ''r'', rr_endpoint = ''https://a/v1'', rr_model = ''m'', rr_api_key = ''k'', rr_protocols = [''p''],
        rr_auth = Bearer, rr_default_headers = []\<rparr> [(''Authorization'', ''Bearer stolen''), (''X-Trace'', ''1'')])"
proof -
  let ?r = "\<lparr>rr_name = ''r'', rr_endpoint = ''https://a/v1'', rr_model = ''m'', rr_api_key = ''k'', rr_protocols = [''p''],
        rr_auth = Bearer, rr_default_headers = []\<rparr>"
  let ?c = "\<lparr>rc_name = ''r'', rc_endpoint = ''https://a/v1'', rc_model = ''m'', rc_provider_type = None,
        rc_protocols = [''p''], rc_api_key = Some ''k'', rc_api_key_env = None\<rparr>"
  let ?hs = "[(''Authorization'', ''Bearer stolen''), (''X-Trace'', ''1'')]"
  have "resolve_route (\<lambda>_. None) ?c = Inr ?r" by code_simp
  note t = backend_credentials_come_from_route [OF this, of ?hs]
  have "set (backend_headers ?r ?hs) \<subseteq> set (auth_headers ?r) \<union> set ?hs"
    by (auto simp: backend_headers_def)
  moreover have "set (auth_headers ?r) = {(''authorization'', ''Bearer k'')}" by (simp add: auth_headers_def)
  moreover have "to_ascii_lowercase ''Authorization'' = ''authorization''" by code_simp
  ultimately show ?thesis using t by fastforce
qed

text \<open>Normalising protocol names trims, lower-cases and drops duplicates and empty names, and
  nothing else: the result has no duplicates and holds exactly the normalised non-empty names.\<close>

theorem normalize_protocols_spec:
  "distinct (normalize_protocols ps)
   \<and> set (normalize_protocols ps) = (\<lambda>p. to_ascii_lowercase (trim_ws p)) ` set ps - {[]}"
  by (simp add: normalize_protocols_def normalize_loop_set normalize_loop_distinct)

text \<open>A request goes to the first route that speaks its protocol, and is refused as
  \<open>NoCompatibleRoute\<close> exactly when there is none; whatever model the caller names, the body sent to
  the backend carries the route's.\<close>

theorem request_goes_to_first_compatible_route:
  assumes "i < length cs" "sp' \<in> set (rr_protocols (cs ! i))"
    and "\<forall>j<i. sp' \<notin> set (rr_protocols (cs ! j))" "\<not> is_mock_route (cs ! i)" "hc_valid_method client meth"
    and "sp' = to_ascii_lowercase (trim_ws sp)" "hc_decode client body = Some (JObj m)"
  shows "\<exists>j. proxy_with_candidates_streaming client sp meth path headers body cs =
      result_map_err (map_send_error (build_backend_url (rr_endpoint (cs ! i)) path))
        (hc_send client \<lparr>br_method = meth, br_url = build_backend_url (rr_endpoint (cs ! i)) path,
           br_headers = backend_headers (cs ! i) headers, br_body = hc_encode client j\<rparr>)
    \<and> json_get j ''model'' = Some (JStr (rr_model (cs ! i)))"
proof -
  have "compatible_route sp cs = Some (cs ! i)" using assms(1-3,6) by (auto simp: compatible_route_Some)
  then show ?thesis
    using assms(4,5,7)
    by (intro exI [of _ "json_set ''model'' (JStr (rr_model (cs ! i))) (JObj m)"])
      (simp add: proxy_with_candidates_streaming_def send_backend_request_def Let_def backend_body_def bt_get_insert)
qed

theorem request_goes_to_first_compatible_route_witness:
  "\<exists>j r. proxy_with_candidates_streaming
       \<lparr>hc_send = (\<lambda>_. Inr \<lparr>sr_status = 200, sr_headers = [], sr_chunks = []\<rparr>), hc_valid_method = (\<lambda>_. True),
        hc_decode = (\<lambda>_. Some (JObj [(''model'', JStr ''other'')])), hc_encode = (\<lambda>_. [])\<rparr>
       ''p'' ''POST'' ''/v1/x'' [] []
       [\<lparr>rr_name = ''r'', rr_endpoint = ''https://a/v1'', rr_model = ''m'', rr_api_key = ''k'', rr_protocols = [''p''],
         rr_auth = Bearer, rr_default_headers = []\<rparr>] = Inr r
     \<and> json_get j ''model'' = Some (JStr ''m'')"
proof -
  let ?r = "\<lparr>rr_name = ''r'', rr_endpoint = ''https://a/v1'', rr_model = ''m'', rr_api_key = ''k'', rr_protocols = [''p''],
        rr_auth = Bearer, rr_default_headers = []\<rparr>"
  let ?c = "\<lparr>hc_send = (\<lambda>_. Inr \<lparr>sr_status = 200, sr_headers = [], sr_chunks = []\<rparr>), hc_valid_method = (\<lambda>_. True),
        hc_decode = (\<lambda>_. Some (JObj [(''model'', JStr ''other'')])), hc_encode = (\<lambda>_. [])\<rparr>"
  have "to_ascii_lowercase (trim_ws ''p'') = ''p''" "\<not> is_mock_route ([?r] ! 0)" by code_simp+
  then show ?thesis
    using request_goes_to_first_compatible_route [of 0 "[?r]" "''p''" ?c "''POST''" "''p''" "[]" "[(''model'', JStr ''other'')]"
        "''/v1/x''" "[]"]
    by auto
qed

end
