(* ===== verification/Identity.thy ===== *)
theory Identity
  imports Rust_Utf8 Rust_Map
begin

text \<open>
  The trust-on-first-use cache of binary hashes, \<open>crates/clustershell-sandbox/src/identity.rs\<close>. A call
  locks the cache twice, once to look the path up and once to commit a freshly computed hash, and other
  calls may run in between: the step relation below interleaves the two halves of any number of calls.
  What the file system and the hasher answer (\<open>std::fs::metadata\<close>, \<open>procfs::file_sha256\<close>) is an argument.
\<close>

section \<open>The cache\<close>

record file_fingerprint =
  fp_len :: nat
  fp_mtime_sec :: int
  fp_mtime_nsec :: int
  fp_ctime_sec :: int
  fp_ctime_nsec :: int
  fp_dev :: nat
  fp_ino :: nat

record cached_binary =
  cb_hash :: bytes
  cb_fingerprint :: file_fingerprint

record identity_cache =
  ic_hashes :: "(bytes \<times> cached_binary) list"
  ic_poisoned :: bool

definition identity_cache_new :: identity_cache where
  "identity_cache_new = \<lparr>ic_hashes = [], ic_poisoned = False\<rparr>"

datatype lookup = Hit bytes | Miss file_fingerprint

text \<open>The first half of \<open>verify_or_cache_with_hasher\<close>: stat the file and look its path up.\<close>

definition verify_lookup ::
  "identity_cache \<Rightarrow> bytes \<Rightarrow> (bytes, file_fingerprint) result \<Rightarrow> (report, lookup) result" where
  "verify_lookup c path stat =
     (case stat of
        Inl err \<Rightarrow> Inl (''Failed to stat '' @ from_utf8_lossy path @ '': '' @ err)
      | Inr fp \<Rightarrow>
          (if ic_poisoned c then Inl ''Binary identity cache lock poisoned''
           else case map_of (ic_hashes c) path of
                  Some cached \<Rightarrow> if cb_fingerprint cached = fp then Inr (Hit (cb_hash cached)) else Inr (Miss fp)
                | None \<Rightarrow> Inr (Miss fp)))"

text \<open>The second half: hash the file, compare with the cached hash, insert.\<close>

definition verify_commit ::
  "identity_cache \<Rightarrow> bytes \<Rightarrow> file_fingerprint \<Rightarrow> (report, bytes) result
     \<Rightarrow> (report, bytes) result \<times> identity_cache" where
  "verify_commit c path fp hash =
     (case hash of
        Inl err \<Rightarrow> (Inl err, c)
      | Inr current_hash \<Rightarrow>
          (if ic_poisoned c then (Inl ''Binary identity cache lock poisoned'', c)
           else let insert = (Inr current_hash,
                  c\<lparr>ic_hashes := hm_insert path \<lparr>cb_hash = current_hash, cb_fingerprint = fp\<rparr> (ic_hashes c)\<rparr>) in
                case map_of (ic_hashes c) path of
                  Some existing \<Rightarrow>
                    (if cb_hash existing \<noteq> current_hash then
                       (Inl (''Binary integrity violation: '' @ from_utf8_lossy path @ '' hash changed (cached: ''
                             @ cb_hash existing @ '', current: '' @ current_hash @ '')''), c)
                     else insert)
                | None \<Rightarrow> insert))"

definition verify_or_cache_with_hasher ::
  "identity_cache \<Rightarrow> bytes \<Rightarrow> (bytes, file_fingerprint) result \<Rightarrow> (report, bytes) result
     \<Rightarrow> (report, bytes) result \<times> identity_cache" where
  "verify_or_cache_with_hasher c path stat hash =
     (case verify_lookup c path stat of
        Inl err \<Rightarrow> (Inl err, c)
      | Inr (Hit h) \<Rightarrow> (Inr h, c)
      | Inr (Miss fp) \<Rightarrow> verify_commit c path fp hash)"

text \<open>\<open>verify_or_cache\<close>: what \<open>metadata\<close> and \<open>file_sha256\<close> answer for a path at the time of the call.\<close>

definition verify_or_cache ::
  "identity_cache \<Rightarrow> (bytes \<Rightarrow> (bytes, file_fingerprint) result) \<Rightarrow> (bytes \<Rightarrow> (report, bytes) result) \<Rightarrow> bytes
     \<Rightarrow> (report, bytes) result \<times> identity_cache" where
  "verify_or_cache c stat sha path = verify_or_cache_with_hasher c path (stat path) (sha path)"

section \<open>Concurrent calls\<close>

text \<open>A state is the cache and the calls between their halves; an answer is a path and the result its
  caller gets.\<close>

record tofu_state =
  ts_cache :: identity_cache
  ts_pending :: "(bytes \<times> file_fingerprint) list"

type_synonym answer = "bytes \<times> (report, bytes) result"

inductive tofu_step :: "tofu_state \<Rightarrow> answer option \<Rightarrow> tofu_state \<Rightarrow> bool" where
  hit: "verify_lookup (ts_cache s) path stat = Inr (Hit h) \<Longrightarrow> tofu_step s (Some (path, Inr h)) s"
| fail: "verify_lookup (ts_cache s) path stat = Inl err \<Longrightarrow> tofu_step s (Some (path, Inl err)) s"
| miss: "verify_lookup (ts_cache s) path stat = Inr (Miss fp) \<Longrightarrow>
    tofu_step s None (s\<lparr>ts_pending := (path, fp) # ts_pending s\<rparr>)"
| commit: "ts_pending s = us @ (path, fp) # vs \<Longrightarrow> verify_commit (ts_cache s) path fp hash = (r, c) \<Longrightarrow>
    tofu_step s (Some (path, r)) (s\<lparr>ts_cache := c, ts_pending := us @ vs\<rparr>)"
| poison: "tofu_step s None (s\<lparr>ts_cache := (ts_cache s)\<lparr>ic_poisoned := True\<rparr>\<rparr>)"

text \<open>The answers of a run, the latest first.\<close>

inductive tofu_run :: "tofu_state \<Rightarrow> answer list \<Rightarrow> tofu_state \<Rightarrow> bool" where
  start: "tofu_run s [] s"
| quiet: "tofu_run s as t \<Longrightarrow> tofu_step t None u \<Longrightarrow> tofu_run s as u"
| answer: "tofu_run s as t \<Longrightarrow> tofu_step t (Some a) u \<Longrightarrow> tofu_run s (a # as) u"

inductive_cases tofu_step_SomeE: "tofu_step s (Some a) t"
inductive_cases tofu_step_NoneE: "tofu_step s None t"

section \<open>Facts\<close>

definition cached_hash :: "identity_cache \<Rightarrow> bytes \<Rightarrow> bytes option" where
  "cached_hash c path = map_option cb_hash (map_of (ic_hashes c) path)"

lemma lookup_hit: "verify_lookup c path stat = Inr (Hit h) \<Longrightarrow> cached_hash c path = Some h"
  by (auto simp: verify_lookup_def cached_hash_def split: sum.splits if_splits option.splits)

lemma commit_result:
  assumes "verify_commit c path fp hash = (r, c')"
  shows "cached_hash c p = Some h \<Longrightarrow> cached_hash c' p = Some h" "r = Inr h \<Longrightarrow> cached_hash c' path = Some h"
proof -
  have up: "map_of (hm_insert path v m) = (map_of m)(path \<mapsto> v)" for v and m :: "(bytes \<times> cached_binary) list"
    by (simp add: hm_insert_def update_conv')
  show "cached_hash c p = Some h \<Longrightarrow> cached_hash c' p = Some h"
    using assms by (auto simp: verify_commit_def cached_hash_def Let_def up split: sum.splits if_splits option.splits)
  show "r = Inr h \<Longrightarrow> cached_hash c' path = Some h"
    using assms by (auto simp: verify_commit_def cached_hash_def Let_def up split: sum.splits if_splits option.splits)
qed

lemma cached_hash_poison [simp]: "cached_hash (c\<lparr>ic_poisoned := b\<rparr>) p = cached_hash c p"
  by (simp add: cached_hash_def)

lemma step_keeps_hash:
  "tofu_step s a t \<Longrightarrow> cached_hash (ts_cache s) p = Some h \<Longrightarrow> cached_hash (ts_cache t) p = Some h"
  by (induction rule: tofu_step.induct) (auto dest: commit_result(1))

lemma step_answer_cached:
  "tofu_step s (Some (p, Inr h)) t \<Longrightarrow> cached_hash (ts_cache t) p = Some h"
  by (auto elim!: tofu_step_SomeE dest: lookup_hit commit_result(2))

lemma run_answers_cached:
  "tofu_run s as t \<Longrightarrow> (p, Inr h) \<in> set as \<Longrightarrow> cached_hash (ts_cache t) p = Some h"
  by (induction rule: tofu_run.induct) (auto dest: step_keeps_hash step_answer_cached)

section \<open>Properties\<close>

text \<open>C26: trust on first use holds under every interleaving of calls: once any call has accepted a
  binary at some path, every later accepting answer for that path carries the same hash, for as long
  as the sandbox runs.\<close>

theorem accepted_hash_never_changes:
  assumes "tofu_run s answers t" "(path, Inr h1) \<in> set answers" "(path, Inr h2) \<in> set answers"
  shows "h1 = h2"
  using run_answers_cached [OF assms(1,2)] run_answers_cached [OF assms(1,3)] by simp

theorem accepted_hash_never_changes_witness:
  "\<exists>s answers t. tofu_run s answers t \<and> (''/bin/sh'', Inr ''aa'') \<in> set answers
     \<and> (\<forall>h. (''/bin/sh'', Inr h) \<in> set answers \<longrightarrow> h = ''aa'')"
proof -
  define fp where "fp = \<lparr>fp_len = 1, fp_mtime_sec = 0, fp_mtime_nsec = 0, fp_ctime_sec = 0, fp_ctime_nsec = 0,
     fp_dev = 0, fp_ino = 7\<rparr>"
  define s where "s = \<lparr>ts_cache = identity_cache_new, ts_pending = []\<rparr>"
  have "tofu_step s None (s\<lparr>ts_pending := (''/bin/sh'', fp) # ts_pending s\<rparr>)"
    by (rule tofu_step.miss [where stat = "Inr fp"]) (simp add: s_def identity_cache_new_def verify_lookup_def)
  then have "tofu_step s None \<lparr>ts_cache = identity_cache_new, ts_pending = [(''/bin/sh'', fp)]\<rparr>" by (simp add: s_def)
  moreover obtain t where "tofu_step \<lparr>ts_cache = identity_cache_new, ts_pending = [(''/bin/sh'', fp)]\<rparr>
      (Some (''/bin/sh'', Inr ''aa'')) t"
    using tofu_step.commit [of "\<lparr>ts_cache = identity_cache_new, ts_pending = [(''/bin/sh'', fp)]\<rparr>" "[]" "''/bin/sh''" fp "[]"
        "Inr ''aa''" "Inr ''aa''"]
    by (simp add: verify_commit_def identity_cache_new_def Let_def)
  ultimately have run: "tofu_run s [(''/bin/sh'', Inr ''aa'')] t"
    by (meson tofu_run.intros)
  have "(''/bin/sh'', Inr ''aa'') \<in> set [(''/bin/sh'', Inr ''aa'')]" by simp
  from accepted_hash_never_changes [OF run this] run show ?thesis by (metis list.set_intros(1))
qed

text \<open>A replaced binary is refused: when the cached hash of a path differs from the hash of the file
  and the file's fingerprint has changed, the call fails and the cache keeps the first hash; with an
  unchanged fingerprint the cached hash is answered without hashing the file again.\<close>

theorem replaced_binary_is_refused:
  assumes "map_of (ic_hashes c) path = Some cb" "\<not> ic_poisoned c" "stat path = Inr fp"
  shows "if cb_fingerprint cb = fp then verify_or_cache c stat sha path = (Inr (cb_hash cb), c)
    else sha path = Inr h \<longrightarrow> h \<noteq> cb_hash cb \<longrightarrow> (\<exists>msg. verify_or_cache c stat sha path = (Inl msg, c))"
  using assms by (auto simp: verify_or_cache_def verify_or_cache_with_hasher_def verify_lookup_def verify_commit_def)

definition sample_print :: "nat \<Rightarrow> file_fingerprint" where
  "sample_print ino = \<lparr>fp_len = 1, fp_mtime_sec = 0, fp_mtime_nsec = 0, fp_ctime_sec = 0, fp_ctime_nsec = 0,
     fp_dev = 0, fp_ino = ino\<rparr>"

definition sample_cache :: identity_cache where
  "sample_cache =
     \<lparr>ic_hashes = [(''/bin/sh'', \<lparr>cb_hash = ''aa'', cb_fingerprint = sample_print 7\<rparr>)], ic_poisoned = False\<rparr>"

theorem replaced_binary_is_refused_witness:
  "\<exists>msg. verify_or_cache sample_cache (\<lambda>_. Inr (sample_print 8)) (\<lambda>_. Inr ''bb'') ''/bin/sh'' = (Inl msg, sample_cache)"
proof -
  have "map_of (ic_hashes sample_cache) ''/bin/sh'' = Some \<lparr>cb_hash = ''aa'', cb_fingerprint = sample_print 7\<rparr>"
    "\<not> ic_poisoned sample_cache" "(\<lambda>_. Inr (sample_print 8)) ''/bin/sh'' = Inr (sample_print 8)"
    by (simp_all add: sample_cache_def)
  from replaced_binary_is_refused [OF this, of "\<lambda>_. Inr ''bb''" "''bb''"] show ?thesis
    by (simp add: sample_print_def)
qed

end
