(* ===== verification/Denials.thy ===== *)
theory Denials
  imports Rust_Map "HOL-Library.Word"
begin

text \<open>
  The denial aggregator, \<open>crates/clustershell-sandbox/src/denial_aggregator.rs\<close>: deny events of the
  proxy are merged by \<open>(host, port, binary)\<close> and flushed in batches. Counters are \<open>u32\<close> and wrap as in
  a release build.
\<close>

section \<open>Events and summaries\<close>

record denial_event =
  de_host :: bytes
  de_port :: nat
  de_binary :: bytes
  de_ancestors :: "bytes list"
  de_deny_reason :: bytes
  de_denial_stage :: bytes
  de_l7_method :: "bytes option"
  de_l7_path :: "bytes option"

record l7_sample =
  ls_method :: bytes
  ls_path :: bytes
  ls_count :: "32 word"

text \<open>\<open>FlushableDenialSummary\<close> has the same fields.\<close>

record aggregated_denial =
  ad_host :: bytes
  ad_port :: nat
  ad_binary :: bytes
  ad_ancestors :: "bytes list"
  ad_deny_reason :: bytes
  ad_denial_stage :: bytes
  ad_first_seen_ms :: int
  ad_last_seen_ms :: int
  ad_count :: "32 word"
  ad_sample_cmdlines :: "bytes list"
  ad_l7_samples :: "l7_sample list"

type_synonym denial_key = "bytes \<times> nat \<times> bytes"
type_synonym summaries = "(denial_key \<times> aggregated_denial) list"

definition event_key :: "denial_event \<Rightarrow> denial_key" where
  "event_key e = (de_host e, de_port e, de_binary e)"

definition summary_key :: "aggregated_denial \<Rightarrow> denial_key" where
  "summary_key a = (ad_host a, ad_port a, ad_binary a)"

section \<open>Merging\<close>

definition new_entry :: "int \<Rightarrow> denial_event \<Rightarrow> aggregated_denial" where
  "new_entry now_ms e =
     \<lparr>ad_host = de_host e, ad_port = de_port e, ad_binary = de_binary e, ad_ancestors = de_ancestors e,
      ad_deny_reason = de_deny_reason e, ad_denial_stage = de_denial_stage e, ad_first_seen_ms = now_ms,
      ad_last_seen_ms = now_ms, ad_count = 0, ad_sample_cmdlines = [], ad_l7_samples = []\<rparr>"

text \<open>The first matching sample is counted up; a new one is kept while there are fewer than 20.\<close>

fun bump_sample :: "bytes \<Rightarrow> bytes \<Rightarrow> l7_sample list \<Rightarrow> l7_sample list option" where
  "bump_sample m p [] = None"
| "bump_sample m p (s # ss) =
     (if ls_method s = m \<and> ls_path s = p then Some (s\<lparr>ls_count := ls_count s + 1\<rparr> # ss)
      else map_option ((#) s) (bump_sample m p ss))"

definition merge_sample :: "bytes \<Rightarrow> bytes \<Rightarrow> l7_sample list \<Rightarrow> l7_sample list" where
  "merge_sample m p ss =
     (case bump_sample m p ss of
        Some ss' \<Rightarrow> ss'
      | None \<Rightarrow> if length ss < 20 then ss @ [\<lparr>ls_method = m, ls_path = p, ls_count = 1\<rparr>] else ss)"

definition ingest :: "int \<Rightarrow> denial_event \<Rightarrow> summaries \<Rightarrow> summaries" where
  "ingest now_ms e m =
     (let key = event_key e;
          entry = (case map_of m key of Some a \<Rightarrow> a | None \<Rightarrow> new_entry now_ms e);
          entry = entry\<lparr>ad_count := ad_count entry + 1, ad_last_seen_ms := now_ms\<rparr>;
          entry = (case (de_l7_method e, de_l7_path e) of
                     (Some meth, Some path) \<Rightarrow> entry\<lparr>ad_l7_samples := merge_sample meth path (ad_l7_samples entry)\<rparr>
                   | _ \<Rightarrow> entry) in
      hm_insert key entry m)"

definition drain :: "summaries \<Rightarrow> aggregated_denial list \<times> summaries" where
  "drain m = (map snd m, [])"

section \<open>The aggregator loop\<close>

text \<open>What the \<open>select\<close> of \<open>run\<close> yields in each round; the list ends when the channel is closed.\<close>

datatype select_arm = Recv int denial_event | FlushTick

text \<open>The batches passed to the flush callback.\<close>

fun aggregator_run :: "select_arm list \<Rightarrow> summaries \<Rightarrow> aggregated_denial list list" where
  "aggregator_run [] m = (if m \<noteq> [] then [fst (drain m)] else [])"
| "aggregator_run (Recv now_ms e # arms) m = aggregator_run arms (ingest now_ms e m)"
| "aggregator_run (FlushTick # arms) m =
     (if m \<noteq> [] then case drain m of (batch, m') \<Rightarrow> batch # aggregator_run arms m'
      else aggregator_run arms m)"

section \<open>Facts\<close>

definition agg_inv :: "summaries \<Rightarrow> bool" where
  "agg_inv m \<longleftrightarrow> hm_inv m \<and> (\<forall>(k, a)\<in>set m. summary_key a = k \<and> length (ad_l7_samples a) \<le> 20)"

definition summed :: "denial_key \<Rightarrow> aggregated_denial list \<Rightarrow> 32 word" where
  "summed k as = sum_list (map ad_count (filter (\<lambda>a. summary_key a = k) as))"

fun events_for :: "denial_key \<Rightarrow> select_arm list \<Rightarrow> nat" where
  "events_for k [] = 0"
| "events_for k (Recv t e # arms) = (if event_key e = k then 1 else 0) + events_for k arms"
| "events_for k (FlushTick # arms) = events_for k arms"

lemma bump_sample_length: "bump_sample m p ss = Some ss' \<Longrightarrow> length ss' = length ss"
  by (induction ss arbitrary: ss') (auto split: if_splits)

lemma merge_sample_length: "length ss \<le> 20 \<Longrightarrow> length (merge_sample m p ss) \<le> 20"
  by (auto simp: merge_sample_def dest: bump_sample_length split: option.splits)

lemma summary_key_updates [simp]:
  "summary_key (a\<lparr>ad_count := c\<rparr>) = summary_key a" "summary_key (a\<lparr>ad_last_seen_ms := t\<rparr>) = summary_key a"
  "summary_key (a\<lparr>ad_l7_samples := s\<rparr>) = summary_key a"
  by (simp_all add: summary_key_def)

lemma summary_key_new_entry [simp]: "summary_key (new_entry t e) = event_key e"
  by (simp add: summary_key_def event_key_def new_entry_def)

text \<open>Ingesting an event stores one entry under its key.\<close>

lemma ingest_entry:
  assumes "agg_inv m"
  obtains a where "ingest t e m = hm_insert (event_key e) a m" "summary_key a = event_key e"
    "ad_count a = (case map_of m (event_key e) of None \<Rightarrow> 0 | Some b \<Rightarrow> ad_count b) + 1"
    "length (ad_l7_samples a) \<le> 20" "ad_last_seen_ms a = t"
    "ad_first_seen_ms a = (case map_of m (event_key e) of None \<Rightarrow> t | Some b \<Rightarrow> ad_first_seen_ms b)"
proof -
  let ?k = "event_key e"
  let ?b = "case map_of m ?k of Some a \<Rightarrow> a | None \<Rightarrow> new_entry t e"
  let ?c = "?b\<lparr>ad_count := ad_count ?b + 1, ad_last_seen_ms := t\<rparr>"
  let ?a = "case (de_l7_method e, de_l7_path e) of
      (Some meth, Some path) \<Rightarrow> ?c\<lparr>ad_l7_samples := merge_sample meth path (ad_l7_samples ?c)\<rparr> | _ \<Rightarrow> ?c"
  have b: "summary_key ?b = ?k \<and> length (ad_l7_samples ?b) \<le> 20"
    using assms
    by (auto simp: agg_inv_def new_entry_def summary_key_def event_key_def split: option.splits dest!: map_of_SomeD)
  have "ingest t e m = hm_insert ?k ?a m" by (simp add: ingest_def Let_def)
  moreover have "summary_key ?a = ?k" "length (ad_l7_samples ?a) \<le> 20" "ad_last_seen_ms ?a = t"
    using b by (auto simp: merge_sample_length split: option.splits)
  moreover have "ad_count ?a = (case map_of m ?k of None \<Rightarrow> 0 | Some b \<Rightarrow> ad_count b) + 1"
    "ad_first_seen_ms ?a = (case map_of m ?k of None \<Rightarrow> t | Some b \<Rightarrow> ad_first_seen_ms b)"
    by (auto simp: new_entry_def split: option.splits)
  ultimately show thesis using that [of ?a] by blast
qed

lemma agg_inv_ingest:
  assumes "agg_inv m"
  shows "agg_inv (ingest t e m)"
proof -
  from assms obtain a where a: "ingest t e m = hm_insert (event_key e) a m" "summary_key a = event_key e"
    "length (ad_l7_samples a) \<le> 20" by (rule ingest_entry)
  have "set (hm_insert (event_key e) a m) \<subseteq> insert (event_key e, a) (set m)"
  proof -
    have "hm_inv (hm_insert (event_key e) a m)" using assms hm.inv_ins by (auto simp: agg_inv_def)
    then have d: "distinct (map fst (hm_insert (event_key e) a m))" by (simp add: hm_inv_def)
    show ?thesis
    proof (intro subrelI [of "set (hm_insert (event_key e) a m)" "insert (event_key e, a) (set m)"])
      fix k b assume "(k, b) \<in> set (hm_insert (event_key e) a m)"
      then have "map_of (hm_insert (event_key e) a m) k = Some b" using d by (rule map_of_is_SomeI [rotated])
      then have "((map_of m)(event_key e \<mapsto> a)) k = Some b" by (simp add: hm_insert_def update_conv')
      then show "(k, b) \<in> insert (event_key e, a) (set m)" by (auto split: if_splits dest: map_of_SomeD)
    qed
  qed
  then show ?thesis using assms a hm.inv_ins [of m] by (auto simp: agg_inv_def)
qed

lemma summed_map: "agg_inv m \<Longrightarrow> summed k (map snd m) = (case map_of m k of None \<Rightarrow> 0 | Some a \<Rightarrow> ad_count a)"
proof (induction m)
  case (Cons x m)
  obtain k' a where x: "x = (k', a)" by (cases x) blast
  have inv: "agg_inv m" "summary_key a = k'" "k' \<notin> fst ` set m"
    using Cons(2) by (auto simp: x agg_inv_def hm_inv_def)
  have "map_of m k = None" if "k = k'" using that inv(3) by (simp add: map_of_eq_None_iff)
  then show ?case using Cons(1) [OF inv(1)] inv(2) by (auto simp: x summed_def)
qed (simp add: summed_def)

lemma summed_ingest:
  assumes "agg_inv m"
  shows "summed k (map snd (ingest t e m)) = summed k (map snd m) + (if event_key e = k then 1 else 0)"
proof -
  from assms obtain a where a: "ingest t e m = hm_insert (event_key e) a m"
    "ad_count a = (case map_of m (event_key e) of None \<Rightarrow> 0 | Some b \<Rightarrow> ad_count b) + 1" by (rule ingest_entry)
  have "map_of (ingest t e m) = (map_of m)(event_key e \<mapsto> a)" by (simp add: a(1) hm_insert_def update_conv')
  then show ?thesis using assms agg_inv_ingest [OF assms] a(2) by (simp add: summed_map)
qed

lemma ingest_nonempty: "ingest t e m \<noteq> []"
  by (cases m) (auto simp: ingest_def Let_def hm_insert_def)

lemma run_batches:
  "agg_inv m \<Longrightarrow> batch \<in> set (aggregator_run arms m) \<Longrightarrow> \<exists>m'. agg_inv m' \<and> m' \<noteq> [] \<and> batch = map snd m'"
proof (induction arms m rule: aggregator_run.induct)
  case (3 arms m)
  have "agg_inv []" by (simp add: agg_inv_def hm_inv_def)
  with 3 show ?case by (auto simp: drain_def split: if_splits)
qed (auto simp: drain_def agg_inv_ingest split: if_splits)

section \<open>Properties\<close>

text \<open>No denial is lost or counted twice: over all flushed batches, whatever the ticks, the counts of
  the summaries for a key add up to the number of events ingested with that key, modulo the width of
  the counter.\<close>

theorem denials_conserved:
  "(\<Sum>batch\<leftarrow>aggregator_run arms []. summed k batch) = of_nat (events_for k arms)"
proof -
  have "agg_inv m \<Longrightarrow> (\<Sum>batch\<leftarrow>aggregator_run arms m. summed k batch) =
      summed k (map snd m) + of_nat (events_for k arms)" for m
  proof (induction arms m rule: aggregator_run.induct)
    case (1 m)
    then show ?case by (simp add: drain_def summed_def)
  next
    case (2 t e arms m)
    then show ?case using summed_ingest [OF 2(2), of k t e] by (simp add: agg_inv_ingest add.assoc)
  next
    case (3 arms m)
    have "agg_inv []" by (simp add: agg_inv_def hm_inv_def)
    with 3 show ?case by (auto simp: drain_def summed_def)
  qed
  from this [of "[]"] show ?thesis by (simp add: agg_inv_def hm_inv_def summed_def)
qed

text \<open>Every flushed batch is well formed: it is not empty, has one summary per key and at most 20 L7
  samples in each.\<close>

theorem flushed_batches_well_formed:
  "batch \<in> set (aggregator_run arms []) \<Longrightarrow>
     batch \<noteq> [] \<and> distinct (map summary_key batch) \<and> (\<forall>a\<in>set batch. length (ad_l7_samples a) \<le> 20)"
proof -
  assume "batch \<in> set (aggregator_run arms [])"
  moreover have "agg_inv []" by (simp add: agg_inv_def hm_inv_def)
  ultimately obtain m where m: "agg_inv m" "m \<noteq> []" "batch = map snd m" using run_batches by blast
  have e: "map summary_key batch = map fst m" using m(1,3) by (auto simp: agg_inv_def)
  have "distinct (map summary_key batch)" unfolding e using m(1) by (simp add: agg_inv_def hm_inv_def)
  then show ?thesis using m by (auto simp: agg_inv_def)
qed

definition sample_denial :: denial_event where
  "sample_denial =
     \<lparr>de_host = ''evil.example'', de_port = 443, de_binary = ''/usr/bin/curl'', de_ancestors = [],
      de_deny_reason = ''no match'', de_denial_stage = ''connect'', de_l7_method = None, de_l7_path = None\<rparr>"

theorem flushed_batches_well_formed_witness:
  "\<exists>batch. aggregator_run [Recv 1 sample_denial, Recv 2 sample_denial] [] = [batch]
     \<and> distinct (map summary_key batch)"
proof -
  obtain batch where b: "aggregator_run [Recv 1 sample_denial, Recv 2 sample_denial] [] = [batch]"
    using ingest_nonempty by auto
  then have "batch \<in> set (aggregator_run [Recv 1 sample_denial, Recv 2 sample_denial] [])" by simp
  from flushed_batches_well_formed [OF this] b show ?thesis by blast
qed

end
