(* ===== verification/Ip_Guard.thy ===== *)
theory Ip_Guard
  imports Rust_Text "HOL-Library.Word"
begin

unbundle bit_operations_syntax

text \<open>
  The SSRF guard of the proxy, \<open>crates/clustershell-sandbox/src/proxy.rs\<close>: which addresses are internal,
  which are always blocked, and the resolution of a host against them. Addresses are kept as the words
  \<open>to_bits\<close> yields, with the standard library's octets, segments, text form and parser; name resolution
  and the \<open>ipnet\<close> crate are parameters.
\<close>

section \<open>Addresses\<close>

datatype ip_addr = V4 "32 word" | V6 "128 word"

type_synonym sock_addr = "ip_addr \<times> nat"

definition octet :: "nat \<Rightarrow> 32 word \<Rightarrow> 8 word" where
  "octet i v = ucast (drop_bit (24 - 8 * i) v)"

definition segment :: "nat \<Rightarrow> 128 word \<Rightarrow> 16 word" where
  "segment i v = ucast (drop_bit (112 - 16 * i) v)"

definition v4_is_loopback :: "32 word \<Rightarrow> bool" where
  "v4_is_loopback v \<longleftrightarrow> octet 0 v = 127"

definition v4_is_private :: "32 word \<Rightarrow> bool" where
  "v4_is_private v \<longleftrightarrow>
     octet 0 v = 10 \<or> (octet 0 v = 172 \<and> 16 \<le> octet 1 v \<and> octet 1 v \<le> 31)
     \<or> (octet 0 v = 192 \<and> octet 1 v = 168)"

definition v4_is_link_local :: "32 word \<Rightarrow> bool" where
  "v4_is_link_local v \<longleftrightarrow> octet 0 v = 169 \<and> octet 1 v = 254"

definition v6_is_loopback :: "128 word \<Rightarrow> bool" where
  "v6_is_loopback v \<longleftrightarrow> v = 1"

definition to_ipv4_mapped :: "128 word \<Rightarrow> 32 word option" where
  "to_ipv4_mapped v = (if drop_bit 32 v = 0xffff then Some (ucast v) else None)"

section \<open>The guard\<close>

fun is_internal_ip :: "ip_addr \<Rightarrow> bool" where
  "is_internal_ip (V4 v4) = (v4_is_loopback v4 \<or> v4_is_private v4 \<or> v4_is_link_local v4)"
| "is_internal_ip (V6 v6) =
     (if v6_is_loopback v6 then True
      else if segment 0 v6 AND 0xffc0 = 0xfe80 then True
      else if segment 0 v6 AND 0xfe00 = 0xfc00 then True
      else case to_ipv4_mapped v6 of
             Some v4 \<Rightarrow> v4_is_loopback v4 \<or> v4_is_private v4 \<or> v4_is_link_local v4
           | None \<Rightarrow> False)"

fun is_always_blocked_ip :: "ip_addr \<Rightarrow> bool" where
  "is_always_blocked_ip (V4 v4) = (v4_is_loopback v4 \<or> v4_is_link_local v4)"
| "is_always_blocked_ip (V6 v6) =
     (if v6_is_loopback v6 then True
      else if segment 0 v6 AND 0xffc0 = 0xfe80 then True
      else case to_ipv4_mapped v6 of
             Some v4 \<Rightarrow> v4_is_loopback v4 \<or> v4_is_link_local v4
           | None \<Rightarrow> False)"

section \<open>Text form\<close>

definition show_ipv4 :: "32 word \<Rightarrow> bytes" where
  "show_ipv4 v = join_str ''.'' (map (\<lambda>i. show_nat (unat (octet i v))) [0, 1, 2, 3])"

text \<open>The first longest run of zero segments, as a start and a length.\<close>

fun longest_zeros :: "nat list \<Rightarrow> nat \<Rightarrow> nat \<times> nat \<Rightarrow> nat \<times> nat \<Rightarrow> nat \<times> nat" where
  "longest_zeros [] i cur best = best"
| "longest_zeros (s # ss) i cur best =
     (if s = 0 then
        let cur' = (if snd cur = 0 then (i, 1) else (fst cur, snd cur + 1)) in
        longest_zeros ss (i + 1) cur' (if snd cur' > snd best then cur' else best)
      else longest_zeros ss (i + 1) (0, 0) best)"

definition show_ipv6 :: "128 word \<Rightarrow> bytes" where
  "show_ipv6 v =
     (case to_ipv4_mapped v of
        Some v4 \<Rightarrow> ''::ffff:'' @ show_ipv4 v4
      | None \<Rightarrow>
          (let segs = map (\<lambda>i. unat (segment i v)) [0, 1, 2, 3, 4, 5, 6, 7];
               subslice = (\<lambda>ns. join_str '':'' (map show_hex ns));
               (start, len) = longest_zeros segs 0 (0, 0) (0, 0) in
           if len > 1 then subslice (take start segs) @ ''::'' @ subslice (drop (start + len) segs)
           else subslice segs))"

fun show_ip :: "ip_addr \<Rightarrow> bytes" where
  "show_ip (V4 v) = show_ipv4 v"
| "show_ip (V6 v) = show_ipv6 v"

section \<open>Parsing addresses\<close>

text \<open>The recursive-descent parser of \<open>core::net\<close>; a parser returns its value and the rest.\<close>

fun span_digits :: "nat \<Rightarrow> bytes \<Rightarrow> bytes \<times> bytes" where
  "span_digits r [] = ([], [])"
| "span_digits r (c # cs) =
     (case digit_value c of
        Some d \<Rightarrow> if d < r then (case span_digits r cs of (ds, rest) \<Rightarrow> (c # ds, rest)) else ([], c # cs)
      | None \<Rightarrow> ([], c # cs))"

definition read_number :: "nat \<Rightarrow> nat \<Rightarrow> nat \<Rightarrow> bool \<Rightarrow> bytes \<Rightarrow> (nat \<times> bytes) option" where
  "read_number r max_digits maxv allow_zero_prefix s =
     (let (ds, rest) = span_digits r s in
      if ds = [] \<or> length ds > max_digits then None
      else if \<not> allow_zero_prefix \<and> hd ds = CHR ''0'' \<and> length ds > 1 then None
      else case digits_value r 0 ds of
             Some v \<Rightarrow> if v \<le> maxv then Some (v, rest) else None
           | None \<Rightarrow> None)"

definition read_char :: "char \<Rightarrow> bytes \<Rightarrow> bytes option" where
  "read_char c s = strip_prefix s [c]"

fun read_octets :: "nat \<Rightarrow> bool \<Rightarrow> bytes \<Rightarrow> (nat list \<times> bytes) option" where
  "read_octets 0 first s = Some ([], s)"
| "read_octets (Suc n) first s =
     Option.bind (if first then Some s else read_char (CHR ''.'') s) (\<lambda>s1.
     Option.bind (read_number 10 3 255 False s1) (\<lambda>(v, s2).
     map_option (\<lambda>(vs, rest). (v # vs, rest)) (read_octets n False s2)))"

definition read_ipv4_addr :: "bytes \<Rightarrow> (nat list \<times> bytes) option" where
  "read_ipv4_addr s = read_octets 4 True s"

text \<open>\<open>read_groups\<close> into \<open>limit\<close> slots, \<open>i\<close> of them filled: the groups, whether the last two came from an
  IPv4 part, and the rest.\<close>

fun read_groups :: "nat \<Rightarrow> nat \<Rightarrow> nat \<Rightarrow> bytes \<Rightarrow> nat list \<times> bool \<times> bytes" where
  "read_groups 0 limit i s = ([], False, s)"
| "read_groups (Suc n) limit i s =
     (let sep = (if i > 0 then read_char (CHR '':'') s else Some s);
          v4 = (if i + 1 < limit then Option.bind sep read_ipv4_addr else None) in
      case v4 of
        Some ([a, b, c, d], rest) \<Rightarrow> ([a * 256 + b, c * 256 + d], True, rest)
      | _ \<Rightarrow>
          (case Option.bind sep (read_number 16 4 65535 True) of
             Some (g, rest) \<Rightarrow>
               (case read_groups n limit (i + 1) rest of (gs, v4, rest') \<Rightarrow> (g # gs, v4, rest'))
           | None \<Rightarrow> ([], False, s)))"

definition read_ipv6_addr :: "bytes \<Rightarrow> (nat list \<times> bytes) option" where
  "read_ipv6_addr s =
     (let (head, head_ipv4, rest) = read_groups 8 8 0 s in
      if length head = 8 then Some (head, rest)
      else if head_ipv4 then None
      else Option.bind (strip_prefix rest ''::'') (\<lambda>rest1.
        let limit = 8 - (length head + 1);
            (tail, _, rest2) = read_groups limit limit 0 rest1 in
        Some (head @ replicate (8 - length head - length tail) 0 @ tail, rest2)))"

definition word_of_groups :: "nat \<Rightarrow> nat list \<Rightarrow> nat" where
  "word_of_groups b gs = foldl (\<lambda>acc g. acc * b + g) 0 gs"

definition parse_ip_addr :: "bytes \<Rightarrow> ip_addr option" where
  "parse_ip_addr s =
     (case read_ipv4_addr s of
        Some (os, rest) \<Rightarrow> if rest = [] then Some (V4 (of_nat (word_of_groups 256 os))) else None
      | None \<Rightarrow>
          (case read_ipv6_addr s of
             Some (gs, rest) \<Rightarrow> if rest = [] then Some (V6 (of_nat (word_of_groups 65536 gs))) else None
           | None \<Rightarrow> None))"

section \<open>Resolution\<close>

text \<open>\<open>lookup_host\<close>: the error text, or the addresses.\<close>

type_synonym dns = "bytes \<Rightarrow> nat \<Rightarrow> (bytes, sock_addr list) result"

record 'n ipnet_lib =
  nl_parse :: "bytes \<Rightarrow> 'n option"
  nl_from :: "ip_addr \<Rightarrow> 'n"
  nl_contains :: "'n \<Rightarrow> ip_addr \<Rightarrow> bool"

definition resolve_addrs :: "dns \<Rightarrow> bytes \<Rightarrow> nat \<Rightarrow> (report, sock_addr list) result" where
  "resolve_addrs lookup_host host port =
     (case lookup_host host port of
        Inl e \<Rightarrow> Inl (''DNS resolution failed for '' @ host @ '':'' @ show_nat port @ '': '' @ e)
      | Inr addrs \<Rightarrow>
          (if addrs = [] then
             Inl (''DNS resolution returned no addresses for '' @ host @ '':'' @ show_nat port)
           else Inr addrs))"

definition resolve_and_reject_internal :: "dns \<Rightarrow> bytes \<Rightarrow> nat \<Rightarrow> (report, sock_addr list) result" where
  "resolve_and_reject_internal lookup_host host port =
     result_bind (resolve_addrs lookup_host host port) (\<lambda>addrs.
       case find (\<lambda>a. is_internal_ip (fst a)) addrs of
         Some a \<Rightarrow> Inl (host @ '' resolves to internal address '' @ show_ip (fst a) @ '', connection rejected'')
       | None \<Rightarrow> Inr addrs)"

definition resolve_and_check_allowed_ips ::
  "'n ipnet_lib \<Rightarrow> 'n list \<Rightarrow> dns \<Rightarrow> bytes \<Rightarrow> nat \<Rightarrow> (report, sock_addr list) result" where
  "resolve_and_check_allowed_ips L allowed_ips lookup_host host port =
     result_bind (resolve_addrs lookup_host host port) (\<lambda>addrs.
       case find (\<lambda>a. is_always_blocked_ip (fst a) \<or> \<not> (\<exists>net\<in>set allowed_ips. nl_contains L net (fst a))) addrs of
         Some a \<Rightarrow>
           (if is_always_blocked_ip (fst a) then
              Inl (host @ '' resolves to always-blocked address '' @ show_ip (fst a) @ '', connection rejected'')
            else Inl (host @ '' resolves to '' @ show_ip (fst a) @ '' which is not in allowed_ips, connection rejected''))
       | None \<Rightarrow> Inr addrs)"

definition parse_allowed_ip :: "'n ipnet_lib \<Rightarrow> bytes \<Rightarrow> 'n option" where
  "parse_allowed_ip L entry =
     (case nl_parse L entry of
        Some n \<Rightarrow> Some n
      | None \<Rightarrow> map_option (nl_from L) (parse_ip_addr entry))"

definition parse_allowed_ips :: "'n ipnet_lib \<Rightarrow> bytes list \<Rightarrow> (report, 'n list) result" where
  "parse_allowed_ips L raw =
     (let errors = map (\<lambda>entry. ''invalid CIDR/IP in allowed_ips: '' @ entry)
                       (filter (\<lambda>entry. parse_allowed_ip L entry = None) raw) in
      if errors = [] then Inr (List.map_filter (parse_allowed_ip L) raw) else Inl (join_str ''; '' errors))"

section \<open>Facts: address blocks\<close>

text \<open>CIDR blocks as the specification of the address tests.\<close>

definition in_block4 :: "nat \<Rightarrow> nat \<Rightarrow> 32 word \<Rightarrow> bool" where
  "in_block4 base len v \<longleftrightarrow> unat v div 2 ^ (32 - len) = base div 2 ^ (32 - len)"

definition in_block6 :: "nat \<Rightarrow> nat \<Rightarrow> 128 word \<Rightarrow> bool" where
  "in_block6 base len v \<longleftrightarrow> unat v div 2 ^ (128 - len) = base div 2 ^ (128 - len)"

definition dotted :: "nat \<Rightarrow> nat \<Rightarrow> nat \<Rightarrow> nat \<Rightarrow> nat" where
  "dotted a b c d = a * 2 ^ 24 + b * 2 ^ 16 + c * 2 ^ 8 + d"

definition internal_block4 :: "32 word \<Rightarrow> bool" where
  "internal_block4 v \<longleftrightarrow> in_block4 (dotted 127 0 0 0) 8 v \<or> in_block4 (dotted 10 0 0 0) 8 v
     \<or> in_block4 (dotted 172 16 0 0) 12 v \<or> in_block4 (dotted 192 168 0 0) 16 v
     \<or> in_block4 (dotted 169 254 0 0) 16 v"

fun internal_block :: "ip_addr \<Rightarrow> bool" where
  "internal_block (V4 v) = internal_block4 v"
| "internal_block (V6 v) \<longleftrightarrow> in_block6 1 128 v \<or> in_block6 (0xfe80 * 2 ^ 112) 10 v \<or> in_block6 (0xfc00 * 2 ^ 112) 7 v
     \<or> (in_block6 (0xffff * 2 ^ 32) 96 v \<and> internal_block4 (ucast v))"

lemma unat_drop: "unat (drop_bit n v) = unat v div 2 ^ n" for v :: "'a :: len word"
  unfolding unat_drop_bit_eq by (simp add: drop_bit_eq_div)

lemma unat_octet: "unat (octet i v) = unat v div 2 ^ (24 - 8 * i) mod 256"
  unfolding octet_def unsigned_ucast_eq unat_drop take_bit_eq_mod by simp

lemma octet_eq: "octet i v = w \<longleftrightarrow> unat v div 2 ^ (24 - 8 * i) mod 256 = unat w"
  by (metis unat_octet word_unat_eq_iff)

lemma unat4_bound: "unat (v :: 32 word) < 2 ^ 32"
  using unsigned_less [of v, where 'a = nat] by simp

lemma unat6_bound: "unat (v :: 128 word) < 2 ^ 128"
  using unsigned_less [of v, where 'a = nat] by simp

text \<open>The two leading octets as the quotient by \<open>2 ^ 16\<close>.\<close>

lemma leading_octets:
  "unat (octet 0 v) = unat v div 2 ^ 16 div 256" "unat (octet 1 v) = unat v div 2 ^ 16 mod 256"
  "unat v div 2 ^ 16 < 65536"
proof -
  have "unat v div 2 ^ 16 div 256 = unat v div 2 ^ 24" by (simp flip: div_mult2_eq)
  moreover have "unat v div 2 ^ 24 < 256" "unat v div 2 ^ 16 < 65536"
    using unat4_bound [of v] by (simp_all add: div_less_iff_less_mult)
  ultimately show "unat (octet 0 v) = unat v div 2 ^ 16 div 256" "unat v div 2 ^ 16 < 65536"
    by (simp_all add: unat_octet)
  show "unat (octet 1 v) = unat v div 2 ^ 16 mod 256" by (simp add: unat_octet)
qed

lemma octet_num:
  "octet i v = w \<longleftrightarrow> unat (octet i v) = unat w" "w \<le> octet i v \<longleftrightarrow> unat w \<le> unat (octet i v)"
  "octet i v \<le> w \<longleftrightarrow> unat (octet i v) \<le> unat w"
  by (simp_all add: word_unat_eq_iff word_le_nat_alt)

text \<open>Block membership of an address in terms of its two leading octets.\<close>

lemma in_block4_octets:
  assumes "unat v div 2 ^ 16 = q"
  shows "in_block4 b 8 v \<longleftrightarrow> q div 256 = b div 2 ^ 24" "in_block4 b 12 v \<longleftrightarrow> q div 16 = b div 2 ^ 20"
    "in_block4 b 16 v \<longleftrightarrow> q = b div 2 ^ 16"
proof -
  have "unat v div 2 ^ 24 = q div 256" "unat v div 2 ^ 20 = q div 16"
    unfolding assms [symmetric] by (simp_all flip: div_mult2_eq)
  then show "in_block4 b 8 v \<longleftrightarrow> q div 256 = b div 2 ^ 24" "in_block4 b 12 v \<longleftrightarrow> q div 16 = b div 2 ^ 20"
    "in_block4 b 16 v \<longleftrightarrow> q = b div 2 ^ 16"
    unfolding in_block4_def using assms by simp_all
qed

lemma dotted_block:
  "dotted 127 0 0 0 div 2 ^ 24 = 127" "dotted 10 0 0 0 div 2 ^ 24 = 10" "dotted 172 16 0 0 div 2 ^ 20 = 2753"
  "dotted 192 168 0 0 div 2 ^ 16 = 49320" "dotted 169 254 0 0 div 2 ^ 16 = 43518"
  by (simp_all add: dotted_def)

lemma v4_tests_octets:
  assumes "unat v div 2 ^ 16 = q"
  shows "v4_is_loopback v \<longleftrightarrow> q div 256 = 127"
    "v4_is_private v \<longleftrightarrow> q div 256 = 10 \<or> (q div 256 = 172 \<and> 16 \<le> q mod 256 \<and> q mod 256 \<le> 31)
       \<or> (q div 256 = 192 \<and> q mod 256 = 168)"
    "v4_is_link_local v \<longleftrightarrow> q div 256 = 169 \<and> q mod 256 = 254"
  unfolding v4_is_loopback_def v4_is_private_def v4_is_link_local_def octet_num leading_octets assms by simp_all

text \<open>A block of whole octets, and the block of sixteen second octets.\<close>

lemma octet_pair: "q div 256 = a \<and> q mod 256 = b \<longleftrightarrow> q = 256 * a + b" if "b < 256" for q a b :: nat
  using that div_mult_mod_eq [of q 256] by auto

lemma octet_range: "q div 16 = 2753 \<longleftrightarrow> q div 256 = 172 \<and> 16 \<le> q mod 256 \<and> q mod 256 \<le> 31" for q :: nat
proof -
  obtain a b where ab: "q = 256 * a + b" "b < 256" by (metis div_mult_mod_eq mod_less_divisor mult.commute zero_less_numeral)
  then have "q div 256 = a" "q mod 256 = b" "q div 16 = 16 * a + b div 16" by auto
  moreover have "b div 16 < 16" using ab(2) by auto
  moreover have "b div 16 = 1 \<longleftrightarrow> 16 \<le> b \<and> b \<le> 31" by auto
  moreover have "16 * a + c = 2753 \<longleftrightarrow> a = 172 \<and> c = 1" if "c < 16" for c using that by presburger
  ultimately show ?thesis by metis
qed

lemma v4_blocks:
  "v4_is_loopback v \<longleftrightarrow> in_block4 (dotted 127 0 0 0) 8 v"
  "v4_is_private v \<longleftrightarrow> in_block4 (dotted 10 0 0 0) 8 v \<or> in_block4 (dotted 172 16 0 0) 12 v
     \<or> in_block4 (dotted 192 168 0 0) 16 v"
  "v4_is_link_local v \<longleftrightarrow> in_block4 (dotted 169 254 0 0) 16 v"
proof -
  obtain q where q: "unat v div 2 ^ 16 = q" by blast
  show "v4_is_loopback v \<longleftrightarrow> in_block4 (dotted 127 0 0 0) 8 v"
    unfolding v4_tests_octets [OF q] in_block4_octets [OF q] dotted_block ..
  show "v4_is_private v \<longleftrightarrow> in_block4 (dotted 10 0 0 0) 8 v \<or> in_block4 (dotted 172 16 0 0) 12 v
     \<or> in_block4 (dotted 192 168 0 0) 16 v"
    unfolding v4_tests_octets [OF q] in_block4_octets [OF q] dotted_block by (auto simp: octet_range octet_pair)
  show "v4_is_link_local v \<longleftrightarrow> in_block4 (dotted 169 254 0 0) 16 v"
    unfolding v4_tests_octets [OF q] in_block4_octets [OF q] dotted_block by (auto simp: octet_range octet_pair)
qed

lemma and_not_mask: "(s :: 16 word) AND NOT (mask n) = push_bit n (drop_bit n s)"
  by (rule bit_eqI) (auto simp: bit_simps)

lemma drop_push_drop: "drop_bit n (push_bit n (drop_bit n (s :: 16 word))) = drop_bit n s"
  by (rule bit_eqI) (auto simp: bit_simps dest: bit_imp_le_length)

lemma masked_eq:
  "push_bit n (drop_bit n v) = v \<Longrightarrow> (s :: 16 word) AND NOT (mask n) = v \<longleftrightarrow> drop_bit n s = drop_bit n v"
  by (metis and_not_mask drop_push_drop)

lemma unat_segment0: "unat (segment 0 v) = unat v div 2 ^ 112"
proof -
  have "unat v div 2 ^ 112 < 2 ^ 16" using unat6_bound [of v] by (simp add: div_less_iff_less_mult)
  then show ?thesis
    unfolding segment_def unsigned_ucast_eq unat_drop take_bit_eq_mod by simp
qed

lemma v6_link_local_block: "segment 0 v AND 0xffc0 = 0xfe80 \<longleftrightarrow> in_block6 (0xfe80 * 2 ^ 112) 10 v"
proof -
  have m: "(0xffc0 :: 16 word) = NOT (mask 6)" "push_bit 6 (drop_bit 6 (0xfe80 :: 16 word)) = 0xfe80" by code_simp+
  have "segment 0 v AND 0xffc0 = 0xfe80 \<longleftrightarrow> drop_bit 6 (segment 0 v) = 0x3fa"
    unfolding m(1) masked_eq [OF m(2)] by simp
  also have "\<dots> \<longleftrightarrow> unat v div 2 ^ 112 div 2 ^ 6 = 0x3fa"
    unfolding word_unat_eq_iff unat_drop unat_segment0 by simp
  also have "unat v div 2 ^ 112 div 2 ^ 6 = unat v div 2 ^ 118" by (simp flip: div_mult2_eq)
  finally show ?thesis by (simp add: in_block6_def)
qed

lemma v6_ula_block: "segment 0 v AND 0xfe00 = 0xfc00 \<longleftrightarrow> in_block6 (0xfc00 * 2 ^ 112) 7 v"
proof -
  have m: "(0xfe00 :: 16 word) = NOT (mask 9)" "push_bit 9 (drop_bit 9 (0xfc00 :: 16 word)) = 0xfc00" by code_simp+
  have "segment 0 v AND 0xfe00 = 0xfc00 \<longleftrightarrow> drop_bit 9 (segment 0 v) = 0x7e"
    unfolding m(1) masked_eq [OF m(2)] by simp
  also have "\<dots> \<longleftrightarrow> unat v div 2 ^ 112 div 2 ^ 9 = 0x7e"
    unfolding word_unat_eq_iff unat_drop unat_segment0 by simp
  also have "unat v div 2 ^ 112 div 2 ^ 9 = unat v div 2 ^ 121" by (simp flip: div_mult2_eq)
  finally show ?thesis by (simp add: in_block6_def)
qed

lemma v6_loopback_block: "v6_is_loopback v \<longleftrightarrow> in_block6 1 128 v"
  by (simp add: v6_is_loopback_def in_block6_def word_unat_eq_iff)

lemma v6_mapped_block:
  "to_ipv4_mapped v = (if in_block6 (0xffff * 2 ^ 32) 96 v then Some (ucast v) else None)"
proof -
  have "drop_bit 32 v = 0xffff \<longleftrightarrow> unat v div 2 ^ 32 = 0xffff"
    unfolding word_unat_eq_iff unat_drop by simp
  then show ?thesis by (simp add: to_ipv4_mapped_def in_block6_def)
qed

section \<open>Facts: the guard\<close>

lemma is_internal_ip_block: "is_internal_ip ip \<longleftrightarrow> internal_block ip"
  by (cases ip) (auto simp: v4_blocks internal_block4_def v6_loopback_block v6_link_local_block v6_ula_block v6_mapped_block)

text \<open>The blocks no allowlist opens.\<close>

definition blocked_block4 :: "32 word \<Rightarrow> bool" where
  "blocked_block4 v \<longleftrightarrow> in_block4 (dotted 127 0 0 0) 8 v \<or> in_block4 (dotted 169 254 0 0) 16 v"

fun blocked_block :: "ip_addr \<Rightarrow> bool" where
  "blocked_block (V4 v) = blocked_block4 v"
| "blocked_block (V6 v) \<longleftrightarrow> in_block6 1 128 v \<or> in_block6 (0xfe80 * 2 ^ 112) 10 v
     \<or> (in_block6 (0xffff * 2 ^ 32) 96 v \<and> blocked_block4 (ucast v))"

lemma is_always_blocked_ip_block: "is_always_blocked_ip ip \<longleftrightarrow> blocked_block ip"
  by (cases ip) (auto simp: v4_blocks blocked_block4_def v6_loopback_block v6_link_local_block v6_mapped_block)

lemma always_blocked_internal: "is_always_blocked_ip ip \<Longrightarrow> is_internal_ip ip"
  by (cases ip) (auto split: if_splits option.splits)

lemma resolve_addrs_Inr: "resolve_addrs d h p = Inr as \<longleftrightarrow> d h p = Inr as \<and> as \<noteq> []"
  by (auto simp: resolve_addrs_def split: sum.splits)

section \<open>The contract of a resolving guard\<close>

text \<open>What the proxy relies on when it connects to resolved addresses: they are all the addresses the name has, and
  every one of them is admitted.\<close>

locale ip_guard =
  fixes admits :: "ip_addr \<Rightarrow> bool"
    and resolve :: "dns \<Rightarrow> bytes \<Rightarrow> nat \<Rightarrow> (report, sock_addr list) result"
  assumes resolve_sound:
      "resolve d h p = Inr as \<Longrightarrow> d h p = Inr as \<and> as \<noteq> [] \<and> list_all (\<lambda>a. admits (fst a)) as"
    and resolve_complete:
      "d h p = Inr as \<Longrightarrow> as \<noteq> [] \<Longrightarrow> list_all (\<lambda>a. admits (fst a)) as \<Longrightarrow> resolve d h p = Inr as"
begin

lemma resolve_iff: "resolve d h p = Inr as \<longleftrightarrow> d h p = Inr as \<and> as \<noteq> [] \<and> list_all (\<lambda>a. admits (fst a)) as"
  using resolve_sound resolve_complete by blast

text \<open>One address that is not admitted spoils the name, wherever the resolver lists it.\<close>

lemma one_bad_address_rejects:
  assumes "d h p = Inr as" "a \<in> set as" "\<not> admits (fst a)"
  shows "\<exists>e. resolve d h p = Inl e"
proof (cases "resolve d h p")
  case (Inr bs)
  then have "d h p = Inr bs" "list_all (\<lambda>a. admits (fst a)) bs" using resolve_sound by blast+
  then show ?thesis using assms by (auto simp: list_all_iff)
qed blast

lemma weaker_guard: "(\<And>ip. admits ip \<Longrightarrow> P ip) \<Longrightarrow> resolve d h p = Inr as \<Longrightarrow> a \<in> set as \<Longrightarrow> P (fst a)"
  using resolve_sound by (auto simp: list_all_iff)

end

lemma find_split_None:
  "(case find P xs of None \<Rightarrow> Inr xs | Some a \<Rightarrow> Inl (f a)) = Inr ys \<longleftrightarrow> xs = ys \<and> list_all (\<lambda>a. \<not> P a) ys"
proof (cases "find P xs")
  case None
  then have "\<forall>a\<in>set xs. \<not> P a" by (auto simp: find_None_iff)
  then show ?thesis using None by (auto simp: list_all_iff)
next
  case (Some a)
  then have "\<not> list_all (\<lambda>a. \<not> P a) xs" by (metis (full_types) find_None_iff list_all_iff option.distinct(1))
  then show ?thesis using Some by auto
qed

lemma reject_internal_Inr:
  "resolve_and_reject_internal d h p = Inr as \<longleftrightarrow>
     d h p = Inr as \<and> as \<noteq> [] \<and> list_all (\<lambda>a. \<not> is_internal_ip (fst a)) as"
  unfolding resolve_and_reject_internal_def result_bind_Inr_iff resolve_addrs_Inr find_split_None by blast

lemma check_allowed_ips_Inr:
  "resolve_and_check_allowed_ips L nets d h p = Inr as \<longleftrightarrow>
     d h p = Inr as \<and> as \<noteq> []
     \<and> list_all (\<lambda>a. \<not> is_always_blocked_ip (fst a) \<and> (\<exists>net\<in>set nets. nl_contains L net (fst a))) as"
  unfolding resolve_and_check_allowed_ips_def result_bind_Inr_iff resolve_addrs_Inr if_distrib [of Inl, symmetric]
    find_split_None de_Morgan_disj not_not by blast

interpretation default_guard: ip_guard "\<lambda>ip. \<not> is_internal_ip ip" resolve_and_reject_internal
  by unfold_locales (simp_all add: reject_internal_Inr)

interpretation allow_guard: ip_guard
  "\<lambda>ip. \<not> is_always_blocked_ip ip \<and> (\<exists>net\<in>set nets. nl_contains L net ip)" "resolve_and_check_allowed_ips L nets"
  for L :: "'n ipnet_lib" and nets
  by unfold_locales (simp_all add: check_allowed_ips_Inr)

section \<open>Properties\<close>

text \<open>The bit tests of the SSRF guard are the intended address blocks: an address is internal exactly when it lies in
  127.0.0.0/8, 10.0.0.0/8, 172.16.0.0/12, 192.168.0.0/16, 169.254.0.0/16, ::1/128, fe80::/10 or fc00::/7, or is the
  IPv4-mapped form of one of the IPv4 blocks; and it is always blocked exactly when it is loopback or link-local in one of
  these forms.\<close>

theorem internal_ip_blocks:
  "(is_internal_ip ip \<longleftrightarrow> internal_block ip) \<and> (is_always_blocked_ip ip \<longleftrightarrow> blocked_block ip)"
  by (simp add: is_internal_ip_block is_always_blocked_ip_block)

text \<open>C27: resolution is all or nothing. Without an allowlist the guard hands out exactly the resolver's answers that are
  not empty and have no internal address; with one, exactly those of which every address lies in an allowed network and
  none is loopback or link-local. Any other answer, and any failed resolution, is an error.\<close>

theorem guards_admit_exactly:
  "(resolve_and_reject_internal d host port = Inr addrs \<longleftrightarrow>
      d host port = Inr addrs \<and> addrs \<noteq> [] \<and> (\<forall>a\<in>set addrs. \<not> internal_block (fst a)))
   \<and> (resolve_and_check_allowed_ips L nets d host port = Inr addrs \<longleftrightarrow>
      d host port = Inr addrs \<and> addrs \<noteq> []
      \<and> (\<forall>a\<in>set addrs. \<not> blocked_block (fst a) \<and> (\<exists>net\<in>set nets. nl_contains L net (fst a))))"
  unfolding default_guard.resolve_iff allow_guard.resolve_iff
  by (simp add: list_all_iff is_internal_ip_block is_always_blocked_ip_block)

definition public_host :: dns where
  "public_host host port = Inr [(V4 0x08080808, port)]"

definition prefix8_lib :: "8 word ipnet_lib" where
  "prefix8_lib = \<lparr>nl_parse = (\<lambda>_. None), nl_from = (\<lambda>ip. case ip of V4 v \<Rightarrow> octet 0 v | V6 _ \<Rightarrow> 0),
     nl_contains = (\<lambda>n ip. case ip of V4 v \<Rightarrow> octet 0 v = n | V6 _ \<Rightarrow> False)\<rparr>"

theorem guards_admit_exactly_witness:
  "resolve_and_reject_internal public_host ''dns.google'' 443 = Inr [(V4 0x08080808, 443)]
   \<and> resolve_and_check_allowed_ips prefix8_lib [8] public_host ''dns.google'' 443 = Inr [(V4 0x08080808, 443)]"
  using guards_admit_exactly [of public_host "''dns.google''" 443 "[(V4 0x08080808, 443)]" prefix8_lib "[8]"]
  unfolding is_internal_ip_block [symmetric] is_always_blocked_ip_block [symmetric]
  by (simp add: public_host_def prefix8_lib_def v4_is_loopback_def v4_is_private_def v4_is_link_local_def octet_def)

text \<open>The unspecified addresses pass the guard: 0.0.0.0 and :: are neither internal nor always blocked, although
  connecting to them reaches the local host.\<close>

theorem unspecified_address_admitted:
  "resolve_and_reject_internal (\<lambda>_ port. Inr [(V4 0, port), (V6 0, port)]) host port = Inr [(V4 0, port), (V6 0, port)]"
  unfolding default_guard.resolve_iff
  by (simp add: v4_is_loopback_def v4_is_private_def v4_is_link_local_def octet_def v6_is_loopback_def segment_def
      to_ipv4_mapped_def)

text \<open>An allowlist is accepted exactly when each of its entries is a network or an address; it then has the networks
  in order. Nothing else is asked of an entry, so one that covers loopback is accepted too.\<close>

lemma parse_allowed_ips_Inr:
  "parse_allowed_ips L raw = Inr nets \<longleftrightarrow> map (parse_allowed_ip L) raw = map Some nets"
proof -
  have "filter (\<lambda>entry. parse_allowed_ip L entry = None) raw = [] \<and> List.map_filter (parse_allowed_ip L) raw = nets
      \<longleftrightarrow> map (parse_allowed_ip L) raw = map Some nets"
    by (induction raw arbitrary: nets) (auto simp: map_filter_simps Cons_eq_map_conv split: option.splits)
  then show ?thesis by (auto simp: parse_allowed_ips_def Let_def)
qed

lemma loopback_entry_accepted: "nl_parse L ''127.0.0.1'' = None \<Longrightarrow>
    parse_allowed_ips L [''127.0.0.1''] = Inr [nl_from L (V4 0x7F000001)]"
proof -
  have "read_ipv4_addr ''127.0.0.1'' = Some ([127, 0, 0, 1], [])" by code_simp
  then have "parse_ip_addr ''127.0.0.1'' = Some (V4 0x7F000001)" by (simp add: parse_ip_addr_def word_of_groups_def)
  then show "nl_parse L ''127.0.0.1'' = None \<Longrightarrow> ?thesis"
    unfolding parse_allowed_ips_Inr by (simp add: parse_allowed_ip_def)
qed

end
