(* ===== verification/Procfs.thy ===== *)
theory Procfs
  imports Sandbox_Policy "HOL-Library.Multiset"
begin

text \<open>
  Process identification through \<open>/proc\<close>, \<open>crates/clustershell-sandbox/src/procfs.rs\<close>: the socket table, the owner
  of a socket, the walk up to the entrypoint and the walk down from it. \<open>/proc\<close> is a snapshot: what each read answers
  while one lookup runs. The walk down is a loop over a growing list without a check for repetitions, so it is a partial
  function.
\<close>

section \<open>The file system\<close>

text \<open>Unreadable files, and files that are not UTF-8 where the code reads a string, are \<^const>\<open>None\<close>. \<open>pf_fds\<close> has the
  link text of every entry of \<open>fd\<close> that can be read, \<open>pf_children\<close> the \<open>children\<close> file of every task.\<close>

record proc_fs =
  pf_exe :: "int \<Rightarrow> (bytes, bytes) result"
  pf_status :: "nat \<Rightarrow> bytes option"
  pf_cmdline :: "nat \<Rightarrow> bytes option"
  pf_net :: "nat \<Rightarrow> bytes \<Rightarrow> bytes option"
  pf_fds :: "nat \<Rightarrow> bytes list option"
  pf_children :: "nat \<Rightarrow> bytes list option"
  pf_entries :: "bytes list option"

definition cast_signed :: "nat \<Rightarrow> int" where
  "cast_signed pid = (if pid < 2 ^ 31 then int pid else int pid - 2 ^ 32)"

section \<open>Executables and parents\<close>

definition binary_path :: "proc_fs \<Rightarrow> int \<Rightarrow> (report, bytes) result" where
  "binary_path pf pid =
     result_map_err (\<lambda>e. ''Failed to read /proc/'' @ show_int pid @ ''/exe: '' @ e @ ''. Cannot determine binary identity ''
         @ [CHR 0xE2, CHR 0x80, CHR 0x94] @ '' denying request. ''
         @ ''Hint: the proxy may need CAP_SYS_PTRACE or to run as the same user.'')
       (pf_exe pf pid)"

definition read_ppid :: "proc_fs \<Rightarrow> nat \<Rightarrow> nat option" where
  "read_ppid pf pid =
     Option.bind (pf_status pf pid) (\<lambda>status.
     Option.bind (find (\<lambda>line. starts_with line ''PPid:'') (str_lines status)) (\<lambda>line.
       parse_u32 (trim_ws (drop 5 line))))"

definition MAX_DEPTH :: nat where
  "MAX_DEPTH = 64"

text \<open>The step both upward walks take: the parent, unless there is none or it is the process itself.\<close>

definition parent_of :: "proc_fs \<Rightarrow> nat \<Rightarrow> nat option" where
  "parent_of pf current =
     (case read_ppid pf current of
        Some p \<Rightarrow> if p > 0 \<and> p \<noteq> current then Some p else None
      | None \<Rightarrow> None)"

fun ancestor_walk :: "proc_fs \<Rightarrow> nat \<Rightarrow> nat \<Rightarrow> nat \<Rightarrow> bytes list" where
  "ancestor_walk pf stop_pid 0 current = []"
| "ancestor_walk pf stop_pid (Suc depth) current =
     (case parent_of pf current of
        None \<Rightarrow> []
      | Some ppid \<Rightarrow>
          (case binary_path pf (cast_signed ppid) of Inl _ \<Rightarrow> [] | Inr path \<Rightarrow> [path])
          @ (if ppid = stop_pid \<or> ppid = 1 then [] else ancestor_walk pf stop_pid depth ppid))"

definition collect_ancestor_binaries :: "proc_fs \<Rightarrow> nat \<Rightarrow> nat \<Rightarrow> bytes list" where
  "collect_ancestor_binaries pf pid stop_pid = ancestor_walk pf stop_pid MAX_DEPTH pid"

section \<open>Command lines\<close>

definition cmdline_absolute_paths :: "proc_fs \<Rightarrow> nat \<Rightarrow> bytes list" where
  "cmdline_absolute_paths pf pid =
     (case pf_cmdline pf pid of
        None \<Rightarrow> []
      | Some cmdline \<Rightarrow>
          map from_utf8_lossy (filter (\<lambda>arg. starts_with arg ''/'') (split_char (CHR 0x00) cmdline)))"

text \<open>Paths are compared by their components.\<close>

definition path_eq :: "bytes \<Rightarrow> bytes \<Rightarrow> bool" where
  "path_eq p q \<longleftrightarrow> path_components p = path_components q"

fun push_new :: "bytes list \<Rightarrow> bytes list \<Rightarrow> bytes list \<Rightarrow> bytes list" where
  "push_new exclude paths [] = paths"
| "push_new exclude paths (p # ps) =
     push_new exclude (if \<not> list_ex (path_eq p) exclude \<and> \<not> list_ex (path_eq p) paths then paths @ [p] else paths) ps"

fun cmdline_walk :: "proc_fs \<Rightarrow> nat \<Rightarrow> bytes list \<Rightarrow> nat \<Rightarrow> nat \<Rightarrow> bytes list \<Rightarrow> bytes list" where
  "cmdline_walk pf stop_pid exclude 0 current paths = paths"
| "cmdline_walk pf stop_pid exclude (Suc depth) current paths =
     (case parent_of pf current of
        None \<Rightarrow> paths
      | Some ppid \<Rightarrow>
          (let paths' = push_new exclude paths (cmdline_absolute_paths pf ppid) in
           if ppid = stop_pid \<or> ppid = 1 then paths' else cmdline_walk pf stop_pid exclude depth ppid paths'))"

definition collect_cmdline_paths :: "proc_fs \<Rightarrow> nat \<Rightarrow> nat \<Rightarrow> bytes list \<Rightarrow> bytes list" where
  "collect_cmdline_paths pf pid stop_pid exclude =
     cmdline_walk pf stop_pid exclude MAX_DEPTH pid (push_new exclude [] (cmdline_absolute_paths pf pid))"

section \<open>The socket table\<close>

text \<open>One line of \<open>/proc/net/tcp\<close>: skipped, the answer, or an inode that is not a number.\<close>

datatype tcp_scan = SkipLine | Inode nat | BadInode bytes

definition tcp_line :: "nat \<Rightarrow> bytes \<Rightarrow> tcp_scan" where
  "tcp_line peer_port line =
     (let fields = split_whitespace line in
      if length fields < 10 then SkipLine
      else case rsplit_once (fields ! 1) (CHR '':'') of
             None \<Rightarrow> SkipLine
           | Some (_, port_hex) \<Rightarrow>
               (let local_port = (case from_str_radix (2 ^ 16 - 1) 16 port_hex of None \<Rightarrow> 0 | Some p \<Rightarrow> p) in
                if fields ! 3 \<noteq> ''01'' then SkipLine
                else if local_port = peer_port then
                  (case parse_u64 (fields ! 9) of
                     None \<Rightarrow> BadInode (fields ! 9)
                   | Some inode \<Rightarrow> if inode = 0 then SkipLine else Inode inode)
                else SkipLine))"

fun scan_tcp_lines :: "nat \<Rightarrow> bytes list \<Rightarrow> tcp_scan" where
  "scan_tcp_lines peer_port [] = SkipLine"
| "scan_tcp_lines peer_port (l # ls) =
     (case tcp_line peer_port l of SkipLine \<Rightarrow> scan_tcp_lines peer_port ls | r \<Rightarrow> r)"

fun scan_tcp_tables :: "proc_fs \<Rightarrow> nat \<Rightarrow> nat \<Rightarrow> bytes list \<Rightarrow> tcp_scan" where
  "scan_tcp_tables pf pid peer_port [] = SkipLine"
| "scan_tcp_tables pf pid peer_port (suffix # ss) =
     (case pf_net pf pid suffix of
        None \<Rightarrow> scan_tcp_tables pf pid peer_port ss
      | Some content \<Rightarrow>
          (case scan_tcp_lines peer_port (drop 1 (str_lines content)) of
             SkipLine \<Rightarrow> scan_tcp_tables pf pid peer_port ss
           | r \<Rightarrow> r))"

definition parse_proc_net_tcp :: "proc_fs \<Rightarrow> nat \<Rightarrow> nat \<Rightarrow> (report, nat) result" where
  "parse_proc_net_tcp pf pid peer_port =
     (case scan_tcp_tables pf pid peer_port [''tcp'', ''tcp6''] of
        Inode inode \<Rightarrow> Inr inode
      | BadInode field \<Rightarrow> Inl (''Failed to parse inode from '' @ field)
      | SkipLine \<Rightarrow> Inl (''No ESTABLISHED TCP connection found for port '' @ show_nat peer_port @ '' in /proc/''
                          @ show_nat pid @ ''/net/tcp{,6}''))"

section \<open>The owner of a socket\<close>

definition check_pid_fds :: "proc_fs \<Rightarrow> nat \<Rightarrow> bytes \<Rightarrow> nat option" where
  "check_pid_fds pf pid target =
     Option.bind (pf_fds pf pid) (\<lambda>links.
       if \<exists>link\<in>set links. from_utf8_lossy link = target then Some pid else None)"

definition child_pids :: "proc_fs \<Rightarrow> nat \<Rightarrow> nat list" where
  "child_pids pf pid =
     (case pf_children pf pid of
        None \<Rightarrow> []
      | Some files \<Rightarrow> concat (map (\<lambda>s. List.map_filter parse_u32 (split_whitespace s)) files))"

partial_function (option) descendant_loop :: "proc_fs \<Rightarrow> nat list \<Rightarrow> nat \<Rightarrow> nat list option" where
  "descendant_loop pf pids i =
     (if i < length pids then descendant_loop pf (pids @ child_pids pf (pids ! i)) (i + 1) else Some pids)"

definition collect_descendant_pids :: "proc_fs \<Rightarrow> nat \<Rightarrow> nat list option" where
  "collect_descendant_pids pf root_pid = descendant_loop pf [root_pid] 0"

fun first_some :: "('a \<Rightarrow> 'b option) \<Rightarrow> 'a list \<Rightarrow> 'b option" where
  "first_some f [] = None"
| "first_some f (x # xs) = (case f x of Some y \<Rightarrow> Some y | None \<Rightarrow> first_some f xs)"

text \<open>The link text of a socket's descriptor, and the scan of all of \<open>/proc\<close> but the processes already checked.\<close>

definition socket_link :: "nat \<Rightarrow> bytes" where
  "socket_link inode = ''socket:['' @ show_nat inode @ '']''"

definition scan_proc :: "proc_fs \<Rightarrow> nat list \<Rightarrow> bytes \<Rightarrow> nat option" where
  "scan_proc pf checked target =
     Option.bind (pf_entries pf)
       (first_some (\<lambda>name.
          Option.bind (parse_u32 (from_utf8_lossy name)) (\<lambda>pid.
            if pid \<in> set checked then None else check_pid_fds pf pid target)))"

definition find_pid_by_socket_inode :: "proc_fs \<Rightarrow> nat \<Rightarrow> nat \<Rightarrow> (report, nat) result option" where
  "find_pid_by_socket_inode pf inode entrypoint_pid =
     (let target = socket_link inode in
      map_option (\<lambda>descendants.
        case first_some (\<lambda>pid. check_pid_fds pf pid target) descendants of
          Some found \<Rightarrow> Inr found
        | None \<Rightarrow>
            (case scan_proc pf descendants target of
               Some found \<Rightarrow> Inr found
             | None \<Rightarrow>
                 Inl (''No process found owning socket inode '' @ show_nat inode @ '' (scanned ''
                   @ show_nat (length descendants) @ '' descendants of entrypoint PID '' @ show_nat entrypoint_pid
                   @ ''). Hint: the container may need --cap-add=SYS_PTRACE to read /proc/<pid>/fd/ ''
                   @ ''for processes running as a different user.'')))
        (collect_descendant_pids pf entrypoint_pid))"

definition resolve_tcp_peer_identity :: "proc_fs \<Rightarrow> nat \<Rightarrow> nat \<Rightarrow> (report, bytes \<times> nat) result option" where
  "resolve_tcp_peer_identity pf entrypoint_pid peer_port =
     (case parse_proc_net_tcp pf entrypoint_pid peer_port of
        Inl e \<Rightarrow> Some (Inl e)
      | Inr inode \<Rightarrow>
          map_option (\<lambda>r. result_bind r (\<lambda>pid. result_bind (binary_path pf (cast_signed pid)) (\<lambda>path. Inr (path, pid))))
            (find_pid_by_socket_inode pf inode entrypoint_pid))"

definition resolve_tcp_peer_binary :: "proc_fs \<Rightarrow> nat \<Rightarrow> nat \<Rightarrow> (report, bytes) result option" where
  "resolve_tcp_peer_binary pf entrypoint_pid peer_port =
     (case parse_proc_net_tcp pf entrypoint_pid peer_port of
        Inl e \<Rightarrow> Some (Inl e)
      | Inr inode \<Rightarrow>
          map_option (\<lambda>r. result_bind r (\<lambda>pid. binary_path pf (cast_signed pid)))
            (find_pid_by_socket_inode pf inode entrypoint_pid))"

text \<open>\<open>read\<close> and \<open>digest\<close> stand for \<open>std::fs::read\<close> and the SHA-256 digest.\<close>

definition hex_encode :: "bytes \<Rightarrow> bytes" where
  "hex_encode bs = concat (map (\<lambda>b. [digit_char (byte b div 16), digit_char (byte b mod 16)]) bs)"

definition file_sha256 :: "(bytes \<Rightarrow> (bytes, bytes) result) \<Rightarrow> (bytes \<Rightarrow> bytes) \<Rightarrow> bytes \<Rightarrow> (report, bytes) result" where
  "file_sha256 read digest path = result_bind (read path) (\<lambda>bytes. Inr (hex_encode (digest bytes)))"

section \<open>Facts\<close>

definition child_rel :: "proc_fs \<Rightarrow> (nat \<times> nat) set" where
  "child_rel pf = {(p, c). c \<in> set (child_pids pf p)}"

definition parent_rel :: "proc_fs \<Rightarrow> (nat \<times> nat) set" where
  "parent_rel pf = {(c, p). parent_of pf c = Some p}"

lemma drop_unfold: "i < length xs \<Longrightarrow> drop i xs = xs ! i # drop (Suc i) xs"
  by (rule Cons_nth_drop_Suc [symmetric])

text \<open>Every step replaces an unprocessed process by its children, so the multiset of ranks decreases.\<close>

lemma descendant_loop_returns:
  assumes rank: "\<And>p c. c \<in> set (child_pids pf p) \<Longrightarrow> rank c < (rank p :: nat)"
  shows "\<exists>res. descendant_loop pf pids i = Some res"
proof (induction "image_mset rank (mset (drop i pids))" arbitrary: pids i
    rule: wf_induct_rule [OF wf_mult [OF wf_less]])
  case 1
  show ?case
  proof (cases "i < length pids")
    case True
    let ?p = "pids ! i" and ?rest = "image_mset rank (mset (drop (Suc i) pids))"
    have "(?rest + image_mset rank (mset (child_pids pf ?p)), ?rest + {#rank ?p#}) \<in> mult {(x, y). x < y}"
      by (rule one_step_implies_mult) (auto intro: rank)
    moreover have "image_mset rank (mset (drop i pids)) = ?rest + {#rank ?p#}" using drop_unfold [OF True] by simp
    moreover have "image_mset rank (mset (drop (i + 1) (pids @ child_pids pf ?p))) =
        ?rest + image_mset rank (mset (child_pids pf ?p))" using True by simp
    ultimately have "\<exists>res. descendant_loop pf (pids @ child_pids pf ?p) (i + 1) = Some res" using 1 by metis
    then show ?thesis using True by (subst descendant_loop.simps) simp
  qed (subst descendant_loop.simps, simp)
qed

lemma descendant_loop_result:
  assumes "descendant_loop pf pids i = Some res" "\<forall>p\<in>set (take i pids). set (child_pids pf p) \<subseteq> set pids"
  shows "set pids \<subseteq> set res \<and> (\<forall>p\<in>set res. set (child_pids pf p) \<subseteq> set res)
    \<and> set res \<subseteq> (child_rel pf)\<^sup>* `` set pids"
  using assms(2)
proof (induction rule: descendant_loop.raw_induct [OF _ assms(1)])
  case (1 loop pf pids i res)
  show ?case
  proof (cases "i < length pids")
    case True
    let ?pids = "pids @ child_pids pf (pids ! i)"
    have "\<forall>p\<in>set (take (i + 1) ?pids). set (child_pids pf p) \<subseteq> set ?pids"
      using "1.prems" True by (auto simp: take_Suc_conv_app_nth)
    with "1.IH" [of pf ?pids "i + 1" res] "1.hyps" True have ih: "set ?pids \<subseteq> set res \<and> (\<forall>p\<in>set res. set (child_pids pf p) \<subseteq> set res)
        \<and> set res \<subseteq> (child_rel pf)\<^sup>* `` set ?pids" by simp
    have "(child_rel pf)\<^sup>* `` set (child_pids pf (pids ! i)) \<subseteq> (child_rel pf)\<^sup>* `` set pids"
    proof clarify
      fix c d assume "c \<in> set (child_pids pf (pids ! i))" "(c, d) \<in> (child_rel pf)\<^sup>*"
      then have "(pids ! i, d) \<in> (child_rel pf)\<^sup>*" by (auto simp: child_rel_def intro: converse_rtrancl_into_rtrancl)
      then show "d \<in> (child_rel pf)\<^sup>* `` set pids" using True nth_mem by blast
    qed
    with ih show ?thesis unfolding set_append Image_Un by blast
  next
    case False
    with "1.hyps" have "res = pids" by simp
    with "1.prems" False show ?thesis by auto
  qed
qed

lemma rtrancl_closed: "\<forall>p\<in>S. R `` {p} \<subseteq> S \<Longrightarrow> A \<subseteq> S \<Longrightarrow> R\<^sup>* `` A \<subseteq> S"
proof clarify
  fix x y assume c: "\<forall>p\<in>S. R `` {p} \<subseteq> S" "A \<subseteq> S" "x \<in> A" "(x, y) \<in> R\<^sup>*"
  from c(4) show "y \<in> S" using c(1-3) by induction auto
qed

lemma collect_descendants_set:
  assumes "collect_descendant_pids pf root = Some pids"
  shows "set pids = (child_rel pf)\<^sup>* `` {root}"
proof -
  have r: "set [root] \<subseteq> set pids" "\<forall>p\<in>set pids. set (child_pids pf p) \<subseteq> set pids" "set pids \<subseteq> (child_rel pf)\<^sup>* `` {root}"
    using descendant_loop_result [OF assms [unfolded collect_descendant_pids_def]] by auto
  then have "\<forall>p\<in>set pids. child_rel pf `` {p} \<subseteq> set pids" by (auto simp: child_rel_def)
  with r(1,3) rtrancl_closed [of "set pids" "child_rel pf" "{root}"] show ?thesis by auto
qed

lemma first_some_mem: "first_some f xs = Some y \<Longrightarrow> \<exists>x\<in>set xs. f x = Some y"
  by (induction xs) (auto split: option.splits)

lemma first_some_None: "first_some f xs = None \<longleftrightarrow> (\<forall>x\<in>set xs. f x = None)"
  by (induction xs) (auto split: option.splits)

definition owns_socket :: "proc_fs \<Rightarrow> nat \<Rightarrow> nat \<Rightarrow> bool" where
  "owns_socket pf inode pid \<longleftrightarrow>
     (\<exists>links. pf_fds pf pid = Some links \<and> socket_link inode \<in> from_utf8_lossy ` set links)"

lemma check_pid_fds_iff:
  "check_pid_fds pf pid target = Some q \<longleftrightarrow>
     q = pid \<and> (\<exists>links. pf_fds pf pid = Some links \<and> target \<in> from_utf8_lossy ` set links)"
  by (auto simp: check_pid_fds_def bind_eq_Some_conv image_iff split: if_splits)

lemma check_pid_fds_Some: "check_pid_fds pf pid (socket_link inode) = Some q \<longleftrightarrow> q = pid \<and> owns_socket pf inode pid"
  unfolding owns_socket_def by (rule check_pid_fds_iff)

lemma scan_proc_owns: "scan_proc pf checked (socket_link inode) = Some pid \<Longrightarrow> owns_socket pf inode pid"
  by (auto simp: scan_proc_def bind_eq_Some_conv check_pid_fds_Some split: if_splits dest!: first_some_mem)

lemma find_pid_owns:
  assumes "find_pid_by_socket_inode pf inode e = Some (Inr pid)"
  shows "owns_socket pf inode pid"
proof -
  obtain ds where ds: "collect_descendant_pids pf e = Some ds"
    using assms by (auto simp: find_pid_by_socket_inode_def Let_def)
  show ?thesis
  proof (cases "first_some (\<lambda>pid. check_pid_fds pf pid (socket_link inode)) ds")
    case None
    with assms ds have "scan_proc pf ds (socket_link inode) = Some pid"
      by (auto simp: find_pid_by_socket_inode_def Let_def split: option.splits)
    then show ?thesis by (rule scan_proc_owns)
  next
    case (Some q)
    with assms ds have "q = pid" by (simp add: find_pid_by_socket_inode_def Let_def)
    with first_some_mem [OF Some] show ?thesis by (auto simp: check_pid_fds_Some)
  qed
qed

text \<open>The line of an established connection with the given local port.\<close>

definition established_line :: "nat \<Rightarrow> nat \<Rightarrow> bytes \<Rightarrow> bool" where
  "established_line port inode line \<longleftrightarrow>
     (let fields = split_whitespace line in
      10 \<le> length fields \<and> fields ! 3 = ''01'' \<and> parse_u64 (fields ! 9) = Some inode \<and> 0 < inode
      \<and> (\<exists>addr p. rsplit_once (fields ! 1) (CHR '':'') = Some (addr, p)
           \<and> (case from_str_radix (2 ^ 16 - 1) 16 p of None \<Rightarrow> 0 | Some v \<Rightarrow> v) = port))"

lemma tcp_line_Inode: "tcp_line port line = Inode inode \<longleftrightarrow> established_line port inode line"
  unfolding tcp_line_def established_line_def Let_def
  by (auto split: option.splits if_splits)

lemma scan_tcp_lines_Inode: "scan_tcp_lines port ls = Inode inode \<Longrightarrow> \<exists>l\<in>set ls. established_line port inode l"
  by (induction ls) (auto simp flip: tcp_line_Inode split: tcp_scan.splits)

lemma scan_tcp_tables_Inode:
  "scan_tcp_tables pf pid port ss = Inode inode \<Longrightarrow>
   \<exists>suffix\<in>set ss. \<exists>content. pf_net pf pid suffix = Some content
     \<and> (\<exists>l\<in>set (drop 1 (str_lines content)). established_line port inode l)"
  by (induction ss) (auto split: option.splits tcp_scan.splits dest!: scan_tcp_lines_Inode)

lemma parse_proc_net_tcp_Inr:
  "parse_proc_net_tcp pf pid port = Inr inode \<Longrightarrow>
   \<exists>suffix\<in>{''tcp'', ''tcp6''}. \<exists>content. pf_net pf pid suffix = Some content
     \<and> (\<exists>l\<in>set (drop 1 (str_lines content)). established_line port inode l)"
  using scan_tcp_tables_Inode [of pf pid port "[''tcp'', ''tcp6'']" inode]
  by (auto simp: parse_proc_net_tcp_def simp del: scan_tcp_tables.simps split: tcp_scan.splits)

text \<open>The upward walk visits the first \<open>MAX_DEPTH\<close> proper ancestors up to the stop process or process 1.\<close>

lemma ancestor_walk_spec:
  "length (ancestor_walk pf stop n pid) \<le> n
   \<and> set (ancestor_walk pf stop n pid) \<subseteq> {path. \<exists>p. (pid, p) \<in> (parent_rel pf)\<^sup>+ \<and> pf_exe pf (cast_signed p) = Inr path}"
proof (induction n arbitrary: pid)
  case (Suc n)
  show ?case
  proof (cases "parent_of pf pid")
    case (Some p)
    let ?here = "case binary_path pf (cast_signed p) of Inl _ \<Rightarrow> [] | Inr path \<Rightarrow> [path]"
    have here: "length ?here \<le> 1" "set ?here \<subseteq> {path. pf_exe pf (cast_signed p) = Inr path}"
      by (cases "pf_exe pf (cast_signed p)"; simp add: binary_path_def)+
    have "(pid, p) \<in> parent_rel pf" using Some by (simp add: parent_rel_def)
    then have "(p, q) \<in> (parent_rel pf)\<^sup>+ \<Longrightarrow> (pid, q) \<in> (parent_rel pf)\<^sup>+" "(pid, p) \<in> (parent_rel pf)\<^sup>+" for q
      by auto
    with here Suc.IH [of p] Some show ?thesis by (auto simp del: ancestor_walk.simps(1)) fastforce+
  qed simp
qed simp

definition new_paths :: "bytes list \<Rightarrow> bytes list \<Rightarrow> bool" where
  "new_paths exclude paths \<longleftrightarrow>
     distinct (map path_components paths) \<and> path_components ` set paths \<inter> path_components ` set exclude = {}"

lemma new_paths_Nil: "new_paths exclude []"
  by (simp add: new_paths_def)

lemma push_new_inv: "new_paths exclude paths \<Longrightarrow> new_paths exclude (push_new exclude paths ps)"
proof (induction exclude paths ps rule: push_new.induct)
  case (2 exclude paths p ps)
  have "new_paths exclude
      (if \<not> list_ex (path_eq p) exclude \<and> \<not> list_ex (path_eq p) paths then paths @ [p] else paths)"
    using "2.prems" by (auto simp: new_paths_def path_eq_def list_ex_iff)
  from "2.IH" [OF this] show ?case by simp
qed simp

lemma cmdline_walk_inv: "new_paths exclude paths \<Longrightarrow> new_paths exclude (cmdline_walk pf stop exclude n pid paths)"
  by (induction pf stop exclude n pid paths rule: cmdline_walk.induct)
    (auto simp: Let_def push_new_inv split: option.splits)

section \<open>Properties\<close>

text \<open>The identity bound to a connection is real: when the lookup answers with a binary and a process, the process
  holds a descriptor of a socket whose inode the entrypoint's network namespace lists as established with the client's
  port, and the binary is what that process executes, not what its command line says.\<close>

theorem peer_identity_sound:
  assumes "resolve_tcp_peer_identity pf entrypoint_pid peer_port = Some (Inr (path, pid))"
  shows "\<exists>inode. owns_socket pf inode pid \<and> pf_exe pf (cast_signed pid) = Inr path
    \<and> (\<exists>suffix\<in>{''tcp'', ''tcp6''}. \<exists>content. pf_net pf entrypoint_pid suffix = Some content
         \<and> (\<exists>line\<in>set (drop 1 (str_lines content)). established_line peer_port inode line))"
proof -
  obtain inode where p: "parse_proc_net_tcp pf entrypoint_pid peer_port = Inr inode"
    using assms by (auto simp: resolve_tcp_peer_identity_def split: sum.splits)
  with assms have "find_pid_by_socket_inode pf inode entrypoint_pid = Some (Inr pid)"
    "binary_path pf (cast_signed pid) = Inr path"
    by (auto simp: resolve_tcp_peer_identity_def)
  then have "owns_socket pf inode pid" "pf_exe pf (cast_signed pid) = Inr path"
    by (simp_all add: find_pid_owns binary_path_def)
  with parse_proc_net_tcp_Inr [OF p] show ?thesis by blast
qed

text \<open>On a process tree the downward walk returns, with exactly the entrypoint and its descendants. A rank that
  decreases from every process to its children is what a tree has; the loop itself does not check for repetitions.\<close>

theorem descendants_exact_on_trees:
  assumes "\<And>p c. c \<in> set (child_pids pf p) \<Longrightarrow> rank c < (rank p :: nat)"
  shows "\<exists>pids. collect_descendant_pids pf root = Some pids \<and> set pids = (child_rel pf)\<^sup>* `` {root}"
  using descendant_loop_returns [of pf rank "[root]" 0] assms collect_descendants_set
  unfolding collect_descendant_pids_def by metis

text \<open>The walk up from a process yields at most 64 binaries, each the executable of a proper ancestor, and the
  command-line paths it collects have no duplicates and none of the excluded executables.\<close>

theorem ancestor_walks_bounded:
  "length (collect_ancestor_binaries pf pid stop_pid) \<le> 64
   \<and> set (collect_ancestor_binaries pf pid stop_pid)
       \<subseteq> {path. \<exists>p. (pid, p) \<in> (parent_rel pf)\<^sup>+ \<and> pf_exe pf (cast_signed p) = Inr path}
   \<and> distinct (map path_components (collect_cmdline_paths pf pid stop_pid exclude))
   \<and> path_components ` set (collect_cmdline_paths pf pid stop_pid exclude) \<inter> path_components ` set exclude = {}"
proof -
  have "MAX_DEPTH = 64" by (simp add: MAX_DEPTH_def)
  moreover have "new_paths exclude (collect_cmdline_paths pf pid stop_pid exclude)"
    unfolding collect_cmdline_paths_def by (intro cmdline_walk_inv push_new_inv new_paths_Nil)
  ultimately show ?thesis
    using ancestor_walk_spec [of pf stop_pid MAX_DEPTH pid]
    unfolding collect_ancestor_binaries_def new_paths_def by metis
qed

text \<open>A process tree: the entrypoint 7 runs a shell and has the child 12, which holds the client's socket.\<close>

definition sample_line :: bytes where
  "sample_line = ''0: 0200C80A:8F4C 0100C80A:0C38 01 0 0 0 1000 0 4242''"

definition sample_fs :: proc_fs where
  "sample_fs =
     \<lparr>pf_exe = (\<lambda>p. if p = 12 then Inr ''/usr/bin/curl'' else Inr ''/bin/sh''),
      pf_status = (\<lambda>p. if p = 12 then Some ''PPid: 7'' else None),
      pf_cmdline = (\<lambda>_. None),
      pf_net = (\<lambda>_ suffix. if suffix = ''tcp'' then Some (''header'' @ [CHR 0x0A] @ sample_line) else None),
      pf_fds = (\<lambda>p. if p = 12 then Some [''socket:[4242]''] else None),
      pf_children = (\<lambda>p. if p = 7 then Some [''12''] else None),
      pf_entries = None\<rparr>"

lemma sample_children: "child_pids sample_fs p = (if p = 7 then [12] else [])"
proof -
  have "split_whitespace ''12'' = [''12'']" by code_simp
  moreover have "parse_u32 ''12'' = Some 12"
    by (simp add: parse_u32_def from_str_radix_def starts_with_def digit_value_def is_ascii_digit_def)
  ultimately show ?thesis by (simp add: child_pids_def sample_fs_def map_filter_simps)
qed

theorem descendants_exact_on_trees_witness:
  "\<exists>pids. collect_descendant_pids sample_fs 7 = Some pids \<and> set pids = (child_rel sample_fs)\<^sup>* `` {7}"
  by (rule descendants_exact_on_trees [of sample_fs "\<lambda>p. if p = 7 then 1 else 0"])
    (auto simp: sample_children split: if_splits)

lemma sample_descendants: "collect_descendant_pids sample_fs 7 = Some [7, 12]"
  unfolding collect_descendant_pids_def
  by (simp add: descendant_loop.simps sample_children)

lemma sample_tcp: "parse_proc_net_tcp sample_fs 7 36684 = Inr 4242"
proof -
  have "str_lines (''header'' @ [CHR 0x0A] @ sample_line) = [''header'', sample_line]" by code_simp
  moreover have "split_whitespace sample_line =
      [''0:'', ''0200C80A:8F4C'', ''0100C80A:0C38'', ''01'', ''0'', ''0'', ''0'', ''1000'', ''0'', ''4242'']" by code_simp
  moreover have "rsplit_once ''0200C80A:8F4C'' (CHR '':'') = Some (''0200C80A'', ''8F4C'')" by code_simp
  moreover have "from_str_radix (2 ^ 16 - 1) 16 ''8F4C'' = Some 36684" "parse_u64 ''4242'' = Some 4242"
    by (simp_all add: parse_u64_def from_str_radix_def starts_with_def digit_value_def is_ascii_digit_def)
  ultimately show ?thesis by (simp add: parse_proc_net_tcp_def sample_fs_def tcp_line_def)
qed

lemma sample_identity: "resolve_tcp_peer_identity sample_fs 7 36684 = Some (Inr (''/usr/bin/curl'', 12))"
proof -
  have "socket_link 4242 = ''socket:[4242]''"
    by (simp add: socket_link_def show_nat_def show_radix.simps digit_char_def, code_simp)
  moreover have "from_utf8_lossy ''socket:[4242]'' = ''socket:[4242]''" by code_simp
  ultimately have "check_pid_fds sample_fs 7 (socket_link 4242) = None" "check_pid_fds sample_fs 12 (socket_link 4242) = Some 12"
    by (simp_all add: check_pid_fds_def sample_fs_def)
  then have "find_pid_by_socket_inode sample_fs 4242 7 = Some (Inr 12)"
    by (simp add: find_pid_by_socket_inode_def sample_descendants Let_def)
  then show ?thesis
    unfolding resolve_tcp_peer_identity_def sample_tcp
    by (simp add: binary_path_def sample_fs_def cast_signed_def)
qed

lemma sample_ancestors: "collect_ancestor_binaries sample_fs 12 7 = [''/bin/sh'']"
proof -
  have "str_lines ''PPid: 7'' = [''PPid: 7'']" "trim_ws '' 7'' = ''7''" by code_simp+
  moreover have "parse_u32 ''7'' = Some 7"
    by (simp add: parse_u32_def from_str_radix_def starts_with_def digit_value_def is_ascii_digit_def)
  ultimately have "parent_of sample_fs 12 = Some 7"
    by (simp add: parent_of_def read_ppid_def sample_fs_def starts_with_def)
  moreover have "binary_path sample_fs (cast_signed 7) = Inr ''/bin/sh''"
    by (simp add: binary_path_def sample_fs_def cast_signed_def)
  ultimately have "ancestor_walk sample_fs 7 (Suc n) 12 = [''/bin/sh'']" for n by simp
  from this [of 63] show ?thesis by (simp add: collect_ancestor_binaries_def MAX_DEPTH_def del: ancestor_walk.simps)
qed

theorem peer_identity_sound_witness:
  "\<exists>inode. owns_socket sample_fs inode 12 \<and> pf_exe sample_fs (cast_signed 12) = Inr ''/usr/bin/curl''"
  using peer_identity_sound [OF sample_identity] by blast

end
