(* ===== verification/Proxy_Policy.thy ===== *)
theory Proxy_Policy
  imports Policy_Refinement Identity Procfs Ip_Guard Denials
begin

text \<open>
  The decision on a connection, \<open>crates/clustershell-sandbox/src/proxy.rs\<close>: who the client is (\<open>procfs.rs\<close>), whether
  its binaries are the ones first seen (\<open>identity.rs\<close>), what the policy says (\<open>opa.rs\<close>) and which addresses the
  destination may have. What the operating system answers is a parameter; the identity cache is threaded through. The
  result is \<^const>\<open>None\<close> when the walk over the process tree does not end.
\<close>

section \<open>Decisions\<close>

record connect_decision =
  cd_action :: network_action
  cd_binary :: "bytes option"
  cd_binary_pid :: "nat option"
  cd_ancestors :: "bytes list"
  cd_cmdline_paths :: "bytes list"

text \<open>What the proxy asks: the policy engine with its built-ins and value printer, the process file system, \<open>stat\<close> and
  file contents with their digest, the resolver and the network library.\<close>

record 'n proxy_env =
  pe_builtins :: builtins
  pe_print :: "json \<Rightarrow> bytes"
  pe_engine :: opa_engine
  pe_entrypoint_pid :: nat
  pe_proc :: proc_fs
  pe_stat :: "bytes \<Rightarrow> (bytes, file_fingerprint) result"
  pe_read :: "bytes \<Rightarrow> (bytes, bytes) result"
  pe_digest :: "bytes \<Rightarrow> bytes"
  pe_dns :: dns
  pe_nets :: "'n ipnet_lib"
  pe_denial_tx :: bool

definition deny_decision ::
  "bytes \<Rightarrow> bytes option \<Rightarrow> nat option \<Rightarrow> bytes list \<Rightarrow> bytes list \<Rightarrow> connect_decision" where
  "deny_decision reason binary binary_pid ancestors cmdline_paths =
     \<lparr>cd_action = Deny reason, cd_binary = binary, cd_binary_pid = binary_pid, cd_ancestors = ancestors,
      cd_cmdline_paths = cmdline_paths\<rparr>"

definition verify_binary :: "('n, 'm) proxy_env_scheme \<Rightarrow> identity_cache \<Rightarrow> bytes \<Rightarrow> (report, bytes) result \<times> identity_cache" where
  "verify_binary env cache path =
     verify_or_cache cache (pe_stat env) (file_sha256 (pe_read env) (pe_digest env)) path"

text \<open>The loop over the ancestors stops at the first that fails; the answer is that ancestor and its error.\<close>

fun verify_ancestors ::
  "('n, 'm) proxy_env_scheme \<Rightarrow> identity_cache \<Rightarrow> bytes list \<Rightarrow> (bytes \<times> report) option \<times> identity_cache" where
  "verify_ancestors env cache [] = (None, cache)"
| "verify_ancestors env cache (a # as) =
     (case verify_binary env cache a of
        (Inl e, cache') \<Rightarrow> (Some (a, e), cache')
      | (Inr _, cache') \<Rightarrow> verify_ancestors env cache' as)"

definition decision_input :: "bytes \<Rightarrow> nat \<Rightarrow> bytes \<Rightarrow> bytes \<Rightarrow> bytes list \<Rightarrow> bytes list \<Rightarrow> network_input" where
  "decision_input host port binary sha ancestors cmdline_paths =
     \<lparr>ni_host = host, ni_port = port, ni_binary_path = binary, ni_binary_sha256 = sha, ni_ancestors = ancestors,
      ni_cmdline_paths = cmdline_paths\<rparr>"

definition evaluate_opa_tcp ::
  "('n, 'm) proxy_env_scheme \<Rightarrow> identity_cache \<Rightarrow> nat \<Rightarrow> bytes \<Rightarrow> nat \<Rightarrow> (connect_decision \<times> identity_cache) option" where
  "evaluate_opa_tcp env cache peer_port host port =
     (let pid = pe_entrypoint_pid env in
      if pid = 0 then Some (deny_decision ''entrypoint process not yet spawned'' None None [] [], cache)
      else map_option (\<lambda>peer.
        case peer of
          Inl e \<Rightarrow> (deny_decision (''failed to resolve peer binary: '' @ e) None None [] [], cache)
        | Inr (bin_path, binary_pid) \<Rightarrow>
            (case verify_binary env cache bin_path of
               (Inl e, cache1) \<Rightarrow>
                 (deny_decision (''binary integrity check failed: '' @ e) (Some bin_path) (Some binary_pid) [] [], cache1)
             | (Inr bin_hash, cache1) \<Rightarrow>
                 (let ancestors = collect_ancestor_binaries (pe_proc env) binary_pid pid in
                  case verify_ancestors env cache1 ancestors of
                    (Some (ancestor, e), cache2) \<Rightarrow>
                      (deny_decision (''ancestor integrity check failed for '' @ from_utf8_lossy ancestor @ '': '' @ e)
                         (Some bin_path) (Some binary_pid) ancestors [], cache2)
                  | (None, cache2) \<Rightarrow>
                      (let cmdline_paths = collect_cmdline_paths (pe_proc env) binary_pid pid (ancestors @ [bin_path]);
                           input = decision_input host port bin_path bin_hash ancestors cmdline_paths in
                       case evaluate_network_action (pe_builtins env) (pe_print env) (pe_engine env) input of
                         Inr action \<Rightarrow>
                           (\<lparr>cd_action = action, cd_binary = Some bin_path, cd_binary_pid = Some binary_pid,
                             cd_ancestors = ancestors, cd_cmdline_paths = cmdline_paths\<rparr>, cache2)
                       | Inl e \<Rightarrow>
                           (deny_decision (''policy evaluation error: '' @ e) (Some bin_path) (Some binary_pid)
                              ancestors cmdline_paths, cache2)))))
        (resolve_tcp_peer_identity (pe_proc env) pid peer_port))"

section \<open>Queries for an allowed connection\<close>

definition has_policy :: "connect_decision \<Rightarrow> bool" where
  "has_policy decision \<longleftrightarrow> (case cd_action decision of Allow matched \<Rightarrow> matched \<noteq> None | Deny _ \<Rightarrow> False)"

definition query_input :: "connect_decision \<Rightarrow> bytes \<Rightarrow> nat \<Rightarrow> network_input" where
  "query_input decision host port =
     decision_input host port (case cd_binary decision of None \<Rightarrow> [] | Some b \<Rightarrow> b) [] (cd_ancestors decision)
       (cd_cmdline_paths decision)"

definition query_l7_config ::
  "('n, 'm) proxy_env_scheme \<Rightarrow> connect_decision \<Rightarrow> bytes \<Rightarrow> nat \<Rightarrow> l7_endpoint_config option" where
  "query_l7_config env decision host port =
     (if \<not> has_policy decision then None
      else case query_endpoint_config (pe_builtins env) (pe_engine env) (query_input decision host port) of
             Inr (Some val) \<Rightarrow> parse_l7_config val
           | Inr None \<Rightarrow> None
           | Inl _ \<Rightarrow> None)"

text \<open>\<open>query_allowed_ips\<close> of the proxy, around the engine's.\<close>

definition decision_allowed_ips :: "('n, 'm) proxy_env_scheme \<Rightarrow> connect_decision \<Rightarrow> bytes \<Rightarrow> nat \<Rightarrow> bytes list" where
  "decision_allowed_ips env decision host port =
     (if \<not> has_policy decision then []
      else case query_allowed_ips (pe_builtins env) (pe_engine env) (query_input decision host port) of
             Inr ips \<Rightarrow> ips
           | Inl _ \<Rightarrow> [])"

text \<open>The SSRF check both handlers make: \<open>host\<close> is resolved as the client spelled it, the policy is asked for \<open>host_lc\<close>.\<close>

definition resolve_destination ::
  "('n, 'm) proxy_env_scheme \<Rightarrow> connect_decision \<Rightarrow> bytes \<Rightarrow> bytes \<Rightarrow> nat \<Rightarrow> (report, sock_addr list) result" where
  "resolve_destination env decision host host_lc port =
     (let raw_allowed_ips = decision_allowed_ips env decision host_lc port in
      if raw_allowed_ips \<noteq> [] then
        result_bind (parse_allowed_ips (pe_nets env) raw_allowed_ips) (\<lambda>nets.
          resolve_and_check_allowed_ips (pe_nets env) nets (pe_dns env) host port)
      else resolve_and_reject_internal (pe_dns env) host port)"

text \<open>\<open>emit_denial\<close> and \<open>emit_denial_simple\<close>: the event sent, when there is an aggregator.\<close>

definition emit_denial ::
  "('n, 'm) proxy_env_scheme \<Rightarrow> bytes \<Rightarrow> nat \<Rightarrow> bytes \<Rightarrow> connect_decision \<Rightarrow> bytes \<Rightarrow> bytes \<Rightarrow> denial_event list" where
  "emit_denial env host port binary decision reason stage =
     (if pe_denial_tx env then
        [\<lparr>de_host = host, de_port = port, de_binary = binary,
          de_ancestors = map from_utf8_lossy (cd_ancestors decision), de_deny_reason = reason, de_denial_stage = stage,
          de_l7_method = None, de_l7_path = None\<rparr>]
      else [])"

definition binary_str :: "connect_decision \<Rightarrow> bytes" where
  "binary_str decision = (case cd_binary decision of None \<Rightarrow> ''-'' | Some p \<Rightarrow> from_utf8_lossy p)"

section \<open>Facts\<close>

lemma verify_binary_cache:
  assumes "verify_binary env cache path = (r, cache')"
  shows "cached_hash cache p = Some h \<Longrightarrow> cached_hash cache' p = Some h" "r = Inr h \<Longrightarrow> cached_hash cache' path = Some h"
  using assms
  by (auto simp: verify_binary_def verify_or_cache_def verify_or_cache_with_hasher_def
      split: sum.splits lookup.splits dest: commit_result lookup_hit)

lemma verify_ancestors_keep:
  "verify_ancestors env cache as = (r, cache') \<Longrightarrow> cached_hash cache p = Some h \<Longrightarrow> cached_hash cache' p = Some h"
proof (induction env cache as rule: verify_ancestors.induct)
  case (2 env cache a as)
  obtain x cache1 where v: "verify_binary env cache a = (x, cache1)" by force
  with 2 verify_binary_cache(1) [OF v] show ?case by (cases x) auto
qed simp

lemma verify_ancestors_cached:
  "verify_ancestors env cache as = (None, cache') \<Longrightarrow> a \<in> set as \<Longrightarrow> \<exists>h. cached_hash cache' a = Some h"
proof (induction env cache as rule: verify_ancestors.induct)
  case (2 env cache b as)
  obtain x cache1 where v: "verify_binary env cache b = (x, cache1)" by force
  with "2.prems"(1) obtain h where x: "x = Inr h" and rest: "verify_ancestors env cache1 as = (None, cache')"
    by (cases x) auto
  then show ?case
    using "2.IH" [OF v [symmetric] x rest] "2.prems"(2) verify_ancestors_keep [OF rest verify_binary_cache(2) [OF v x]]
    by auto
qed simp

text \<open>Every way to a decision that allows goes through identity, integrity of all binaries and the policy engine.\<close>

lemma allow_decision:
  assumes "evaluate_opa_tcp env cache peer_port host port = Some (d, cache')" "cd_action d = Allow m"
  obtains bin pid sha cache1 where
    "resolve_tcp_peer_identity (pe_proc env) (pe_entrypoint_pid env) peer_port = Some (Inr (bin, pid))"
    "verify_binary env cache bin = (Inr sha, cache1)"
    "verify_ancestors env cache1 (cd_ancestors d) = (None, cache')"
    "cd_binary d = Some bin" "cd_ancestors d = collect_ancestor_binaries (pe_proc env) pid (pe_entrypoint_pid env)"
    "evaluate_network_action (pe_builtins env) (pe_print env) (pe_engine env)
       (decision_input host port bin sha (cd_ancestors d) (cd_cmdline_paths d)) = Inr (Allow m)"
proof -
  have "pe_entrypoint_pid env \<noteq> 0"
  proof
    assume "pe_entrypoint_pid env = 0"
    then show False using assms by (auto simp: evaluate_opa_tcp_def deny_decision_def Let_def)
  qed
  then obtain peer where p: "resolve_tcp_peer_identity (pe_proc env) (pe_entrypoint_pid env) peer_port = Some peer"
    using assms(1) by (auto simp: evaluate_opa_tcp_def Let_def)
  with assms \<open>_ \<noteq> 0\<close> obtain bin pid where q: "peer = Inr (bin, pid)"
    by (cases peer) (auto simp: evaluate_opa_tcp_def deny_decision_def Let_def)
  obtain x cache1 where v: "verify_binary env cache bin = (x, cache1)" by force
  with assms p q \<open>_ \<noteq> 0\<close> obtain sha where x: "x = Inr sha"
    by (cases x) (auto simp: evaluate_opa_tcp_def deny_decision_def Let_def)
  let ?as = "collect_ancestor_binaries (pe_proc env) pid (pe_entrypoint_pid env)"
  obtain y cache2 where w: "verify_ancestors env cache1 ?as = (y, cache2)" by force
  with assms p q v x \<open>_ \<noteq> 0\<close> have y: "y = None"
    by (cases y) (auto simp: evaluate_opa_tcp_def deny_decision_def Let_def)
  show thesis
    using assms p q v x w y \<open>_ \<noteq> 0\<close>
    by (intro that [OF p [unfolded q] v [unfolded x]])
      (auto simp: evaluate_opa_tcp_def deny_decision_def Let_def split: sum.splits)
qed

lemma allow_decision_cached:
  assumes "evaluate_opa_tcp env cache peer_port host port = Some (d, cache')" "cd_action d = Allow m"
    and "cd_binary d = Some bin" "b \<in> set (bin # cd_ancestors d)"
  shows "\<exists>h. cached_hash cache' b = Some h \<and> cached_hash cache b \<in> {None, Some h}"
proof -
  from allow_decision [OF assms(1,2)] obtain pid sha cache1 where
    v: "verify_binary env cache bin = (Inr sha, cache1)" and w: "verify_ancestors env cache1 (cd_ancestors d) = (None, cache')"
    using assms(3) by (metis option.inject)
  have keep: "cached_hash cache b = Some h \<Longrightarrow> cached_hash cache' b = Some h" for h
    using verify_binary_cache(1) [OF v] verify_ancestors_keep [OF w] by blast
  have "\<exists>h. cached_hash cache' b = Some h"
    using assms(4) verify_ancestors_keep [OF w verify_binary_cache(2) [OF v refl]] verify_ancestors_cached [OF w] by auto
  then show ?thesis using keep by (cases "cached_hash cache b") auto
qed

lemma allow_decision_permitted:
  assumes "hm_inv (sp_network_policies p)" "engine_load_proto QUERY_PACKAGE p = Inr (pe_engine env)"
    and "evaluate_opa_tcp env cache peer_port host port = Some (d, cache')" "cd_action d = Allow m"
    and "cd_binary d = Some bin"
  shows "connection_permitted (pe_builtins env) p host port (from_utf8_lossy bin) (map from_utf8_lossy (cd_ancestors d))"
proof -
  from allow_decision [OF assms(3,4)] obtain sha where
    e: "evaluate_network_action (pe_builtins env) (pe_print env) (pe_engine env)
       (decision_input host port bin sha (cd_ancestors d) (cd_cmdline_paths d)) = Inr (Allow m)"
    using assms(5) by (metis option.inject)
  have "\<not> (\<exists>reason. evaluate_network_action (pe_builtins env) (pe_print env) (pe_engine env)
       (decision_input host port bin sha (cd_ancestors d) (cd_cmdline_paths d)) = Inr (Deny reason))" using e by simp
  with network_action_of_policy [OF assms(1,2), of "pe_builtins env"
      "decision_input host port bin sha (cd_ancestors d) (cd_cmdline_paths d)" "pe_print env"]
  show ?thesis by (simp add: decision_input_def split: if_splits)
qed

text \<open>The addresses a destination resolves to.\<close>

lemma resolve_destination_Inr:
  assumes "resolve_destination env d host host_lc port = Inr addrs"
  shows "pe_dns env host port = Inr addrs" "addrs \<noteq> []"
    "a \<in> set addrs \<Longrightarrow> \<not> is_always_blocked_ip (fst a)"
    "decision_allowed_ips env d host_lc port = [] \<Longrightarrow> a \<in> set addrs \<Longrightarrow> \<not> is_internal_ip (fst a)"
    "decision_allowed_ips env d host_lc port \<noteq> [] \<Longrightarrow> a \<in> set addrs \<Longrightarrow>
       \<exists>entry\<in>set (decision_allowed_ips env d host_lc port). \<exists>net. parse_allowed_ip (pe_nets env) entry = Some net
         \<and> nl_contains (pe_nets env) net (fst a)"
proof -
  let ?raw = "decision_allowed_ips env d host_lc port"
  consider (default) "?raw = []" "resolve_and_reject_internal (pe_dns env) host port = Inr addrs"
    | (allow) nets where "?raw \<noteq> []" "map (parse_allowed_ip (pe_nets env)) ?raw = map Some nets"
        "resolve_and_check_allowed_ips (pe_nets env) nets (pe_dns env) host port = Inr addrs"
    using assms by (auto simp: resolve_destination_def Let_def parse_allowed_ips_Inr split: if_splits)
  note cases = this
  show "pe_dns env host port = Inr addrs" "addrs \<noteq> []"
    by (cases rule: cases; simp add: default_guard.resolve_iff allow_guard.resolve_iff)+
  show "a \<in> set addrs \<Longrightarrow> \<not> is_always_blocked_ip (fst a)"
    by (cases rule: cases)
      (auto simp: default_guard.resolve_iff allow_guard.resolve_iff list_all_iff dest: always_blocked_internal)
  show "?raw = [] \<Longrightarrow> a \<in> set addrs \<Longrightarrow> \<not> is_internal_ip (fst a)"
    by (cases rule: cases) (auto simp: default_guard.resolve_iff list_all_iff)
  show "\<exists>entry\<in>set ?raw. \<exists>net. parse_allowed_ip (pe_nets env) entry = Some net \<and> nl_contains (pe_nets env) net (fst a)"
    if raw: "?raw \<noteq> []" and mem: "a \<in> set addrs"
  proof (cases rule: cases)
    case (allow nets)
    then obtain net where "net \<in> set nets" "nl_contains (pe_nets env) net (fst a)"
      using mem by (auto simp: allow_guard.resolve_iff list_all_iff)
    moreover have "Some ` set nets = parse_allowed_ip (pe_nets env) ` set ?raw" using allow(2) by (metis list.set_map)
    ultimately show ?thesis by (metis (no_types, lifting) image_iff)
  qed (use raw in simp)
qed

text \<open>The endpoint configuration the proxy works with is one of the policy's.\<close>

lemma endpoint_config_of_policy:
  assumes "hm_inv (sp_network_policies p)" "engine_load_proto QUERY_PACKAGE p = Inr e"
    and "query_endpoint_config B e ni = Inr (Some val)"
  obtains kr ep where "kr \<in> set (sp_network_policies p)" "ep \<in> set (npr_endpoints (snd kr))"
    "rule_covers B (snd kr) (ni_host ni) (ni_port ni) (from_utf8_lossy (ni_binary_path ni)) (map from_utf8_lossy (ni_ancestors ni))"
    "endpoint_covers B ep (ni_host ni) (ni_port ni)" "val = expand_endpoint (endpoint_to_json ep)"
proof -
  note load = engine_load_proto_Inr [OF assms(2)]
  have "matched_endpoint_config B (eng_data e) (input_json ni) = Some val"
    using assms(3) query_endpoint_config_eq [OF load(1,2)] by simp
  then obtain k pol where m: "(k, pol) \<in> set (rego_policies (eng_data e))" "policy_matches B pol (input_json ni)"
    "val \<in> set (elems_at pol ''endpoints'')" "endpoint_matches_request B val (input_json ni)"
    by (rule matched_endpoint_config_in)
  then obtain kr where kr: "kr \<in> set (sp_network_policies p)" "pol = loaded_rule (snd kr)"
    unfolding load(3) loaded_policies [OF assms(1)] by auto
  with m obtain ep where ep: "ep \<in> set (npr_endpoints (snd kr))" "val = expand_endpoint (endpoint_to_json ep)"
    by (auto simp: loaded_rule_elems)
  show thesis
    using that [OF kr(1) ep(1)] m kr ep
    by (simp add: loaded_policy_matches endpoint_matches_expand endpoint_matches_proto input_json_def)
qed

lemma allowed_ips_of_policy:
  assumes "hm_inv (sp_network_policies p)" "engine_load_proto QUERY_PACKAGE p = Inr (pe_engine env)"
    and "entry \<in> set (decision_allowed_ips env d host port)" "cd_binary d = Some bin"
  shows "\<exists>kr\<in>set (sp_network_policies p). \<exists>ep\<in>set (npr_endpoints (snd kr)).
    rule_covers (pe_builtins env) (snd kr) host port (from_utf8_lossy bin) (map from_utf8_lossy (cd_ancestors d))
    \<and> endpoint_covers (pe_builtins env) ep host port \<and> entry \<in> set (ne_allowed_ips ep)"
proof -
  obtain val where q: "query_endpoint_config (pe_builtins env) (pe_engine env) (query_input d host port) = Inr (Some val)"
    and v: "entry \<in> set (get_str_array val ''allowed_ips'')"
    using assms(3)
    by (cases "query_endpoint_config (pe_builtins env) (pe_engine env) (query_input d host port)")
      (auto simp: decision_allowed_ips_def query_allowed_ips_def split: if_splits option.splits)
  obtain kr ep where m: "kr \<in> set (sp_network_policies p)" "ep \<in> set (npr_endpoints (snd kr))"
    "rule_covers (pe_builtins env) (snd kr) host port (from_utf8_lossy bin) (map from_utf8_lossy (cd_ancestors d))"
    "endpoint_covers (pe_builtins env) ep host port" "val = expand_endpoint (endpoint_to_json ep)"
    using endpoint_config_of_policy [OF assms(1,2) q] assms(4) by (auto simp: query_input_def decision_input_def)
  have "set (get_str_array val ''allowed_ips'') = set (ne_allowed_ips ep)"
    unfolding m(5) get_str_array_def
    by (auto simp: json_get_expand_endpoint endpoint_json_allowed_ips json_str_array_def filter_map_option_set)
  with v m show ?thesis by blast
qed

section \<open>Properties\<close>

text \<open>A connection is allowed only to an identified client with intact binaries that the policy permits. When the
  decision allows, the client's process and executable were found in the process file system, the policy the engine was
  loaded from permits the destination to that executable or one of its ancestors, and the executable and every ancestor
  has a recorded hash, which is the one it had before if it was known before.\<close>

theorem allowed_connection_is_permitted:
  assumes "hm_inv (sp_network_policies p)" "engine_load_proto QUERY_PACKAGE p = Inr (pe_engine env)"
    and "evaluate_opa_tcp env cache peer_port host port = Some (d, cache')" "cd_action d = Allow m"
  shows "\<exists>bin pid. resolve_tcp_peer_identity (pe_proc env) (pe_entrypoint_pid env) peer_port = Some (Inr (bin, pid))
    \<and> cd_binary d = Some bin
    \<and> cd_ancestors d = collect_ancestor_binaries (pe_proc env) pid (pe_entrypoint_pid env)
    \<and> connection_permitted (pe_builtins env) p host port (from_utf8_lossy bin) (map from_utf8_lossy (cd_ancestors d))
    \<and> (\<forall>b\<in>set (bin # cd_ancestors d). \<exists>h. cached_hash cache' b = Some h \<and> cached_hash cache b \<in> {None, Some h})"
proof -
  obtain bin pid where b:
    "resolve_tcp_peer_identity (pe_proc env) (pe_entrypoint_pid env) peer_port = Some (Inr (bin, pid))"
    "cd_binary d = Some bin" "cd_ancestors d = collect_ancestor_binaries (pe_proc env) pid (pe_entrypoint_pid env)"
    using allow_decision [OF assms(3,4)] by metis
  with allow_decision_permitted [OF assms b(2)] allow_decision_cached [OF assms(3,4) b(2)] show ?thesis by blast
qed

text \<open>The client of the sample process tree under the quickstart policy.\<close>

definition sample_env :: "8 word proxy_env" where
  "sample_env =
     \<lparr>pe_builtins = literal_builtins, pe_print = (\<lambda>_. []), pe_engine = quickstart_engine, pe_entrypoint_pid = 7,
      pe_proc = sample_fs, pe_stat = (\<lambda>_. Inr (sample_print 7)), pe_read = (\<lambda>p. Inr p), pe_digest = id,
      pe_dns = public_host, pe_nets = prefix8_lib, pe_denial_tx = True\<rparr>"

definition curl_decision :: "bytes \<Rightarrow> connect_decision" where
  "curl_decision matched_policy =
     \<lparr>cd_action = Allow (Some matched_policy), cd_binary = Some ''/usr/bin/curl'', cd_binary_pid = Some 12,
      cd_ancestors = [''/bin/sh''], cd_cmdline_paths = []\<rparr>"

lemma sample_cmdline: "collect_cmdline_paths sample_fs pid stop exclude = []"
proof -
  have none: "cmdline_absolute_paths sample_fs p = []" for p by (simp add: cmdline_absolute_paths_def sample_fs_def)
  have "cmdline_walk sample_fs stop exclude n p [] = []" for n p
    by (induction n arbitrary: p) (auto simp: none split: option.splits)
  then show ?thesis by (simp add: collect_cmdline_paths_def none)
qed

lemma sample_decision:
  "\<exists>cache m. evaluate_opa_tcp sample_env identity_cache_new 36684 ''api.github.com'' 443 = Some (curl_decision m, cache)"
proof -
  have v: "\<exists>h c'. verify_binary sample_env c path = (Inr h, c')"
    if "map_of (ic_hashes c) path = None" "\<not> ic_poisoned c" for c path
    using that by (simp add: verify_binary_def verify_or_cache_def verify_or_cache_with_hasher_def verify_lookup_def
        verify_commit_def sample_env_def file_sha256_def Let_def)
  obtain h1 c1 where c1: "verify_binary sample_env identity_cache_new ''/usr/bin/curl'' = (Inr h1, c1)"
    using v [of identity_cache_new "''/usr/bin/curl''"] by (auto simp: identity_cache_new_def)
  have "map_of (ic_hashes c1) ''/bin/sh'' = None" "\<not> ic_poisoned c1"
    using c1 by (auto simp: verify_binary_def verify_or_cache_def verify_or_cache_with_hasher_def verify_lookup_def
        verify_commit_def sample_env_def file_sha256_def Let_def identity_cache_new_def hm_insert_def)
  from v [OF this] obtain h2 c2 where c2: "verify_ancestors sample_env c1 [''/bin/sh''] = (None, c2)" by auto
  let ?ni = "decision_input ''api.github.com'' 443 ''/usr/bin/curl'' h1 [''/bin/sh''] []"
  have "connection_permitted literal_builtins quickstart_policy (ni_host ?ni) (ni_port ?ni)
      (from_utf8_lossy (ni_binary_path ?ni)) (map from_utf8_lossy (ni_ancestors ?ni))"
    by (simp add: connection_permitted_def quickstart_spec_simps decision_input_def)
  with network_action_of_policy [OF quickstart_hm_inv quickstart_load, of literal_builtins ?ni "\<lambda>_. []"]
  obtain m where "evaluate_network_action literal_builtins (\<lambda>_. []) quickstart_engine ?ni = Inr (Allow (Some m))" by auto
  then show ?thesis
    using c1 c2 by (simp add: evaluate_opa_tcp_def sample_identity sample_ancestors sample_cmdline sample_env_def curl_decision_def Let_def)
qed

theorem allowed_connection_is_permitted_witness:
  "\<exists>d cache bin. evaluate_opa_tcp sample_env identity_cache_new 36684 ''api.github.com'' 443 = Some (d, cache)
     \<and> cd_binary d = Some bin
     \<and> connection_permitted literal_builtins quickstart_policy ''api.github.com'' 443 (from_utf8_lossy bin)
         (map from_utf8_lossy (cd_ancestors d))"
proof -
  obtain cache m where d: "evaluate_opa_tcp sample_env identity_cache_new 36684 ''api.github.com'' 443
      = Some (curl_decision m, cache)" using sample_decision by blast
  have a: "cd_action (curl_decision m) = Allow (Some m)" by (simp add: curl_decision_def)
  have "engine_load_proto QUERY_PACKAGE quickstart_policy = Inr (pe_engine sample_env)"
    using quickstart_load by (simp add: sample_env_def)
  from allowed_connection_is_permitted [OF quickstart_hm_inv this d a] d show ?thesis by (auto simp: sample_env_def)
qed

end
