(* ===== verification/Proxy_Http.thy ===== *)
theory Proxy_Http
  imports Http_Wire
begin

text \<open>
  The HTTP side of the proxy, \<open>crates/clustershell-sandbox/src/proxy.rs\<close>: the target of a \<open>CONNECT\<close>, the absolute URI
  of a forward request, the rewriting of that request for the upstream server, and the header filters of the inference
  tunnel. All strings are UTF-8 and every slice the code takes is at an ASCII character it has just found.
\<close>

section \<open>Targets\<close>

definition parse_target :: "bytes \<Rightarrow> (report, bytes \<times> nat) result" where
  "parse_target target =
     (case split_once target '':'' of
        None \<Rightarrow> Inl (''CONNECT target missing port: '' @ target)
      | Some (host, port_str) \<Rightarrow>
          (case parse_u16 port_str of
             None \<Rightarrow> Inl (''Invalid port in CONNECT target: '' @ target)
           | Some port \<Rightarrow> Inr (host, port)))"

text \<open>The split of authority and path; in a bracketed authority a slash counts behind the bracket only.\<close>

definition split_authority :: "bytes \<Rightarrow> bytes \<Rightarrow> (report, bytes \<times> bytes) result" where
  "split_authority uri rest =
     (if starts_with rest ''['' then
        (case find_sub '']'' rest of
           None \<Rightarrow> Inl (''Unclosed IPv6 bracket in URI: '' @ uri)
         | Some bracket_end \<Rightarrow>
             (let after_bracket = drop (bracket_end + 1) rest in
              case find_sub ''/'' after_bracket of
                Some slash_pos \<Rightarrow> Inr (take (bracket_end + 1 + slash_pos) rest, drop slash_pos after_bracket)
              | None \<Rightarrow> Inr (rest, ''/'')))
      else case find_sub ''/'' rest of
             Some slash_pos \<Rightarrow> Inr (take slash_pos rest, drop slash_pos rest)
           | None \<Rightarrow> Inr (rest, ''/''))"

definition default_port :: "bytes \<Rightarrow> nat" where
  "default_port scheme = (if scheme = ''https'' then 443 else 80)"

definition authority_host_port :: "bytes \<Rightarrow> bytes \<Rightarrow> bytes \<Rightarrow> (report, bytes \<times> nat) result" where
  "authority_host_port uri scheme authority =
     (if starts_with authority ''['' then
        (case find_sub '']'' authority of
           None \<Rightarrow> Inl (''Unclosed IPv6 bracket: '' @ uri)
         | Some bracket_end \<Rightarrow>
             (let host = take (bracket_end - 1) (drop 1 authority) in
              case strip_prefix (drop (bracket_end + 1) authority) '':'' of
                Some port_str \<Rightarrow>
                  (case parse_u16 port_str of
                     None \<Rightarrow> Inl (''Invalid port in URI: '' @ uri)
                   | Some port \<Rightarrow> Inr (host, port))
              | None \<Rightarrow> Inr (host, default_port scheme)))
      else case rsplit_once authority (CHR '':'') of
             Some (h, p) \<Rightarrow>
               (case parse_u16 p of None \<Rightarrow> Inl (''Invalid port in URI: '' @ uri) | Some port \<Rightarrow> Inr (h, port))
           | None \<Rightarrow> Inr (authority, default_port scheme))"

definition parse_proxy_uri :: "bytes \<Rightarrow> (report, bytes \<times> bytes \<times> nat \<times> bytes) result" where
  "parse_proxy_uri uri =
     (case split_once uri ''://'' of
        None \<Rightarrow> Inl (''Missing scheme in proxy URI: '' @ uri)
      | Some (scheme0, rest) \<Rightarrow>
          (let scheme = to_ascii_lowercase scheme0 in
           result_bind (split_authority uri rest) (\<lambda>(authority, path).
           result_bind (authority_host_port uri scheme authority) (\<lambda>(host, port).
             if host = [] then Inl (''Empty host in URI: '' @ uri)
             else Inr (scheme, host, port, if path = [] then ''/'' else path)))))"

definition normalize_inference_path :: "bytes \<Rightarrow> bytes" where
  "normalize_inference_path path =
     (case find_sub ''://'' path of
        Some scheme_idx \<Rightarrow>
          (let after_scheme = drop (scheme_idx + 3) path in
           case find_sub ''/'' after_scheme of
             Some path_start \<Rightarrow> drop path_start after_scheme
           | None \<Rightarrow> ''/'')
      | None \<Rightarrow> path)"

section \<open>Forward requests\<close>

text \<open>\<open>splitn(3, ' ')\<close> when it yields three parts.\<close>

definition splitn3 :: "bytes \<Rightarrow> (bytes \<times> bytes \<times> bytes) option" where
  "splitn3 line =
     Option.bind (split_once line '' '') (\<lambda>(a, rest).
     map_option (\<lambda>(b, c). (a, b, c)) (split_once rest '' ''))"

definition rewrite_request_line :: "bytes \<Rightarrow> bytes \<Rightarrow> bytes" where
  "rewrite_request_line path first_line =
     (case splitn3 first_line of
        Some (meth, _, version) \<Rightarrow> meth @ '' '' @ path @ '' '' @ version
      | None \<Rightarrow> first_line)"

definition is_proxy_header :: "bytes \<Rightarrow> bool" where
  "is_proxy_header line \<longleftrightarrow>
     (let lower = to_ascii_lowercase line in
      starts_with lower ''proxy-connection:'' \<or> starts_with lower ''proxy-authorization:''
      \<or> starts_with lower ''proxy-authenticate:'')"

definition is_connection_header :: "bytes \<Rightarrow> bool" where
  "is_connection_header line \<longleftrightarrow> starts_with (to_ascii_lowercase line) ''connection:''"

definition is_via_header :: "bytes \<Rightarrow> bool" where
  "is_via_header line \<longleftrightarrow> starts_with (to_ascii_lowercase line) ''via:''"

definition rewrite_line :: "secret_resolver option \<Rightarrow> bytes \<Rightarrow> bytes" where
  "rewrite_line resolver line = (case resolver of Some rs \<Rightarrow> rewrite_header_line rs line | None \<Rightarrow> line)"

text \<open>The loop over the header lines: the lines to send, and whether a \<open>Connection\<close> and a \<open>Via\<close> header were seen.\<close>

fun forward_lines :: "secret_resolver option \<Rightarrow> bytes list \<Rightarrow> bytes list \<times> bool \<times> bool" where
  "forward_lines resolver [] = ([], False, False)"
| "forward_lines resolver (line # lines) =
     (if line = [] then ([], False, False)
      else case forward_lines resolver lines of
             (out, has_connection, has_via) \<Rightarrow>
               (if is_proxy_header line then (out, has_connection, has_via)
                else if is_connection_header line then (''Connection: close'' # out, True, has_via)
                else (rewrite_line resolver line # out, has_connection, is_via_header line \<or> has_via)))"

definition forward_headers :: "secret_resolver option \<Rightarrow> bytes list \<Rightarrow> bytes list" where
  "forward_headers resolver lines =
     (case forward_lines resolver lines of
        (out, has_connection, has_via) \<Rightarrow>
          out @ (if has_connection then [] else [''Connection: close''])
          @ (if has_via then [] else [''Via: 1.1 clustershell-sandbox'']))"

text \<open>\<open>raw\<close> is the filled part of the buffer.\<close>

definition rewrite_forward_request :: "bytes \<Rightarrow> bytes \<Rightarrow> secret_resolver option \<Rightarrow> bytes" where
  "rewrite_forward_request raw path resolver =
     (let header_end = header_end_of raw;
          lines = split_str crlf (from_utf8_lossy (take header_end raw)) in
      rewrite_request_line path (hd lines) @ crlf
      @ concat (map (\<lambda>l. l @ crlf) (forward_headers resolver (tl lines)))
      @ crlf @ drop header_end raw)"

section \<open>Header filters\<close>

definition is_hop_by_hop_header :: "bytes \<Rightarrow> bool" where
  "is_hop_by_hop_header name \<longleftrightarrow>
     name \<in> set [''connection'', ''keep-alive'', ''proxy-authenticate'', ''proxy-authorization'', ''proxy-connection'',
       ''te'', ''trailer'', ''transfer-encoding'', ''upgrade'']"

definition should_strip_request_header :: "bytes \<Rightarrow> bool" where
  "should_strip_request_header name \<longleftrightarrow>
     (let name_lc = to_ascii_lowercase name in
      name_lc \<in> set [''authorization'', ''x-api-key'', ''host'', ''content-length''] \<or> is_hop_by_hop_header name_lc)"

definition should_strip_response_header :: "bytes \<Rightarrow> bool" where
  "should_strip_response_header name \<longleftrightarrow>
     (let name_lc = to_ascii_lowercase name in name_lc = ''content-length'' \<or> is_hop_by_hop_header name_lc)"

definition sanitize_inference_request_headers :: "(bytes \<times> bytes) list \<Rightarrow> (bytes \<times> bytes) list" where
  "sanitize_inference_request_headers headers = filter (\<lambda>h. \<not> should_strip_request_header (fst h)) headers"

definition sanitize_inference_response_headers :: "(bytes \<times> bytes) list \<Rightarrow> (bytes \<times> bytes) list" where
  "sanitize_inference_response_headers headers = filter (\<lambda>h. \<not> should_strip_response_header (fst h)) headers"

definition is_benign_relay_error :: "report \<Rightarrow> bool" where
  "is_benign_relay_error err \<longleftrightarrow>
     (\<exists>pat\<in>set [''close_notify'', ''tls handshake eof'', ''connection reset'', ''broken pipe'', ''unexpected eof''].
        contains_sub (to_ascii_lowercase err) pat)"

section \<open>Facts\<close>

lemma parse_u16_show: "port < 2 ^ 16 \<Longrightarrow> parse_u16 (show_nat port) = Some port"
  unfolding parse_u16_def show_nat_def by (rule from_str_radix_show) auto

lemma show_nat_bytes: "c \<in> set (show_nat n) \<Longrightarrow> byte c \<in> {48..57} \<union> {97..122}"
  unfolding show_nat_def by (rule show_radix_bytes [of 10 c n]) simp_all

lemma show_nat_no_sep: "CHR '':'' \<notin> set (show_nat n)" "CHR ''/'' \<notin> set (show_nat n)"
  using show_nat_bytes [of "CHR '':''" n] show_nat_bytes [of "CHR ''/''" n] by auto

lemma find_sub_after:
  assumes "c \<notin> set a"
  shows "find_sub (c # p) (a @ c # p @ s) = Some (length a)"
proof (rule find_sub_at)
  show "starts_with (drop (length a) (a @ c # p @ s)) (c # p)" by (simp add: starts_with_def)
  fix j assume "j < length a"
  then have "drop j (a @ c # p @ s) = a ! j # drop (Suc j) a @ c # p @ s" "a ! j \<noteq> c"
    using assms by (simp_all add: Cons_nth_drop_Suc flip: append_Cons) (metis nth_mem)
  then show "\<not> starts_with (drop j (a @ c # p @ s)) (c # p)" by (simp add: starts_with_def)
qed simp

lemma rsplit_once_append:
  assumes "c \<notin> set b"
  shows "rsplit_once (a @ c # b) c = Some (a, b)"
proof -
  have "find_sub [c] (rev b @ c # rev a) = Some (length b)"
    using find_sub_char_append [of c "rev b" "rev a"] assms by simp
  then show ?thesis by (simp add: rsplit_once_def)
qed

lemma split_scheme: "CHR '':'' \<notin> set scheme \<Longrightarrow> split_once (scheme @ ''://'' @ rest) ''://'' = Some (scheme, rest)"
  using find_sub_after [of "CHR '':''" scheme "''//''" rest] by (simp add: split_once_def)

lemma ascii_lower_colon: "ascii_lower_char c = CHR '':'' \<longleftrightarrow> c = CHR '':''"
proof -
  have "char_of (byte c + 32) \<noteq> CHR '':''" if "65 \<le> byte c" "byte c \<le> 90"
  proof
    assume "char_of (byte c + 32) = CHR '':''"
    then have "byte (char_of (byte c + 32)) = byte (CHR '':'')" by simp
    then show False using that by simp
  qed
  moreover have "byte (CHR '':'') = 58" by simp
  ultimately show ?thesis by (auto simp: ascii_lower_char_def)
qed

text \<open>A header line has the name before its first colon, and rewriting its value keeps the name.\<close>

lemma header_named:
  assumes "CHR '':'' \<notin> set name" "CHR '':'' \<notin> set p"
  shows "starts_with (to_ascii_lowercase (name @ CHR '':'' # v)) (p @ '':'') \<longleftrightarrow> to_ascii_lowercase name = p"
proof -
  let ?c = "CHR '':''" and ?n = "to_ascii_lowercase name"
  have n: "?c \<notin> set ?n" using assms(1) by (auto simp: to_ascii_lowercase_def image_iff) (metis ascii_lower_colon)
  have l: "to_ascii_lowercase (name @ ?c # v) = ?n @ ?c # to_ascii_lowercase v"
    using ascii_lower_colon [of ?c] by (simp add: to_ascii_lowercase_def)
  have "?n = p" if "?n @ ?c # to_ascii_lowercase v = p @ ?c # t" for t
  proof -
    have "takeWhile (\<lambda>x. x \<noteq> ?c) (?n @ ?c # to_ascii_lowercase v) = ?n"
      "takeWhile (\<lambda>x. x \<noteq> ?c) (p @ ?c # t) = p"
      using n assms(2) by (subst takeWhile_append2; auto)+
    then show ?thesis using that by simp
  qed
  then show ?thesis unfolding l by (auto simp: starts_with_split)
qed

lemma rewrite_line_named:
  assumes "CHR '':'' \<notin> set p"
  shows "starts_with (to_ascii_lowercase (rewrite_line resolver line)) (p @ '':'')
    \<longleftrightarrow> starts_with (to_ascii_lowercase line) (p @ '':'')"
proof (cases "rewrite_line resolver line = line")
  case False
  then obtain name w v where s: "split_once line '':'' = Some (name, w)"
    and r: "rewrite_line resolver line = name @ '': '' @ v"
    by (auto simp: rewrite_line_def rewrite_header_line_def split: option.splits)
  have "CHR '':'' \<notin> set name"
    using s find_sub_char_Some [of "CHR '':''" line] by (auto simp: split_once_def split: option.splits)
  with header_named [OF this assms] split_once_Some [OF s] r show ?thesis by simp
qed simp

lemma rewrite_line_kinds:
  "is_proxy_header (rewrite_line resolver line) = is_proxy_header line"
  "is_connection_header (rewrite_line resolver line) = is_connection_header line"
  "is_via_header (rewrite_line resolver line) = is_via_header line"
  using rewrite_line_named [of "''proxy-connection''" resolver line] rewrite_line_named [of "''proxy-authorization''" resolver line]
    rewrite_line_named [of "''proxy-authenticate''" resolver line] rewrite_line_named [of "''connection''" resolver line]
    rewrite_line_named [of "''via''" resolver line]
  by (simp_all add: is_proxy_header_def is_connection_header_def is_via_header_def Let_def)

lemma fixed_headers:
  "\<not> is_proxy_header ''Connection: close''" "is_connection_header ''Connection: close''"
  "\<not> is_proxy_header ''Via: 1.1 clustershell-sandbox''" "\<not> is_connection_header ''Via: 1.1 clustershell-sandbox''"
  "is_via_header ''Via: 1.1 clustershell-sandbox''"
  by code_simp+

lemma forward_lines_spec:
  assumes "forward_lines resolver lines = (out, hc, hv)"
  shows "(\<forall>l\<in>set out. \<not> is_proxy_header l \<and> (is_connection_header l \<longrightarrow> l = ''Connection: close''))
    \<and> (hc \<longrightarrow> ''Connection: close'' \<in> set out) \<and> (hv \<longrightarrow> (\<exists>l\<in>set out. is_via_header l))
    \<and> (\<forall>l\<in>set (takeWhile (\<lambda>l. l \<noteq> []) lines). \<not> is_proxy_header l \<and> \<not> is_connection_header l
         \<longrightarrow> rewrite_line resolver l \<in> set out)"
  using assms
proof (induction resolver lines arbitrary: out hc hv rule: forward_lines.induct)
  case (2 resolver line lines)
  obtain out' hc' hv' where r: "forward_lines resolver lines = (out', hc', hv')" by (metis prod_cases3)
  show ?case
  proof (cases "line = []")
    case False
    note ih = "2.IH" [OF False r]
    consider "is_proxy_header line" "(out, hc, hv) = (out', hc', hv')"
      | "\<not> is_proxy_header line" "is_connection_header line" "(out, hc, hv) = (''Connection: close'' # out', True, hv')"
      | "\<not> is_proxy_header line" "\<not> is_connection_header line"
        "(out, hc, hv) = (rewrite_line resolver line # out', hc', is_via_header line \<or> hv')"
      using "2.prems" r False by (auto split: if_splits)
    then show ?thesis using ih False
      by cases (auto simp: rewrite_line_kinds fixed_headers)
  qed (use "2.prems" in simp)
qed simp

section \<open>Properties\<close>

lemma parse_proxy_uri_forms:
  assumes "CHR '':'' \<notin> set scheme" "port < 2 ^ 16" "starts_with path ''/''"
    and "host \<noteq> []" "CHR '':'' \<notin> set host" "CHR ''/'' \<notin> set host" "CHR ''['' \<notin> set host"
    and "ipv6 \<noteq> []" "CHR '']'' \<notin> set ipv6"
  shows "parse_proxy_uri (scheme @ ''://'' @ host @ '':'' @ show_nat port @ path) =
      Inr (to_ascii_lowercase scheme, host, port, path)
    \<and> parse_proxy_uri (scheme @ ''://'' @ host @ path) =
      Inr (to_ascii_lowercase scheme, host, default_port (to_ascii_lowercase scheme), path)
    \<and> parse_proxy_uri (scheme @ ''://['' @ ipv6 @ '']:'' @ show_nat port @ path) =
      Inr (to_ascii_lowercase scheme, ipv6, port, path)"
proof -
  obtain q where q: "path = CHR ''/'' # q" using assms(3) by (auto simp: starts_with_split)
  obtain h hs where h: "host = h # hs" "h \<noteq> CHR ''[''" using assms(4,7) by (cases host) auto
  have nb: "\<not> starts_with (host @ t) ''[''" for t using h by (simp add: starts_with_def)
  have "find_sub ''/'' ((host @ '':'' @ show_nat port) @ CHR ''/'' # q) = Some (length (host @ '':'' @ show_nat port))"
    "find_sub ''/'' (host @ CHR ''/'' # q) = Some (length host)"
    by (rule find_sub_char_append; use assms(6) show_nat_no_sep in auto)+
  then have a: "split_authority u (host @ '':'' @ show_nat port @ path) = Inr (host @ '':'' @ show_nat port, path)"
    "split_authority u (host @ path) = Inr (host, path)" for u
    using nb q by (simp_all add: split_authority_def)
  have b: "authority_host_port u sc (host @ '':'' @ show_nat port) = Inr (host, port)" for u sc
    using nb rsplit_once_append [OF show_nat_no_sep(1), of host port] parse_u16_show [OF assms(2)]
    by (simp add: authority_host_port_def)
  have "rsplit_once host (CHR '':'') = None"
    using assms(5) find_sub_single [of "CHR '':''" "rev host"] by (simp add: rsplit_once_def)
  then have c: "authority_host_port u sc host = Inr (host, default_port sc)" for u sc
    using nb [of "[]"] by (simp add: authority_host_port_def)
  have d: "find_sub '']'' (CHR ''['' # ipv6 @ CHR '']'' # t) = Some (Suc (length ipv6))" for t
    using find_sub_char_append [of "CHR '']''" "CHR ''['' # ipv6" t] assms(9) by simp
  have "find_sub ''/'' (('':'' @ show_nat port) @ CHR ''/'' # q) = Some (length ('':'' @ show_nat port))"
    by (rule find_sub_char_append) (use show_nat_no_sep in auto)
  then have e: "split_authority u (CHR ''['' # ipv6 @ '']:'' @ show_nat port @ path) =
      Inr (CHR ''['' # ipv6 @ '']:'' @ show_nat port, path)" for u
    using d q by (simp add: split_authority_def starts_with_def)
  have g: "authority_host_port u sc (CHR ''['' # ipv6 @ '']:'' @ show_nat port) = Inr (ipv6, port)" for u sc
    using d parse_u16_show [OF assms(2)] by (simp add: authority_host_port_def starts_with_def strip_prefix_def)
  show ?thesis
    using split_scheme [OF assms(1)] a b c e g assms(4,8) q
    by (simp add: parse_proxy_uri_def Let_def)
qed

text \<open>An absolute URI is taken apart into what it was put together from: the scheme in lower case, the host without
  brackets, the port and the path with its query. Without a port it is the default port of the scheme.\<close>

theorem proxy_uri_roundtrip:
  assumes "CHR '':'' \<notin> set scheme" "port < 2 ^ 16" "starts_with path ''/''"
    and "host \<noteq> []" "CHR '':'' \<notin> set host" "CHR ''/'' \<notin> set host" "CHR ''['' \<notin> set host"
    and "ipv6 \<noteq> []" "CHR '']'' \<notin> set ipv6"
  shows "parse_proxy_uri (scheme @ ''://'' @ host @ '':'' @ show_nat port @ path) =
      Inr (to_ascii_lowercase scheme, host, port, path)
    \<and> parse_proxy_uri (scheme @ ''://'' @ host @ path) =
      Inr (to_ascii_lowercase scheme, host, default_port (to_ascii_lowercase scheme), path)
    \<and> parse_proxy_uri (scheme @ ''://['' @ ipv6 @ '']:'' @ show_nat port @ path) =
      Inr (to_ascii_lowercase scheme, ipv6, port, path)"
  using parse_proxy_uri_forms [OF assms] .

theorem proxy_uri_roundtrip_witness:
  "parse_proxy_uri (''HTTP'' @ ''://'' @ ''10.86.8.223'' @ '':'' @ show_nat 8000 @ ''/screenshot/?q=1'') =
     Inr (''http'', ''10.86.8.223'', 8000, ''/screenshot/?q=1'')"
proof -
  have "to_ascii_lowercase ''HTTP'' = ''http''" by code_simp
  then show ?thesis
    using proxy_uri_roundtrip [of "''HTTP''" 8000 "''/screenshot/?q=1''" "''10.86.8.223''" "''::1''"]
    by (simp add: starts_with_def)
qed

text \<open>A forward request reaches the server in origin form with the proxy's headers settled: no \<open>Proxy-\<close> header the
  client set is left, every \<open>Connection\<close> header says \<open>close\<close> and there is one, there is a \<open>Via\<close> header, every other
  header of the client is kept with its credentials in place, and the bytes behind the blank line are unchanged.\<close>

theorem forward_request_rewritten:
  "\<exists>out. rewrite_forward_request raw path resolver =
       rewrite_request_line path (hd (split_str crlf (from_utf8_lossy (take (header_end_of raw) raw)))) @ crlf
       @ concat (map (\<lambda>l. l @ crlf) out) @ crlf @ drop (header_end_of raw) raw
     \<and> (\<forall>l\<in>set out. \<not> is_proxy_header l \<and> (is_connection_header l \<longrightarrow> l = ''Connection: close''))
     \<and> ''Connection: close'' \<in> set out \<and> (\<exists>l\<in>set out. is_via_header l)
     \<and> (\<forall>l\<in>set (takeWhile (\<lambda>l. l \<noteq> []) (tl (split_str crlf (from_utf8_lossy (take (header_end_of raw) raw))))).
          \<not> is_proxy_header l \<and> \<not> is_connection_header l \<longrightarrow> rewrite_line resolver l \<in> set out)"
proof -
  let ?lines = "tl (split_str crlf (from_utf8_lossy (take (header_end_of raw) raw)))"
  obtain out hc hv where f: "forward_lines resolver ?lines = (out, hc, hv)" by (metis prod_cases3)
  show ?thesis
    using forward_lines_spec [OF f] fixed_headers f
    by (intro exI [of _ "forward_headers resolver ?lines"])
      (auto simp: rewrite_forward_request_def Let_def forward_headers_def)
qed

text \<open>A \<open>CONNECT\<close> target is split at its first colon, so a bracketed address literal with a colon in it is refused.\<close>

theorem forward_request_rewritten_witness:
  "\<exists>out. rewrite_forward_request (''GET http://h/ HTTP/1.1'' @ crlf @ ''Proxy-Connection: keep-alive'' @ crlf2) ''/'' None =
       ''GET / HTTP/1.1'' @ crlf @ concat (map (\<lambda>l. l @ crlf) out) @ crlf
     \<and> ''Proxy-Connection: keep-alive'' \<notin> set out \<and> ''Connection: close'' \<in> set out"
proof -
  let ?raw = "''GET http://h/ HTTP/1.1'' @ crlf @ ''Proxy-Connection: keep-alive'' @ crlf2"
  have r: "rewrite_request_line ''/'' (hd (split_str crlf (from_utf8_lossy (take (header_end_of ?raw) ?raw)))) = ''GET / HTTP/1.1''"
    "drop (header_end_of ?raw) ?raw = []" "is_proxy_header ''Proxy-Connection: keep-alive''"
    by code_simp+
  from forward_request_rewritten [of ?raw "''/''" None] show ?thesis unfolding r using r(3) by auto
qed

lemma parse_target_host_port: "CHR '':'' \<notin> set host \<Longrightarrow> port < 2 ^ 16 \<Longrightarrow> parse_target (host @ '':'' @ show_nat port) = Inr (host, port)"
  using split_once_char_append [of "CHR '':''" host "show_nat port"] parse_u16_show by (simp add: parse_target_def)

lemma parse_target_ipv6_refused: "\<exists>e. parse_target ''[::1]:443'' = Inl e"
proof -
  have "split_once ''[::1]:443'' '':'' = Some (''['', '':1]:443'')" by code_simp
  moreover have "parse_u16 '':1]:443'' = None"
    by (simp add: parse_u16_def from_str_radix_def starts_with_def digit_value_def is_ascii_digit_def)
  ultimately show ?thesis by (simp add: parse_target_def)
qed

end
