(* ===== verification/Inference_Tunnel.thy ===== *)
theory Inference_Tunnel
  imports L7_Relay Inference Router Proxy_Http
begin

text \<open>
  The intercepted \<open>inference.local\<close> tunnel, \<open>crates/clustershell-sandbox/src/proxy.rs\<close>: requests are parsed from a
  growing buffer, recognised inference calls go to the router with the client's credentials stripped, and everything
  else is denied. The connection is the plain text inside the terminated TLS session.
\<close>

section \<open>Routing one request\<close>

record inference_context =
  ix_patterns :: "inference_api_pattern list"
  ix_client :: http_client
  ix_routes :: "resolved_route list"
  ix_system_routes :: "resolved_route list"

datatype inference_outcome = Routed | Denied bytes

definition MAX_INFERENCE_BUF :: nat where
  "MAX_INFERENCE_BUF = 10 * 1024 * 1024"

definition INITIAL_INFERENCE_BUF :: nat where
  "INITIAL_INFERENCE_BUF = 65536"

definition write_all :: "bytes \<Rightarrow> conn \<Rightarrow> (report, unit) result \<times> conn" where
  "write_all data c = write_flush () [data] c"

fun write_each :: "bytes list \<Rightarrow> conn \<Rightarrow> (report, unit) result \<times> conn" where
  "write_each [] c = (Inr (), c)"
| "write_each (d # ds) c = (case write_all d c of (Inl e, c') \<Rightarrow> (Inl e, c') | (Inr _, c') \<Rightarrow> write_each ds c')"

fun router_error_to_http :: "router_error \<Rightarrow> nat \<times> bytes" where
  "router_error_to_http (RouteNotFound hint) = (400, ''no route configured for route '' @ [CHR 0x27] @ hint @ [CHR 0x27])"
| "router_error_to_http (NoCompatibleRoute protocol) =
     (400, ''no compatible route for source protocol '' @ [CHR 0x27] @ protocol @ [CHR 0x27])"
| "router_error_to_http (Unauthorized msg) = (401, msg)"
| "router_error_to_http (UpstreamUnavailable msg) = (503, msg)"
| "router_error_to_http (UpstreamProtocol msg) = (502, msg)"
| "router_error_to_http (Internal msg) = (502, msg)"

text \<open>A JSON response as the proxy formats it; \<open>js\<close> is the printer of \<open>serde_json\<close>.\<close>

definition json_response :: "(json \<Rightarrow> bytes) \<Rightarrow> nat \<Rightarrow> json \<Rightarrow> bytes" where
  "json_response js status body =
     format_http_response status [(''content-type'', ''application/json'')] (js body)"

text \<open>What is written for a request, one \<open>write_all\<close> after the other, and whether it counts as routed.\<close>

definition inference_reply ::
  "(json \<Rightarrow> bytes) \<Rightarrow> inference_context \<Rightarrow> parsed_http_request \<Rightarrow> bytes list \<times> bool" where
  "inference_reply js ctx request =
     (let normalized_path = normalize_inference_path (ph_path request) in
      case detect_inference_pattern (ph_method request) normalized_path (ix_patterns ctx) of
        Some pattern \<Rightarrow>
          (let filtered_headers = sanitize_inference_request_headers (ph_headers request) in
           if ix_routes ctx = [] then
             ([json_response js 503 (json_object
                 [(''error'', JStr ''cluster inference is not configured''),
                  (''hint'', JStr ''run: clustershell cluster inference set --help'')])], True)
           else case proxy_with_candidates_streaming (ix_client ctx) (ip_protocol pattern) (ph_method request)
                       normalized_path filtered_headers (ph_body request) (ix_routes ctx) of
                  Inr resp \<Rightarrow>
                    (format_http_response_header (sr_status resp) (sanitize_inference_response_headers (sr_headers resp))
                       # map format_chunk (sr_chunks resp) @ [format_chunk_terminator], True)
                | Inl e \<Rightarrow>
                    (case router_error_to_http e of
                       (status, msg) \<Rightarrow> ([json_response js status (json_object [(''error'', JStr msg)])], True)))
      | None \<Rightarrow>
          ([json_response js 403 (json_object [(''error'', JStr ''connection not allowed by policy'')])], False))"

definition route_inference_request ::
  "(json \<Rightarrow> bytes) \<Rightarrow> inference_context \<Rightarrow> parsed_http_request \<Rightarrow> conn \<Rightarrow> (report, bool) result \<times> conn" where
  "route_inference_request js ctx request c =
     (case inference_reply js ctx request of
        (parts, routed) \<Rightarrow>
          (case write_each parts c of (Inl e, c') \<Rightarrow> (Inl e, c') | (Inr _, c') \<Rightarrow> (Inr routed, c')))"

section \<open>The tunnel\<close>

lemma write_all_in: "write_all d c = (r, c') \<Longrightarrow> cn_in c' = cn_in c"
  unfolding write_all_def by (rule write_flush_in)

lemma write_each_in: "write_each ds c = (r, c') \<Longrightarrow> cn_in c' = cn_in c"
proof (induction ds arbitrary: c)
  case (Cons d ds)
  obtain x c1 where w: "write_all d c = (x, c1)" by force
  with Cons.prems Cons.IH [of c1] write_all_in [OF w] show ?case by (auto split: sum.splits)
qed simp

lemma route_request_in: "route_inference_request js ctx request c = (r, c') \<Longrightarrow> cn_in c' = cn_in c"
  by (auto simp: route_inference_request_def split: prod.splits sum.splits dest: write_each_in)

text \<open>The read loop: \<open>cap\<close> is the size of the buffer and \<open>buf\<close> its filled part. A panic of the parser ends the task.\<close>

function intercept_loop ::
  "(json \<Rightarrow> bytes) \<Rightarrow> inference_context \<Rightarrow> nat \<Rightarrow> bytes \<Rightarrow> bool \<Rightarrow> conn
     \<Rightarrow> (report, inference_outcome) result outcome \<times> conn" where
  "intercept_loop js ctx cap buf routed_any c =
     (case conn_read (cap - length buf) c of
        (Inl e, c1) \<Rightarrow>
          (Returned (Inr (if routed_any then Routed else Denied (''I/O error: '' @ ie_msg e))), c1)
      | (Inr bs, c1) \<Rightarrow>
          (if bs = [] then (Returned (Inr (if routed_any then Routed else Denied ''client closed connection'')), c1)
           else
             let buf1 = buf @ bs in
             case try_parse_http_request buf1 of
               Panicked \<Rightarrow> (Panicked, c1)
             | Returned (Complete request consumed) \<Rightarrow>
                 (case route_inference_request js ctx request c1 of
                    (Inl e, c2) \<Rightarrow> (Returned (Inl e), c2)
                  | (Inr was_routed, c2) \<Rightarrow>
                      (if \<not> was_routed \<and> \<not> routed_any then
                         (Returned (Inr (Denied ''connection not allowed by policy'')), c2)
                       else intercept_loop js ctx cap (drop consumed buf1) (was_routed \<or> routed_any) c2))
             | Returned Incomplete \<Rightarrow>
                 (if length buf1 = cap then
                    (if cap \<ge> MAX_INFERENCE_BUF then
                       (case write_all (format_http_response 413 [] ''Payload Too Large'') c1 of
                          (Inl e, c2) \<Rightarrow> (Returned (Inl e), c2)
                        | (Inr _, c2) \<Rightarrow>
                            (Returned (Inr (if routed_any then Routed else Denied ''payload too large'')), c2))
                     else intercept_loop js ctx (min (cap * 2) MAX_INFERENCE_BUF) buf1 routed_any c1)
                  else intercept_loop js ctx cap buf1 routed_any c1)))"
  by pat_completeness auto

lemma conn_read_shrinks: "(Inr bs, c1) = conn_read k c \<Longrightarrow> bs \<noteq> [] \<Longrightarrow> length (cn_in c1) < length (cn_in c)"
  using conn_read_Inr(1) [of k c bs c1] by fastforce

lemma intercept_shrinks:
  "(Inr bs, c1) = conn_read k c \<Longrightarrow> bs \<noteq> [] \<Longrightarrow> (x, c2) = route_inference_request js ctx request c1 \<Longrightarrow>
   length (cn_in c2) < length (cn_in c)"
  using conn_read_shrinks route_request_in [OF sym] by metis

termination intercept_loop
  by (relation "measure (\<lambda>(js, ctx, cap, buf, routed_any, c). length (cn_in c))")
    (auto intro: conn_read_shrinks intercept_shrinks)

declare intercept_loop.simps [simp del]

record tls_state =
  tl_accept :: "bytes \<Rightarrow> conn \<Rightarrow> (report, conn) result"
  tl_connect :: "bytes \<Rightarrow> conn \<Rightarrow> (report, conn) result"

definition handle_inference_interception ::
  "(json \<Rightarrow> bytes) \<Rightarrow> tls_state option \<Rightarrow> inference_context option \<Rightarrow> bytes \<Rightarrow> conn
     \<Rightarrow> (report, inference_outcome) result outcome \<times> conn" where
  "handle_inference_interception js tls_state inference_ctx host client =
     (case inference_ctx of
        None \<Rightarrow> (Returned (Inr (Denied ''cluster inference context not configured'')), client)
      | Some ctx \<Rightarrow>
          (case tls_state of
             None \<Rightarrow> (Returned (Inr (Denied ''missing TLS state'')), client)
           | Some tls \<Rightarrow>
               (case tl_accept tls host client of
                  Inl e \<Rightarrow> (Returned (Inr (Denied (''TLS handshake failed: '' @ e))), client)
                | Inr tls_client \<Rightarrow> intercept_loop js ctx INITIAL_INFERENCE_BUF [] False tls_client)))"

section \<open>Facts\<close>

lemma write_all_writable:
  "writable c \<Longrightarrow> \<exists>c'. write_all d c = (Inr (), c') \<and> writable c' \<and> cn_out c' = cn_out c @ d
     \<and> cn_in c' = cn_in c \<and> cn_end c' = cn_end c"
  by (cases "cn_writes c")
    (auto simp: write_all_def write_flush_def conn_write_writable flush_then_def conn_flush_def writable_def
      split: list.splits)

lemma write_each_writable:
  "writable c \<Longrightarrow> \<exists>c'. write_each ds c = (Inr (), c') \<and> writable c' \<and> cn_out c' = cn_out c @ concat ds
     \<and> cn_in c' = cn_in c \<and> cn_end c' = cn_end c"
proof (induction ds arbitrary: c)
  case (Cons d ds)
  from write_all_writable [OF Cons.prems] obtain c1 where c1: "write_all d c = (Inr (), c1)" "writable c1"
    "cn_out c1 = cn_out c @ d" "cn_in c1 = cn_in c" "cn_end c1 = cn_end c" by blast
  from Cons.IH [OF c1(2)] c1 show ?case by auto
qed simp

lemma conn_read_all:
  assumes "cn_cuts c = []" "length (cn_in c) \<le> k" "cn_in c \<noteq> []"
  shows "conn_read k c = (Inr (cn_in c), c\<lparr>cn_in := []\<rparr>)"
proof -
  have "0 < k" using assms(2,3) by (cases "cn_in c") auto
  then show ?thesis using assms by (cases c) (simp add: conn_read_def read_size_def)
qed

lemma conn_read_eof: "cn_in c = [] \<Longrightarrow> cn_end c = Eof \<Longrightarrow> conn_read k c = (Inr [], c)"
  by (simp add: conn_read_def)

section \<open>Properties\<close>

text \<open>Nothing of the caller's credentials reaches the router: two requests that differ only in headers the filter
  strips, \<open>Authorization\<close>, \<open>X-API-Key\<close>, \<open>Host\<close>, \<open>Content-Length\<close> and the hop-by-hop headers in any case, get the same
  answer from the same backend call, for every backend.\<close>

theorem caller_credentials_not_routed:
  assumes "filter (\<lambda>h. \<not> should_strip_request_header (fst h)) hs = filter (\<lambda>h. \<not> should_strip_request_header (fst h)) hs'"
  shows "route_inference_request js ctx (request\<lparr>ph_headers := hs\<rparr>) c =
    route_inference_request js ctx (request\<lparr>ph_headers := hs'\<rparr>) c"
proof -
  have "inference_reply js ctx (request\<lparr>ph_headers := hs\<rparr>) = inference_reply js ctx (request\<lparr>ph_headers := hs'\<rparr>)"
    using assms
    by (cases "detect_inference_pattern (ph_method request) (normalize_inference_path (ph_path request)) (ix_patterns ctx)";
        cases "ix_routes ctx = []")
      (simp_all add: inference_reply_def sanitize_inference_request_headers_def)
  then show ?thesis by (simp add: route_inference_request_def)
qed

theorem caller_credentials_not_routed_witness:
  "\<forall>js ctx request c.
   route_inference_request js ctx (request\<lparr>ph_headers := [(''AUTHORIZATION'', ''Bearer stolen''), (''Accept'', ''*/*'')]\<rparr>) c =
   route_inference_request js ctx (request\<lparr>ph_headers := [(''Accept'', ''*/*'')]\<rparr>) c"
proof -
  have "should_strip_request_header ''AUTHORIZATION''" by code_simp
  then show ?thesis by (intro allI caller_credentials_not_routed) simp
qed

text \<open>One read, one request. When a client sends its bytes in one piece and closes, the first request in them is
  answered in full and the tunnel ends; whatever follows that request in the same piece, a second request included, is
  dropped without an answer, because the loop reads before it parses what it already holds.\<close>

theorem tunnel_answers_first_request_only:
  assumes "cn_cuts c = []" "cn_end c = Eof" "length (cn_in c) \<le> INITIAL_INFERENCE_BUF" "cn_in c \<noteq> []" "writable c"
    and "try_parse_http_request (cn_in c) = Returned (Complete request consumed)"
    and "inference_reply js ctx request = (parts, routed)"
  shows "\<exists>c'. intercept_loop js ctx INITIAL_INFERENCE_BUF [] False c =
       (Returned (Inr (if routed then Routed else Denied ''connection not allowed by policy'')), c')
     \<and> cn_out c' = cn_out c @ concat parts"
proof -
  let ?c1 = "c\<lparr>cn_in := []\<rparr>"
  have r: "conn_read (INITIAL_INFERENCE_BUF - length []) c = (Inr (cn_in c), ?c1)"
    using conn_read_all [OF assms(1), of INITIAL_INFERENCE_BUF] assms(3,4) by simp
  have "writable ?c1" using assms(5) by (simp add: writable_def)
  from write_each_writable [OF this, of parts] obtain c2 where c2: "write_each parts ?c1 = (Inr (), c2)"
    "cn_out c2 = cn_out c @ concat parts" "cn_in c2 = []" "cn_end c2 = Eof" using assms(2) by auto
  have q: "route_inference_request js ctx request ?c1 = (Inr routed, c2)"
    using c2(1) assms(7) by (simp add: route_inference_request_def)
  have "intercept_loop js ctx INITIAL_INFERENCE_BUF buf True c2 = (Returned (Inr Routed), c2)" for buf
    using conn_read_eof [OF c2(3,4)] by (simp add: intercept_loop.simps [of js ctx INITIAL_INFERENCE_BUF])
  then have "intercept_loop js ctx INITIAL_INFERENCE_BUF [] False c =
      (Returned (Inr (if routed then Routed else Denied ''connection not allowed by policy'')), c2)"
    unfolding intercept_loop.simps [of js ctx INITIAL_INFERENCE_BUF "[]" False c] r
    using assms(4,6) q by (simp add: Let_def)
  with c2(2) show ?thesis by blast
qed

definition idle_context :: inference_context where
  "idle_context =
     \<lparr>ix_patterns = default_patterns,
      ix_client = \<lparr>hc_send = (\<lambda>_. Inl SendTimeout), hc_valid_method = (\<lambda>_. True), hc_decode = (\<lambda>_. None), hc_encode = (\<lambda>_. [])\<rparr>,
      ix_routes = [], ix_system_routes = []\<rparr>"

text \<open>Two pipelined requests for the model list: one answer.\<close>

theorem tunnel_answers_first_request_only_witness:
  "\<exists>c' reply. intercept_loop (\<lambda>_. ''{}'') idle_context INITIAL_INFERENCE_BUF [] False
       (fresh_conn (''GET /v1/models HTTP/1.1'' @ crlf2 @ ''GET /v1/models HTTP/1.1'' @ crlf2) []) =
       (Returned (Inr Routed), c')
     \<and> cn_out c' = json_response (\<lambda>_. ''{}'') 503 reply"
proof -
  let ?r = "''GET /v1/models HTTP/1.1'' @ crlf2" and ?js = "\<lambda>_ :: json. ''{}''"
  let ?c = "fresh_conn (?r @ ?r) []"
  have f: "find_sub crlf2 (?r @ ?r) = Some 23" "from_utf8 (take 23 (?r @ ?r)) = Some ''GET /v1/models HTTP/1.1''"
    "split_str crlf ''GET /v1/models HTTP/1.1'' = [''GET /v1/models HTTP/1.1'']"
    "split_whitespace ''GET /v1/models HTTP/1.1'' = [''GET'', ''/v1/models'', ''HTTP/1.1'']" by code_simp+
  obtain req where p: "try_parse_http_request (?r @ ?r) = Returned (Complete req 27)"
    and req: "ph_method req = ''GET''" "ph_path req = ''/v1/models''"
    unfolding try_parse_http_request_def f option.case Let_def list.sel list.case by simp
  have "normalize_inference_path ''/v1/models'' = ''/v1/models''"
    "detect_inference_pattern ''GET'' ''/v1/models'' default_patterns \<noteq> None" by code_simp+
  then obtain reply where i: "inference_reply ?js idle_context req = ([json_response ?js 503 reply], True)"
    using req by (auto simp: inference_reply_def idle_context_def)
  have "cn_cuts ?c = []" "cn_end ?c = Eof" "length (cn_in ?c) \<le> INITIAL_INFERENCE_BUF" "cn_in ?c \<noteq> []" "writable ?c"
    by (simp_all add: fresh_conn_def INITIAL_INFERENCE_BUF_def writable_def)
  moreover have "try_parse_http_request (cn_in ?c) = Returned (Complete req 27)" using p by (simp add: fresh_conn_def)
  ultimately show ?thesis
    using tunnel_answers_first_request_only [of ?c req 27 ?js idle_context "[json_response ?js 503 reply]" True] i
    by (auto simp: fresh_conn_def)
qed

end
