(* ===== verification/Proxy.thy ===== *)
theory Proxy
  imports Proxy_Policy Inference_Tunnel
begin

text \<open>
  The handlers of the proxy, \<open>crates/clustershell-sandbox/src/proxy.rs\<close>: \<open>handle_tcp_connection\<close> for \<open>CONNECT\<close> tunnels
  and \<open>handle_forward_proxy\<close> for absolute-form requests. A run is everything a handler does to the outside: the bytes
  written to the client, the addresses it connects to, the bytes written upstream, the denial events it sends and the
  L7 decisions it logs.
\<close>

section \<open>Surroundings and runs\<close>

record 'n proxy_ctx = "'n proxy_env" +
  pc_json :: "json \<Rightarrow> bytes"
  pc_connect :: "sock_addr list \<Rightarrow> (io_error, conn) result"
  pc_copy :: copier
  pc_tls :: "tls_state option"
  pc_inference :: "inference_context option"
  pc_resolver :: "secret_resolver option"
  pc_peer_addr :: "(io_error, sock_addr) result"
  pc_local_addr :: "(io_error, sock_addr) result"

record proxy_run =
  pr_result :: "(report, unit) result outcome"
  pr_client :: conn
  pr_upstream :: "conn option"
  pr_connects :: "sock_addr list list"
  pr_denials :: "denial_event list"
  pr_cache :: identity_cache
  pr_log :: "l7_log_entry list"

definition idle_run :: "identity_cache \<Rightarrow> conn \<Rightarrow> proxy_run" where
  "idle_run cache client =
     \<lparr>pr_result = Returned (Inr ()), pr_client = client, pr_upstream = None, pr_connects = [], pr_denials = [],
      pr_cache = cache, pr_log = []\<rparr>"

definition fail_run :: "report \<Rightarrow> proxy_run \<Rightarrow> proxy_run" where
  "fail_run e run = run\<lparr>pr_result := Returned (Inl e)\<rparr>"

text \<open>\<open>respond\<close>, as the last thing a handler does.\<close>

definition respond :: "bytes \<Rightarrow> conn \<Rightarrow> (report, unit) result \<times> conn" where
  "respond bytes client = conn_writes [bytes] client"

definition respond_run :: "bytes \<Rightarrow> proxy_run \<Rightarrow> proxy_run" where
  "respond_run bytes run =
     (case respond bytes (pr_client run) of (x, c) \<Rightarrow> run\<lparr>pr_result := Returned x, pr_client := c\<rparr>)"

definition FORBIDDEN :: bytes where
  "FORBIDDEN = ''HTTP/1.1 403 Forbidden'' @ crlf2"

definition ESTABLISHED :: bytes where
  "ESTABLISHED = ''HTTP/1.1 200 Connection Established'' @ crlf2"

text \<open>A denial: the event, then the 403 response.\<close>

definition deny_run ::
  "'n proxy_ctx \<Rightarrow> bytes \<Rightarrow> nat \<Rightarrow> connect_decision \<Rightarrow> bytes \<Rightarrow> bytes \<Rightarrow> proxy_run \<Rightarrow> proxy_run" where
  "deny_run env host_lc port decision reason stage run =
     respond_run FORBIDDEN
       (run\<lparr>pr_denials := pr_denials run @ emit_denial env host_lc port (binary_str decision) decision reason stage\<rparr>)"

section \<open>Forward requests\<close>

definition L7_BYPASS_REASON :: bytes where
  "L7_BYPASS_REASON = ''endpoint has L7 rules configured; forward proxy bypasses L7 inspection ''
     @ [CHR 0xE2, CHR 0x80, CHR 0x94] @ '' use CONNECT''"

text \<open>Steps 6 to 8 of \<open>handle_forward_proxy\<close>.\<close>

definition forward_upstream :: "'n proxy_ctx \<Rightarrow> bytes \<Rightarrow> bytes \<Rightarrow> sock_addr list \<Rightarrow> proxy_run \<Rightarrow> proxy_run" where
  "forward_upstream env buf path addrs run0 =
     (let run = run0\<lparr>pr_connects := [addrs]\<rparr> in
      case pc_connect env addrs of
        Inl _ \<Rightarrow> respond_run (''HTTP/1.1 502 Bad Gateway'' @ crlf2) run
      | Inr upstream \<Rightarrow>
          (case conn_writes [rewrite_forward_request buf path (pc_resolver env)] upstream of
             (Inl e, u) \<Rightarrow> fail_run e (run\<lparr>pr_upstream := Some u\<rparr>)
           | (Inr _, u) \<Rightarrow>
               (case pc_copy env (pr_client run) u of
                  (x, c, u') \<Rightarrow>
                    run\<lparr>pr_result := Returned (result_map_err ie_msg x), pr_client := c, pr_upstream := Some u'\<rparr>)))"

definition handle_forward_proxy ::
  "'n proxy_ctx \<Rightarrow> identity_cache \<Rightarrow> bytes \<Rightarrow> bytes \<Rightarrow> conn \<Rightarrow> proxy_run option" where
  "handle_forward_proxy env cache target_uri buf client =
     (let run = idle_run cache client in
      case parse_proxy_uri target_uri of
        Inl _ \<Rightarrow> Some (respond_run (''HTTP/1.1 400 Bad Request'' @ crlf2) run)
      | Inr (scheme, host, port, path) \<Rightarrow>
          (let host_lc = to_ascii_lowercase host in
           if scheme = ''https'' then
             Some (respond_run (''HTTP/1.1 400 Bad Request'' @ crlf @ ''Content-Length: 27'' @ crlf2
                     @ ''Use CONNECT for HTTPS URLs'') run)
           else case pc_peer_addr env of
             Inl e \<Rightarrow> Some (fail_run (ie_msg e) run)
           | Inr peer_addr \<Rightarrow>
             (case pc_local_addr env of
                Inl e \<Rightarrow> Some (fail_run (ie_msg e) run)
              | Inr _ \<Rightarrow>
                map_option (\<lambda>(decision, cache').
                  let run' = run\<lparr>pr_cache := cache'\<rparr> in
                  case cd_action decision of
                    Deny reason \<Rightarrow> deny_run env host_lc port decision reason ''forward'' run'
                  | Allow matched_policy \<Rightarrow>
                      (if query_l7_config env decision host_lc port \<noteq> None then
                         deny_run env host_lc port decision L7_BYPASS_REASON ''forward-l7-bypass'' run'
                       else case resolve_destination env decision host host_lc port of
                              Inl reason \<Rightarrow> deny_run env host_lc port decision reason ''ssrf'' run'
                            | Inr addrs \<Rightarrow> forward_upstream env buf path addrs run'))
                  (evaluate_opa_tcp env cache (snd peer_addr) host_lc port))))"

section \<open>Tunnels\<close>

text \<open>\<open>clone_engine_for_tunnel\<close>: an engine whose lock is poisoned is replaced by an empty one.\<close>

definition tunnel_engine :: "'n proxy_ctx \<Rightarrow> opa_engine" where
  "tunnel_engine env =
     (if eng_poisoned (pe_engine env) then engine_from_data [] (JObj []) else (pe_engine env)\<lparr>eng_poisoned := False\<rparr>)"

definition l7_context ::
  "'n proxy_ctx \<Rightarrow> connect_decision \<Rightarrow> bytes option \<Rightarrow> bytes \<Rightarrow> nat \<Rightarrow> l7_eval_context" where
  "l7_context env decision matched_policy host_lc port =
     \<lparr>cx_host = host_lc, cx_port = port, cx_policy_name = (case matched_policy of None \<Rightarrow> [] | Some n \<Rightarrow> n),
      cx_binary_path = (case cd_binary decision of None \<Rightarrow> [] | Some p \<Rightarrow> from_utf8_lossy p),
      cx_ancestors = map from_utf8_lossy (cd_ancestors decision),
      cx_cmdline_paths = map from_utf8_lossy (cd_cmdline_paths decision),
      cx_secret_resolver = pc_resolver env\<rparr>"

text \<open>\<open>copy_bidirectional\<close> as the end of a handler, and the inspecting relay, whose errors are only logged.\<close>

definition copy_run :: "'n proxy_ctx \<Rightarrow> conn \<Rightarrow> proxy_run \<Rightarrow> proxy_run" where
  "copy_run env upstream run =
     (case pc_copy env (pr_client run) upstream of
        (x, c, u) \<Rightarrow> run\<lparr>pr_result := Returned (result_map_err ie_msg x), pr_client := c, pr_upstream := Some u\<rparr>)"

definition relay_run ::
  "'n proxy_ctx \<Rightarrow> l7_endpoint_config \<Rightarrow> l7_eval_context \<Rightarrow> conn \<Rightarrow> conn \<Rightarrow> proxy_run \<Rightarrow> proxy_run" where
  "relay_run env config ctx client upstream run =
     (case relay_with_inspection (pe_builtins env) (pe_print env) (pc_json env) (pc_copy env) config
             (tunnel_engine env) client upstream ctx of
        (log, _, c, u) \<Rightarrow> run\<lparr>pr_client := c, pr_upstream := Some u, pr_log := log\<rparr>)"

text \<open>\<open>peek\<close> sees what a read would return and takes nothing.\<close>

definition serve_l7 ::
  "'n proxy_ctx \<Rightarrow> l7_endpoint_config \<Rightarrow> l7_eval_context \<Rightarrow> conn \<Rightarrow> proxy_run \<Rightarrow> proxy_run" where
  "serve_l7 env config ctx upstream run =
     (let client = pr_client run in
      if lc_tls config = Terminate then
        (case pc_tls env of
           Some tls \<Rightarrow>
             (case tl_accept tls (cx_host ctx) client of
                Inl _ \<Rightarrow> run
              | Inr tls_client \<Rightarrow>
                  (case tl_connect tls (cx_host ctx) upstream of
                     Inl _ \<Rightarrow> run\<lparr>pr_client := tls_client\<rparr>
                   | Inr tls_upstream \<Rightarrow> relay_run env config ctx tls_client tls_upstream run))
         | None \<Rightarrow> copy_run env upstream run)
      else if lc_protocol config = Rest then
        (case fst (conn_read 8 client) of
           Inl e \<Rightarrow> fail_run (ie_msg e) run
         | Inr bs \<Rightarrow>
             (if bs = [] then run
              else if \<not> looks_like_http bs then
                fail_run ''Protocol mismatch: expected HTTP but received non-HTTP bytes'' run
              else relay_run env config ctx client upstream run))
      else relay_run env config ctx client upstream run)"

definition connect_upstream ::
  "'n proxy_ctx \<Rightarrow> connect_decision \<Rightarrow> bytes option \<Rightarrow> bytes \<Rightarrow> nat \<Rightarrow> sock_addr list \<Rightarrow> proxy_run \<Rightarrow> proxy_run" where
  "connect_upstream env decision matched_policy host_lc port addrs run0 =
     (let run = run0\<lparr>pr_connects := [addrs]\<rparr> in
      case pc_connect env addrs of
        Inl e \<Rightarrow> fail_run (ie_msg e) run
      | Inr upstream \<Rightarrow>
          (case respond ESTABLISHED (pr_client run) of
             (Inl e, c) \<Rightarrow> fail_run e (run\<lparr>pr_client := c, pr_upstream := Some upstream\<rparr>)
           | (Inr _, c) \<Rightarrow>
               (let run' = run\<lparr>pr_client := c, pr_upstream := Some upstream\<rparr> in
                case query_l7_config env decision host_lc port of
                  Some config \<Rightarrow>
                    serve_l7 env config (l7_context env decision matched_policy host_lc port) upstream run'
                | None \<Rightarrow> copy_run env upstream run')))"

definition handle_connect :: "'n proxy_ctx \<Rightarrow> identity_cache \<Rightarrow> bytes \<Rightarrow> conn \<Rightarrow> proxy_run option" where
  "handle_connect env cache target client =
     (let run = idle_run cache client in
      case parse_target target of
        Inl e \<Rightarrow> Some (fail_run e run)
      | Inr (host, port) \<Rightarrow>
          (let host_lc = to_ascii_lowercase host in
           if host_lc = ''inference.local'' then
             (case respond ESTABLISHED client of
                (Inl e, c) \<Rightarrow> Some (fail_run e (run\<lparr>pr_client := c\<rparr>))
              | (Inr _, c) \<Rightarrow>
                  (case handle_inference_interception (pc_json env) (pc_tls env) (pc_inference env) ''inference.local'' c of
                     (x, c') \<Rightarrow>
                       Some (run\<lparr>pr_client := c', pr_result :=
                               (case x of
                                  Panicked \<Rightarrow> Panicked
                                | Returned (Inl e) \<Rightarrow> Returned (Inl e)
                                | Returned (Inr _) \<Rightarrow> Returned (Inr ()))\<rparr>)))
           else case pc_peer_addr env of
             Inl e \<Rightarrow> Some (fail_run (ie_msg e) run)
           | Inr peer_addr \<Rightarrow>
             (case pc_local_addr env of
                Inl e \<Rightarrow> Some (fail_run (ie_msg e) run)
              | Inr _ \<Rightarrow>
                map_option (\<lambda>(decision, cache').
                  let run' = run\<lparr>pr_cache := cache'\<rparr> in
                  case cd_action decision of
                    Deny reason \<Rightarrow> deny_run env host_lc port decision reason ''connect'' run'
                  | Allow matched_policy \<Rightarrow>
                      (case resolve_destination env decision host host_lc port of
                         Inl reason \<Rightarrow> deny_run env host_lc port decision reason ''ssrf'' run'
                       | Inr addrs \<Rightarrow> connect_upstream env decision matched_policy host_lc port addrs run'))
                  (evaluate_opa_tcp env cache (snd peer_addr) host_lc port))))"

section \<open>The connection\<close>

definition MAX_PROXY_HEADER_BYTES :: nat where
  "MAX_PROXY_HEADER_BYTES = 8192"

datatype proxy_head = TooLarge | ClosedEarly | HeadRead bytes

function read_proxy_head :: "bytes \<Rightarrow> conn \<Rightarrow> (report, proxy_head) result \<times> conn" where
  "read_proxy_head buf client =
     (if length buf = MAX_PROXY_HEADER_BYTES then (Inr TooLarge, client)
      else case conn_read (MAX_PROXY_HEADER_BYTES - length buf) client of
             (Inl e, c) \<Rightarrow> (Inl (ie_msg e), c)
           | (Inr bs, c) \<Rightarrow>
               (if bs = [] then (Inr ClosedEarly, c)
                else if contains_sub (buf @ bs) crlf2 then (Inr (HeadRead (buf @ bs)), c)
                else read_proxy_head (buf @ bs) c))"
  by pat_completeness auto

termination read_proxy_head
  by (relation "measure (\<lambda>(buf, c). length (cn_in c))") (auto intro: conn_read_shrinks)

declare read_proxy_head.simps [simp del]

definition handle_tcp_connection :: "'n proxy_ctx \<Rightarrow> identity_cache \<Rightarrow> conn \<Rightarrow> proxy_run option" where
  "handle_tcp_connection env cache client =
     (case read_proxy_head [] client of
        (Inl e, c) \<Rightarrow> Some (fail_run e (idle_run cache c))
      | (Inr TooLarge, c) \<Rightarrow>
          Some (respond_run (''HTTP/1.1 431 Request Header Fields Too Large'' @ crlf2) (idle_run cache c))
      | (Inr ClosedEarly, c) \<Rightarrow> Some (idle_run cache c)
      | (Inr (HeadRead buf), c) \<Rightarrow>
          (let request_line = hd (split_str crlf (from_utf8_lossy buf));
               parts = split_whitespace request_line;
               meth = (case parts of [] \<Rightarrow> [] | m # _ \<Rightarrow> m);
               target = (case parts of _ # t # _ \<Rightarrow> t | _ \<Rightarrow> []) in
           if meth \<noteq> ''CONNECT'' then handle_forward_proxy env cache target buf c
           else handle_connect env cache target c))"

section \<open>Facts\<close>

lemma run_fields [simp]:
  "pr_connects (idle_run cache c) = []" "pr_connects (fail_run e run) = pr_connects run"
  "pr_connects (respond_run b run) = pr_connects run"
  "pr_connects (deny_run env h p d reason stage run) = pr_connects run"
  "pr_connects (copy_run env u run) = pr_connects run" "pr_connects (relay_run env cfg ctx c u run) = pr_connects run"
  by (simp_all add: idle_run_def fail_run_def respond_run_def deny_run_def copy_run_def relay_run_def split: prod.splits)

lemma serve_l7_connects [simp]: "pr_connects (serve_l7 env cfg ctx u run) = pr_connects run"
  by (auto simp: serve_l7_def Let_def split: option.splits sum.splits)

lemma forward_upstream_connects [simp]: "pr_connects (forward_upstream env buf path addrs run) = [addrs]"
  by (auto simp: forward_upstream_def Let_def split: sum.splits prod.splits)

lemma connect_upstream_connects [simp]: "pr_connects (connect_upstream env d m h p addrs run) = [addrs]"
  by (auto simp: connect_upstream_def Let_def split: sum.splits prod.splits option.splits)

text \<open>Where a handler connects to: the decision that led there.\<close>

definition connect_justified ::
  "'n proxy_ctx \<Rightarrow> identity_cache \<Rightarrow> bytes \<Rightarrow> nat \<Rightarrow> connect_decision \<Rightarrow> sock_addr list \<Rightarrow> bool" where
  "connect_justified env cache host port d addrs \<longleftrightarrow>
     (\<exists>peer cache' m. evaluate_opa_tcp env cache peer (to_ascii_lowercase host) port = Some (d, cache')
        \<and> cd_action d = Allow m \<and> resolve_destination env d host (to_ascii_lowercase host) port = Inr addrs)"

lemma forward_connects:
  assumes "handle_forward_proxy env cache target buf client = Some run" "addrs \<in> set (pr_connects run)"
  shows "\<exists>scheme host port path d. parse_proxy_uri target = Inr (scheme, host, port, path)
    \<and> connect_justified env cache host port d addrs \<and> query_l7_config env d (to_ascii_lowercase host) port = None"
proof -
  obtain scheme host port path where u: "parse_proxy_uri target = Inr (scheme, host, port, path)"
    using assms by (cases "parse_proxy_uri target") (auto simp: handle_forward_proxy_def Let_def)
  obtain peer where p: "pc_peer_addr env = Inr peer" "scheme \<noteq> ''https''"
    using assms u by (cases "pc_peer_addr env") (auto simp: handle_forward_proxy_def Let_def split: if_splits)
  obtain loc where l: "pc_local_addr env = Inr loc"
    using assms u p by (cases "pc_local_addr env") (auto simp: handle_forward_proxy_def Let_def)
  obtain d cache' where d: "evaluate_opa_tcp env cache (snd peer) (to_ascii_lowercase host) port = Some (d, cache')"
    using assms(1) u p l by (auto simp: handle_forward_proxy_def Let_def)
  obtain m where m: "cd_action d = Allow m"
    using assms u p l d by (cases "cd_action d") (auto simp: handle_forward_proxy_def Let_def)
  have "query_l7_config env d (to_ascii_lowercase host) port = None"
    using assms u p l d m by (cases "query_l7_config env d (to_ascii_lowercase host) port")
      (auto simp: handle_forward_proxy_def Let_def)
  moreover have "resolve_destination env d host (to_ascii_lowercase host) port = Inr addrs"
    using assms u p l d m \<open>query_l7_config _ _ _ _ = None\<close>
    by (cases "resolve_destination env d host (to_ascii_lowercase host) port") (auto simp: handle_forward_proxy_def Let_def)
  ultimately show ?thesis using u d m unfolding connect_justified_def by blast
qed

lemma tunnel_connects:
  assumes "handle_connect env cache target client = Some run" "addrs \<in> set (pr_connects run)"
  shows "\<exists>host port d. parse_target target = Inr (host, port) \<and> connect_justified env cache host port d addrs"
proof -
  obtain host port where u: "parse_target target = Inr (host, port)"
    using assms by (cases "parse_target target") (auto simp: handle_connect_def Let_def)
  have i: "to_ascii_lowercase host \<noteq> ''inference.local''"
  proof
    assume i: "to_ascii_lowercase host = ''inference.local''"
    obtain x c where r: "respond ESTABLISHED client = (x, c)" by force
    obtain y c' where y: "handle_inference_interception (pc_json env) (pc_tls env) (pc_inference env) ''inference.local'' c = (y, c')"
      by force
    have "pr_connects run = []" using assms(1) u i r y by (cases x) (auto simp: handle_connect_def Let_def)
    then show False using assms(2) by simp
  qed
  obtain peer where p: "pc_peer_addr env = Inr peer"
    using assms u i by (cases "pc_peer_addr env") (auto simp: handle_connect_def Let_def)
  obtain loc where l: "pc_local_addr env = Inr loc"
    using assms u i p by (cases "pc_local_addr env") (auto simp: handle_connect_def Let_def)
  obtain d cache' where d: "evaluate_opa_tcp env cache (snd peer) (to_ascii_lowercase host) port = Some (d, cache')"
    using assms(1) u i p l by (auto simp: handle_connect_def Let_def)
  obtain m where m: "cd_action d = Allow m"
    using assms u i p l d by (cases "cd_action d") (auto simp: handle_connect_def Let_def)
  have "resolve_destination env d host (to_ascii_lowercase host) port = Inr addrs"
    using assms u i p l d m
    by (cases "resolve_destination env d host (to_ascii_lowercase host) port") (auto simp: handle_connect_def Let_def)
  then show ?thesis using u d m unfolding connect_justified_def by blast
qed

lemma tcp_connects:
  assumes "handle_tcp_connection env cache client = Some run" "addrs \<in> set (pr_connects run)"
  shows "\<exists>host port d. connect_justified env cache host port d addrs"
proof -
  obtain buf c where h: "read_proxy_head [] client = (Inr (HeadRead buf), c)"
    using assms by (auto simp: handle_tcp_connection_def split: prod.splits sum.splits proxy_head.splits)
  define parts where "parts = split_whitespace (hd (split_str crlf (from_utf8_lossy buf)))"
  consider target where "handle_forward_proxy env cache target buf c = Some run"
    | target where "handle_connect env cache target c = Some run"
    using assms(1) h by (auto simp: handle_tcp_connection_def Let_def split: if_splits)
  then show ?thesis using forward_connects [OF _ assms(2)] tunnel_connects [OF _ assms(2)] by cases blast+
qed

text \<open>A response written to a writable client.\<close>

lemma respond_writable:
  assumes "writable c" "bs \<noteq> []"
  shows "\<exists>c'. respond bs c = (Inr (), c') \<and> cn_out c' = cn_out c @ bs"
  using conn_write_writable [OF assms(1), of bs] by (simp add: respond_def)

lemma deny_run_writable:
  assumes "writable (pr_client run)"
  shows "cn_out (pr_client (deny_run env h p d reason stage run)) = cn_out (pr_client run) @ FORBIDDEN"
    "pr_result (deny_run env h p d reason stage run) = Returned (Inr ())"
    "pr_denials (deny_run env h p d reason stage run) =
       pr_denials run @ emit_denial env h p (binary_str d) d reason stage"
    "pr_upstream (deny_run env h p d reason stage run) = pr_upstream run"
proof -
  have "FORBIDDEN \<noteq> []" by (simp add: FORBIDDEN_def)
  with respond_writable [OF assms] obtain c' where "respond FORBIDDEN (pr_client run) = (Inr (), c')"
    "cn_out c' = cn_out (pr_client run) @ FORBIDDEN" by blast
  then show "cn_out (pr_client (deny_run env h p d reason stage run)) = cn_out (pr_client run) @ FORBIDDEN"
    "pr_result (deny_run env h p d reason stage run) = Returned (Inr ())"
    "pr_denials (deny_run env h p d reason stage run) =
       pr_denials run @ emit_denial env h p (binary_str d) d reason stage"
    "pr_upstream (deny_run env h p d reason stage run) = pr_upstream run"
    by (simp_all add: deny_run_def respond_run_def)
qed

text \<open>What is left of a tunnel once the destination is known and the client identified.\<close>

definition refusal ::
  "'n proxy_ctx \<Rightarrow> connect_decision \<Rightarrow> bytes \<Rightarrow> nat \<Rightarrow> (bytes \<times> bytes) option" where
  "refusal env d host port =
     (case cd_action d of
        Deny reason \<Rightarrow> Some (''connect'', reason)
      | Allow _ \<Rightarrow>
          (case resolve_destination env d host (to_ascii_lowercase host) port of
             Inl reason \<Rightarrow> Some (''ssrf'', reason) | Inr _ \<Rightarrow> None))"

lemma handle_connect_decided:
  assumes "parse_target target = Inr (host, port)" "to_ascii_lowercase host \<noteq> ''inference.local''"
    and "pc_peer_addr env = Inr peer" "pc_local_addr env = Inr loc"
    and "evaluate_opa_tcp env cache (snd peer) (to_ascii_lowercase host) port = Some (d, cache')"
  shows "handle_connect env cache target client = Some
    (let run = (idle_run cache client)\<lparr>pr_cache := cache'\<rparr> in
     case cd_action d of
       Deny reason \<Rightarrow> deny_run env (to_ascii_lowercase host) port d reason ''connect'' run
     | Allow m \<Rightarrow>
         (case resolve_destination env d host (to_ascii_lowercase host) port of
            Inl reason \<Rightarrow> deny_run env (to_ascii_lowercase host) port d reason ''ssrf'' run
          | Inr addrs \<Rightarrow> connect_upstream env d m (to_ascii_lowercase host) port addrs run))"
  using assms by (simp add: handle_connect_def Let_def)

section \<open>Properties\<close>

text \<open>A refused tunnel: when the decision denies, or the destination does not pass the address check, the client
  gets the 403 response and nothing else, no connection is made, and the one denial event (when there is an aggregator)
  carries the destination, the reason and the stage at which it was refused.\<close>

theorem refused_tunnel_gets_403:
  assumes "parse_target target = Inr (host, port)" "to_ascii_lowercase host \<noteq> ''inference.local''"
    and "pc_peer_addr env = Inr peer" "pc_local_addr env = Inr loc" "writable client"
    and "evaluate_opa_tcp env cache (snd peer) (to_ascii_lowercase host) port = Some (d, cache')"
    and "refusal env d host port = Some (stage, reason)"
  shows "\<exists>run. handle_connect env cache target client = Some run \<and> pr_result run = Returned (Inr ())
    \<and> cn_out (pr_client run) = cn_out client @ FORBIDDEN \<and> pr_connects run = [] \<and> pr_upstream run = None
    \<and> pr_denials run = emit_denial env (to_ascii_lowercase host) port (binary_str d) d reason stage"
proof -
  let ?run = "deny_run env (to_ascii_lowercase host) port d reason stage ((idle_run cache client)\<lparr>pr_cache := cache'\<rparr>)"
  have "handle_connect env cache target client = Some ?run"
    using handle_connect_decided [OF assms(1-4,6), of client] assms(7)
    by (auto simp: refusal_def split: network_action.splits sum.splits)
  moreover have "pr_connects ((idle_run cache client)\<lparr>pr_cache := cache'\<rparr>) = []" by (simp add: idle_run_def)
  moreover have w: "writable (pr_client ((idle_run cache client)\<lparr>pr_cache := cache'\<rparr>))"
    using assms(5) by (simp add: idle_run_def)
  ultimately show ?thesis
    using deny_run_writable [OF w, of env "to_ascii_lowercase host" port d reason stage] by (simp add: idle_run_def)
qed

text \<open>The proxy of the sample process tree, with an upstream that takes everything and a copier that does nothing.\<close>

definition sample_ctx :: "tls_state option \<Rightarrow> 8 word proxy_ctx" where
  "sample_ctx tls = proxy_env.extend sample_env
     \<lparr>pc_json = (\<lambda>_. []), pc_connect = (\<lambda>_. Inr (fresh_conn [] [])), pc_copy = (\<lambda>c u. (Inr (), c, u)), pc_tls = tls,
      pc_inference = None, pc_resolver = None, pc_peer_addr = Inr (V4 0x0A000002, 36684),
      pc_local_addr = Inr (V4 0x0A000001, 3128)\<rparr>"

lemma sample_ctx_fields [simp]:
  "pe_builtins (sample_ctx tls) = literal_builtins" "pe_engine (sample_ctx tls) = quickstart_engine"
  "pe_entrypoint_pid (sample_ctx tls) = 7" "pe_proc (sample_ctx tls) = sample_fs"
  "pe_denial_tx (sample_ctx tls)" "pc_peer_addr (sample_ctx tls) = Inr (V4 0x0A000002, 36684)"
  "pc_local_addr (sample_ctx tls) = Inr (V4 0x0A000001, 3128)" "pc_tls (sample_ctx tls) = tls"
  "pc_connect (sample_ctx tls) a = Inr (fresh_conn [] [])" "pc_copy (sample_ctx tls) c u = (Inr (), c, u)"
  by (simp_all add: sample_ctx_def sample_env_def proxy_env.defs)

text \<open>A decision does not depend on what extends the environment.\<close>

lemma extend_fields:
  "pe_builtins (proxy_env.extend env x) = pe_builtins env" "pe_print (proxy_env.extend env x) = pe_print env"
  "pe_engine (proxy_env.extend env x) = pe_engine env" "pe_proc (proxy_env.extend env x) = pe_proc env"
  "pe_entrypoint_pid (proxy_env.extend env x) = pe_entrypoint_pid env"
  "verify_binary (proxy_env.extend env x) = verify_binary env"
  by (simp_all add: proxy_env.defs verify_binary_def fun_eq_iff)

lemma verify_ancestors_extend:
  "verify_ancestors (proxy_env.extend env x) cache as = verify_ancestors env cache as"
  by (induction as arbitrary: cache) (auto simp: extend_fields split: prod.splits sum.splits)

lemma evaluate_opa_tcp_extend:
  "evaluate_opa_tcp (proxy_env.extend env x) cache peer host port = evaluate_opa_tcp env cache peer host port"
  unfolding evaluate_opa_tcp_def extend_fields verify_ancestors_extend ..

lemma sample_ctx_decision:
  "\<exists>cache m. evaluate_opa_tcp (sample_ctx tls) identity_cache_new 36684 ''api.github.com'' 443 = Some (curl_decision m, cache)"
  unfolding sample_ctx_def evaluate_opa_tcp_extend by (rule sample_decision)

lemma curl_query:
  "query_input (curl_decision m) host port = decision_input host port ''/usr/bin/curl'' [] [''/bin/sh''] []"
  by (simp add: query_input_def curl_decision_def)

lemma curl_l7_config: "query_l7_config (sample_ctx tls) (curl_decision m) ''api.github.com'' 443 = Some enforced_rest"
proof -
  have "query_endpoint_config literal_builtins quickstart_engine (query_input (curl_decision m) ''api.github.com'' 443)
    = Inr (matched_endpoint_config literal_builtins (eng_data quickstart_engine)
        (input_json (query_input (curl_decision m) ''api.github.com'' 443)))"
    by (rule query_endpoint_config_eq) (simp_all add: quickstart_engine_def engine_from_data_def)
  moreover have "map_option parse_l7_config (matched_endpoint_config literal_builtins (eng_data quickstart_engine)
        (input_json (query_input (curl_decision m) ''api.github.com'' 443))) = Some (Some enforced_rest)"
    unfolding curl_query by code_simp
  ultimately show ?thesis by (auto simp: query_l7_config_def has_policy_def curl_decision_def)
qed

lemma show_nat_443: "show_nat 443 = ''443''"
  by code_simp

theorem refused_tunnel_gets_403_witness:
  "\<exists>run ev. handle_connect ((sample_ctx None)\<lparr>pe_entrypoint_pid := 0\<rparr>) identity_cache_new ''api.github.com:443'' (fresh_conn [] [])
       = Some run \<and> cn_out (pr_client run) = FORBIDDEN \<and> pr_connects run = [] \<and> pr_denials run = [ev]
     \<and> de_deny_reason ev = ''entrypoint process not yet spawned'' \<and> de_denial_stage ev = ''connect''"
proof -
  let ?env = "(sample_ctx None)\<lparr>pe_entrypoint_pid := 0\<rparr>"
  let ?h = "''api.github.com''" and ?reason = "''entrypoint process not yet spawned''"
  let ?d = "deny_decision ?reason None None [] []"
  have t: "parse_target ''api.github.com:443'' = Inr (?h, 443)"
    using parse_target_host_port [of ?h 443] by (simp add: show_nat_443)
  have h: "to_ascii_lowercase ?h = ?h" by code_simp
  have e: "evaluate_opa_tcp ?env identity_cache_new 36684 ?h 443 = Some (?d, identity_cache_new)"
    by (simp add: evaluate_opa_tcp_def)
  have r: "refusal ?env ?d ?h 443 = Some (''connect'', ?reason)" by (simp add: refusal_def deny_decision_def)
  have w: "writable (fresh_conn [] [])" by (simp add: fresh_conn_def writable_def)
  from refused_tunnel_gets_403 [OF t _ _ _ w, of ?env "(V4 0x0A000002, 36684)" "(V4 0x0A000001, 3128)"
      identity_cache_new ?d identity_cache_new "''connect''" ?reason] e r h
  show ?thesis by (auto simp: emit_denial_def fresh_conn_def)
qed

text \<open>An absolute-form request is never sent to an endpoint with an L7 configuration: since forwarding would skip
  the inspection, the proxy answers 403, makes no connection and reports the denial.\<close>

theorem forward_refuses_inspected_endpoint:
  assumes "parse_proxy_uri target = Inr (''http'', host, port, path)" "pc_peer_addr env = Inr peer"
    and "pc_local_addr env = Inr loc" "writable client"
    and "evaluate_opa_tcp env cache (snd peer) (to_ascii_lowercase host) port = Some (d, cache')"
    and "cd_action d = Allow m" "query_l7_config env d (to_ascii_lowercase host) port = Some config"
  shows "\<exists>run. handle_forward_proxy env cache target buf client = Some run \<and> pr_connects run = [] \<and> pr_upstream run = None
    \<and> cn_out (pr_client run) = cn_out client @ FORBIDDEN
    \<and> pr_denials run = emit_denial env (to_ascii_lowercase host) port (binary_str d) d L7_BYPASS_REASON ''forward-l7-bypass''"
proof -
  let ?run = "deny_run env (to_ascii_lowercase host) port d L7_BYPASS_REASON ''forward-l7-bypass''
    ((idle_run cache client)\<lparr>pr_cache := cache'\<rparr>)"
  have "handle_forward_proxy env cache target buf client = Some ?run"
    using assms by (simp add: handle_forward_proxy_def Let_def)
  moreover have w: "writable (pr_client ((idle_run cache client)\<lparr>pr_cache := cache'\<rparr>))"
    using assms(4) by (simp add: idle_run_def)
  moreover have "pr_connects ((idle_run cache client)\<lparr>pr_cache := cache'\<rparr>) = []" by (simp add: idle_run_def)
  ultimately show ?thesis
    using deny_run_writable [OF w, of env "to_ascii_lowercase host" port d] by (simp add: idle_run_def)
qed

theorem forward_refuses_inspected_endpoint_witness:
  "\<exists>run. handle_forward_proxy (sample_ctx None) identity_cache_new ''http://api.github.com:443/user'' get_request (fresh_conn [] [])
       = Some run \<and> pr_connects run = [] \<and> cn_out (pr_client run) = FORBIDDEN"
proof -
  obtain cache m where d: "evaluate_opa_tcp (sample_ctx None) identity_cache_new 36684 ''api.github.com'' 443
      = Some (curl_decision m, cache)" using sample_ctx_decision by blast
  have u: "parse_proxy_uri ''http://api.github.com:443/user'' = Inr (''http'', ''api.github.com'', 443, ''/user'')"
    using parse_proxy_uri_forms [of "''http''" 443 "''/user''" "''api.github.com''" "''::1''"]
    by (simp add: starts_with_def show_nat_443 to_ascii_lowercase_def ascii_lower_char_def)
  have w: "writable (fresh_conn [] [])" by (simp add: fresh_conn_def writable_def)
  have h: "to_ascii_lowercase ''api.github.com'' = ''api.github.com''" by code_simp
  have a: "cd_action (curl_decision m) = Allow (Some m)" by (simp add: curl_decision_def)
  from forward_refuses_inspected_endpoint [OF u _ _ w _ a, of "sample_ctx None" "(V4 0x0A000002, 36684)"
      "(V4 0x0A000001, 3128)" identity_cache_new cache enforced_rest get_request] d curl_l7_config h
  show ?thesis by (auto simp: fresh_conn_def)
qed

text \<open>Without TLS state, an endpoint configured for TLS termination is not inspected at all: the proxy makes the
  connection, announces the tunnel and copies bytes in both directions, as for an endpoint with no L7 configuration,
  whatever the enforcement mode says.\<close>

theorem missing_tls_state_skips_inspection:
  assumes "query_l7_config env d host port = Some config" "lc_tls config = Terminate" "pc_tls env = None"
    and "pc_connect env addrs = Inr upstream" "writable (pr_client run)"
  shows "\<exists>c. cn_out c = cn_out (pr_client run) @ ESTABLISHED
    \<and> connect_upstream env d m host port addrs run =
        copy_run env upstream (run\<lparr>pr_connects := [addrs], pr_client := c, pr_upstream := Some upstream\<rparr>)"
proof -
  have "ESTABLISHED \<noteq> []" by (simp add: ESTABLISHED_def)
  with respond_writable [OF assms(5)] obtain c where "respond ESTABLISHED (pr_client run) = (Inr (), c)"
    "cn_out c = cn_out (pr_client run) @ ESTABLISHED" by blast
  then show ?thesis using assms(1-4) by (auto simp: connect_upstream_def serve_l7_def Let_def)
qed

theorem missing_tls_state_skips_inspection_witness:
  "\<exists>c. lc_enforcement enforced_rest = Enforce
    \<and> connect_upstream (sample_ctx None) (curl_decision ''github_api'') (Some ''github_api'') ''api.github.com'' 443 [(V4 0x08080808, 443)]
        (idle_run identity_cache_new (fresh_conn post_request []))
      = copy_run (sample_ctx None) (fresh_conn [] []) ((idle_run identity_cache_new (fresh_conn post_request []))
          \<lparr>pr_connects := [[(V4 0x08080808, 443)]], pr_client := c, pr_upstream := Some (fresh_conn [] [])\<rparr>)"
proof -
  have "lc_tls enforced_rest = Terminate" "lc_enforcement enforced_rest = Enforce"
    "writable (pr_client (idle_run identity_cache_new (fresh_conn post_request [])))"
    by (simp_all add: enforced_rest_def idle_run_def fresh_conn_def writable_def)
  with missing_tls_state_skips_inspection [OF curl_l7_config, of None "[(V4 0x08080808, 443)]" "fresh_conn [] []"
      "idle_run identity_cache_new (fresh_conn post_request [])" "''github_api''" "Some ''github_api''"]
  show ?thesis by auto
qed

end
