(* ===== verification/Gateway_Db.thy ===== *)
theory Gateway_Db
  imports Rust_Map
begin

text \<open>
  The tables of the gateway's database, \<open>crates/clustershell-server/src/persistence\<close> and \<open>migrations/sqlite\<close>. A table is
  the list of its rows; every statement of \<open>sqlite.rs\<close> is a function on the tables that also gives its result, or the
  text of a violated constraint and the tables unchanged. \<open>now_ms\<close> is the clock when the statement runs.
\<close>

section \<open>Rows and tables\<close>

record object_record =
  or_object_type :: bytes
  or_id :: bytes
  or_name :: bytes
  or_payload :: bytes
  or_created_at_ms :: int
  or_updated_at_ms :: int

record policy_record =
  po_id :: bytes
  po_sandbox_id :: bytes
  po_version :: int
  po_policy_payload :: bytes
  po_policy_hash :: bytes
  po_status :: bytes
  po_load_error :: "bytes option"
  po_created_at_ms :: int
  po_loaded_at_ms :: "int option"

text \<open>\<open>confidence\<close> is only stored and handed back; it is kept as its bits.\<close>

record draft_chunk_record =
  dc_id :: bytes
  dc_sandbox_id :: bytes
  dc_draft_version :: int
  dc_status :: bytes
  dc_rule_name :: bytes
  dc_proposed_rule :: bytes
  dc_rationale :: bytes
  dc_security_notes :: bytes
  dc_confidence :: nat
  dc_created_at_ms :: int
  dc_decided_at_ms :: "int option"
  dc_host :: bytes
  dc_port :: int
  dc_binary :: bytes
  dc_hit_count :: int
  dc_first_seen_ms :: int
  dc_last_seen_ms :: int

record db =
  db_objects :: "object_record list"
  db_policies :: "policy_record list"
  db_chunks :: "draft_chunk_record list"

text \<open>\<open>map_db_error\<close> around what SQLite says about a violated constraint.\<close>

definition unique_failed :: "bytes \<Rightarrow> bytes" where
  "unique_failed columns =
     ''execution error: database error: error returned from database: UNIQUE constraint failed: '' @ columns"

type_synonym 'a statement = "int \<Rightarrow> db \<Rightarrow> (bytes, 'a) result \<times> db"

section \<open>Objects\<close>

text \<open>The conflict on \<open>id\<close> is looked at first: it makes the insertion an update of payload and time, or, when the row is of
  another type, nothing.\<close>

definition db_put :: "bytes \<Rightarrow> bytes \<Rightarrow> bytes \<Rightarrow> bytes \<Rightarrow> unit statement" where
  "db_put object_type obj_id name payload now_ms d =
     (if \<exists>r\<in>set (db_objects d). or_id r = obj_id then
        (Inr (), d\<lparr>db_objects := map (\<lambda>r. if or_id r = obj_id \<and> or_object_type r = object_type
             then r\<lparr>or_payload := payload, or_updated_at_ms := now_ms\<rparr> else r) (db_objects d)\<rparr>)
      else if \<exists>r\<in>set (db_objects d). or_object_type r = object_type \<and> or_name r = name then
        (Inl (unique_failed ''objects.object_type, objects.name''), d)
      else (Inr (), d\<lparr>db_objects := db_objects d @
             [\<lparr>or_object_type = object_type, or_id = obj_id, or_name = name, or_payload = payload,
               or_created_at_ms = now_ms, or_updated_at_ms = now_ms\<rparr>]\<rparr>))"

definition db_get :: "bytes \<Rightarrow> bytes \<Rightarrow> object_record option statement" where
  "db_get object_type obj_id now_ms d =
     (Inr (find (\<lambda>r. or_object_type r = object_type \<and> or_id r = obj_id) (db_objects d)), d)"

definition db_get_by_name :: "bytes \<Rightarrow> bytes \<Rightarrow> object_record option statement" where
  "db_get_by_name object_type name now_ms d =
     (Inr (find (\<lambda>r. or_object_type r = object_type \<and> or_name r = name) (db_objects d)), d)"

text \<open>A deletion answers whether a row went.\<close>

definition delete_rows :: "(object_record \<Rightarrow> bool) \<Rightarrow> bool statement" where
  "delete_rows P now_ms d =
     (Inr (list_ex P (db_objects d)), d\<lparr>db_objects := filter (\<lambda>r. \<not> P r) (db_objects d)\<rparr>)"

definition db_delete :: "bytes \<Rightarrow> bytes \<Rightarrow> bool statement" where
  "db_delete object_type obj_id = delete_rows (\<lambda>r. or_object_type r = object_type \<and> or_id r = obj_id)"

definition db_delete_by_name :: "bytes \<Rightarrow> bytes \<Rightarrow> bool statement" where
  "db_delete_by_name object_type name = delete_rows (\<lambda>r. or_object_type r = object_type \<and> or_name r = name)"

definition db_list :: "bytes \<Rightarrow> nat \<Rightarrow> nat \<Rightarrow> object_record list statement" where
  "db_list object_type limit offset now_ms d =
     (Inr (take limit (drop offset (sort_key or_created_at_ms (sort_key or_name
        (filter (\<lambda>r. or_object_type r = object_type) (db_objects d)))))), d)"

section \<open>Policy revisions\<close>

definition db_put_policy_revision :: "bytes \<Rightarrow> bytes \<Rightarrow> int \<Rightarrow> bytes \<Rightarrow> bytes \<Rightarrow> unit statement" where
  "db_put_policy_revision policy_id sandbox_id version payload hash now_ms d =
     (if \<exists>r\<in>set (db_policies d). po_id r = policy_id then (Inl (unique_failed ''sandbox_policies.id''), d)
      else if \<exists>r\<in>set (db_policies d). po_sandbox_id r = sandbox_id \<and> po_version r = version then
        (Inl (unique_failed ''sandbox_policies.sandbox_id, sandbox_policies.version''), d)
      else (Inr (), d\<lparr>db_policies := db_policies d @
             [\<lparr>po_id = policy_id, po_sandbox_id = sandbox_id, po_version = version, po_policy_payload = payload,
               po_policy_hash = hash, po_status = ''pending'', po_load_error = None, po_created_at_ms = now_ms,
               po_loaded_at_ms = None\<rparr>]\<rparr>))"

text \<open>\<open>ORDER BY version DESC\<close>.\<close>

definition revisions :: "bytes \<Rightarrow> db \<Rightarrow> policy_record list" where
  "revisions sandbox_id d =
     rev (sort_key po_version (filter (\<lambda>r. po_sandbox_id r = sandbox_id) (db_policies d)))"

definition first_row :: "'r list \<Rightarrow> 'r option" where
  "first_row rows = (case rows of [] \<Rightarrow> None | r # _ \<Rightarrow> Some r)"

definition db_get_latest_policy :: "bytes \<Rightarrow> policy_record option statement" where
  "db_get_latest_policy sandbox_id now_ms d = (Inr (first_row (revisions sandbox_id d)), d)"

definition db_get_latest_loaded_policy :: "bytes \<Rightarrow> policy_record option statement" where
  "db_get_latest_loaded_policy sandbox_id now_ms d =
     (Inr (first_row (filter (\<lambda>r. po_status r = ''loaded'') (revisions sandbox_id d))), d)"

definition db_get_policy_by_version :: "bytes \<Rightarrow> int \<Rightarrow> policy_record option statement" where
  "db_get_policy_by_version sandbox_id version now_ms d =
     (Inr (find (\<lambda>r. po_sandbox_id r = sandbox_id \<and> po_version r = version) (db_policies d)), d)"

definition db_list_policies :: "bytes \<Rightarrow> nat \<Rightarrow> nat \<Rightarrow> policy_record list statement" where
  "db_list_policies sandbox_id limit offset now_ms d = (Inr (take limit (drop offset (revisions sandbox_id d))), d)"

definition db_update_policy_status ::
  "bytes \<Rightarrow> int \<Rightarrow> bytes \<Rightarrow> bytes option \<Rightarrow> int option \<Rightarrow> bool statement" where
  "db_update_policy_status sandbox_id version status load_error loaded_at_ms now_ms d =
     (let P = (\<lambda>r. po_sandbox_id r = sandbox_id \<and> po_version r = version) in
      (Inr (list_ex P (db_policies d)),
       d\<lparr>db_policies := map (\<lambda>r. if P r then r\<lparr>po_status := status, po_load_error := load_error,
          po_loaded_at_ms := loaded_at_ms\<rparr> else r) (db_policies d)\<rparr>))"

definition db_supersede_older_policies :: "bytes \<Rightarrow> int \<Rightarrow> nat statement" where
  "db_supersede_older_policies sandbox_id before_version now_ms d =
     (let P = (\<lambda>r. po_sandbox_id r = sandbox_id \<and> po_version r < before_version
                 \<and> po_status r \<in> {''pending'', ''loaded''}) in
      (Inr (length (filter P (db_policies d))),
       d\<lparr>db_policies := map (\<lambda>r. if P r then r\<lparr>po_status := ''superseded''\<rparr> else r) (db_policies d)\<rparr>))"

section \<open>Draft chunks\<close>

definition active_status :: "bytes \<Rightarrow> bool" where
  "active_status s \<longleftrightarrow> s \<in> {''pending'', ''approved'', ''rejected''}"

text \<open>The partial unique index: two active rows of a sandbox differ in host, port or binary.\<close>

definition same_endpoint :: "draft_chunk_record \<Rightarrow> draft_chunk_record \<Rightarrow> bool" where
  "same_endpoint r s \<longleftrightarrow> active_status (dc_status r) \<and> active_status (dc_status s)
     \<and> dc_sandbox_id r = dc_sandbox_id s \<and> dc_host r = dc_host s \<and> dc_port r = dc_port s \<and> dc_binary r = dc_binary s"

definition db_put_draft_chunk :: "draft_chunk_record \<Rightarrow> unit statement" where
  "db_put_draft_chunk chunk now_ms d =
     (if \<exists>r\<in>set (db_chunks d). dc_id r = dc_id chunk then (Inl (unique_failed ''draft_policy_chunks.id''), d)
      else if \<exists>r\<in>set (db_chunks d). same_endpoint r chunk then
        (Inr (), d\<lparr>db_chunks := map (\<lambda>r. if same_endpoint r chunk
             then r\<lparr>dc_hit_count := dc_hit_count r + dc_hit_count chunk, dc_last_seen_ms := dc_last_seen_ms chunk\<rparr>
             else r) (db_chunks d)\<rparr>)
      else (Inr (), d\<lparr>db_chunks := db_chunks d @ [chunk]\<rparr>))"

definition db_get_draft_chunk :: "bytes \<Rightarrow> draft_chunk_record option statement" where
  "db_get_draft_chunk chunk_id now_ms d = (Inr (find (\<lambda>r. dc_id r = chunk_id) (db_chunks d)), d)"

definition db_list_draft_chunks :: "bytes \<Rightarrow> bytes option \<Rightarrow> draft_chunk_record list statement" where
  "db_list_draft_chunks sandbox_id status_filter now_ms d =
     (Inr (sort_key (\<lambda>r. - dc_created_at_ms r)
        (filter (\<lambda>r. dc_sandbox_id r = sandbox_id \<and> (case status_filter of None \<Rightarrow> True | Some s \<Rightarrow> dc_status r = s))
           (db_chunks d))), d)"

text \<open>\<open>UPDATE ... WHERE\<close> on the chunks, which the partial index may refuse.\<close>

definition update_chunks ::
  "(draft_chunk_record \<Rightarrow> bool) \<Rightarrow> (draft_chunk_record \<Rightarrow> draft_chunk_record) \<Rightarrow> bool statement" where
  "update_chunks P f now_ms d =
     (let rows = map (\<lambda>r. if P r then f r else r) (db_chunks d) in
      if sorted_wrt (\<lambda>r s. \<not> same_endpoint r s) rows then (Inr (list_ex P (db_chunks d)), d\<lparr>db_chunks := rows\<rparr>)
      else (Inl (unique_failed ''draft_policy_chunks.sandbox_id, draft_policy_chunks.host, draft_policy_chunks.port, draft_policy_chunks.binary''), d))"

definition db_update_draft_chunk_status :: "bytes \<Rightarrow> bytes \<Rightarrow> int option \<Rightarrow> bool statement" where
  "db_update_draft_chunk_status chunk_id status decided_at_ms =
     update_chunks (\<lambda>r. dc_id r = chunk_id) (\<lambda>r. r\<lparr>dc_status := status, dc_decided_at_ms := decided_at_ms\<rparr>)"

definition db_update_draft_chunk_rule :: "bytes \<Rightarrow> bytes \<Rightarrow> bool statement" where
  "db_update_draft_chunk_rule chunk_id proposed_rule =
     update_chunks (\<lambda>r. dc_id r = chunk_id \<and> dc_status r = ''pending'') (\<lambda>r. r\<lparr>dc_proposed_rule := proposed_rule\<rparr>)"

definition db_delete_draft_chunks :: "bytes \<Rightarrow> bytes \<Rightarrow> nat statement" where
  "db_delete_draft_chunks sandbox_id status now_ms d =
     (let P = (\<lambda>r. dc_sandbox_id r = sandbox_id \<and> dc_status r = status) in
      (Inr (length (filter P (db_chunks d))), d\<lparr>db_chunks := filter (\<lambda>r. \<not> P r) (db_chunks d)\<rparr>))"

definition db_get_draft_version :: "bytes \<Rightarrow> int statement" where
  "db_get_draft_version sandbox_id now_ms d =
     (let vs = map dc_draft_version (filter (\<lambda>r. dc_sandbox_id r = sandbox_id) (db_chunks d)) in
      (Inr (if vs = [] then 0 else Max (set vs)), d))"

section \<open>Constraints\<close>

text \<open>What the primary keys and unique indexes of the schema promise.\<close>

definition objects_ok :: "object_record list \<Rightarrow> bool" where
  "objects_ok rows \<longleftrightarrow> distinct (map or_id rows) \<and> distinct (map (\<lambda>r. (or_object_type r, or_name r)) rows)"

definition policies_ok :: "policy_record list \<Rightarrow> bool" where
  "policies_ok rows \<longleftrightarrow> distinct (map po_id rows) \<and> distinct (map (\<lambda>r. (po_sandbox_id r, po_version r)) rows)"

definition chunks_ok :: "draft_chunk_record list \<Rightarrow> bool" where
  "chunks_ok rows \<longleftrightarrow> distinct (map dc_id rows) \<and> sorted_wrt (\<lambda>r s. \<not> same_endpoint r s) rows"

definition db_ok :: "db \<Rightarrow> bool" where
  "db_ok d \<longleftrightarrow> objects_ok (db_objects d) \<and> policies_ok (db_policies d) \<and> chunks_ok (db_chunks d)"

text \<open>The revisions of a sandbox are numbered from one without gaps.\<close>

definition history_ok :: "db \<Rightarrow> bool" where
  "history_ok d \<longleftrightarrow> (\<forall>r\<in>set (db_policies d). 1 \<le> po_version r \<and>
     (1 < po_version r \<longrightarrow> (\<exists>r'\<in>set (db_policies d). po_sandbox_id r' = po_sandbox_id r \<and> po_version r' = po_version r - 1)))"

text \<open>One statement of the gateway. A revision is only added with number one or behind one that is there.\<close>

inductive db_step :: "db \<Rightarrow> db \<Rightarrow> bool" where
  put: "db_step d (snd (db_put t i n p now d))"
| delete: "db_step d (snd (delete_rows P now d))"
| revision: "v = 1 \<or> (\<exists>r\<in>set (db_policies d). po_sandbox_id r = sb \<and> po_version r = v - 1 \<and> 1 < v)
    \<Longrightarrow> db_step d (snd (db_put_policy_revision i sb v p h now d))"
| status: "db_step d (snd (db_update_policy_status sb v st e l now d))"
| supersede: "db_step d (snd (db_supersede_older_policies sb v now d))"
| chunk: "db_step d (snd (db_put_draft_chunk c now d))"
| chunk_status: "db_step d (snd (db_update_draft_chunk_status i st t now d))"
| chunk_rule: "db_step d (snd (db_update_draft_chunk_rule i rule now d))"
| chunk_delete: "db_step d (snd (db_delete_draft_chunks sb st now d))"

inductive_cases db_stepE: "db_step d d'"

lemma map_key_if: "(\<And>r. P r \<Longrightarrow> k (f r) = k r) \<Longrightarrow> map (\<lambda>r. k (if P r then f r else r)) rows = map k rows"
  by auto

lemma objects_ok_put: "objects_ok (db_objects d) \<Longrightarrow> objects_ok (db_objects (snd (db_put t i n p now d)))"
proof -
  assume "objects_ok (db_objects d)"
  moreover have "map or_id (map (\<lambda>r. if or_id r = i \<and> or_object_type r = t
        then r\<lparr>or_payload := p, or_updated_at_ms := now\<rparr> else r) (db_objects d)) = map or_id (db_objects d)"
    "map (\<lambda>r. (or_object_type r, or_name r)) (map (\<lambda>r. if or_id r = i \<and> or_object_type r = t
        then r\<lparr>or_payload := p, or_updated_at_ms := now\<rparr> else r) (db_objects d))
      = map (\<lambda>r. (or_object_type r, or_name r)) (db_objects d)" by auto
  ultimately show ?thesis by (auto simp: db_put_def objects_ok_def simp del: map_map)
qed

lemma objects_ok_delete: "objects_ok (db_objects d) \<Longrightarrow> objects_ok (db_objects (snd (delete_rows P now d)))"
  by (simp add: delete_rows_def objects_ok_def distinct_map_filter)

lemma policies_ok_revision:
  "policies_ok (db_policies d) \<Longrightarrow> policies_ok (db_policies (snd (db_put_policy_revision i sb v p h now d)))"
  by (auto simp: db_put_policy_revision_def policies_ok_def)

lemma policies_ok_map:
  assumes "policies_ok rows" "\<And>r. P r \<Longrightarrow> po_id (f r) = po_id r \<and> po_sandbox_id (f r) = po_sandbox_id r \<and> po_version (f r) = po_version r"
  shows "policies_ok (map (\<lambda>r. if P r then f r else r) rows)"
proof -
  have "map po_id (map (\<lambda>r. if P r then f r else r) rows) = map po_id rows"
    "map (\<lambda>r. (po_sandbox_id r, po_version r)) (map (\<lambda>r. if P r then f r else r) rows) = map (\<lambda>r. (po_sandbox_id r, po_version r)) rows"
    using assms(2) by auto
  with assms(1) show ?thesis unfolding policies_ok_def by metis
qed

lemma chunks_ok_put: "chunks_ok (db_chunks d) \<Longrightarrow> chunks_ok (db_chunks (snd (db_put_draft_chunk c now d)))"
proof -
  assume ok: "chunks_ok (db_chunks d)"
  let ?f = "\<lambda>r. if same_endpoint r c then r\<lparr>dc_hit_count := dc_hit_count r + dc_hit_count c, dc_last_seen_ms := dc_last_seen_ms c\<rparr> else r"
  have "map dc_id (map ?f (db_chunks d)) = map dc_id (db_chunks d)" by auto
  moreover have "same_endpoint (?f r) (?f s) = same_endpoint r s" for r s by (simp add: same_endpoint_def)
  ultimately show ?thesis
    using ok by (auto simp: db_put_draft_chunk_def chunks_ok_def sorted_wrt_map sorted_wrt_append simp del: map_map)
qed

lemma chunks_ok_update:
  assumes "chunks_ok (db_chunks d)" "\<And>r. dc_id (f r) = dc_id r"
  shows "chunks_ok (db_chunks (snd (update_chunks P f now d)))"
proof -
  have "map dc_id (map (\<lambda>r. if P r then f r else r) (db_chunks d)) = map dc_id (db_chunks d)"
    using assms(2) by auto
  with assms(1) show ?thesis by (auto simp: update_chunks_def chunks_ok_def Let_def simp del: map_map)
qed

lemma chunks_ok_delete: "chunks_ok rows \<Longrightarrow> chunks_ok (filter P rows)"
  by (simp add: chunks_ok_def distinct_map_filter sorted_wrt_filter)

text \<open>Each statement writes one table.\<close>

lemmas statement_defs = db_put_def delete_rows_def db_put_policy_revision_def db_update_policy_status_def
  db_supersede_older_policies_def db_put_draft_chunk_def db_update_draft_chunk_status_def db_update_draft_chunk_rule_def
  update_chunks_def db_delete_draft_chunks_def

lemma table_frames [simp]:
  "db_policies (snd (db_put t i n p now d)) = db_policies d" "db_chunks (snd (db_put t i n p now d)) = db_chunks d"
  "db_policies (snd (delete_rows P now d)) = db_policies d" "db_chunks (snd (delete_rows P now d)) = db_chunks d"
  "db_objects (snd (db_put_policy_revision i sb v p h now d)) = db_objects d"
  "db_chunks (snd (db_put_policy_revision i sb v p h now d)) = db_chunks d"
  "db_objects (snd (db_update_policy_status sb v st e l now d)) = db_objects d"
  "db_chunks (snd (db_update_policy_status sb v st e l now d)) = db_chunks d"
  "db_objects (snd (db_supersede_older_policies sb v now d)) = db_objects d"
  "db_chunks (snd (db_supersede_older_policies sb v now d)) = db_chunks d"
  "db_objects (snd (db_put_draft_chunk c now d)) = db_objects d"
  "db_policies (snd (db_put_draft_chunk c now d)) = db_policies d"
  "db_objects (snd (update_chunks Q f now d)) = db_objects d" "db_policies (snd (update_chunks Q f now d)) = db_policies d"
  "db_objects (snd (db_delete_draft_chunks sb st now d)) = db_objects d"
  "db_policies (snd (db_delete_draft_chunks sb st now d)) = db_policies d"
  by (simp_all add: statement_defs Let_def)

lemma db_step_ok: "db_step d d' \<Longrightarrow> db_ok d \<Longrightarrow> db_ok d'"
proof (induction rule: db_step.induct)
  case (status d sb v st e l now)
  then show ?case
    unfolding db_ok_def table_frames
    by (auto simp: db_update_policy_status_def Let_def intro: policies_ok_map)
next
  case (supersede d sb v now)
  then show ?case
    unfolding db_ok_def table_frames
    by (auto simp: db_supersede_older_policies_def Let_def intro: policies_ok_map)
next
  case (chunk_delete d sb st now)
  then show ?case
    unfolding db_ok_def table_frames by (auto simp: db_delete_draft_chunks_def Let_def intro: chunks_ok_delete)
qed (auto simp: db_ok_def objects_ok_put objects_ok_delete policies_ok_revision chunks_ok_put
    db_update_draft_chunk_status_def db_update_draft_chunk_rule_def intro: chunks_ok_update)

section \<open>History\<close>

text \<open>What a revision is for its sandbox: its number, policy and hash, but not its status.\<close>

definition revision_at :: "db \<Rightarrow> bytes \<Rightarrow> int \<Rightarrow> (bytes \<times> bytes) option" where
  "revision_at d sb v =
     map_option (\<lambda>r. (po_policy_payload r, po_policy_hash r))
       (find (\<lambda>r. po_sandbox_id r = sb \<and> po_version r = v) (db_policies d))"

lemma find_map_if:
  assumes "\<And>r. Q (if P r then f r else r) = Q r" "\<And>r. P r \<Longrightarrow> Q r \<Longrightarrow> g (f r) = g r"
  shows "map_option g (find Q (map (\<lambda>r. if P r then f r else r) rows)) = map_option g (find Q rows)"
  using assms(2) by (induction rows) (auto simp: assms(1))

lemma find_append: "find P (xs @ ys) = (case find P xs of None \<Rightarrow> find P ys | Some x \<Rightarrow> Some x)"
  by (induction xs) auto

lemma revision_at_status [simp]:
  "revision_at (snd (db_update_policy_status sb v st e l now d)) = revision_at d"
  "revision_at (snd (db_supersede_older_policies sb v now d)) = revision_at d"
  unfolding revision_at_def db_update_policy_status_def db_supersede_older_policies_def Let_def
  by (intro ext; simp; rule find_map_if; auto)+

lemma revision_at_frames [simp]:
  "revision_at (snd (db_put t i n p now d)) = revision_at d" "revision_at (snd (delete_rows P now d)) = revision_at d"
  "revision_at (snd (db_put_draft_chunk c now d)) = revision_at d"
  "revision_at (snd (update_chunks Q f now d)) = revision_at d"
  "revision_at (snd (db_delete_draft_chunks sb st now d)) = revision_at d"
  by (simp_all add: revision_at_def fun_eq_iff)

lemma revision_at_None: "revision_at d sb v = None \<longleftrightarrow> (\<forall>r\<in>set (db_policies d). \<not> (po_sandbox_id r = sb \<and> po_version r = v))"
  by (auto simp: revision_at_def find_None_iff)

lemma put_revision_cases:
  "fst (db_put_policy_revision i sb v p h now d) = Inr () \<and> revision_at d sb v = None
     \<and> revision_at (snd (db_put_policy_revision i sb v p h now d)) = (\<lambda>s u. if s = sb \<and> u = v then Some (p, h) else revision_at d s u)
   \<or> (\<exists>e. fst (db_put_policy_revision i sb v p h now d) = Inl e) \<and> snd (db_put_policy_revision i sb v p h now d) = d"
proof (cases "(\<exists>r\<in>set (db_policies d). po_id r = i) \<or> revision_at d sb v \<noteq> None")
  case True
  then show ?thesis unfolding revision_at_None by (auto simp: db_put_policy_revision_def)
next
  case False
  then have n: "revision_at d sb v = None" "find (\<lambda>r. po_sandbox_id r = sb \<and> po_version r = v) (db_policies d) = None"
    by (auto simp: revision_at_def)
  have "fst (db_put_policy_revision i sb v p h now d) = Inr ()"
    using False unfolding revision_at_None by (auto simp: db_put_policy_revision_def)
  moreover have "revision_at (snd (db_put_policy_revision i sb v p h now d)) s u =
      (if s = sb \<and> u = v then Some (p, h) else revision_at d s u)" for s u
    using False n(2) unfolding revision_at_None
    by (auto simp: db_put_policy_revision_def revision_at_def find_append split: option.splits)
  ultimately show ?thesis using n(1) by (simp add: fun_eq_iff)
qed

lemma history_ok_iff: "history_ok d \<longleftrightarrow>
    (\<forall>sb v. revision_at d sb v \<noteq> None \<longrightarrow> 1 \<le> v \<and> (1 < v \<longrightarrow> revision_at d sb (v - 1) \<noteq> None))"
  unfolding history_ok_def revision_at_None by blast

text \<open>No statement changes or removes a revision, and the numbering stays without gaps.\<close>

lemma db_step_history:
  assumes "db_step d d'"
  shows "revision_at d sb v = Some x \<Longrightarrow> revision_at d' sb v = Some x" "history_ok d \<Longrightarrow> history_ok d'"
proof -
  have "(revision_at d sb v = Some x \<longrightarrow> revision_at d' sb v = Some x) \<and> (history_ok d \<longrightarrow> history_ok d')"
    using assms
  proof cases
    case (revision v' sb' i p h now)
    then have prev: "v' = 1 \<or> 1 < v' \<and> revision_at d sb' (v' - 1) \<noteq> None" unfolding revision_at_None by blast
    show ?thesis
    proof (cases rule: disjE [OF put_revision_cases [of i sb' v' p h now d]])
      case 1
      have "history_ok d'" if "history_ok d"
        unfolding history_ok_iff
      proof (intro allI impI)
        fix s u assume "revision_at d' s u \<noteq> None"
        with 1 revision(1) that prev show "1 \<le> u \<and> (1 < u \<longrightarrow> revision_at d' s (u - 1) \<noteq> None)"
          unfolding history_ok_iff by (cases "s = sb' \<and> u = v'") (auto split: if_splits)
      qed
      with 1 revision(1) show ?thesis by auto
    qed (use revision(1) in auto)
  qed (auto simp: history_ok_iff db_update_draft_chunk_status_def db_update_draft_chunk_rule_def)
  then show "revision_at d sb v = Some x \<Longrightarrow> revision_at d' sb v = Some x" "history_ok d \<Longrightarrow> history_ok d'" by auto
qed

section \<open>Optimistic numbering\<close>

text \<open>
  What a handler relies on that reads the latest revision, computes the next one and adds it under the next number while
  others do the same: revisions are numbered without gaps, stay as they are, and a number is given once.
\<close>

locale revision_log =
  fixes inv :: "'d \<Rightarrow> bool"
    and rev_at :: "'d \<Rightarrow> int \<Rightarrow> 'p option"
    and latest :: "'d \<Rightarrow> (int \<times> 'p) option"
    and evolves :: "'d \<Rightarrow> 'd \<Rightarrow> bool"
  assumes latest_None: "inv d \<Longrightarrow> latest d = None \<longleftrightarrow> (\<forall>v. rev_at d v = None)"
    and latest_Some: "inv d \<Longrightarrow> latest d = Some (n, p) \<Longrightarrow> rev_at d n = Some p \<and> (\<forall>v. rev_at d v \<noteq> None \<longrightarrow> v \<le> n)"
    and gapless: "inv d \<Longrightarrow> rev_at d v \<noteq> None \<Longrightarrow> 1 \<le> v \<and> (1 < v \<longrightarrow> rev_at d (v - 1) \<noteq> None)"
    and evolves_inv: "inv d \<Longrightarrow> evolves d d' \<Longrightarrow> inv d'"
    and evolves_keeps: "inv d \<Longrightarrow> evolves d d' \<Longrightarrow> rev_at d v = Some p \<Longrightarrow> rev_at d' v = Some p"
begin

lemma below:
  assumes "inv d" "rev_at d n \<noteq> None" "1 \<le> v" "v \<le> n"
  shows "rev_at d v \<noteq> None"
proof -
  have "rev_at d (n - int k) \<noteq> None" if "1 \<le> n - int k" for k
    using that
  proof (induction k)
    case (Suc k)
    then have "rev_at d (n - int k) \<noteq> None" by simp
    with gapless [OF assms(1) this] Suc.prems show ?case by (simp add: algebra_simps)
  qed (simp add: assms(2))
  from this [of "nat (n - v)"] assms(3,4) show ?thesis by simp
qed

lemma numbers: "inv d \<Longrightarrow> latest d = Some (n, p) \<Longrightarrow> {v. rev_at d v \<noteq> None} = {1..n}"
proof -
  assume inv: "inv d" and l: "latest d = Some (n, p)"
  note top = latest_Some [OF inv l]
  show ?thesis
  proof (intro set_eqI iffI)
    fix v assume "v \<in> {v. rev_at d v \<noteq> None}"
    then show "v \<in> {1..n}" using top gapless [OF inv, of v] by auto
  next
    fix v assume "v \<in> {1..n}"
    then show "v \<in> {v. rev_at d v \<noteq> None}" using top below [OF inv, of n v] by auto
  qed
qed

text \<open>When the next number is still free, nobody came in between.\<close>

lemma free_number:
  assumes "inv d" "evolves d d'" "rev_at d' (case latest d of None \<Rightarrow> 1 | Some (n, _) \<Rightarrow> n + 1) = None"
  shows "latest d' = latest d"
proof -
  note inv' = evolves_inv [OF assms(1,2)]
  define n where "n = (case latest d of None \<Rightarrow> 0 | Some (n, _) \<Rightarrow> n)"
  have n: "0 \<le> n" "rev_at d' (n + 1) = None"
  proof -
    show "rev_at d' (n + 1) = None" using assms(3) by (auto simp: n_def split: option.splits)
    show "0 \<le> n"
    proof (cases "latest d")
      case (Some np)
      then have "rev_at d (fst np) \<noteq> None" using latest_Some [OF assms(1), of "fst np" "snd np"] by simp
      from gapless [OF assms(1) this] Some show ?thesis by (cases np) (simp add: n_def)
    qed (simp add: n_def)
  qed
  have le: "v \<le> n" if "rev_at d' v \<noteq> None" for v
    using below [OF inv' that, of "n + 1"] n by force
  show ?thesis
  proof (cases "latest d")
    case None
    then have "rev_at d' v = None" for v using le [of v] gapless [OF inv', of v] by (force simp: n_def)
    then show ?thesis using latest_None [OF inv'] None by simp
  next
    case (Some np)
    obtain m p where np: "np = (m, p)" by force
    with Some have m: "rev_at d m = Some p" "n = m" using latest_Some [OF assms(1)] by (auto simp: n_def)
    then have m': "rev_at d' m = Some p" using evolves_keeps [OF assms(1,2)] by blast
    obtain m2 q where l: "latest d' = Some (m2, q)" using latest_None [OF inv'] m' by (cases "latest d'") auto
    have "m \<le> m2" "rev_at d' m2 = Some q" using latest_Some [OF inv' l] m' by auto
    then have "m2 = m" using le [of m2] m(2) by auto
    then show ?thesis using l m' \<open>rev_at d' m2 = Some q\<close> Some np by simp
  qed
qed

end

text \<open>The tables keep that contract for every sandbox, with any statements in between.\<close>

definition latest_revision :: "bytes \<Rightarrow> db \<Rightarrow> (int \<times> bytes \<times> bytes) option" where
  "latest_revision sb d =
     map_option (\<lambda>r. (po_version r, po_policy_payload r, po_policy_hash r)) (first_row (revisions sb d))"

lemma revisions_set: "set (revisions sb d) = {r \<in> set (db_policies d). po_sandbox_id r = sb}"
  by (auto simp: revisions_def)

lemma first_revision:
  assumes "first_row (revisions sb d) = Some r"
  shows "r \<in> set (db_policies d)" "po_sandbox_id r = sb"
    "r' \<in> set (db_policies d) \<Longrightarrow> po_sandbox_id r' = sb \<Longrightarrow> po_version r' \<le> po_version r"
proof -
  obtain rs where rs: "revisions sb d = r # rs" using assms by (auto simp: first_row_def split: list.splits)
  then show r: "r \<in> set (db_policies d)" "po_sandbox_id r = sb" using revisions_set [of sb d] by auto
  have "sorted (map po_version (rev (revisions sb d)))" by (simp add: revisions_def)
  then have "\<forall>x\<in>set rs. po_version x \<le> po_version r" unfolding rs by (auto simp: sorted_append)
  then show "r' \<in> set (db_policies d) \<Longrightarrow> po_sandbox_id r' = sb \<Longrightarrow> po_version r' \<le> po_version r"
    using revisions_set [of sb d] unfolding rs by auto
qed

lemma revision_at_row:
  assumes "policies_ok (db_policies d)" "r \<in> set (db_policies d)"
  shows "revision_at d (po_sandbox_id r) (po_version r) = Some (po_policy_payload r, po_policy_hash r)"
proof -
  obtain r' where f: "find (\<lambda>x. po_sandbox_id x = po_sandbox_id r \<and> po_version x = po_version r) (db_policies d) = Some r'"
    using assms(2) by (cases "find (\<lambda>x. po_sandbox_id x = po_sandbox_id r \<and> po_version x = po_version r) (db_policies d)")
      (auto simp: find_None_iff)
  then have "r' \<in> set (db_policies d)" "(po_sandbox_id r', po_version r') = (po_sandbox_id r, po_version r)"
    by (auto dest: find_Some_in)
  then have "r' = r" using assms unfolding policies_ok_def distinct_map inj_on_def by blast
  then show ?thesis using f by (simp add: revision_at_def)
qed

interpretation revs: revision_log "\<lambda>d. db_ok d \<and> history_ok d" "\<lambda>d. revision_at d sb" "latest_revision sb" "db_step\<^sup>*\<^sup>*"
  for sb
proof unfold_locales
  fix d show "db_ok d \<and> history_ok d \<Longrightarrow> latest_revision sb d = None \<longleftrightarrow> (\<forall>v. revision_at d sb v = None)"
    using revisions_set [of sb d]
    by (cases "revisions sb d") (fastforce simp: latest_revision_def first_row_def revision_at_None)+
next
  fix d n p assume ok: "db_ok d \<and> history_ok d" and "latest_revision sb d = Some (n, p)"
  then obtain r where r: "first_row (revisions sb d) = Some r" "n = po_version r" "p = (po_policy_payload r, po_policy_hash r)"
    by (auto simp: latest_revision_def)
  show "revision_at d sb n = Some p \<and> (\<forall>v. revision_at d sb v \<noteq> None \<longrightarrow> v \<le> n)"
    using revision_at_row [of d r] first_revision [OF r(1)] ok r(2,3) unfolding revision_at_None db_ok_def by auto
next
  fix d v show "db_ok d \<and> history_ok d \<Longrightarrow> revision_at d sb v \<noteq> None \<Longrightarrow> 1 \<le> v \<and> (1 < v \<longrightarrow> revision_at d sb (v - 1) \<noteq> None)"
    unfolding history_ok_iff by blast
next
  fix d d' assume "db_ok d \<and> history_ok d" "db_step\<^sup>*\<^sup>* d d'"
  from this(2,1) show "db_ok d' \<and> history_ok d'"
    by (induction rule: rtranclp_induct) (auto intro: db_step_ok db_step_history(2))
next
  fix d d' v p assume "db_step\<^sup>*\<^sup>* d d'" "revision_at d sb v = Some p"
  then show "revision_at d' sb v = Some p" by (induction rule: rtranclp_induct) (auto intro: db_step_history(1))
qed

end
