(* ===== verification/Gateway_Store.thy ===== *)
theory Gateway_Store
  imports Sandbox_Policy Gateway_Db
begin

text \<open>
  The gateway around its database: stored messages (\<open>proto/datamodel.proto\<close>), gRPC status values, and handlers, which run
  statements one after the other while other requests are served in between. A handler's world holds the tables, the
  clock, the source of fresh identifiers, the notifications sent so far, and a script of what happens before each
  statement: what other tasks did to the tables, the time, and whether the database fails. Serialisation of messages is
  a parameter.
\<close>

section \<open>Messages\<close>

record sandbox_template =
  st_image :: bytes
  st_runtime_class_name :: bytes
  st_agent_socket :: bytes
  st_labels :: "(bytes \<times> bytes) list"
  st_annotations :: "(bytes \<times> bytes) list"
  st_environment :: "(bytes \<times> bytes) list"
  st_resources :: "bytes option"
  st_volume_claim_templates :: "bytes option"

record sandbox_spec =
  ss_log_level :: bytes
  ss_environment :: "(bytes \<times> bytes) list"
  ss_template :: "sandbox_template option"
  ss_policy :: "sandbox_policy option"
  ss_providers :: "bytes list"
  ss_gpu :: bool

text \<open>The status is only stored and handed back; it is kept serialised.\<close>

record sandbox =
  sx_id :: bytes
  sx_name :: bytes
  sx_namespace :: bytes
  sx_spec :: "sandbox_spec option"
  sx_status :: "bytes option"
  sx_phase :: nat
  sx_created_at_ms :: int
  sx_current_policy_version :: nat

record provider =
  pv_id :: bytes
  pv_name :: bytes
  pv_type :: bytes
  pv_credentials :: "(bytes \<times> bytes) list"
  pv_config :: "(bytes \<times> bytes) list"

datatype stored_setting_value = SString bytes | SBool bool | SInt int | SBytes bytes

record stored_settings =
  sg_revision :: nat
  sg_settings :: "(bytes \<times> stored_setting_value) list"

text \<open>Serialisation: protobuf for messages, JSON for settings, hexadecimal for bytes in settings, and the digest.\<close>

record codec =
  cc_policy :: "sandbox_policy \<Rightarrow> bytes"
  cc_policy_of :: "bytes \<Rightarrow> (bytes, sandbox_policy) result"
  cc_rule :: "network_policy_rule \<Rightarrow> bytes"
  cc_rule_of :: "bytes \<Rightarrow> (bytes, network_policy_rule) result"
  cc_sandbox :: "sandbox \<Rightarrow> bytes"
  cc_sandbox_of :: "bytes \<Rightarrow> (bytes, sandbox) result"
  cc_provider :: "provider \<Rightarrow> bytes"
  cc_provider_of :: "bytes \<Rightarrow> (bytes, provider) result"
  cc_settings :: "stored_settings \<Rightarrow> bytes"
  cc_settings_of :: "bytes \<Rightarrow> (bytes, stored_settings) result"
  cc_hex :: "bytes \<Rightarrow> bytes"
  cc_hex_of :: "bytes \<Rightarrow> (bytes, bytes) result"
  cc_filesystem :: "filesystem_policy \<Rightarrow> bytes"
  cc_landlock :: "landlock_policy \<Rightarrow> bytes"
  cc_process :: "process_policy \<Rightarrow> bytes"
  cc_sha256 :: "bytes \<Rightarrow> bytes"

section \<open>Handlers\<close>

text \<open>The codes the handlers use; a panic ends the request's task.\<close>

datatype status_code = InvalidArgument | NotFound | AlreadyExists | FailedPrecondition | Aborted | PermissionDenied | ResourceExhausted | Cancelled | InternalStatus | TaskPanicked

type_synonym status = "status_code \<times> bytes"

text \<open>What happens before a statement runs.\<close>

record turn =
  tn_others :: "db \<Rightarrow> db"
  tn_now :: int
  tn_fault :: "bytes option"

record world =
  w_db :: db
  w_now :: int
  w_script :: "turn list"
  w_uuid :: "nat \<Rightarrow> bytes"
  w_notified :: "bytes list"

type_synonym 'a call = "world \<Rightarrow> (bytes, 'a) result \<times> world"
type_synonym 'a handler = "world \<Rightarrow> (status, 'a) result \<times> world"

definition take_turn :: "world \<Rightarrow> bytes option \<times> world" where
  "take_turn w =
     (case w_script w of
        [] \<Rightarrow> (None, w)
      | t # ts \<Rightarrow> (tn_fault t, w\<lparr>w_db := tn_others t (w_db w), w_now := tn_now t, w_script := ts\<rparr>))"

definition execute :: "'a statement \<Rightarrow> 'a call" where
  "execute s w =
     (case take_turn w of
        (Some fault, w1) \<Rightarrow> (Inl fault, w1)
      | (None, w1) \<Rightarrow> (case s (w_now w1) (w_db w1) of (r, d) \<Rightarrow> (r, w1\<lparr>w_db := d\<rparr>)))"

definition hbind :: "'a handler \<Rightarrow> ('a \<Rightarrow> 'b handler) \<Rightarrow> 'b handler" where
  "hbind m f w = (case m w of (Inl e, w') \<Rightarrow> (Inl e, w') | (Inr x, w') \<Rightarrow> f x w')"

definition hreturn :: "'a \<Rightarrow> 'a handler" where
  "hreturn x w = (Inr x, w)"

definition hfail :: "status_code \<Rightarrow> bytes \<Rightarrow> 'a handler" where
  "hfail code msg w = (Inl (code, msg), w)"

text \<open>\<open>map_err(|e| Status::internal(format!("{what}: {e}")))?\<close>, \<open>ok_or_else\<close> and a check that may fail.\<close>

definition or_internal :: "bytes \<Rightarrow> 'a call \<Rightarrow> 'a handler" where
  "or_internal what m w = (case m w of (r, w') \<Rightarrow> (result_map_err (\<lambda>e. (InternalStatus, what @ '': '' @ e)) r, w'))"

definition hlift :: "(status, 'a) result \<Rightarrow> 'a handler" where
  "hlift r w = (r, w)"

text \<open>A call whose result is thrown away (\<open>let _ = ...\<close>).\<close>

definition ignoring :: "'a call \<Rightarrow> unit handler" where
  "ignoring m w = (Inr (), snd (m w))"

definition attempt :: "'a call \<Rightarrow> (bytes, 'a) result handler" where
  "attempt m w = (case m w of (r, w') \<Rightarrow> (Inr r, w'))"

definition new_uuid :: "bytes handler" where
  "new_uuid w = (Inr (w_uuid w 0), w\<lparr>w_uuid := (\<lambda>n. w_uuid w (Suc n))\<rparr>)"

definition current_time_ms :: "int handler" where
  "current_time_ms w = (Inr (w_now w), w)"

definition notify :: "bytes \<Rightarrow> unit handler" where
  "notify sandbox_id w = (Inr (), w\<lparr>w_notified := w_notified w @ [sandbox_id]\<rparr>)"

fun hfold :: "('a \<Rightarrow> 's \<Rightarrow> 's handler) \<Rightarrow> 'a list \<Rightarrow> 's \<Rightarrow> 's handler" where
  "hfold f [] s = hreturn s"
| "hfold f (x # xs) s = hbind (f x s) (hfold f xs)"

section \<open>Stored messages\<close>

definition decoded :: "(bytes, 'a) result \<Rightarrow> (bytes, 'a option) result" where
  "decoded r = (case r of Inl e \<Rightarrow> Inl (''execution error: protobuf decode error: '' @ e) | Inr x \<Rightarrow> Inr (Some x))"

text \<open>\<open>get_message\<close>, \<open>get_message_by_name\<close> and \<open>put_message\<close>, with the type's decoder, name and fields.\<close>

definition message_of :: "(bytes \<Rightarrow> (bytes, 'a) result) \<Rightarrow> object_record option call \<Rightarrow> 'a option call" where
  "message_of dec m w =
     (case m w of
        (Inl e, w') \<Rightarrow> (Inl e, w')
      | (Inr None, w') \<Rightarrow> (Inr None, w')
      | (Inr (Some r), w') \<Rightarrow> (decoded (dec (or_payload r)), w'))"

definition get_sandbox_message :: "codec \<Rightarrow> bytes \<Rightarrow> sandbox option call" where
  "get_sandbox_message C obj_id = message_of (cc_sandbox_of C) (execute (db_get ''sandbox'' obj_id))"

definition get_sandbox_by_name :: "codec \<Rightarrow> bytes \<Rightarrow> sandbox option call" where
  "get_sandbox_by_name C name = message_of (cc_sandbox_of C) (execute (db_get_by_name ''sandbox'' name))"

definition put_sandbox :: "codec \<Rightarrow> sandbox \<Rightarrow> unit call" where
  "put_sandbox C s = execute (db_put ''sandbox'' (sx_id s) (sx_name s) (cc_sandbox C s))"

definition get_provider_by_name :: "codec \<Rightarrow> bytes \<Rightarrow> provider option call" where
  "get_provider_by_name C name = message_of (cc_provider_of C) (execute (db_get_by_name ''provider'' name))"

definition put_provider :: "codec \<Rightarrow> provider \<Rightarrow> unit call" where
  "put_provider C p = execute (db_put ''provider'' (pv_id p) (pv_name p) (cc_provider C p))"

text \<open>The handlers find their sandbox by name.\<close>

definition resolve_sandbox :: "codec \<Rightarrow> bytes \<Rightarrow> sandbox handler" where
  "resolve_sandbox C name =
     hbind (or_internal ''fetch sandbox failed'' (get_sandbox_by_name C name)) (\<lambda>found.
       hlift (ok_or (NotFound, ''sandbox not found'') found))"

definition require_name :: "bytes \<Rightarrow> bytes \<Rightarrow> unit handler" where
  "require_name field v = (if v = [] then hfail InvalidArgument (field @ '' is required'') else hreturn ())"

section \<open>Running handlers\<close>

text \<open>A handler that returns has had every part return.\<close>

lemma hbind_Inr [simp]:
  "hbind m f w = (Inr y, w'') \<longleftrightarrow> (\<exists>x w'. m w = (Inr x, w') \<and> f x w' = (Inr y, w''))"
  by (auto simp: hbind_def split: prod.splits sum.splits)

lemma handler_Inr [simp]:
  "hreturn x w = (Inr y, w') \<longleftrightarrow> y = x \<and> w' = w" "\<not> hfail code msg w = (Inr y, w')"
  "hlift r w = (Inr y, w') \<longleftrightarrow> r = Inr y \<and> w' = w"
  "or_internal what c w = (Inr y, w') \<longleftrightarrow> c w = (Inr y, w')"
  "ignoring c0 w = (Inr (), w') \<longleftrightarrow> w' = snd (c0 w)"
  "attempt c1 w = (Inr res, w') \<longleftrightarrow> c1 w = (res, w')"
  "new_uuid w = (Inr u, w') \<longleftrightarrow> u = w_uuid w 0 \<and> w' = w\<lparr>w_uuid := (\<lambda>n. w_uuid w (Suc n))\<rparr>"
  "current_time_ms w = (Inr t, w') \<longleftrightarrow> t = w_now w \<and> w' = w"
  "notify sb w = (Inr (), w') \<longleftrightarrow> w' = w\<lparr>w_notified := w_notified w @ [sb]\<rparr>"
  by (auto simp: hreturn_def hfail_def hlift_def or_internal_def ignoring_def attempt_def new_uuid_def current_time_ms_def
      notify_def split: prod.splits)

text \<open>Running in a world that does what it is told: nobody interferes and nothing fails.\<close>

definition quiet :: "world \<Rightarrow> bool" where
  "quiet w \<longleftrightarrow> w_script w = []"

lemma run_quiet: "quiet w \<Longrightarrow> execute s w = (case s (w_now w) (w_db w) of (r, d) \<Rightarrow> (r, w\<lparr>w_db := d\<rparr>))"
  by (simp add: execute_def take_turn_def quiet_def)

lemma quiet_update [simp]:
  "quiet (w\<lparr>w_db := d\<rparr>) = quiet w" "quiet (w\<lparr>w_uuid := u\<rparr>) = quiet w" "quiet (w\<lparr>w_notified := n\<rparr>) = quiet w"
  by (simp_all add: quiet_def)

text \<open>Other tasks keep to the gateway's statements.\<close>

definition fair :: "world \<Rightarrow> bool" where
  "fair w \<longleftrightarrow> (\<forall>t\<in>set (w_script w). \<forall>d. db_step\<^sup>*\<^sup>* d (tn_others t d))"

lemma fair_update [simp]:
  "fair (w\<lparr>w_db := d\<rparr>) = fair w" "fair (w\<lparr>w_uuid := u\<rparr>) = fair w" "fair (w\<lparr>w_notified := n\<rparr>) = fair w"
  by (simp_all add: fair_def)

text \<open>A statement runs on tables the others may have changed; a fault leaves them as they are.\<close>

lemma run_fair:
  assumes "execute s w = (r, w')" "fair w"
  shows "fair w'" "\<exists>d now. db_step\<^sup>*\<^sup>* (w_db w) d \<and> (s now d = (r, w_db w') \<or> (\<exists>e. r = Inl e) \<and> w_db w' = d)"
    "w_uuid w' = w_uuid w" "w_notified w' = w_notified w"
proof -
  have t: "db_step\<^sup>*\<^sup>* (w_db w) (w_db (snd (take_turn w)))" "fair (snd (take_turn w))"
    "w_uuid (snd (take_turn w)) = w_uuid w" "w_notified (snd (take_turn w)) = w_notified w"
    using assms(2) by (auto simp: take_turn_def fair_def split: list.splits)
  obtain f w1 where w1: "take_turn w = (f, w1)" by force
  show "fair w'" "\<exists>d now. db_step\<^sup>*\<^sup>* (w_db w) d \<and> (s now d = (r, w_db w') \<or> (\<exists>e. r = Inl e) \<and> w_db w' = d)"
    "w_uuid w' = w_uuid w" "w_notified w' = w_notified w"
    using assms(1) t w1 by (auto simp: execute_def split: option.splits prod.splits)
qed

section \<open>Lawful handlers\<close>

text \<open>
  A handler is lawful from states in which \<open>P\<close> holds when all it does to the tables, with what fair others do in between, are
  statements the gateway may make. \<open>P\<close> is something no statement undoes.
\<close>

definition stable :: "(db \<Rightarrow> bool) \<Rightarrow> bool" where
  "stable P \<longleftrightarrow> (\<forall>d d'. P d \<longrightarrow> db_step d d' \<longrightarrow> P d')"

definition lawful :: "(db \<Rightarrow> bool) \<Rightarrow> (world \<Rightarrow> ('e, 'a) result \<times> world) \<Rightarrow> bool" where
  "lawful P m \<longleftrightarrow> (\<forall>w r w'. m w = (r, w') \<longrightarrow> fair w \<longrightarrow> P (w_db w) \<longrightarrow> db_step\<^sup>*\<^sup>* (w_db w) (w_db w') \<and> fair w')"

named_theorems lawful_intros \<open>rules that show handlers lawful\<close>

lemma stable_steps: "stable P \<Longrightarrow> db_step\<^sup>*\<^sup>* d d' \<Longrightarrow> P d \<Longrightarrow> P d'"
  by (rotate_tac 1, induction rule: rtranclp_induct) (auto simp: stable_def)

lemma stable_history [lawful_intros]: "stable history_ok"
  by (auto simp: stable_def intro: db_step_history(2))

lemma stable_conj [lawful_intros]: "stable P \<Longrightarrow> stable Q \<Longrightarrow> stable (\<lambda>d. P d \<and> Q d)"
  by (auto simp: stable_def)

lemma lawfulI: "(\<And>w r w'. m w = (r, w') \<Longrightarrow> fair w \<Longrightarrow> P (w_db w) \<Longrightarrow> db_step\<^sup>*\<^sup>* (w_db w) (w_db w') \<and> fair w') \<Longrightarrow> lawful P m"
  by (auto simp: lawful_def)

lemma lawful_weaken: "lawful Q m \<Longrightarrow> (\<And>d. P d \<Longrightarrow> Q d) \<Longrightarrow> lawful P m"
  by (auto simp: lawful_def)

lemma lawful_bind [lawful_intros]:
  assumes "stable P" "lawful P m" "\<And>x. lawful P (f x)"
  shows "lawful P (hbind m f)"
proof (rule lawfulI)
  fix w r w' assume r: "hbind m f w = (r, w')" and w: "fair w" "P (w_db w)"
  obtain x w1 where x: "m w = (x, w1)" by force
  have s: "db_step\<^sup>*\<^sup>* (w_db w) (w_db w1)" "fair w1" using assms(2) x w by (auto simp: lawful_def)
  have "P (w_db w1)" by (rule stable_steps [OF assms(1) s(1) w(2)])
  then show "db_step\<^sup>*\<^sup>* (w_db w) (w_db w') \<and> fair w'"
    using r x s assms(3) by (cases x) (auto simp: hbind_def lawful_def intro: rtranclp_trans)
qed

lemma lawful_simple [lawful_intros]:
  "lawful P (hreturn x)" "lawful P (hfail c msg)" "lawful P (hlift r)" "lawful P new_uuid" "lawful P current_time_ms"
  "lawful P (notify sb)"
  by (auto simp: lawful_def hreturn_def hfail_def hlift_def new_uuid_def current_time_ms_def notify_def)

lemma lawful_call [lawful_intros]:
  "lawful P c \<Longrightarrow> lawful P (or_internal what c)" "lawful P c \<Longrightarrow> lawful P (ignoring c)"
  "lawful P c \<Longrightarrow> lawful P (attempt c)" "lawful P c' \<Longrightarrow> lawful P (message_of dec c')"
proof -
  show "lawful P c \<Longrightarrow> lawful P (or_internal what c)" "lawful P c \<Longrightarrow> lawful P (attempt c)"
    by (fastforce simp: lawful_def or_internal_def attempt_def split: prod.splits)+
  show "lawful P c \<Longrightarrow> lawful P (ignoring c)"
    unfolding lawful_def ignoring_def by (metis prod.collapse prod.inject)
  show "lawful P c' \<Longrightarrow> lawful P (message_of dec c')"
    by (fastforce simp: lawful_def message_of_def split: prod.splits sum.splits option.splits)
qed

lemma lawful_run:
  assumes "\<And>now d. P d \<Longrightarrow> db_step\<^sup>*\<^sup>* d (snd (s now d))" "stable P"
  shows "lawful P (execute s)"
proof (rule lawfulI)
  fix w r w' assume r: "execute s w = (r, w')" and w: "fair w" "P (w_db w)"
  from run_fair(2) [OF r w(1)] obtain d now where d: "db_step\<^sup>*\<^sup>* (w_db w) d"
    "s now d = (r, w_db w') \<or> (\<exists>e. r = Inl e) \<and> w_db w' = d" by blast
  have "P d" by (rule stable_steps [OF assms(2) d(1) w(2)])
  with assms(1) [of d now] d run_fair(1) [OF r w(1)] show "db_step\<^sup>*\<^sup>* (w_db w) (w_db w') \<and> fair w'"
    by (auto intro: rtranclp_trans)
qed

text \<open>A statement that only reads, and one that is a step.\<close>

lemma lawful_read:
  assumes "stable P" "\<And>now d. snd (s now d) = d"
  shows "lawful P (execute s)"
  by (rule lawful_run [OF _ assms(1)]) (simp add: assms(2))

lemma lawful_write:
  assumes "stable P" "\<And>now d. db_step d (snd (s now d))"
  shows "lawful P (execute s)"
  by (rule lawful_run [OF _ assms(1)]) (blast intro: assms(2))

lemma lawful_reads [lawful_intros]:
  assumes "stable P"
  shows "lawful P (execute (db_get t i))" "lawful P (execute (db_get_by_name t n))" "lawful P (execute (db_list t l off))"
    "lawful P (execute (db_get_latest_policy sb))" "lawful P (execute (db_get_policy_by_version sb v))"
    "lawful P (execute (db_get_latest_loaded_policy sb))"
    "lawful P (execute (db_list_policies sb l off))" "lawful P (execute (db_get_draft_chunk i))"
    "lawful P (execute (db_list_draft_chunks sb f))" "lawful P (execute (db_get_draft_version sb))"
  by (rule lawful_read [OF assms], simp add: db_get_def db_get_by_name_def db_list_def db_get_latest_policy_def
        db_get_policy_by_version_def db_list_policies_def db_get_draft_chunk_def db_list_draft_chunks_def
        db_get_draft_version_def db_get_latest_loaded_policy_def Let_def)+

lemma lawful_writes [lawful_intros]:
  assumes "stable P"
  shows "lawful P (execute (db_put t i n p))" "lawful P (execute (db_delete t i))" "lawful P (execute (db_delete_by_name t n))"
    "lawful P (execute (db_update_policy_status sb v st e tm))" "lawful P (execute (db_supersede_older_policies sb v))"
    "lawful P (execute (db_put_draft_chunk c))" "lawful P (execute (db_update_draft_chunk_status i st tm))"
    "lawful P (execute (db_update_draft_chunk_rule i rule))" "lawful P (execute (db_delete_draft_chunks sb st))"
  unfolding db_delete_def db_delete_by_name_def
  by (rule lawful_write [OF assms], rule db_step.intros)+

text \<open>Control structures.\<close>

lemma lawful_control [lawful_intros]:
  "\<lbrakk>b \<Longrightarrow> lawful P m; \<not> b \<Longrightarrow> lawful P m'\<rbrakk> \<Longrightarrow> lawful P (if b then m else m')"
  "\<lbrakk>lawful P m; \<And>x. lawful P (f x)\<rbrakk> \<Longrightarrow> lawful P (case opt of None \<Rightarrow> m | Some x \<Rightarrow> f x)"
  "\<lbrakk>\<And>x. lawful P (g x); \<And>x. lawful P (f' x)\<rbrakk> \<Longrightarrow> lawful P (case s of Inl x \<Rightarrow> g x | Inr x \<Rightarrow> f' x)"
  "\<lbrakk>\<And>x y. lawful P (h x y)\<rbrakk> \<Longrightarrow> lawful P (case p of (x, y) \<Rightarrow> h x y)"
  by (auto split: option.splits sum.splits prod.splits)

lemma lawful_fold [lawful_intros]:
  assumes "stable P" "\<And>x s. lawful P (f x s)"
  shows "lawful P (hfold f xs s)"
  by (induction xs arbitrary: s) (auto intro: lawful_intros assms)

lemma lawful_messages [lawful_intros]:
  assumes "stable P"
  shows "lawful P (get_sandbox_message C i)" "lawful P (get_sandbox_by_name C n)" "lawful P (put_sandbox C sb)"
    "lawful P (get_provider_by_name C n)" "lawful P (put_provider C pv)" "lawful P (resolve_sandbox C n)"
    "lawful P (require_name field v)"
  unfolding get_sandbox_message_def get_sandbox_by_name_def put_sandbox_def get_provider_by_name_def put_provider_def
    resolve_sandbox_def require_name_def
  by (intro lawful_intros assms)+

text \<open>A number that may be given: one, or behind a revision that is there. That stays so.\<close>

definition follows :: "bytes \<Rightarrow> int \<Rightarrow> db \<Rightarrow> bool" where
  "follows sb v d \<longleftrightarrow> v = 1 \<or> 1 < v \<and> revision_at d sb (v - 1) \<noteq> None"

lemma stable_follows [lawful_intros]: "stable (follows sb v)"
  by (auto simp: stable_def follows_def dest: db_step_history(1))

lemma lawful_put_revision [lawful_intros]:
  assumes "stable P" "\<And>d. P d \<Longrightarrow> follows sb v d"
  shows "lawful P (execute (db_put_policy_revision i sb v p h))"
proof (rule lawful_run [OF _ assms(1)])
  fix now d assume "P d"
  then have "v = 1 \<or> (\<exists>r\<in>set (db_policies d). po_sandbox_id r = sb \<and> po_version r = v - 1 \<and> 1 < v)"
    using assms(2) [of d] unfolding follows_def revision_at_None by blast
  then show "db_step\<^sup>*\<^sup>* d (snd (db_put_policy_revision i sb v p h now d))" by (blast intro: db_step.revision)
qed

text \<open>Reading the latest revision gives the next number.\<close>

definition next_version :: "policy_record option \<Rightarrow> int" where
  "next_version latest = (case latest of None \<Rightarrow> 1 | Some r \<Rightarrow> po_version r + 1)"

lemma lawful_latest:
  assumes "stable P" "\<And>d. P d \<Longrightarrow> history_ok d" "\<And>latest. lawful (\<lambda>d. P d \<and> follows sb (next_version latest) d) (f latest)"
  shows "lawful P (hbind (or_internal what (execute (db_get_latest_policy sb))) f)"
proof (rule lawfulI)
  fix w r w' assume r: "hbind (or_internal what (execute (db_get_latest_policy sb))) f w = (r, w')" and w: "fair w" "P (w_db w)"
  obtain x w1 where x: "execute (db_get_latest_policy sb) w = (x, w1)" by force
  note fair1 = run_fair(1) [OF x w(1)]
  from run_fair(2) [OF x w(1)] obtain d now where d: "db_step\<^sup>*\<^sup>* (w_db w) d"
    "db_get_latest_policy sb now d = (x, w_db w1) \<or> (\<exists>e. x = Inl e) \<and> w_db w1 = d" by blast
  have d1: "w_db w1 = d" using d(2) by (auto simp: db_get_latest_policy_def)
  have P1: "P d" by (rule stable_steps [OF assms(1) d(1) w(2)])
  show "db_step\<^sup>*\<^sup>* (w_db w) (w_db w') \<and> fair w'"
  proof (cases x)
    case (Inl e)
    then show ?thesis using r x d(1) d1 fair1 by (simp add: hbind_def or_internal_def)
  next
    case (Inr latest)
    then have l: "latest = first_row (revisions sb d)" using d(2) d1 by (auto simp: db_get_latest_policy_def)
    have "follows sb (next_version latest) d"
    proof (cases latest)
      case (Some rec)
      with l have m: "rec \<in> set (db_policies d)" "po_sandbox_id rec = sb" using first_revision by auto
      then have "1 \<le> po_version rec" using assms(2) [OF P1] by (auto simp: history_ok_def)
      moreover have "revision_at d sb (po_version rec) \<noteq> None" using m unfolding revision_at_None by blast
      ultimately show ?thesis using Some by (simp add: follows_def next_version_def)
    qed (simp add: follows_def next_version_def)
    then show ?thesis
      using r x Inr assms(3) [of latest] P1 d(1) d1 fair1
      by (auto simp: hbind_def or_internal_def lawful_def intro: rtranclp_trans)
  qed
qed

end
