(* ===== verification/Gateway_Settings.thy ===== *)
theory Gateway_Settings
  imports Gateway_Store
begin

text \<open>
  Runtime settings: the registry (\<open>crates/clustershell-core/src/settings.rs\<close>), stored settings of the gateway and of a
  sandbox, what a sandbox sees of both, and the fingerprints of policies and configurations
  (\<open>crates/clustershell-server/src/grpc.rs\<close>).
\<close>

section \<open>The registry\<close>

datatype setting_value_kind = KString | KInt | KBool

fun kind_as_str :: "setting_value_kind \<Rightarrow> bytes" where
  "kind_as_str KString = ''string''"
| "kind_as_str KInt = ''int''"
| "kind_as_str KBool = ''bool''"

type_synonym registry = "(bytes \<times> setting_value_kind) list"

text \<open>Production builds register no key; the \<open>dev-settings\<close> feature adds two.\<close>

definition registered_settings :: "bool \<Rightarrow> registry" where
  "registered_settings dev = (if dev then [(''dummy_int'', KInt), (''dummy_bool'', KBool)] else [])"

definition setting_for_key :: "registry \<Rightarrow> bytes \<Rightarrow> (bytes \<times> setting_value_kind) option" where
  "setting_for_key reg key = find (\<lambda>entry. fst entry = key) reg"

definition registered_keys_csv :: "registry \<Rightarrow> bytes" where
  "registered_keys_csv reg = join_str '', '' (map fst reg)"

definition parse_bool_like :: "bytes \<Rightarrow> bool option" where
  "parse_bool_like raw =
     (let s = to_ascii_lowercase (trim_ws raw) in
      if s \<in> {''1'', ''true'', ''yes'', ''y'', ''on''} then Some True
      else if s \<in> {''0'', ''false'', ''no'', ''n'', ''off''} then Some False
      else None)"

section \<open>Values\<close>

datatype setting_oneof = StringValue bytes | BoolValue bool | IntValue int | BytesValue bytes

type_synonym setting_value = "setting_oneof option"

datatype setting_scope = ScopeUnspecified | ScopeSandbox | ScopeGlobal

record effective_setting =
  es_value :: "setting_value option"
  es_scope :: setting_scope

definition quoted :: "bytes \<Rightarrow> bytes" where
  "quoted s = [CHR 0x27] @ s @ [CHR 0x27]"

definition validate_registered_setting_key :: "registry \<Rightarrow> bytes \<Rightarrow> (status, setting_value_kind) result" where
  "validate_registered_setting_key reg key =
     ok_or (InvalidArgument, ''unknown setting key '' @ quoted key @ ''. Allowed keys: '' @ registered_keys_csv reg)
       (map_option snd (setting_for_key reg key))"

definition proto_setting_to_stored :: "registry \<Rightarrow> bytes \<Rightarrow> setting_value \<Rightarrow> (status, stored_setting_value) result" where
  "proto_setting_to_stored reg key val =
     result_bind (validate_registered_setting_key reg key) (\<lambda>expected.
     result_bind (ok_or (InvalidArgument, ''setting_value.value is required'') val) (\<lambda>inner.
       case (expected, inner) of
         (KString, StringValue v) \<Rightarrow> Inr (SString v)
       | (KBool, BoolValue v) \<Rightarrow> Inr (SBool v)
       | (KInt, IntValue v) \<Rightarrow> Inr (SInt v)
       | (_, BytesValue _) \<Rightarrow>
           Inl (InvalidArgument, ''setting '' @ quoted key @ '' expects '' @ kind_as_str expected
             @ '' value; bytes are not supported for this key'')
       | (_, _) \<Rightarrow> Inl (InvalidArgument, ''setting '' @ quoted key @ '' expects '' @ kind_as_str expected @ '' value'')))"

fun stored_setting_to_proto :: "codec \<Rightarrow> stored_setting_value \<Rightarrow> (status, setting_value) result" where
  "stored_setting_to_proto C (SString v) = Inr (Some (StringValue v))"
| "stored_setting_to_proto C (SBool v) = Inr (Some (BoolValue v))"
| "stored_setting_to_proto C (SInt v) = Inr (Some (IntValue v))"
| "stored_setting_to_proto C (SBytes v) =
     (case cc_hex_of C v of
        Inl e \<Rightarrow> Inl (InternalStatus, ''stored bytes decode failed: '' @ e)
      | Inr raw \<Rightarrow> Inr (Some (BytesValue raw)))"

text \<open>Whether the map changed, and the map.\<close>

definition upsert_setting_value ::
  "bytes \<Rightarrow> stored_setting_value \<Rightarrow> (bytes \<times> stored_setting_value) list \<Rightarrow> bool \<times> (bytes \<times> stored_setting_value) list" where
  "upsert_setting_value key val m =
     (if map_of m key = Some val then (False, m) else (True, bt_insert key val m))"

section \<open>Records\<close>

definition POLICY_SETTING_KEY :: bytes where
  "POLICY_SETTING_KEY = ''policy''"

definition settings_default :: stored_settings where
  "settings_default = \<lparr>sg_revision = 0, sg_settings = []\<rparr>"

definition load_settings_record :: "codec \<Rightarrow> bytes \<Rightarrow> bytes \<Rightarrow> stored_settings handler" where
  "load_settings_record C object_type obj_id =
     hbind (or_internal ''fetch settings failed'' (execute (db_get object_type obj_id))) (\<lambda>found.
       case found of
         None \<Rightarrow> hreturn settings_default
       | Some r \<Rightarrow> hlift (result_map_err (\<lambda>e. (InternalStatus, ''decode settings payload failed: '' @ e))
                          (cc_settings_of C (or_payload r))))"

definition save_settings_record :: "codec \<Rightarrow> bytes \<Rightarrow> bytes \<Rightarrow> bytes \<Rightarrow> stored_settings \<Rightarrow> unit handler" where
  "save_settings_record C object_type obj_id name s =
     or_internal ''persist settings failed'' (execute (db_put object_type obj_id name (cc_settings C s)))"

definition load_global_settings :: "codec \<Rightarrow> stored_settings handler" where
  "load_global_settings C = load_settings_record C ''gateway_settings'' ''gateway_settings:global''"

definition save_global_settings :: "codec \<Rightarrow> stored_settings \<Rightarrow> unit handler" where
  "save_global_settings C = save_settings_record C ''gateway_settings'' ''gateway_settings:global'' ''global''"

definition sandbox_settings_id :: "bytes \<Rightarrow> bytes" where
  "sandbox_settings_id sandbox_id = ''settings:'' @ sandbox_id"

definition load_sandbox_settings :: "codec \<Rightarrow> bytes \<Rightarrow> stored_settings handler" where
  "load_sandbox_settings C sandbox_id = load_settings_record C ''sandbox_settings'' (sandbox_settings_id sandbox_id)"

definition save_sandbox_settings :: "codec \<Rightarrow> bytes \<Rightarrow> bytes \<Rightarrow> stored_settings \<Rightarrow> unit handler" where
  "save_sandbox_settings C sandbox_id name = save_settings_record C ''sandbox_settings'' (sandbox_settings_id sandbox_id) name"

text \<open>\<open>revision\<close> is a \<open>u64\<close> and wraps.\<close>

definition bump_revision :: "stored_settings \<Rightarrow> stored_settings" where
  "bump_revision s = s\<lparr>sg_revision := (sg_revision s + 1) mod 2 ^ 64\<rparr>"

section \<open>What a sandbox sees\<close>

definition decode_policy_from_global_settings :: "codec \<Rightarrow> stored_settings \<Rightarrow> (status, sandbox_policy option) result" where
  "decode_policy_from_global_settings C global =
     (case map_of (sg_settings global) POLICY_SETTING_KEY of
        None \<Rightarrow> Inr None
      | Some (SBytes encoded) \<Rightarrow>
          (case cc_hex_of C encoded of
             Inl e \<Rightarrow> Inl (InternalStatus, ''global policy decode failed: '' @ e)
           | Inr raw \<Rightarrow>
               (case cc_policy_of C raw of
                  Inl e \<Rightarrow> Inl (InternalStatus, ''global policy protobuf decode failed: '' @ e)
                | Inr policy \<Rightarrow> Inr (Some policy)))
      | Some _ \<Rightarrow> Inl (InternalStatus, ''global policy setting has invalid value type; expected bytes''))"

text \<open>One pass over a scope's stored settings.\<close>

fun overlay ::
  "codec \<Rightarrow> registry \<Rightarrow> setting_scope \<Rightarrow> (bytes \<times> stored_setting_value) list
     \<Rightarrow> (bytes \<times> effective_setting) list \<Rightarrow> (status, (bytes \<times> effective_setting) list) result" where
  "overlay C reg scope [] merged = Inr merged"
| "overlay C reg scope ((key, val) # kvs) merged =
     (if key = POLICY_SETTING_KEY \<or> setting_for_key reg key = None then overlay C reg scope kvs merged
      else result_bind (stored_setting_to_proto C val) (\<lambda>v.
             overlay C reg scope kvs (hm_insert key \<lparr>es_value = Some v, es_scope = scope\<rparr> merged)))"

definition merge_effective_settings ::
  "codec \<Rightarrow> registry \<Rightarrow> stored_settings \<Rightarrow> stored_settings \<Rightarrow> (status, (bytes \<times> effective_setting) list) result" where
  "merge_effective_settings C reg global sandbox =
     (let merged = hm_collect (map (\<lambda>(key, kind). (key, \<lparr>es_value = None, es_scope = ScopeUnspecified\<rparr>)) reg) in
      result_bind (overlay C reg ScopeSandbox (sg_settings sandbox) merged)
        (overlay C reg ScopeGlobal (sg_settings global)))"

fun materialize ::
  "codec \<Rightarrow> registry \<Rightarrow> (bytes \<times> stored_setting_value) list \<Rightarrow> (bytes \<times> setting_value) list
     \<Rightarrow> (status, (bytes \<times> setting_value) list) result" where
  "materialize C reg [] m = Inr m"
| "materialize C reg ((key, val) # kvs) m =
     (if key = POLICY_SETTING_KEY \<or> setting_for_key reg key = None then materialize C reg kvs m
      else result_bind (stored_setting_to_proto C val) (\<lambda>v. materialize C reg kvs (hm_insert key v m)))"

definition materialize_global_settings ::
  "codec \<Rightarrow> registry \<Rightarrow> stored_settings \<Rightarrow> (status, (bytes \<times> setting_value) list) result" where
  "materialize_global_settings C reg global =
     materialize C reg (sg_settings global) (hm_collect (map (\<lambda>(key, kind). (key, None)) reg))"

section \<open>Fingerprints\<close>

text \<open>\<open>to_le_bytes\<close> of an integer of \<open>k\<close> bytes.\<close>

definition le_bytes :: "nat \<Rightarrow> int \<Rightarrow> bytes" where
  "le_bytes k n = map (\<lambda>i. char_of (nat (n div 256 ^ i mod 256))) [0..<k]"

definition of_le_bytes :: "bytes \<Rightarrow> nat" where
  "of_le_bytes bs = foldr (\<lambda>c n. of_char c + 256 * n) bs 0"

definition by_key :: "(bytes \<times> 'v) list \<Rightarrow> (bytes \<times> 'v) list" where
  "by_key m = sort_key fst m"

definition deterministic_policy_hash :: "codec \<Rightarrow> sandbox_policy \<Rightarrow> bytes" where
  "deterministic_policy_hash C p =
     cc_hex C (cc_sha256 C
       (le_bytes 4 (int (sp_version p))
        @ (case sp_filesystem p of None \<Rightarrow> [] | Some x \<Rightarrow> cc_filesystem C x)
        @ (case sp_landlock p of None \<Rightarrow> [] | Some x \<Rightarrow> cc_landlock C x)
        @ (case sp_process p of None \<Rightarrow> [] | Some x \<Rightarrow> cc_process C x)
        @ concat (map (\<lambda>(key, r). key @ cc_rule C r) (by_key (sp_network_policies p)))))"

datatype policy_source = SourceUnspecified | SourceSandbox | SourceGlobal

fun policy_source_code :: "policy_source \<Rightarrow> int" where
  "policy_source_code SourceUnspecified = 0"
| "policy_source_code SourceSandbox = 1"
| "policy_source_code SourceGlobal = 2"

fun scope_code :: "setting_scope \<Rightarrow> int" where
  "scope_code ScopeUnspecified = 0"
| "scope_code ScopeSandbox = 1"
| "scope_code ScopeGlobal = 2"

fun oneof_bytes :: "setting_oneof \<Rightarrow> bytes" where
  "oneof_bytes (StringValue v) = CHR 0x00 # v"
| "oneof_bytes (BoolValue v) = [CHR 0x01, if v then CHR 0x01 else CHR 0x00]"
| "oneof_bytes (IntValue v) = CHR 0x02 # le_bytes 8 v"
| "oneof_bytes (BytesValue v) = CHR 0x03 # v"

definition effective_bytes :: "bytes \<times> effective_setting \<Rightarrow> bytes" where
  "effective_bytes = (\<lambda>(key, s). key @ le_bytes 4 (scope_code (es_scope s))
     @ (case es_value s of Some (Some v) \<Rightarrow> oneof_bytes v | _ \<Rightarrow> []))"

definition compute_config_revision ::
  "codec \<Rightarrow> sandbox_policy option \<Rightarrow> (bytes \<times> effective_setting) list \<Rightarrow> policy_source \<Rightarrow> nat" where
  "compute_config_revision C policy sets source =
     of_le_bytes (take 8 (cc_sha256 C
       (le_bytes 4 (policy_source_code source)
        @ (case policy of None \<Rightarrow> [] | Some p \<Rightarrow> deterministic_policy_hash C p)
        @ concat (map effective_bytes (by_key sets)))))"

section \<open>Facts\<close>

definition visible :: "registry \<Rightarrow> bytes \<Rightarrow> bool" where
  "visible reg key \<longleftrightarrow> key \<noteq> POLICY_SETTING_KEY \<and> setting_for_key reg key \<noteq> None"

lemma overlay_get:
  assumes "overlay C reg scope kvs merged = Inr m" "hm_inv merged" "distinct (map fst kvs)"
  shows "hm_inv m" "\<not> (visible reg key \<and> map_of kvs key \<noteq> None) \<Longrightarrow> map_of m key = map_of merged key"
    "visible reg key \<Longrightarrow> map_of kvs key = Some val \<Longrightarrow>
       \<exists>v. stored_setting_to_proto C val = Inr v \<and> map_of m key = Some \<lparr>es_value = Some v, es_scope = scope\<rparr>"
proof -
  have "hm_inv m \<and> (\<not> (visible reg key \<and> map_of kvs key \<noteq> None) \<longrightarrow> map_of m key = map_of merged key)
    \<and> (\<forall>val. visible reg key \<longrightarrow> map_of kvs key = Some val \<longrightarrow>
         (\<exists>v. stored_setting_to_proto C val = Inr v \<and> map_of m key = Some \<lparr>es_value = Some v, es_scope = scope\<rparr>))"
    using assms
  proof (induction C reg scope kvs merged rule: overlay.induct)
    case (2 C reg scope k val kvs merged)
    show ?case
    proof (cases "visible reg k")
      case True
      with "2.prems"(1) obtain v where v: "stored_setting_to_proto C val = Inr v"
        "overlay C reg scope kvs (hm_insert k \<lparr>es_value = Some v, es_scope = scope\<rparr> merged) = Inr m"
        by (auto simp: visible_def)
      have i: "hm_inv (hm_insert k \<lparr>es_value = Some v, es_scope = scope\<rparr> merged)"
        using "2.prems"(2) by (rule hm.inv_ins)
      have nv: "\<not> (k = POLICY_SETTING_KEY \<or> setting_for_key reg k = None)" using True by (simp add: visible_def)
      have d: "distinct (map fst kvs)" "map_of kvs k = None" using "2.prems"(3) by (auto simp: map_of_eq_None_iff)
      note IH = "2.IH"(2) [OF nv v(2) i d(1)]
      then show ?thesis using v(1) d(2) "2.prems"(2) True by (auto simp: hm.get_ins split: if_splits)
    next
      case False
      then have "overlay C reg scope kvs merged = Inr m" "k = POLICY_SETTING_KEY \<or> setting_for_key reg k = None"
        using "2.prems"(1) by (auto simp: visible_def split: if_splits)
      with "2.IH"(1) [OF this(2,1) "2.prems"(2)] "2.prems"(3) False show ?thesis by auto
    qed
  qed simp
  then show "hm_inv m" "\<not> (visible reg key \<and> map_of kvs key \<noteq> None) \<Longrightarrow> map_of m key = map_of merged key"
    "visible reg key \<Longrightarrow> map_of kvs key = Some val \<Longrightarrow>
       \<exists>v. stored_setting_to_proto C val = Inr v \<and> map_of m key = Some \<lparr>es_value = Some v, es_scope = scope\<rparr>" by auto
qed

lemma registry_get:
  assumes "distinct (map fst reg)"
  shows "map_of (hm_collect (map (\<lambda>(key, kind). (key, x)) reg)) key = (if setting_for_key reg key = None then None else Some x)"
    "hm_inv (hm_collect (map (\<lambda>(key, kind). (key, x)) reg))"
proof -
  have "map fst (map (\<lambda>(key, kind). (key, x)) reg) = map fst reg" by auto
  with assms have "distinct (map fst (map (\<lambda>(key, kind). (key, x)) reg))" by metis
  then have "map_of (hm_collect (map (\<lambda>(key, kind). (key, x)) reg)) = map_of (map (\<lambda>(key, kind). (key, x)) reg)"
    by (rule hm_collect_get)
  moreover have "map_of (map (\<lambda>(key, kind). (key, x)) reg) key = (if setting_for_key reg key = None then None else Some x)"
    by (induction reg) (auto simp: setting_for_key_def)
  ultimately show "map_of (hm_collect (map (\<lambda>(key, kind). (key, x)) reg)) key = (if setting_for_key reg key = None then None else Some x)"
    by simp
  show "hm_inv (hm_collect (map (\<lambda>(key, kind). (key, x)) reg))" by (rule hm_collect_inv)
qed

text \<open>Sorting by distinct keys forgets the order of the map.\<close>

lemma by_key_unique:
  assumes "hm_inv m" "hm_inv m'" "set m = set m'"
  shows "by_key m = by_key m'"
proof -
  have "map_of m = map_of m'" using assms by (metis hm_inv_def map_of_inject_set)
  have s: "bt_inv (by_key m)" if "hm_inv m" for m :: "(bytes \<times> 'a) list"
    using that by (simp add: by_key_def bt_inv_def hm_inv_def strict_sorted_iff) (metis distinct_map distinct_sort set_sort)
  have "map_of (by_key m) = map_of m" if "hm_inv m" for m :: "(bytes \<times> 'a) list"
    using that s [OF that] by (metis bt_inv_distinct by_key_def hm_inv_def map_of_inject_set set_sort)
  then show ?thesis using s assms(1,2) \<open>map_of m = map_of m'\<close> by (metis bt_inv_ext)
qed

lemma policy_hash_order:
  assumes "hm_inv (sp_network_policies p)" "hm_inv m" "set m = set (sp_network_policies p)"
  shows "deterministic_policy_hash C (p\<lparr>sp_network_policies := m\<rparr>) = deterministic_policy_hash C p"
  using by_key_unique [OF assms(2,1,3)] by (simp add: deterministic_policy_hash_def)

section \<open>Properties\<close>

text \<open>What a sandbox sees of its settings. Every registered key is listed and no other; its value is the gateway's
  when the gateway has one, else the sandbox's own, else unset, and the scope says which; the reserved key \<open>policy\<close> and
  keys no longer registered are left out.\<close>

theorem effective_settings_precedence:
  assumes "merge_effective_settings C reg global sandbox = Inr m" "distinct (map fst reg)"
    and "setting_for_key reg POLICY_SETTING_KEY = None" "bt_inv (sg_settings global)" "bt_inv (sg_settings sandbox)"
  shows "map_of m key =
    (if setting_for_key reg key = None then None
     else case map_of (sg_settings global) key of
       Some v \<Rightarrow> Some \<lparr>es_value = Some (projr (stored_setting_to_proto C v)), es_scope = ScopeGlobal\<rparr>
     | None \<Rightarrow> (case map_of (sg_settings sandbox) key of
         Some v \<Rightarrow> Some \<lparr>es_value = Some (projr (stored_setting_to_proto C v)), es_scope = ScopeSandbox\<rparr>
       | None \<Rightarrow> Some \<lparr>es_value = None, es_scope = ScopeUnspecified\<rparr>))"
proof -
  let ?init = "hm_collect (map (\<lambda>(key, kind). (key, \<lparr>es_value = None, es_scope = ScopeUnspecified\<rparr>)) reg)"
  obtain m1 where m1: "overlay C reg ScopeSandbox (sg_settings sandbox) ?init = Inr m1"
    and m2: "overlay C reg ScopeGlobal (sg_settings global) m1 = Inr m"
    using assms(1) by (auto simp: merge_effective_settings_def Let_def)
  note init = registry_get [OF assms(2), of "\<lparr>es_value = None, es_scope = ScopeUnspecified\<rparr>"]
  note d1 = bt_inv_distinct [OF assms(5)] and d2 = bt_inv_distinct [OF assms(4)]
  have i1: "hm_inv m1" by (rule overlay_get(1) [OF m1 init(2) d1])
  note o1 = overlay_get(2,3) [OF m1 init(2) d1, of key] and o2 = overlay_get(2,3) [OF m2 i1 d2, of key]
  have vis: "visible reg key \<longleftrightarrow> setting_for_key reg key \<noteq> None" using assms(3) by (auto simp: visible_def)
  show ?thesis
  proof (cases "setting_for_key reg key = None")
    case True
    then show ?thesis using o1(1) o2(1) vis init(1) by simp
  next
    case False
    then show ?thesis
      using o1 o2 vis init(1)
      by (cases "map_of (sg_settings global) key"; cases "map_of (sg_settings sandbox) key") force+
  qed
qed

theorem effective_settings_precedence_witness:
  "\<forall>C. \<exists>m. merge_effective_settings C [(''log'', KString), (''trace'', KBool)] \<lparr>sg_revision = 1, sg_settings = [(''log'', SString ''warn'')]\<rparr>
      \<lparr>sg_revision = 1, sg_settings = [(''log'', SString ''debug''), (''trace'', SBool True)]\<rparr> = Inr m
    \<and> map_of m ''log'' = Some \<lparr>es_value = Some (Some (StringValue ''warn'')), es_scope = ScopeGlobal\<rparr>
    \<and> map_of m ''trace'' = Some \<lparr>es_value = Some (Some (BoolValue True)), es_scope = ScopeSandbox\<rparr>"
proof
  fix C
  let ?reg = "[(''log'', KString), (''trace'', KBool)]"
  let ?g = "\<lparr>sg_revision = 1, sg_settings = [(''log'', SString ''warn'')]\<rparr>"
  let ?s = "\<lparr>sg_revision = 1, sg_settings = [(''log'', SString ''debug''), (''trace'', SBool True)]\<rparr>"
  obtain m where m: "merge_effective_settings C ?reg ?g ?s = Inr m"
    by (simp add: merge_effective_settings_def Let_def setting_for_key_def POLICY_SETTING_KEY_def)
  have pre: "distinct (map fst ?reg)" "setting_for_key ?reg POLICY_SETTING_KEY = None" "bt_inv (sg_settings ?g)" "bt_inv (sg_settings ?s)"
    by (simp_all add: setting_for_key_def POLICY_SETTING_KEY_def bt_inv_def less_list_code)
  from m effective_settings_precedence [OF m pre, of "''log''"] effective_settings_precedence [OF m pre, of "''trace''"]
  show "\<exists>m. merge_effective_settings C ?reg ?g ?s = Inr m
    \<and> map_of m ''log'' = Some \<lparr>es_value = Some (Some (StringValue ''warn'')), es_scope = ScopeGlobal\<rparr>
    \<and> map_of m ''trace'' = Some \<lparr>es_value = Some (Some (BoolValue True)), es_scope = ScopeSandbox\<rparr>"
    by (simp add: setting_for_key_def)
qed

end
