(* ===== verification/Gateway_Providers.thy ===== *)
theory Gateway_Providers
  imports Gateway_Settings
begin

text \<open>
  Field limits and provider records of the gateway, \<open>crates/clustershell-server/src/grpc.rs\<close>: validation of requests
  before anything is stored, create, read, update and delete of providers, and the environment a sandbox gets from them.
\<close>

section \<open>Limits\<close>

definition MAX_PAGE_SIZE :: nat where "MAX_PAGE_SIZE = 1000"
definition MAX_NAME_LEN :: nat where "MAX_NAME_LEN = 253"
definition MAX_PROVIDERS :: nat where "MAX_PROVIDERS = 32"
definition MAX_LOG_LEVEL_LEN :: nat where "MAX_LOG_LEVEL_LEN = 32"
definition MAX_ENVIRONMENT_ENTRIES :: nat where "MAX_ENVIRONMENT_ENTRIES = 128"
definition MAX_MAP_KEY_LEN :: nat where "MAX_MAP_KEY_LEN = 256"
definition MAX_MAP_VALUE_LEN :: nat where "MAX_MAP_VALUE_LEN = 8192"
definition MAX_TEMPLATE_STRING_LEN :: nat where "MAX_TEMPLATE_STRING_LEN = 1024"
definition MAX_TEMPLATE_MAP_ENTRIES :: nat where "MAX_TEMPLATE_MAP_ENTRIES = 128"
definition MAX_TEMPLATE_STRUCT_SIZE :: nat where "MAX_TEMPLATE_STRUCT_SIZE = 65536"
definition MAX_POLICY_SIZE :: nat where "MAX_POLICY_SIZE = 262144"
definition MAX_PROVIDER_TYPE_LEN :: nat where "MAX_PROVIDER_TYPE_LEN = 64"
definition MAX_PROVIDER_CREDENTIALS_ENTRIES :: nat where "MAX_PROVIDER_CREDENTIALS_ENTRIES = 32"
definition MAX_PROVIDER_CONFIG_ENTRIES :: nat where "MAX_PROVIDER_CONFIG_ENTRIES = 64"

definition clamp_limit :: "nat \<Rightarrow> nat \<Rightarrow> nat \<Rightarrow> nat" where
  "clamp_limit raw dflt ceiling = (if raw = 0 then dflt else min raw ceiling)"

section \<open>Validation\<close>

definition at_most :: "bytes \<Rightarrow> nat \<Rightarrow> nat \<Rightarrow> (status, unit) result" where
  "at_most what n limit =
     (if limit < n then Inl (InvalidArgument, what @ '' ('' @ show_nat n @ '' > '' @ show_nat limit @ '')'') else Inr ())"

fun validate_entries :: "nat \<Rightarrow> nat \<Rightarrow> bytes \<Rightarrow> (bytes \<times> bytes) list \<Rightarrow> (status, unit) result" where
  "validate_entries max_key_len max_value_len field [] = Inr ()"
| "validate_entries max_key_len max_value_len field ((key, val) # kvs) =
     result_bind (at_most (field @ '' key exceeds maximum length'') (length key) max_key_len) (\<lambda>_.
     result_bind (at_most (field @ '' value exceeds maximum length'') (length val) max_value_len) (\<lambda>_.
       validate_entries max_key_len max_value_len field kvs))"

definition validate_string_map :: "(bytes \<times> bytes) list \<Rightarrow> nat \<Rightarrow> nat \<Rightarrow> nat \<Rightarrow> bytes \<Rightarrow> (status, unit) result" where
  "validate_string_map m max_entries max_key_len max_value_len field =
     result_bind (at_most (field @ '' exceeds maximum entries'') (length m) max_entries) (\<lambda>_.
       validate_entries max_key_len max_value_len field m)"

text \<open>\<open>encoded_len\<close> of an optional \<open>Struct\<close>.\<close>

definition struct_at_most :: "bytes \<Rightarrow> bytes option \<Rightarrow> (status, unit) result" where
  "struct_at_most field s =
     (case s of None \<Rightarrow> Inr () | Some b \<Rightarrow> at_most (field @ '' serialized size exceeds maximum'') (length b) MAX_TEMPLATE_STRUCT_SIZE)"

definition validate_sandbox_template :: "sandbox_template \<Rightarrow> (status, unit) result" where
  "validate_sandbox_template tmpl =
     (let len = (\<lambda>field v. at_most (field @ '' exceeds maximum length'') (length v) MAX_TEMPLATE_STRING_LEN);
          entries = (\<lambda>field m. validate_string_map m MAX_TEMPLATE_MAP_ENTRIES MAX_MAP_KEY_LEN MAX_MAP_VALUE_LEN field) in
      result_bind (len ''template.image'' (st_image tmpl)) (\<lambda>_.
      result_bind (len ''template.runtime_class_name'' (st_runtime_class_name tmpl)) (\<lambda>_.
      result_bind (len ''template.agent_socket'' (st_agent_socket tmpl)) (\<lambda>_.
      result_bind (entries ''template.labels'' (st_labels tmpl)) (\<lambda>_.
      result_bind (entries ''template.annotations'' (st_annotations tmpl)) (\<lambda>_.
      result_bind (entries ''template.environment'' (st_environment tmpl)) (\<lambda>_.
      result_bind (struct_at_most ''template.resources'' (st_resources tmpl)) (\<lambda>_.
        struct_at_most ''template.volume_claim_templates'' (st_volume_claim_templates tmpl)))))))))"

definition validate_sandbox_spec :: "codec \<Rightarrow> bytes \<Rightarrow> sandbox_spec \<Rightarrow> (status, unit) result" where
  "validate_sandbox_spec C name spec =
     result_bind (at_most ''name exceeds maximum length'' (length name) MAX_NAME_LEN) (\<lambda>_.
     result_bind (at_most ''providers list exceeds maximum'' (length (ss_providers spec)) MAX_PROVIDERS) (\<lambda>_.
     result_bind (at_most ''log_level exceeds maximum length'' (length (ss_log_level spec)) MAX_LOG_LEVEL_LEN) (\<lambda>_.
     result_bind (validate_string_map (ss_environment spec) MAX_ENVIRONMENT_ENTRIES MAX_MAP_KEY_LEN MAX_MAP_VALUE_LEN
         ''spec.environment'') (\<lambda>_.
     result_bind (case ss_template spec of None \<Rightarrow> Inr () | Some tmpl \<Rightarrow> validate_sandbox_template tmpl) (\<lambda>_.
       case ss_policy spec of
         None \<Rightarrow> Inr ()
       | Some p \<Rightarrow> at_most ''policy serialized size exceeds maximum'' (length (cc_policy C p)) MAX_POLICY_SIZE)))))"

definition validate_provider_fields :: "provider \<Rightarrow> (status, unit) result" where
  "validate_provider_fields p =
     result_bind (at_most ''provider.name exceeds maximum length'' (length (pv_name p)) MAX_NAME_LEN) (\<lambda>_.
     result_bind (at_most ''provider.type exceeds maximum length'' (length (pv_type p)) MAX_PROVIDER_TYPE_LEN) (\<lambda>_.
     result_bind (validate_string_map (pv_credentials p) MAX_PROVIDER_CREDENTIALS_ENTRIES MAX_MAP_KEY_LEN
         MAX_MAP_VALUE_LEN ''provider.credentials'') (\<lambda>_.
       validate_string_map (pv_config p) MAX_PROVIDER_CONFIG_ENTRIES MAX_MAP_KEY_LEN MAX_MAP_VALUE_LEN ''provider.config'')))"

section \<open>Provider records\<close>

definition redact_provider_credentials :: "provider \<Rightarrow> provider" where
  "redact_provider_credentials p = p\<lparr>pv_credentials := []\<rparr>"

text \<open>\<open>fresh_name\<close> is what \<open>generate_name\<close> draws.\<close>

definition create_provider_record :: "codec \<Rightarrow> bytes \<Rightarrow> provider \<Rightarrow> provider handler" where
  "create_provider_record C fresh_name p0 =
     (let p = (if pv_name p0 = [] then p0\<lparr>pv_name := fresh_name\<rparr> else p0) in
      if trim_ws (pv_type p) = [] then hfail InvalidArgument ''provider.type is required''
      else if pv_credentials p = [] then hfail InvalidArgument ''provider.credentials must not be empty''
      else hbind (hlift (validate_provider_fields p)) (\<lambda>_.
           hbind (or_internal ''fetch provider failed'' (get_provider_by_name C (pv_name p))) (\<lambda>existing.
             if existing \<noteq> None then hfail AlreadyExists ''provider already exists''
             else hbind new_uuid (\<lambda>uuid.
                  let p' = p\<lparr>pv_id := uuid\<rparr> in
                  hbind (or_internal ''persist provider failed'' (put_provider C p')) (\<lambda>_.
                    hreturn (redact_provider_credentials p'))))))"

definition get_provider_record :: "codec \<Rightarrow> bytes \<Rightarrow> provider handler" where
  "get_provider_record C name =
     (if name = [] then hfail InvalidArgument ''name is required''
      else hbind (or_internal ''fetch provider failed'' (get_provider_by_name C name)) (\<lambda>found.
             hlift (case found of
                      None \<Rightarrow> Inl (NotFound, ''provider not found'')
                    | Some p \<Rightarrow> Inr (redact_provider_credentials p))))"

fun decode_providers :: "codec \<Rightarrow> object_record list \<Rightarrow> (status, provider list) result" where
  "decode_providers C [] = Inr []"
| "decode_providers C (r # rs) =
     (case cc_provider_of C (or_payload r) of
        Inl e \<Rightarrow> Inl (InternalStatus, ''decode provider failed: '' @ e)
      | Inr p \<Rightarrow> result_bind (decode_providers C rs) (\<lambda>ps. Inr (redact_provider_credentials p # ps)))"

definition list_provider_records :: "codec \<Rightarrow> nat \<Rightarrow> nat \<Rightarrow> provider list handler" where
  "list_provider_records C limit offset =
     hbind (or_internal ''list providers failed'' (execute (db_list ''provider'' limit offset))) (\<lambda>records.
       hlift (decode_providers C records))"

definition merge_map :: "(bytes \<times> bytes) list \<Rightarrow> (bytes \<times> bytes) list \<Rightarrow> (bytes \<times> bytes) list" where
  "merge_map existing incoming =
     (if incoming = [] then existing
      else fold (\<lambda>(key, val) m. if val = [] then hm_remove key m else hm_insert key val m) incoming existing)"

definition update_provider_record :: "codec \<Rightarrow> provider \<Rightarrow> provider handler" where
  "update_provider_record C p =
     (if pv_name p = [] then hfail InvalidArgument ''provider.name is required''
      else hbind (or_internal ''fetch provider failed'' (get_provider_by_name C (pv_name p))) (\<lambda>found.
        case found of
          None \<Rightarrow> hfail NotFound ''provider not found''
        | Some existing \<Rightarrow>
            (let incoming_type = trim_ws (pv_type p) in
             if incoming_type \<noteq> []
                \<and> to_ascii_lowercase incoming_type \<noteq> to_ascii_lowercase (trim_ws (pv_type existing)) then
               hfail InvalidArgument ''provider type cannot be changed; delete and recreate the provider''
             else
               let updated = existing\<lparr>pv_credentials := merge_map (pv_credentials existing) (pv_credentials p),
                                      pv_config := merge_map (pv_config existing) (pv_config p)\<rparr> in
               hbind (hlift (validate_provider_fields updated)) (\<lambda>_.
               hbind (or_internal ''persist provider failed'' (put_provider C updated)) (\<lambda>_.
                 hreturn (redact_provider_credentials updated))))))"

definition delete_provider_record :: "codec \<Rightarrow> bytes \<Rightarrow> bool handler" where
  "delete_provider_record C name =
     (if name = [] then hfail InvalidArgument ''name is required''
      else or_internal ''delete provider failed'' (execute (db_delete_by_name ''provider'' name)))"

section \<open>The environment of a sandbox\<close>

definition is_env_start :: "char \<Rightarrow> bool" where
  "is_env_start c \<longleftrightarrow> c = CHR ''_'' \<or> (65 \<le> byte c \<and> byte c \<le> 90) \<or> (97 \<le> byte c \<and> byte c \<le> 122)"

definition is_valid_env_key :: "bytes \<Rightarrow> bool" where
  "is_valid_env_key key =
     (case key of [] \<Rightarrow> False | c # cs \<Rightarrow> is_env_start c \<and> list_all (\<lambda>c. is_env_start c \<or> is_ascii_digit c) cs)"

text \<open>\<open>entry(key).or_insert_with(value)\<close>.\<close>

definition or_insert :: "bytes \<times> bytes \<Rightarrow> (bytes \<times> bytes) list \<Rightarrow> (bytes \<times> bytes) list" where
  "or_insert kv env = (if map_of env (fst kv) = None then hm_insert (fst kv) (snd kv) env else env)"

definition add_credentials :: "provider \<Rightarrow> (bytes \<times> bytes) list \<Rightarrow> (bytes \<times> bytes) list" where
  "add_credentials p env = fold or_insert (filter (\<lambda>(key, val). is_valid_env_key key) (pv_credentials p)) env"

definition resolve_provider_environment :: "codec \<Rightarrow> bytes list \<Rightarrow> (bytes \<times> bytes) list handler" where
  "resolve_provider_environment C provider_names =
     hfold (\<lambda>name env.
       hbind (or_internal (''failed to fetch provider '' @ quoted name) (get_provider_by_name C name)) (\<lambda>found.
         hlift (case found of
                  None \<Rightarrow> Inl (FailedPrecondition, ''provider '' @ quoted name @ '' not found'')
                | Some p \<Rightarrow> Inr (add_credentials p env))))
       provider_names []"

section \<open>Facts\<close>

lemma merge_map_get:
  assumes "hm_inv existing" "distinct (map fst incoming)"
  shows "hm_inv (merge_map existing incoming)"
    "map_of (merge_map existing incoming) key =
      (case map_of incoming key of None \<Rightarrow> map_of existing key | Some v \<Rightarrow> if v = [] then None else Some v)"
proof -
  let ?step = "\<lambda>(key, val) m. if val = [] then hm_remove key m else hm_insert key val m"
  have "hm_inv (fold ?step incoming existing) \<and> map_of (fold ?step incoming existing) key =
      (case map_of incoming key of None \<Rightarrow> map_of existing key | Some v \<Rightarrow> if v = [] then None else Some v)"
    using assms
  proof (induction incoming arbitrary: existing)
    case (Cons kv incoming)
    obtain k v where kv: "kv = (k, v)" by force
    have i: "hm_inv (?step (k, v) existing)" using Cons.prems(1) by (simp add: hm.inv_ins hm.inv_del)
    have n: "map_of incoming k = None" "distinct (map fst incoming)" using Cons.prems(2) kv by (auto simp: map_of_eq_None_iff)
    from Cons.IH [OF i n(2)] Cons.prems(1) n(1) kv show ?case
      by (auto simp: hm.get_ins hm.get_del split: option.splits)
  qed simp
  then show "hm_inv (merge_map existing incoming)"
    "map_of (merge_map existing incoming) key =
      (case map_of incoming key of None \<Rightarrow> map_of existing key | Some v \<Rightarrow> if v = [] then None else Some v)"
    using assms(1) by (auto simp: merge_map_def)
qed

lemma get_provider_quiet:
  assumes "quiet w"
  shows "get_provider_by_name C name w =
    ((case find (\<lambda>r. or_object_type r = ''provider'' \<and> or_name r = name) (db_objects (w_db w)) of
        None \<Rightarrow> Inr None | Some r \<Rightarrow> decoded (cc_provider_of C (or_payload r))), w)"
  using assms by (simp add: get_provider_by_name_def message_of_def run_quiet db_get_by_name_def split: option.splits)

text \<open>The first provider that has a credential gives its value.\<close>

definition first_credential :: "bytes \<Rightarrow> provider list \<Rightarrow> bytes option" where
  "first_credential key ps =
     (case find (\<lambda>p. map_of (pv_credentials p) key \<noteq> None) ps of None \<Rightarrow> None | Some p \<Rightarrow> map_of (pv_credentials p) key)"

lemma or_insert_get: "map_of (or_insert (k, v) env) key = (case map_of env key of None \<Rightarrow> if key = k then Some v else None | Some x \<Rightarrow> Some x)"
  by (auto simp: or_insert_def hm_insert_def update_conv' split: option.splits)

lemma add_credentials_get:
  "map_of (add_credentials p env) key =
     (case map_of env key of Some x \<Rightarrow> Some x | None \<Rightarrow> if is_valid_env_key key then map_of (pv_credentials p) key else None)"
proof -
  have "map_of (fold or_insert kvs env) key = (case map_of env key of Some x \<Rightarrow> Some x | None \<Rightarrow> map_of kvs key)" for kvs env
    by (induction kvs arbitrary: env) (auto simp: or_insert_get split: option.splits prod.splits)
  moreover have "map_of (filter (\<lambda>(key, val). is_valid_env_key key) kvs) key = (if is_valid_env_key key then map_of kvs key else None)"
    for kvs :: "(bytes \<times> bytes) list" by (induction kvs) auto
  ultimately show ?thesis by (cases "map_of env key") (simp_all add: add_credentials_def)
qed

lemma resolve_environment_fold:
  assumes "hfold (\<lambda>name env.
       hbind (or_internal (msg name) (get_provider_by_name C name)) (\<lambda>found.
         hlift (case found of None \<Rightarrow> Inl (err name) | Some p \<Rightarrow> Inr (add_credentials p env)))) names env w = (Inr env', w')" "quiet w"
  shows "w' = w \<and> (\<exists>ps. list_all2 (\<lambda>name p. fst (get_provider_by_name C name w) = Inr (Some p)) names ps
    \<and> (\<forall>key. map_of env' key = (case map_of env key of Some x \<Rightarrow> Some x
         | None \<Rightarrow> if is_valid_env_key key then first_credential key ps else None)))"
  using assms
proof (induction names arbitrary: env w)
  case (Cons name names)
  from Cons.prems obtain p w1 where p: "get_provider_by_name C name w = (Inr (Some p), w1)"
    and rest: "hfold (\<lambda>name env. hbind (or_internal (msg name) (get_provider_by_name C name)) (\<lambda>found.
         hlift (case found of None \<Rightarrow> Inl (err name) | Some p \<Rightarrow> Inr (add_credentials p env)))) names (add_credentials p env) w1
        = (Inr env', w')"
    by (auto split: option.splits)
  have w1: "w1 = w" using get_provider_quiet [OF Cons.prems(2), of C name] p by auto
  from Cons.IH [OF rest] w1 Cons.prems(2) obtain ps where ps: "w' = w"
    "list_all2 (\<lambda>name p. fst (get_provider_by_name C name w) = Inr (Some p)) names ps"
    "\<forall>key. map_of env' key = (case map_of (add_credentials p env) key of Some x \<Rightarrow> Some x
         | None \<Rightarrow> if is_valid_env_key key then first_credential key ps else None)" by auto
  then show ?case
    using p by (intro conjI exI [of _ "p # ps"])
      (auto simp: add_credentials_get first_credential_def split: option.splits)
qed (auto simp: first_credential_def split: option.splits)

section \<open>Properties\<close>

text \<open>No credential leaves the gateway through the provider interface: whatever the database does, a provider that is
  created, fetched, listed or updated is answered without its credentials.\<close>

theorem provider_responses_redacted:
  "(create_provider_record C n p w = (Inr q, w') \<longrightarrow> pv_credentials q = [])
   \<and> (get_provider_record C name w = (Inr q, w') \<longrightarrow> pv_credentials q = [])
   \<and> (update_provider_record C p w = (Inr q, w') \<longrightarrow> pv_credentials q = [])
   \<and> (list_provider_records C limit offset w = (Inr qs, w') \<longrightarrow> list_all (\<lambda>q. pv_credentials q = []) qs)"
proof -
  have dec: "decode_providers C rs = Inr qs \<Longrightarrow> list_all (\<lambda>q. pv_credentials q = []) qs" for rs qs
    by (induction rs arbitrary: qs) (auto simp: redact_provider_credentials_def split: sum.splits)
  show ?thesis
    by (auto simp: create_provider_record_def get_provider_record_def update_provider_record_def list_provider_records_def
        redact_provider_credentials_def Let_def dec split: if_splits option.splits)
qed

text \<open>A sandbox's environment has exactly the credentials its providers give it: every name of the list is a stored
  provider, only keys that are environment variable names get in, and of providers that share a key the first wins.\<close>

theorem provider_environment_exact:
  assumes "resolve_provider_environment C names w = (Inr env, w')" "quiet w"
  shows "w' = w \<and> (\<exists>ps. list_all2 (\<lambda>name p. fst (get_provider_by_name C name w) = Inr (Some p)) names ps
    \<and> (\<forall>key. map_of env key = (if is_valid_env_key key then first_credential key ps else None)))"
  using resolve_environment_fold [OF assms(1) [unfolded resolve_provider_environment_def] assms(2)] by simp

text \<open>Two providers in the tables; the decoder knows their payloads.\<close>

definition sample_provider :: "bytes \<Rightarrow> bytes \<Rightarrow> provider" where
  "sample_provider name token =
     \<lparr>pv_id = ''id-'' @ name, pv_name = name, pv_type = ''github'', pv_credentials = [(''TOKEN'', token), (''not a name'', ''x'')],
      pv_config = []\<rparr>"

definition sample_codec :: "codec" where
  "sample_codec =
     \<lparr>cc_policy = (\<lambda>_. []), cc_policy_of = (\<lambda>_. Inl []), cc_rule = (\<lambda>_. []), cc_rule_of = (\<lambda>_. Inl []),
      cc_sandbox = (\<lambda>_. []), cc_sandbox_of = (\<lambda>_. Inl []), cc_provider = (\<lambda>p. pv_name p),
      cc_provider_of = (\<lambda>b. Inr (sample_provider b (''token of '' @ b))), cc_settings = (\<lambda>_. []), cc_settings_of = (\<lambda>_. Inl []),
      cc_hex = (\<lambda>b. b), cc_hex_of = (\<lambda>b. Inr b), cc_filesystem = (\<lambda>_. []), cc_landlock = (\<lambda>_. []), cc_process = (\<lambda>_. []),
      cc_sha256 = (\<lambda>b. b)\<rparr>"

definition sample_row :: "bytes \<Rightarrow> bytes \<Rightarrow> bytes \<Rightarrow> object_record" where
  "sample_row t name payload =
     \<lparr>or_object_type = t, or_id = ''id-'' @ name, or_name = name, or_payload = payload, or_created_at_ms = 1, or_updated_at_ms = 1\<rparr>"

definition sample_world :: "object_record list \<Rightarrow> world" where
  "sample_world rows =
     \<lparr>w_db = \<lparr>db_objects = rows, db_policies = [], db_chunks = []\<rparr>, w_now = 2, w_script = [], w_uuid = (\<lambda>n. ''uuid''),
      w_notified = []\<rparr>"

definition provider_world :: world where
  "provider_world = sample_world [sample_row ''provider'' ''a'' ''a'', sample_row ''provider'' ''b'' ''b'']"

lemma provider_world_get:
  "get_provider_by_name sample_codec ''a'' provider_world = (Inr (Some (sample_provider ''a'' ''token of a'')), provider_world)"
  "get_provider_by_name sample_codec ''b'' provider_world = (Inr (Some (sample_provider ''b'' ''token of b'')), provider_world)"
  by (simp_all add: provider_world_def sample_world_def sample_row_def sample_codec_def get_provider_quiet quiet_def decoded_def)

theorem provider_responses_redacted_witness:
  "\<exists>q w'. get_provider_record sample_codec ''a'' provider_world = (Inr q, w') \<and> pv_credentials q = []"
proof -
  have "get_provider_record sample_codec ''a'' provider_world =
      (Inr (redact_provider_credentials (sample_provider ''a'' ''token of a'')), provider_world)"
    by (simp add: get_provider_record_def provider_world_get)
  with provider_responses_redacted [of sample_codec _ _ _ _ _ "''a''"] show ?thesis by blast
qed

theorem provider_environment_exact_witness:
  "\<exists>env. resolve_provider_environment sample_codec [''a'', ''b''] provider_world = (Inr env, provider_world)
     \<and> map_of env ''TOKEN'' = Some ''token of a'' \<and> map_of env ''not a name'' = None"
proof -
  let ?a = "sample_provider ''a'' ''token of a''" and ?b = "sample_provider ''b'' ''token of b''"
  have r: "resolve_provider_environment sample_codec [''a'', ''b''] provider_world =
      (Inr (add_credentials ?b (add_credentials ?a [])), provider_world)"
    by (simp add: resolve_provider_environment_def provider_world_get)
  have q: "quiet provider_world" by (simp add: quiet_def provider_world_def sample_world_def)
  from provider_environment_exact [OF r q] obtain ps where
    ps: "list_all2 (\<lambda>name p. fst (get_provider_by_name sample_codec name provider_world) = Inr (Some p)) [''a'', ''b''] ps"
    "\<forall>key. map_of (add_credentials ?b (add_credentials ?a [])) key = (if is_valid_env_key key then first_credential key ps else None)"
    by auto
  have "ps = [?a, ?b]" using ps(1) provider_world_get by (auto simp: list_all2_Cons1)
  moreover have "is_valid_env_key ''TOKEN''" "\<not> is_valid_env_key ''not a name''" by code_simp+
  ultimately have "map_of (add_credentials ?b (add_credentials ?a [])) ''TOKEN'' = Some ''token of a''"
    "map_of (add_credentials ?b (add_credentials ?a [])) ''not a name'' = None"
    using ps(2) by (auto simp: first_credential_def sample_provider_def)
  with r show ?thesis by blast
qed

end
