(* ===== verification/Gateway_Policy.thy ===== *)
theory Gateway_Policy
  imports Gateway_Providers
begin

text \<open>
  Policies at the gateway, \<open>crates/clustershell-server/src/grpc.rs\<close>: the global policy and the policies of sandboxes as
  numbered revisions, the settings beside them, and what a sandbox is served (\<open>update_config\<close>, \<open>get_sandbox_config\<close>,
  \<open>get_gateway_config\<close>, \<open>report_policy_status\<close>). \<open>reg\<close> is the registry of settings. Changes of settings hold a mutex, which
  keeps other changes of settings out; nothing here relies on it.
\<close>

section \<open>Checks\<close>

definition validate_policy_safety :: "sandbox_policy \<Rightarrow> (status, unit) result" where
  "validate_policy_safety p =
     (case validate_sandbox_policy p of
        None \<Rightarrow> Inl (TaskPanicked, [])
      | Some (Inl violations) \<Rightarrow>
          Inl (InvalidArgument, ''policy contains unsafe content: '' @ join_str ''; '' (map violation_display violations))
      | Some (Inr _) \<Rightarrow> Inr ())"

fun kept_paths :: "bytes \<Rightarrow> bytes list \<Rightarrow> bytes list \<Rightarrow> (status, unit) result" where
  "kept_paths field [] upd = Inr ()"
| "kept_paths field (p # ps) upd =
     (if p \<in> set upd then kept_paths field ps upd
      else Inl (InvalidArgument, ''filesystem '' @ field @ '' path '' @ quoted p @ '' cannot be removed on a live sandbox''))"

fun validate_filesystem_additive :: "filesystem_policy option \<Rightarrow> filesystem_policy option \<Rightarrow> (status, unit) result" where
  "validate_filesystem_additive (Some base) (Some upd) =
     (if fs_include_workdir base \<noteq> fs_include_workdir upd then
        Inl (InvalidArgument, ''filesystem include_workdir cannot be changed on a live sandbox'')
      else result_bind (kept_paths ''read_only'' (fs_read_only base) (fs_read_only upd)) (\<lambda>_.
             kept_paths ''read_write'' (fs_read_write base) (fs_read_write upd)))"
| "validate_filesystem_additive None (Some _) = Inr ()"
| "validate_filesystem_additive (Some _) None =
     Inl (InvalidArgument, ''filesystem policy cannot be removed on a live sandbox'')"
| "validate_filesystem_additive None None = Inr ()"

definition validate_static_fields_unchanged :: "sandbox_policy \<Rightarrow> sandbox_policy \<Rightarrow> (status, unit) result" where
  "validate_static_fields_unchanged baseline new =
     result_bind (validate_filesystem_additive (sp_filesystem baseline) (sp_filesystem new)) (\<lambda>_.
       if sp_landlock baseline \<noteq> sp_landlock new then
         Inl (InvalidArgument, ''landlock policy cannot be changed on a live sandbox (applied at startup)'')
       else if sp_process baseline \<noteq> sp_process new then
         Inl (InvalidArgument, ''process policy cannot be changed on a live sandbox (applied at startup)'')
       else Inr ())"

section \<open>Updating\<close>

definition GLOBAL_POLICY_SANDBOX_ID :: bytes where
  "GLOBAL_POLICY_SANDBOX_ID = ''__global__''"

record update_config_request =
  uc_name :: bytes
  uc_policy :: "sandbox_policy option"
  uc_setting_key :: bytes
  uc_setting_value :: "setting_value option"
  uc_delete_setting :: bool
  uc_global :: bool

record update_config_response =
  ur_version :: nat
  ur_policy_hash :: bytes
  ur_settings_revision :: nat
  ur_deleted :: bool

text \<open>\<open>u32::try_from(version).unwrap_or(0)\<close>.\<close>

definition version_u32 :: "int \<Rightarrow> nat" where
  "version_u32 v = (if 0 \<le> v \<and> v < 2 ^ 32 then nat v else 0)"

definition settings_response :: "stored_settings \<Rightarrow> bool \<Rightarrow> update_config_response" where
  "settings_response s deleted =
     \<lparr>ur_version = 0, ur_policy_hash = [], ur_settings_revision = sg_revision s, ur_deleted = deleted\<rparr>"

text \<open>Putting a value into the global settings, which are saved when they changed.\<close>

definition store_global :: "codec \<Rightarrow> bytes \<Rightarrow> stored_setting_value \<Rightarrow> stored_settings handler" where
  "store_global C key val =
     hbind (load_global_settings C) (\<lambda>s.
       case upsert_setting_value key val (sg_settings s) of
         (changed, m) \<Rightarrow>
           (let s' = (if changed then bump_revision (s\<lparr>sg_settings := m\<rparr>) else s) in
            if changed then hbind (save_global_settings C s') (\<lambda>_. hreturn s') else hreturn s'))"

definition policy_response :: "int \<Rightarrow> bytes \<Rightarrow> nat \<Rightarrow> update_config_response" where
  "policy_response version hash revision =
     \<lparr>ur_version = version_u32 version, ur_policy_hash = hash, ur_settings_revision = revision, ur_deleted = False\<rparr>"

definition commit_global ::
  "codec \<Rightarrow> int \<Rightarrow> bytes \<Rightarrow> bytes \<Rightarrow> stored_setting_value \<Rightarrow> update_config_response handler" where
  "commit_global C version payload hash stored =
     hbind new_uuid (\<lambda>policy_id.
     hbind (or_internal ''persist global policy revision failed''
         (execute (db_put_policy_revision policy_id GLOBAL_POLICY_SANDBOX_ID version payload hash))) (\<lambda>_.
     hbind current_time_ms (\<lambda>now_ms.
     hbind (ignoring (execute (db_update_policy_status GLOBAL_POLICY_SANDBOX_ID version ''loaded'' None (Some now_ms)))) (\<lambda>_.
     hbind (ignoring (execute (db_supersede_older_policies GLOBAL_POLICY_SANDBOX_ID version))) (\<lambda>_.
     hbind (store_global C POLICY_SETTING_KEY stored) (\<lambda>s.
       hreturn (policy_response version hash (sg_revision s))))))))"

definition update_global_policy :: "codec \<Rightarrow> update_config_request \<Rightarrow> sandbox_policy \<Rightarrow> update_config_response handler" where
  "update_global_policy C req policy =
     (if uc_delete_setting req then hfail InvalidArgument ''delete_setting cannot be combined with policy payload''
      else
        let new_policy = ensure_sandbox_process_identity policy;
            payload = cc_policy C new_policy;
            hash = deterministic_policy_hash C new_policy;
            stored = SBytes (cc_hex C payload) in
        hbind (hlift (validate_policy_safety new_policy)) (\<lambda>_.
        hbind (or_internal ''fetch latest global policy failed'' (execute (db_get_latest_policy GLOBAL_POLICY_SANDBOX_ID))) (\<lambda>latest.
          case latest of
            Some current \<Rightarrow>
              (if po_policy_hash current = hash \<and> po_status current = ''loaded'' then
                 hbind (store_global C POLICY_SETTING_KEY stored) (\<lambda>s.
                   hreturn (policy_response (po_version current) hash (sg_revision s)))
               else commit_global C (next_version latest) payload hash stored)
          | None \<Rightarrow> commit_global C (next_version latest) payload hash stored)))"

text \<open>When the global policy goes, its revisions do too; that is best effort.\<close>

definition supersede_global :: "unit handler" where
  "supersede_global =
     hbind (attempt (execute (db_get_latest_policy GLOBAL_POLICY_SANDBOX_ID))) (\<lambda>r.
       case r of
         Inr (Some latest) \<Rightarrow> ignoring (execute (db_supersede_older_policies GLOBAL_POLICY_SANDBOX_ID (po_version latest + 1)))
       | _ \<Rightarrow> hreturn ())"

definition update_global_setting :: "codec \<Rightarrow> registry \<Rightarrow> update_config_request \<Rightarrow> bytes \<Rightarrow> update_config_response handler" where
  "update_global_setting C reg req key =
     (if key = POLICY_SETTING_KEY \<and> \<not> uc_delete_setting req then
        hfail InvalidArgument (''reserved key '' @ quoted ''policy'' @ '' must be set via the policy field'')
      else
        hbind (if key \<noteq> POLICY_SETTING_KEY then hlift (result_bind (validate_registered_setting_key reg key) (\<lambda>_. Inr ()))
               else hreturn ()) (\<lambda>_.
        hbind (load_global_settings C) (\<lambda>s.
        hbind (if uc_delete_setting req then
                 (let removed = (map_of (sg_settings s) key \<noteq> None) in
                  hbind (if removed \<and> key = POLICY_SETTING_KEY then supersede_global else hreturn ()) (\<lambda>_.
                    hreturn (removed, bt_remove key (sg_settings s))))
               else
                 hbind (hlift (ok_or (InvalidArgument, ''setting_value is required'') (uc_setting_value req))) (\<lambda>setting.
                 hbind (hlift (proto_setting_to_stored reg key setting)) (\<lambda>stored.
                   hreturn (upsert_setting_value key stored (sg_settings s))))) (\<lambda>(changed, m).
          let s' = (if changed then bump_revision (s\<lparr>sg_settings := m\<rparr>) else s) in
          hbind (if changed then save_global_settings C s' else hreturn ()) (\<lambda>_.
            hreturn (settings_response s' (uc_delete_setting req \<and> changed)))))))"

definition update_sandbox_setting ::
  "codec \<Rightarrow> registry \<Rightarrow> update_config_request \<Rightarrow> sandbox \<Rightarrow> bytes \<Rightarrow> update_config_response handler" where
  "update_sandbox_setting C reg req sb key =
     (if key = POLICY_SETTING_KEY then
        hfail InvalidArgument (''reserved key '' @ quoted ''policy'' @ '' must be set via policy commands'')
      else
        hbind (load_global_settings C) (\<lambda>global.
          let globally_managed = (map_of (sg_settings global) key \<noteq> None) in
          if uc_delete_setting req then
            (if globally_managed then
               hfail FailedPrecondition (''setting '' @ quoted key @ '' is managed globally; delete the global setting first'')
             else
               hbind (load_sandbox_settings C (sx_id sb)) (\<lambda>s.
                 let removed = (map_of (sg_settings s) key \<noteq> None);
                     s' = (if removed then bump_revision (s\<lparr>sg_settings := bt_remove key (sg_settings s)\<rparr>) else s) in
                 hbind (if removed then save_sandbox_settings C (sx_id sb) (sx_name sb) s' else hreturn ()) (\<lambda>_.
                   hreturn (settings_response s' removed))))
          else if globally_managed then
            hfail FailedPrecondition
              (''setting '' @ quoted key @ '' is managed globally; delete the global setting before sandbox update'')
          else
            hbind (hlift (ok_or (InvalidArgument, ''setting_value is required'') (uc_setting_value req))) (\<lambda>setting.
            hbind (hlift (proto_setting_to_stored reg key setting)) (\<lambda>stored.
            hbind (load_sandbox_settings C (sx_id sb)) (\<lambda>s.
              case upsert_setting_value key stored (sg_settings s) of
                (changed, m) \<Rightarrow>
                  (let s' = (if changed then bump_revision (s\<lparr>sg_settings := m\<rparr>) else s) in
                   hbind (if changed then save_sandbox_settings C (sx_id sb) (sx_name sb) s' else hreturn ()) (\<lambda>_.
                     hreturn (settings_response s' False))))))))"

text \<open>A baseline is the policy in the stored spec; without one the new policy becomes it.\<close>

definition check_against_baseline :: "codec \<Rightarrow> sandbox \<Rightarrow> sandbox_spec \<Rightarrow> sandbox_policy \<Rightarrow> unit handler" where
  "check_against_baseline C sb spec new_policy =
     (case ss_policy spec of
        Some baseline \<Rightarrow>
          hbind (hlift (validate_static_fields_unchanged baseline new_policy)) (\<lambda>_.
            hlift (validate_policy_safety new_policy))
      | None \<Rightarrow>
          or_internal ''backfill spec.policy failed''
            (put_sandbox C (sb\<lparr>sx_spec := Some (spec\<lparr>ss_policy := Some new_policy\<rparr>)\<rparr>)))"

definition update_sandbox_policy :: "codec \<Rightarrow> sandbox \<Rightarrow> sandbox_policy \<Rightarrow> update_config_response handler" where
  "update_sandbox_policy C sb policy =
     hbind (load_global_settings C) (\<lambda>global.
       if map_of (sg_settings global) POLICY_SETTING_KEY \<noteq> None then
         hfail FailedPrecondition ''policy is managed globally; delete global policy before sandbox policy update''
       else
         hbind (hlift (ok_or (InternalStatus, ''sandbox has no spec'') (sx_spec sb))) (\<lambda>spec.
           let new_policy = ensure_sandbox_process_identity policy in
           hbind (check_against_baseline C sb spec new_policy) (\<lambda>_.
           hbind (or_internal ''fetch latest policy failed'' (execute (db_get_latest_policy (sx_id sb)))) (\<lambda>latest.
             let payload = cc_policy C new_policy;
                 hash = deterministic_policy_hash C new_policy;
                 commit = hbind new_uuid (\<lambda>policy_id.
                   hbind (or_internal ''persist policy revision failed''
                       (execute (db_put_policy_revision policy_id (sx_id sb) (next_version latest) payload hash))) (\<lambda>_.
                   hbind (ignoring (execute (db_supersede_older_policies (sx_id sb) (next_version latest)))) (\<lambda>_.
                   hbind (notify (sx_id sb)) (\<lambda>_.
                     hreturn (policy_response (next_version latest) hash 0))))) in
             case latest of
               Some current \<Rightarrow>
                 (if po_policy_hash current = hash then hreturn (policy_response (po_version current) hash 0) else commit)
             | None \<Rightarrow> commit))))"

definition update_config :: "codec \<Rightarrow> registry \<Rightarrow> update_config_request \<Rightarrow> update_config_response handler" where
  "update_config C reg req =
     (let key = trim_ws (uc_setting_key req);
          has_setting = (key \<noteq> []) in
      case uc_policy req of
        Some policy \<Rightarrow>
          (if has_setting then hfail InvalidArgument ''policy and setting_key cannot be set in the same request''
           else if uc_global req then update_global_policy C req policy
           else if uc_name req = [] then hfail InvalidArgument ''name is required for sandbox-scoped updates''
           else hbind (resolve_sandbox C (uc_name req)) (\<lambda>sb. update_sandbox_policy C sb policy))
      | None \<Rightarrow>
          (if \<not> has_setting then hfail InvalidArgument ''either policy or setting_key must be provided''
           else if uc_global req then update_global_setting C reg req key
           else if uc_name req = [] then hfail InvalidArgument ''name is required for sandbox-scoped updates''
           else hbind (resolve_sandbox C (uc_name req)) (\<lambda>sb. update_sandbox_setting C reg req sb key)))"

section \<open>Serving\<close>

record sandbox_config =
  gc_policy :: "sandbox_policy option"
  gc_version :: nat
  gc_policy_hash :: bytes
  gc_settings :: "(bytes \<times> effective_setting) list"
  gc_config_revision :: nat
  gc_policy_source :: policy_source
  gc_global_policy_version :: nat

text \<open>The first revision, made from the stored spec; failures are only logged.\<close>

definition backfill_revision :: "codec \<Rightarrow> bytes \<Rightarrow> sandbox_policy \<Rightarrow> unit handler" where
  "backfill_revision C sandbox_id p =
     hbind new_uuid (\<lambda>policy_id.
     hbind (attempt (execute (db_put_policy_revision policy_id sandbox_id 1 (cc_policy C p) (deterministic_policy_hash C p)))) (\<lambda>r.
       case r of
         Inl _ \<Rightarrow> hreturn ()
       | Inr _ \<Rightarrow> ignoring (execute (db_update_policy_status sandbox_id 1 ''loaded'' None None))))"

definition own_policy :: "codec \<Rightarrow> bytes \<Rightarrow> sandbox \<Rightarrow> policy_record option \<Rightarrow> (sandbox_policy option \<times> nat \<times> bytes) handler" where
  "own_policy C sandbox_id sb latest =
     (case latest of
        Some r \<Rightarrow>
          hlift (case cc_policy_of C (po_policy_payload r) of
                   Inl e \<Rightarrow> Inl (InternalStatus, ''decode policy failed: '' @ e)
                 | Inr p \<Rightarrow> Inr (Some p, version_u32 (po_version r), po_policy_hash r))
      | None \<Rightarrow>
          hbind (hlift (ok_or (InternalStatus, ''sandbox has no spec'') (sx_spec sb))) (\<lambda>spec.
            case ss_policy spec of
              None \<Rightarrow> hreturn (None, 0, [])
            | Some p \<Rightarrow> hbind (backfill_revision C sandbox_id p) (\<lambda>_. hreturn (Some p, 1, deterministic_policy_hash C p))))"

definition global_version :: "nat handler" where
  "global_version =
     hbind (attempt (execute (db_get_latest_policy GLOBAL_POLICY_SANDBOX_ID))) (\<lambda>r.
       hreturn (case r of Inr (Some rec) \<Rightarrow> version_u32 (po_version rec) | _ \<Rightarrow> 0))"

definition get_sandbox_config :: "codec \<Rightarrow> registry \<Rightarrow> bytes \<Rightarrow> sandbox_config handler" where
  "get_sandbox_config C reg sandbox_id =
     hbind (or_internal ''fetch sandbox failed'' (get_sandbox_message C sandbox_id)) (\<lambda>found.
     hbind (hlift (ok_or (NotFound, ''sandbox not found'') found)) (\<lambda>sb.
     hbind (or_internal ''fetch policy history failed'' (execute (db_get_latest_policy sandbox_id))) (\<lambda>latest.
     hbind (own_policy C sandbox_id sb latest) (\<lambda>(policy, version, hash).
     hbind (load_global_settings C) (\<lambda>global.
     hbind (load_sandbox_settings C sandbox_id) (\<lambda>own.
     hbind (hlift (decode_policy_from_global_settings C global)) (\<lambda>override.
     hbind (case override of None \<Rightarrow> hreturn 0 | Some _ \<Rightarrow> global_version) (\<lambda>gv.
     hbind (hlift (merge_effective_settings C reg global own)) (\<lambda>sets.
       let served = (case override of None \<Rightarrow> policy | Some p \<Rightarrow> Some p);
           source = (case override of None \<Rightarrow> SourceSandbox | Some _ \<Rightarrow> SourceGlobal) in
       hreturn
         \<lparr>gc_policy = served,
          gc_version = (case override of None \<Rightarrow> version | Some _ \<Rightarrow> if version = 0 then 1 else version),
          gc_policy_hash = (case override of None \<Rightarrow> hash | Some p \<Rightarrow> deterministic_policy_hash C p),
          gc_settings = sets, gc_config_revision = compute_config_revision C served sets source,
          gc_policy_source = source, gc_global_policy_version = gv\<rparr>)))))))))"

definition get_gateway_config :: "codec \<Rightarrow> registry \<Rightarrow> ((bytes \<times> setting_value) list \<times> nat) handler" where
  "get_gateway_config C reg =
     hbind (load_global_settings C) (\<lambda>global.
     hbind (hlift (materialize_global_settings C reg global)) (\<lambda>sets. hreturn (sets, sg_revision global)))"

section \<open>Load results\<close>

datatype policy_status = StatusUnspecified | Pending | Loaded | Failed | Superseded

text \<open>\<open>status\<close> is \<^const>\<open>None\<close> for a number that is none of the enumeration's.\<close>

definition report_policy_status :: "codec \<Rightarrow> bytes \<Rightarrow> nat \<Rightarrow> policy_status option \<Rightarrow> bytes \<Rightarrow> unit handler" where
  "report_policy_status C sandbox_id version status load_error =
     (if sandbox_id = [] then hfail InvalidArgument ''sandbox_id is required''
      else if version = 0 then hfail InvalidArgument ''version is required''
      else if status = Some Loaded then
        hbind current_time_ms (\<lambda>now_ms.
        hbind (or_internal ''update policy status failed''
            (execute (db_update_policy_status sandbox_id (int version) ''loaded'' None (Some now_ms)))) (\<lambda>updated.
          if \<not> updated then hfail NotFound ''policy revision not found''
          else
            hbind (ignoring (execute (db_supersede_older_policies sandbox_id (int version)))) (\<lambda>_.
            hbind (attempt (get_sandbox_message C sandbox_id)) (\<lambda>r.
            hbind (case r of
                     Inr (Some sb) \<Rightarrow> ignoring (put_sandbox C (sb\<lparr>sx_current_policy_version := version\<rparr>))
                   | _ \<Rightarrow> hreturn ()) (\<lambda>_.
              notify sandbox_id)))))
      else if status = Some Failed then
        hbind (or_internal ''update policy status failed''
            (execute (db_update_policy_status sandbox_id (int version) ''failed''
              (if load_error = [] then None else Some load_error) None))) (\<lambda>updated.
          if \<not> updated then hfail NotFound ''policy revision not found'' else hreturn ())
      else hfail InvalidArgument ''status must be LOADED or FAILED'')"

record sandbox_policy_revision =
  spr_version :: nat
  spr_policy_hash :: bytes
  spr_status :: policy_status
  spr_load_error :: bytes
  spr_created_at_ms :: int
  spr_loaded_at_ms :: int
  spr_policy :: "sandbox_policy option"

definition policy_status_of :: "bytes \<Rightarrow> policy_status" where
  "policy_status_of s =
     (if s = ''pending'' then Pending else if s = ''loaded'' then Loaded else if s = ''failed'' then Failed
      else if s = ''superseded'' then Superseded else StatusUnspecified)"

definition policy_record_to_revision :: "codec \<Rightarrow> policy_record \<Rightarrow> bool \<Rightarrow> sandbox_policy_revision" where
  "policy_record_to_revision C r include_policy =
     \<lparr>spr_version = version_u32 (po_version r), spr_policy_hash = po_policy_hash r, spr_status = policy_status_of (po_status r),
      spr_load_error = (case po_load_error r of None \<Rightarrow> [] | Some e \<Rightarrow> e), spr_created_at_ms = po_created_at_ms r,
      spr_loaded_at_ms = (case po_loaded_at_ms r of None \<Rightarrow> 0 | Some t \<Rightarrow> t),
      spr_policy = (if include_policy then result_ok (cc_policy_of C (po_policy_payload r)) else None)\<rparr>"

definition get_sandbox_policy_status :: "codec \<Rightarrow> bytes \<Rightarrow> nat \<Rightarrow> bool \<Rightarrow> (sandbox_policy_revision \<times> nat) handler" where
  "get_sandbox_policy_status C name version global =
     hbind (if global then hreturn (GLOBAL_POLICY_SANDBOX_ID, 0)
            else hbind (require_name ''name'' name) (\<lambda>_.
                 hbind (resolve_sandbox C name) (\<lambda>sb. hreturn (sx_id sb, sx_current_policy_version sb)))) (\<lambda>(policy_id, active_version).
     hbind (or_internal ''fetch policy failed''
         (if version = 0 then execute (db_get_latest_policy policy_id) else execute (db_get_policy_by_version policy_id (int version)))) (\<lambda>found.
     hbind (hlift (ok_or (NotFound, if global then ''no global policy revision found'' else ''no policy revision found for this sandbox'') found)) (\<lambda>r.
       hreturn (policy_record_to_revision C r True, active_version))))"

definition list_sandbox_policies :: "codec \<Rightarrow> bytes \<Rightarrow> nat \<Rightarrow> nat \<Rightarrow> bool \<Rightarrow> sandbox_policy_revision list handler" where
  "list_sandbox_policies C name limit offset global =
     hbind (if global then hreturn GLOBAL_POLICY_SANDBOX_ID
            else hbind (require_name ''name'' name) (\<lambda>_. hbind (resolve_sandbox C name) (\<lambda>sb. hreturn (sx_id sb)))) (\<lambda>policy_id.
     hbind (or_internal ''list policies failed'' (execute (db_list_policies policy_id (clamp_limit limit 50 MAX_PAGE_SIZE) offset))) (\<lambda>records.
       hreturn (map (\<lambda>r. policy_record_to_revision C r False) records)))"

section \<open>Static fields\<close>

lemma kept_paths_Inr: "kept_paths field ps upd = Inr () \<longleftrightarrow> set ps \<subseteq> set upd"
  by (induction ps) auto

text \<open>What may change on a live sandbox.\<close>

definition static_fields_kept :: "sandbox_policy \<Rightarrow> sandbox_policy \<Rightarrow> bool" where
  "static_fields_kept old new \<longleftrightarrow>
     sp_landlock new = sp_landlock old \<and> sp_process new = sp_process old
     \<and> (case sp_filesystem old of
          None \<Rightarrow> True
        | Some base \<Rightarrow>
            (case sp_filesystem new of
               None \<Rightarrow> False
             | Some upd \<Rightarrow> fs_include_workdir upd = fs_include_workdir base
                 \<and> set (fs_read_only base) \<subseteq> set (fs_read_only upd) \<and> set (fs_read_write base) \<subseteq> set (fs_read_write upd)))"

lemma validate_static_iff: "validate_static_fields_unchanged old new = Inr () \<longleftrightarrow> static_fields_kept old new"
  by (cases "(sp_filesystem old, sp_filesystem new)" rule: validate_filesystem_additive.cases)
    (auto simp: validate_static_fields_unchanged_def static_fields_kept_def kept_paths_Inr result_bind_Inr_iff)

end
