(* ===== verification/Gateway_Drafts.thy ===== *)
theory Gateway_Drafts
  imports Gateway_Policy
begin

text \<open>
  Policy recommendations at the gateway, \<open>crates/clustershell-server/src/grpc.rs\<close>: a sandbox submits proposed rules
  (chunks), a user approves, rejects, edits or undoes them, and an approval merges the chunk's rule into the sandbox's
  policy under optimistic concurrency control.
\<close>

section \<open>Merging\<close>

definition MERGE_RETRY_LIMIT :: nat where
  "MERGE_RETRY_LIMIT = 5"

definition require_no_global_policy :: "codec \<Rightarrow> unit handler" where
  "require_no_global_policy C =
     hbind (load_global_settings C) (\<lambda>global.
       if map_of (sg_settings global) POLICY_SETTING_KEY \<noteq> None then
         hfail FailedPrecondition (''cannot approve rules while a global policy is active; ''
           @ ''delete the global policy to manage per-sandbox rules'')
       else hreturn ())"

text \<open>Appending the elements that have no counterpart yet.\<close>

definition push_missing :: "('a \<Rightarrow> 'a \<Rightarrow> bool) \<Rightarrow> 'a list \<Rightarrow> 'a list \<Rightarrow> 'a list" where
  "push_missing same new old = fold (\<lambda>x xs. if \<exists>y\<in>set xs. same y x then xs else xs @ [x]) new old"

definition merge_rule :: "network_policy_rule \<Rightarrow> network_policy_rule \<Rightarrow> network_policy_rule" where
  "merge_rule rule existing =
     existing\<lparr>npr_binaries := push_missing (\<lambda>eb b. nb_path eb = nb_path b) (npr_binaries rule) (npr_binaries existing),
       npr_endpoints := push_missing (\<lambda>e ep. ne_host e = ne_host ep \<and> ne_port e = ne_port ep)
         (npr_endpoints rule) (npr_endpoints existing)\<rparr>"

definition merge_into :: "bytes \<Rightarrow> network_policy_rule \<Rightarrow> sandbox_policy \<Rightarrow> sandbox_policy" where
  "merge_into rule_name rule p =
     p\<lparr>sp_network_policies := hm_insert rule_name
         (case map_of (sp_network_policies p) rule_name of Some existing \<Rightarrow> merge_rule rule existing | None \<Rightarrow> rule)
         (sp_network_policies p)\<rparr>"

text \<open>A rule without binaries left goes.\<close>

definition remove_from :: "bytes \<Rightarrow> bytes \<Rightarrow> sandbox_policy \<Rightarrow> sandbox_policy" where
  "remove_from rule_name binary p =
     (case map_of (sp_network_policies p) rule_name of
        None \<Rightarrow> p
      | Some existing \<Rightarrow>
          (let bs = filter (\<lambda>b. nb_path b \<noteq> binary) (npr_binaries existing) in
           p\<lparr>sp_network_policies :=
               (if bs = [] then hm_remove rule_name (sp_network_policies p)
                else hm_insert rule_name (existing\<lparr>npr_binaries := bs\<rparr>) (sp_network_policies p))\<rparr>))"

definition empty_policy :: sandbox_policy where
  "empty_policy =
     \<lparr>sp_version = 0, sp_filesystem = None, sp_landlock = None, sp_process = None, sp_network_policies = []\<rparr>"

section \<open>Committing\<close>

definition is_conflict :: "bytes \<Rightarrow> bool" where
  "is_conflict msg \<longleftrightarrow> contains_sub msg ''UNIQUE'' \<or> contains_sub msg ''unique'' \<or> contains_sub msg ''duplicate''"

text \<open>The loop of both functions: \<open>edit\<close> makes the new policy from the latest one, \<open>n\<close> attempts are left.\<close>

fun commit_loop ::
  "codec \<Rightarrow> bytes \<Rightarrow> bytes \<Rightarrow> bytes \<Rightarrow> (bytes option \<Rightarrow> (status, sandbox_policy) result) \<Rightarrow> nat \<Rightarrow> (int \<times> bytes) handler" where
  "commit_loop C what rule_name sandbox_id edit 0 =
     hfail Aborted (what @ '': gave up after '' @ show_nat MERGE_RETRY_LIMIT @ '' version conflict retries for rule '' @ quoted rule_name)"
| "commit_loop C what rule_name sandbox_id edit (Suc n) =
     hbind (or_internal ''fetch latest policy failed'' (execute (db_get_latest_policy sandbox_id))) (\<lambda>latest.
     hbind (hlift (edit (map_option po_policy_payload latest))) (\<lambda>policy.
       let hash = deterministic_policy_hash C policy in
       hbind new_uuid (\<lambda>policy_id.
       hbind (attempt (execute (db_put_policy_revision policy_id sandbox_id (next_version latest) (cc_policy C policy) hash))) (\<lambda>r.
         case r of
           Inr _ \<Rightarrow>
             hbind (ignoring (execute (db_supersede_older_policies sandbox_id (next_version latest)))) (\<lambda>_.
               hreturn (next_version latest, hash))
         | Inl msg \<Rightarrow>
             (if is_conflict msg then commit_loop C what rule_name sandbox_id edit n
              else hfail InternalStatus (''persist policy revision failed: '' @ msg))))))"

definition decode_current :: "codec \<Rightarrow> bytes \<Rightarrow> (status, sandbox_policy) result" where
  "decode_current C payload = result_map_err (\<lambda>e. (InternalStatus, ''decode current policy failed: '' @ e)) (cc_policy_of C payload)"

definition merge_edit :: "codec \<Rightarrow> bytes \<Rightarrow> network_policy_rule \<Rightarrow> bytes option \<Rightarrow> (status, sandbox_policy) result" where
  "merge_edit C rule_name rule latest =
     result_bind (case latest of Some payload \<Rightarrow> decode_current C payload | None \<Rightarrow> Inr empty_policy)
       (\<lambda>p. Inr (merge_into rule_name rule p))"

definition merge_chunk_into_policy :: "codec \<Rightarrow> bytes \<Rightarrow> draft_chunk_record \<Rightarrow> (int \<times> bytes) handler" where
  "merge_chunk_into_policy C sandbox_id chunk =
     hbind (hlift (result_map_err (\<lambda>e. (InternalStatus, ''decode proposed_rule failed: '' @ e))
         (cc_rule_of C (dc_proposed_rule chunk)))) (\<lambda>rule.
       commit_loop C ''merge_chunk_into_policy'' (dc_rule_name chunk) sandbox_id
         (merge_edit C (dc_rule_name chunk) rule) MERGE_RETRY_LIMIT)"

definition remove_edit :: "codec \<Rightarrow> draft_chunk_record \<Rightarrow> bytes option \<Rightarrow> (status, sandbox_policy) result" where
  "remove_edit C chunk latest =
     result_bind (ok_or (InternalStatus, ''no active policy to undo from'') latest) (\<lambda>payload.
     result_bind (decode_current C payload) (\<lambda>p.
       Inr (remove_from (dc_rule_name chunk) (dc_binary chunk) p)))"

definition remove_chunk_from_policy :: "codec \<Rightarrow> bytes \<Rightarrow> draft_chunk_record \<Rightarrow> (int \<times> bytes) handler" where
  "remove_chunk_from_policy C sandbox_id chunk =
     commit_loop C ''remove_chunk_from_policy'' (dc_rule_name chunk) sandbox_id (remove_edit C chunk) MERGE_RETRY_LIMIT"

section \<open>Submitting\<close>

text \<open>\<open>confidence\<close> is handed on as it is. The fields the gateway neither reads nor sets are left out.\<close>

record policy_chunk =
  pc_id :: bytes
  pc_status :: bytes
  pc_rule_name :: bytes
  pc_proposed_rule :: "network_policy_rule option"
  pc_rationale :: bytes
  pc_security_notes :: bytes
  pc_confidence :: nat
  pc_created_at_ms :: int
  pc_decided_at_ms :: int
  pc_hit_count :: int
  pc_first_seen_ms :: int
  pc_last_seen_ms :: int
  pc_binary :: bytes

text \<open>\<open>port as i32\<close> of a \<open>u32\<close>.\<close>

definition port_i32 :: "nat \<Rightarrow> int" where
  "port_i32 port = (if port < 2 ^ 31 then int port else int port - 2 ^ 32)"

text \<open>\<open>lower\<close> is \<open>str::to_lowercase\<close>.\<close>

definition chunk_record ::
  "codec \<Rightarrow> (bytes \<Rightarrow> bytes) \<Rightarrow> bytes \<Rightarrow> int \<Rightarrow> policy_chunk \<Rightarrow> network_policy_rule \<Rightarrow> bytes \<Rightarrow> int \<Rightarrow> draft_chunk_record" where
  "chunk_record C lower sandbox_id draft_version chunk rule chunk_id now_ms =
     (let (host, port) = (case npr_endpoints rule of [] \<Rightarrow> ([], 0) | ep # _ \<Rightarrow> (lower (ne_host ep), port_i32 (ne_port ep))) in
      \<lparr>dc_id = chunk_id, dc_sandbox_id = sandbox_id, dc_draft_version = draft_version, dc_status = ''pending'',
       dc_rule_name = pc_rule_name chunk, dc_proposed_rule = cc_rule C rule, dc_rationale = pc_rationale chunk,
       dc_security_notes = pc_security_notes chunk, dc_confidence = pc_confidence chunk, dc_created_at_ms = now_ms,
       dc_decided_at_ms = None, dc_host = host, dc_port = port,
       dc_binary = (case npr_binaries rule of [] \<Rightarrow> [] | b # _ \<Rightarrow> nb_path b),
       dc_hit_count = (if 0 < pc_hit_count chunk then pc_hit_count chunk else 1),
       dc_first_seen_ms = (if 0 < pc_first_seen_ms chunk then pc_first_seen_ms chunk else now_ms),
       dc_last_seen_ms = (if 0 < pc_last_seen_ms chunk then pc_last_seen_ms chunk else now_ms)\<rparr>)"

record submitted =
  su_accepted :: nat
  su_rejected :: nat
  su_reasons :: "bytes list"

definition refuse_chunk :: "bytes \<Rightarrow> submitted \<Rightarrow> submitted handler" where
  "refuse_chunk reason s = hreturn (s\<lparr>su_rejected := su_rejected s + 1, su_reasons := su_reasons s @ [reason]\<rparr>)"

definition submit_chunk ::
  "codec \<Rightarrow> (bytes \<Rightarrow> bytes) \<Rightarrow> bytes \<Rightarrow> int \<Rightarrow> policy_chunk \<Rightarrow> submitted \<Rightarrow> submitted handler" where
  "submit_chunk C lower sandbox_id draft_version chunk s =
     (if pc_rule_name chunk = [] then refuse_chunk ''chunk missing rule_name'' s
      else case pc_proposed_rule chunk of
        None \<Rightarrow> refuse_chunk (''chunk '' @ quoted (pc_rule_name chunk) @ '' missing proposed_rule'') s
      | Some rule \<Rightarrow>
          hbind new_uuid (\<lambda>chunk_id.
          hbind current_time_ms (\<lambda>now_ms.
          hbind (or_internal ''persist draft chunk failed''
              (execute (db_put_draft_chunk (chunk_record C lower sandbox_id draft_version chunk rule chunk_id now_ms)))) (\<lambda>_.
            hreturn (s\<lparr>su_accepted := su_accepted s + 1\<rparr>)))))"

definition submit_policy_analysis ::
  "codec \<Rightarrow> (bytes \<Rightarrow> bytes) \<Rightarrow> bytes \<Rightarrow> policy_chunk list \<Rightarrow> submitted handler" where
  "submit_policy_analysis C lower name proposed_chunks =
     hbind (require_name ''name'' name) (\<lambda>_.
     hbind (resolve_sandbox C name) (\<lambda>sb.
     hbind (or_internal ''get draft version failed'' (execute (db_get_draft_version (sx_id sb)))) (\<lambda>current_version.
     hbind (hfold (submit_chunk C lower (sx_id sb) (current_version + 1)) proposed_chunks
         \<lparr>su_accepted = 0, su_rejected = 0, su_reasons = []\<rparr>) (\<lambda>s.
     hbind (notify (sx_id sb)) (\<lambda>_. hreturn s)))))"

definition draft_chunk_record_to_proto :: "codec \<Rightarrow> draft_chunk_record \<Rightarrow> (status, policy_chunk) result" where
  "draft_chunk_record_to_proto C r =
     result_bind (if dc_proposed_rule r = [] then Inr None
                  else result_map_err (\<lambda>e. (InternalStatus, ''decode proposed_rule failed: '' @ e))
                    (result_bind (cc_rule_of C (dc_proposed_rule r)) (\<lambda>rule. Inr (Some rule)))) (\<lambda>rule.
       Inr \<lparr>pc_id = dc_id r, pc_status = dc_status r, pc_rule_name = dc_rule_name r, pc_proposed_rule = rule,
            pc_rationale = dc_rationale r, pc_security_notes = dc_security_notes r, pc_confidence = dc_confidence r,
            pc_created_at_ms = dc_created_at_ms r,
            pc_decided_at_ms = (case dc_decided_at_ms r of None \<Rightarrow> 0 | Some t \<Rightarrow> t), pc_hit_count = dc_hit_count r,
            pc_first_seen_ms = dc_first_seen_ms r, pc_last_seen_ms = dc_last_seen_ms r, pc_binary = dc_binary r\<rparr>)"

fun chunks_to_proto :: "codec \<Rightarrow> draft_chunk_record list \<Rightarrow> (status, policy_chunk list) result" where
  "chunks_to_proto C [] = Inr []"
| "chunks_to_proto C (r # rs) =
     result_bind (draft_chunk_record_to_proto C r) (\<lambda>c. result_bind (chunks_to_proto C rs) (\<lambda>cs. Inr (c # cs)))"

text \<open>The chunks, the draft version and the time of the last analysis.\<close>

definition get_draft_policy :: "codec \<Rightarrow> bytes \<Rightarrow> bytes \<Rightarrow> (policy_chunk list \<times> nat \<times> int) handler" where
  "get_draft_policy C name status_filter =
     hbind (require_name ''name'' name) (\<lambda>_.
     hbind (resolve_sandbox C name) (\<lambda>sb.
     hbind (or_internal ''list draft chunks failed''
         (execute (db_list_draft_chunks (sx_id sb) (if status_filter = [] then None else Some status_filter)))) (\<lambda>records.
     hbind (or_internal ''get draft version failed'' (execute (db_get_draft_version (sx_id sb)))) (\<lambda>draft_version.
     hbind (hlift (chunks_to_proto C records)) (\<lambda>chunks.
       hreturn (chunks, nat draft_version,
         if chunks = [] then 0 else Max (set (map pc_created_at_ms chunks))))))))"

section \<open>Deciding\<close>

definition fetch_chunk :: "bytes \<Rightarrow> draft_chunk_record handler" where
  "fetch_chunk chunk_id =
     hbind (or_internal ''fetch chunk failed'' (execute (db_get_draft_chunk chunk_id))) (\<lambda>found.
       hlift (ok_or (NotFound, ''chunk not found'') found))"

definition expect_status :: "draft_chunk_record \<Rightarrow> bytes list \<Rightarrow> unit handler" where
  "expect_status chunk expected =
     (if dc_status chunk \<in> set expected then hreturn ()
      else hfail FailedPrecondition
        (''chunk status is '' @ quoted (dc_status chunk) @ '', expected '' @ join_str '' or '' (map quoted expected)))"

definition mark_chunk :: "bytes \<Rightarrow> bytes \<Rightarrow> int option \<Rightarrow> unit handler" where
  "mark_chunk chunk_id status decided =
     hbind (or_internal ''update chunk status failed'' (execute (db_update_draft_chunk_status chunk_id status decided))) (\<lambda>_. hreturn ())"

definition approve_draft_chunk :: "codec \<Rightarrow> bytes \<Rightarrow> bytes \<Rightarrow> (nat \<times> bytes) handler" where
  "approve_draft_chunk C name chunk_id =
     hbind (require_name ''name'' name) (\<lambda>_.
     hbind (require_name ''chunk_id'' chunk_id) (\<lambda>_.
     hbind (require_no_global_policy C) (\<lambda>_.
     hbind (resolve_sandbox C name) (\<lambda>sb.
     hbind (fetch_chunk chunk_id) (\<lambda>chunk.
     hbind (expect_status chunk [''pending'', ''rejected'']) (\<lambda>_.
     hbind (merge_chunk_into_policy C (sx_id sb) chunk) (\<lambda>(version, hash).
     hbind current_time_ms (\<lambda>now_ms.
     hbind (mark_chunk chunk_id ''approved'' (Some now_ms)) (\<lambda>_.
     hbind (notify (sx_id sb)) (\<lambda>_.
       hreturn (version_u32 version, hash)))))))))))"

definition reject_draft_chunk :: "codec \<Rightarrow> bytes \<Rightarrow> bytes \<Rightarrow> unit handler" where
  "reject_draft_chunk C name chunk_id =
     hbind (require_name ''name'' name) (\<lambda>_.
     hbind (require_name ''chunk_id'' chunk_id) (\<lambda>_.
     hbind (resolve_sandbox C name) (\<lambda>sb.
     hbind (fetch_chunk chunk_id) (\<lambda>chunk.
     hbind (expect_status chunk [''pending'', ''approved'']) (\<lambda>_.
     hbind (if dc_status chunk = ''approved'' then
              hbind (require_no_global_policy C) (\<lambda>_.
              hbind (remove_chunk_from_policy C (sx_id sb) chunk) (\<lambda>_. hreturn ()))
            else hreturn ()) (\<lambda>_.
     hbind current_time_ms (\<lambda>now_ms.
     hbind (mark_chunk chunk_id ''rejected'' (Some now_ms)) (\<lambda>_.
       notify (sx_id sb)))))))))"

record bulk_approval =
  ba_version :: int
  ba_hash :: bytes
  ba_approved :: nat
  ba_skipped :: nat

definition approve_one :: "codec \<Rightarrow> bytes \<Rightarrow> bool \<Rightarrow> draft_chunk_record \<Rightarrow> bulk_approval \<Rightarrow> bulk_approval handler" where
  "approve_one C sandbox_id include_security_flagged chunk s =
     (if \<not> include_security_flagged \<and> dc_security_notes chunk \<noteq> [] then
        hreturn (s\<lparr>ba_skipped := ba_skipped s + 1\<rparr>)
      else
        hbind (merge_chunk_into_policy C sandbox_id chunk) (\<lambda>(version, hash).
        hbind current_time_ms (\<lambda>now_ms.
        hbind (mark_chunk (dc_id chunk) ''approved'' (Some now_ms)) (\<lambda>_.
          hreturn (s\<lparr>ba_version := version, ba_hash := hash, ba_approved := ba_approved s + 1\<rparr>)))))"

definition approve_all_draft_chunks :: "codec \<Rightarrow> bytes \<Rightarrow> bool \<Rightarrow> bulk_approval handler" where
  "approve_all_draft_chunks C name include_security_flagged =
     hbind (require_name ''name'' name) (\<lambda>_.
     hbind (require_no_global_policy C) (\<lambda>_.
     hbind (resolve_sandbox C name) (\<lambda>sb.
     hbind (or_internal ''list draft chunks failed'' (execute (db_list_draft_chunks (sx_id sb) (Some ''pending'')))) (\<lambda>pending.
     hbind (if pending = [] then hfail FailedPrecondition ''no pending chunks to approve'' else hreturn ()) (\<lambda>_.
     hbind (hfold (approve_one C (sx_id sb) include_security_flagged) pending
         \<lparr>ba_version = 0, ba_hash = [], ba_approved = 0, ba_skipped = 0\<rparr>) (\<lambda>s.
     hbind (notify (sx_id sb)) (\<lambda>_.
       hreturn (s\<lparr>ba_version := int (version_u32 (ba_version s))\<rparr>))))))))"

definition edit_draft_chunk :: "codec \<Rightarrow> bytes \<Rightarrow> bytes \<Rightarrow> network_policy_rule option \<Rightarrow> unit handler" where
  "edit_draft_chunk C name chunk_id proposed_rule =
     hbind (require_name ''name'' name) (\<lambda>_.
     hbind (require_name ''chunk_id'' chunk_id) (\<lambda>_.
     hbind (hlift (ok_or (InvalidArgument, ''proposed_rule is required'') proposed_rule)) (\<lambda>rule.
     hbind (resolve_sandbox C name) (\<lambda>_.
     hbind (fetch_chunk chunk_id) (\<lambda>chunk.
     hbind (expect_status chunk [''pending'']) (\<lambda>_.
     hbind (or_internal ''update chunk rule failed'' (execute (db_update_draft_chunk_rule chunk_id (cc_rule C rule)))) (\<lambda>_.
       hreturn ())))))))"

definition undo_draft_chunk :: "codec \<Rightarrow> bytes \<Rightarrow> bytes \<Rightarrow> (nat \<times> bytes) handler" where
  "undo_draft_chunk C name chunk_id =
     hbind (require_name ''name'' name) (\<lambda>_.
     hbind (require_name ''chunk_id'' chunk_id) (\<lambda>_.
     hbind (resolve_sandbox C name) (\<lambda>sb.
     hbind (fetch_chunk chunk_id) (\<lambda>chunk.
     hbind (expect_status chunk [''approved'']) (\<lambda>_.
     hbind (remove_chunk_from_policy C (sx_id sb) chunk) (\<lambda>(version, hash).
     hbind (mark_chunk chunk_id ''pending'' None) (\<lambda>_.
     hbind (notify (sx_id sb)) (\<lambda>_.
       hreturn (version_u32 version, hash)))))))))"

definition clear_draft_chunks :: "codec \<Rightarrow> bytes \<Rightarrow> nat handler" where
  "clear_draft_chunks C name =
     hbind (require_name ''name'' name) (\<lambda>_.
     hbind (resolve_sandbox C name) (\<lambda>sb.
     hbind (or_internal ''delete draft chunks failed'' (execute (db_delete_draft_chunks (sx_id sb) ''pending''))) (\<lambda>deleted.
     hbind (notify (sx_id sb)) (\<lambda>_.
       hreturn (version_u32 (int deleted))))))"

end
