(* ===== verification/Gateway_Grants.thy ===== *)
theory Gateway_Grants
  imports Gateway_Drafts Policy_Refinement
begin

text \<open>
  What approving a recommendation and taking it back do to the connections a sandbox may make: the merge of \<open>grpc.rs\<close>
  against the policy specification the sandbox's proxy implements.
\<close>

section \<open>Merging\<close>

lemma push_missing_keeps: "set old \<subseteq> set (push_missing same new old)"
  unfolding push_missing_def by (induction new arbitrary: old) fastforce+

lemma push_missing_old: "y \<in> set old \<Longrightarrow> y \<in> set (push_missing same new old)"
  using push_missing_keeps by fast

lemma push_missing_sub: "set (push_missing same new old) \<subseteq> set new \<union> set old"
proof (induction new arbitrary: old)
  case (Cons z new)
  have "push_missing same (z # new) old = push_missing same new (if \<exists>y\<in>set old. same y z then old else old @ [z])"
    by (simp add: push_missing_def)
  with Cons [of "if \<exists>y\<in>set old. same y z then old else old @ [z]"] show ?case by (auto split: if_splits)
qed (simp add: push_missing_def)

lemma push_missing_new:
  "(\<And>x. same x x) \<Longrightarrow> x \<in> set new \<Longrightarrow> \<exists>y\<in>set (push_missing same new old). same y x"
proof (induction new arbitrary: old)
  case (Cons z new)
  let ?old = "if \<exists>y\<in>set old. same y z then old else old @ [z]"
  have step: "push_missing same (z # new) old = push_missing same new ?old" by (simp add: push_missing_def)
  show ?case
  proof (cases "x = z")
    case True
    then have "\<exists>y\<in>set ?old. same y x" using Cons.prems(1) by auto
    then show ?thesis unfolding step using push_missing_old by fast
  qed (use Cons in \<open>simp add: step\<close>)
qed simp

lemma update_set: "set (AList.update k v m) \<supseteq> {kr \<in> set m. fst kr \<noteq> k} \<union> {(k, v)}"
  by (induction m) auto

lemma update_old:
  "kr \<in> set m \<Longrightarrow> kr \<in> set (AList.update k v m) \<or> map_of m k = Some (snd kr) \<and> fst kr = k"
  by (induction m) auto

lemma merge_into_entry:
  "(name, case map_of (sp_network_policies p) name of Some existing \<Rightarrow> merge_rule rule existing | None \<Rightarrow> rule)
     \<in> set (sp_network_policies (merge_into name rule p))"
  unfolding merge_into_def hm_insert_def using update_set by fastforce

text \<open>Every entry of the old policy has one in the new policy with at least its endpoints and binaries.\<close>

lemma merge_into_old:
  assumes "kr \<in> set (sp_network_policies p)"
  obtains kr' where "kr' \<in> set (sp_network_policies (merge_into name rule p))"
    "set (npr_endpoints (snd kr)) \<subseteq> set (npr_endpoints (snd kr'))" "set (npr_binaries (snd kr)) \<subseteq> set (npr_binaries (snd kr'))"
proof (cases "map_of (sp_network_policies p) name = Some (snd kr) \<and> fst kr = name")
  case True
  have "(name, merge_rule rule (snd kr)) \<in> set (sp_network_policies (merge_into name rule p))"
    using merge_into_entry [where name = name and p = p and rule = rule] True by simp
  then show ?thesis by (rule that) (simp_all add: merge_rule_def push_missing_keeps)
next
  case False
  then have "kr \<in> set (sp_network_policies (merge_into name rule p))"
    using update_old [OF assms] by (auto simp: merge_into_def hm_insert_def)
  then show ?thesis by (rule that) simp_all
qed

lemma merge_into_mono:
  "connection_permitted B p host port path anc \<Longrightarrow> connection_permitted B (merge_into name rule p) host port path anc"
  "request_permitted B p host port path anc m t \<Longrightarrow> request_permitted B (merge_into name rule p) host port path anc m t"
  unfolding connection_permitted_def rule_covers_def request_permitted_def
  by (elim bexE conjE, erule merge_into_old [where name = name and rule = rule], blast)+

text \<open>An endpoint for one port, as the sandboxes propose them, and one with the canonical form of ports.\<close>

definition single_port :: "network_endpoint \<Rightarrow> bool" where
  "single_port e \<longleftrightarrow> ne_host e \<noteq> [] \<and> ne_ports e = [ne_port e] \<and> 0 < ne_port e"

definition canonical_ports :: "network_policy_rule \<Rightarrow> bool" where
  "canonical_ports r \<longleftrightarrow> list_all (\<lambda>e. ne_port e = first_port (ne_ports e) 0) (npr_endpoints r)"

lemma single_port_covers:
  assumes "single_port e" "ne_host e' = ne_host e" "ne_port e' = ne_port e" "ne_port e' = first_port (ne_ports e') 0"
    "endpoint_covers B e host port"
  shows "endpoint_covers B e' host port"
  using assms by (cases "ne_ports e'") (auto simp: endpoint_covers_def single_port_def normalized_ports_def first_port_def)

lemma merged_endpoint:
  assumes "e \<in> set (npr_endpoints rule)" "single_port e" "endpoint_covers B e host port" "canonical_ports rule" "canonical_ports existing"
  shows "\<exists>e'\<in>set (npr_endpoints (merge_rule rule existing)). endpoint_covers B e' host port"
proof -
  let ?same = "\<lambda>e ep. ne_host e = ne_host ep \<and> ne_port e = ne_port ep"
  let ?es = "push_missing ?same (npr_endpoints rule) (npr_endpoints existing)"
  obtain e' where e': "e' \<in> set ?es" "?same e' e" using push_missing_new [of ?same] assms(1) by blast
  have "e' \<in> set (npr_endpoints rule) \<union> set (npr_endpoints existing)" using push_missing_sub e'(1) by fast
  with assms(4,5) have "ne_port e' = first_port (ne_ports e') 0"
    unfolding canonical_ports_def list_all_iff by blast
  with single_port_covers [OF assms(2)] e' assms(3) have "endpoint_covers B e' host port" by blast
  with e'(1) show ?thesis by (auto simp: merge_rule_def)
qed

lemma merged_binary:
  assumes "b \<in> set (npr_binaries rule)" "binary_covers B (nb_path b) path anc"
  shows "\<exists>b'\<in>set (npr_binaries (merge_rule rule existing)). binary_covers B (nb_path b') path anc"
proof -
  obtain b' where "b' \<in> set (push_missing (\<lambda>eb b. nb_path eb = nb_path b) (npr_binaries rule) (npr_binaries existing))"
    "nb_path b' = nb_path b"
    using push_missing_new [of "\<lambda>eb b. nb_path eb = nb_path b"] assms(1) by blast
  with assms(2) show ?thesis by (intro bexI [of _ b']) (simp_all add: merge_rule_def)
qed

section \<open>Taking back\<close>

lemma delete_update_fresh: "k \<notin> fst ` set m \<Longrightarrow> AList.delete k (AList.update k v m) = m"
  by (induction m) (auto simp: delete_id)

lemma remove_merge_fresh:
  assumes "map_of (sp_network_policies p) name = None" "list_all (\<lambda>b. nb_path b = binary) (npr_binaries rule)"
  shows "remove_from name binary (merge_into name rule p) = p"
proof -
  have k: "name \<notin> fst ` set (sp_network_policies p)" using assms(1) by (simp add: map_of_eq_None_iff)
  have "filter (\<lambda>b. nb_path b \<noteq> binary) (npr_binaries rule) = []" using assms(2) by (simp add: filter_empty_conv list_all_iff)
  then show ?thesis
    using assms(1) by (simp add: remove_from_def merge_into_def hm_insert_def hm_remove_def update_conv' delete_update_fresh [OF k])
qed

text \<open>What is left of the rule a chunk was merged into, when it had another binary.\<close>

lemma remove_merge_existing:
  assumes "map_of (sp_network_policies p) name = Some existing" "b \<in> set (npr_binaries existing)" "nb_path b \<noteq> binary"
  shows "\<exists>kr\<in>set (sp_network_policies (remove_from name binary (merge_into name rule p))).
    npr_endpoints (snd kr) = npr_endpoints (merge_rule rule existing) \<and> b \<in> set (npr_binaries (snd kr))"
proof -
  let ?bs = "filter (\<lambda>b. nb_path b \<noteq> binary) (npr_binaries (merge_rule rule existing))"
  have b: "b \<in> set ?bs" using assms(2,3) by (simp add: merge_rule_def push_missing_old)
  then have ne: "?bs \<noteq> []" by (metis empty_iff list.set(1))
  have get: "map_of (sp_network_policies (merge_into name rule p)) name = Some (merge_rule rule existing)"
    using assms(1) by (simp add: merge_into_def hm_insert_def update_conv')
  have "(name, (merge_rule rule existing)\<lparr>npr_binaries := ?bs\<rparr>) \<in> set (sp_network_policies (remove_from name binary (merge_into name rule p)))"
    using ne update_set unfolding remove_from_def get by (fastforce simp: hm_insert_def Let_def)
  then show ?thesis using b by (intro bexI) (simp_all del: set_filter)
qed

lemma merge_into_grants:
  assumes "b \<in> set (npr_binaries rule)" "binary_covers B (nb_path b) path anc"
    "e \<in> set (npr_endpoints rule)" "single_port e" "endpoint_covers B e host port" "canonical_ports rule"
    "case map_of (sp_network_policies p) name of None \<Rightarrow> True | Some existing \<Rightarrow> canonical_ports existing"
  shows "connection_permitted B (merge_into name rule p) host port path anc"
proof (cases "map_of (sp_network_policies p) name")
  case None
  then have "(name, rule) \<in> set (sp_network_policies (merge_into name rule p))"
    using merge_into_entry [where name = name and p = p and rule = rule] by simp
  moreover have "rule_covers B rule host port path anc" using assms by (auto simp: rule_covers_def)
  ultimately show ?thesis by (force simp: connection_permitted_def)
next
  case (Some existing)
  then have "(name, merge_rule rule existing) \<in> set (sp_network_policies (merge_into name rule p))"
    using merge_into_entry [where name = name and p = p and rule = rule] by simp
  moreover have "rule_covers B (merge_rule rule existing) host port path anc"
    using merged_endpoint [OF assms(3-6)] merged_binary [OF assms(1,2)] assms(7) Some by (simp add: rule_covers_def)
  ultimately show ?thesis by (force simp: connection_permitted_def)
qed

section \<open>Properties\<close>

text \<open>Approving a recommendation gives the sandbox what was recommended and takes nothing away. In the merged policy
  every connection and request permitted before is permitted, and so is a connection of a recommended binary to a
  recommended endpoint, when the endpoints recommended and those of an existing rule of that name name one port each in
  the form conversion from YAML gives them.\<close>

theorem approval_grants_recommendation:
  assumes "b \<in> set (npr_binaries rule)" "binary_covers B (nb_path b) path anc"
    "e \<in> set (npr_endpoints rule)" "single_port e" "endpoint_covers B e host port" "canonical_ports rule"
    "case map_of (sp_network_policies p) name of None \<Rightarrow> True | Some existing \<Rightarrow> canonical_ports existing"
  shows "connection_permitted B (merge_into name rule p) host port path anc
    \<and> (connection_permitted B p host' port' path' anc' \<longrightarrow> connection_permitted B (merge_into name rule p) host' port' path' anc')
    \<and> (request_permitted B p host' port' path' anc' m t \<longrightarrow> request_permitted B (merge_into name rule p) host' port' path' anc' m t)"
  using merge_into_grants [OF assms] merge_into_mono by blast

text \<open>Taking back an approval that made a rule of its own restores the policy exactly.\<close>

theorem undo_restores_policy:
  assumes "map_of (sp_network_policies p) name = None" "list_all (\<lambda>b. nb_path b = binary) (npr_binaries rule)"
  shows "remove_from name binary (merge_into name rule p) = p"
  by (rule remove_merge_fresh [OF assms])

text \<open>Taking back an approval that was merged into an existing rule does not: the endpoint it brought stays, so every
  other binary of that rule keeps access to it.\<close>

theorem undo_keeps_endpoint:
  assumes "map_of (sp_network_policies p) name = Some existing" "b \<in> set (npr_binaries existing)" "nb_path b \<noteq> binary"
    "binary_covers B (nb_path b) path anc" "e \<in> set (npr_endpoints rule)" "single_port e" "endpoint_covers B e host port"
    "canonical_ports rule" "canonical_ports existing"
  shows "connection_permitted B (remove_from name binary (merge_into name rule p)) host port path anc"
  using remove_merge_existing [OF assms(1-3), of rule] merged_endpoint [OF assms(5-9)] assms(4)
  unfolding connection_permitted_def rule_covers_def by metis

text \<open>The quickstart policy, and a recommendation for git and a second host under the same rule.\<close>

definition git_rule :: network_policy_rule where
  "git_rule = \<lparr>npr_name = ''github_api'',
     npr_endpoints = [\<lparr>ne_host = ''gitlab.com'', ne_port = 443, ne_protocol = [], ne_tls = [], ne_enforcement = [], ne_access = [],
       ne_rules = [], ne_allowed_ips = [], ne_ports = [443]\<rparr>],
     npr_binaries = [\<lparr>nb_path = ''/usr/bin/git'', nb_harness = False\<rparr>]\<rparr>"

lemmas git_simps = git_rule_def quickstart_spec_simps single_port_def canonical_ports_def first_port_def

theorem approval_grants_recommendation_witness:
  "connection_permitted literal_builtins (merge_into ''github_api'' git_rule quickstart_policy) ''gitlab.com'' 443 ''/usr/bin/git'' []
   \<and> connection_permitted literal_builtins (merge_into ''github_api'' git_rule quickstart_policy) ''api.github.com'' 443 ''/usr/bin/curl'' []"
proof -
  let ?b = "hd (npr_binaries git_rule)" and ?e = "hd (npr_endpoints git_rule)"
  have "connection_permitted literal_builtins quickstart_policy ''api.github.com'' 443 ''/usr/bin/curl'' []"
    by (simp add: connection_permitted_def quickstart_spec_simps)
  then show ?thesis
    using approval_grants_recommendation [of ?b git_rule literal_builtins "''/usr/bin/git''" "[]" ?e "''gitlab.com''" 443
        quickstart_policy "''github_api''" "''api.github.com''" 443 "''/usr/bin/curl''" "[]"]
    by (simp add: git_simps)
qed

theorem undo_restores_policy_witness:
  "remove_from ''gitlab'' ''/usr/bin/git'' (merge_into ''gitlab'' git_rule quickstart_policy) = quickstart_policy"
  by (rule undo_restores_policy) (simp_all add: git_rule_def quickstart_policy_def)

theorem undo_keeps_endpoint_witness:
  "\<not> connection_permitted literal_builtins quickstart_policy ''gitlab.com'' 443 ''/usr/bin/curl'' []
   \<and> connection_permitted literal_builtins
       (remove_from ''github_api'' ''/usr/bin/git'' (merge_into ''github_api'' git_rule quickstart_policy)) ''gitlab.com'' 443 ''/usr/bin/curl'' []"
proof
  show "\<not> connection_permitted literal_builtins quickstart_policy ''gitlab.com'' 443 ''/usr/bin/curl'' []"
    by (simp add: connection_permitted_def quickstart_spec_simps)
  show "connection_permitted literal_builtins
      (remove_from ''github_api'' ''/usr/bin/git'' (merge_into ''github_api'' git_rule quickstart_policy)) ''gitlab.com'' 443 ''/usr/bin/curl'' []"
    by (rule undo_keeps_endpoint [where existing = quickstart_rule and b = "hd (npr_binaries quickstart_rule)"
          and e = "hd (npr_endpoints git_rule)"]) (simp_all add: git_simps)
qed

end
