(* ===== verification/Gateway_History.thy ===== *)
theory Gateway_History
  imports Gateway_Drafts
begin

text \<open>
  The gateway as a whole: its requests as a step relation on the world, and what holds of the tables after any number of
  them, with other tasks' statements between any two statements of a request.
\<close>

section \<open>Requests\<close>

text \<open>One request, from its arrival to its answer. Between requests time passes and a new script is drawn.\<close>

inductive gateway_step :: "codec \<Rightarrow> registry \<Rightarrow> (bytes \<Rightarrow> bytes) \<Rightarrow> world \<Rightarrow> world \<Rightarrow> bool"
  for C :: codec and reg :: registry and lower :: "bytes \<Rightarrow> bytes" where
  arrival: "fair (w\<lparr>w_now := now, w_script := script\<rparr>) \<Longrightarrow> gateway_step C reg lower w (w\<lparr>w_now := now, w_script := script\<rparr>)"
| update_config: "update_config C reg req w = (r, w') \<Longrightarrow> gateway_step C reg lower w w'"
| get_sandbox_config: "get_sandbox_config C reg i w = (r, w') \<Longrightarrow> gateway_step C reg lower w w'"
| get_gateway_config: "get_gateway_config C reg w = (r, w') \<Longrightarrow> gateway_step C reg lower w w'"
| report_policy_status: "report_policy_status C i v st e w = (r, w') \<Longrightarrow> gateway_step C reg lower w w'"
| get_sandbox_policy_status: "get_sandbox_policy_status C n v g w = (r, w') \<Longrightarrow> gateway_step C reg lower w w'"
| list_sandbox_policies: "list_sandbox_policies C n l off g w = (r, w') \<Longrightarrow> gateway_step C reg lower w w'"
| submit_policy_analysis: "submit_policy_analysis C lower n cs w = (r, w') \<Longrightarrow> gateway_step C reg lower w w'"
| get_draft_policy: "get_draft_policy C n f w = (r, w') \<Longrightarrow> gateway_step C reg lower w w'"
| approve_draft_chunk: "approve_draft_chunk C n i w = (r, w') \<Longrightarrow> gateway_step C reg lower w w'"
| reject_draft_chunk: "reject_draft_chunk C n i w = (r, w') \<Longrightarrow> gateway_step C reg lower w w'"
| approve_all_draft_chunks: "approve_all_draft_chunks C n flagged w = (r, w') \<Longrightarrow> gateway_step C reg lower w w'"
| edit_draft_chunk: "edit_draft_chunk C n i rule w = (r, w') \<Longrightarrow> gateway_step C reg lower w w'"
| undo_draft_chunk: "undo_draft_chunk C n i w = (r, w') \<Longrightarrow> gateway_step C reg lower w w'"
| clear_draft_chunks: "clear_draft_chunks C n w = (r, w') \<Longrightarrow> gateway_step C reg lower w w'"
| create_provider: "create_provider_record C n p w = (r, w') \<Longrightarrow> gateway_step C reg lower w w'"
| update_provider: "update_provider_record C p w = (r, w') \<Longrightarrow> gateway_step C reg lower w w'"
| delete_provider: "delete_provider_record C n w = (r, w') \<Longrightarrow> gateway_step C reg lower w w'"
| get_provider: "get_provider_record C n w = (r, w') \<Longrightarrow> gateway_step C reg lower w w'"
| list_providers: "list_provider_records C l off w = (r, w') \<Longrightarrow> gateway_step C reg lower w w'"

section \<open>The handlers are lawful\<close>

lemma lawful_settings [lawful_intros]:
  assumes "stable P"
  shows "lawful P (load_settings_record C t i)" "lawful P (save_settings_record C t i n s)"
    "lawful P (load_global_settings C)" "lawful P (save_global_settings C s)" "lawful P (load_sandbox_settings C sb)"
    "lawful P (save_sandbox_settings C sb n s)" "lawful P (store_global C key val)" "lawful P (require_no_global_policy C)"
  unfolding load_settings_record_def save_settings_record_def load_global_settings_def save_global_settings_def
    load_sandbox_settings_def save_sandbox_settings_def store_global_def require_no_global_policy_def Let_def
  by (intro lawful_intros assms)+

lemma lawful_providers:
  "lawful history_ok (create_provider_record C n p)" "lawful history_ok (update_provider_record C p)"
  "lawful history_ok (delete_provider_record C n)" "lawful history_ok (get_provider_record C n)"
  "lawful history_ok (list_provider_records C l off)"
  unfolding create_provider_record_def update_provider_record_def delete_provider_record_def get_provider_record_def
    list_provider_records_def Let_def
  by (intro lawful_intros)+

lemma lawful_commit_loop [lawful_intros]: "lawful history_ok (commit_loop C what rn sb edit n)"
proof (induction n)
  case (Suc n)
  note IH = lawful_weaken [OF Suc]
  show ?case
    unfolding commit_loop.simps Let_def
    by (rule lawful_latest, rule stable_history, assumption, intro lawful_intros IH) auto
qed (simp add: lawful_intros)

lemma lawful_drafts [lawful_intros]:
  "lawful history_ok (merge_chunk_into_policy C sb chunk)" "lawful history_ok (remove_chunk_from_policy C sb chunk)"
  "lawful history_ok (fetch_chunk i)" "lawful history_ok (expect_status chunk sts)" "lawful history_ok (mark_chunk i st t)"
  unfolding merge_chunk_into_policy_def remove_chunk_from_policy_def fetch_chunk_def expect_status_def mark_chunk_def
  by (intro lawful_intros)+

lemma lawful_draft_handlers:
  "lawful history_ok (submit_policy_analysis C lower n cs)" "lawful history_ok (get_draft_policy C n f)"
  "lawful history_ok (approve_draft_chunk C n i)" "lawful history_ok (reject_draft_chunk C n i)"
  "lawful history_ok (approve_all_draft_chunks C n flagged)" "lawful history_ok (edit_draft_chunk C n i rule)"
  "lawful history_ok (undo_draft_chunk C n i)" "lawful history_ok (clear_draft_chunks C n)"
  unfolding submit_policy_analysis_def submit_chunk_def refuse_chunk_def get_draft_policy_def approve_draft_chunk_def
    reject_draft_chunk_def approve_all_draft_chunks_def approve_one_def edit_draft_chunk_def undo_draft_chunk_def
    clear_draft_chunks_def
  by (intro lawful_intros)+

lemma lawful_first_revision [lawful_intros]: "stable P \<Longrightarrow> lawful P (execute (db_put_policy_revision i sb 1 p h))"
  by (rule lawful_put_revision) (auto simp: follows_def)

lemma lawful_commit_global:
  assumes "stable P" "\<And>d. P d \<Longrightarrow> follows GLOBAL_POLICY_SANDBOX_ID v d"
  shows "lawful P (commit_global C v payload hash stored)"
  unfolding commit_global_def by (intro lawful_intros assms)

text \<open>A new revision unless the latest one will do.\<close>

lemma lawful_unless_current:
  assumes "\<And>r. lawful history_ok (m r)"
    "\<And>latest P. \<lbrakk>stable P; \<And>d. P d \<Longrightarrow> follows sb (next_version latest) d\<rbrakk> \<Longrightarrow> lawful P (commit latest)"
  shows "lawful history_ok (hbind (or_internal what (execute (db_get_latest_policy sb)))
    (\<lambda>latest. case latest of None \<Rightarrow> commit latest | Some r \<Rightarrow> if b r then m r else commit latest))"
proof (rule lawful_latest [OF stable_history])
  fix latest
  let ?P = "\<lambda>d. history_ok d \<and> follows sb (next_version latest) d"
  have "lawful ?P (commit latest)" by (rule assms(2)) (intro lawful_intros, simp)
  moreover have "lawful ?P (m r)" for r by (rule lawful_weaken [OF assms(1)]) simp
  ultimately show "lawful ?P (case latest of None \<Rightarrow> commit latest | Some r \<Rightarrow> if b r then m r else commit latest)"
    by (auto split: option.splits)
qed

lemma lawful_update_global_policy [lawful_intros]: "lawful history_ok (update_global_policy C req policy)"
  unfolding update_global_policy_def Let_def
  by (rule lawful_control(1), rule lawful_simple, rule lawful_bind [OF stable_history lawful_simple(3)],
      rule lawful_unless_current, intro lawful_intros) (rule lawful_commit_global, assumption, blast)

lemma lawful_update_settings [lawful_intros]:
  "lawful history_ok (update_global_setting C reg req key)" "lawful history_ok (update_sandbox_setting C reg req sb key)"
  unfolding update_global_setting_def update_sandbox_setting_def supersede_global_def Let_def
  by (intro lawful_intros)+

lemma lawful_check_against_baseline [lawful_intros]: "lawful history_ok (check_against_baseline C sb spec p)"
  unfolding check_against_baseline_def by (intro lawful_intros)

lemma lawful_update_sandbox_policy [lawful_intros]: "lawful history_ok (update_sandbox_policy C sb policy)"
  unfolding update_sandbox_policy_def Let_def
  apply (rule lawful_bind [OF stable_history], intro lawful_intros)
  apply (rule lawful_control(1), intro lawful_intros)
  apply (rule lawful_bind [OF stable_history], intro lawful_intros)
  apply (rule lawful_bind [OF stable_history], intro lawful_intros)
  apply (rule lawful_unless_current; intro lawful_intros; assumption)
  done

lemma lawful_policy_handlers:
  "lawful history_ok (update_config C reg req)" "lawful history_ok (get_sandbox_config C reg i)"
  "lawful history_ok (get_gateway_config C reg)" "lawful history_ok (report_policy_status C i v st e)"
  "lawful history_ok (get_sandbox_policy_status C n v g)" "lawful history_ok (list_sandbox_policies C n l off g)"
  unfolding update_config_def get_sandbox_config_def own_policy_def backfill_revision_def global_version_def
    get_gateway_config_def report_policy_status_def get_sandbox_policy_status_def list_sandbox_policies_def Let_def
  by (intro lawful_intros)+

lemmas lawful_handlers = lawful_policy_handlers lawful_draft_handlers lawful_providers

section \<open>What every run keeps\<close>

lemma lawfulD: "lawful P m \<Longrightarrow> m w = (r, w') \<Longrightarrow> fair w \<Longrightarrow> P (w_db w) \<Longrightarrow> db_step\<^sup>*\<^sup>* (w_db w) (w_db w') \<and> fair w'"
  by (auto simp: lawful_def)

lemma lawful_snd: "lawful P m \<Longrightarrow> fair w \<Longrightarrow> P (w_db w) \<Longrightarrow> db_step\<^sup>*\<^sup>* (w_db w) (w_db (snd (m w)))"
  using lawfulD [of P m w "fst (m w)" "snd (m w)"] by simp

lemma gateway_step_db:
  assumes "gateway_step C reg lower w w'" "fair w" "history_ok (w_db w)"
  shows "db_step\<^sup>*\<^sup>* (w_db w) (w_db w') \<and> fair w'"
  using assms(1)
proof cases
  case (arrival now script)
  then show ?thesis by simp
qed (erule lawful_handlers [THEN lawfulD]; fact assms)+

section \<open>Commits\<close>

text \<open>What a commit does when nothing happens besides: one new revision, made from the latest one.\<close>

definition atomic_commit ::
  "codec \<Rightarrow> bytes \<Rightarrow> (bytes option \<Rightarrow> (status, sandbox_policy) result) \<Rightarrow> db \<Rightarrow> int \<times> bytes \<Rightarrow> db \<Rightarrow> bool" where
  "atomic_commit C sb edit d answer d' \<longleftrightarrow>
     (\<exists>p. edit (map_option (\<lambda>(_, payload, _). payload) (latest_revision sb d)) = Inr p
        \<and> answer = (case latest_revision sb d of None \<Rightarrow> 1 | Some (n, _) \<Rightarrow> n + 1, deterministic_policy_hash C p)
        \<and> revision_at d sb (fst answer) = None
        \<and> revision_at d' = (\<lambda>s v. if s = sb \<and> v = fst answer then Some (cc_policy C p, snd answer) else revision_at d s v))"

definition tables_ok :: "db \<Rightarrow> bool" where
  "tables_ok d \<longleftrightarrow> db_ok d \<and> history_ok d"

lemma tables_ok_steps: "db_step\<^sup>*\<^sup>* d d' \<Longrightarrow> tables_ok d \<Longrightarrow> tables_ok d'"
  unfolding tables_ok_def by (rule revs.evolves_inv)

lemma latest_of:
  "map_option (\<lambda>(_, payload, _). payload) (latest_revision sb d) = map_option po_policy_payload (first_row (revisions sb d))"
  "(case latest_revision sb d of None \<Rightarrow> 1 | Some (n, _) \<Rightarrow> n + 1) = next_version (first_row (revisions sb d))"
  by (cases "first_row (revisions sb d)"; simp add: latest_revision_def next_version_def)+

lemma put_latest_atomic:
  assumes "tables_ok d0" "db_step\<^sup>*\<^sup>* d0 d"
    "edit (map_option po_policy_payload (first_row (revisions sb d0))) = Inr p"
    "db_put_policy_revision i sb (next_version (first_row (revisions sb d0))) (cc_policy C p) (deterministic_policy_hash C p) now d
       = (Inr x, d')"
  shows "atomic_commit C sb edit d (next_version (first_row (revisions sb d0)), deterministic_policy_hash C p) d'"
proof -
  let ?v = "next_version (first_row (revisions sb d0))" and ?h = "deterministic_policy_hash C p"
  have put: "revision_at d sb ?v = None"
    "revision_at d' = (\<lambda>s u. if s = sb \<and> u = ?v then Some (cc_policy C p, ?h) else revision_at d s u)"
    using put_revision_cases [of i sb ?v "cc_policy C p" ?h now d] assms(4) by auto
  have "latest_revision sb d = latest_revision sb d0"
    by (rule revs.free_number) (use assms(1,2) put(1) in \<open>simp_all add: tables_ok_def latest_of\<close>)
  then show ?thesis
    using put assms(3) by (auto simp: atomic_commit_def fun_eq_iff simp flip: latest_of)
qed

text \<open>However others interfere, the loop's effect is that of one commit at one moment.\<close>

lemma commit_loop_atomic:
  assumes "commit_loop C what rn sb edit n w = (Inr answer, w')" "fair w" "tables_ok (w_db w)"
  shows "\<exists>d d'. db_step\<^sup>*\<^sup>* (w_db w) d \<and> atomic_commit C sb edit d answer d' \<and> db_step\<^sup>*\<^sup>* d' (w_db w')"
  using assms
proof (induction n arbitrary: w)
  case (Suc n)
  from Suc.prems(1) obtain latest w1 p r w3 where
    read: "execute (db_get_latest_policy sb) w = (Inr latest, w1)"
    and p: "edit (map_option po_policy_payload latest) = Inr p"
    and put: "execute (db_put_policy_revision (w_uuid w1 0) sb (next_version latest) (cc_policy C p) (deterministic_policy_hash C p))
        (w1\<lparr>w_uuid := \<lambda>n. w_uuid w1 (Suc n)\<rparr>) = (r, w3)"
    and rest: "(case r of Inr _ \<Rightarrow>
             hbind (ignoring (execute (db_supersede_older_policies sb (next_version latest)))) (\<lambda>_.
               hreturn (next_version latest, deterministic_policy_hash C p))
         | Inl msg \<Rightarrow>
             (if is_conflict msg then commit_loop C what rn sb edit n
              else hfail InternalStatus (''persist policy revision failed: '' @ msg))) w3 = (Inr answer, w')"
    by (auto simp: Let_def)
  obtain d1 now where d1: "db_step\<^sup>*\<^sup>* (w_db w) d1" "latest = first_row (revisions sb d1)" "w_db w1 = d1"
    using run_fair(2) [OF read Suc.prems(2)] by (auto simp: db_get_latest_policy_def)
  have ok1: "tables_ok d1" by (rule tables_ok_steps [OF d1(1) Suc.prems(3)])
  have fair1: "fair (w1\<lparr>w_uuid := \<lambda>n. w_uuid w1 (Suc n)\<rparr>)" using run_fair(1) [OF read Suc.prems(2)] by simp
  note put_fair = run_fair [OF put fair1]
  from put_fair(2) d1(3) obtain d2 now2 where d2: "db_step\<^sup>*\<^sup>* d1 d2"
    "db_put_policy_revision (w_uuid w1 0) sb (next_version latest) (cc_policy C p) (deterministic_policy_hash C p) now2 d2
        = (r, w_db w3) \<or> (\<exists>e. r = Inl e) \<and> w_db w3 = d2" by auto
  show ?case
  proof (cases r)
    case (Inr x)
    then have "atomic_commit C sb edit d2 (next_version latest, deterministic_policy_hash C p) (w_db w3)"
      using put_latest_atomic [OF ok1 d2(1)] p d2(2) unfolding d1(2) by blast
    moreover have "answer = (next_version latest, deterministic_policy_hash C p)" "db_step\<^sup>*\<^sup>* (w_db w3) (w_db w')"
      using rest Inr lawful_snd [OF lawful_writes(5) [of "\<lambda>_. True"], of w3 sb "next_version latest"] put_fair(1)
      by (auto simp: stable_def)
    ultimately show ?thesis using d1(1) d2(1) by (auto intro: rtranclp_trans)
  next
    case (Inl msg)
    then have d3: "w_db w3 = d2"
      using d2(2) put_revision_cases [of "w_uuid w1 0" sb "next_version latest" "cc_policy C p" "deterministic_policy_hash C p" now2 d2]
      by auto
    then have "tables_ok (w_db w3)" using tables_ok_steps [OF d2(1) ok1] by simp
    moreover have "commit_loop C what rn sb edit n w3 = (Inr answer, w')" using rest Inl by (simp split: if_splits)
    ultimately obtain d d' where "db_step\<^sup>*\<^sup>* (w_db w3) d" "atomic_commit C sb edit d answer d'" "db_step\<^sup>*\<^sup>* d' (w_db w')"
      using Suc.IH put_fair(1) by blast
    then show ?thesis using d1(1) d2(1) d3 by (metis rtranclp_trans)
  qed
qed simp

lemma merge_atomic:
  assumes "merge_chunk_into_policy C sb chunk w = (Inr answer, w')" "fair w" "tables_ok (w_db w)"
  shows "\<exists>rule d d'. cc_rule_of C (dc_proposed_rule chunk) = Inr rule \<and> db_step\<^sup>*\<^sup>* (w_db w) d
    \<and> atomic_commit C sb (merge_edit C (dc_rule_name chunk) rule) d answer d' \<and> db_step\<^sup>*\<^sup>* d' (w_db w')"
proof -
  from assms(1) obtain rule where "cc_rule_of C (dc_proposed_rule chunk) = Inr rule"
    "commit_loop C ''merge_chunk_into_policy'' (dc_rule_name chunk) sb (merge_edit C (dc_rule_name chunk) rule) MERGE_RETRY_LIMIT w
       = (Inr answer, w')"
    by (cases "cc_rule_of C (dc_proposed_rule chunk)") (auto simp: merge_chunk_into_policy_def)
  with commit_loop_atomic [OF this(2) assms(2,3)] show ?thesis by blast
qed

lemma fetch_chunk_found: "fetch_chunk i w = (Inr c, w') \<Longrightarrow> dc_id c = i \<and> c \<in> set (db_chunks (w_db w'))"
  by (cases "take_turn w"; cases "fst (take_turn w)")
    (auto simp: fetch_chunk_def execute_def db_get_draft_chunk_def find_Some_iff)

lemma expect_status_Inr [simp]: "expect_status c sts w = (Inr (), w') \<longleftrightarrow> dc_status c \<in> set sts \<and> w' = w"
  by (auto simp: expect_status_def)

text \<open>What an approval has found when it starts to merge.\<close>

definition found_for_approval ::
  "codec \<Rightarrow> bytes \<Rightarrow> bytes \<Rightarrow> (sandbox \<times> draft_chunk_record) handler" where
  "found_for_approval C name chunk_id =
     hbind (require_name ''name'' name) (\<lambda>_. hbind (require_name ''chunk_id'' chunk_id) (\<lambda>_.
     hbind (require_no_global_policy C) (\<lambda>_. hbind (resolve_sandbox C name) (\<lambda>sb.
     hbind (fetch_chunk chunk_id) (\<lambda>chunk. hbind (expect_status chunk [''pending'', ''rejected'']) (\<lambda>_. hreturn (sb, chunk)))))))"

lemma found_for_approval_chunk:
  "found_for_approval C name chunk_id w = (Inr (sb, chunk), w') \<Longrightarrow>
     dc_id chunk = chunk_id \<and> dc_status chunk \<in> {''pending'', ''rejected''} \<and> chunk \<in> set (db_chunks (w_db w'))"
  by (auto simp: found_for_approval_def dest: fetch_chunk_found)

lemma approve_split:
  "approve_draft_chunk C name chunk_id w = (Inr answer, w') \<longleftrightarrow>
     (\<exists>sb chunk w1 v h w2. found_for_approval C name chunk_id w = (Inr (sb, chunk), w1)
        \<and> merge_chunk_into_policy C (sx_id sb) chunk w1 = (Inr (v, h), w2)
        \<and> hbind current_time_ms (\<lambda>now_ms. hbind (mark_chunk chunk_id ''approved'' (Some now_ms)) (\<lambda>_. notify (sx_id sb))) w2 = (Inr (), w')
        \<and> answer = (version_u32 v, h))"
  by (simp add: approve_draft_chunk_def found_for_approval_def split: prod.splits) blast

lemma approve_atomic:
  assumes "approve_draft_chunk C name chunk_id w = (Inr answer, w')" "fair w" "tables_ok (w_db w)"
  shows "\<exists>sb chunk rule d0 d v h d'. db_step\<^sup>*\<^sup>* (w_db w) d0 \<and> chunk \<in> set (db_chunks d0) \<and> dc_id chunk = chunk_id
    \<and> dc_status chunk \<in> {''pending'', ''rejected''} \<and> cc_rule_of C (dc_proposed_rule chunk) = Inr rule \<and> db_step\<^sup>*\<^sup>* d0 d
    \<and> atomic_commit C sb (merge_edit C (dc_rule_name chunk) rule) d (v, h) d' \<and> db_step\<^sup>*\<^sup>* d' (w_db w') \<and> answer = (version_u32 v, h)"
proof -
  let ?post = "\<lambda>sb. hbind current_time_ms (\<lambda>now_ms. hbind (mark_chunk chunk_id ''approved'' (Some now_ms)) (\<lambda>_. notify (sx_id sb)))"
  from assms(1) obtain sb chunk w1 v h w2 where pre: "found_for_approval C name chunk_id w = (Inr (sb, chunk), w1)"
    and merge: "merge_chunk_into_policy C (sx_id sb) chunk w1 = (Inr (v, h), w2)"
    and post: "?post sb w2 = (Inr (), w')" and answer: "answer = (version_u32 v, h)"
    unfolding approve_split by blast
  have lawful: "lawful history_ok (found_for_approval C name chunk_id)" "lawful history_ok (?post sb)"
    unfolding found_for_approval_def by (intro lawful_intros)+
  have ok: "history_ok d" if "db_step\<^sup>*\<^sup>* (w_db w) d" for d
    using tables_ok_steps [OF that assms(3)] by (simp add: tables_ok_def)
  have s1: "db_step\<^sup>*\<^sup>* (w_db w) (w_db w1)" "fair w1" using lawfulD [OF lawful(1) pre assms(2) ok] by simp_all
  from merge_atomic [OF merge s1(2) tables_ok_steps [OF s1(1) assms(3)]] obtain rule d d' where
    a: "cc_rule_of C (dc_proposed_rule chunk) = Inr rule" "db_step\<^sup>*\<^sup>* (w_db w1) d"
    "atomic_commit C (sx_id sb) (merge_edit C (dc_rule_name chunk) rule) d (v, h) d'" "db_step\<^sup>*\<^sup>* d' (w_db w2)" by blast
  have s2: "db_step\<^sup>*\<^sup>* (w_db w1) (w_db w2)" "fair w2"
    using lawfulD [OF lawful_drafts(1) merge s1(2) ok [OF s1(1)]] by simp_all
  have s3: "db_step\<^sup>*\<^sup>* (w_db w2) (w_db w')"
    using lawfulD [OF lawful(2) post s2(2) ok [OF rtranclp_trans [OF s1(1) s2(1)]]] by simp
  show ?thesis
    using found_for_approval_chunk [OF pre] a answer s1(1) rtranclp_trans [OF a(4) s3]
    by (intro exI [of _ "sx_id sb"] exI [of _ chunk] exI [of _ rule] exI [of _ "w_db w1"] exI [of _ d] exI [of _ v] exI [of _ h]
        exI [of _ d'] conjI) simp_all
qed

section \<open>Commits that succeed\<close>

lemma next_version_free:
  assumes "tables_ok d"
  shows "revision_at d sb (next_version (first_row (revisions sb d))) = None"
proof (cases "latest_revision sb d")
  case None
  then show ?thesis using revs.latest_None [of d sb] assms by (simp add: tables_ok_def flip: latest_of)
next
  case (Some x)
  obtain n p where x: "x = (n, p)" by (cases x)
  have "v \<le> n" if "revision_at d sb v \<noteq> None" for v
    using revs.latest_Some [of d sb n p] Some x assms that by (simp add: tables_ok_def)
  then have "revision_at d sb (n + 1) = None" by (metis less_add_one linorder_not_less)
  then show ?thesis using Some x by (simp flip: latest_of)
qed

lemma put_next_succeeds:
  assumes "tables_ok d" "i \<notin> po_id ` set (db_policies d)"
  shows "fst (db_put_policy_revision i sb (next_version (first_row (revisions sb d))) p h now d) = Inr ()"
  using next_version_free [OF assms(1), of sb] assms(2) unfolding revision_at_None
  by (auto simp: db_put_policy_revision_def)

text \<open>With nobody else around and a fresh identifier the first attempt succeeds.\<close>

lemma commit_loop_quiet:
  fixes C :: codec
  assumes "quiet w" "tables_ok (w_db w)" "w_uuid w 0 \<notin> po_id ` set (db_policies (w_db w))"
    "edit (map_option po_policy_payload (first_row (revisions sb (w_db w)))) = Inr p"
  defines "v \<equiv> next_version (first_row (revisions sb (w_db w)))"
  defines "d1 \<equiv> snd (db_put_policy_revision (w_uuid w 0) sb v (cc_policy C p) (deterministic_policy_hash C p) (w_now w) (w_db w))"
  shows "commit_loop C what rn sb edit (Suc n) w = (Inr (v, deterministic_policy_hash C p),
      w\<lparr>w_uuid := \<lambda>n. w_uuid w (Suc n), w_db := snd (db_supersede_older_policies sb v (w_now w) d1)\<rparr>)"
    "atomic_commit C sb edit (w_db w) (v, deterministic_policy_hash C p) d1"
proof -
  have put: "db_put_policy_revision (w_uuid w 0) sb v (cc_policy C p) (deterministic_policy_hash C p) (w_now w) (w_db w) = (Inr (), d1)"
    using put_next_succeeds [OF assms(2,3), of sb] unfolding v_def d1_def by (metis prod.collapse)
  then show "atomic_commit C sb edit (w_db w) (v, deterministic_policy_hash C p) d1"
    unfolding v_def by (intro put_latest_atomic [OF assms(2)] assms(4)) simp_all
  have "execute (db_get_latest_policy sb) w = (Inr (first_row (revisions sb (w_db w))), w)"
    using assms(1) by (simp add: run_quiet db_get_latest_policy_def)
  moreover have "execute (db_put_policy_revision (w_uuid w 0) sb v (cc_policy C p) (deterministic_policy_hash C p))
      (w\<lparr>w_uuid := \<lambda>n. w_uuid w (Suc n)\<rparr>) = (Inr (), w\<lparr>w_uuid := \<lambda>n. w_uuid w (Suc n), w_db := d1\<rparr>)"
    using assms(1) put by (simp add: run_quiet)
  ultimately show "commit_loop C what rn sb edit (Suc n) w = (Inr (v, deterministic_policy_hash C p),
      w\<lparr>w_uuid := \<lambda>n. w_uuid w (Suc n), w_db := snd (db_supersede_older_policies sb v (w_now w) d1)\<rparr>)"
    using assms(1,4) by (simp add: Let_def v_def [symmetric] run_quiet split: prod.splits)
qed

lemma commit_loop_quiet_result:
  assumes "quiet w" "tables_ok (w_db w)" "w_uuid w 0 \<notin> po_id ` set (db_policies (w_db w))"
    "edit (map_option po_policy_payload (first_row (revisions sb (w_db w)))) = Inr p"
    "next_version (first_row (revisions sb (w_db w))) = v"
  shows "\<exists>w'. commit_loop C what rn sb edit (Suc n) w = (Inr (v, deterministic_policy_hash C p), w')
    \<and> quiet w' \<and> db_chunks (w_db w') = db_chunks (w_db w)"
  unfolding commit_loop_quiet(1) [where edit = edit and sb = sb, OF assms(1-4), unfolded assms(5)] using assms(1) by simp

lemma mark_chunk_succeeds:
  assumes "chunks_ok (db_chunks d)" "chunk \<in> set (db_chunks d)" "active_status (dc_status chunk)" "active_status st"
  shows "db_update_draft_chunk_status (dc_id chunk) st t now d = (Inr True,
    d\<lparr>db_chunks := map (\<lambda>r. if dc_id r = dc_id chunk then r\<lparr>dc_status := st, dc_decided_at_ms := t\<rparr> else r) (db_chunks d)\<rparr>)"
proof -
  have u: "r = chunk" if "r \<in> set (db_chunks d)" "dc_id r = dc_id chunk" for r
    using assms(1,2) that unfolding chunks_ok_def distinct_map inj_on_def by blast
  have "sorted_wrt (\<lambda>r s. \<not> same_endpoint r s)
      (map (\<lambda>r. if dc_id r = dc_id chunk then r\<lparr>dc_status := st, dc_decided_at_ms := t\<rparr> else r) (db_chunks d))"
    unfolding sorted_wrt_map
    by (rule sorted_wrt_mono_rel [rotated, of "\<lambda>r s. \<not> same_endpoint r s"])
      (use assms u in \<open>auto simp: chunks_ok_def same_endpoint_def split: if_splits\<close>)
  moreover have "list_ex (\<lambda>r. dc_id r = dc_id chunk) (db_chunks d)" using assms(2) by (auto simp: list_ex_iff)
  ultimately show ?thesis by (simp add: db_update_draft_chunk_status_def update_chunks_def Let_def)
qed

text \<open>What has to be there for an approval.\<close>

definition ready_for_approval :: "codec \<Rightarrow> bytes \<Rightarrow> bytes \<Rightarrow> world \<Rightarrow> sandbox \<Rightarrow> draft_chunk_record \<Rightarrow> network_policy_rule \<Rightarrow> sandbox_policy \<Rightarrow> bool" where
  "ready_for_approval C name chunk_id w sb chunk rule base \<longleftrightarrow>
     quiet w \<and> tables_ok (w_db w) \<and> w_uuid w 0 \<notin> po_id ` set (db_policies (w_db w)) \<and> name \<noteq> [] \<and> chunk_id \<noteq> []
     \<and> require_no_global_policy C w = (Inr (), w) \<and> resolve_sandbox C name w = (Inr sb, w)
     \<and> chunk \<in> set (db_chunks (w_db w)) \<and> dc_id chunk = chunk_id \<and> dc_status chunk \<in> {''pending'', ''rejected''}
     \<and> cc_rule_of C (dc_proposed_rule chunk) = Inr rule
     \<and> (case latest_revision (sx_id sb) (w_db w) of None \<Rightarrow> base = empty_policy | Some (_, payload, _) \<Rightarrow> cc_policy_of C payload = Inr base)"

lemma find_chunk:
  assumes "chunks_ok rows" "chunk \<in> set rows"
  shows "find (\<lambda>r. dc_id r = dc_id chunk) rows = Some chunk"
proof -
  have "distinct (map dc_id rows)" using assms(1) by (simp add: chunks_ok_def)
  then show ?thesis using assms(2) by (induction rows) force+
qed

lemma merge_edit_base:
  "(case latest_revision sb d of None \<Rightarrow> base = empty_policy | Some (_, payload, _) \<Rightarrow> cc_policy_of C payload = Inr base) \<Longrightarrow>
     merge_edit C name rule (map_option po_policy_payload (first_row (revisions sb d))) = Inr (merge_into name rule base)"
  by (auto simp: merge_edit_def decode_current_def simp flip: latest_of split: option.splits)

lemma found_for_approval_ready:
  assumes "ready_for_approval C name chunk_id w sb chunk rule base"
  shows "found_for_approval C name chunk_id w = (Inr (sb, chunk), w)"
proof -
  have "fetch_chunk chunk_id w = (Inr chunk, w)"
    using assms find_chunk [of "db_chunks (w_db w)" chunk]
    by (auto simp: ready_for_approval_def tables_ok_def db_ok_def fetch_chunk_def run_quiet db_get_draft_chunk_def)
  then show ?thesis using assms by (auto simp: ready_for_approval_def found_for_approval_def require_name_def)
qed

text \<open>The answer and the revisions, the chunk and the notification afterwards.\<close>

lemma approve_ready:
  assumes "ready_for_approval C name chunk_id w sb chunk rule base"
  shows "\<exists>v h w'. approve_draft_chunk C name chunk_id w = (Inr (version_u32 v, h), w')
    \<and> atomic_commit C (sx_id sb) (merge_edit C (dc_rule_name chunk) rule) (w_db w) (v, h) (w_db w')
    \<and> revision_at (w_db w') (sx_id sb) v = Some (cc_policy C (merge_into (dc_rule_name chunk) rule base), h)
    \<and> chunk\<lparr>dc_status := ''approved'', dc_decided_at_ms := Some (w_now w)\<rparr> \<in> set (db_chunks (w_db w'))
    \<and> w_notified w' = w_notified w @ [sx_id sb]"
proof -
  let ?sb = "sx_id sb" and ?p = "merge_into (dc_rule_name chunk) rule base" and ?edit = "merge_edit C (dc_rule_name chunk) rule"
  define v where "v = next_version (first_row (revisions ?sb (w_db w)))"
  define h where "h = deterministic_policy_hash C ?p"
  define d1 where "d1 = snd (db_put_policy_revision (w_uuid w 0) ?sb v (cc_policy C ?p) h (w_now w) (w_db w))"
  define d2 where "d2 = snd (db_supersede_older_policies ?sb v (w_now w) d1)"
  define w2 where "w2 = w\<lparr>w_uuid := \<lambda>n. w_uuid w (Suc n), w_db := d2\<rparr>"
  note ready = assms [unfolded ready_for_approval_def]
  have edit: "?edit (map_option po_policy_payload (first_row (revisions ?sb (w_db w)))) = Inr ?p"
    by (rule merge_edit_base) (use ready in blast)
  note quiet = commit_loop_quiet [of w ?edit ?sb ?p C, folded v_def, folded h_def, folded d1_def]
  have atomic: "atomic_commit C ?sb ?edit (w_db w) (v, h) d1" using quiet(2) ready edit by blast
  have merge: "merge_chunk_into_policy C ?sb chunk w = (Inr (v, h), w2)"
    using quiet(1) [of _ _ 4] ready edit
    by (simp add: merge_chunk_into_policy_def MERGE_RETRY_LIMIT_def d2_def w2_def del: commit_loop.simps)
  have chunks: "db_chunks d2 = db_chunks (w_db w)" "revision_at d2 = revision_at d1" by (simp_all add: d2_def d1_def)
  let ?d3 = "d2\<lparr>db_chunks := map (\<lambda>r. if dc_id r = chunk_id then r\<lparr>dc_status := ''approved'', dc_decided_at_ms := Some (w_now w)\<rparr>
      else r) (db_chunks d2)\<rparr>"
  have "db_update_draft_chunk_status chunk_id ''approved'' (Some (w_now w)) (w_now w) d2 = (Inr True, ?d3)"
    using mark_chunk_succeeds [of d2 chunk "''approved''"] ready chunks
    by (auto simp: tables_ok_def db_ok_def active_status_def)
  then have mark: "mark_chunk chunk_id ''approved'' (Some (w_now w)) w2 = (Inr (), w2\<lparr>w_db := ?d3\<rparr>)"
    using ready by (auto simp: mark_chunk_def w2_def run_quiet intro: exI [of _ True])
  have "approve_draft_chunk C name chunk_id w
      = (Inr (version_u32 v, h), w2\<lparr>w_db := ?d3, w_notified := w_notified w @ [?sb]\<rparr>)"
    unfolding approve_split using found_for_approval_ready [OF assms] merge mark
    by (auto simp: w2_def intro!: exI)
  moreover have "revision_at ?d3 = revision_at d1" using chunks(2) by (simp add: revision_at_def fun_eq_iff)
  then have "atomic_commit C ?sb ?edit (w_db w) (v, h) ?d3" "revision_at ?d3 ?sb v = Some (cc_policy C ?p, h)"
    using atomic edit by (auto simp: atomic_commit_def latest_of)
  moreover have "chunk\<lparr>dc_status := ''approved'', dc_decided_at_ms := Some (w_now w)\<rparr> \<in> set (db_chunks ?d3)"
    using ready chunks(1) by force
  ultimately show ?thesis by (intro exI) (auto simp: w2_def)
qed

lemma gateway_run_db:
  assumes "(gateway_step C reg lower)\<^sup>*\<^sup>* w w'" "fair w" "tables_ok (w_db w)"
  shows "db_step\<^sup>*\<^sup>* (w_db w) (w_db w') \<and> fair w'"
  using assms(1)
proof (induction rule: rtranclp_induct)
  case (step w1 w2)
  then have "history_ok (w_db w1)" using tables_ok_steps [of "w_db w" "w_db w1"] assms(3) unfolding tables_ok_def by simp
  with gateway_step_db [OF step(2)] step show ?case by (auto intro: rtranclp_trans)
qed (simp add: assms(2))

section \<open>Properties\<close>

text \<open>C28: whatever requests the gateway serves, in whatever order and with whatever statements of other tasks between
  any two of theirs, faults of the database included, the tables keep their keys, the revisions of every sandbox are
  numbered from one without gaps, and a revision once written never changes.\<close>

theorem gateway_keeps_history:
  assumes "(gateway_step C reg lower)\<^sup>*\<^sup>* w w'" "fair w" "tables_ok (w_db w)"
  shows "db_ok (w_db w') \<and> (\<exists>n. {v. revision_at (w_db w') sb v \<noteq> None} = {1..n})
    \<and> (revision_at (w_db w) sb v = Some x \<longrightarrow> revision_at (w_db w') sb v = Some x)"
proof -
  have steps: "db_step\<^sup>*\<^sup>* (w_db w) (w_db w')" using gateway_run_db [OF assms] by simp
  have ok: "db_ok (w_db w') \<and> history_ok (w_db w')" using tables_ok_steps [OF steps assms(3)] by (simp add: tables_ok_def)
  have "\<exists>n. {v. revision_at (w_db w') sb v \<noteq> None} = {1..n}"
  proof (cases "latest_revision sb (w_db w')")
    case None
    then show ?thesis using revs.latest_None [OF ok, of sb] by (intro exI [of _ 0]) simp
  next
    case (Some x)
    then show ?thesis using revs.numbers [OF ok, of sb "fst x" "snd x"] by (intro exI [of _ "fst x"]) simp
  qed
  then show ?thesis using ok revs.evolves_keeps [OF _ steps] assms(3) by (auto simp: tables_ok_def)
qed

text \<open>C29: an approval is atomic. However other tasks interfere, an approval that is answered has made one revision, at one
  moment, from the policy that was the latest at that moment: no update made in between is lost, and every other revision is
  as it was.\<close>

theorem approval_is_atomic:
  assumes "approve_draft_chunk C name chunk_id w = (Inr answer, w')" "fair w" "tables_ok (w_db w)"
  shows "\<exists>sb chunk rule d0 d v h d'. db_step\<^sup>*\<^sup>* (w_db w) d0 \<and> chunk \<in> set (db_chunks d0) \<and> dc_id chunk = chunk_id
    \<and> dc_status chunk \<in> {''pending'', ''rejected''} \<and> cc_rule_of C (dc_proposed_rule chunk) = Inr rule \<and> db_step\<^sup>*\<^sup>* d0 d
    \<and> atomic_commit C sb (merge_edit C (dc_rule_name chunk) rule) d (v, h) d' \<and> db_step\<^sup>*\<^sup>* d' (w_db w') \<and> answer = (version_u32 v, h)"
  by (rule approve_atomic [OF assms])

text \<open>With nobody else around, approving a pending or rejected chunk succeeds: the sandbox has the merged policy as a
  new revision, the chunk is approved and the sandbox is notified. Which sandbox the chunk was recommended for is not
  looked at, and a sandbox that has no revision yet gets the rule in an otherwise empty policy, whatever its spec says.\<close>

theorem approval_succeeds:
  assumes "ready_for_approval C name chunk_id w sb chunk rule base"
  shows "\<exists>v h w'. approve_draft_chunk C name chunk_id w = (Inr (version_u32 v, h), w')
    \<and> revision_at (w_db w') (sx_id sb) v = Some (cc_policy C (merge_into (dc_rule_name chunk) rule base), h)
    \<and> chunk\<lparr>dc_status := ''approved'', dc_decided_at_ms := Some (w_now w)\<rparr> \<in> set (db_chunks (w_db w'))
    \<and> w_notified w' = w_notified w @ [sx_id sb]"
  using approve_ready [OF assms] by blast

text \<open>A sandbox \<open>box\<close> whose spec has the quickstart policy and no revision, and a chunk recommended for \<open>other\<close>.\<close>

definition box :: sandbox where
  "box = \<lparr>sx_id = ''box-id'', sx_name = ''box'', sx_namespace = ''ns'',
     sx_spec = Some \<lparr>ss_log_level = [], ss_environment = [], ss_template = None, ss_policy = Some quickstart_policy, ss_providers = [],
       ss_gpu = False\<rparr>, sx_status = None, sx_phase = 0, sx_created_at_ms = 0, sx_current_policy_version = 0\<rparr>"

definition stray_chunk :: draft_chunk_record where
  "stray_chunk = \<lparr>dc_id = ''c1'', dc_sandbox_id = ''other'', dc_draft_version = 1, dc_status = ''pending'', dc_rule_name = ''github_api'',
     dc_proposed_rule = ''rule'', dc_rationale = [], dc_security_notes = [], dc_confidence = 0, dc_created_at_ms = 1,
     dc_decided_at_ms = None, dc_host = ''api.github.com'', dc_port = 443, dc_binary = ''/usr/bin/curl'', dc_hit_count = 1,
     dc_first_seen_ms = 1, dc_last_seen_ms = 1\<rparr>"

definition draft_codec :: codec where
  "draft_codec = sample_codec\<lparr>cc_sandbox_of := \<lambda>_. Inr box, cc_rule_of := \<lambda>_. Inr quickstart_rule,
     cc_policy := \<lambda>p. concat (map fst (sp_network_policies p))\<rparr>"

definition draft_world :: world where
  "draft_world = (sample_world [sample_row ''sandbox'' ''box'' ''box''])\<lparr>w_db := \<lparr>db_objects = [sample_row ''sandbox'' ''box'' ''box''],
     db_policies = [], db_chunks = [stray_chunk]\<rparr>\<rparr>"

lemma draft_world_ok: "fair draft_world" "quiet draft_world" "tables_ok (w_db draft_world)"
  by (simp_all add: draft_world_def sample_world_def fair_def quiet_def tables_ok_def db_ok_def objects_ok_def policies_ok_def
      chunks_ok_def history_ok_def)

lemma draft_world_ready: "ready_for_approval draft_codec ''box'' ''c1'' draft_world box stray_chunk quickstart_rule empty_policy"
  using draft_world_ok unfolding ready_for_approval_def
  by (simp add: draft_world_def sample_world_def sample_row_def draft_codec_def sample_codec_def stray_chunk_def box_def
      require_no_global_policy_def load_global_settings_def load_settings_record_def resolve_sandbox_def get_sandbox_by_name_def
      message_of_def decoded_def run_quiet quiet_def db_get_def db_get_by_name_def settings_default_def latest_revision_def
      revisions_def first_row_def)

theorem approval_succeeds_witness:
  "\<exists>v h w'. approve_draft_chunk draft_codec ''box'' ''c1'' draft_world = (Inr (version_u32 v, h), w')
     \<and> revision_at (w_db w') ''box-id'' v = Some (cc_policy draft_codec (merge_into ''github_api'' quickstart_rule empty_policy), h)
     \<and> dc_sandbox_id stray_chunk = ''other''"
  using approval_succeeds [OF draft_world_ready] by (auto simp: box_def stray_chunk_def)

text \<open>The same approval while a rival adds revision 1 before the approval can: it merges into the rival's revision.\<close>

definition idle_turn :: turn where
  "idle_turn = \<lparr>tn_others = (\<lambda>d. d), tn_now = 2, tn_fault = None\<rparr>"

definition rival_turn :: turn where
  "rival_turn = idle_turn\<lparr>tn_others := (\<lambda>d. snd (db_put_policy_revision ''rival'' ''box-id'' 1 ''rival policy'' ''rival hash'' 2 d))\<rparr>"

definition rival_world :: world where
  "rival_world = draft_world\<lparr>w_script := [idle_turn, idle_turn, idle_turn, idle_turn, rival_turn]\<rparr>"

definition rival_codec :: codec where
  "rival_codec = draft_codec\<lparr>cc_policy_of := \<lambda>_. Inr empty_policy\<rparr>"

lemma rival_step: "db_step\<^sup>*\<^sup>* d (snd (db_put_policy_revision ''rival'' ''box-id'' 1 ''rival policy'' ''rival hash'' 2 d))"
  by (rule r_into_rtranclp, rule db_step.revision) simp

lemma rival_fair: "fair rival_world"
  using rival_step by (simp add: fair_def rival_world_def rival_turn_def idle_turn_def)

lemma unique_is_conflict: "is_conflict (unique_failed columns)"
proof -
  have "find_sub ''UNIQUE'' (unique_failed columns) \<noteq> None" by (simp add: unique_failed_def starts_with_def)
  then show ?thesis by (simp add: is_conflict_def contains_sub_def)
qed

lemmas rival_simps = rival_world_def rival_codec_def rival_turn_def idle_turn_def draft_world_def sample_world_def sample_row_def
  draft_codec_def sample_codec_def stray_chunk_def box_def execute_def take_turn_def

lemma rival_found:
  "found_for_approval rival_codec ''box'' ''c1'' rival_world = (Inr (box, stray_chunk), rival_world\<lparr>w_script := [idle_turn, rival_turn]\<rparr>)"
  by (simp add: found_for_approval_def require_name_def require_no_global_policy_def load_global_settings_def
      load_settings_record_def resolve_sandbox_def get_sandbox_by_name_def message_of_def decoded_def fetch_chunk_def db_get_def
      db_get_by_name_def db_get_draft_chunk_def settings_default_def expect_status_def rival_simps)

text \<open>The first attempt fails, the second makes revision 2.\<close>

lemma rival_merge:
  "\<exists>w'. merge_chunk_into_policy rival_codec ''box-id'' stray_chunk (rival_world\<lparr>w_script := [idle_turn, rival_turn]\<rparr>) =
     (Inr (2, deterministic_policy_hash rival_codec (merge_into ''github_api'' quickstart_rule empty_policy)), w')
     \<and> quiet w' \<and> tables_ok (w_db w') \<and> db_chunks (w_db w') = [stray_chunk]"
proof -
  let ?edit = "merge_edit rival_codec ''github_api'' quickstart_rule" and ?p = "merge_into ''github_api'' quickstart_rule empty_policy"
  let ?d = "snd (db_put_policy_revision ''rival'' ''box-id'' 1 ''rival policy'' ''rival hash'' 2 (w_db draft_world))"
  let ?w = "draft_world\<lparr>w_db := ?d\<rparr>"
  have edit: "?edit x = Inr ?p" for x
    by (cases x) (simp_all add: merge_edit_def decode_current_def rival_codec_def)
  have rows: "first_row (revisions ''box-id'' (w_db draft_world)) = None"
    "map_option po_version (first_row (revisions ''box-id'' ?d)) = Some 1" "po_id ` set (db_policies ?d) = {''rival''}"
    by (simp_all add: draft_world_def sample_world_def db_put_policy_revision_def revisions_def first_row_def)
  have "merge_chunk_into_policy rival_codec ''box-id'' stray_chunk (rival_world\<lparr>w_script := [idle_turn, rival_turn]\<rparr>)
      = commit_loop rival_codec ''merge_chunk_into_policy'' ''github_api'' ''box-id'' ?edit (Suc 4)
          (rival_world\<lparr>w_script := [idle_turn, rival_turn]\<rparr>)"
    by (simp add: merge_chunk_into_policy_def MERGE_RETRY_LIMIT_def rival_codec_def draft_codec_def stray_chunk_def hbind_def hlift_def
        del: commit_loop.simps)
  also have "\<dots> = commit_loop rival_codec ''merge_chunk_into_policy'' ''github_api'' ''box-id'' ?edit (Suc 3) ?w"
  proof -
    have "execute (db_get_latest_policy ''box-id'') (rival_world\<lparr>w_script := [idle_turn, rival_turn]\<rparr>)
        = (Inr None, draft_world\<lparr>w_script := [rival_turn]\<rparr>)"
      by (simp add: execute_def take_turn_def db_get_latest_policy_def rival_world_def idle_turn_def rows)
        (simp add: draft_world_def sample_world_def)
    moreover have "execute (db_put_policy_revision ''uuid'' ''box-id'' 1 x h) (draft_world\<lparr>w_script := [rival_turn], w_uuid := \<lambda>n. ''uuid''\<rparr>)
        = (Inl (unique_failed ''sandbox_policies.sandbox_id, sandbox_policies.version''), ?w)" for x h
      by (simp add: execute_def take_turn_def rival_turn_def idle_turn_def)
        (simp add: draft_world_def sample_world_def db_put_policy_revision_def)
    moreover have "w_uuid draft_world = (\<lambda>n. ''uuid'')" by (simp add: draft_world_def sample_world_def)
    ultimately show ?thesis
      by (subst commit_loop.simps)
        (simp add: hbind_def or_internal_def hlift_def new_uuid_def attempt_def edit next_version_def unique_is_conflict Let_def del: commit_loop.simps)
  qed
  finally have first: "merge_chunk_into_policy rival_codec ''box-id'' stray_chunk (rival_world\<lparr>w_script := [idle_turn, rival_turn]\<rparr>)
      = commit_loop rival_codec ''merge_chunk_into_policy'' ''github_api'' ''box-id'' ?edit (Suc 3) ?w" .
  have ok: "quiet ?w" "tables_ok (w_db ?w)" "w_uuid ?w 0 \<notin> po_id ` set (db_policies (w_db ?w))"
  proof -
    show "quiet ?w" using draft_world_ok(2) by simp
    show "tables_ok (w_db ?w)" using tables_ok_steps [OF rival_step draft_world_ok(3)] by simp
    have "w_uuid ?w 0 = ''uuid''" by (simp add: draft_world_def sample_world_def)
    then show "w_uuid ?w 0 \<notin> po_id ` set (db_policies (w_db ?w))" using rows(3) by simp
  qed
  have v: "next_version (first_row (revisions ''box-id'' ?d)) = 2" using rows(2) by (auto simp: next_version_def)
  have chunks: "db_chunks (w_db ?w) = [stray_chunk]" by (simp add: draft_world_def)
  obtain w' where w': "merge_chunk_into_policy rival_codec ''box-id'' stray_chunk (rival_world\<lparr>w_script := [idle_turn, rival_turn]\<rparr>) =
     (Inr (2, deterministic_policy_hash rival_codec ?p), w')" "quiet w'" "db_chunks (w_db w') = [stray_chunk]"
    using commit_loop_quiet_result [where C = rival_codec and sb = "''box-id''" and v = 2 and n = 3 and edit = ?edit, OF ok edit] v
    unfolding first chunks by auto
  have "fair (rival_world\<lparr>w_script := [idle_turn, rival_turn]\<rparr>)" using rival_fair by (simp add: fair_def rival_world_def)
  moreover have "tables_ok (w_db (rival_world\<lparr>w_script := [idle_turn, rival_turn]\<rparr>))"
    using draft_world_ok(3) by (simp add: rival_world_def)
  ultimately have "tables_ok (w_db w')"
    using lawfulD [OF lawful_drafts(1) w'(1)] tables_ok_steps by (auto simp: tables_ok_def)
  with w' show ?thesis by blast
qed

theorem approval_is_atomic_witness:
  "\<exists>w' sb (chunk :: draft_chunk_record) rule d d'. approve_draft_chunk rival_codec ''box'' ''c1'' rival_world
       = (Inr (2, deterministic_policy_hash rival_codec (merge_into ''github_api'' quickstart_rule empty_policy)), w')
     \<and> atomic_commit rival_codec sb (merge_edit rival_codec (dc_rule_name chunk) rule) d
         (2, deterministic_policy_hash rival_codec (merge_into ''github_api'' quickstart_rule empty_policy)) d'"
proof -
  let ?h = "deterministic_policy_hash rival_codec (merge_into ''github_api'' quickstart_rule empty_policy)"
  obtain w2 where m: "merge_chunk_into_policy rival_codec (sx_id box) stray_chunk (rival_world\<lparr>w_script := [idle_turn, rival_turn]\<rparr>)
      = (Inr (2, ?h), w2)" and w2: "quiet w2" "tables_ok (w_db w2)" "db_chunks (w_db w2) = [stray_chunk]"
    using rival_merge by (auto simp: box_def)
  have "\<exists>w'. hbind current_time_ms (\<lambda>now_ms. hbind (mark_chunk ''c1'' ''approved'' (Some now_ms)) (\<lambda>_. notify (sx_id box))) w2 = (Inr (), w')"
    using mark_chunk_succeeds [of "w_db w2" stray_chunk "''approved''"] w2
    by (auto simp: mark_chunk_def run_quiet tables_ok_def db_ok_def stray_chunk_def active_status_def)
  then obtain w' where r: "approve_draft_chunk rival_codec ''box'' ''c1'' rival_world = (Inr (version_u32 2, ?h), w')"
    using rival_found m unfolding approve_split by blast
  have "tables_ok (w_db rival_world)" using draft_world_ok(3) by (simp add: rival_world_def)
  from approval_is_atomic [OF r rival_fair this] obtain sb rule d v h d' and chunk :: draft_chunk_record where
    a: "atomic_commit rival_codec sb (merge_edit rival_codec (dc_rule_name chunk) rule) d (v, h) d'" "(version_u32 2, ?h) = (version_u32 v, h)"
    by blast
  then have "v = 2" "h = ?h" by (auto simp: version_u32_def split: if_splits)
  then have "atomic_commit rival_codec sb (merge_edit rival_codec (dc_rule_name chunk) rule) d (2, ?h) d'" using a(1) by simp
  moreover have "approve_draft_chunk rival_codec ''box'' ''c1'' rival_world = (Inr (2, ?h), w')" using r by (simp add: version_u32_def)
  ultimately show ?thesis by blast
qed

theorem gateway_keeps_history_witness:
  "\<exists>w' n. (gateway_step draft_codec [] (\<lambda>s. s))\<^sup>*\<^sup>* draft_world w' \<and> {v. revision_at (w_db w') ''box-id'' v \<noteq> None} = {1..n}
     \<and> db_chunks (w_db w') \<noteq> [stray_chunk]"
proof -
  obtain v h w' where r: "approve_draft_chunk draft_codec ''box'' ''c1'' draft_world = (Inr (version_u32 v, h), w')"
    "stray_chunk\<lparr>dc_status := ''approved'', dc_decided_at_ms := Some (w_now draft_world)\<rparr> \<in> set (db_chunks (w_db w'))"
    using approve_ready [OF draft_world_ready] by blast
  then have run: "(gateway_step draft_codec [] (\<lambda>s. s))\<^sup>*\<^sup>* draft_world w'" by (blast intro: gateway_step.approve_draft_chunk)
  have "db_chunks (w_db w') \<noteq> [stray_chunk]" using r(2) by (auto simp: stray_chunk_def)
  with gateway_keeps_history [OF run draft_world_ok(1,3), of "''box-id''"] run show ?thesis by blast
qed

end
