(* ===== verification/Gateway_Updates.thy ===== *)
theory Gateway_Updates
  imports Gateway_History
begin

text \<open>
  What \<open>update_config\<close> accepts as the policy of a sandbox, and what it takes without a check.
\<close>

lemma update_sandbox_policy_checked:
  assumes "load_global_settings C w = (Inr global, w)" "map_of (sg_settings global) POLICY_SETTING_KEY = None" "sx_spec sb = Some spec"
    "check_against_baseline C sb spec (ensure_sandbox_process_identity policy) w = (Inr (), w1)" "quiet w1" "tables_ok (w_db w1)"
    "w_uuid w1 0 \<notin> po_id ` set (db_policies (w_db w1))"
  shows "\<exists>resp w'. update_sandbox_policy C sb policy w = (Inr resp, w')"
proof -
  let ?new = "ensure_sandbox_process_identity policy"
  let ?latest = "first_row (revisions (sx_id sb) (w_db w1))"
  let ?put = "db_put_policy_revision (w_uuid w1 0) (sx_id sb) (next_version ?latest) (cc_policy C ?new) (deterministic_policy_hash C ?new)"
  have read: "execute (db_get_latest_policy (sx_id sb)) w1 = (Inr ?latest, w1)"
    using assms(5) by (simp add: run_quiet db_get_latest_policy_def)
  have "fst (?put (w_now w1) (w_db w1)) = Inr ()" by (rule put_next_succeeds [OF assms(6,7)])
  then obtain d where "?put (w_now w1) (w_db w1) = (Inr (), d)" by (metis prod.collapse)
  then have put: "execute ?put (w1\<lparr>w_uuid := \<lambda>n. w_uuid w1 (Suc n)\<rparr>) = (Inr (), w1\<lparr>w_uuid := \<lambda>n. w_uuid w1 (Suc n), w_db := d\<rparr>)"
    using assms(5) by (simp add: run_quiet)
  show ?thesis
  proof (cases ?latest)
    case None
    then show ?thesis using assms(1-4) read put by (simp add: update_sandbox_policy_def Let_def)
  next
    case (Some current)
    then show ?thesis
      using assms(1-4) read put
      by (cases "po_policy_hash current = deterministic_policy_hash C ?new") (simp_all add: update_sandbox_policy_def Let_def)
  qed
qed

section \<open>Properties\<close>

text \<open>C30: an update of the policy of a sandbox that has a baseline is accepted only when, with the process identity filled
  in, it leaves landlock and process as the baseline has them, only adds filesystem paths, has no safety violation, and no
  global policy is in force.\<close>

theorem accepted_update_respects_baseline:
  assumes "update_sandbox_policy C sb policy w = (Inr resp, w')" "sx_spec sb = Some spec" "ss_policy spec = Some baseline"
  shows "static_fields_kept baseline (ensure_sandbox_process_identity policy)
    \<and> validate_sandbox_policy (ensure_sandbox_process_identity policy) = Some (Inr ())
    \<and> (\<exists>global w1. load_global_settings C w = (Inr global, w1) \<and> map_of (sg_settings global) POLICY_SETTING_KEY = None)"
proof -
  let ?new = "ensure_sandbox_process_identity policy"
  from assms obtain global w1 where g: "load_global_settings C w = (Inr global, w1)" "map_of (sg_settings global) POLICY_SETTING_KEY = None"
    and c: "validate_static_fields_unchanged baseline ?new = Inr ()" "validate_policy_safety ?new = Inr ()"
    by (auto simp: update_sandbox_policy_def check_against_baseline_def Let_def split: if_splits)
  from c(2) have "validate_sandbox_policy ?new = Some (Inr ())"
    by (auto simp: validate_policy_safety_def split: option.splits sum.splits)
  with g c(1) show ?thesis by (auto simp: validate_static_iff)
qed

text \<open>The first policy of a sandbox that was created without one is taken as it is, whatever it says: neither the safety
  check nor any other is made, and it becomes the baseline of later updates.\<close>

theorem first_policy_unchecked:
  assumes "quiet w" "tables_ok (w_db w)" "w_uuid w 0 \<notin> po_id ` set (db_policies (w_db w))"
    "load_global_settings C w = (Inr global, w)" "map_of (sg_settings global) POLICY_SETTING_KEY = None"
    "sx_spec sb = Some spec" "ss_policy spec = None" "sx_id sb \<in> or_id ` set (db_objects (w_db w))"
  shows "\<exists>resp w'. update_sandbox_policy C sb policy w = (Inr resp, w')"
proof -
  let ?new = "ensure_sandbox_process_identity policy"
  let ?sb = "sb\<lparr>sx_spec := Some (spec\<lparr>ss_policy := Some ?new\<rparr>)\<rparr>"
  define d where "d = snd (db_put ''sandbox'' (sx_id sb) (sx_name sb) (cc_sandbox C ?sb) (w_now w) (w_db w))"
  have put: "db_put ''sandbox'' (sx_id sb) (sx_name sb) (cc_sandbox C ?sb) (w_now w) (w_db w) = (Inr (), d)"
    using assms(8) by (auto simp: d_def db_put_def)
  have check: "check_against_baseline C sb spec ?new w = (Inr (), w\<lparr>w_db := d\<rparr>)"
    using assms(1,7) put by (simp add: check_against_baseline_def put_sandbox_def run_quiet)
  have "tables_ok d" unfolding d_def by (rule tables_ok_steps [OF r_into_rtranclp assms(2)]) (rule db_step.put)
  moreover have "db_policies d = db_policies (w_db w)" by (simp add: d_def)
  ultimately show ?thesis
    using update_sandbox_policy_checked [OF assms(4-6) check] assms(1,3) by simp
qed

text \<open>The sandbox \<open>box\<close> with its baseline, and one without that is given a policy to run as root.\<close>

definition bare_box :: sandbox where
  "bare_box = box\<lparr>sx_id := ''id-box'', sx_spec := Some \<lparr>ss_log_level = [], ss_environment = [], ss_template = None, ss_policy = None,
     ss_providers = [], ss_gpu = False\<rparr>\<rparr>"

definition root_policy :: sandbox_policy where
  "root_policy = quickstart_policy\<lparr>sp_process := Some \<lparr>pp_run_as_user = ''root'', pp_run_as_group = ''root''\<rparr>\<rparr>"

lemma draft_world_settings: "load_global_settings draft_codec draft_world = (Inr settings_default, draft_world)"
  by (simp add: load_global_settings_def load_settings_record_def draft_world_def sample_world_def sample_row_def db_get_def run_quiet
      quiet_def)

lemma draft_world_fresh: "w_uuid draft_world 0 \<notin> po_id ` set (db_policies (w_db draft_world))"
  by (simp add: draft_world_def)

theorem first_policy_unchecked_witness:
  "(\<exists>resp w'. update_sandbox_policy draft_codec bare_box root_policy draft_world = (Inr resp, w'))
   \<and> validate_sandbox_policy (ensure_sandbox_process_identity root_policy) \<noteq> Some (Inr ())"
proof
  show "\<exists>resp w'. update_sandbox_policy draft_codec bare_box root_policy draft_world = (Inr resp, w')"
    by (rule first_policy_unchecked [OF draft_world_ok(2,3) draft_world_fresh draft_world_settings, where spec = "the (sx_spec bare_box)"])
      (simp_all add: settings_default_def bare_box_def draft_world_def sample_row_def)
  show "validate_sandbox_policy (ensure_sandbox_process_identity root_policy) \<noteq> Some (Inr ())"
    by (simp add: validate_sandbox_policy_def root_policy_def ensure_sandbox_process_identity_def identity_violations_def Let_def
        split: option.splits)
qed

theorem accepted_update_respects_baseline_witness:
  "(\<exists>resp w'. update_sandbox_policy draft_codec box quickstart_policy draft_world = (Inr resp, w'))
   \<and> static_fields_kept quickstart_policy (ensure_sandbox_process_identity quickstart_policy)"
proof -
  have ens: "ensure_sandbox_process_identity quickstart_policy = quickstart_policy"
    by (simp add: ensure_sandbox_process_identity_def quickstart_policy_def)
  have "validate_sandbox_policy quickstart_policy = Some (Inr ())" by code_simp
  then have "validate_policy_safety quickstart_policy = Inr ()" "validate_static_fields_unchanged quickstart_policy quickstart_policy = Inr ()"
    by (simp_all add: validate_policy_safety_def validate_static_iff static_fields_kept_def split: option.splits)
  then have check: "check_against_baseline draft_codec box (the (sx_spec box)) (ensure_sandbox_process_identity quickstart_policy) draft_world
      = (Inr (), draft_world)"
    by (simp add: check_against_baseline_def box_def ens)
  obtain resp w' where r: "update_sandbox_policy draft_codec box quickstart_policy draft_world = (Inr resp, w')"
    using update_sandbox_policy_checked [OF draft_world_settings _ _ check draft_world_ok(2,3) draft_world_fresh]
    by (auto simp: settings_default_def box_def)
  from accepted_update_respects_baseline [OF r, of "the (sx_spec box)" quickstart_policy] r show ?thesis by (auto simp: box_def)
qed

end
