(* ===== verification/Ssh_Handshake.thy ===== *)
theory Ssh_Handshake
  imports Net_Io Rust_Utf8 Rust_Map
begin

text \<open>
  The handshake in front of every SSH connection to a sandbox: the gateway sends a signed line
  (\<open>build_preface\<close> of \<open>clustershell-server/src/ssh_tunnel.rs\<close> and, word for word the same, of \<open>grpc.rs\<close>), the sandbox
  verifies it and remembers its nonce (\<open>clustershell-sandbox/src/ssh.rs\<close>). The keyed digest is a parameter, time is given:
  wall clocks in seconds, instants of the monotonic clock in nanoseconds.
\<close>

section \<open>The line\<close>

definition PREFACE_MAGIC :: bytes where
  "PREFACE_MAGIC = ''NSSH1''"

type_synonym keyed_digest = "bytes \<Rightarrow> bytes \<Rightarrow> bytes"

text \<open>\<open>i64::try_from\<close> of the seconds since the epoch, for a clock that may be before it.\<close>

definition unix_secs :: "int \<Rightarrow> int option" where
  "unix_secs clock = (if 0 \<le> clock \<and> clock < 2 ^ 63 then Some clock else None)"

definition preface_payload :: "bytes \<Rightarrow> int \<Rightarrow> bytes \<Rightarrow> bytes" where
  "preface_payload token timestamp nonce = token @ ''|'' @ show_int timestamp @ ''|'' @ nonce"

definition build_preface :: "keyed_digest \<Rightarrow> bytes \<Rightarrow> bytes \<Rightarrow> int \<Rightarrow> bytes \<Rightarrow> (report, bytes) result" where
  "build_preface hmac token secret clock nonce =
     (case unix_secs clock of
        None \<Rightarrow> Inl ''time error''
      | Some timestamp \<Rightarrow>
          Inr (PREFACE_MAGIC @ '' '' @ token @ '' '' @ show_int timestamp @ '' '' @ nonce @ '' ''
               @ hmac secret (preface_payload token timestamp nonce) @ [CHR 0x0A]))"

text \<open>\<open>read_line\<close>, the same in \<open>ssh.rs\<close>, \<open>ssh_tunnel.rs\<close> and \<open>grpc.rs\<close>: byte by byte up to a line feed, the end of the stream
  or 1025 bytes.\<close>

function read_line_from :: "bytes \<Rightarrow> conn \<Rightarrow> (report, bytes) result \<times> conn" where
  "read_line_from acc c =
     (case conn_read 1 c of
        (Inl e, c') \<Rightarrow> (Inl (ie_msg e), c')
      | (Inr [], c') \<Rightarrow> (Inr acc, c')
      | (Inr (b # _), c') \<Rightarrow>
          (if b = CHR 0x0A then (Inr acc, c')
           else if 1024 < length acc + 1 then (Inr (acc @ [b]), c')
           else read_line_from (acc @ [b]) c'))"
  by pat_completeness auto
termination read_line_from
  by (relation "measure (\<lambda>(acc, c). length (cn_in c))")
    (auto dest!: sym [of _ "conn_read _ _"] conn_read_Inr(1))

declare read_line_from.simps [simp del]

definition read_line :: "conn \<Rightarrow> (report, bytes) result \<times> conn" where
  "read_line c = (case read_line_from [] c of (Inl e, c') \<Rightarrow> (Inl e, c') | (Inr bs, c') \<Rightarrow> (Inr (from_utf8_lossy bs), c'))"

section \<open>Verification\<close>

text \<open>Nonces with the instant of their insertion.\<close>

type_synonym nonce_cache = "(bytes \<times> nat) list"

text \<open>\<open>now - timestamp\<close> of two \<open>i64\<close> values panics on overflow in a debug build. Clocks are read and the cache is locked
  without a point of suspension in between: one call happens at one instant.\<close>

definition verify_preface ::
  "keyed_digest \<Rightarrow> bytes \<Rightarrow> bytes \<Rightarrow> nat \<Rightarrow> int \<Rightarrow> nat \<Rightarrow> nonce_cache \<Rightarrow> (report, bool) result outcome \<times> nonce_cache" where
  "verify_preface hmac line secret skew_secs clock instant cache =
     (case split_whitespace line of
        [magic, token, ts, nonce, signature] \<Rightarrow>
          (if magic \<noteq> PREFACE_MAGIC then (Returned (Inr False), cache)
           else
             let timestamp = (case parse_i64 ts of None \<Rightarrow> 0 | Some t \<Rightarrow> t) in
             case unix_secs clock of
               None \<Rightarrow> (Returned (Inl ''time error''), cache)
             | Some now \<Rightarrow>
                 (if now - timestamp \<ge> 2 ^ 63 then (Panicked, cache)
                  else if int skew_secs < \<bar>now - timestamp\<bar> then (Returned (Inr False), cache)
                  else if signature \<noteq> hmac secret (preface_payload token timestamp nonce) then (Returned (Inr False), cache)
                  else if map_of cache nonce \<noteq> None then (Returned (Inr False), cache)
                  else (Returned (Inr True), hm_insert nonce instant cache)))
      | _ \<Rightarrow> (Returned (Inr False), cache))"

text \<open>The reaper's sweep.\<close>

definition reap_nonces :: "nat \<Rightarrow> nat \<Rightarrow> nonce_cache \<Rightarrow> nonce_cache" where
  "reap_nonces skew_secs instant cache = filter (\<lambda>(_, inserted). instant - inserted < skew_secs * 10 ^ 9) cache"

section \<open>A connection\<close>

datatype ssh_outcome = SshOpen | SshRefused | SshFailed report | SshPanicked

definition handle_connection ::
  "keyed_digest \<Rightarrow> bytes \<Rightarrow> nat \<Rightarrow> int \<Rightarrow> nat \<Rightarrow> nonce_cache \<Rightarrow> conn \<Rightarrow> ssh_outcome \<times> nonce_cache \<times> conn" where
  "handle_connection hmac secret skew_secs clock instant cache c =
     (case read_line c of
        (Inl e, c1) \<Rightarrow> (SshFailed e, cache, c1)
      | (Inr line, c1) \<Rightarrow>
          (case verify_preface hmac line secret skew_secs clock instant cache of
             (Panicked, cache') \<Rightarrow> (SshPanicked, cache', c1)
           | (Returned (Inl e), cache') \<Rightarrow> (SshFailed e, cache', c1)
           | (Returned (Inr False), cache') \<Rightarrow> (SshRefused, cache', snd (conn_write (''ERR'' @ [CHR 0x0A]) c1))
           | (Returned (Inr True), cache') \<Rightarrow>
               (case conn_write (''OK'' @ [CHR 0x0A]) c1 of
                  (Inl e, c2) \<Rightarrow> (SshFailed (ie_msg e), cache', c2)
                | (Inr _, c2) \<Rightarrow> (SshOpen, cache', c2))))"

text \<open>The gateway's side, up to where the tunnel's bytes start.\<close>

definition send_preface :: "keyed_digest \<Rightarrow> bytes \<Rightarrow> bytes \<Rightarrow> int \<Rightarrow> bytes \<Rightarrow> conn \<Rightarrow> (report, unit) result \<times> conn" where
  "send_preface hmac token secret clock nonce c =
     (case build_preface hmac token secret clock nonce of
        Inl e \<Rightarrow> (Inl e, c)
      | Inr preface \<Rightarrow>
          (case conn_write preface c of
             (Inl e, c1) \<Rightarrow> (Inl (ie_msg e), c1)
           | (Inr _, c1) \<Rightarrow>
               (case read_line c1 of
                  (Inl e, c2) \<Rightarrow> (Inl e, c2)
                | (Inr response, c2) \<Rightarrow>
                    (if trim_ws response \<noteq> ''OK'' then (Inl ''sandbox handshake rejected'', c2) else (Inr (), c2)))))"

section \<open>Facts\<close>

lemma conn_read_1:
  assumes "cn_in c = b # s"
  obtains cuts where "conn_read 1 c = (Inr [b], c\<lparr>cn_in := s, cn_cuts := cuts\<rparr>)"
proof -
  obtain bs c' where r: "conn_read 1 c = (Inr bs, c')" using assms by (auto simp: conn_read_def Let_def)
  have "bs \<noteq> []" using conn_read_progress [OF r] assms by simp
  then have "bs = [b]" using conn_read_Inr(1,2) [OF r] assms by (cases bs) auto
  moreover have "c' = c\<lparr>cn_in := s, cn_cuts := cn_cuts c'\<rparr>"
    by (rule conn.equality) (use conn_read_Inr [OF r] assms calculation in simp_all)
  ultimately show ?thesis using that r by metis
qed

lemma read_line_from_line:
  assumes "cn_in c = w @ CHR 0x0A # rest" "CHR 0x0A \<notin> set w" "length acc + length w \<le> 1024"
  shows "\<exists>cuts. read_line_from acc c = (Inr (acc @ w), c\<lparr>cn_in := rest, cn_cuts := cuts\<rparr>)"
  using assms
proof (induction w arbitrary: acc c)
  case Nil
  then obtain cuts where "conn_read 1 c = (Inr [CHR 0x0A], c\<lparr>cn_in := rest, cn_cuts := cuts\<rparr>)"
    using conn_read_1 [of c "CHR 0x0A" rest] by auto
  then show ?case by (subst read_line_from.simps) auto
next
  case (Cons b w)
  then obtain cuts where r: "conn_read 1 c = (Inr [b], c\<lparr>cn_in := w @ CHR 0x0A # rest, cn_cuts := cuts\<rparr>)"
    using conn_read_1 [of c b "w @ CHR 0x0A # rest"] by auto
  with Cons.prems have "read_line_from acc c = read_line_from (acc @ [b]) (c\<lparr>cn_in := w @ CHR 0x0A # rest, cn_cuts := cuts\<rparr>)"
    by (subst read_line_from.simps) auto
  moreover obtain cuts' where "read_line_from (acc @ [b]) (c\<lparr>cn_in := w @ CHR 0x0A # rest, cn_cuts := cuts\<rparr>)
      = (Inr ((acc @ [b]) @ w), c\<lparr>cn_in := rest, cn_cuts := cuts'\<rparr>)"
    using Cons.IH [of "c\<lparr>cn_in := w @ CHR 0x0A # rest, cn_cuts := cuts\<rparr>" "acc @ [b]"] Cons.prems by auto
  ultimately show ?case by auto
qed

lemma read_line_line:
  assumes "cn_in c = w @ CHR 0x0A # rest" "CHR 0x0A \<notin> set w" "length w \<le> 1024" "is_ascii w"
  shows "\<exists>cuts. read_line c = (Inr w, c\<lparr>cn_in := rest, cn_cuts := cuts\<rparr>)"
  using read_line_from_line [OF assms(1,2), of "[]"] assms(3,4) by (auto simp: read_line_def from_utf8_lossy_ascii)

text \<open>Words and the spaces between them.\<close>

lemma ws_len_word: "no_ws w \<Longrightarrow> w \<noteq> [] \<Longrightarrow> ws_len (w @ s) = 0"
  by (cases w) (auto simp: no_ws_def ws_len_ascii)

lemma ws_len_space: "ws_len (CHR 0x20 # s) = 1"
  by (simp add: ws_len_ascii is_ws_scalar_def ws_scalars_def)

lemma find_ws_none: "no_ws w \<Longrightarrow> find_ws w = None"
  by (induction w) (auto simp: no_ws_def ws_len_ascii)

lemma split_whitespace_word:
  "no_ws w \<Longrightarrow> w \<noteq> [] \<Longrightarrow> split_whitespace (w @ CHR 0x20 # s) = w # split_whitespace s"
  by (subst split_whitespace.simps) (simp add: ws_len_word find_ws_word ws_len_space)

lemma split_whitespace_last: "no_ws w \<Longrightarrow> w \<noteq> [] \<Longrightarrow> split_whitespace w = [w]"
  using ws_len_word [of w "[]"] by (subst split_whitespace.simps) (simp add: find_ws_none)

lemma show_nat_no_ws: "no_ws (show_nat n)"
  using show_radix_bytes [of 10] digit_bytes_no_ws by (fastforce simp: no_ws_def show_nat_def)

lemma show_int_no_ws: "no_ws (show_int i)" "show_int i \<noteq> []"
proof -
  have "no_ws ''-''" by (simp add: no_ws_def is_ws_scalar_def ws_scalars_def)
  then show "no_ws (show_int i)" using show_nat_no_ws by (auto simp: show_int_def no_ws_def)
  show "show_int i \<noteq> []" by (simp add: show_int_def show_nat_def)
qed

lemma parse_i64_show:
  assumes "0 \<le> t" "t < 2 ^ 63"
  shows "parse_i64 (show_int t) = Some t"
proof -
  have "byte c \<in> {48..57} \<union> {97..122}" if "c \<in> set (show_radix 10 (nat t))" for c
    using show_radix_bytes [of 10 c] that by simp
  moreover have "byte (CHR ''-'') = 45" by simp
  ultimately have "CHR ''-'' \<notin> set (show_radix 10 (nat t))" by fastforce
  then have "\<not> starts_with (show_radix 10 (nat t)) ''-''" by (auto simp: starts_with_split)
  moreover have "from_str_radix (2 ^ 63 - 1) 10 (show_radix 10 (nat t)) = Some (nat t)"
    by (rule from_str_radix_show) (use assms in auto)
  ultimately show ?thesis using assms(1) by (simp add: parse_i64_def show_int_def show_nat_def)
qed

text \<open>What a line is accepted for.\<close>

lemma verify_preface_accepts:
  "verify_preface hmac line secret skew clock instant cache = (Returned (Inr True), cache') \<longleftrightarrow>
     (\<exists>token ts nonce timestamp. split_whitespace line = [PREFACE_MAGIC, token, ts, nonce, hmac secret (preface_payload token timestamp nonce)]
        \<and> timestamp = (case parse_i64 ts of None \<Rightarrow> 0 | Some t \<Rightarrow> t) \<and> 0 \<le> clock \<and> clock < 2 ^ 63 \<and> clock - timestamp < 2 ^ 63
        \<and> \<bar>clock - timestamp\<bar> \<le> int skew \<and> map_of cache nonce = None \<and> cache' = hm_insert nonce instant cache)"
  by (auto simp: verify_preface_def Let_def unix_secs_def split: list.splits if_splits)

lemma verify_preface_cache:
  "verify_preface hmac line secret skew clock instant cache = (r, cache') \<Longrightarrow> r \<noteq> Returned (Inr True) \<Longrightarrow> cache' = cache"
  by (auto simp: verify_preface_def Let_def split: list.splits if_splits option.splits)

definition preface_line :: "keyed_digest \<Rightarrow> bytes \<Rightarrow> bytes \<Rightarrow> int \<Rightarrow> bytes \<Rightarrow> bytes" where
  "preface_line hmac token secret timestamp nonce =
     PREFACE_MAGIC @ '' '' @ token @ '' '' @ show_int timestamp @ '' '' @ nonce @ '' '' @ hmac secret (preface_payload token timestamp nonce)"

definition is_word :: "bytes \<Rightarrow> bool" where
  "is_word w \<longleftrightarrow> w \<noteq> [] \<and> no_ws w"

lemma build_preface_line:
  "0 \<le> clock \<Longrightarrow> clock < 2 ^ 63 \<Longrightarrow> build_preface hmac token secret clock nonce = Inr (preface_line hmac token secret clock nonce @ [CHR 0x0A])"
  by (simp add: build_preface_def unix_secs_def preface_line_def)

lemma preface_line_words:
  assumes "is_word token" "is_word nonce" "is_word (hmac secret (preface_payload token timestamp nonce))"
  shows "split_whitespace (preface_line hmac token secret timestamp nonce) =
    [PREFACE_MAGIC, token, show_int timestamp, nonce, hmac secret (preface_payload token timestamp nonce)]"
    "is_ascii (preface_line hmac token secret timestamp nonce)" "CHR 0x0A \<notin> set (preface_line hmac token secret timestamp nonce)"
proof -
  have magic: "is_word PREFACE_MAGIC" "is_word (show_int timestamp)"
    using show_int_no_ws by (auto simp: is_word_def PREFACE_MAGIC_def no_ws_def is_ws_scalar_def ws_scalars_def)
  show "split_whitespace (preface_line hmac token secret timestamp nonce) =
    [PREFACE_MAGIC, token, show_int timestamp, nonce, hmac secret (preface_payload token timestamp nonce)]"
    using assms magic by (simp add: preface_line_def is_word_def split_whitespace_word split_whitespace_last)
  have "no_ws w \<Longrightarrow> is_ascii w \<and> CHR 0x0A \<notin> set w" for w
    by (auto simp: no_ws_def is_ascii_def is_ws_scalar_def ws_scalars_def)
  then show "is_ascii (preface_line hmac token secret timestamp nonce)" "CHR 0x0A \<notin> set (preface_line hmac token secret timestamp nonce)"
    using assms magic by (auto simp: preface_line_def is_word_def is_ascii_def)
qed

section \<open>Runs\<close>

text \<open>Attempts and sweeps of the reaper at instants of the monotonic clock; \<open>epoch\<close> is what the wall clock is ahead of it, in
  nanoseconds.\<close>

datatype ssh_event = Attempt bytes | Reap

definition wall_secs :: "nat \<Rightarrow> nat \<Rightarrow> int" where
  "wall_secs epoch instant = int ((epoch + instant) div 10 ^ 9)"

fun ssh_step :: "keyed_digest \<Rightarrow> bytes \<Rightarrow> nat \<Rightarrow> nat \<Rightarrow> nat \<times> ssh_event \<Rightarrow> nonce_cache \<Rightarrow> nonce_cache" where
  "ssh_step hmac secret skew epoch (instant, Attempt line) cache =
     snd (verify_preface hmac line secret skew (wall_secs epoch instant) instant cache)"
| "ssh_step hmac secret skew epoch (instant, Reap) cache = reap_nonces skew instant cache"

definition ssh_run :: "keyed_digest \<Rightarrow> bytes \<Rightarrow> nat \<Rightarrow> nat \<Rightarrow> (nat \<times> ssh_event) list \<Rightarrow> nonce_cache \<Rightarrow> nonce_cache" where
  "ssh_run hmac secret skew epoch es cache = fold (ssh_step hmac secret skew epoch) es cache"

definition accepted_at :: "keyed_digest \<Rightarrow> bytes \<Rightarrow> nat \<Rightarrow> nat \<Rightarrow> nat \<Rightarrow> bytes \<Rightarrow> nonce_cache \<Rightarrow> bool" where
  "accepted_at hmac secret skew epoch instant line cache \<longleftrightarrow>
     fst (verify_preface hmac line secret skew (wall_secs epoch instant) instant cache) = Returned (Inr True)"

text \<open>A nonce stays known until the window since its insertion is over.\<close>

lemma map_of_filter_distinct:
  "distinct (map fst m) \<Longrightarrow> map_of (filter P m) k = (case map_of m k of None \<Rightarrow> None | Some v \<Rightarrow> if P (k, v) then Some v else None)"
proof (induction m)
  case (Cons kv m)
  then show ?case by (cases kv) (auto split: option.splits simp: map_of_eq_None_iff rev_image_eqI)
qed simp

lemma ssh_step_remembers:
  assumes "hm_inv cache" "map_of cache nonce = Some j"
  shows "hm_inv (ssh_step hmac secret skew epoch e cache)"
    "map_of (ssh_step hmac secret skew epoch e cache) nonce = Some j \<or> j + skew * 10 ^ 9 \<le> max j (fst e)"
proof -
  obtain i ev where e: "e = (i, ev)" by force
  have "hm_inv (ssh_step hmac secret skew epoch e cache)
    \<and> (map_of (ssh_step hmac secret skew epoch e cache) nonce = Some j \<or> j + skew * 10 ^ 9 \<le> max j i)"
  proof (cases ev)
    case (Attempt line)
    obtain r cache' where v: "verify_preface hmac line secret skew (wall_secs epoch i) i cache = (r, cache')" by force
    show ?thesis
    proof (cases "r = Returned (Inr True)")
      case True
      with v obtain n where n: "map_of cache n = None" "cache' = hm_insert n i cache" by (auto simp: verify_preface_accepts)
      then have "n \<noteq> nonce" using assms(2) by auto
      then show ?thesis using e Attempt v n assms hm.inv_ins [OF assms(1), of n i] hm.get_ins [OF assms(1), of n i] by simp
    next
      case False
      then show ?thesis using verify_preface_cache [OF v] e Attempt v assms by simp
    qed
  next
    case Reap
    have d: "distinct (map fst cache)" using assms(1) by (simp add: hm_inv_def)
    have "hm_inv (reap_nonces skew i cache)" using assms(1) by (simp add: reap_nonces_def hm_inv_def distinct_map_filter)
    then show ?thesis
      using e Reap assms(2) by (auto simp: reap_nonces_def map_of_filter_distinct [OF d])
  qed
  then show "hm_inv (ssh_step hmac secret skew epoch e cache)"
    "map_of (ssh_step hmac secret skew epoch e cache) nonce = Some j \<or> j + skew * 10 ^ 9 \<le> max j (fst e)"
    using e by auto
qed

lemma ssh_run_remembers:
  assumes "hm_inv cache" "map_of cache nonce = Some j"
  shows "map_of (ssh_run hmac secret skew epoch es cache) nonce = Some j \<or> (\<exists>e\<in>set es. j + skew * 10 ^ 9 \<le> max j (fst e))"
  using assms
proof (induction es arbitrary: cache)
  case (Cons e es)
  note step = ssh_step_remembers [OF Cons.prems, of hmac secret skew epoch e]
  show ?case using Cons.IH [OF step(1)] step(2) by (auto simp: ssh_run_def)
qed (simp add: ssh_run_def)

lemma wall_secs_later: "j + skew * 10 ^ 9 \<le> i \<Longrightarrow> wall_secs epoch j + int skew \<le> wall_secs epoch i"
proof -
  assume "j + skew * 10 ^ 9 \<le> i"
  then have "(epoch + j + skew * 10 ^ 9) div 10 ^ 9 \<le> (epoch + i) div 10 ^ 9" by (intro div_le_mono) simp
  then show ?thesis by (simp add: wall_secs_def)
qed

lemma wall_secs_exact: "wall_secs epoch (j + skew * 10 ^ 9) = wall_secs epoch j + int skew"
  by (simp add: wall_secs_def flip: add.assoc)

definition preface_timestamp :: "bytes \<Rightarrow> int" where
  "preface_timestamp line = (case parse_i64 (split_whitespace line ! 2) of None \<Rightarrow> 0 | Some t \<Rightarrow> t)"

lemma accepted_atE:
  assumes "accepted_at hmac secret skew epoch i line cache"
  obtains token ts nonce where
    "split_whitespace line = [PREFACE_MAGIC, token, ts, nonce, hmac secret (preface_payload token (preface_timestamp line) nonce)]"
    "\<bar>wall_secs epoch i - preface_timestamp line\<bar> \<le> int skew" "map_of cache nonce = None"
    "ssh_step hmac secret skew epoch (i, Attempt line) cache = hm_insert nonce i cache"
proof -
  obtain c1 where v: "verify_preface hmac line secret skew (wall_secs epoch i) i cache = (Returned (Inr True), c1)"
    using assms by (metis accepted_at_def prod.collapse)
  then have "ssh_step hmac secret skew epoch (i, Attempt line) cache = c1" by simp
  then show ?thesis using v that unfolding verify_preface_accepts by (auto simp: preface_timestamp_def simp del: ssh_step.simps)
qed

lemma accepted_atI:
  assumes w: "split_whitespace line = [PREFACE_MAGIC, token, ts, nonce, hmac secret (preface_payload token (preface_timestamp line) nonce)]"
    and "wall_secs epoch i < 2 ^ 63" "wall_secs epoch i - preface_timestamp line < 2 ^ 63"
    "\<bar>wall_secs epoch i - preface_timestamp line\<bar> \<le> int skew" "map_of cache nonce = None"
  shows "accepted_at hmac secret skew epoch i line cache"
proof -
  have "split_whitespace line ! 2 = ts" by (subst w) simp
  then have "(case parse_i64 ts of None \<Rightarrow> 0 | Some t \<Rightarrow> t) = preface_timestamp line" by (simp add: preface_timestamp_def)
  moreover have "0 \<le> wall_secs epoch i" by (simp add: wall_secs_def)
  ultimately have "verify_preface hmac line secret skew (wall_secs epoch i) i cache = (Returned (Inr True), hm_insert nonce i cache)"
    unfolding verify_preface_accepts using assms by auto
  then show ?thesis by (simp add: accepted_at_def)
qed

section \<open>Properties\<close>

lemma fresh_preface_accepted:
  assumes "is_word token" "is_word nonce" "is_word (hmac secret (preface_payload token t nonce))" "0 \<le> t" "t < 2 ^ 63"
    "0 \<le> clock" "clock < 2 ^ 63" "\<bar>clock - t\<bar> \<le> int skew" "map_of cache nonce = None"
  shows "verify_preface hmac (preface_line hmac token secret t nonce) secret skew clock instant cache =
    (Returned (Inr True), hm_insert nonce instant cache)"
  using assms parse_i64_show [OF assms(4,5)] preface_line_words(1) [of token nonce hmac secret t, OF assms(1-3)]
  by (auto simp: verify_preface_accepts)

lemma send_preface_ok:
  assumes "build_preface hmac token secret sent nonce = Inr preface" "conn_write preface g = (Inr (), g1)"
    and "cn_in g = ''OK'' @ CHR 0x0A # more_bytes"
  shows "\<exists>g'. send_preface hmac token secret sent nonce g = (Inr (), g') \<and> cn_in g' = more_bytes \<and> cn_out g' = cn_out g @ preface"
proof -
  have g1: "cn_in g1 = cn_in g" "cn_out g1 = cn_out g @ preface"
    using assms(2) by (auto simp: conn_write_def split: list.splits option.splits if_splits)
  obtain cuts where "read_line g1 = (Inr ''OK'', g1\<lparr>cn_in := more_bytes, cn_cuts := cuts\<rparr>)"
    using read_line_line [of g1 "''OK''" more_bytes] assms(3) g1 by (auto simp: is_ascii_def)
  moreover have "trim_ws ''OK'' = ''OK''" by code_simp
  ultimately show ?thesis using assms(1,2) g1 by (simp add: send_preface_def)
qed

text \<open>The two ends of the handshake agree. For a token, a nonce and a digest that are words (hexadecimal in the code) and a
  line of at most 1024 bytes, what the gateway's \<open>build_preface\<close> sends is accepted by the sandbox's \<open>handle_connection\<close> whenever the
  two clocks differ by no more than the allowed skew and the nonce is not known: it answers \<open>OK\<close>, leaves the bytes behind the line
  unread for the SSH server and remembers the nonce, however the network cuts the stream; and the gateway, reading that answer,
  goes on to the tunnel with what follows it unread.\<close>

theorem handshake_accepted:
  assumes "is_word token" "is_word nonce" "is_word (hmac secret (preface_payload token sent nonce))"
    and "build_preface hmac token secret sent nonce = Inr preface" "length preface \<le> 1025"
    and "0 \<le> clock" "clock < 2 ^ 63" "\<bar>clock - sent\<bar> \<le> int skew" "map_of cache nonce = None"
    and "cn_in c = preface @ rest" "conn_write (''OK'' @ [CHR 0x0A]) c = (Inr (), c1)" "cn_out c = []"
    and "conn_write preface g = (Inr (), g1)"
  shows "\<exists>c'. handle_connection hmac secret skew clock instant cache c = (SshOpen, hm_insert nonce instant cache, c') \<and> cn_in c' = rest
    \<and> (cn_in g = cn_out c' @ answer \<longrightarrow>
         (\<exists>g'. send_preface hmac token secret sent nonce g = (Inr (), g') \<and> cn_in g' = answer \<and> cn_out g' = cn_out g @ preface))"
proof -
  have t: "0 \<le> sent" "sent < 2 ^ 63" using assms(4) by (auto simp: build_preface_def unix_secs_def split: if_splits)
  then have p: "preface = preface_line hmac token secret sent nonce @ [CHR 0x0A]"
    using build_preface_line [OF t, of hmac token secret nonce] assms(4) by simp
  have "cn_in c = preface_line hmac token secret sent nonce @ CHR 0x0A # rest" using assms(10) p by simp
  from read_line_line [OF this] obtain cuts where
    l: "read_line c = (Inr (preface_line hmac token secret sent nonce), c\<lparr>cn_in := rest, cn_cuts := cuts\<rparr>)"
    using preface_line_words(2,3) [of token nonce hmac secret sent, OF assms(1-3)] assms(5) p by auto
  note v = fresh_preface_accepted [of token nonce hmac secret sent clock skew cache instant, OF assms(1-3) t assms(6-9)]
  obtain c' where c': "handle_connection hmac secret skew clock instant cache c = (SshOpen, hm_insert nonce instant cache, c')"
    "cn_in c' = rest" "cn_out c' = ''OK'' @ [CHR 0x0A]"
    using assms(11,12) by (auto simp: handle_connection_def l v conn_write_def split: list.splits option.splits)
  then show ?thesis using send_preface_ok [OF assms(4,13), of answer] by auto
qed

theorem handshake_accepted_witness:
  "\<exists>c'. handle_connection (\<lambda>_ _. ''9f'') ''k'' 300 1010 7 [] (fresh_conn (''NSSH1 tok 1000 n1 9f'' @ [CHR 0x0A] @ ''SSH-2.0'') [])
      = (SshOpen, hm_insert ''n1'' 7 [], c') \<and> cn_in c' = ''SSH-2.0''"
proof -
  have "build_preface (\<lambda>_ _. ''9f'') ''tok'' ''k'' 1000 ''n1'' = Inr (''NSSH1 tok 1000 n1 9f'' @ [CHR 0x0A])" by code_simp
  moreover have "is_word ''tok''" "is_word ''n1''" "is_word ''9f''" by code_simp+
  ultimately show ?thesis
    using handshake_accepted [of "''tok''" "''n1''" "\<lambda>_ _. ''9f''" "''k''" 1000 "''NSSH1 tok 1000 n1 9f'' @ [CHR 0x0A]" 1010 300 "[]"
        "fresh_conn (''NSSH1 tok 1000 n1 9f'' @ [CHR 0x0A] @ ''SSH-2.0'') []" "''SSH-2.0''" _ "fresh_conn (''OK'' @ [CHR 0x0A]) []" _ 7 "[]"]
    by (auto simp: fresh_conn_def conn_write_def)
qed

text \<open>C33: a line that was accepted is not accepted again as long as its timestamp is at least a second in the past of the acceptance:
  whatever attempts and sweeps of the reaper happen in between, the nonce is either still known or the timestamp has left
  the window.\<close>

theorem replay_rejected:
  assumes "hm_inv cache" "accepted_at hmac secret skew epoch i1 line cache" "preface_timestamp line < wall_secs epoch i1"
    and "\<forall>e\<in>set es. fst e \<le> i2" "i1 \<le> i2"
  shows "\<not> accepted_at hmac secret skew epoch i2 line (ssh_run hmac secret skew epoch ((i1, Attempt line) # es) cache)"
proof
  obtain token ts nonce where w: "split_whitespace line =
      [PREFACE_MAGIC, token, ts, nonce, hmac secret (preface_payload token (preface_timestamp line) nonce)]"
    and c1: "ssh_step hmac secret skew epoch (i1, Attempt line) cache = hm_insert nonce i1 cache"
    using assms(2) by (blast elim: accepted_atE)
  assume "accepted_at hmac secret skew epoch i2 line (ssh_run hmac secret skew epoch ((i1, Attempt line) # es) cache)"
  then have late: "\<bar>wall_secs epoch i2 - preface_timestamp line\<bar> \<le> int skew"
    and unknown: "map_of (ssh_run hmac secret skew epoch ((i1, Attempt line) # es) cache) nonce = None"
    using w by (auto elim!: accepted_atE)
  have "map_of (hm_insert nonce i1 cache) nonce = Some i1" "hm_inv (hm_insert nonce i1 cache)"
    using hm.inv_ins [OF assms(1), of nonce i1] hm.get_ins [OF assms(1), of nonce i1] by auto
  from ssh_run_remembers [OF this(2,1), of hmac secret skew epoch es] unknown c1 obtain e where
    "e \<in> set es" "i1 + skew * 10 ^ 9 \<le> max i1 (fst e)" by (auto simp: ssh_run_def)
  then have "i1 + skew * 10 ^ 9 \<le> i2" using assms(4,5) by (auto simp: max_def split: if_splits)
  from wall_secs_later [OF this, of epoch] show False using late assms(3) by linarith
qed

theorem replay_rejected_witness:
  "\<not> accepted_at (\<lambda>_ _. ''9f'') ''k'' 1 0 3000000000 ''NSSH1 tok 1 n1 9f''
      (ssh_run (\<lambda>_ _. ''9f'') ''k'' 1 0 [(2000000000, Attempt ''NSSH1 tok 1 n1 9f''), (3000000000, Reap)] [])"
proof -
  have w: "split_whitespace ''NSSH1 tok 1 n1 9f'' = [PREFACE_MAGIC, ''tok'', ''1'', ''n1'', ''9f'']" by code_simp
  have "show_int 1 = ''1''" by code_simp
  then have t: "preface_timestamp ''NSSH1 tok 1 n1 9f'' = 1" using parse_i64_show [of 1] by (simp add: preface_timestamp_def w)
  have "accepted_at (\<lambda>_ _. ''9f'') ''k'' 1 0 2000000000 ''NSSH1 tok 1 n1 9f'' []"
    "preface_timestamp ''NSSH1 tok 1 n1 9f'' < wall_secs 0 2000000000"
    using accepted_atI [where hmac = "\<lambda>_ _. ''9f''", OF w] by (simp_all add: t wall_secs_def)
  from replay_rejected [OF _ this, of "[(3000000000, Reap)]" 3000000000] show ?thesis by (simp add: hm_inv_def)
qed

text \<open>A line whose timestamp is not in the past of its acceptance (the same second is enough) is accepted a second time: the reaper
  forgets its nonce once the allowed skew has passed, and the line is still inside the window then.\<close>

theorem replay_accepted:
  assumes "hm_inv cache" "accepted_at hmac secret skew epoch i1 line cache" "wall_secs epoch i1 \<le> preface_timestamp line"
    and "wall_secs epoch (i1 + skew * 10 ^ 9) < 2 ^ 63"
  shows "accepted_at hmac secret skew epoch (i1 + skew * 10 ^ 9) line
    (ssh_run hmac secret skew epoch [(i1, Attempt line), (i1 + skew * 10 ^ 9, Reap)] cache)"
proof -
  obtain token ts nonce where w: "split_whitespace line =
      [PREFACE_MAGIC, token, ts, nonce, hmac secret (preface_payload token (preface_timestamp line) nonce)]"
    and near: "\<bar>wall_secs epoch i1 - preface_timestamp line\<bar> \<le> int skew"
    and c1: "ssh_step hmac secret skew epoch (i1, Attempt line) cache = hm_insert nonce i1 cache"
    using assms(2) by (blast elim: accepted_atE)
  define cache2 where "cache2 = reap_nonces skew (i1 + skew * 10 ^ 9) (hm_insert nonce i1 cache)"
  have "distinct (map fst (hm_insert nonce i1 cache))" using hm.inv_ins [OF assms(1), of nonce i1] by (simp add: hm_inv_def)
  from map_of_filter_distinct [OF this] have "map_of cache2 nonce = None"
    using hm.get_ins [OF assms(1), of nonce i1] by (simp add: cache2_def reap_nonces_def)
  moreover have "\<bar>wall_secs epoch (i1 + skew * 10 ^ 9) - preface_timestamp line\<bar> \<le> int skew"
    "wall_secs epoch (i1 + skew * 10 ^ 9) - preface_timestamp line < 2 ^ 63"
    using near assms(3,4) zero_le_imp_eq_int [of "wall_secs epoch i1"] by (auto simp: wall_secs_exact wall_secs_def)
  ultimately have "accepted_at hmac secret skew epoch (i1 + skew * 10 ^ 9) line cache2"
    using w assms(4) by (blast intro: accepted_atI)
  then show ?thesis using c1 by (simp add: ssh_run_def cache2_def)
qed

theorem replay_accepted_witness:
  "accepted_at (\<lambda>_ _. ''9f'') ''k'' 1 0 3000000000 ''NSSH1 tok 2 n1 9f''
      (ssh_run (\<lambda>_ _. ''9f'') ''k'' 1 0 [(2000000000, Attempt ''NSSH1 tok 2 n1 9f''), (3000000000, Reap)] [])"
proof -
  have w: "split_whitespace ''NSSH1 tok 2 n1 9f'' = [PREFACE_MAGIC, ''tok'', ''2'', ''n1'', ''9f'']" by code_simp
  have "show_int 2 = ''2''" by code_simp
  then have t: "preface_timestamp ''NSSH1 tok 2 n1 9f'' = 2" using parse_i64_show [of 2] by (simp add: preface_timestamp_def w)
  have "accepted_at (\<lambda>_ _. ''9f'') ''k'' 1 0 2000000000 ''NSSH1 tok 2 n1 9f'' []"
    "wall_secs 0 2000000000 \<le> preface_timestamp ''NSSH1 tok 2 n1 9f''" "wall_secs 0 (2000000000 + 1 * 10 ^ 9) < 2 ^ 63"
    using accepted_atI [where hmac = "\<lambda>_ _. ''9f''", OF w] by (simp_all add: t wall_secs_def)
  from replay_accepted [OF _ this] show ?thesis by (simp add: hm_inv_def)
qed

text \<open>The timestamp is read before the signature is verified, and the smallest \<open>i64\<close> makes the subtraction overflow: anybody who can reach
  the port makes a debug build panic, whatever the secret.\<close>

theorem unsigned_timestamp_panics:
  assumes "split_whitespace line = [PREFACE_MAGIC, token, ts, nonce, signature]" "parse_i64 ts = Some (- (2 ^ 63))" "0 \<le> clock" "clock < 2 ^ 63"
  shows "verify_preface hmac line secret skew clock instant cache = (Panicked, cache)"
  using assms by (simp add: verify_preface_def unix_secs_def)

theorem unsigned_timestamp_panics_witness:
  "verify_preface (\<lambda>_ _. ''9f'') ''NSSH1 t -9223372036854775808 n forged'' ''k'' 300 1000 0 [] = (Panicked, [])"
proof -
  have "split_whitespace ''NSSH1 t -9223372036854775808 n forged'' = [PREFACE_MAGIC, ''t'', ''-9223372036854775808'', ''n'', ''forged'']"
    by code_simp
  moreover have "parse_i64 ''-9223372036854775808'' = Some (- (2 ^ 63))" by (simp add: parse_i64_def starts_with_def digit_value_def is_ascii_digit_def)
  ultimately show ?thesis using unsigned_timestamp_panics [of _ _ _ _ _ 1000] by simp
qed

end
