(* ===== verification/Ssh_Tunnel.thy ===== *)
theory Ssh_Tunnel
  imports Ssh_Handshake Gateway_Providers Ip_Guard
begin

text \<open>
  The gateway's SSH tunnels (\<open>clustershell-server/src/ssh_tunnel.rs\<close>): session tokens, which \<open>create_ssh_session\<close> and
  \<open>revoke_ssh_session\<close> of \<open>grpc.rs\<close> make and revoke and a reaper removes; the admission of a \<open>CONNECT\<close> request; the
  counters of open tunnels, which tasks share; and the tunnel's way to the sandbox. The cluster's answer about a pod is a
  parameter, as is the serialisation of sessions.
\<close>

section \<open>Sessions\<close>

record ssh_session =
  se_id :: bytes
  se_sandbox_id :: bytes
  se_token :: bytes
  se_created_at_ms :: int
  se_revoked :: bool
  se_name :: bytes
  se_expires_at_ms :: int

record session_codec =
  sc_session :: "ssh_session \<Rightarrow> bytes"
  sc_session_of :: "bytes \<Rightarrow> (bytes, ssh_session) result"

definition get_session :: "session_codec \<Rightarrow> bytes \<Rightarrow> ssh_session option call" where
  "get_session S token = message_of (sc_session_of S) (execute (db_get ''ssh_session'' token))"

definition put_session :: "session_codec \<Rightarrow> ssh_session \<Rightarrow> unit call" where
  "put_session S s = execute (db_put ''ssh_session'' (se_id s) (se_name s) (sc_session S s))"

definition SANDBOX_READY :: nat where
  "SANDBOX_READY = 2"

text \<open>Of the gateway's configuration; \<open>gc_tls\<close> is whether TLS is configured.\<close>

record gateway_config =
  gc_bind_ip :: ip_addr
  gc_bind_port :: nat
  gc_tls :: bool
  gc_ssh_gateway_host :: bytes
  gc_ssh_gateway_port :: nat
  gc_ssh_connect_path :: bytes
  gc_sandbox_ssh_port :: nat
  gc_sandbox_namespace :: bytes
  gc_ssh_handshake_secret :: bytes
  gc_ssh_session_ttl_secs :: nat

definition resolve_gateway :: "gateway_config \<Rightarrow> bytes \<times> nat" where
  "resolve_gateway cfg =
     (if gc_ssh_gateway_host cfg = [] then show_ip (gc_bind_ip cfg) else gc_ssh_gateway_host cfg,
      if gc_ssh_gateway_port cfg = 0 then gc_bind_port cfg else gc_ssh_gateway_port cfg)"

text \<open>\<open>now_ms + (ttl as i64 * 1000)\<close>: the cast wraps, product and sum panic on overflow in a debug build.\<close>

definition fits_i64 :: "int \<Rightarrow> bool" where
  "fits_i64 i \<longleftrightarrow> - (2 ^ 63) \<le> i \<and> i < 2 ^ 63"

definition as_i64 :: "nat \<Rightarrow> int" where
  "as_i64 n = (if n < 2 ^ 63 then int n else int n - 2 ^ 64)"

definition session_expiry :: "nat \<Rightarrow> int \<Rightarrow> (status, int) result" where
  "session_expiry ttl now_ms =
     (if 0 < ttl then
        (let e = now_ms + as_i64 ttl * 1000 in
         if fits_i64 (as_i64 ttl * 1000) \<and> fits_i64 e then Inr e else Inl (TaskPanicked, ''attempt to add with overflow''))
      else Inr 0)"

record ssh_session_response =
  sr_sandbox_id :: bytes
  sr_token :: bytes
  sr_gateway_host :: bytes
  sr_gateway_port :: nat
  sr_gateway_scheme :: bytes
  sr_connect_path :: bytes
  sr_host_key_fingerprint :: bytes
  sr_expires_at_ms :: int

text \<open>\<open>generate_name\<close> draws a name; it is given.\<close>

definition create_ssh_session ::
  "codec \<Rightarrow> session_codec \<Rightarrow> gateway_config \<Rightarrow> bytes \<Rightarrow> bytes \<Rightarrow> ssh_session_response handler" where
  "create_ssh_session C S cfg name sandbox_id =
     hbind (require_name ''sandbox_id'' sandbox_id) (\<lambda>_.
     hbind (or_internal ''fetch sandbox failed'' (get_sandbox_message C sandbox_id)) (\<lambda>found.
     hbind (hlift (ok_or (NotFound, ''sandbox not found'') found)) (\<lambda>sandbox.
     if sx_phase sandbox \<noteq> SANDBOX_READY then hfail FailedPrecondition ''sandbox is not ready''
     else
       hbind new_uuid (\<lambda>token.
       hbind current_time_ms (\<lambda>now_ms.
       hbind (hlift (session_expiry (gc_ssh_session_ttl_secs cfg) now_ms)) (\<lambda>expires_at_ms.
       hbind (or_internal ''persist ssh session failed'' (put_session S
         \<lparr>se_id = token, se_sandbox_id = sandbox_id, se_token = token, se_created_at_ms = now_ms, se_revoked = False,
          se_name = name, se_expires_at_ms = expires_at_ms\<rparr>)) (\<lambda>_.
       hreturn \<lparr>sr_sandbox_id = sandbox_id, sr_token = token, sr_gateway_host = fst (resolve_gateway cfg),
         sr_gateway_port = snd (resolve_gateway cfg), sr_gateway_scheme = (if gc_tls cfg then ''https'' else ''http''),
         sr_connect_path = gc_ssh_connect_path cfg, sr_host_key_fingerprint = [], sr_expires_at_ms = expires_at_ms\<rparr>)))))))"

definition revoke_ssh_session :: "session_codec \<Rightarrow> bytes \<Rightarrow> bool handler" where
  "revoke_ssh_session S token =
     hbind (require_name ''token'' token) (\<lambda>_.
     hbind (or_internal ''fetch ssh session failed'' (get_session S token)) (\<lambda>found.
     case found of
       None \<Rightarrow> hreturn False
     | Some session \<Rightarrow>
         hbind (or_internal ''persist ssh session failed'' (put_session S (session\<lparr>se_revoked := True\<rparr>))) (\<lambda>_.
         hreturn True)))"

text \<open>The reaper's sweep; a session that cannot be read is left, one that cannot be deleted too.\<close>

definition session_dead :: "int \<Rightarrow> ssh_session \<Rightarrow> bool" where
  "session_dead now_ms s \<longleftrightarrow> 0 < se_expires_at_ms s \<and> se_expires_at_ms s < now_ms \<or> se_revoked s"

definition reap_record :: "session_codec \<Rightarrow> int \<Rightarrow> object_record \<Rightarrow> unit \<Rightarrow> unit handler" where
  "reap_record S now_ms row _ =
     (case sc_session_of S (or_payload row) of
        Inl _ \<Rightarrow> hreturn ()
      | Inr s \<Rightarrow> if session_dead now_ms s then ignoring (execute (db_delete ''ssh_session'' (se_id s))) else hreturn ())"

definition reap_expired_sessions :: "session_codec \<Rightarrow> unit handler" where
  "reap_expired_sessions S =
     hbind current_time_ms (\<lambda>now_ms.
     hbind (or_internal [] (execute (db_list ''ssh_session'' 1000 0))) (\<lambda>rows.
     hfold (reap_record S now_ms) rows ()))"

section \<open>Counters\<close>

type_synonym counts = "(bytes \<times> nat) list"

definition MAX_CONNECTIONS_PER_TOKEN :: nat where "MAX_CONNECTIONS_PER_TOKEN = 3"
definition MAX_CONNECTIONS_PER_SANDBOX :: nat where "MAX_CONNECTIONS_PER_SANDBOX = 20"

definition count_of :: "counts \<Rightarrow> bytes \<Rightarrow> nat" where
  "count_of counts key = (case map_of counts key of None \<Rightarrow> 0 | Some n \<Rightarrow> n)"

text \<open>\<open>entry(key).or_insert(0)\<close>, the check and the increment; the entry is there afterwards in any case.\<close>

definition increment_below :: "nat \<Rightarrow> bytes \<Rightarrow> counts \<Rightarrow> bool \<times> counts" where
  "increment_below limit key counts =
     (let n = count_of counts key in if limit \<le> n then (False, hm_insert key n counts) else (True, hm_insert key (n + 1) counts))"

definition decrement_connection_count :: "bytes \<Rightarrow> counts \<Rightarrow> counts" where
  "decrement_connection_count key counts =
     (case map_of counts key of
        None \<Rightarrow> counts
      | Some n \<Rightarrow> if n - 1 = 0 then hm_remove key counts else hm_insert key (n - 1) counts)"

record tunnel_counts =
  tc_token :: counts
  tc_sandbox :: counts

text \<open>The critical sections of a request, each under its lock; the second takes the first lock again to undo the increment.\<close>

definition enter_token :: "bytes \<Rightarrow> tunnel_counts \<Rightarrow> bool \<times> tunnel_counts" where
  "enter_token token k =
     (case increment_below MAX_CONNECTIONS_PER_TOKEN token (tc_token k) of (ok, c) \<Rightarrow> (ok, k\<lparr>tc_token := c\<rparr>))"

definition enter_sandbox :: "bytes \<Rightarrow> bytes \<Rightarrow> tunnel_counts \<Rightarrow> bool \<times> tunnel_counts" where
  "enter_sandbox token sandbox_id k =
     (case increment_below MAX_CONNECTIONS_PER_SANDBOX sandbox_id (tc_sandbox k) of
        (True, c) \<Rightarrow> (True, k\<lparr>tc_sandbox := c\<rparr>)
      | (False, c) \<Rightarrow> (False, k\<lparr>tc_sandbox := c, tc_token := decrement_connection_count token (tc_token k)\<rparr>))"

definition leave_token :: "bytes \<Rightarrow> tunnel_counts \<Rightarrow> tunnel_counts" where
  "leave_token token k = k\<lparr>tc_token := decrement_connection_count token (tc_token k)\<rparr>"

definition leave_sandbox :: "bytes \<Rightarrow> tunnel_counts \<Rightarrow> tunnel_counts" where
  "leave_sandbox sandbox_id k = k\<lparr>tc_sandbox := decrement_connection_count sandbox_id (tc_sandbox k)\<rparr>"

section \<open>Admission\<close>

datatype http_status = OK | BAD_REQUEST | UNAUTHORIZED | NOT_FOUND | METHOD_NOT_ALLOWED | PRECONDITION_FAILED | TOO_MANY_REQUESTS
  | INTERNAL_SERVER_ERROR | BAD_GATEWAY

datatype connect_target = TargetIp ip_addr nat | TargetHost bytes nat

text \<open>Header names are compared without case and the first value counts; \<open>to_str\<close> takes visible ASCII, space and tab.\<close>

definition header_to_str :: "bytes \<Rightarrow> bytes option" where
  "header_to_str v = (if \<forall>c\<in>set v. 32 \<le> byte c \<and> byte c < 127 \<or> byte c = 9 then Some v else None)"

definition header_value :: "(bytes \<times> bytes) list \<Rightarrow> bytes \<Rightarrow> (http_status, bytes) result" where
  "header_value headers name =
     (case find (\<lambda>(n, _). to_ascii_lowercase n = name) headers of
        None \<Rightarrow> Inl UNAUTHORIZED
      | Some (_, v) \<Rightarrow>
          (case header_to_str v of
             None \<Rightarrow> Inl BAD_REQUEST
           | Some s \<Rightarrow> if trim_ws s = [] then Inl BAD_REQUEST else Inr (trim_ws s)))"

text \<open>What the cluster says of a status and of a pod.\<close>

record cluster =
  cl_agent_pod :: "bytes \<Rightarrow> bytes"
  cl_agent_pod_ip :: "bytes \<Rightarrow> (bytes, ip_addr option) result"

definition connect_target_of :: "gateway_config \<Rightarrow> cluster \<Rightarrow> sandbox \<Rightarrow> (http_status, connect_target) result" where
  "connect_target_of cfg K sb =
     (case map_option (cl_agent_pod K) (sx_status sb) of
        Some (c # pod) \<Rightarrow>
          (case cl_agent_pod_ip K (c # pod) of
             Inr (Some ip) \<Rightarrow> Inr (TargetIp ip (gc_sandbox_ssh_port cfg))
           | Inr None \<Rightarrow> Inl BAD_GATEWAY
           | Inl _ \<Rightarrow> Inl BAD_GATEWAY)
      | _ \<Rightarrow>
          (if sx_name sb \<noteq> [] then
             Inr (TargetHost (sx_name sb @ ''.'' @ gc_sandbox_namespace cfg @ ''.svc.cluster.local'') (gc_sandbox_ssh_port cfg))
           else Inl PRECONDITION_FAILED))"

record tunnel =
  tl_token :: bytes
  tl_sandbox_id :: bytes
  tl_target :: connect_target

text \<open>Up to the counters: method, headers, token, sandbox, target.\<close>

definition ssh_authorise ::
  "codec \<Rightarrow> session_codec \<Rightarrow> gateway_config \<Rightarrow> cluster \<Rightarrow> bytes \<Rightarrow> (bytes \<times> bytes) list \<Rightarrow> world
   \<Rightarrow> (http_status, tunnel) result \<times> world" where
  "ssh_authorise C S cfg K verb headers w =
     (if verb \<noteq> ''CONNECT'' then (Inl METHOD_NOT_ALLOWED, w)
      else case header_value headers ''x-sandbox-id'' of
        Inl status \<Rightarrow> (Inl status, w)
      | Inr sandbox_id \<Rightarrow>
          (case header_value headers ''x-sandbox-token'' of
             Inl status \<Rightarrow> (Inl status, w)
           | Inr token \<Rightarrow>
               (case get_session S token w of
                  (Inl _, w1) \<Rightarrow> (Inl INTERNAL_SERVER_ERROR, w1)
                | (Inr None, w1) \<Rightarrow> (Inl UNAUTHORIZED, w1)
                | (Inr (Some session), w1) \<Rightarrow>
                    (if se_revoked session \<or> se_sandbox_id session \<noteq> sandbox_id then (Inl UNAUTHORIZED, w1)
                     else if 0 < se_expires_at_ms session \<and> se_expires_at_ms session < w_now w1 then (Inl UNAUTHORIZED, w1)
                     else
                       (case get_sandbox_message C sandbox_id w1 of
                          (Inl _, w2) \<Rightarrow> (Inl INTERNAL_SERVER_ERROR, w2)
                        | (Inr None, w2) \<Rightarrow> (Inl NOT_FOUND, w2)
                        | (Inr (Some sandbox), w2) \<Rightarrow>
                            (if sx_phase sandbox \<noteq> SANDBOX_READY then (Inl PRECONDITION_FAILED, w2)
                             else
                               (case connect_target_of cfg K sandbox of
                                  Inl status \<Rightarrow> (Inl status, w2)
                                | Inr target \<Rightarrow> (Inr \<lparr>tl_token = token, tl_sandbox_id = sandbox_id, tl_target = target\<rparr>, w2))))))))"

text \<open>The whole request; the tunnel is what the spawned task carries on with.\<close>

definition ssh_connect ::
  "codec \<Rightarrow> session_codec \<Rightarrow> gateway_config \<Rightarrow> cluster \<Rightarrow> bytes \<Rightarrow> (bytes \<times> bytes) list \<Rightarrow> world \<times> tunnel_counts
   \<Rightarrow> (http_status \<times> tunnel option) \<times> world \<times> tunnel_counts" where
  "ssh_connect C S cfg K verb headers = (\<lambda>(w, k).
     case ssh_authorise C S cfg K verb headers w of
       (Inl status, w1) \<Rightarrow> ((status, None), w1, k)
     | (Inr t, w1) \<Rightarrow>
         (case enter_token (tl_token t) k of
            (False, k1) \<Rightarrow> ((TOO_MANY_REQUESTS, None), w1, k1)
          | (True, k1) \<Rightarrow>
              (case enter_sandbox (tl_token t) (tl_sandbox_id t) k1 of
                 (False, k2) \<Rightarrow> ((TOO_MANY_REQUESTS, None), w1, k2)
               | (True, k2) \<Rightarrow> ((OK, Some t), w1, k2))))"

section \<open>The tunnel\<close>

text \<open>Milliseconds before each attempt to connect.\<close>

definition connect_delays :: "nat list" where
  "connect_delays = [0, 100, 250, 500, 1000, 2000, 5000, 10000, 15000]"

text \<open>The attempts; \<open>dial n\<close> is what the n-th one gives. Time slept is counted.\<close>

fun connect_retrying :: "(nat \<Rightarrow> (report, conn) result) \<Rightarrow> nat \<Rightarrow> nat list \<Rightarrow> nat \<Rightarrow> report \<Rightarrow> (report, conn) result \<times> nat" where
  "connect_retrying dial n [] slept last_err = (Inl (''failed to connect to sandbox after retries: '' @ last_err), slept)"
| "connect_retrying dial n (delay # delays) slept last_err =
     (case dial n of
        Inr c \<Rightarrow> (Inr c, slept + delay)
      | Inl e \<Rightarrow> connect_retrying dial (n + 1) delays (slept + delay) e)"

definition handle_tunnel ::
  "keyed_digest \<Rightarrow> (nat \<Rightarrow> (report, conn) result) \<Rightarrow> bytes \<Rightarrow> bytes \<Rightarrow> int \<Rightarrow> bytes \<Rightarrow> (report, conn) result" where
  "handle_tunnel hmac dial token secret clock nonce =
     (case fst (connect_retrying dial 0 connect_delays 0 []) of
        Inl e \<Rightarrow> Inl e
      | Inr upstream \<Rightarrow>
          (case send_preface hmac token secret clock nonce upstream of
             (Inl e, _) \<Rightarrow> Inl e
           | (Inr _, upstream') \<Rightarrow> Inr upstream'))"

section \<open>Tasks\<close>

text \<open>What a request has done so far to the counters, and who it is.\<close>

datatype stage = Arrived | HoldsToken | Tunnelling | LeftToken | Gone

type_synonym task = "bytes \<times> bytes \<times> stage"

record tunnels =
  ts_counts :: tunnel_counts
  ts_tasks :: "task list"

text \<open>Critical sections happen one at a time, those of different tasks in any order.\<close>

inductive tunnel_step :: "tunnels \<Rightarrow> tunnels \<Rightarrow> bool" where
  arrive: "tunnel_step s (s\<lparr>ts_tasks := ts_tasks s @ [(token, sb, Arrived)]\<rparr>)"
| token_ok: "i < length (ts_tasks s) \<Longrightarrow> ts_tasks s ! i = (token, sb, Arrived) \<Longrightarrow> enter_token token (ts_counts s) = (True, k)
    \<Longrightarrow> tunnel_step s (s\<lparr>ts_counts := k, ts_tasks := (ts_tasks s)[i := (token, sb, HoldsToken)]\<rparr>)"
| token_full: "i < length (ts_tasks s) \<Longrightarrow> ts_tasks s ! i = (token, sb, Arrived) \<Longrightarrow> enter_token token (ts_counts s) = (False, k)
    \<Longrightarrow> tunnel_step s (s\<lparr>ts_counts := k, ts_tasks := (ts_tasks s)[i := (token, sb, Gone)]\<rparr>)"
| sandbox_ok: "i < length (ts_tasks s) \<Longrightarrow> ts_tasks s ! i = (token, sb, HoldsToken) \<Longrightarrow> enter_sandbox token sb (ts_counts s) = (True, k)
    \<Longrightarrow> tunnel_step s (s\<lparr>ts_counts := k, ts_tasks := (ts_tasks s)[i := (token, sb, Tunnelling)]\<rparr>)"
| sandbox_full: "i < length (ts_tasks s) \<Longrightarrow> ts_tasks s ! i = (token, sb, HoldsToken) \<Longrightarrow> enter_sandbox token sb (ts_counts s) = (False, k)
    \<Longrightarrow> tunnel_step s (s\<lparr>ts_counts := k, ts_tasks := (ts_tasks s)[i := (token, sb, Gone)]\<rparr>)"
| end_token: "i < length (ts_tasks s) \<Longrightarrow> ts_tasks s ! i = (token, sb, Tunnelling)
    \<Longrightarrow> tunnel_step s (s\<lparr>ts_counts := leave_token token (ts_counts s), ts_tasks := (ts_tasks s)[i := (token, sb, LeftToken)]\<rparr>)"
| end_sandbox: "i < length (ts_tasks s) \<Longrightarrow> ts_tasks s ! i = (token, sb, LeftToken)
    \<Longrightarrow> tunnel_step s (s\<lparr>ts_counts := leave_sandbox sb (ts_counts s), ts_tasks := (ts_tasks s)[i := (token, sb, Gone)]\<rparr>)"

definition holders :: "(task \<Rightarrow> bool) \<Rightarrow> task list \<Rightarrow> nat" where
  "holders P ts = length (filter P ts)"

definition holds_token :: "bytes \<Rightarrow> task \<Rightarrow> bool" where
  "holds_token token t \<longleftrightarrow> fst t = token \<and> snd (snd t) \<in> {HoldsToken, Tunnelling}"

definition holds_sandbox :: "bytes \<Rightarrow> task \<Rightarrow> bool" where
  "holds_sandbox sb t \<longleftrightarrow> fst (snd t) = sb \<and> snd (snd t) \<in> {Tunnelling, LeftToken}"

text \<open>A counter map counts \<open>n\<close>: what it holds is right and not zero.\<close>

definition counting :: "counts \<Rightarrow> (bytes \<Rightarrow> nat) \<Rightarrow> bool" where
  "counting c n \<longleftrightarrow> hm_inv c \<and> (\<forall>key. map_of c key = (if n key = 0 then None else Some (n key)))"

definition tally :: "(bytes \<Rightarrow> task \<Rightarrow> bool) \<Rightarrow> nat \<Rightarrow> counts \<Rightarrow> task list \<Rightarrow> bool" where
  "tally held limit c ts \<longleftrightarrow> counting c (\<lambda>key. holders (held key) ts) \<and> (\<forall>key. holders (held key) ts \<le> limit)"

definition tunnels_inv :: "tunnels \<Rightarrow> bool" where
  "tunnels_inv s \<longleftrightarrow>
     tally holds_token MAX_CONNECTIONS_PER_TOKEN (tc_token (ts_counts s)) (ts_tasks s)
     \<and> tally holds_sandbox MAX_CONNECTIONS_PER_SANDBOX (tc_sandbox (ts_counts s)) (ts_tasks s)"

definition no_tunnels :: tunnels where
  "no_tunnels = \<lparr>ts_counts = \<lparr>tc_token = [], tc_sandbox = []\<rparr>, ts_tasks = []\<rparr>"

section \<open>Facts\<close>

text \<open>The counter's laws.\<close>

lemma counting_increment:
  assumes "counting c n" "increment_below limit key c = (ok, c')" "0 < limit"
  shows "ok \<longleftrightarrow> n key < limit" "counting c' (if ok then n(key := n key + 1) else n)"
proof -
  have inv: "hm_inv c" and get: "\<And>k. map_of c k = (if n k = 0 then None else Some (n k))" using assms(1) by (auto simp: counting_def)
  have k: "count_of c key = n key" by (simp add: count_of_def get)
  show ok: "ok \<longleftrightarrow> n key < limit" using assms(2) by (auto simp: increment_below_def Let_def k split: if_splits)
  show "counting c' (if ok then n(key := n key + 1) else n)"
    using assms(2,3) hm.inv_ins [OF inv] hm.get_ins [OF inv]
    by (auto simp: increment_below_def Let_def k counting_def get split: if_splits)
qed

lemma counting_decrement:
  assumes "counting c n" "0 < n key"
  shows "counting (decrement_connection_count key c) (n(key := n key - 1))"
proof -
  have inv: "hm_inv c" and get: "\<And>k. map_of c k = (if n k = 0 then None else Some (n k))" using assms(1) by (auto simp: counting_def)
  show ?thesis
    using assms(2) hm.inv_ins [OF inv] hm.get_ins [OF inv] hm.inv_del [OF inv] hm.get_del [OF inv]
    by (auto simp: decrement_connection_count_def counting_def get)
qed

text \<open>One task moving on.\<close>

lemma holders_update:
  assumes "i < length ts"
  shows "holders P (ts[i := t]) + (if P (ts ! i) then 1 else 0) = holders P ts + (if P t then 1 else 0)"
  using assms
proof (induction ts arbitrary: i)
  case (Cons x ts)
  then show ?case by (cases i) (auto simp: holders_def)
qed simp

lemma tallyI:
  assumes "counting c m" "\<And>key. holders (held key) ts = m key" "\<And>key. m key \<le> limit"
  shows "tally held limit c ts"
proof -
  have "(\<lambda>key. holders (held key) ts) = m" using assms(2) by auto
  then show ?thesis using assms by (simp add: tally_def)
qed

text \<open>A counter with a limit and the tasks that hold one of its units: who enters holds one, who is refused does not, who leaves had one.\<close>

locale bounded_counter =
  fixes limit :: nat and enter :: "bytes \<Rightarrow> counts \<Rightarrow> bool \<times> counts" and leave :: "bytes \<Rightarrow> counts \<Rightarrow> counts"
    and held :: "bytes \<Rightarrow> task \<Rightarrow> bool"
  assumes enter_iff: "counting c n \<Longrightarrow> enter key c = (ok, c') \<Longrightarrow> ok \<longleftrightarrow> n key < limit"
    and enter_counts: "counting c n \<Longrightarrow> enter key c = (ok, c') \<Longrightarrow> counting c' (if ok then n(key := n key + 1) else n)"
    and leave_counts: "counting c n \<Longrightarrow> 0 < n key \<Longrightarrow> counting (leave key c) (n(key := n key - 1))"
    and held_one: "held key t \<Longrightarrow> held key' t \<Longrightarrow> key = key'"
begin

lemma unmoved:
  assumes "tally held limit c ts" "i < length ts" "\<And>key. held key t \<longleftrightarrow> held key (ts ! i)"
  shows "tally held limit c (ts[i := t])"
proof -
  have "holders (held key) (ts[i := t]) = holders (held key) ts" for key
    using holders_update [OF assms(2), of "held key" t] assms(3) by auto
  then show ?thesis using assms(1) by (simp add: tally_def)
qed

lemma refused: "tally held limit c ts \<Longrightarrow> enter key c = (False, c') \<Longrightarrow> tally held limit c' ts"
  using enter_counts [of c _ key False c'] by (auto simp: tally_def)

lemma entered:
  assumes "tally held limit c ts" "enter key c = (True, c')" "i < length ts" "\<And>k. \<not> held k (ts ! i)" "held key t"
  shows "tally held limit c' (ts[i := t])"
proof -
  let ?n = "\<lambda>k. holders (held k) ts"
  have c: "counting c ?n" "\<And>k. ?n k \<le> limit" using assms(1) by (auto simp: tally_def)
  show ?thesis
  proof (rule tallyI)
    show "counting c' (?n(key := ?n key + 1))" using enter_counts [OF c(1) assms(2)] by simp
    show "holders (held k) (ts[i := t]) = (?n(key := ?n key + 1)) k" for k
      using holders_update [OF assms(3), of "held k" t] assms(4,5) held_one [of key t k] by (cases "k = key") auto
    show "(?n(key := ?n key + 1)) k \<le> limit" for k using enter_iff [OF c(1) assms(2)] c(2) [of k] by (cases "k = key") auto
  qed
qed

lemma left:
  assumes "tally held limit c ts" "i < length ts" "held key (ts ! i)" "\<And>k. \<not> held k t"
  shows "tally held limit (leave key c) (ts[i := t])"
proof -
  let ?n = "\<lambda>k. holders (held k) ts"
  have c: "counting c ?n" "\<And>k. ?n k \<le> limit" using assms(1) by (auto simp: tally_def)
  have step: "holders (held k) (ts[i := t]) + (if k = key then 1 else 0) = ?n k" for k
    using holders_update [OF assms(2), of "held k" t] assms(3,4) held_one [of key "ts ! i" k]
    by (cases "k = key"; cases "held k (ts ! i)") auto
  show ?thesis
  proof (rule tallyI)
    have "0 < ?n key" using step [of key] by simp
    then show "counting (leave key c) (?n(key := ?n key - 1))" by (rule leave_counts [OF c(1)])
    show "holders (held k) (ts[i := t]) = (?n(key := ?n key - 1)) k" for k using step [of k] by (cases "k = key") auto
    show "(?n(key := ?n key - 1)) k \<le> limit" for k using c(2) [of k] by (cases "k = key") auto
  qed
qed

end

interpretation tok: bounded_counter MAX_CONNECTIONS_PER_TOKEN "increment_below MAX_CONNECTIONS_PER_TOKEN"
  decrement_connection_count holds_token
  by unfold_locales (use counting_increment [of _ _ MAX_CONNECTIONS_PER_TOKEN] counting_decrement in
      \<open>auto simp: MAX_CONNECTIONS_PER_TOKEN_def holds_token_def\<close>)

interpretation sbx: bounded_counter MAX_CONNECTIONS_PER_SANDBOX "increment_below MAX_CONNECTIONS_PER_SANDBOX"
  decrement_connection_count holds_sandbox
  by unfold_locales (use counting_increment [of _ _ MAX_CONNECTIONS_PER_SANDBOX] counting_decrement in
      \<open>auto simp: MAX_CONNECTIONS_PER_SANDBOX_def holds_sandbox_def\<close>)

lemma tally_append: "(\<And>key. \<not> held key t) \<Longrightarrow> tally held limit c (ts @ [t]) \<longleftrightarrow> tally held limit c ts"
  by (simp add: tally_def holders_def)

lemma tunnel_step_inv: "tunnel_step s s' \<Longrightarrow> tunnels_inv s \<Longrightarrow> tunnels_inv s'"
proof (induction rule: tunnel_step.induct)
  case (arrive s token sb)
  then show ?case by (simp add: tunnels_inv_def tally_append holds_token_def holds_sandbox_def)
next
  case (token_ok i s token sb k)
  then show ?case
    by (auto simp: tunnels_inv_def enter_token_def holds_token_def holds_sandbox_def split: prod.splits intro!: tok.entered sbx.unmoved)
next
  case (token_full i s token sb k)
  then show ?case
    by (auto simp: tunnels_inv_def enter_token_def holds_token_def holds_sandbox_def split: prod.splits
        intro!: tok.unmoved sbx.unmoved intro: tok.refused)
next
  case (sandbox_ok i s token sb k)
  then show ?case
    by (auto simp: tunnels_inv_def enter_sandbox_def holds_token_def holds_sandbox_def split: prod.splits bool.splits
        intro!: tok.unmoved sbx.entered)
next
  case (sandbox_full i s token sb k)
  then show ?case
    by (auto simp: tunnels_inv_def enter_sandbox_def holds_token_def holds_sandbox_def split: prod.splits bool.splits
        intro!: tok.left sbx.unmoved intro: sbx.refused)
next
  case (end_token i s token sb)
  then show ?case by (auto simp: tunnels_inv_def leave_token_def holds_token_def holds_sandbox_def intro!: tok.left sbx.unmoved)
next
  case (end_sandbox i s token sb)
  then show ?case by (auto simp: tunnels_inv_def leave_sandbox_def holds_token_def holds_sandbox_def intro!: tok.unmoved sbx.left)
qed

lemma tunnels_reachable: "tunnel_step\<^sup>*\<^sup>* no_tunnels s \<Longrightarrow> tunnels_inv s"
proof (induction rule: rtranclp_induct)
  case base
  then show ?case by (simp add: tunnels_inv_def tally_def counting_def no_tunnels_def holders_def hm_inv_def)
next
  case (step s s')
  then show ?case by (blast intro: tunnel_step_inv)
qed

section \<open>What requests keep of the tables\<close>

text \<open>A handler keeps \<open>P\<close> in a world whose other tasks do and whose fresh identifiers are not in \<open>T\<close>; what it returns satisfies \<open>Q\<close>.\<close>

definition others_keep :: "(db \<Rightarrow> bool) \<Rightarrow> world \<Rightarrow> bool" where
  "others_keep P w \<longleftrightarrow> (\<forall>t\<in>set (w_script w). \<forall>d. P d \<longrightarrow> P (tn_others t d))"

definition world_keeps :: "bytes set \<Rightarrow> (db \<Rightarrow> bool) \<Rightarrow> world \<Rightarrow> bool" where
  "world_keeps T P w \<longleftrightarrow> P (w_db w) \<and> others_keep P w \<and> (\<forall>n. w_uuid w n \<notin> T)"

definition keeps :: "bytes set \<Rightarrow> (db \<Rightarrow> bool) \<Rightarrow> (world \<Rightarrow> ('e, 'a) result \<times> world) \<Rightarrow> ('a \<Rightarrow> bool) \<Rightarrow> bool" where
  "keeps T P m Q \<longleftrightarrow> (\<forall>w r w'. m w = (r, w') \<longrightarrow> world_keeps T P w \<longrightarrow> world_keeps T P w' \<and> (\<forall>x. r = Inr x \<longrightarrow> Q x))"

named_theorems keep_intros \<open>rules for handlers that keep a property of the tables\<close>

lemma take_turn_keeps: "take_turn w = (f, w') \<Longrightarrow> world_keeps T P w \<Longrightarrow> world_keeps T P w'"
  by (auto simp: take_turn_def world_keeps_def others_keep_def split: list.splits)

lemma keeps_execute:
  assumes "\<And>now d. P d \<Longrightarrow> P (snd (st now d)) \<and> (\<forall>x. fst (st now d) = Inr x \<longrightarrow> Q x)"
  shows "keeps T P (execute st) Q"
  unfolding keeps_def
proof (intro allI impI)
  fix w r w' assume r: "execute st w = (r, w')" and w: "world_keeps T P w"
  obtain f w1 where w1: "take_turn w = (f, w1)" by force
  note t = take_turn_keeps [OF w1 w]
  then show "world_keeps T P w' \<and> (\<forall>x. r = Inr x \<longrightarrow> Q x)"
    using r w1 assms [of "w_db w1" "w_now w1"] by (cases f) (auto simp: execute_def world_keeps_def others_keep_def split: prod.splits)
qed

lemma keeps_bind [keep_intros]:
  assumes "keeps T P m Q" "\<And>x. Q x \<Longrightarrow> keeps T P (f x) R"
  shows "keeps T P (hbind m f) R"
  unfolding keeps_def
proof (intro allI impI)
  fix w r w' assume r: "hbind m f w = (r, w')" and w: "world_keeps T P w"
  obtain x w1 where x: "m w = (x, w1)" by force
  then have "world_keeps T P w1 \<and> (\<forall>y. x = Inr y \<longrightarrow> Q y)" using assms(1) w by (simp add: keeps_def)
  then show "world_keeps T P w' \<and> (\<forall>x. r = Inr x \<longrightarrow> R x)"
    using r x assms(2) by (cases x) (auto simp: hbind_def keeps_def)
qed

lemma keeps_simple [keep_intros]:
  "keeps T P (hreturn x) (\<lambda>_. True)" "keeps T P (hfail c msg) Q" "keeps T P (hlift r) (\<lambda>_. True)" "keeps T P new_uuid (\<lambda>x. x \<notin> T)"
  "keeps T P current_time_ms (\<lambda>_. True)"
  by (auto simp: keeps_def world_keeps_def others_keep_def hreturn_def hfail_def hlift_def new_uuid_def current_time_ms_def)

lemma keeps_call [keep_intros]:
  "keeps T P c Q \<Longrightarrow> keeps T P (or_internal what c) Q" "keeps T P c Q \<Longrightarrow> keeps T P (ignoring c) (\<lambda>_. True)"
proof -
  show "keeps T P c Q \<Longrightarrow> keeps T P (or_internal what c) Q" by (fastforce simp: keeps_def or_internal_def split: prod.splits)
  show "keeps T P c Q \<Longrightarrow> keeps T P (ignoring c) (\<lambda>_. True)" unfolding keeps_def ignoring_def by (metis prod.collapse prod.inject)
qed

lemma keeps_message:
  assumes "keeps T P c (\<lambda>row. \<forall>r x. row = Some r \<longrightarrow> dec (or_payload r) = Inr x \<longrightarrow> Q x)"
  shows "keeps T P (message_of dec c) (\<lambda>found. \<forall>x. found = Some x \<longrightarrow> Q x)"
  using assms unfolding keeps_def message_of_def
  by (fastforce simp: decoded_def split: prod.splits sum.splits option.splits)

lemma keeps_control [keep_intros]:
  "\<lbrakk>b \<Longrightarrow> keeps T P m Q; \<not> b \<Longrightarrow> keeps T P m' Q\<rbrakk> \<Longrightarrow> keeps T P (if b then m else m') Q"
  "\<lbrakk>keeps T P m Q; \<And>x. opt = Some x \<Longrightarrow> keeps T P (f x) Q\<rbrakk> \<Longrightarrow> keeps T P (case opt of None \<Rightarrow> m | Some x \<Rightarrow> f x) Q"
  "\<lbrakk>\<And>x. s = Inl x \<Longrightarrow> keeps T P (g x) Q; \<And>x. s = Inr x \<Longrightarrow> keeps T P (f' x) Q\<rbrakk> \<Longrightarrow> keeps T P (case s of Inl x \<Rightarrow> g x | Inr x \<Rightarrow> f' x) Q"
  by (auto split: option.splits sum.splits)

lemma keeps_fold [keep_intros]: "(\<And>x s. keeps T P (f x s) (\<lambda>_. True)) \<Longrightarrow> keeps T P (hfold f xs s) (\<lambda>_. True)"
  by (induction xs arbitrary: s) (auto intro: keep_intros)

section \<open>Sessions in the tables\<close>

text \<open>A session is stored under its own identifier.\<close>

definition session_rows :: "db \<Rightarrow> object_record set" where
  "session_rows d = {r \<in> set (db_objects d). or_object_type r = ''ssh_session''}"

definition sessions_keyed :: "session_codec \<Rightarrow> db \<Rightarrow> bool" where
  "sessions_keyed S d \<longleftrightarrow> (\<forall>r\<in>session_rows d. \<forall>s. sc_session_of S (or_payload r) = Inr s \<longrightarrow> se_id s = or_id r)"

text \<open>No session under this token is usable.\<close>

definition token_dead :: "session_codec \<Rightarrow> bytes \<Rightarrow> db \<Rightarrow> bool" where
  "token_dead S token d \<longleftrightarrow>
     (\<forall>r\<in>session_rows d. or_id r = token \<longrightarrow> (\<exists>s. sc_session_of S (or_payload r) = Inr s \<and> se_revoked s))"

definition session_roundtrip :: "session_codec \<Rightarrow> bool" where
  "session_roundtrip S \<longleftrightarrow> (\<forall>s. sc_session_of S (sc_session S s) = Inr s)"

lemma put_session_rows:
  assumes "r \<in> session_rows (snd (db_put ''ssh_session'' i n p now d))"
  obtains "r \<in> session_rows d" "or_id r \<noteq> i" | "or_id r = i" "or_payload r = p" | "r \<in> session_rows d" "fst (db_put ''ssh_session'' i n p now d) \<noteq> Inr ()"
  using assms by (auto simp: session_rows_def db_put_def split: if_splits)

lemma delete_session_rows: "r \<in> session_rows (snd (db_delete t i now d)) \<Longrightarrow> r \<in> session_rows d"
  by (auto simp: session_rows_def db_delete_def delete_rows_def)

lemma keeps_put_session:
  assumes "session_roundtrip S" "se_id s = token \<Longrightarrow> se_revoked s"
  shows "keeps T (\<lambda>d. sessions_keyed S d \<and> token_dead S token d) (put_session S s) (\<lambda>_. True)"
  unfolding put_session_def
proof (rule keeps_execute)
  fix now d assume d: "sessions_keyed S d \<and> token_dead S token d"
  let ?st = "db_put ''ssh_session'' (se_id s) (se_name s) (sc_session S s) now d"
  have "(\<forall>s'. sc_session_of S (or_payload r) = Inr s' \<longrightarrow> se_id s' = or_id r)
      \<and> (or_id r = token \<longrightarrow> (\<exists>s. sc_session_of S (or_payload r) = Inr s \<and> se_revoked s))" if "r \<in> session_rows (snd ?st)" for r
    using that
  proof (cases rule: put_session_rows)
    case 2
    then show ?thesis using assms by (simp add: session_roundtrip_def)
  qed (use d in \<open>auto simp: sessions_keyed_def token_dead_def\<close>)
  then have "sessions_keyed S (snd ?st) \<and> token_dead S token (snd ?st)"
    unfolding sessions_keyed_def token_dead_def by blast
  then show "(sessions_keyed S (snd ?st) \<and> token_dead S token (snd ?st)) \<and> (\<forall>x. fst ?st = Inr x \<longrightarrow> True)" by simp
qed

lemma keeps_get_session [keep_intros]:
  assumes "\<And>d. P d \<Longrightarrow> sessions_keyed S d"
  shows "keeps T P (get_session S token) (\<lambda>found. \<forall>s. found = Some s \<longrightarrow> se_id s = token)"
  unfolding get_session_def
proof (rule keeps_message, rule keeps_execute)
  fix now d assume "P d"
  then have "sessions_keyed S d" by (rule assms)
  then show "P (snd (db_get ''ssh_session'' token now d)) \<and> (\<forall>row. fst (db_get ''ssh_session'' token now d) = Inr row \<longrightarrow>
      (\<forall>r x. row = Some r \<longrightarrow> sc_session_of S (or_payload r) = Inr x \<longrightarrow> se_id x = token))"
    using \<open>P d\<close> by (auto simp: db_get_def sessions_keyed_def session_rows_def dest!: find_Some_in)
qed

lemma keeps_reap [keep_intros]:
  assumes "\<And>d d'. P d \<Longrightarrow> session_rows d' \<subseteq> session_rows d \<Longrightarrow> P d'"
  shows "keeps T P (reap_expired_sessions S) (\<lambda>_. True)"
proof -
  have del: "keeps T P (execute (db_delete t i)) (\<lambda>_. True)" for t i
    by (rule keeps_execute) (use assms delete_session_rows in blast)
  have lst: "keeps T P (execute (db_list t l off)) (\<lambda>_. True)" for t l off by (rule keeps_execute) (simp add: db_list_def)
  show ?thesis unfolding reap_expired_sessions_def reap_record_def by (rule keep_intros del lst)+
qed

lemma keeps_sandbox_message [keep_intros]: "keeps T P (get_sandbox_message C i) (\<lambda>_. True)"
proof -
  have "keeps T P (get_sandbox_message C i) (\<lambda>found. \<forall>x. found = Some x \<longrightarrow> True)"
    unfolding get_sandbox_message_def by (rule keeps_message, rule keeps_execute) (simp add: db_get_def)
  then show ?thesis by simp
qed

lemma keeps_require [keep_intros]: "keeps T P (require_name field v) (\<lambda>_. True)"
  unfolding require_name_def by (rule keep_intros)+

datatype session_op = CreateSession bytes bytes | RevokeSession bytes | ReapSessions

fun run_session_op :: "codec \<Rightarrow> session_codec \<Rightarrow> gateway_config \<Rightarrow> session_op \<Rightarrow> world \<Rightarrow> world" where
  "run_session_op C S cfg (CreateSession name sandbox_id) w = snd (create_ssh_session C S cfg name sandbox_id w)"
| "run_session_op C S cfg (RevokeSession token) w = snd (revoke_ssh_session S token w)"
| "run_session_op C S cfg ReapSessions w = snd (reap_expired_sessions S w)"

lemma keepsD: "keeps T P m Q \<Longrightarrow> world_keeps T P w \<Longrightarrow> world_keeps T P (snd (m w))"
  unfolding keeps_def by (metis prod.collapse)

lemma session_op_keeps:
  assumes "session_roundtrip S" "world_keeps {token} (\<lambda>d. sessions_keyed S d \<and> token_dead S token d) w"
  shows "world_keeps {token} (\<lambda>d. sessions_keyed S d \<and> token_dead S token d) (run_session_op C S cfg opn w)"
proof (cases opn)
  case (CreateSession name sandbox_id)
  have "keeps {token} (\<lambda>d. sessions_keyed S d \<and> token_dead S token d) (create_ssh_session C S cfg name sandbox_id) (\<lambda>_. True)"
    unfolding create_ssh_session_def by (rule keep_intros keeps_put_session assms(1) | simp; fail)+
  from keepsD [OF this assms(2)] show ?thesis by (simp add: CreateSession)
next
  case (RevokeSession tok)
  have "keeps {token} (\<lambda>d. sessions_keyed S d \<and> token_dead S token d) (revoke_ssh_session S tok) (\<lambda>_. True)"
    unfolding revoke_ssh_session_def by (rule keep_intros keeps_put_session assms(1) | simp; fail)+
  from keepsD [OF this assms(2)] show ?thesis by (simp add: RevokeSession)
next
  case ReapSessions
  have "keeps {token} (\<lambda>d. sessions_keyed S d \<and> token_dead S token d) (reap_expired_sessions S) (\<lambda>_. True)"
    by (rule keeps_reap) (auto simp: sessions_keyed_def token_dead_def)
  from keepsD [OF this assms(2)] show ?thesis by (simp add: ReapSessions)
qed

lemma session_ops_keep:
  assumes "session_roundtrip S" "world_keeps {token} (\<lambda>d. sessions_keyed S d \<and> token_dead S token d) w"
  shows "world_keeps {token} (\<lambda>d. sessions_keyed S d \<and> token_dead S token d) (fold (run_session_op C S cfg) ops w)"
  using assms(2) by (induction ops arbitrary: w) (auto intro: session_op_keeps [OF assms(1)])

text \<open>A dead token opens nothing.\<close>

lemma get_session_dead:
  assumes "get_session S token w = (Inr (Some s), w')" "world_keeps T P w" "\<And>d. P d \<Longrightarrow> token_dead S token d"
  shows "se_revoked s"
proof -
  have "keeps T P (get_session S token) (\<lambda>found. \<forall>s. found = Some s \<longrightarrow> se_revoked s)"
    unfolding get_session_def
  proof (rule keeps_message, rule keeps_execute)
    fix now d assume "P d"
    then have "P d" "token_dead S token d" by (auto intro: assms(3))
    then show "P (snd (db_get ''ssh_session'' token now d)) \<and> (\<forall>row. fst (db_get ''ssh_session'' token now d) = Inr row \<longrightarrow>
        (\<forall>r x. row = Some r \<longrightarrow> sc_session_of S (or_payload r) = Inr x \<longrightarrow> se_revoked x))"
      by (fastforce simp: db_get_def token_dead_def session_rows_def dest!: find_Some_in)
  qed
  then show ?thesis using assms(1,2) by (simp add: keeps_def)
qed

section \<open>A codec\<close>

text \<open>Fields one after the other, each behind its length; what the round trip of the hypotheses can be.\<close>

definition put_str :: "bytes \<Rightarrow> bytes" where
  "put_str s = replicate (length s) CHR ''1'' @ CHR ''0'' # s"

definition get_str :: "bytes \<Rightarrow> bytes \<times> bytes" where
  "get_str bs = (let n = length (takeWhile (\<lambda>c. c = CHR ''1'') bs); rest = drop (n + 1) bs in (take n rest, drop n rest))"

definition put_int :: "int \<Rightarrow> bytes" where
  "put_int i = (if i < 0 then CHR ''-'' else CHR ''+'') # put_str (replicate (nat \<bar>i\<bar>) CHR ''x'')"

definition get_int :: "bytes \<Rightarrow> int \<times> bytes" where
  "get_int bs = (case get_str (tl bs) of (s, rest) \<Rightarrow> (if hd bs = CHR ''-'' then - int (length s) else int (length s), rest))"

lemma get_put_str [simp]: "get_str (put_str s @ rest) = (s, rest)"
proof -
  have "takeWhile (\<lambda>c. c = CHR ''1'') (replicate n CHR ''1'' @ CHR ''0'' # xs) = replicate n CHR ''1''" for n xs by (induction n) auto
  then show ?thesis by (simp add: get_str_def put_str_def Let_def)
qed

lemma get_put_int [simp]: "get_int (put_int i @ rest) = (i, rest)"
  by (simp add: get_int_def put_int_def)

definition framed_session :: "ssh_session \<Rightarrow> bytes" where
  "framed_session s = put_str (se_id s) @ put_str (se_sandbox_id s) @ put_str (se_token s) @ put_int (se_created_at_ms s)
     @ put_int (if se_revoked s then 1 else 0) @ put_str (se_name s) @ put_int (se_expires_at_ms s) @ []"

definition unframed_session :: "bytes \<Rightarrow> (bytes, ssh_session) result" where
  "unframed_session bs =
     (let (i, r1) = get_str bs; (sb, r2) = get_str r1; (t, r3) = get_str r2; (c, r4) = get_int r3; (v, r5) = get_int r4;
          (n, r6) = get_str r5; (e, r7) = get_int r6
      in Inr \<lparr>se_id = i, se_sandbox_id = sb, se_token = t, se_created_at_ms = c, se_revoked = (v = 1), se_name = n, se_expires_at_ms = e\<rparr>)"

definition framed_codec :: session_codec where
  "framed_codec = \<lparr>sc_session = framed_session, sc_session_of = unframed_session\<rparr>"

lemma framed_codec_roundtrip: "session_roundtrip framed_codec"
  by (simp add: session_roundtrip_def framed_codec_def framed_session_def unframed_session_def Let_def del: append_Nil2)

text \<open>A ready sandbox, stored.\<close>

definition ready_sandbox :: sandbox where
  "ready_sandbox = \<lparr>sx_id = ''sb'', sx_name = ''dev'', sx_namespace = ''ns'', sx_spec = None, sx_status = None, sx_phase = SANDBOX_READY,
     sx_created_at_ms = 0, sx_current_policy_version = 0\<rparr>"

definition ready_codec :: codec where
  "ready_codec = sample_codec\<lparr>cc_sandbox_of := (\<lambda>_. Inr ready_sandbox)\<rparr>"

definition ready_world :: world where
  "ready_world = sample_world [\<lparr>or_object_type = ''sandbox'', or_id = ''sb'', or_name = ''dev'', or_payload = [], or_created_at_ms = 1, or_updated_at_ms = 1\<rparr>]"

definition session_of :: "bytes \<Rightarrow> ssh_session" where
  "session_of token = \<lparr>se_id = token, se_sandbox_id = ''sb'', se_token = token, se_created_at_ms = 0, se_revoked = False, se_name = ''n'', se_expires_at_ms = 0\<rparr>"

definition session_world :: world where
  "session_world = (let w = ready_world in w\<lparr>w_db := (w_db w)\<lparr>db_objects := db_objects (w_db w) @
     [\<lparr>or_object_type = ''ssh_session'', or_id = ''tok'', or_name = ''n'', or_payload = framed_session (session_of ''tok''), or_created_at_ms = 1, or_updated_at_ms = 1\<rparr>]\<rparr>\<rparr>)"

definition sample_config :: gateway_config where
  "sample_config = \<lparr>gc_bind_ip = V4 0, gc_bind_port = 8080, gc_tls = False, gc_ssh_gateway_host = ''gw'', gc_ssh_gateway_port = 0,
     gc_ssh_connect_path = ''/connect/ssh'', gc_sandbox_ssh_port = 2222, gc_sandbox_namespace = ''ns'', gc_ssh_handshake_secret = ''k'',
     gc_ssh_session_ttl_secs = 0\<rparr>"

definition quiet_cluster :: cluster where
  "quiet_cluster = \<lparr>cl_agent_pod = (\<lambda>_. []), cl_agent_pod_ip = (\<lambda>_. Inr None)\<rparr>"

lemma unframed_framed [simp]: "unframed_session (framed_session s) = Inr s"
  using framed_codec_roundtrip by (simp add: session_roundtrip_def framed_codec_def)

lemma session_world_get:
  "get_session framed_codec ''tok'' session_world = (Inr (Some (session_of ''tok'')), session_world)"
  by (simp add: get_session_def message_of_def run_quiet quiet_def db_get_def decoded_def session_world_def ready_world_def sample_world_def framed_codec_def)

lemma session_world_sandbox:
  "get_sandbox_message ready_codec ''sb'' session_world = (Inr (Some ready_sandbox), session_world)"
  by (simp add: get_sandbox_message_def message_of_def run_quiet quiet_def db_get_def decoded_def session_world_def ready_world_def sample_world_def ready_codec_def)

definition tok_headers :: "(bytes \<times> bytes) list" where
  "tok_headers = [(''X-Sandbox-Id'', ''sb''), (''X-Sandbox-Token'', ''tok'')]"

lemma tok_header_values:
  "header_value tok_headers ''x-sandbox-id'' = Inr ''sb''" "header_value tok_headers ''x-sandbox-token'' = Inr ''tok''"
  by code_simp+

section \<open>Properties\<close>

lemma count_of_counting: "counting c n \<Longrightarrow> count_of c key = n key"
  by (simp add: counting_def count_of_def)

lemma counting_zero: "counting c (\<lambda>_. 0) \<Longrightarrow> c = []"
  by (simp add: counting_def flip: map_of_eq_empty_iff fun_eq_iff)

text \<open>C32: however the critical sections of any number of requests interleave, each counter is the number of tasks that hold one of its
  units, at most three tasks hold a token's and at most twenty a sandbox's, so no more tunnels are ever open; and once every request is over
  the counters are empty: nothing leaks, whichever check refused it.\<close>

theorem tunnel_limits:
  assumes "tunnel_step\<^sup>*\<^sup>* no_tunnels s"
  shows "count_of (tc_token (ts_counts s)) token = holders (holds_token token) (ts_tasks s)
    \<and> count_of (tc_sandbox (ts_counts s)) sb = holders (holds_sandbox sb) (ts_tasks s)
    \<and> holders (\<lambda>(t, _, stage). t = token \<and> stage = Tunnelling) (ts_tasks s) \<le> 3
    \<and> holders (\<lambda>(_, b, stage). b = sb \<and> stage = Tunnelling) (ts_tasks s) \<le> 20
    \<and> ((\<forall>(_, _, stage)\<in>set (ts_tasks s). stage = Gone) \<longrightarrow> ts_counts s = \<lparr>tc_token = [], tc_sandbox = []\<rparr>)"
proof -
  have inv: "tunnels_inv s" by (rule tunnels_reachable [OF assms])
  then have t: "counting (tc_token (ts_counts s)) (\<lambda>t. holders (holds_token t) (ts_tasks s))" "holders (holds_token token) (ts_tasks s) \<le> 3"
    and b: "counting (tc_sandbox (ts_counts s)) (\<lambda>b. holders (holds_sandbox b) (ts_tasks s))" "holders (holds_sandbox sb) (ts_tasks s) \<le> 20"
    by (auto simp: tunnels_inv_def tally_def MAX_CONNECTIONS_PER_TOKEN_def MAX_CONNECTIONS_PER_SANDBOX_def)
  have mono: "holders P ts \<le> holders Q ts" if "\<And>x. P x \<Longrightarrow> Q x" for P Q ts
    using that by (induction ts) (auto simp: holders_def)
  have "holders (\<lambda>(t, _, stage). t = token \<and> stage = Tunnelling) (ts_tasks s) \<le> 3"
    by (rule order_trans [OF mono t(2)]) (auto simp: holds_token_def)
  moreover have "holders (\<lambda>(_, b, stage). b = sb \<and> stage = Tunnelling) (ts_tasks s) \<le> 20"
    by (rule order_trans [OF mono b(2)]) (auto simp: holds_sandbox_def)
  moreover have "ts_counts s = \<lparr>tc_token = [], tc_sandbox = []\<rparr>" if "\<forall>(_, _, stage)\<in>set (ts_tasks s). stage = Gone"
  proof -
    have "holders (holds_token t) (ts_tasks s) = 0" "holders (holds_sandbox t) (ts_tasks s) = 0" for t
      using that by (auto simp: holders_def holds_token_def holds_sandbox_def filter_empty_conv)
    then show ?thesis using counting_zero t(1) b(1) by (intro tunnel_counts.equality) simp_all
  qed
  ultimately show ?thesis using count_of_counting [OF t(1)] count_of_counting [OF b(1)] by blast
qed

definition one_tunnel :: tunnels where
  "one_tunnel = \<lparr>ts_counts = \<lparr>tc_token = [(''t'', 1)], tc_sandbox = [(''sb'', 1)]\<rparr>, ts_tasks = [(''t'', ''sb'', Tunnelling)]\<rparr>"

lemma one_tunnel_reachable: "tunnel_step\<^sup>*\<^sup>* no_tunnels one_tunnel"
proof -
  let ?k1 = "\<lparr>tc_token = [(''t'', 1)], tc_sandbox = []\<rparr>"
  have "tunnel_step no_tunnels (no_tunnels\<lparr>ts_tasks := [(''t'', ''sb'', Arrived)]\<rparr>)"
    using arrive [of no_tunnels "''t''" "''sb''"] by (simp add: no_tunnels_def)
  moreover have "tunnel_step (no_tunnels\<lparr>ts_tasks := [(''t'', ''sb'', Arrived)]\<rparr>) \<lparr>ts_counts = ?k1, ts_tasks = [(''t'', ''sb'', HoldsToken)]\<rparr>"
    using token_ok [of 0 "no_tunnels\<lparr>ts_tasks := [(''t'', ''sb'', Arrived)]\<rparr>" "''t''" "''sb''" ?k1]
    by (simp add: no_tunnels_def enter_token_def increment_below_def Let_def count_of_def hm_insert_def MAX_CONNECTIONS_PER_TOKEN_def)
  moreover have "tunnel_step \<lparr>ts_counts = ?k1, ts_tasks = [(''t'', ''sb'', HoldsToken)]\<rparr> one_tunnel"
    using sandbox_ok [of 0 "\<lparr>ts_counts = ?k1, ts_tasks = [(''t'', ''sb'', HoldsToken)]\<rparr>" "''t''" "''sb''"]
    by (simp add: one_tunnel_def enter_sandbox_def increment_below_def Let_def count_of_def hm_insert_def MAX_CONNECTIONS_PER_SANDBOX_def)
  ultimately show ?thesis by (meson rtranclp.rtrancl_into_rtrancl rtranclp.rtrancl_refl)
qed

theorem tunnel_limits_witness:
  "count_of (tc_token (ts_counts one_tunnel)) ''t'' = holders (holds_token ''t'') (ts_tasks one_tunnel) \<and> holders (holds_token ''t'') (ts_tasks one_tunnel) = 1"
  using tunnel_limits [OF one_tunnel_reachable, of "''t''" "''sb''"] by (simp add: one_tunnel_def holders_def holds_token_def)

text \<open>The rows the admission looks at.\<close>

definition session_stored :: "session_codec \<Rightarrow> db \<Rightarrow> bytes \<Rightarrow> ssh_session \<Rightarrow> bool" where
  "session_stored S d token s \<longleftrightarrow>
     (\<exists>r\<in>set (db_objects d). or_object_type r = ''ssh_session'' \<and> or_id r = token \<and> sc_session_of S (or_payload r) = Inr s)"

definition sandbox_stored :: "codec \<Rightarrow> db \<Rightarrow> bytes \<Rightarrow> sandbox \<Rightarrow> bool" where
  "sandbox_stored C d obj_id s \<longleftrightarrow>
     (\<exists>r\<in>set (db_objects d). or_object_type r = ''sandbox'' \<and> or_id r = obj_id \<and> cc_sandbox_of C (or_payload r) = Inr s)"

lemma message_found:
  assumes "message_of dec (execute (db_get t i)) w = (Inr (Some x), w')" "fair w"
  shows "fair w'" "w_now w' = w_now (snd (take_turn w))" "db_step\<^sup>*\<^sup>* (w_db w) (w_db w')"
    "\<exists>r\<in>set (db_objects (w_db w')). or_object_type r = t \<and> or_id r = i \<and> dec (or_payload r) = Inr x"
proof -
  obtain row w1 where e: "execute (db_get t i) w = (Inr (Some row), w1)" and x: "dec (or_payload row) = Inr x" "w' = w1"
    using assms(1) by (auto simp: message_of_def decoded_def split: prod.splits sum.splits option.splits)
  have w1: "db_get t i (w_now w1) (w_db w1) = (Inr (Some row), w_db w1)" "w_now w1 = w_now (snd (take_turn w))"
    using e by (auto simp: execute_def db_get_def split: prod.splits option.splits)
  show "fair w'" "w_now w' = w_now (snd (take_turn w))" using run_fair(1) [OF e assms(2)] x w1 by auto
  show "db_step\<^sup>*\<^sup>* (w_db w) (w_db w')" using run_fair(2) [OF e assms(2)] x by (auto simp: db_get_def)
  show "\<exists>r\<in>set (db_objects (w_db w')). or_object_type r = t \<and> or_id r = i \<and> dec (or_payload r) = Inr x"
    using w1 x by (auto simp: db_get_def dest!: find_Some_in)
qed

text \<open>C31: a tunnel is only opened for a token that was, when it was looked up, that of a session for the very sandbox the request names, not
  revoked and not expired, and for a sandbox that was stored as ready afterwards; whatever other requests did to the tables meanwhile.\<close>

theorem tunnel_authorised:
  assumes "fair w" "ssh_connect C S cfg K verb headers (w, k) = ((OK, t), w', k')"
  shows "\<exists>tn session sb d1. t = Some tn \<and> verb = ''CONNECT'' \<and> header_value headers ''x-sandbox-id'' = Inr (tl_sandbox_id tn)
    \<and> header_value headers ''x-sandbox-token'' = Inr (tl_token tn) \<and> db_step\<^sup>*\<^sup>* (w_db w) d1 \<and> db_step\<^sup>*\<^sup>* d1 (w_db w')
    \<and> session_stored S d1 (tl_token tn) session \<and> \<not> se_revoked session \<and> se_sandbox_id session = tl_sandbox_id tn
    \<and> (se_expires_at_ms session \<le> 0 \<or> w_now (snd (take_turn w)) \<le> se_expires_at_ms session)
    \<and> sandbox_stored C (w_db w') (tl_sandbox_id tn) sb \<and> sx_phase sb = SANDBOX_READY \<and> connect_target_of cfg K sb = Inr (tl_target tn)"
proof -
  obtain tn where a: "ssh_authorise C S cfg K verb headers w = (Inr tn, w')" "t = Some tn"
    using assms(2) by (auto simp: ssh_connect_def ssh_authorise_def header_value_def connect_target_of_def
        split: prod.splits sum.splits bool.splits if_splits option.splits list.splits)
  then obtain session w1 sb where
    g: "get_session S (tl_token tn) w = (Inr (Some session), w1)" and m: "get_sandbox_message C (tl_sandbox_id tn) w1 = (Inr (Some sb), w')"
    and rest: "verb = ''CONNECT''" "header_value headers ''x-sandbox-id'' = Inr (tl_sandbox_id tn)"
      "header_value headers ''x-sandbox-token'' = Inr (tl_token tn)" "\<not> se_revoked session" "se_sandbox_id session = tl_sandbox_id tn"
      "se_expires_at_ms session \<le> 0 \<or> w_now w1 \<le> se_expires_at_ms session" "sx_phase sb = SANDBOX_READY" "connect_target_of cfg K sb = Inr (tl_target tn)"
    by (fastforce simp: ssh_authorise_def split: if_splits sum.splits prod.splits option.splits)
  note s = message_found [OF g [unfolded get_session_def] assms(1)]
  note b = message_found [OF m [unfolded get_sandbox_message_def] s(1)]
  show ?thesis
    using a(2) rest s(3,4) b(3,4) unfolding session_stored_def sandbox_stored_def s(2) [symmetric] by blast
qed

theorem tunnel_authorised_witness:
  "\<exists>session d1. db_step\<^sup>*\<^sup>* (w_db session_world) d1 \<and> session_stored framed_codec d1 ''tok'' session \<and> \<not> se_revoked session \<and> se_sandbox_id session = ''sb''"
proof -
  have "connect_target_of sample_config quiet_cluster ready_sandbox = Inr (TargetHost ''dev.ns.svc.cluster.local'' 2222)"
    by (simp add: connect_target_of_def ready_sandbox_def sample_config_def)
  then obtain t k' where c: "ssh_connect ready_codec framed_codec sample_config quiet_cluster ''CONNECT'' tok_headers (session_world, \<lparr>tc_token = [], tc_sandbox = []\<rparr>)
      = ((OK, Some t), session_world, k')" and t: "tl_token t = ''tok''" "tl_sandbox_id t = ''sb''"
    by (simp add: ssh_connect_def ssh_authorise_def tok_header_values session_world_get session_world_sandbox session_of_def ready_sandbox_def
        enter_token_def enter_sandbox_def increment_below_def Let_def count_of_def MAX_CONNECTIONS_PER_TOKEN_def MAX_CONNECTIONS_PER_SANDBOX_def)
  have f: "fair session_world" by (simp add: fair_def session_world_def ready_world_def sample_world_def)
  from tunnel_authorised [OF f c] t show ?thesis by auto
qed

text \<open>After a revocation the token is dead.\<close>

lemma put_revoked_dead:
  assumes "session_roundtrip S" "put_session S s w = (Inr (), w')" "se_revoked s" "sessions_keyed S (w_db w)"
    and "others_keep (sessions_keyed S) w" "others_keep P w" "\<And>n. w_uuid w n \<noteq> token" "se_id s = token"
  shows "sessions_keyed S (w_db w') \<and> token_dead S token (w_db w') \<and> others_keep P w' \<and> (\<forall>n. w_uuid w' n \<noteq> token)"
proof -
  obtain w1 where w1: "take_turn w = (None, w1)" and
    st: "db_put ''ssh_session'' token (se_name s) (sc_session S s) (w_now w1) (w_db w1) = (Inr (), w_db w')" "w' = w1\<lparr>w_db := w_db w'\<rparr>"
    using assms(2,8) by (auto simp: put_session_def execute_def split: prod.splits option.splits)
  have "world_keeps {token} (sessions_keyed S) w1"
    by (rule take_turn_keeps [OF w1]) (use assms in \<open>simp add: world_keeps_def\<close>)
  then have k: "sessions_keyed S (w_db w1)" "\<And>n. w_uuid w1 n \<noteq> token" by (auto simp: world_keeps_def)
  have o: "others_keep P w1" using w1 assms(6) by (auto simp: take_turn_def others_keep_def split: list.splits)
  have "(\<forall>s'. sc_session_of S (or_payload r) = Inr s' \<longrightarrow> se_id s' = or_id r)
      \<and> (or_id r = token \<longrightarrow> (\<exists>s. sc_session_of S (or_payload r) = Inr s \<and> se_revoked s))" if "r \<in> session_rows (w_db w')" for r
  proof -
    have "r \<in> session_rows (snd (db_put ''ssh_session'' token (se_name s) (sc_session S s) (w_now w1) (w_db w1)))" using that st(1) by simp
    then show ?thesis
    proof (cases rule: put_session_rows)
      case 1
      then show ?thesis using k(1) by (auto simp: sessions_keyed_def)
    next
      case 2
      then show ?thesis using assms(1,3,8) by (simp add: session_roundtrip_def)
    next
      case 3
      then show ?thesis using st(1) by simp
    qed
  qed
  then have "sessions_keyed S (w_db w') \<and> token_dead S token (w_db w')" unfolding sessions_keyed_def token_dead_def by blast
  moreover have "others_keep P w'" "w_uuid w' = w_uuid w1" using o st(2) by (metis others_keep_def world.select_convs world.surjective world.update_convs(1))+
  ultimately show ?thesis using k(2) by simp
qed

text \<open>Revoking is final. Once \<open>revoke_ssh_session\<close> has answered that it revoked a token, no request with that token is let through, whatever
  sessions are created, revoked and reaped afterwards and whatever other tasks do that keep sessions under their identifiers and do not
  bring a dead token to life (which none of these three operations does); fresh identifiers differ from the token.\<close>

theorem revoked_token_refused:
  assumes "session_roundtrip S" "revoke_ssh_session S token w = (Inr True, w1)" "sessions_keyed S (w_db w)" "\<forall>n. w_uuid w n \<noteq> token"
    and "others_keep (sessions_keyed S) w" "others_keep (\<lambda>d. sessions_keyed S d \<and> token_dead S token d) w"
    and "header_value headers ''x-sandbox-token'' = Inr token"
  shows "fst (fst (ssh_connect C S cfg K verb headers (fold (run_session_op C S cfg) ops w1, k))) \<noteq> OK"
proof -
  let ?P = "\<lambda>d. sessions_keyed S d \<and> token_dead S token d"
  obtain s wa where g: "get_session S token w = (Inr (Some s), wa)" and p: "put_session S (s\<lparr>se_revoked := True\<rparr>) wa = (Inr (), w1)"
    using assms(2) by (auto simp: revoke_ssh_session_def require_name_def split: if_splits option.splits)
  have "world_keeps {token} (sessions_keyed S) w" using assms(3-5) by (simp add: world_keeps_def)
  with keeps_get_session [of "sessions_keyed S" S "{token}" token] g
  have wa: "world_keeps {token} (sessions_keyed S) wa" "se_id s = token" by (auto simp: keeps_def)
  have o: "others_keep ?P wa"
    using g assms(6) by (auto simp: get_session_def message_of_def execute_def db_get_def take_turn_def others_keep_def
        split: prod.splits sum.splits option.splits list.splits)
  have "world_keeps {token} ?P w1"
    using put_revoked_dead [OF assms(1) p _ _ _ o] wa by (auto simp: world_keeps_def)
  then have ops: "world_keeps {token} ?P (fold (run_session_op C S cfg) ops w1)" by (rule session_ops_keep [OF assms(1)])
  define w2 where "w2 = fold (run_session_op C S cfg) ops w1"
  have "se_revoked s'" if "get_session S token w2 = (Inr (Some s'), w3)" for s' w3
    by (rule get_session_dead [OF that ops [folded w2_def]]) simp
  then show ?thesis
    using assms(7) unfolding w2_def [symmetric]
    by (auto simp: ssh_connect_def ssh_authorise_def header_value_def connect_target_of_def split: prod.splits sum.splits option.splits if_splits bool.splits list.splits)
qed

theorem revoked_token_refused_witness:
  "\<exists>w1. revoke_ssh_session framed_codec ''tok'' session_world = (Inr True, w1) \<and>
     fst (fst (ssh_connect ready_codec framed_codec sample_config quiet_cluster ''CONNECT'' tok_headers
       (fold (run_session_op ready_codec framed_codec sample_config) [CreateSession ''m'' ''sb'', ReapSessions] w1, \<lparr>tc_token = [], tc_sandbox = []\<rparr>))) \<noteq> OK"
proof -
  have "\<exists>w1. put_session framed_codec (session_of ''tok''\<lparr>se_revoked := True\<rparr>) session_world = (Inr (), w1)"
    by (simp add: put_session_def run_quiet quiet_def db_put_def session_of_def session_world_def ready_world_def sample_world_def)
  then obtain w1 where r: "revoke_ssh_session framed_codec ''tok'' session_world = (Inr True, w1)"
    by (auto simp: revoke_ssh_session_def require_name_def session_world_get)
  have "sessions_keyed framed_codec (w_db session_world)"
    by (auto simp: sessions_keyed_def session_rows_def session_world_def ready_world_def sample_world_def framed_codec_def session_of_def)
  moreover have "others_keep P session_world" "w_uuid session_world n \<noteq> ''tok''" for P n
    by (auto simp: others_keep_def session_world_def ready_world_def sample_world_def)
  ultimately show ?thesis using revoked_token_refused [OF framed_codec_roundtrip r] tok_header_values(2) r by blast
qed

text \<open>A token opens what it was made for. In a gateway that is left alone, with a fresh identifier and session name, the token \<open>create_ssh_session\<close>
  returns for a sandbox lets a \<open>CONNECT\<close> request for that sandbox through up to the expiry it was told, as long as neither limit is reached.\<close>

theorem fresh_token_admitted:
  assumes "session_roundtrip S" "quiet w" "create_ssh_session C S cfg name sandbox_id w = (Inr r, w1)"
    and "\<forall>row\<in>set (db_objects (w_db w)). or_id row \<noteq> sr_token r"
    and "header_value headers ''x-sandbox-id'' = Inr sandbox_id" "header_value headers ''x-sandbox-token'' = Inr (sr_token r)"
    and "fst (get_sandbox_message C sandbox_id w) = Inr (Some sb)" "connect_target_of cfg K sb = Inr target"
    and "sr_expires_at_ms r \<le> 0 \<or> later \<le> sr_expires_at_ms r"
    and "count_of (tc_token k) (sr_token r) < MAX_CONNECTIONS_PER_TOKEN" "count_of (tc_sandbox k) sandbox_id < MAX_CONNECTIONS_PER_SANDBOX"
  shows "fst (ssh_connect C S cfg K ''CONNECT'' headers (w1\<lparr>w_now := later\<rparr>, k)) =
    (OK, Some \<lparr>tl_token = sr_token r, tl_sandbox_id = sandbox_id, tl_target = target\<rparr>)"
proof -
  have u: "sr_token r = w_uuid w 0" and ne: "sandbox_id \<noteq> []" and ready: "sx_phase sb = SANDBOX_READY"
    and put: "put_session S \<lparr>se_id = sr_token r, se_sandbox_id = sandbox_id, se_token = sr_token r, se_created_at_ms = w_now w, se_revoked = False,
      se_name = name, se_expires_at_ms = sr_expires_at_ms r\<rparr> (w\<lparr>w_uuid := \<lambda>n. w_uuid w (Suc n)\<rparr>) = (Inr (), w1)"
    using assms(2,3,7) by (auto simp: create_ssh_session_def require_name_def get_sandbox_message_def message_of_def run_quiet db_get_def
        split: if_splits option.splits prod.splits sum.splits)
  let ?row = "\<lparr>or_object_type = ''ssh_session'', or_id = sr_token r, or_name = name, or_payload = sc_session S \<lparr>se_id = sr_token r,
      se_sandbox_id = sandbox_id, se_token = sr_token r, se_created_at_ms = w_now w, se_revoked = False, se_name = name,
      se_expires_at_ms = sr_expires_at_ms r\<rparr>, or_created_at_ms = w_now w, or_updated_at_ms = w_now w\<rparr>"
  have w1: "w_db w1 = (w_db w)\<lparr>db_objects := db_objects (w_db w) @ [?row]\<rparr>" "quiet w1"
    using put assms(2,4) by (auto simp: put_session_def run_quiet db_put_def quiet_def split: if_splits)
  have "find (\<lambda>r'. or_object_type r' = ''ssh_session'' \<and> or_id r' = sr_token r) (db_objects (w_db w)) = None"
    using assms(4) by (auto simp: find_None_iff)
  then have g: "get_session S (sr_token r) (w1\<lparr>w_now := later\<rparr>) = (Inr (Some \<lparr>se_id = sr_token r, se_sandbox_id = sandbox_id,
      se_token = sr_token r, se_created_at_ms = w_now w, se_revoked = False, se_name = name, se_expires_at_ms = sr_expires_at_ms r\<rparr>), w1\<lparr>w_now := later\<rparr>)"
    using w1 assms(1) by (simp add: get_session_def message_of_def run_quiet quiet_def execute_def take_turn_def db_get_def find_append decoded_def session_roundtrip_def)
  have m: "get_sandbox_message C sandbox_id (w1\<lparr>w_now := later\<rparr>) = (Inr (Some sb), w1\<lparr>w_now := later\<rparr>)"
    using assms(2,7) w1 by (auto simp: get_sandbox_message_def message_of_def quiet_def execute_def take_turn_def db_get_def find_append
        split: option.splits sum.splits prod.splits)
  show ?thesis using assms(5,6,8-11) g m ready
    by (auto simp: ssh_connect_def ssh_authorise_def enter_token_def enter_sandbox_def increment_below_def Let_def)
qed

theorem fresh_token_admitted_witness:
  "\<exists>r w1. create_ssh_session ready_codec framed_codec sample_config ''name'' ''sb'' ready_world = (Inr r, w1) \<and>
     fst (ssh_connect ready_codec framed_codec sample_config quiet_cluster ''CONNECT''
       [(''X-Sandbox-Id'', ''sb''), (''X-Sandbox-Token'', sr_token r)] (w1\<lparr>w_now := 5\<rparr>, \<lparr>tc_token = [], tc_sandbox = []\<rparr>))
     = (OK, Some \<lparr>tl_token = sr_token r, tl_sandbox_id = ''sb'', tl_target = TargetHost ''dev.ns.svc.cluster.local'' 2222\<rparr>)"
proof -
  obtain w1 where c: "create_ssh_session ready_codec framed_codec sample_config ''name'' ''sb'' ready_world = (Inr
      \<lparr>sr_sandbox_id = ''sb'', sr_token = ''uuid'', sr_gateway_host = ''gw'', sr_gateway_port = 8080, sr_gateway_scheme = ''http'',
       sr_connect_path = ''/connect/ssh'', sr_host_key_fingerprint = [], sr_expires_at_ms = 0\<rparr>, w1)"
    by (simp add: create_ssh_session_def require_name_def get_sandbox_message_def message_of_def run_quiet quiet_def db_get_def db_put_def
        put_session_def hbind_def hreturn_def hlift_def or_internal_def new_uuid_def current_time_ms_def decoded_def session_expiry_def
        resolve_gateway_def ready_world_def sample_world_def ready_codec_def ready_sandbox_def sample_codec_def sample_config_def)
  have h: "header_value [(''X-Sandbox-Id'', ''sb''), (''X-Sandbox-Token'', ''uuid'')] ''x-sandbox-id'' = Inr ''sb''"
    "header_value [(''X-Sandbox-Id'', ''sb''), (''X-Sandbox-Token'', ''uuid'')] ''x-sandbox-token'' = Inr ''uuid''" by code_simp+
  have sb: "fst (get_sandbox_message ready_codec ''sb'' ready_world) = Inr (Some ready_sandbox)"
    by (simp add: get_sandbox_message_def message_of_def run_quiet quiet_def db_get_def decoded_def ready_world_def sample_world_def ready_codec_def sample_codec_def)
  have t: "connect_target_of sample_config quiet_cluster ready_sandbox = Inr (TargetHost ''dev.ns.svc.cluster.local'' 2222)"
    by (simp add: connect_target_of_def ready_sandbox_def sample_config_def)
  have "fst (ssh_connect ready_codec framed_codec sample_config quiet_cluster ''CONNECT''
       [(''X-Sandbox-Id'', ''sb''), (''X-Sandbox-Token'', ''uuid'')] (w1\<lparr>w_now := 5\<rparr>, \<lparr>tc_token = [], tc_sandbox = []\<rparr>))
     = (OK, Some \<lparr>tl_token = ''uuid'', tl_sandbox_id = ''sb'', tl_target = TargetHost ''dev.ns.svc.cluster.local'' 2222\<rparr>)"
    using fresh_token_admitted [OF framed_codec_roundtrip _ c _ _ _ sb t, of "[(''X-Sandbox-Id'', ''sb''), (''X-Sandbox-Token'', ''uuid'')]" 5
        "\<lparr>tc_token = [], tc_sandbox = []\<rparr>"] h
    by (simp add: ready_world_def sample_world_def quiet_def count_of_def MAX_CONNECTIONS_PER_TOKEN_def MAX_CONNECTIONS_PER_SANDBOX_def)
  then show ?thesis using c by auto
qed

end
