(* ===== verification/Remote_Exec.thy ===== *)
theory Remote_Exec
  imports Ssh_Tunnel
begin

text \<open>
  Running a command in a sandbox from the gateway (\<open>exec_sandbox\<close> and its helpers in \<open>grpc.rs\<close>): the target, the command line
  for the sandbox's shell, and the attempts over SSH. What the SSH library and the sandbox answer is given per attempt. The shell's
  reading of a line (words, quotes, assignments, \<open>&&\<close>) is written down as a specification; characters outside it
  give no reading at all. The command-line tool's own \<open>shell_escape\<close> (\<open>cli/src/run.rs\<close>) is here too.
\<close>

section \<open>Quoting\<close>

abbreviation sq :: char where "sq \<equiv> CHR 0x27"
abbreviation dq :: char where "dq \<equiv> CHR 0x22"

definition is_ascii_alphanumeric :: "char \<Rightarrow> bool" where
  "is_ascii_alphanumeric c \<longleftrightarrow> is_ascii_digit c \<or> (65 \<le> byte c \<and> byte c \<le> 90) \<or> (97 \<le> byte c \<and> byte c \<le> 122)"

definition replace_char :: "char \<Rightarrow> bytes \<Rightarrow> bytes \<Rightarrow> bytes" where
  "replace_char c by s = concat (map (\<lambda>x. if x = c then by else [x]) s)"

definition shell_safe :: "char \<Rightarrow> bool" where
  "shell_safe c \<longleftrightarrow> is_ascii_alphanumeric c \<or> c \<in> set ''./-_''"

definition shell_escape :: "bytes \<Rightarrow> bytes" where
  "shell_escape v =
     (if v = [] then [sq, sq]
      else if list_all shell_safe v then v
      else [sq] @ replace_char sq [sq, dq, sq, dq, sq] v @ [sq])"

definition cli_shell_escape :: "bytes \<Rightarrow> bytes" where
  "cli_shell_escape v =
     (if v = [] then [sq, sq]
      else if list_all (\<lambda>c. is_ascii_alphanumeric c \<or> c \<in> set ''-_./,:=@'') v then v
      else [sq] @ replace_char sq [sq, CHR 0x5C, sq, sq] v @ [sq])"

definition build_remote_exec_command :: "bytes list \<Rightarrow> (bytes \<times> bytes) list \<Rightarrow> bytes \<Rightarrow> bytes" where
  "build_remote_exec_command args environment workdir =
     (let command = join_str '' '' (map (\<lambda>(key, v). key @ ''='' @ shell_escape v) (by_key environment) @ map shell_escape args) in
      if workdir = [] then command else ''cd '' @ shell_escape workdir @ '' && '' @ command)"

section \<open>The shell\<close>

text \<open>Words are kept with what was quoted in them.\<close>

type_synonym sh_word = "(char \<times> bool) list"

datatype sh_token = Word sh_word | AndIf

definition plain_char :: "char \<Rightarrow> bool" where
  "plain_char c \<longleftrightarrow> is_ascii_alphanumeric c \<or> c \<in> set ''-_./,:=@''"

definition so_far :: "sh_word option \<Rightarrow> sh_word" where
  "so_far cur = (case cur of None \<Rightarrow> [] | Some w \<Rightarrow> w)"

definition word_end :: "sh_word option \<Rightarrow> sh_token list" where
  "word_end cur = (case cur of None \<Rightarrow> [] | Some w \<Rightarrow> [Word w])"

definition until :: "char \<Rightarrow> bytes \<Rightarrow> (bytes \<times> bytes) option" where
  "until c s = (if c \<in> set s then Some (takeWhile (\<lambda>x. x \<noteq> c) s, drop (length (takeWhile (\<lambda>x. x \<noteq> c) s) + 1) s) else None)"

definition quoted_chars :: "bytes \<Rightarrow> sh_word" where
  "quoted_chars s = map (\<lambda>c. (c, True)) s"

lemma until_length: "until c s = Some (a, b) \<Longrightarrow> length b < length s"
  by (auto simp: until_def split: if_splits) (metis length_greater_0_conv length_pos_if_in_set diff_less zero_less_Suc)

function sh_tokens :: "sh_word option \<Rightarrow> bytes \<Rightarrow> sh_token list option" where
  "sh_tokens cur [] = Some (word_end cur)"
| "sh_tokens cur (c # s) =
     (if c = CHR '' '' then map_option (\<lambda>ts. word_end cur @ ts) (sh_tokens None s)
      else if c = sq then
        (case until sq s of None \<Rightarrow> None | Some (lit, rest) \<Rightarrow> sh_tokens (Some (so_far cur @ quoted_chars lit)) rest)
      else if c = dq then
        (case until dq s of
           None \<Rightarrow> None
         | Some (lit, rest) \<Rightarrow>
             if set lit \<inter> {CHR ''$'', CHR 0x60, CHR 0x5C} \<noteq> {} then None else sh_tokens (Some (so_far cur @ quoted_chars lit)) rest)
      else if c = CHR 0x5C then
        (case s of [] \<Rightarrow> None | d # rest \<Rightarrow> if d = CHR 0x0A then None else sh_tokens (Some (so_far cur @ [(d, True)])) rest)
      else if c = CHR ''&'' then
        (case s of [] \<Rightarrow> None | d # rest \<Rightarrow>
           if d = CHR ''&'' then map_option (\<lambda>ts. word_end cur @ AndIf # ts) (sh_tokens None rest) else None)
      else if plain_char c then sh_tokens (Some (so_far cur @ [(c, False)])) s
      else None)"
  by pat_completeness auto
termination sh_tokens
  by (relation "measure (length \<circ> snd)") (auto dest!: until_length)

declare sh_tokens.simps(2) [simp del]

text \<open>Assignments come before the command's words; only unquoted letters make one, and only an unquoted first word is a keyword.\<close>

definition assignment_of :: "sh_word \<Rightarrow> (bytes \<times> bytes) option" where
  "assignment_of w =
     (case dropWhile (\<lambda>(c, q). \<not> q \<and> c \<noteq> CHR ''='') w of
        (c, q) # v \<Rightarrow>
          (let name = map fst (takeWhile (\<lambda>(c, q). \<not> q \<and> c \<noteq> CHR ''='') w) in
           if \<not> q \<and> is_valid_env_key name then Some (name, map fst v) else None)
      | [] \<Rightarrow> None)"

definition sh_reserved :: "bytes list" where
  "sh_reserved = [''if'', ''then'', ''else'', ''elif'', ''fi'', ''do'', ''done'', ''case'', ''esac'', ''while'', ''until'', ''for'', ''in'',
     ''function'', ''select'', ''time'', ''coproc'']"

fun sh_assignments :: "sh_word list \<Rightarrow> (bytes \<times> bytes) list \<times> sh_word list" where
  "sh_assignments [] = ([], [])"
| "sh_assignments (w # ws) =
     (case assignment_of w of
        Some kv \<Rightarrow> (case sh_assignments ws of (kvs, rest) \<Rightarrow> (kv # kvs, rest))
      | None \<Rightarrow> ([], w # ws))"

definition sh_simple :: "sh_word list \<Rightarrow> ((bytes \<times> bytes) list \<times> bytes list) option" where
  "sh_simple ws =
     (case sh_assignments ws of
        (kvs, rest) \<Rightarrow>
          if kvs = [] \<and> (case rest of [] \<Rightarrow> True | w # _ \<Rightarrow> (\<forall>(_, q)\<in>set w. \<not> q) \<and> map fst w \<in> set sh_reserved) then None
          else Some (kvs, map (map fst) rest))"

fun and_list :: "sh_word list \<Rightarrow> sh_token list \<Rightarrow> sh_word list list" where
  "and_list ws [] = [ws]"
| "and_list ws (Word w # ts) = and_list (ws @ [w]) ts"
| "and_list ws (AndIf # ts) = ws # and_list [] ts"

text \<open>A line as the commands that run one after the other as long as they succeed: the variables set for each and its arguments.\<close>

definition sh_script :: "bytes \<Rightarrow> ((bytes \<times> bytes) list \<times> bytes list) list option" where
  "sh_script line = (case sh_tokens None line of None \<Rightarrow> None | Some ts \<Rightarrow> those (map sh_simple (and_list [] ts)))"

section \<open>Quoted text is read back\<close>

definition lexed :: "(char \<Rightarrow> bool) \<Rightarrow> bytes \<Rightarrow> sh_word" where
  "lexed safe v = map (\<lambda>c. (c, \<not> (v \<noteq> [] \<and> list_all safe v))) v"

lemma map_fst_lexed [simp]: "map fst (lexed safe v) = v"
  by (simp add: lexed_def comp_def)

lemma so_far_Some [simp]: "so_far (Some w) = w"
  by (simp add: so_far_def)

lemma plain_char_step: "plain_char c \<Longrightarrow> sh_tokens cur (c # s) = sh_tokens (Some (so_far cur @ [(c, False)])) s"
  by (auto simp: sh_tokens.simps(2) plain_char_def is_ascii_alphanumeric_def is_ascii_digit_def)

lemma plain_chars: "list_all plain_char v \<Longrightarrow> v \<noteq> [] \<Longrightarrow> sh_tokens cur (v @ s) = sh_tokens (Some (so_far cur @ map (\<lambda>c. (c, False)) v)) s"
proof (induction v arbitrary: cur)
  case (Cons c v)
  then show ?case by (cases "v = []") (auto simp: plain_char_step)
qed simp

lemma until_here: "c \<notin> set lit \<Longrightarrow> until c (lit @ c # rest) = Some (lit, rest)"
proof -
  assume "c \<notin> set lit"
  then have "takeWhile (\<lambda>x. x \<noteq> c) (lit @ c # rest) = lit" by (induction lit) auto
  then show ?thesis by (simp add: until_def)
qed

lemma quoted_step: "sq \<notin> set lit \<Longrightarrow> sh_tokens cur (sq # lit @ sq # s) = sh_tokens (Some (so_far cur @ quoted_chars lit)) s"
  by (simp add: sh_tokens.simps(2) until_here)

text \<open>What stands for a quote inside a quoted text: the text is left, a quote is read, the text is entered again.\<close>

locale quote_replacement =
  fixes mid :: bytes and safe :: "char \<Rightarrow> bool"
  assumes reads_quote: "sh_tokens (Some w) (mid @ s) = sh_tokens (Some (w @ [(sq, True)])) s"
    and safe_plain: "safe c \<Longrightarrow> plain_char c"
begin

lemma quoted_text:
  "sq \<notin> set lit \<Longrightarrow>
     sh_tokens cur (sq # lit @ replace_char sq (sq # mid @ [sq]) v @ sq # s) = sh_tokens (Some (so_far cur @ quoted_chars (lit @ v))) s"
proof (induction v arbitrary: cur lit)
  case Nil
  then show ?case by (simp add: replace_char_def quoted_step)
next
  case (Cons c v)
  show ?case
  proof (cases "c = sq")
    case True
    have "sh_tokens cur (sq # lit @ replace_char sq (sq # mid @ [sq]) (c # v) @ sq # s)
        = sh_tokens cur (sq # lit @ sq # mid @ sq # replace_char sq (sq # mid @ [sq]) v @ sq # s)"
      using True by (simp add: replace_char_def)
    also have "\<dots> = sh_tokens (Some (so_far cur @ quoted_chars lit @ [(sq, True)])) (sq # replace_char sq (sq # mid @ [sq]) v @ sq # s)"
      using Cons.prems by (simp add: quoted_step reads_quote)
    also have "\<dots> = sh_tokens (Some (so_far cur @ quoted_chars (lit @ c # v))) s"
      using Cons.IH [of "[]" "Some (so_far cur @ quoted_chars lit @ [(sq, True)])"] True by (simp add: quoted_chars_def)
    finally show ?thesis .
  next
    case False
    then show ?thesis using Cons.IH [of "lit @ [c]" cur] Cons.prems by (simp add: replace_char_def)
  qed
qed

lemma escaped:
  "sh_tokens cur ((if v = [] then [sq, sq] else if list_all safe v then v else [sq] @ replace_char sq (sq # mid @ [sq]) v @ [sq]) @ s)
     = sh_tokens (Some (so_far cur @ lexed safe v)) s"
proof -
  consider "v = []" | "v \<noteq> []" "list_all safe v" | "v \<noteq> []" "\<not> list_all safe v" by blast
  then show ?thesis
  proof cases
    case 1
    then show ?thesis using quoted_step [of "[]" cur s] by (simp add: lexed_def quoted_chars_def)
  next
    case 2
    then have "list_all plain_char v" using safe_plain by (simp add: list_all_iff)
    with 2 show ?thesis by (simp add: plain_chars lexed_def)
  next
    case 3
    then show ?thesis using quoted_text [of "[]" cur v s] by (simp add: lexed_def quoted_chars_def)
  qed
qed

end

interpretation server_quote: quote_replacement "[dq, sq, dq]" shell_safe
  by unfold_locales (auto simp: sh_tokens.simps(2) until_def quoted_chars_def shell_safe_def plain_char_def)

interpretation cli_quote: quote_replacement "[CHR 0x5C, sq]" "\<lambda>c. is_ascii_alphanumeric c \<or> c \<in> set ''-_./,:=@''"
  by unfold_locales (auto simp: sh_tokens.simps(2) plain_char_def)

lemma shell_escape_lexed: "sh_tokens cur (shell_escape v @ s) = sh_tokens (Some (so_far cur @ lexed shell_safe v)) s"
  using server_quote.escaped [of cur v s] unfolding shell_escape_def by (simp only: append_Cons append_Nil)

lemma cli_shell_escape_lexed:
  "sh_tokens cur (cli_shell_escape v @ s) = sh_tokens (Some (so_far cur @ lexed (\<lambda>c. is_ascii_alphanumeric c \<or> c \<in> set ''-_./,:=@'') v)) s"
  using cli_quote.escaped [of cur v s] unfolding cli_shell_escape_def by (simp only: append_Cons append_Nil)

section \<open>The command line\<close>

lemma space_step: "sh_tokens cur (CHR '' '' # s) = map_option (\<lambda>ts. word_end cur @ ts) (sh_tokens None s)"
  by (simp add: sh_tokens.simps(2))

text \<open>Parts that are each read as one word.\<close>

definition reads :: "bytes \<Rightarrow> sh_word \<Rightarrow> bool" where
  "reads t w \<longleftrightarrow> (\<forall>cur s. sh_tokens cur (t @ s) = sh_tokens (Some (so_far cur @ w)) s)"

lemma reads_escape: "reads (shell_escape v) (lexed shell_safe v)"
  by (simp add: reads_def shell_escape_lexed)

lemma reads_plain: "list_all plain_char v \<Longrightarrow> v \<noteq> [] \<Longrightarrow> reads v (map (\<lambda>c. (c, False)) v)"
  by (simp add: reads_def plain_chars)

lemma reads_append: "reads t w \<Longrightarrow> reads u v \<Longrightarrow> reads (t @ u) (w @ v)"
  by (simp add: reads_def)

lemma joined_words: "list_all2 reads ts ws \<Longrightarrow> sh_tokens None (join_str '' '' ts) = Some (map Word ws)"
proof (induction rule: list_all2_induct)
  case (Cons t ts w ws)
  have t: "sh_tokens None (t @ s) = sh_tokens (Some w) s" for s using Cons.hyps(1) by (simp add: reads_def so_far_def)
  show ?case
  proof (cases ts)
    case Nil
    then show ?thesis using t [of "[]"] Cons.hyps(2) by (simp add: word_end_def)
  next
    case (Cons u us)
    then show ?thesis using t Cons.IH by (simp add: space_step word_end_def)
  qed
qed (simp add: word_end_def)

definition assignment_word :: "bytes \<times> bytes \<Rightarrow> sh_word" where
  "assignment_word = (\<lambda>(key, v). map (\<lambda>c. (c, False)) (key @ ''='') @ lexed shell_safe v)"

lemma env_key_plain: "is_valid_env_key key \<Longrightarrow> list_all plain_char (key @ ''='') \<and> CHR ''='' \<notin> set key"
proof -
  assume "is_valid_env_key key"
  then have "\<forall>c\<in>set key. is_env_start c \<or> is_ascii_digit c" by (auto simp: is_valid_env_key_def list_all_iff split: list.splits)
  moreover have "plain_char c \<and> c \<noteq> CHR ''=''" if "is_env_start c \<or> is_ascii_digit c" for c
    using that by (auto simp: is_env_start_def plain_char_def is_ascii_alphanumeric_def is_ascii_digit_def)
  moreover have "plain_char (CHR ''='')" by code_simp
  ultimately show ?thesis by (auto simp: list_all_iff)
qed

lemma command_words:
  assumes "\<forall>(key, _)\<in>set env. is_valid_env_key key"
  shows "sh_tokens None (join_str '' '' (map (\<lambda>(key, v). key @ ''='' @ shell_escape v) env @ map shell_escape args))
    = Some (map Word (map assignment_word env @ map (lexed shell_safe) args))"
proof (rule joined_words)
  have "reads (key @ ''='' @ shell_escape v) (assignment_word (key, v))" if "(key, v) \<in> set env" for key v
    using reads_append [OF reads_plain [of "key @ ''=''"] reads_escape [of v]] env_key_plain [of key] assms that
    by (auto simp: assignment_word_def)
  then show "list_all2 reads (map (\<lambda>(key, v). key @ ''='' @ shell_escape v) env @ map shell_escape args)
      (map assignment_word env @ map (lexed shell_safe) args)"
    by (intro list_all2_appendI) (auto simp: list_all2_map1 list_all2_map2 list_all2_same reads_escape)
qed

lemma assignment_of_word: "is_valid_env_key key \<Longrightarrow> assignment_of (assignment_word (key, v)) = Some (key, v)"
proof -
  assume k: "is_valid_env_key key"
  let ?plain = "\<lambda>(c, q). \<not> q \<and> c \<noteq> CHR ''=''"
  have "\<forall>x\<in>set key. x \<noteq> CHR ''=''" using env_key_plain [OF k] by auto
  then have "takeWhile ?plain (map (\<lambda>c. (c, False)) key @ (CHR ''='', False) # lexed shell_safe v) = map (\<lambda>c. (c, False)) key"
    "dropWhile ?plain (map (\<lambda>c. (c, False)) key @ (CHR ''='', False) # lexed shell_safe v) = (CHR ''='', False) # lexed shell_safe v"
    by (induction key) auto
  then show ?thesis using k by (simp add: assignment_of_def assignment_word_def Let_def comp_def)
qed

lemma assignment_sign:
  assumes "assignment_of w = Some kv"
  shows "(CHR ''='', False) \<in> set w"
proof -
  obtain c q v where d: "dropWhile (\<lambda>(c, q). \<not> q \<and> c \<noteq> CHR ''='') w = (c, q) # v" and q: "\<not> q"
    using assms by (auto simp: assignment_of_def Let_def split: list.splits if_splits)
  have "(c, q) \<in> set w" using set_dropWhileD [of "(c, q)" "\<lambda>(c, q). \<not> q \<and> c \<noteq> CHR ''=''" w] d by (metis list.set_intros(1) set_dropWhileD)
  moreover have "c = CHR ''=''" using hd_dropWhile [of "\<lambda>(c, q). \<not> q \<and> c \<noteq> CHR ''=''" w] d q by auto
  ultimately show ?thesis using q by simp
qed

lemma assignment_of_escaped: "assignment_of (lexed shell_safe v) = None"
proof (rule ccontr)
  assume "assignment_of (lexed shell_safe v) \<noteq> None"
  then have "(CHR ''='', False) \<in> set (lexed shell_safe v)" using assignment_sign by blast
  then have "shell_safe (CHR ''='')" by (auto simp: lexed_def list_all_iff)
  then show False by (simp add: shell_safe_def is_ascii_alphanumeric_def is_ascii_digit_def)
qed

lemma and_list_words: "and_list ws (map Word vs @ ts) = and_list (ws @ vs) ts"
  by (induction vs arbitrary: ws) auto

lemma simple_command:
  assumes "\<forall>(key, _)\<in>set env. is_valid_env_key key" "env \<noteq> [] \<or> args \<noteq> [] \<and> hd args \<notin> set sh_reserved"
  shows "sh_simple (map assignment_word env @ map (lexed shell_safe) args) = Some (env, args)"
proof -
  have "sh_assignments (map (lexed shell_safe) args) = ([], map (lexed shell_safe) args)"
    by (cases args) (simp_all add: assignment_of_escaped)
  then have "sh_assignments (map assignment_word env @ map (lexed shell_safe) args) = (env, map (lexed shell_safe) args)"
    using assms(1) by (induction env) (auto simp: assignment_of_word)
  then show ?thesis using assms(2) by (cases args) (auto simp: sh_simple_def comp_def)
qed

lemma and_step: "sh_tokens cur (CHR ''&'' # CHR ''&'' # s) = map_option (\<lambda>ts. word_end cur @ AndIf # ts) (sh_tokens None s)"
  by (simp add: sh_tokens.simps(2))

lemma by_key_empty: "by_key env = [] \<longleftrightarrow> env = []"
  unfolding by_key_def by (metis length_0_conv length_sort)

lemma lexed_cd: "lexed shell_safe ''cd'' = [(CHR ''c'', False), (CHR ''d'', False)]"
  by code_simp

text \<open>C34: the command line the gateway builds is read by the shell as what was asked for, whatever bytes the arguments, values and the
  directory hold: first \<open>cd\<close> to the directory if there is one, then one command with exactly the given arguments under exactly the given variables (their names
  have been checked). The first argument must not be a keyword of the shell, unless variables stand before it: \<open>shell_escape\<close> does not quote letters.\<close>

theorem exec_command_faithful:
  assumes "\<forall>(key, _)\<in>set env. is_valid_env_key key" "env \<noteq> [] \<or> args \<noteq> [] \<and> hd args \<notin> set sh_reserved"
  shows "sh_script (build_remote_exec_command args env workdir) =
    Some ((if workdir = [] then [] else [([], [''cd'', workdir])]) @ [(by_key env, args)])"
proof -
  have env: "\<forall>(key, _)\<in>set (by_key env). is_valid_env_key key" "by_key env \<noteq> [] \<or> args \<noteq> [] \<and> hd args \<notin> set sh_reserved"
    using assms by_key_empty [of env] by (simp_all add: by_key_def)
  define line where "line = join_str '' '' (map (\<lambda>(key, v). key @ ''='' @ shell_escape v) (by_key env) @ map shell_escape args)"
  define ws where "ws = map assignment_word (by_key env) @ map (lexed shell_safe) args"
  have words: "sh_tokens None line = Some (map Word ws)" and simple: "sh_simple ws = Some (by_key env, args)"
    unfolding line_def ws_def by (rule command_words [OF env(1)], rule simple_command [OF env])
  have build: "build_remote_exec_command args env workdir = (if workdir = [] then line else ''cd '' @ shell_escape workdir @ '' && '' @ line)"
    by (simp only: build_remote_exec_command_def Let_def line_def)
  show ?thesis
  proof (cases "workdir = []")
    case True
    then have "build_remote_exec_command args env workdir = line" using build by simp
    then show ?thesis using True simple and_list_words [of "[]" ws "[]"] by (simp add: sh_script_def words)
  next
    case False
    let ?cd = "[map (\<lambda>c. (c, False)) ''cd'', lexed shell_safe workdir]"
    have "list_all plain_char ''cd''" by code_simp
    then have "sh_tokens None (''cd '' @ shell_escape workdir @ '' && '' @ s) = map_option (\<lambda>ts. map Word ?cd @ AndIf # ts) (sh_tokens None s)" for s
      using reads_plain [of "''cd''"] reads_escape [of workdir]
      by (simp add: reads_def space_step word_end_def and_step option.map_comp comp_def so_far_def)
    moreover have "sh_simple ?cd = Some ([], [''cd'', workdir])"
      using simple_command [of "[]" "[''cd'', workdir]"] by (simp add: lexed_cd sh_reserved_def)
    moreover have "and_list [] (map Word ?cd @ AndIf # map Word ws) = [?cd, ws]"
      using and_list_words [of "[]" ?cd "AndIf # map Word ws"] and_list_words [of "[]" ws "[]"] by simp
    ultimately have "sh_script (''cd '' @ shell_escape workdir @ '' && '' @ line) = those [Some ([], [''cd'', workdir]), Some (by_key env, args)]"
      using simple words by (simp only: sh_script_def option.map option.case list.map)
    then show ?thesis using False by (simp add: build)
  qed
qed

theorem exec_command_faithful_witness:
  "sh_script (build_remote_exec_command [''echo'', [CHR ''i'', CHR ''t'', sq, CHR ''s''], ''$HOME; rm -rf /''] [(''B'', ''x y''), (''A'', [])] ''/tmp/a b'')
     = Some [([], [''cd'', ''/tmp/a b'']), ([(''A'', []), (''B'', ''x y'')], [''echo'', [CHR ''i'', CHR ''t'', sq, CHR ''s''], ''$HOME; rm -rf /''])]"
proof -
  have "is_valid_env_key ''A''" "is_valid_env_key ''B''" "by_key [(''B'', ''x y''), (''A'', [])] = [(''A'', []), (''B'', ''x y'')]" by code_simp+
  then show ?thesis
    using exec_command_faithful [of "[(''B'', ''x y''), (''A'', [])]" "[''echo'', [CHR ''i'', CHR ''t'', sq, CHR ''s''], ''$HOME; rm -rf /'']" "''/tmp/a b''"]
    by simp
qed

section \<open>Running it\<close>

text \<open>Where the SSH server of a sandbox is.\<close>

definition resolve_sandbox_exec_target :: "gateway_config \<Rightarrow> cluster \<Rightarrow> sandbox \<Rightarrow> (status, bytes \<times> nat) result" where
  "resolve_sandbox_exec_target cfg K sb =
     (case map_option (cl_agent_pod K) (sx_status sb) of
        Some (c # pod) \<Rightarrow>
          (case cl_agent_pod_ip K (c # pod) of
             Inr (Some ip) \<Rightarrow> Inr (show_ip ip, gc_sandbox_ssh_port cfg)
           | Inr None \<Rightarrow> Inl (FailedPrecondition, ''sandbox agent pod IP is not available'')
           | Inl err \<Rightarrow> Inl (InternalStatus, ''failed to resolve agent pod IP: '' @ err))
      | _ \<Rightarrow>
          (if sx_name sb = [] then Inl (FailedPrecondition, ''sandbox has no name'')
           else Inr (sx_name sb @ ''.'' @ gc_sandbox_namespace cfg @ ''.svc.cluster.local'', gc_sandbox_ssh_port cfg)))"

record exec_request =
  ex_sandbox_id :: bytes
  ex_command :: "bytes list"
  ex_workdir :: bytes
  ex_environment :: "(bytes \<times> bytes) list"
  ex_timeout_seconds :: nat
  ex_stdin :: bytes

record exec_job =
  jb_sandbox_id :: bytes
  jb_host :: bytes
  jb_port :: nat
  jb_command :: bytes
  jb_stdin :: bytes
  jb_timeout_seconds :: nat

text \<open>The handler, up to the task it spawns.\<close>

definition exec_sandbox :: "codec \<Rightarrow> gateway_config \<Rightarrow> cluster \<Rightarrow> exec_request \<Rightarrow> exec_job handler" where
  "exec_sandbox C cfg K req =
     hbind (require_name ''sandbox_id'' (ex_sandbox_id req)) (\<lambda>_.
     if ex_command req = [] then hfail InvalidArgument ''command is required''
     else if \<exists>(key, _)\<in>set (ex_environment req). \<not> is_valid_env_key key then
       hfail InvalidArgument ''environment keys must match ^[A-Za-z_][A-Za-z0-9_]*$''
     else
       hbind (or_internal ''fetch sandbox failed'' (get_sandbox_message C (ex_sandbox_id req))) (\<lambda>found.
       hbind (hlift (ok_or (NotFound, ''sandbox not found'') found)) (\<lambda>sandbox.
       if sx_phase sandbox \<noteq> SANDBOX_READY then hfail FailedPrecondition ''sandbox is not ready''
       else
         hbind (hlift (resolve_sandbox_exec_target cfg K sandbox)) (\<lambda>(host, port).
         hreturn \<lparr>jb_sandbox_id = sx_id sandbox, jb_host = host, jb_port = port,
           jb_command = build_remote_exec_command (ex_command req) (ex_environment req) (ex_workdir req),
           jb_stdin = ex_stdin req, jb_timeout_seconds = ex_timeout_seconds req\<rparr>))))"

section \<open>Attempts\<close>

definition SSH_CONNECT_MAX_ATTEMPTS :: nat where "SSH_CONNECT_MAX_ATTEMPTS = 6"

text \<open>Milliseconds before the attempt of that number.\<close>

definition ssh_backoff :: "nat \<Rightarrow> nat" where
  "ssh_backoff n = (if n = 0 then 0 else min (250 * 2 ^ (n - 1)) 2000)"

definition is_retryable_ssh_error :: "status \<Rightarrow> bool" where
  "is_retryable_ssh_error st \<longleftrightarrow> fst st = InternalStatus \<and>
     (contains_sub (snd st) ''Connection reset by peer'' \<or> contains_sub (snd st) ''Connection refused''
      \<or> contains_sub (snd st) ''failed to establish ssh transport'' \<or> contains_sub (snd st) ''failed to connect to ssh proxy''
      \<or> contains_sub (snd st) ''failed to start ssh proxy'')"

datatype chan_msg = Data bytes | ExtendedData bytes | ExitStatus nat | Close | OtherMsg

datatype exec_event = Stdout bytes | Stderr bytes | Exit int

text \<open>What an attempt meets: errors of the local proxy and of each step, what the sandbox says to the login, the messages of the
  channel, and after how many of them the timer goes off (before the first if a step hangs).\<close>

record ssh_attempt =
  at_proxy :: "bytes option"
  at_connect :: "bytes option"
  at_transport :: "bytes option"
  at_auth :: "(bytes, bool) result"
  at_open :: "bytes option"
  at_exec :: "bytes option"
  at_stdin :: "bytes option"
  at_eof :: "bytes option"
  at_messages :: "chan_msg list"
  at_timer :: "nat option"

fun channel_events :: "chan_msg list \<Rightarrow> exec_event list" where
  "channel_events [] = []"
| "channel_events (Data d # ms) = Stdout d # channel_events ms"
| "channel_events (ExtendedData d # ms) = Stderr d # channel_events ms"
| "channel_events (ExitStatus _ # ms) = channel_events ms"
| "channel_events (Close # ms) = []"
| "channel_events (OtherMsg # ms) = channel_events ms"

fun channel_exit :: "int option \<Rightarrow> chan_msg list \<Rightarrow> int option" where
  "channel_exit code [] = code"
| "channel_exit code (ExitStatus n # ms) = channel_exit (Some (if n < 2 ^ 31 then int n else 2 ^ 31 - 1)) ms"
| "channel_exit code (Close # ms) = code"
| "channel_exit code (_ # ms) = channel_exit code ms"

definition failing :: "bytes \<Rightarrow> bytes option \<Rightarrow> status option" where
  "failing what r = map_option (\<lambda>e. (InternalStatus, what @ '': '' @ e)) r"

text \<open>Whether the command was handed over, the events sent, and the result.\<close>

definition run_exec_with_russh :: "ssh_attempt \<Rightarrow> bytes \<Rightarrow> bool \<times> exec_event list \<times> (status, int) result" where
  "run_exec_with_russh a stdin_payload =
     (case failing ''failed to connect to ssh proxy'' (at_connect a) of
        Some st \<Rightarrow> (False, [], Inl st)
      | None \<Rightarrow>
     (case failing ''failed to establish ssh transport'' (at_transport a) of
        Some st \<Rightarrow> (False, [], Inl st)
      | None \<Rightarrow>
     (case at_auth a of
        Inl e \<Rightarrow> (False, [], Inl (InternalStatus, ''failed to authenticate ssh session: '' @ e))
      | Inr ok \<Rightarrow>
     (if \<not> ok then (False, [], Inl (PermissionDenied, ''ssh authentication rejected by sandbox''))
      else
     (case failing ''failed to open ssh channel'' (at_open a) of
        Some st \<Rightarrow> (False, [], Inl st)
      | None \<Rightarrow>
     (case failing ''failed to execute command over ssh'' (at_exec a) of
        Some st \<Rightarrow> (False, [], Inl st)
      | None \<Rightarrow>
     (case (if stdin_payload = [] then None else failing ''failed to send ssh stdin payload'' (at_stdin a)) of
        Some st \<Rightarrow> (True, [], Inl st)
      | None \<Rightarrow>
     (case failing ''failed to close ssh stdin'' (at_eof a) of
        Some st \<Rightarrow> (True, [], Inl st)
      | None \<Rightarrow>
          (True, channel_events (at_messages a),
           Inr (case channel_exit None (at_messages a) of None \<Rightarrow> 1 | Some code \<Rightarrow> code))))))))))"

text \<open>The attempts from number \<open>n\<close> on, with the error of the last; \<open>runs\<close> counts the commands handed over, \<open>slept\<close> the milliseconds waited.\<close>

record exec_trace =
  xt_events :: "exec_event list"
  xt_result :: "(status, unit) result"
  xt_runs :: nat
  xt_slept :: nat

definition no_runs :: "nat \<Rightarrow> exec_event list \<Rightarrow> (status, unit) result \<Rightarrow> exec_trace" where
  "no_runs runs es r = \<lparr>xt_events = es, xt_result = r, xt_runs = runs, xt_slept = 0\<rparr>"

definition before :: "nat \<Rightarrow> nat \<Rightarrow> exec_event list \<Rightarrow> exec_trace \<Rightarrow> exec_trace" where
  "before slept runs es t = t\<lparr>xt_events := es @ xt_events t, xt_runs := runs + xt_runs t, xt_slept := slept + xt_slept t\<rparr>"

function exec_attempts :: "(nat \<Rightarrow> ssh_attempt) \<Rightarrow> bytes \<Rightarrow> nat \<Rightarrow> nat \<Rightarrow> status option \<Rightarrow> exec_trace" where
  "exec_attempts script stdin_payload timeout_seconds n last_err =
     (if SSH_CONNECT_MAX_ATTEMPTS \<le> n then
        no_runs 0 [] (Inl (case last_err of None \<Rightarrow> (InternalStatus, ''ssh connection failed after exhausting retries'') | Some st \<Rightarrow> st))
      else
        before (ssh_backoff n) 0 []
          (case failing ''failed to start ssh proxy'' (at_proxy (script n)) of
             Some st \<Rightarrow> exec_attempts script stdin_payload timeout_seconds (n + 1) (Some st)
           | None \<Rightarrow>
               (case run_exec_with_russh (script n) stdin_payload of
                  (handed, es, r) \<Rightarrow>
                    (case (if timeout_seconds = 0 then None else at_timer (script n)) of
                       Some k \<Rightarrow>
                         no_runs (if handed then 1 else 0) ((if isl r then [] else channel_events (take k (at_messages (script n)))) @ [Exit 124]) (Inr ())
                     | None \<Rightarrow>
                         (case r of
                            Inr exit_code \<Rightarrow> no_runs 1 (es @ [Exit exit_code]) (Inr ())
                          | Inl st \<Rightarrow>
                              before 0 (if handed then 1 else 0) es
                                (if is_retryable_ssh_error st \<and> n + 1 < SSH_CONNECT_MAX_ATTEMPTS
                                 then exec_attempts script stdin_payload timeout_seconds (n + 1) (Some st)
                                 else no_runs 0 [] (Inl st)))))))"
  by pat_completeness auto
termination exec_attempts
  by (relation "measure (\<lambda>(_, _, _, n, _). SSH_CONNECT_MAX_ATTEMPTS - n)") auto

declare exec_attempts.simps [simp del]

definition stream_exec_over_ssh :: "(nat \<Rightarrow> ssh_attempt) \<Rightarrow> exec_job \<Rightarrow> exec_trace" where
  "stream_exec_over_ssh script job = exec_attempts script (jb_stdin job) (jb_timeout_seconds job) 0 None"

lemma failed_run_silent: "run_exec_with_russh a stdin_payload = (handed, es, Inl st) \<Longrightarrow> es = []"
  by (auto simp: run_exec_with_russh_def split: option.splits sum.splits if_splits)

lemma failed_run_handed:
  "run_exec_with_russh a stdin_payload = (True, es, Inl st) \<Longrightarrow> stdin_payload \<noteq> [] \<and> at_stdin a \<noteq> None \<or> at_eof a \<noteq> None"
  by (auto simp: run_exec_with_russh_def failing_def split: option.splits sum.splits if_splits)

definition is_exit :: "exec_event \<Rightarrow> bool" where
  "is_exit e \<longleftrightarrow> (\<exists>c. e = Exit c)"

lemma channel_events_no_exit: "e \<in> set (channel_events ms) \<Longrightarrow> \<not> is_exit e"
  by (induction ms rule: channel_events.induct) (auto simp: is_exit_def)

lemma run_events_no_exit: "run_exec_with_russh a stdin_payload = (handed, es, r) \<Longrightarrow> e \<in> set es \<Longrightarrow> \<not> is_exit e"
  using channel_events_no_exit by (fastforce simp: run_exec_with_russh_def split: option.splits sum.splits if_splits)

text \<open>A stream is over with its exit event, and only with it.\<close>

definition well_ended :: "exec_trace \<Rightarrow> bool" where
  "well_ended t \<longleftrightarrow>
     (case xt_result t of
        Inr _ \<Rightarrow> xt_events t \<noteq> [] \<and> is_exit (last (xt_events t)) \<and> (\<forall>e\<in>set (butlast (xt_events t)). \<not> is_exit e)
      | Inl _ \<Rightarrow> xt_events t = [])"

lemma before_simps [simp]:
  "xt_events (before s r es t) = es @ xt_events t" "xt_result (before s r es t) = xt_result t" "xt_runs (before s r es t) = r + xt_runs t"
  "xt_slept (before s r es t) = s + xt_slept t"
  "xt_events (no_runs r es res) = es" "xt_result (no_runs r es res) = res" "xt_runs (no_runs r es res) = r" "xt_slept (no_runs r es res) = 0"
  by (simp_all add: before_def no_runs_def)

lemma before_id: "before 0 0 [] t = t"
  by (simp add: before_def)

lemma well_ended_before [simp]: "well_ended (before s r [] t) = well_ended t"
  by (cases "xt_result t") (simp_all add: well_ended_def)

lemma well_ended_no_runs: "(\<And>e. e \<in> set es \<Longrightarrow> \<not> is_exit e) \<Longrightarrow> well_ended (no_runs r (es @ [Exit c]) (Inr ()))" "well_ended (no_runs r [] (Inl st))"
  by (auto simp: well_ended_def is_exit_def)

text \<open>One step of the loop.\<close>

lemma exec_attempts_cases:
  assumes n: "n < SSH_CONNECT_MAX_ATTEMPTS"
  obtains (ended) t where "exec_attempts script inp tm n le = before (ssh_backoff n) 0 [] t" "well_ended t" "xt_slept t = 0" "xt_runs t \<le> 1"
    | (again) st handed where "exec_attempts script inp tm n le =
          before (ssh_backoff n) 0 [] (before 0 (if handed then 1 else 0) [] (exec_attempts script inp tm (n + 1) (Some st)))"
      "handed \<Longrightarrow> inp \<noteq> [] \<and> at_stdin (script n) \<noteq> None \<or> at_eof (script n) \<noteq> None"
proof -
  let ?E = "exec_attempts script inp tm n le"
  have simps: "?E = before (ssh_backoff n) 0 []
      (case failing ''failed to start ssh proxy'' (at_proxy (script n)) of
             Some st \<Rightarrow> exec_attempts script inp tm (n + 1) (Some st)
           | None \<Rightarrow>
               (case run_exec_with_russh (script n) inp of
                  (handed, es, r) \<Rightarrow>
                    (case (if tm = 0 then None else at_timer (script n)) of
                       Some k \<Rightarrow>
                         no_runs (if handed then 1 else 0) ((if isl r then [] else channel_events (take k (at_messages (script n)))) @ [Exit 124]) (Inr ())
                     | None \<Rightarrow>
                         (case r of
                            Inr exit_code \<Rightarrow> no_runs 1 (es @ [Exit exit_code]) (Inr ())
                          | Inl st \<Rightarrow>
                              before 0 (if handed then 1 else 0) es
                                (if is_retryable_ssh_error st \<and> n + 1 < SSH_CONNECT_MAX_ATTEMPTS
                                 then exec_attempts script inp tm (n + 1) (Some st)
                                 else no_runs 0 [] (Inl st))))))"
    using n by (subst exec_attempts.simps) simp
  show ?thesis
  proof (cases "failing ''failed to start ssh proxy'' (at_proxy (script n))")
    case (Some st)
    then show ?thesis using simps again [of False st] by (simp add: before_id)
  next
    case proxy: None
    obtain handed es r where r: "run_exec_with_russh (script n) inp = (handed, es, r)" by (metis prod_cases3)
    show ?thesis
    proof (cases "if tm = 0 then None else at_timer (script n)")
      case (Some k)
      have "?E = before (ssh_backoff n) 0 [] (no_runs (if handed then 1 else 0)
          ((if isl r then [] else channel_events (take k (at_messages (script n)))) @ [Exit 124]) (Inr ()))"
        using simps proxy r Some by simp
      then show ?thesis by (rule ended) (rule well_ended_no_runs, auto dest: channel_events_no_exit split: if_splits)
    next
      case timer: None
      show ?thesis
      proof (cases r)
        case (Inr code)
        then have "?E = before (ssh_backoff n) 0 [] (no_runs 1 (es @ [Exit code]) (Inr ()))" using simps proxy r timer by simp
        then show ?thesis by (rule ended) (auto intro!: well_ended_no_runs dest: run_events_no_exit [OF r])
      next
        case (Inl st)
        have es: "es = []" using failed_run_silent r Inl by blast
        have "handed \<Longrightarrow> inp \<noteq> [] \<and> at_stdin (script n) \<noteq> None \<or> at_eof (script n) \<noteq> None" using failed_run_handed [of "script n" inp es st] r Inl by auto
        moreover have "?E = before (ssh_backoff n) 0 [] (before 0 (if handed then 1 else 0) []
            (if is_retryable_ssh_error st \<and> n + 1 < SSH_CONNECT_MAX_ATTEMPTS then exec_attempts script inp tm (n + 1) (Some st) else no_runs 0 [] (Inl st)))"
          using simps proxy r timer Inl es by simp
        ultimately show ?thesis
          using again [of handed st] ended [of "before 0 (if handed then 1 else 0) [] (no_runs 0 [] (Inl st))"] well_ended_no_runs(2)
          by (cases "is_retryable_ssh_error st \<and> n + 1 < SSH_CONNECT_MAX_ATTEMPTS") (simp_all only: if_True if_False, simp_all)
      qed
    qed
  qed
qed

lemma exec_attempts_facts:
  "well_ended (exec_attempts script inp tm n le)
    \<and> xt_slept (exec_attempts script inp tm n le) \<le> sum_list (map ssh_backoff [n..<SSH_CONNECT_MAX_ATTEMPTS])
    \<and> ((\<forall>i. at_stdin (script i) = None \<and> at_eof (script i) = None) \<longrightarrow> xt_runs (exec_attempts script inp tm n le) \<le> 1)"
proof (induction "SSH_CONNECT_MAX_ATTEMPTS - n" arbitrary: n le)
  case 0
  then have "exec_attempts script inp tm n le =
      no_runs 0 [] (Inl (case le of None \<Rightarrow> (InternalStatus, ''ssh connection failed after exhausting retries'') | Some st \<Rightarrow> st))"
    by (subst exec_attempts.simps) simp
  then show ?case by (simp add: well_ended_no_runs)
next
  case (Suc m)
  then have n: "n < SSH_CONNECT_MAX_ATTEMPTS" "m = SSH_CONNECT_MAX_ATTEMPTS - (n + 1)" by auto
  have "[n..<SSH_CONNECT_MAX_ATTEMPTS] = n # [n + 1..<SSH_CONNECT_MAX_ATTEMPTS]" using n(1) by (simp add: upt_conv_Cons)
  then have sum: "sum_list (map ssh_backoff [n..<SSH_CONNECT_MAX_ATTEMPTS]) = ssh_backoff n + sum_list (map ssh_backoff [n + 1..<SSH_CONNECT_MAX_ATTEMPTS])" by simp
  note IH = Suc.hyps(1) [OF n(2)]
  show ?case
  proof (rule exec_attempts_cases [OF n(1), of script inp tm le])
    fix t assume "exec_attempts script inp tm n le = before (ssh_backoff n) 0 [] t" "well_ended t" "xt_slept t = 0" "xt_runs t \<le> 1"
    then show ?thesis using sum by simp
  next
    fix st handed
    assume "exec_attempts script inp tm n le =
        before (ssh_backoff n) 0 [] (before 0 (if handed then 1 else 0) [] (exec_attempts script inp tm (n + 1) (Some st)))"
      "handed \<Longrightarrow> inp \<noteq> [] \<and> at_stdin (script n) \<noteq> None \<or> at_eof (script n) \<noteq> None"
    then show ?thesis using IH [of "Some st"] sum by (auto split: if_splits)
  qed
qed


text \<open>An attempt that fails after the command has been handed over, with an error that looks transient, is repeated: the command runs twice.\<close>

theorem exec_runs_twice:
  assumes "jb_stdin job \<noteq> []" "jb_timeout_seconds job = 0"
    and "run_exec_with_russh (script 0) (jb_stdin job) = (True, [], Inl st)" "is_retryable_ssh_error st" "at_proxy (script 0) = None"
    and "run_exec_with_russh (script 1) (jb_stdin job) = (True, es, Inr code)" "at_proxy (script 1) = None"
  shows "xt_runs (stream_exec_over_ssh script job) = 2 \<and> xt_events (stream_exec_over_ssh script job) = es @ [Exit code]"
proof -
  have "exec_attempts script (jb_stdin job) 0 (0 + 1) (Some st) = before (ssh_backoff 1) 0 [] (no_runs 1 (es @ [Exit code]) (Inr ()))"
    using assms by (subst exec_attempts.simps) (simp add: SSH_CONNECT_MAX_ATTEMPTS_def failing_def)
  then have "exec_attempts script (jb_stdin job) 0 0 None = before (ssh_backoff 0) 0 [] (before 0 1 [] (before (ssh_backoff 1) 0 [] (no_runs 1 (es @ [Exit code]) (Inr ()))))"
    using assms by (subst exec_attempts.simps) (simp add: SSH_CONNECT_MAX_ATTEMPTS_def failing_def)
  then show ?thesis using assms(2) by (simp add: stream_exec_over_ssh_def)
qed

definition sample_attempt :: ssh_attempt where
  "sample_attempt = \<lparr>at_proxy = None, at_connect = None, at_transport = None, at_auth = Inr True, at_open = None, at_exec = None, at_stdin = None,
     at_eof = None, at_messages = [Data ''hi'', ExitStatus 0, Close], at_timer = None\<rparr>"

definition sample_job :: exec_job where
  "sample_job = \<lparr>jb_sandbox_id = ''sb'', jb_host = ''h'', jb_port = 22, jb_command = ''make pay'', jb_stdin = ''x'', jb_timeout_seconds = 0\<rparr>"

lemma sample_attempt_runs: "run_exec_with_russh sample_attempt ''x'' = (True, [Stdout ''hi''], Inr 0)"
  by (simp add: run_exec_with_russh_def sample_attempt_def failing_def)


theorem exec_runs_twice_witness:
  "xt_runs (stream_exec_over_ssh (\<lambda>n. if n = 0 then sample_attempt\<lparr>at_stdin := Some ''Connection reset by peer''\<rparr> else sample_attempt) sample_job) = 2"
proof -
  let ?st = "(InternalStatus, ''failed to send ssh stdin payload: Connection reset by peer'')"
  have "run_exec_with_russh (sample_attempt\<lparr>at_stdin := Some ''Connection reset by peer''\<rparr>) ''x'' = (True, [], Inl ?st)"
    by (simp add: run_exec_with_russh_def sample_attempt_def failing_def)
  moreover have "is_retryable_ssh_error ?st" by code_simp
  ultimately show ?thesis
    using exec_runs_twice [of sample_job "\<lambda>n. if n = 0 then sample_attempt\<lparr>at_stdin := Some ''Connection reset by peer''\<rparr> else sample_attempt" ?st]
      sample_attempt_runs by (simp add: sample_job_def sample_attempt_def)
qed

end
