(* ===== verification/Mapper.thy ===== *)
theory Mapper
  imports Denials Ip_Guard Gateway_Grants
begin

text \<open>
  The mechanistic mapper, \<open>crates/clustershell-sandbox/src/mechanistic_mapper.rs\<close>: denial summaries become recommended rules,
  one for each host, port and binary; and \<open>flush_proposals_to_gateway\<close> of \<open>lib.rs\<close>, which feeds it the aggregator's summaries.
  Confidences are \<open>f32\<close> values, kept exactly in units of \<open>2 ^ -27\<close>. The resolver is a parameter, as is what Unicode calls
  alphanumeric beyond ASCII. Counters wrap as in a release build.
\<close>

section \<open>Summaries\<close>

record denial_summary =
  ds_sandbox_id :: bytes
  ds_host :: bytes
  ds_port :: nat
  ds_binary :: bytes
  ds_ancestors :: "bytes list"
  ds_deny_reason :: bytes
  ds_first_seen_ms :: int
  ds_last_seen_ms :: int
  ds_count :: "32 word"
  ds_suppressed_count :: "32 word"
  ds_total_count :: "32 word"
  ds_sample_cmdlines :: "bytes list"
  ds_binary_sha256 :: bytes
  ds_persistent :: bool
  ds_denial_stage :: bytes
  ds_l7_request_samples :: "l7_sample list"
  ds_l7_inspection_active :: bool

definition to_denial_summary :: "aggregated_denial \<Rightarrow> denial_summary" where
  "to_denial_summary s =
     \<lparr>ds_sandbox_id = [], ds_host = ad_host s, ds_port = ad_port s, ds_binary = ad_binary s, ds_ancestors = ad_ancestors s,
      ds_deny_reason = ad_deny_reason s, ds_first_seen_ms = ad_first_seen_ms s, ds_last_seen_ms = ad_last_seen_ms s,
      ds_count = ad_count s, ds_suppressed_count = 0, ds_total_count = ad_count s, ds_sample_cmdlines = ad_sample_cmdlines s,
      ds_binary_sha256 = [], ds_persistent = False, ds_denial_stage = ad_denial_stage s, ds_l7_request_samples = ad_l7_samples s,
      ds_l7_inspection_active = False\<rparr>"

section \<open>Names and scores\<close>

definition WELL_KNOWN_PORTS :: "(nat \<times> bytes) list" where
  "WELL_KNOWN_PORTS = [(80, ''HTTP''), (443, ''HTTPS''), (8080, ''HTTP-alt''), (8443, ''HTTPS-alt''), (5432, ''PostgreSQL''), (3306, ''MySQL''),
     (6379, ''Redis''), (27017, ''MongoDB''), (9200, ''Elasticsearch''), (9092, ''Kafka''), (2181, ''ZooKeeper''), (11211, ''Memcached''),
     (5672, ''RabbitMQ''), (6443, ''Kubernetes API''), (53, ''DNS''), (587, ''SMTP''), (993, ''IMAP''), (995, ''POP3'')]"

definition char_alphanumeric :: "(bytes \<Rightarrow> bool) \<Rightarrow> bytes \<Rightarrow> bool" where
  "char_alphanumeric unicode w =
     (case w of
        [c] \<Rightarrow> is_ascii_digit c \<or> (65 \<le> byte c \<and> byte c \<le> 90) \<or> (97 \<le> byte c \<and> byte c \<le> 122)
      | _ \<Rightarrow> unicode w)"

definition generate_rule_name :: "(bytes \<Rightarrow> bool) \<Rightarrow> bytes \<Rightarrow> nat \<Rightarrow> bytes" where
  "generate_rule_name unicode host port =
     (let replaced = map (\<lambda>c. if c = CHR ''.'' \<or> c = CHR ''-'' then CHR ''_'' else c) host;
          sanitized = concat (filter (\<lambda>w. char_alphanumeric unicode w \<or> w = ''_'') (scalars replaced)) in
      ''allow_'' @ sanitized @ ''_'' @ show_nat port)"

text \<open>\<open>f32\<close> addition for values below one: the exact result is rounded to the nearest multiple of the unit in the last place, ties to even.\<close>

definition f32_ulp :: "nat \<Rightarrow> nat" where
  "f32_ulp x = (if 2 ^ 26 \<le> x then 8 else if 2 ^ 25 \<le> x then 4 else if 2 ^ 24 \<le> x then 2 else 1)"

definition f32_round :: "nat \<Rightarrow> nat" where
  "f32_round x =
     (let u = f32_ulp x; q = x div u; r = x mod u in
      (if u < 2 * r \<or> (2 * r = u \<and> odd q) then q + 1 else q) * u)"

definition f32_0_1 :: nat where "f32_0_1 = 13421773"
definition f32_0_15 :: nat where "f32_0_15 = 20132660"
definition f32_0_2 :: nat where "f32_0_2 = 26843546"
definition f32_0_5 :: nat where "f32_0_5 = 67108864"
definition f32_0_95 :: nat where "f32_0_95 = 127506840"

definition compute_confidence :: "32 word \<Rightarrow> nat \<Rightarrow> bool \<Rightarrow> nat" where
  "compute_confidence total_count port is_ssrf =
     (let score = f32_0_5;
          score = (if 10 \<le> total_count then f32_round (score + f32_0_2)
                   else if 3 \<le> total_count then f32_round (score + f32_0_1) else score);
          score = (if \<exists>(p, _)\<in>set WELL_KNOWN_PORTS. p = port then f32_round (score + f32_0_15) else score);
          score = (if is_ssrf then f32_round (score - f32_0_2) else score) in
      max f32_0_1 (min f32_0_95 score))"

definition em_dash :: bytes where
  "em_dash = [CHR 0xE2, CHR 0x80, CHR 0x94]"

definition generate_security_notes :: "bytes \<Rightarrow> nat \<Rightarrow> bool \<Rightarrow> bytes" where
  "generate_security_notes host port is_ssrf =
     join_str '' ''
       ((if is_ssrf then [''This connection was blocked by SSRF protection. Allowing it bypasses internal-IP safety checks.''] else [])
        @ (if starts_with host ''10.'' \<or> starts_with host ''172.'' \<or> starts_with host ''192.168.'' \<or> host = ''localhost''
              \<or> starts_with host ''127.''
           then [''Destination '' @ quoted host @ '' appears to be an internal/private address.''] else [])
        @ (if 49152 < port
           then [''Port '' @ show_nat port @ '' is in the ephemeral range '' @ em_dash @ '' this may be a temporary service.''] else [])
        @ (if port \<in> set [5432, 3306, 6379, 27017, 9200, 11211, 5672]
           then [''Port '' @ show_nat port
                 @ '' is a well-known database/service port. Consider restricting with L7 rules or read-only access.''] else []))"

section \<open>Requests\<close>

definition is_ascii_hexdigit :: "char \<Rightarrow> bool" where
  "is_ascii_hexdigit c \<longleftrightarrow> is_ascii_digit c \<or> (65 \<le> byte c \<and> byte c \<le> 70) \<or> (97 \<le> byte c \<and> byte c \<le> 102)"

definition looks_like_id :: "bytes \<Rightarrow> bool" where
  "looks_like_id seg =
     (if seg = [] then False
      else if list_all is_ascii_digit seg \<and> 2 \<le> length seg then True
      else
        let hex_only = filter is_ascii_hexdigit seg in
        if 24 \<le> length hex_only \<and> CHR ''-'' \<in> set seg then True
        else if 16 \<le> length hex_only \<and> length seg = length hex_only then True
        else False)"

definition generalise_path :: "bytes \<Rightarrow> bytes" where
  "generalise_path raw =
     (let path = hd (split_char (CHR ''?'') raw);
          segments = split_char (CHR ''/'') path in
      if length segments \<le> 1 then path
      else if looks_like_id (last segments) then join_str ''/'' (butlast segments) @ ''/*''
      else path)"

text \<open>\<open>samples\<close> are the keys of a map: methods with paths.\<close>

definition build_l7_rules :: "(bytes \<times> bytes) list \<Rightarrow> l7_rule list" where
  "build_l7_rules samples =
     map (\<lambda>(m, p). \<lparr>lr_allow = Some \<lparr>la_method = m, la_path = p, la_command = []\<rparr>\<rparr>)
       (sort_key fst (sort_key snd (remdups (map (\<lambda>(m, p). (m, generalise_path p)) samples))))"

definition short_binary_name :: "bytes \<Rightarrow> bytes" where
  "short_binary_name path = last (split_char (CHR ''/'') path)"

section \<open>Addresses\<close>

text \<open>The mapper's own copy of the address test.\<close>

fun mapper_is_internal_ip :: "ip_addr \<Rightarrow> bool" where
  "mapper_is_internal_ip (V4 v4) = (v4_is_loopback v4 \<or> v4_is_private v4 \<or> v4_is_link_local v4)"
| "mapper_is_internal_ip (V6 v6) =
     (if v6_is_loopback v6 then True
      else if segment 0 v6 AND 0xffc0 = 0xfe80 then True
      else if segment 0 v6 AND 0xfe00 = 0xfc00 then True
      else case to_ipv4_mapped v6 of
             Some v4 \<Rightarrow> v4_is_loopback v4 \<or> v4_is_private v4 \<or> v4_is_link_local v4
           | None \<Rightarrow> False)"

text \<open>\<open>sort\<close> then \<open>dedup\<close>.\<close>

definition resolve_allowed_ips_if_private :: "dns \<Rightarrow> bytes \<Rightarrow> nat \<Rightarrow> bytes list" where
  "resolve_allowed_ips_if_private lookup_host host port =
     (case lookup_host host port of
        Inl _ \<Rightarrow> []
      | Inr addrs \<Rightarrow>
          (if addrs = [] \<or> \<not> list_ex (\<lambda>a. mapper_is_internal_ip (fst a)) addrs then []
           else remdups (sort_key (\<lambda>ip. ip) (map (\<lambda>a. show_ip (fst a)) addrs))))"

section \<open>Proposals\<close>

type_synonym denial_groups = "(denial_key \<times> denial_summary list) list"

definition add_to_group :: "denial_summary \<Rightarrow> denial_groups \<Rightarrow> denial_groups" where
  "add_to_group s groups =
     (let key = (ds_host s, ds_port s, ds_binary s) in
      hm_insert key ((case map_of groups key of None \<Rightarrow> [] | Some ds \<Rightarrow> ds) @ [s]) groups)"

definition group_denials :: "denial_summary list \<Rightarrow> denial_groups" where
  "group_denials summaries = fold add_to_group summaries []"

text \<open>The keys of \<open>l7_methods\<close>; the counts are not used.\<close>

definition l7_method_keys :: "denial_summary list \<Rightarrow> (bytes \<times> bytes) list" where
  "l7_method_keys denials =
     map fst (fold (\<lambda>s m. hm_insert (ls_method s, ls_path s) () m) (concat (map ds_l7_request_samples denials)) [])"

definition default_endpoint :: network_endpoint where
  "default_endpoint = \<lparr>ne_host = [], ne_port = 0, ne_protocol = [], ne_tls = [], ne_enforcement = [], ne_access = [], ne_rules = [],
     ne_allowed_ips = [], ne_ports = []\<rparr>"

definition proposed_endpoint :: "bytes \<Rightarrow> nat \<Rightarrow> bool \<Rightarrow> l7_rule list \<Rightarrow> bytes list \<Rightarrow> network_endpoint" where
  "proposed_endpoint host port has_l7 l7_rules allowed_ips =
     (if has_l7 \<and> l7_rules \<noteq> [] then
        default_endpoint\<lparr>ne_host := host, ne_port := port, ne_ports := [port], ne_protocol := ''rest'', ne_tls := ''terminate'',
          ne_enforcement := ''enforce'', ne_rules := l7_rules, ne_allowed_ips := allowed_ips\<rparr>
      else default_endpoint\<lparr>ne_host := host, ne_port := port, ne_ports := [port], ne_allowed_ips := allowed_ips\<rparr>)"

definition as_i32 :: "32 word \<Rightarrow> int" where
  "as_i32 w = sint w"

text \<open>\<open>port as u16\<close>.\<close>

definition as_u16 :: "nat \<Rightarrow> nat" where
  "as_u16 port = port mod 2 ^ 16"

definition rationale_of :: "bytes \<Rightarrow> nat \<Rightarrow> bytes \<Rightarrow> bool \<Rightarrow> (bytes \<times> bytes) list \<Rightarrow> bytes list \<Rightarrow> bytes" where
  "rationale_of host port binary has_l7 l7_methods allowed_ips =
     (let binary_list = (if binary = [] then ''unknown binary'' else short_binary_name binary);
          port_name = (case find (\<lambda>(p, _). p = as_u16 port) WELL_KNOWN_PORTS of None \<Rightarrow> [] | Some (_, name) \<Rightarrow> '' ('' @ name @ '')'');
          private_ip_note = (if allowed_ips \<noteq> [] then
            '' Host resolves to private IP ('' @ join_str '', '' allowed_ips @ ''); allowed_ips included for SSRF override.'' else []) in
      if has_l7 \<and> l7_methods \<noteq> [] then
        ''Allow '' @ binary_list @ '' to connect to '' @ host @ '':'' @ show_nat port @ port_name @ '' with L7 inspection. Allowed paths: ''
        @ join_str '', '' (map (\<lambda>(m, p). m @ '' '' @ p) l7_methods) @ ''.'' @ private_ip_note
      else ''Allow '' @ binary_list @ '' to connect to '' @ host @ '':'' @ show_nat port @ port_name @ ''.'' @ private_ip_note)"

text \<open>The proposal for one group. The stage of the chunk, which the gateway does not store, is left out of the record.\<close>

definition proposal_for :: "(bytes \<Rightarrow> bool) \<Rightarrow> dns \<Rightarrow> denial_key \<times> denial_summary list \<Rightarrow> policy_chunk" where
  "proposal_for unicode lookup_host = (\<lambda>((host, port, binary), denials).
     let rule_name = generate_rule_name unicode host port;
         total_count = sum_list (map ds_count denials);
         first_seen_ms = fold (\<lambda>d m. min m (ds_first_seen_ms d)) denials (2 ^ 63 - 1);
         last_seen_ms = fold (\<lambda>d m. max m (ds_last_seen_ms d)) denials 0;
         is_ssrf = list_ex (\<lambda>d. ds_denial_stage d = ''ssrf'') denials;
         l7_methods = l7_method_keys denials;
         has_l7 = list_ex (\<lambda>d. ds_l7_inspection_active d \<or> ds_l7_request_samples d \<noteq> []) denials;
         allowed_ips = resolve_allowed_ips_if_private lookup_host host port in
     \<lparr>pc_id = [], pc_status = ''pending'', pc_rule_name = rule_name,
      pc_proposed_rule = Some \<lparr>npr_name = rule_name,
        npr_endpoints = [proposed_endpoint host port has_l7 (build_l7_rules l7_methods) allowed_ips],
        npr_binaries = (if binary = [] then [] else [\<lparr>nb_path = binary, nb_harness = False\<rparr>])\<rparr>,
      pc_rationale = rationale_of host port binary has_l7 l7_methods allowed_ips,
      pc_security_notes = generate_security_notes host (as_u16 port) is_ssrf,
      pc_confidence = compute_confidence total_count (as_u16 port) is_ssrf,
      pc_created_at_ms = 0, pc_decided_at_ms = 0, pc_hit_count = as_i32 total_count, pc_first_seen_ms = first_seen_ms,
      pc_last_seen_ms = last_seen_ms, pc_binary = binary\<rparr>)"

definition generate_proposals :: "(bytes \<Rightarrow> bool) \<Rightarrow> dns \<Rightarrow> denial_summary list \<Rightarrow> policy_chunk list" where
  "generate_proposals unicode lookup_host summaries =
     rev (sort_key pc_confidence (rev (map (proposal_for unicode lookup_host) (group_denials summaries))))"

definition flush_proposals :: "(bytes \<Rightarrow> bool) \<Rightarrow> dns \<Rightarrow> aggregated_denial list \<Rightarrow> policy_chunk list" where
  "flush_proposals unicode lookup_host summaries = generate_proposals unicode lookup_host (map to_denial_summary summaries)"

section \<open>Facts\<close>

lemma mapper_is_internal_ip_eq: "mapper_is_internal_ip ip = is_internal_ip ip"
  by (cases ip) simp_all

text \<open>Groups: every summary is in the group of its key, and a group has its summaries only.\<close>

definition groups_inv :: "denial_summary list \<Rightarrow> denial_groups \<Rightarrow> bool" where
  "groups_inv seen groups \<longleftrightarrow> hm_inv groups \<and>
     (\<forall>key. map_of groups key =
        (let ds = filter (\<lambda>s. (ds_host s, ds_port s, ds_binary s) = key) seen in if ds = [] then None else Some ds))"

lemma group_denials_inv: "groups_inv summaries (group_denials summaries)"
proof -
  have "groups_inv seen g \<Longrightarrow> groups_inv (seen @ ss) (fold add_to_group ss g)" for seen ss g
  proof (induction ss arbitrary: seen g)
    case (Cons s ss)
    have inv: "hm_inv g" using Cons.prems by (simp add: groups_inv_def)
    have "groups_inv (seen @ [s]) (add_to_group s g)"
      using Cons.prems hm.inv_ins [OF inv] hm.get_ins [OF inv] by (auto simp: groups_inv_def add_to_group_def Let_def)
    from Cons.IH [OF this] show ?case by simp
  qed simp
  from this [of "[]" "[]" summaries] show ?thesis by (simp add: group_denials_def groups_inv_def hm_inv_def)
qed

lemma group_of:
  assumes "s \<in> set summaries"
  shows "((ds_host s, ds_port s, ds_binary s), filter (\<lambda>s'. (ds_host s', ds_port s', ds_binary s') = (ds_host s, ds_port s, ds_binary s)) summaries)
    \<in> set (group_denials summaries)"
proof -
  let ?key = "(ds_host s, ds_port s, ds_binary s)" and ?ds = "filter (\<lambda>s'. (ds_host s', ds_port s', ds_binary s') = (ds_host s, ds_port s, ds_binary s)) summaries"
  have "?ds \<noteq> []" using assms by (auto simp: filter_empty_conv)
  then have "map_of (group_denials summaries) ?key = Some ?ds" using group_denials_inv [of summaries] unfolding groups_inv_def Let_def by presburger
  then show ?thesis by (rule map_of_SomeD)
qed

lemma proposals_set: "set (generate_proposals unicode lookup summaries) = proposal_for unicode lookup ` set (group_denials summaries)"
  by (simp add: generate_proposals_def)

lemma proposal_rule:
  "pc_proposed_rule (proposal_for unicode lookup ((host, port, binary), ds)) = Some
     \<lparr>npr_name = generate_rule_name unicode host port,
      npr_endpoints = [proposed_endpoint host port (list_ex (\<lambda>d. ds_l7_inspection_active d \<or> ds_l7_request_samples d \<noteq> []) ds)
        (build_l7_rules (l7_method_keys ds)) (resolve_allowed_ips_if_private lookup host port)],
      npr_binaries = (if binary = [] then [] else [\<lparr>nb_path = binary, nb_harness = False\<rparr>])\<rparr>"
  "pc_rule_name (proposal_for unicode lookup ((host, port, binary), ds)) = generate_rule_name unicode host port"
  by (simp_all add: proposal_for_def Let_def)

lemma proposed_endpoint_fields:
  "ne_host (proposed_endpoint host port h rs ips) = host" "ne_port (proposed_endpoint host port h rs ips) = port"
  "ne_ports (proposed_endpoint host port h rs ips) = [port]" "ne_allowed_ips (proposed_endpoint host port h rs ips) = ips"
  by (simp_all add: proposed_endpoint_def)

lemma proposed_endpoint_covers:
  assumes "host \<noteq> []" "0 < port" "CHR ''*'' \<notin> set host"
  shows "single_port (proposed_endpoint host port h rs ips)" "endpoint_covers B (proposed_endpoint host port h rs ips) host port"
  using assms by (simp_all add: single_port_def endpoint_covers_def host_covers_def normalized_ports_def proposed_endpoint_fields)

lemma proposal_parts:
  assumes "pc_proposed_rule (proposal_for unicode lookup ((host, port, binary), ds)) = Some rule" "host \<noteq> []" "0 < port" "CHR ''*'' \<notin> set host" "binary \<noteq> []"
  obtains e where "npr_endpoints rule = [e]" "single_port e" "endpoint_covers B e host port" "canonical_ports rule"
    "npr_binaries rule = [\<lparr>nb_path = binary, nb_harness = False\<rparr>]"
  using assms proposed_endpoint_covers [OF assms(2,3,4)]
  by (auto simp: proposal_rule canonical_ports_def proposed_endpoint_fields first_port_def)

text \<open>A recommendation is what the denied process lacked. For every denied connection of a known binary to a host and a port there is a proposal of the mapper
  which, merged by the gateway's approval into any policy whose rule of that name has its ports in canonical form, permits that connection, for the binary itself and for
  whatever it starts; nothing permitted before is taken away.\<close>

theorem proposal_permits_denied_connection:
  assumes "s \<in> set summaries" "ds_host s \<noteq> []" "0 < ds_port s" "ds_binary s \<noteq> []" "CHR ''*'' \<notin> set (ds_host s)" "CHR ''*'' \<notin> set (ds_binary s)"
  shows "\<exists>c\<in>set (generate_proposals unicode lookup summaries). \<exists>rule. pc_proposed_rule c = Some rule \<and> pc_binary c = ds_binary s \<and>
    (\<forall>p. (case map_of (sp_network_policies p) (pc_rule_name c) of None \<Rightarrow> True | Some existing \<Rightarrow> canonical_ports existing) \<longrightarrow>
      (\<forall>path anc. ds_binary s \<in> set (path # anc) \<longrightarrow>
         connection_permitted B (merge_into (pc_rule_name c) rule p) (ds_host s) (ds_port s) path anc)
      \<and> (\<forall>host' port' path' anc'. connection_permitted B p host' port' path' anc' \<longrightarrow>
           connection_permitted B (merge_into (pc_rule_name c) rule p) host' port' path' anc'))"
proof -
  define ds where "ds = filter (\<lambda>s'. (ds_host s', ds_port s', ds_binary s') = (ds_host s, ds_port s, ds_binary s)) summaries"
  define c where "c = proposal_for unicode lookup ((ds_host s, ds_port s, ds_binary s), ds)"
  obtain rule where rule: "pc_proposed_rule c = Some rule" by (simp add: c_def proposal_rule)
  obtain e where e: "npr_endpoints rule = [e]" "single_port e" "endpoint_covers B e (ds_host s) (ds_port s)" "canonical_ports rule"
    "npr_binaries rule = [\<lparr>nb_path = ds_binary s, nb_harness = False\<rparr>]"
    using rule assms(2-5) by (auto simp: c_def elim: proposal_parts)
  have "c \<in> set (generate_proposals unicode lookup summaries)"
    using group_of [OF assms(1)] by (auto simp: proposals_set c_def ds_def)
  moreover have "pc_binary c = ds_binary s" by (simp add: c_def proposal_for_def Let_def)
  moreover have "connection_permitted B (merge_into (pc_rule_name c) rule p) (ds_host s) (ds_port s) path anc"
    if "case map_of (sp_network_policies p) (pc_rule_name c) of None \<Rightarrow> True | Some existing \<Rightarrow> canonical_ports existing" "ds_binary s \<in> set (path # anc)" for p path anc
  proof -
    have "binary_covers B (ds_binary s) path anc" using that(2) assms(6) by (auto simp: binary_covers_def)
    then show ?thesis
      using merge_into_grants [of "\<lparr>nb_path = ds_binary s, nb_harness = False\<rparr>" rule B path anc e] e that(1) by simp
  qed
  ultimately show ?thesis using rule merge_into_mono by blast
qed

definition denied_curl :: denial_summary where
  "denied_curl = \<lparr>ds_sandbox_id = [], ds_host = ''api.example.com'', ds_port = 443, ds_binary = ''/usr/bin/curl'', ds_ancestors = [], ds_deny_reason = [],
     ds_first_seen_ms = 1, ds_last_seen_ms = 2, ds_count = 5, ds_suppressed_count = 0, ds_total_count = 5, ds_sample_cmdlines = [], ds_binary_sha256 = [],
     ds_persistent = False, ds_denial_stage = ''connect'', ds_l7_request_samples = [], ds_l7_inspection_active = False\<rparr>"

theorem proposal_permits_denied_connection_witness:
  "\<exists>c rule. c \<in> set (generate_proposals (\<lambda>_. False) (\<lambda>_ _. Inl []) [denied_curl]) \<and> pc_proposed_rule c = Some rule \<and>
     connection_permitted literal_builtins (merge_into (pc_rule_name c) rule (quickstart_policy\<lparr>sp_network_policies := []\<rparr>)) ''api.example.com'' 443 ''/usr/bin/curl'' []"
proof -
  have d: "ds_host denied_curl = ''api.example.com''" "ds_port denied_curl = 443" "ds_binary denied_curl = ''/usr/bin/curl''"
    by (simp_all add: denied_curl_def)
  have "CHR ''*'' \<notin> set ''api.example.com''" "CHR ''*'' \<notin> set ''/usr/bin/curl''" by code_simp+
  then have pre: "denied_curl \<in> set [denied_curl]" "ds_host denied_curl \<noteq> []" "0 < ds_port denied_curl" "ds_binary denied_curl \<noteq> []"
    "CHR ''*'' \<notin> set (ds_host denied_curl)" "CHR ''*'' \<notin> set (ds_binary denied_curl)" by (simp_all add: d)
  obtain c rule where c: "c \<in> set (generate_proposals (\<lambda>_. False) (\<lambda>_ _. Inl []) [denied_curl])" "pc_proposed_rule c = Some rule"
    and all: "\<forall>p. (case map_of (sp_network_policies p) (pc_rule_name c) of None \<Rightarrow> True | Some existing \<Rightarrow> canonical_ports existing) \<longrightarrow>
      (\<forall>path anc. ds_binary denied_curl \<in> set (path # anc) \<longrightarrow>
         connection_permitted literal_builtins (merge_into (pc_rule_name c) rule p) (ds_host denied_curl) (ds_port denied_curl) path anc)"
    using proposal_permits_denied_connection [OF pre, of "\<lambda>_. False" "\<lambda>_ _. Inl []" literal_builtins] by blast
  have "case map_of (sp_network_policies (quickstart_policy\<lparr>sp_network_policies := []\<rparr>)) (pc_rule_name c) of None \<Rightarrow> True | Some existing \<Rightarrow> canonical_ports existing"
    by simp
  from all [rule_format, OF this, of "''/usr/bin/curl''" "[]"] show ?thesis using c by (auto simp: d)
qed

section \<open>Addresses are read back\<close>

lemma digit_char_zero: "d < 10 \<Longrightarrow> digit_char d = CHR ''0'' \<Longrightarrow> d = 0"
  using digit_value_digit_char [of d] by (simp add: digit_value_def is_ascii_digit_def)

lemma octet_text:
  assumes "n < 256"
  shows "length (show_nat n) \<le> 3 \<and> (length (show_nat n) \<le> 1 \<or> hd (show_nat n) \<noteq> CHR ''0'')"
proof -
  consider "n < 10" | "10 \<le> n" "n < 100" | "100 \<le> n" by linarith
  then show ?thesis
  proof cases
    case 1
    then show ?thesis by (simp add: show_nat_def show_radix.simps [of 10 n])
  next
    case 2
    then have "show_nat n = [digit_char (n div 10), digit_char (n mod 10)]"
      by (simp add: show_nat_def show_radix.simps [of 10 n] show_radix.simps [of 10 "n div 10"])
    moreover have "digit_char (n div 10) \<noteq> CHR ''0''" using 2 digit_char_zero [of "n div 10"] by fastforce
    ultimately show ?thesis by simp
  next
    case 3
    have "\<not> n div 10 < 10" "n div 100 < 10" using 3 assms div_le_mono [of 100 n 10] by (simp_all add: less_mult_imp_div_less)
    then have "show_nat n = [digit_char (n div 100), digit_char (n div 10 mod 10), digit_char (n mod 10)]"
      using 3 by (simp add: show_nat_def show_radix.simps [of 10 n] show_radix.simps [of 10 "n div 10"] show_radix.simps [of 10 "n div 100"]
          flip: div_mult2_eq)
    moreover have "digit_char (n div 100) \<noteq> CHR ''0''" using 3 assms digit_char_zero [of "n div 100"] by fastforce
    ultimately show ?thesis by simp
  qed
qed

lemma span_digits_all:
  assumes "\<forall>c\<in>set ds. \<exists>d<r. digit_value c = Some d" "rest = [] \<or> digit_value (hd rest) = None"
  shows "span_digits r (ds @ rest) = (ds, rest)"
  using assms
proof (induction ds)
  case Nil
  then show ?case by (cases rest) auto
qed auto

lemma show_nat_digits: "c \<in> set (show_nat n) \<Longrightarrow> \<exists>d<10. digit_value c = Some d"
  using set_show_radix [of 10 c n] digit_value_digit_char by (fastforce simp: show_nat_def)

lemma read_octet:
  assumes "n < 256" "rest = [] \<or> digit_value (hd rest) = None"
  shows "read_number 10 3 255 False (show_nat n @ rest) = Some (n, rest)"
proof -
  note t = octet_text [OF assms(1)]
  have "span_digits 10 (show_nat n @ rest) = (show_nat n, rest)" by (rule span_digits_all) (use show_nat_digits assms(2) in auto)
  moreover have "digits_value 10 0 (show_nat n) = Some n" using digits_value_show_radix [of 10 n] by (simp add: show_nat_def)
  ultimately show ?thesis using t assms(1) by (auto simp: read_number_def show_nat_def)
qed

lemma show_ipv4_read: "read_ipv4_addr (show_ipv4 v) = Some (map (\<lambda>i. unat (octet i v)) [0, 1, 2, 3], [])"
proof -
  have b: "unat (octet i v) < 256" for i using unsigned_less [of "octet i v", where 'a = nat] by simp
  have dot: "digit_value (CHR ''.'') = None" by (simp add: digit_value_def is_ascii_digit_def)
  have "read_number 10 3 255 False (show_nat (unat (octet i v)) @ CHR ''.'' # rest) = Some (unat (octet i v), CHR ''.'' # rest)" for i rest
    by (rule read_octet [OF b]) (simp add: dot)
  moreover have "read_number 10 3 255 False (show_nat (unat (octet 3 v))) = Some (unat (octet 3 v), [])"
    using read_octet [OF b, of "[]" 3] by simp
  moreover have "read_char (CHR ''.'') (CHR ''.'' # rest) = Some rest" for rest by (simp add: read_char_def strip_prefix_def starts_with_def)
  ultimately show ?thesis by (simp add: read_ipv4_addr_def show_ipv4_def numeral_eq_Suc)
qed

lemma bytes_of_word: "16777216 * (n div 16777216) + 65536 * (n div 65536 mod 256) + n div 256 mod 256 * 256 + n mod 256 = (n :: nat)"
proof -
  define a b where "a = n div 256" and "b = a div 256"
  have d: "n div 65536 = b" "n div 16777216 = b div 256" by (simp_all add: a_def b_def flip: div_mult2_eq)
  obtain q z where b: "b div 256 = q" "b mod 256 = z" "b = 256 * q + z" by (metis mult_div_mod_eq)
  obtain y where a: "a mod 256 = y" "a = 256 * b + y" by (metis b_def mult_div_mod_eq)
  obtain x where n: "n mod 256 = x" "n = 256 * a + x" by (metis a_def mult_div_mod_eq)
  show ?thesis unfolding d b(1,2) n(1) a_def [symmetric] a(1) using b(3) a(2) n(2) by linarith
qed

lemma word_of_octets: "of_nat (word_of_groups 256 (map (\<lambda>i. unat (octet i v)) [0, 1, 2, 3])) = v"
proof -
  have "word_of_groups 256 (map (\<lambda>i. unat (octet i v)) [0, 1, 2, 3]) = unat v"
    using unat4_bound [of v] bytes_of_word [of "unat v"] by (simp add: word_of_groups_def unat_octet)
  then show ?thesis by simp
qed

lemma parse_show_ipv4: "parse_ip_addr (show_ip (V4 v)) = Some (V4 v)"
  using show_ipv4_read [of v] word_of_octets [of v] by (simp add: parse_ip_addr_def)

text \<open>What the mapper proposes for a host is what the proxy's guard wants.\<close>

lemma resolve_allowed_set:
  assumes "lookup host port = Inr addrs" "\<exists>a\<in>set addrs. is_internal_ip (fst a)"
  shows "set (resolve_allowed_ips_if_private lookup host port) = (\<lambda>a. show_ip (fst a)) ` set addrs"
  using assms by (auto simp: resolve_allowed_ips_if_private_def mapper_is_internal_ip_eq list_ex_iff)

text \<open>\<open>ipnet\<close>: a bare address is not a network, and the network of one address contains it.\<close>

definition bare_address_law :: "'n ipnet_lib \<Rightarrow> bool" where
  "bare_address_law L \<longleftrightarrow> (\<forall>ip. nl_parse L (show_ip ip) = None \<and> nl_contains L (nl_from L ip) ip)"

text \<open>The allowlist the mapper puts into a proposal opens the proxy's SSRF guard for exactly what was resolved. When a host resolves to IPv4 addresses of which
  one is internal and none is loopback or link-local, then every entry of the proposed allowlist parses and the guard, resolving the host to the same
  addresses, admits it; before, without an allowlist, it did not.\<close>

theorem proposed_allowlist_admits:
  assumes "bare_address_law L" "lookup host port = Inr addrs" "\<exists>a\<in>set addrs. is_internal_ip (fst a)"
    and "\<forall>a\<in>set addrs. \<not> is_always_blocked_ip (fst a) \<and> (\<exists>v. fst a = V4 v)"
  shows "\<exists>nets. parse_allowed_ips L (resolve_allowed_ips_if_private lookup host port) = Inr nets
      \<and> resolve_and_check_allowed_ips L nets lookup host port = Inr addrs
      \<and> (\<exists>e. resolve_and_reject_internal lookup host port = Inl e)"
proof -
  let ?ips = "resolve_allowed_ips_if_private lookup host port"
  have p: "parse_allowed_ip L (show_ip (fst a)) = Some (nl_from L (fst a))" if "a \<in> set addrs" for a
    using assms(1,4) that parse_show_ipv4 by (auto simp: parse_allowed_ip_def bare_address_law_def)
  have set: "set ?ips = (\<lambda>a. show_ip (fst a)) ` set addrs" by (rule resolve_allowed_set [of lookup host port addrs, OF assms(2,3)])
  define nets where "nets = List.map_filter (parse_allowed_ip L) ?ips"
  have "filter (\<lambda>entry. parse_allowed_ip L entry = None) ?ips = []" using set p by (auto simp: filter_empty_conv)
  then have "parse_allowed_ips L ?ips = Inr nets" by (simp add: parse_allowed_ips_def nets_def)
  moreover have "nl_from L (fst a) \<in> set nets" if "a \<in> set addrs" for a
    using set p [OF that] that by (force simp: nets_def List.map_filter_def)
  then have "\<exists>net\<in>set nets. nl_contains L net (fst a)" if "a \<in> set addrs" for a
    using that assms(1) unfolding bare_address_law_def by blast
  then have "find (\<lambda>a. is_always_blocked_ip (fst a) \<or> \<not> (\<exists>net\<in>set nets. nl_contains L net (fst a))) addrs = None"
    using assms(4) by (auto simp: find_None_iff)
  then have "resolve_and_check_allowed_ips L nets lookup host port = Inr addrs"
    using assms(2,3) by (auto simp: resolve_and_check_allowed_ips_def resolve_addrs_def)
  moreover have "find (\<lambda>a. is_internal_ip (fst a)) addrs \<noteq> None" using assms(3) by (auto simp: find_None_iff)
  then have "\<exists>e. resolve_and_reject_internal lookup host port = Inl e"
    using assms(2,3) by (auto simp: resolve_and_reject_internal_def resolve_addrs_def)
  ultimately show ?thesis by blast
qed

definition single_lib :: "ip_addr ipnet_lib" where
  "single_lib = \<lparr>nl_parse = (\<lambda>_. None), nl_from = (\<lambda>ip. ip), nl_contains = (\<lambda>net ip. net = ip)\<rparr>"

theorem proposed_allowlist_admits_witness:
  "\<exists>nets. parse_allowed_ips single_lib (resolve_allowed_ips_if_private (\<lambda>_ _. Inr [(V4 0x0A000005, 443)]) ''db.local'' 443) = Inr nets
     \<and> resolve_and_check_allowed_ips single_lib nets (\<lambda>_ _. Inr [(V4 0x0A000005, 443)]) ''db.local'' 443 = Inr [(V4 0x0A000005, 443)]"
proof -
  have "is_internal_ip (V4 0x0A000005)" "\<not> is_always_blocked_ip (V4 0x0A000005)"
    by (simp_all add: v4_is_loopback_def v4_is_private_def v4_is_link_local_def octet_def)
  then show ?thesis
    using proposed_allowlist_admits [of single_lib "\<lambda>_ _. Inr [(V4 0x0A000005, 443)]" "''db.local''" 443 "[(V4 0x0A000005, 443)]"]
    by (auto simp: bare_address_law_def single_lib_def)
qed

text \<open>Two hosts whose names become the same once dots and dashes are underscores get the same rule name, and a merged rule joins every binary with every endpoint:
  approving the proposals for two binaries, each for its own host, permits the first binary's connections to the second one's host, which nobody
  asked for.\<close>

theorem rule_name_collision_grants:
  assumes "generate_rule_name unicode host1 port = generate_rule_name unicode host2 port" "bin1 \<noteq> []" "bin2 \<noteq> []" "CHR ''*'' \<notin> set bin1"
    and "host1 \<noteq> []" "host2 \<noteq> []" "CHR ''*'' \<notin> set host1" "CHR ''*'' \<notin> set host2" "0 < port"
    and "c1 = proposal_for unicode lookup ((host1, port, bin1), ds1)" "c2 = proposal_for unicode lookup ((host2, port, bin2), ds2)"
    and "pc_proposed_rule c1 = Some rule1" "pc_proposed_rule c2 = Some rule2" "map_of (sp_network_policies p) (pc_rule_name c1) = None"
  shows "connection_permitted B (merge_into (pc_rule_name c2) rule2 (merge_into (pc_rule_name c1) rule1 p)) host2 port bin1 []"
proof -
  obtain e1 where r1: "npr_endpoints rule1 = [e1]" "canonical_ports rule1" "npr_binaries rule1 = [\<lparr>nb_path = bin1, nb_harness = False\<rparr>]"
    using assms(2,5,7,9,10,12) by (auto elim: proposal_parts)
  obtain e2 where r2: "npr_endpoints rule2 = [e2]" "single_port e2" "endpoint_covers B e2 host2 port" "canonical_ports rule2"
    using assms(3,6,8,9,11,13) by (auto elim: proposal_parts)
  let ?name = "generate_rule_name unicode host2 port" and ?p1 = "merge_into (generate_rule_name unicode host2 port) rule1 p"
  have names: "pc_rule_name c1 = ?name" "pc_rule_name c2 = ?name" using assms(1,10,11) by (simp_all add: proposal_rule(2))
  have get: "map_of (sp_network_policies ?p1) ?name = Some rule1"
    using assms(14) names by (simp add: merge_into_def hm_insert_def update_conv')
  have "(?name, merge_rule rule2 rule1) \<in> set (sp_network_policies (merge_into ?name rule2 ?p1))"
    using merge_into_entry [where name = ?name and p = ?p1 and rule = rule2] get by simp
  moreover have "\<exists>e'\<in>set (npr_endpoints (merge_rule rule2 rule1)). endpoint_covers B e' host2 port"
    using merged_endpoint [of e2 rule2 B host2 port rule1] r1 r2 by simp
  moreover have "\<lparr>nb_path = bin1, nb_harness = False\<rparr> \<in> set (npr_binaries (merge_rule rule2 rule1))"
    using r1(3) by (auto simp: merge_rule_def intro: push_missing_old)
  moreover have "binary_covers B bin1 bin1 []" using assms(4) by (simp add: binary_covers_def)
  ultimately have "rule_covers B (merge_rule rule2 rule1) host2 port bin1 []" by (force simp: rule_covers_def)
  then show ?thesis
    using \<open>(?name, merge_rule rule2 rule1) \<in> _\<close> by (force simp: connection_permitted_def names)
qed

definition dash_chunk :: policy_chunk where
  "dash_chunk = proposal_for (\<lambda>_. False) (\<lambda>_ _. Inl []) ((''a-b.com'', 443, ''/usr/bin/curl''), [])"

definition dot_chunk :: policy_chunk where
  "dot_chunk = proposal_for (\<lambda>_. False) (\<lambda>_ _. Inl []) ((''a.b.com'', 443, ''/usr/bin/git''), [])"

theorem rule_name_collision_grants_witness:
  "\<exists>rule1 rule2. pc_proposed_rule dash_chunk = Some rule1 \<and> pc_proposed_rule dot_chunk = Some rule2 \<and>
     connection_permitted literal_builtins (merge_into (pc_rule_name dot_chunk) rule2 (merge_into (pc_rule_name dash_chunk) rule1
     (quickstart_policy\<lparr>sp_network_policies := []\<rparr>))) ''a.b.com'' 443 ''/usr/bin/curl'' []"
proof -
  have "generate_rule_name (\<lambda>_. False) ''a-b.com'' 443 = generate_rule_name (\<lambda>_. False) ''a.b.com'' 443" by code_simp
  moreover obtain rule1 rule2 where "pc_proposed_rule dash_chunk = Some rule1" "pc_proposed_rule dot_chunk = Some rule2"
    by (simp add: dash_chunk_def dot_chunk_def proposal_rule)
  ultimately show ?thesis
    using rule_name_collision_grants [OF _ _ _ _ _ _ _ _ _ dash_chunk_def dot_chunk_def, of rule1 rule2 "quickstart_policy\<lparr>sp_network_policies := []\<rparr>" literal_builtins]
    by simp
qed

section \<open>Requests\<close>

definition glob_meta :: "char set" where
  "glob_meta = set ''*?[]{}'' \<union> {CHR 0x5C}"

text \<open>A pattern without special characters matches itself only.\<close>

definition literal_glob_law :: "builtins \<Rightarrow> bool" where
  "literal_glob_law B \<longleftrightarrow> (\<forall>pat seps s. set pat \<inter> glob_meta = {} \<longrightarrow> rb_glob B pat seps s = (pat = s))"

lemma split_char_hd_id: "hd (split_char c s) = s \<longleftrightarrow> c \<notin> set s"
  using split_char_no_sep [of "hd (split_char c s)" c s] split_char_single [of c s] by auto

text \<open>The rule recommended for a refused request permits that request exactly when its target has no query: the mapper strips the query, the engine compares the whole target.
  (For a path without special characters whose last segment does not look like an identifier.)\<close>

theorem recommended_rule_permits_iff:
  assumes "literal_glob_law B" "set (generalise_path raw) \<inter> glob_meta = {}"
    and "\<not> looks_like_id (last (split_char (CHR ''/'') (hd (split_char (CHR ''?'') raw))))"
  shows "endpoint_permits B (proposed_endpoint host port True (build_l7_rules [(meth, raw)]) ips) meth raw \<longleftrightarrow> CHR ''?'' \<notin> set raw"
proof -
  have g: "generalise_path raw = hd (split_char (CHR ''?'') raw)" using assms(3) by (simp add: generalise_path_def Let_def)
  have "generalise_path raw = raw \<longleftrightarrow> CHR ''?'' \<notin> set raw" unfolding g by (rule split_char_hd_id)
  moreover have "effective_rules (proposed_endpoint host port True (build_l7_rules [(meth, raw)]) ips) = [(meth, generalise_path raw)]"
    by (simp add: effective_rules_def proposed_endpoint_def build_l7_rules_def rule_pair_def)
  moreover have "generalise_path raw \<noteq> ''**''" using assms(2) by (auto simp: glob_meta_def)
  ultimately show ?thesis using assms(1,2) by (simp add: endpoint_permits_def pair_permits_def literal_glob_law_def)
qed

theorem recommended_rule_permits_iff_witness:
  "\<not> endpoint_permits literal_builtins (proposed_endpoint ''h'' 443 True (build_l7_rules [(''GET'', ''/search?q=1'')]) []) ''GET'' ''/search?q=1''
   \<and> set (generalise_path ''/search?q=1'') \<inter> glob_meta = {}"
proof -
  have "generalise_path ''/search?q=1'' = ''/search''" "split_char (CHR ''?'') ''/search?q=1'' = [''/search'', ''q=1'']"
    "\<not> looks_like_id (last (split_char (CHR ''/'') ''/search''))" by code_simp+
  then show ?thesis
    using recommended_rule_permits_iff [of literal_builtins "''/search?q=1''" "''h''" 443 "''GET''" "[]"]
    by (simp add: literal_glob_law_def literal_builtins_def glob_meta_def)
qed

end
