(* ===== verification/Runtime_Policy.thy ===== *)
theory Runtime_Policy
  imports Opa_Engine Ip_Guard
begin

text \<open>
  The policy the supervisor runs with, \<open>crates/clustershell-sandbox/src/policy.rs\<close>: its types, the conversion from the
  protobuf policy and the baseline paths that \<open>lib.rs\<close> adds to either form. A \<open>PathBuf\<close> is modelled by its bytes;
  comparing two of them compares their components.
\<close>

section \<open>Types\<close>

datatype network_mode = ModeBlock | ModeProxy | ModeAllow

text \<open>\<open>ProxyPolicy\<close> has one field, the address of a local proxy.\<close>

record proxy_policy =
  px_http_addr :: "(ip_addr \<times> nat) option"

record network_policy =
  nw_mode :: network_mode
  nw_proxy :: "proxy_policy option"

record rt_filesystem =
  rf_read_only :: "bytes list"
  rf_read_write :: "bytes list"
  rf_include_workdir :: bool

record rt_process =
  rt_run_as_user :: "bytes option"
  rt_run_as_group :: "bytes option"

record runtime_policy =
  rp_version :: nat
  rp_filesystem :: rt_filesystem
  rp_network :: network_policy
  rp_landlock :: landlock_compatibility
  rp_process :: rt_process

definition proxy_network :: network_policy where
  "proxy_network = \<lparr>nw_mode = ModeProxy, nw_proxy = Some \<lparr>px_http_addr = None\<rparr>\<rparr>"

section \<open>Conversion\<close>

definition filesystem_of_proto :: "filesystem_policy \<Rightarrow> rt_filesystem" where
  "filesystem_of_proto p =
     \<lparr>rf_read_only = map normalize_path (fs_read_only p), rf_read_write = map normalize_path (fs_read_write p),
      rf_include_workdir = fs_include_workdir p\<rparr>"

definition default_filesystem :: rt_filesystem where
  "default_filesystem = \<lparr>rf_read_only = [], rf_read_write = [], rf_include_workdir = True\<rparr>"

definition landlock_of_proto :: "landlock_policy \<Rightarrow> landlock_compatibility" where
  "landlock_of_proto p = (if ll_compatibility p = ''hard_requirement'' then HardRequirement else BestEffort)"

definition process_of_proto :: "process_policy \<Rightarrow> rt_process" where
  "process_of_proto p =
     \<lparr>rt_run_as_user = (if pp_run_as_user p = [] then None else Some (pp_run_as_user p)),
      rt_run_as_group = (if pp_run_as_group p = [] then None else Some (pp_run_as_group p))\<rparr>"

text \<open>\<open>SandboxPolicy::try_from\<close> never fails.\<close>

definition runtime_of_proto :: "sandbox_policy \<Rightarrow> runtime_policy" where
  "runtime_of_proto p =
     \<lparr>rp_version = sp_version p,
      rp_filesystem = (case sp_filesystem p of None \<Rightarrow> default_filesystem | Some f \<Rightarrow> filesystem_of_proto f),
      rp_network = proxy_network,
      rp_landlock = (case sp_landlock p of None \<Rightarrow> BestEffort | Some l \<Rightarrow> landlock_of_proto l),
      rp_process = (case sp_process p of None \<Rightarrow> \<lparr>rt_run_as_user = None, rt_run_as_group = None\<rparr> | Some q \<Rightarrow> process_of_proto q)\<rparr>"

definition runtime_of_config :: "sandbox_config \<Rightarrow> runtime_policy" where
  "runtime_of_config c =
     \<lparr>rp_version = 1,
      rp_filesystem = \<lparr>rf_read_only = sc_read_only c, rf_read_write = sc_read_write c, rf_include_workdir = sc_include_workdir c\<rparr>,
      rp_network = proxy_network, rp_landlock = sc_landlock c,
      rp_process = \<lparr>rt_run_as_user = sc_run_as_user c, rt_run_as_group = sc_run_as_group c\<rparr>\<rparr>"

section \<open>Baseline paths\<close>

definition PROXY_BASELINE_READ_ONLY :: "bytes list" where
  "PROXY_BASELINE_READ_ONLY = [''/usr'', ''/lib'', ''/etc'', ''/app'', ''/var/log'']"

definition PROXY_BASELINE_READ_WRITE :: "bytes list" where
  "PROXY_BASELINE_READ_WRITE = [''/sandbox'', ''/tmp'']"

text \<open>One of the loops: every baseline path that no present path equals, by a given comparison, is pushed.\<close>

definition push_missing_paths :: "(bytes \<Rightarrow> bytes \<Rightarrow> bool) \<Rightarrow> bytes list \<Rightarrow> bytes list \<Rightarrow> bool \<times> bytes list" where
  "push_missing_paths same baseline present =
     fold (\<lambda>p (modified, ps). if list_ex (same p) ps then (modified, ps) else (True, ps @ [p])) baseline (False, present)"

definition enrich_proto_baseline_paths :: "sandbox_policy \<Rightarrow> bool \<times> sandbox_policy" where
  "enrich_proto_baseline_paths proto =
     (if sp_network_policies proto = [] then (False, proto)
      else let fs = (case sp_filesystem proto of
                       None \<Rightarrow> \<lparr>fs_include_workdir = True, fs_read_only = [], fs_read_write = []\<rparr> | Some f \<Rightarrow> f);
               (m1, ro) = push_missing_paths (=) PROXY_BASELINE_READ_ONLY (fs_read_only fs);
               (m2, rw) = push_missing_paths (=) PROXY_BASELINE_READ_WRITE (fs_read_write fs) in
           (m1 \<or> m2, proto\<lparr>sp_filesystem := Some (fs\<lparr>fs_read_only := ro, fs_read_write := rw\<rparr>)\<rparr>))"

definition same_path :: "bytes \<Rightarrow> bytes \<Rightarrow> bool" where
  "same_path p q \<longleftrightarrow> path_components p = path_components q"

definition enrich_sandbox_baseline_paths :: "runtime_policy \<Rightarrow> runtime_policy" where
  "enrich_sandbox_baseline_paths policy =
     (if nw_mode (rp_network policy) \<noteq> ModeProxy then policy
      else let fs = rp_filesystem policy in
           policy\<lparr>rp_filesystem := fs\<lparr>
             rf_read_only := snd (push_missing_paths same_path PROXY_BASELINE_READ_ONLY (rf_read_only fs)),
             rf_read_write := snd (push_missing_paths same_path PROXY_BASELINE_READ_WRITE (rf_read_write fs))\<rparr>\<rparr>)"

section \<open>Facts\<close>

text \<open>
  What the loop promises, whatever the comparison: the present paths stay, in front; every baseline path has an equal;
  nothing else is added; and the flag tells whether anything was.
\<close>

locale path_comparison =
  fixes same :: "bytes \<Rightarrow> bytes \<Rightarrow> bool"
  assumes same_refl: "same p p"
begin

lemma push_spec:
  "fold (\<lambda>p (modified, ps). if list_ex (same p) ps then (modified, ps) else (True, ps @ [p])) baseline (m, present) = (m', ps) \<Longrightarrow>
     \<exists>added. ps = present @ added \<and> set added \<subseteq> set baseline \<and> (m' \<longleftrightarrow> m \<or> added \<noteq> [])
       \<and> (\<forall>p\<in>set baseline. list_ex (same p) ps)"
proof (induction baseline arbitrary: m present)
  case (Cons p baseline)
  show ?case
  proof (cases "list_ex (same p) present")
    case True
    with Cons.prems have "fold (\<lambda>p (modified, ps). if list_ex (same p) ps then (modified, ps) else (True, ps @ [p])) baseline (m, present) = (m', ps)"
      by simp
    from Cons.IH [OF this] True show ?thesis by auto
  next
    case False
    with Cons.prems have "fold (\<lambda>p (modified, ps). if list_ex (same p) ps then (modified, ps) else (True, ps @ [p])) baseline (True, present @ [p]) = (m', ps)"
      by simp
    from Cons.IH [OF this] obtain added where "ps = (present @ [p]) @ added" "set added \<subseteq> set baseline" "m'"
      "\<forall>p\<in>set baseline. list_ex (same p) ps" by auto
    then show ?thesis using same_refl [of p] by (intro exI [of _ "p # added"]) auto
  qed
qed simp

lemma push_missing_paths_spec:
  obtains added where "snd (push_missing_paths same baseline present) = present @ added" "set added \<subseteq> set baseline"
    "fst (push_missing_paths same baseline present) \<longleftrightarrow> added \<noteq> []"
    "\<forall>p\<in>set baseline. list_ex (same p) (snd (push_missing_paths same baseline present))"
proof -
  obtain m ps where e: "push_missing_paths same baseline present = (m, ps)" by fastforce
  from push_spec [OF e [unfolded push_missing_paths_def]] that show thesis by (auto simp: e)
qed

lemma push_nothing_missing:
  "\<forall>p\<in>set baseline. list_ex (same p) present \<Longrightarrow> push_missing_paths same baseline present = (False, present)"
proof -
  have "\<forall>p\<in>set baseline. list_ex (same p) present \<Longrightarrow>
      fold (\<lambda>p (modified, ps). if list_ex (same p) ps then (modified, ps) else (True, ps @ [p])) baseline (False, present) = (False, present)"
    by (induction baseline) auto
  then show "\<forall>p\<in>set baseline. list_ex (same p) present \<Longrightarrow> ?thesis" by (simp add: push_missing_paths_def)
qed

lemma push_keeps: "p \<in> set present \<Longrightarrow> p \<in> set (snd (push_missing_paths same baseline present))"
  by (rule push_missing_paths_spec [of baseline present]) simp

lemma push_adds_baseline: "p \<in> set (snd (push_missing_paths same baseline present)) \<Longrightarrow> p \<in> set present \<or> p \<in> set baseline"
  by (rule push_missing_paths_spec [of baseline present]) auto

lemma push_covers: "p \<in> set baseline \<Longrightarrow> \<exists>q\<in>set (snd (push_missing_paths same baseline present)). same p q"
  by (rule push_missing_paths_spec [of baseline present]) (auto simp: list_ex_iff)

lemma push_twice:
  "push_missing_paths same baseline (snd (push_missing_paths same baseline present)) =
     (False, snd (push_missing_paths same baseline present))"
  by (rule push_nothing_missing, rule push_missing_paths_spec [of baseline present])

end

interpretation text_eq: path_comparison "(=)"
  by unfold_locales simp

interpretation path_eq: path_comparison same_path
  by unfold_locales (simp add: same_path_def)

text \<open>Enriching an enriched policy changes nothing.\<close>

lemma enrich_proto_idempotent:
  "enrich_proto_baseline_paths (snd (enrich_proto_baseline_paths p)) = (False, snd (enrich_proto_baseline_paths p))"
  by (simp add: enrich_proto_baseline_paths_def Let_def split_beta text_eq.push_twice split: option.splits)

end
