(* ===== verification/Confinement.thy ===== *)
theory Confinement
  imports Runtime_Policy
begin

text \<open>
  How the sandbox's processes are confined before they run: \<open>drop_privileges\<close> and the entrypoint's \<open>spawn\<close> of
  \<open>process.rs\<close>, the environment of \<open>child_env.rs\<close>, and Landlock and seccomp of \<open>sandbox/linux\<close>
  (all under \<open>crates/clustershell-sandbox/src\<close>). System calls and the \<open>landlock\<close> and \<open>seccompiler\<close> crates are parameters;
  credentials are also given POSIX's own rules, so that what a dropped process can still do is a theorem.
\<close>

section \<open>Users and credentials\<close>

record user_entry =
  ue_name :: bytes
  ue_uid :: nat
  ue_gid :: nat
  ue_dir :: bytes

record group_entry =
  ge_name :: bytes
  ge_gid :: nat

text \<open>The calls of \<open>nix::unistd\<close> over the credentials of the calling process; a failing call changes nothing.\<close>

record 'c unistd =
  geteuid :: "'c \<Rightarrow> nat"
  getegid :: "'c \<Rightarrow> nat"
  setuid :: "nat \<Rightarrow> 'c \<Rightarrow> (report, 'c) result"
  setgid :: "nat \<Rightarrow> 'c \<Rightarrow> (report, 'c) result"
  initgroups :: "bytes \<Rightarrow> nat \<Rightarrow> 'c \<Rightarrow> (report, 'c) result"
  user_from_name :: "bytes \<Rightarrow> (report, user_entry option) result"
  user_from_uid :: "nat \<Rightarrow> (report, user_entry option) result"
  group_from_name :: "bytes \<Rightarrow> (report, group_entry option) result"
  group_from_gid :: "nat \<Rightarrow> (report, group_entry option) result"

text \<open>A name that is set and not empty.\<close>

definition nonempty_name :: "bytes option \<Rightarrow> bytes option" where
  "nonempty_name n = (case n of Some name \<Rightarrow> if name \<noteq> [] then Some name else None | None \<Rightarrow> None)"

definition drop_user :: "'c unistd \<Rightarrow> bytes option \<Rightarrow> 'c \<Rightarrow> (report, user_entry) result" where
  "drop_user os user_name c =
     (case user_name of
        Some name \<Rightarrow> result_bind (user_from_name os name) (ok_or (''Sandbox user not found: '' @ name))
      | None \<Rightarrow> result_bind (user_from_uid os (geteuid os c)) (ok_or ''Failed to resolve current user''))"

definition drop_group :: "'c unistd \<Rightarrow> bytes option \<Rightarrow> user_entry \<Rightarrow> (report, group_entry) result" where
  "drop_group os group_name user =
     (case group_name of
        Some name \<Rightarrow> result_bind (group_from_name os name) (ok_or (''Sandbox group not found: '' @ name))
      | None \<Rightarrow> result_bind (group_from_gid os (ue_gid user)) (ok_or ''Failed to resolve user primary group''))"

text \<open>The user's identity is set last and verified; then root must be out of reach.\<close>

definition switch_user :: "'c unistd \<Rightarrow> nat \<Rightarrow> 'c \<Rightarrow> (report, 'c) result" where
  "switch_user os uid c =
     result_bind (setuid os uid c) (\<lambda>c3.
       if geteuid os c3 \<noteq> uid then
         Inl (''Privilege drop verification failed: expected effective UID '' @ show_nat uid @ '', got '' @ show_nat (geteuid os c3))
       else case setuid os 0 c3 of
              Inl _ \<Rightarrow> Inr c3
            | Inr c4 \<Rightarrow>
                (if uid \<noteq> 0 then
                   Inl (''Privilege drop verification failed: process can still re-acquire root (UID 0) after switching to UID '' @ show_nat uid)
                 else Inr c4))"

definition switch_group :: "'c unistd \<Rightarrow> nat \<Rightarrow> 'c \<Rightarrow> (report, 'c) result" where
  "switch_group os gid c =
     result_bind (setgid os gid c) (\<lambda>c2.
       if getegid os c2 \<noteq> gid then
         Inl (''Privilege drop verification failed: expected effective GID '' @ show_nat gid @ '', got '' @ show_nat (getegid os c2))
       else Inr c2)"

definition drop_named :: "'c unistd \<Rightarrow> bytes option \<Rightarrow> bytes option \<Rightarrow> 'c \<Rightarrow> (report, 'c) result" where
  "drop_named os user_name group_name c =
     result_bind (drop_user os user_name c) (\<lambda>user.
     result_bind (drop_group os group_name user) (\<lambda>group.
     result_bind (if user_name \<noteq> None then
                    (if CHR 0x00 \<in> set (ue_name user) then Inl ''Invalid user name''
                     else initgroups os (ue_name user) (ge_gid group) c)
                  else Inr c) (\<lambda>c1.
     result_bind (switch_group os (ge_gid group) c1) (\<lambda>c2.
       if user_name \<noteq> None then switch_user os (ue_uid user) c2 else Inr c2))))"

text \<open>The recursive call names both, so it ends there.\<close>

definition drop_privileges :: "'c unistd \<Rightarrow> rt_process \<Rightarrow> 'c \<Rightarrow> (report, 'c) result" where
  "drop_privileges os process c =
     (let user_name = nonempty_name (rt_run_as_user process); group_name = nonempty_name (rt_run_as_group process) in
      if user_name = None \<and> group_name = None then
        (if geteuid os c = 0 then drop_named os (Some ''sandbox'') (Some ''sandbox'') c else Inr c)
      else drop_named os user_name group_name c)"

text \<open>\<open>validate_sandbox_user\<close> of \<open>lib.rs\<close>.\<close>

definition validate_sandbox_user :: "'c unistd \<Rightarrow> runtime_policy \<Rightarrow> (report, unit) result" where
  "validate_sandbox_user os policy =
     (let user_name = (case rt_run_as_user (rp_process policy) of None \<Rightarrow> ''sandbox'' | Some u \<Rightarrow> u) in
      if user_name = [] \<or> user_name = ''sandbox'' then
        (case user_from_name os ''sandbox'' of
           Inr (Some _) \<Rightarrow> Inr ()
         | Inr None \<Rightarrow> Inl ''sandbox user 'sandbox' not found in image; all sandbox images must include a 'sandbox' user and group''
         | Inl e \<Rightarrow> Inl (''failed to look up 'sandbox' user: '' @ e))
      else Inr ())"

section \<open>Landlock\<close>

datatype access_fs = AccessRead | AccessAll

datatype ruleset_status = FullyEnforced | PartiallyEnforced | NotEnforced

text \<open>
  The kernel as the child sees it before \<open>exec\<close>. Opening a path may depend on the credentials. The status of an enforced
  ruleset is returned by the crate; the code does not look at it.
\<close>

record ('c, 'l) kernel =
  kn_setns :: "nat \<Rightarrow> (report, unit) result"
  kn_handle_access :: "landlock_compatibility \<Rightarrow> (report, unit) result"
  kn_create :: "(report, unit) result"
  kn_path_fd :: "'c \<Rightarrow> bytes \<Rightarrow> (report, 'l) result"
  kn_add_rule :: "'l \<Rightarrow> access_fs \<Rightarrow> (report, unit) result"
  kn_restrict_self :: "landlock_compatibility \<Rightarrow> (report, ruleset_status) result"
  kn_no_new_privs :: "(report, unit) result"
  kn_arch_supported :: bool
  kn_apply_filter :: "(report, unit) result"

text \<open>The allow lists, the working directory among the writable ones.\<close>

definition landlock_read_write :: "rt_filesystem \<Rightarrow> bytes option \<Rightarrow> bytes list" where
  "landlock_read_write fs workdir =
     (case workdir of
        Some dir \<Rightarrow> (if rf_include_workdir fs \<and> \<not> list_ex (same_path dir) (rf_read_write fs) then rf_read_write fs @ [dir]
                     else rf_read_write fs)
      | None \<Rightarrow> rf_read_write fs)"

fun landlock_add_rules :: "('c, 'l) kernel \<Rightarrow> 'c \<Rightarrow> (bytes \<times> access_fs) list \<Rightarrow> (report, ('l \<times> access_fs) list) result" where
  "landlock_add_rules k c [] = Inr []"
| "landlock_add_rules k c ((path, access) # rules) =
     result_bind (kn_path_fd k c path) (\<lambda>l.
     result_bind (kn_add_rule k l access) (\<lambda>_.
     result_bind (landlock_add_rules k c rules) (\<lambda>ls. Inr ((l, access) # ls))))"

definition landlock_wanted :: "rt_filesystem \<Rightarrow> bytes option \<Rightarrow> (bytes \<times> access_fs) list" where
  "landlock_wanted fs workdir =
     map (\<lambda>p. (p, AccessRead)) (rf_read_only fs) @ map (\<lambda>p. (p, AccessAll)) (landlock_read_write fs workdir)"

definition landlock_ruleset ::
  "('c, 'l) kernel \<Rightarrow> runtime_policy \<Rightarrow> bytes option \<Rightarrow> 'c \<Rightarrow> (report, ruleset_status \<times> ('l \<times> access_fs) list) result" where
  "landlock_ruleset k policy workdir c =
     result_bind (kn_handle_access k (rp_landlock policy)) (\<lambda>_.
     result_bind (kn_create k) (\<lambda>_.
     result_bind (landlock_add_rules k c (landlock_wanted (rp_filesystem policy) workdir)) (\<lambda>ls.
     result_bind (kn_restrict_self k (rp_landlock policy)) (\<lambda>status. Inr (status, ls)))))"

text \<open>\<open>landlock::apply\<close>: the ruleset the process ends up under, \<^const>\<open>None\<close> when it is under none.\<close>

definition landlock_apply ::
  "('c, 'l) kernel \<Rightarrow> runtime_policy \<Rightarrow> bytes option \<Rightarrow> 'c
     \<Rightarrow> (report, (ruleset_status \<times> ('l \<times> access_fs) list) option) result" where
  "landlock_apply k policy workdir c =
     (if rf_read_only (rp_filesystem policy) = [] \<and> landlock_read_write (rp_filesystem policy) workdir = [] then Inr None
      else case landlock_ruleset k policy workdir c of
             Inr rs \<Rightarrow> Inr (Some rs)
           | Inl err \<Rightarrow> (if rp_landlock policy = BestEffort then Inr None else Inl err))"

section \<open>seccomp\<close>

definition SYS_socket :: int where "SYS_socket = 41"
definition AF_INET :: nat where "AF_INET = 2"
definition AF_INET6 :: nat where "AF_INET6 = 10"
definition AF_NETLINK :: nat where "AF_NETLINK = 16"
definition AF_PACKET :: nat where "AF_PACKET = 17"
definition AF_BLUETOOTH :: nat where "AF_BLUETOOTH = 31"
definition AF_VSOCK :: nat where "AF_VSOCK = 40"

text \<open>A condition compares the low 32 bits of an argument; a rule is a conjunction of conditions.\<close>

record seccomp_condition =
  sk_arg :: nat
  sk_equals :: nat

type_synonym seccomp_rules = "(int \<times> seccomp_condition list list) list"

definition add_socket_domain_rule :: "nat \<Rightarrow> seccomp_rules \<Rightarrow> seccomp_rules" where
  "add_socket_domain_rule domain rules =
     bt_insert SYS_socket ((case map_of rules SYS_socket of None \<Rightarrow> [] | Some rs \<Rightarrow> rs) @ [[\<lparr>sk_arg = 0, sk_equals = domain\<rparr>]]) rules"

definition blocked_domains :: "bool \<Rightarrow> nat list" where
  "blocked_domains allow_inet =
     [AF_PACKET, AF_BLUETOOTH, AF_VSOCK] @ (if allow_inet then [] else [AF_INET, AF_INET6, AF_NETLINK])"

definition build_filter :: "bool \<Rightarrow> bool \<Rightarrow> (report, seccomp_rules) result" where
  "build_filter arch_supported allow_inet =
     (let rules = fold add_socket_domain_rule (blocked_domains allow_inet) [] in
      if arch_supported then Inr rules else Inl ''Unsupported architecture for seccomp'')"

definition seccomp_apply :: "('c, 'l) kernel \<Rightarrow> runtime_policy \<Rightarrow> (report, seccomp_rules option) result" where
  "seccomp_apply k policy =
     (if nw_mode (rp_network policy) = ModeAllow then Inr None
      else result_bind (build_filter (kn_arch_supported k) (nw_mode (rp_network policy) = ModeProxy)) (\<lambda>filter.
           result_bind (result_map_err (\<lambda>e. ''Failed to set no_new_privs: '' @ e) (kn_no_new_privs k)) (\<lambda>_.
           result_bind (kn_apply_filter k) (\<lambda>_. Inr (Some filter)))))"

text \<open>
  What a filter means, as \<open>seccompiler\<close> documents it: a call matches when all conditions of one of its rules hold, and is
  then answered with the match action, here the error \<open>EPERM\<close>; every other call is allowed.
\<close>

definition seccomp_refuses :: "seccomp_rules \<Rightarrow> int \<Rightarrow> 64 word list \<Rightarrow> bool" where
  "seccomp_refuses rules nr args =
     (case map_of rules nr of
        None \<Rightarrow> False
      | Some rs \<Rightarrow> list_ex (list_all (\<lambda>cd. unat (args ! sk_arg cd) mod 2 ^ 32 = sk_equals cd)) rs)"

section \<open>Before exec\<close>

record ('c, 'l) confined =
  cf_netns :: "nat option"
  cf_creds :: 'c
  cf_landlock :: "(ruleset_status \<times> ('l \<times> access_fs) list) option"
  cf_seccomp :: "seccomp_rules option"

text \<open>\<open>sandbox::apply\<close> after \<open>drop_privileges\<close> after \<open>setns\<close>: the hook of SSH children, \<open>enter_netns_and_sandbox\<close>.\<close>

definition enter_netns_and_sandbox ::
  "('c, 'l) kernel \<Rightarrow> 'c unistd \<Rightarrow> nat option \<Rightarrow> runtime_policy \<Rightarrow> bytes option \<Rightarrow> 'c \<Rightarrow> (report, ('c, 'l) confined) result" where
  "enter_netns_and_sandbox k os netns_fd policy workdir c =
     result_bind (case netns_fd of Some fd \<Rightarrow> kn_setns k fd | None \<Rightarrow> Inr ()) (\<lambda>_.
     result_bind (drop_privileges os (rp_process policy) c) (\<lambda>c'.
     result_bind (landlock_apply k policy workdir c') (\<lambda>landlock.
     result_bind (seccomp_apply k policy) (\<lambda>seccomp.
       Inr \<lparr>cf_netns = netns_fd, cf_creds = c', cf_landlock = landlock, cf_seccomp = seccomp\<rparr>))))"

section \<open>Environment\<close>

type_synonym env_vars = "(bytes \<times> bytes) list"

definition env_all :: "env_vars \<Rightarrow> env_vars \<Rightarrow> env_vars" where
  "env_all kvs env = fold (\<lambda>(key, v). hm_insert key v) kvs env"

definition LOCAL_NO_PROXY :: bytes where
  "LOCAL_NO_PROXY = ''127.0.0.1,localhost,::1''"

definition proxy_env_vars :: "bytes \<Rightarrow> env_vars" where
  "proxy_env_vars proxy_url =
     [(''ALL_PROXY'', proxy_url), (''HTTP_PROXY'', proxy_url), (''HTTPS_PROXY'', proxy_url), (''NO_PROXY'', LOCAL_NO_PROXY),
      (''http_proxy'', proxy_url), (''https_proxy'', proxy_url), (''no_proxy'', LOCAL_NO_PROXY), (''grpc_proxy'', proxy_url),
      (''NODE_USE_ENV_PROXY'', ''1'')]"

definition tls_env_vars :: "bytes \<Rightarrow> bytes \<Rightarrow> env_vars" where
  "tls_env_vars ca_cert_path combined_bundle_path =
     [(''NODE_EXTRA_CA_CERTS'', ca_cert_path), (''SSL_CERT_FILE'', combined_bundle_path),
      (''REQUESTS_CA_BUNDLE'', combined_bundle_path), (''CURL_CA_BUNDLE'', combined_bundle_path)]"

definition SSH_HANDSHAKE_SECRET_ENV :: bytes where
  "SSH_HANDSHAKE_SECRET_ENV = ''CLUSTERSHELL_SSH_HANDSHAKE_SECRET''"

definition scrub_sensitive_env :: "env_vars \<Rightarrow> env_vars" where
  "scrub_sensitive_env env = hm_remove SSH_HANDSHAKE_SECRET_ENV env"

definition inject_provider_env :: "env_vars \<Rightarrow> env_vars \<Rightarrow> env_vars" where
  "inject_provider_env provider_env env = env_all provider_env env"

text \<open>\<open>Display\<close> of a socket address.\<close>

fun show_socket_addr :: "ip_addr \<times> nat \<Rightarrow> bytes" where
  "show_socket_addr (V4 a, port) = show_ip (V4 a) @ '':'' @ show_nat port"
| "show_socket_addr (V6 a, port) = ''['' @ show_ip (V6 a) @ '']:'' @ show_nat port"

definition proxy_vars_for :: "runtime_policy \<Rightarrow> nat option \<Rightarrow> (report, env_vars) result" where
  "proxy_vars_for policy netns_fd =
     (if nw_mode (rp_network policy) = ModeProxy then
        result_bind (ok_or ''Network mode is set to proxy but no proxy configuration was provided'' (nw_proxy (rp_network policy))) (\<lambda>proxy.
          if netns_fd \<noteq> None then
            Inr (proxy_env_vars (''http://10.200.0.1:'' @ show_nat (case px_http_addr proxy of None \<Rightarrow> 3128 | Some a \<Rightarrow> snd a)))
          else case px_http_addr proxy of
                 Some a \<Rightarrow> Inr (proxy_env_vars (''http://'' @ show_socket_addr a))
               | None \<Rightarrow> Inr [])
      else Inr [])"

definition ca_vars :: "(bytes \<times> bytes) option \<Rightarrow> env_vars" where
  "ca_vars ca_paths = (case ca_paths of None \<Rightarrow> [] | Some (ca, bundle) \<Rightarrow> tls_env_vars ca bundle)"

definition spawn_env :: "env_vars \<Rightarrow> env_vars \<Rightarrow> env_vars \<Rightarrow> (bytes \<times> bytes) option \<Rightarrow> env_vars" where
  "spawn_env inherited provider_env proxy_vars ca_paths =
     env_all (ca_vars ca_paths) (env_all proxy_vars (inject_provider_env provider_env
       (scrub_sensitive_env (hm_insert ''CLUSTERSHELL_SANDBOX'' ''1'' inherited))))"

section \<open>Spawning the entrypoint\<close>

record ('c, 'l) child =
  ch_program :: bytes
  ch_args :: "bytes list"
  ch_env :: env_vars
  ch_workdir :: "bytes option"
  ch_own_group :: bool
  ch_confined :: "('c, 'l) confined"

text \<open>
  \<open>spawn_impl\<close>: an error of the hook, or of \<open>fork\<close> and \<open>exec\<close> (\<open>exec_error\<close>), is the error of the spawn. The hook is written
  out in \<open>process.rs\<close> with the calls of \<open>enter_netns_and_sandbox\<close> after \<open>setpgid\<close>.
\<close>

definition spawn_impl ::
  "('c, 'l) kernel \<Rightarrow> 'c unistd \<Rightarrow> report option \<Rightarrow> env_vars \<Rightarrow> bytes \<Rightarrow> bytes list \<Rightarrow> bytes option \<Rightarrow> bool \<Rightarrow> runtime_policy
     \<Rightarrow> nat option \<Rightarrow> (bytes \<times> bytes) option \<Rightarrow> env_vars \<Rightarrow> 'c \<Rightarrow> (report, ('c, 'l) child) result" where
  "spawn_impl k os exec_error inherited program args workdir interactive policy netns_fd ca_paths provider_env c =
     result_bind (proxy_vars_for policy netns_fd) (\<lambda>proxy_vars.
     result_bind (enter_netns_and_sandbox k os netns_fd policy workdir c) (\<lambda>cf.
       case exec_error of
         Some e \<Rightarrow> Inl e
       | None \<Rightarrow> Inr \<lparr>ch_program = program, ch_args = args, ch_env = spawn_env inherited provider_env proxy_vars ca_paths,
                      ch_workdir = workdir, ch_own_group = (\<not> interactive), ch_confined = cf\<rparr>))"

text \<open>\<open>ProcessStatus\<close>: the exit code of the run.\<close>

record process_status =
  ps_code :: "int option"
  ps_signal :: "int option"

definition status_code_of :: "process_status \<Rightarrow> int" where
  "status_code_of s = (case ps_code s of Some n \<Rightarrow> n | None \<Rightarrow> (case ps_signal s of Some n \<Rightarrow> 128 + n | None \<Rightarrow> -1))"

definition status_success :: "process_status \<Rightarrow> bool" where
  "status_success s \<longleftrightarrow> ps_code s = Some 0"

section \<open>Facts: the code's own checks\<close>

text \<open>
  Whatever the system calls do, a drop that succeeds has verified its result: the effective identity is the named user's, and
  where that is not root, root is out of reach by \<open>setuid\<close>.
\<close>

lemma switch_user_Inr:
  "switch_user os uid c = Inr c' \<Longrightarrow> uid \<noteq> 0 \<Longrightarrow> setuid os uid c = Inr c' \<and> geteuid os c' = uid \<and> (\<exists>e. setuid os 0 c' = Inl e)"
  by (auto simp: switch_user_def split: if_splits sum.splits)

lemma switch_group_Inr: "switch_group os gid c = Inr c' \<longleftrightarrow> setgid os gid c = Inr c' \<and> getegid os c' = gid"
  by (auto simp: switch_group_def split: if_splits)

lemma drop_named_verified:
  assumes "drop_named os (Some name) g c = Inr c'"
  obtains user where "user_from_name os name = Inr (Some user)"
    "ue_uid user \<noteq> 0 \<Longrightarrow> geteuid os c' = ue_uid user \<and> (\<exists>e. setuid os 0 c' = Inl e)"
proof -
  from assms obtain user c2 where u: "user_from_name os name = Inr (Some user)" and s: "switch_user os (ue_uid user) c2 = Inr c'"
    by (auto simp: drop_named_def drop_user_def)
  from that [OF u] switch_user_Inr [OF s] show thesis by blast
qed

text \<open>The name a policy asks for; without one a root supervisor takes the user \<open>sandbox\<close>.\<close>

lemma drop_privileges_named:
  "nonempty_name (rt_run_as_user p) = Some name \<Longrightarrow>
     drop_privileges os p c = drop_named os (Some name) (nonempty_name (rt_run_as_group p)) c"
  by (simp add: drop_privileges_def)

section \<open>Facts: POSIX credentials\<close>

record credentials =
  cr_ruid :: nat
  cr_euid :: nat
  cr_suid :: nat
  cr_rgid :: nat
  cr_egid :: nat
  cr_sgid :: nat
  cr_groups :: "nat list"

text \<open>POSIX: with privileges all three identities change, without them the effective one, to the real or the saved one.\<close>

definition posix_setuid :: "nat \<Rightarrow> credentials \<Rightarrow> (report, credentials) result" where
  "posix_setuid u c =
     (if cr_euid c = 0 then Inr (c\<lparr>cr_ruid := u, cr_euid := u, cr_suid := u\<rparr>)
      else if u = cr_ruid c \<or> u = cr_suid c then Inr (c\<lparr>cr_euid := u\<rparr>)
      else Inl ''EPERM'')"

definition posix_setgid :: "nat \<Rightarrow> credentials \<Rightarrow> (report, credentials) result" where
  "posix_setgid g c =
     (if cr_euid c = 0 then Inr (c\<lparr>cr_rgid := g, cr_egid := g, cr_sgid := g\<rparr>)
      else if g = cr_rgid c \<or> g = cr_sgid c then Inr (c\<lparr>cr_egid := g\<rparr>)
      else Inl ''EPERM'')"

definition posix_initgroups :: "(bytes \<Rightarrow> nat list) \<Rightarrow> bytes \<Rightarrow> nat \<Rightarrow> credentials \<Rightarrow> (report, credentials) result" where
  "posix_initgroups member_of name g c = (if cr_euid c = 0 then Inr (c\<lparr>cr_groups := g # member_of name\<rparr>) else Inl ''EPERM'')"

definition posix_unistd :: "user_entry list \<Rightarrow> group_entry list \<Rightarrow> (bytes \<Rightarrow> nat list) \<Rightarrow> credentials unistd" where
  "posix_unistd passwd groupdb member_of =
     \<lparr>geteuid = cr_euid, getegid = cr_egid, setuid = posix_setuid, setgid = posix_setgid,
      initgroups = posix_initgroups member_of,
      user_from_name = (\<lambda>name. Inr (find (\<lambda>u. ue_name u = name) passwd)),
      user_from_uid = (\<lambda>uid. Inr (find (\<lambda>u. ue_uid u = uid) passwd)),
      group_from_name = (\<lambda>name. Inr (find (\<lambda>g. ge_name g = name) groupdb)),
      group_from_gid = (\<lambda>gid. Inr (find (\<lambda>g. ge_gid g = gid) groupdb))\<rparr>"

text \<open>The process's identity, all three user identities being one.\<close>

definition runs_as :: "nat \<Rightarrow> credentials \<Rightarrow> bool" where
  "runs_as uid c \<longleftrightarrow> cr_ruid c = uid \<and> cr_euid c = uid \<and> cr_suid c = uid"

text \<open>Any calls the process may make afterwards; a failing one changes nothing.\<close>

datatype cred_call = SetUid nat | SetGid nat | InitGroups bytes nat

fun cred_step :: "'c unistd \<Rightarrow> cred_call \<Rightarrow> 'c \<Rightarrow> 'c" where
  "cred_step os (SetUid u) c = (case setuid os u c of Inr c' \<Rightarrow> c' | Inl _ \<Rightarrow> c)"
| "cred_step os (SetGid g) c = (case setgid os g c of Inr c' \<Rightarrow> c' | Inl _ \<Rightarrow> c)"
| "cred_step os (InitGroups n g) c = (case initgroups os n g c of Inr c' \<Rightarrow> c' | Inl _ \<Rightarrow> c)"

lemma posix_simps [simp]:
  "geteuid (posix_unistd pw gr m) = cr_euid" "getegid (posix_unistd pw gr m) = cr_egid"
  "setuid (posix_unistd pw gr m) = posix_setuid" "setgid (posix_unistd pw gr m) = posix_setgid"
  "initgroups (posix_unistd pw gr m) = posix_initgroups m"
  "user_from_name (posix_unistd pw gr m) name = Inr (find (\<lambda>u. ue_name u = name) pw)"
  "user_from_uid (posix_unistd pw gr m) uid = Inr (find (\<lambda>u. ue_uid u = uid) pw)"
  "group_from_name (posix_unistd pw gr m) name = Inr (find (\<lambda>g. ge_name g = name) gr)"
  "group_from_gid (posix_unistd pw gr m) gid = Inr (find (\<lambda>g. ge_gid g = gid) gr)"
  by (simp_all add: posix_unistd_def)

text \<open>What a process that is some user through and through can do to its identity: nothing.\<close>

locale unprivileged_process =
  fixes os :: "'c unistd" and is_user :: "nat \<Rightarrow> 'c \<Rightarrow> bool" and uid :: nat
  assumes setuid_stays: "is_user uid c \<Longrightarrow> setuid os u c = Inr c' \<Longrightarrow> is_user uid c'"
    and setgid_stays: "is_user uid c \<Longrightarrow> setgid os g c = Inr c' \<Longrightarrow> is_user uid c'"
    and initgroups_stays: "is_user uid c \<Longrightarrow> initgroups os n g c = Inr c' \<Longrightarrow> is_user uid c'"
begin

lemma step_stays: "is_user uid c \<Longrightarrow> is_user uid (cred_step os call c)"
  by (cases call) (auto split: sum.splits dest: setuid_stays setgid_stays initgroups_stays)

lemma calls_stay: "is_user uid c \<Longrightarrow> is_user uid (fold (cred_step os) calls c)"
  by (induction calls arbitrary: c) (auto intro: step_stays)

end

interpretation posix_user: unprivileged_process "posix_unistd pw gr m" runs_as "Suc n" for pw gr m n
  by unfold_locales (auto simp: runs_as_def posix_setuid_def posix_setgid_def posix_initgroups_def split: if_splits)

text \<open>A supervisor that is root drops to the named user.\<close>

lemma posix_drop_named:
  assumes root: "cr_euid c = 0" and u: "find (\<lambda>u. ue_name u = name) pw = Some user"
    and g: "drop_group (posix_unistd pw gr m) gname user = Inr grp"
    and nul: "CHR 0x00 \<notin> set (ue_name user)" and uid: "ue_uid user \<noteq> 0"
  shows "drop_named (posix_unistd pw gr m) (Some name) gname c = Inr
    \<lparr>cr_ruid = ue_uid user, cr_euid = ue_uid user, cr_suid = ue_uid user,
     cr_rgid = ge_gid grp, cr_egid = ge_gid grp, cr_sgid = ge_gid grp, cr_groups = ge_gid grp # m (ue_name user)\<rparr>"
  using root u g nul uid
  by (simp add: drop_named_def drop_user_def switch_group_def switch_user_def posix_initgroups_def posix_setuid_def posix_setgid_def)

text \<open>C8: A root supervisor whose policy names a user that is not root ends up as that user and its group, in all three user
  and group identities and in the supplementary groups, and whatever credential calls the process makes afterwards it stays
  that user: root is not regained.\<close>

theorem privileges_dropped_for_good:
  assumes "cr_euid c = 0" "nonempty_name (rt_run_as_user process) = Some name"
    and "find (\<lambda>u. ue_name u = name) passwd = Some user" "ue_uid user \<noteq> 0" "CHR 0x00 \<notin> set name"
    and "drop_group (posix_unistd passwd groupdb member_of) (nonempty_name (rt_run_as_group process)) user = Inr grp"
  shows "\<exists>c'. drop_privileges (posix_unistd passwd groupdb member_of) process c = Inr c'
    \<and> cr_rgid c' = ge_gid grp \<and> cr_egid c' = ge_gid grp \<and> cr_sgid c' = ge_gid grp \<and> cr_groups c' = ge_gid grp # member_of name
    \<and> (\<forall>calls. runs_as (ue_uid user) (fold (cred_step (posix_unistd passwd groupdb member_of)) calls c'))"
proof -
  have n: "ue_name user = name" using find_Some_in [OF assms(3)] by simp
  obtain k where uid: "ue_uid user = Suc k" using assms(4) by (cases "ue_uid user") auto
  define c' where "c' = \<lparr>cr_ruid = ue_uid user, cr_euid = ue_uid user, cr_suid = ue_uid user, cr_rgid = ge_gid grp,
    cr_egid = ge_gid grp, cr_sgid = ge_gid grp, cr_groups = ge_gid grp # member_of name\<rparr>"
  have d: "drop_privileges (posix_unistd passwd groupdb member_of) process c = Inr c'"
    unfolding drop_privileges_named [OF assms(2)] c'_def using posix_drop_named [OF assms(1,3,6)] assms(4,5) by (simp add: n)
  have c': "runs_as (ue_uid user) c'" "cr_rgid c' = ge_gid grp" "cr_egid c' = ge_gid grp" "cr_sgid c' = ge_gid grp"
      "cr_groups c' = ge_gid grp # member_of name" by (simp_all add: c'_def runs_as_def)
  from c'(1) have "runs_as (ue_uid user) (fold (cred_step (posix_unistd passwd groupdb member_of)) calls c')" for calls
    unfolding uid by (rule posix_user.calls_stay)
  with d c'(2-) show ?thesis by blast
qed

definition image_users :: "user_entry list" where
  "image_users = [\<lparr>ue_name = ''root'', ue_uid = 0, ue_gid = 0, ue_dir = ''/root''\<rparr>,
     \<lparr>ue_name = ''sandbox'', ue_uid = 998, ue_gid = 998, ue_dir = ''/sandbox''\<rparr>]"

definition image_groups :: "group_entry list" where
  "image_groups = [\<lparr>ge_name = ''root'', ge_gid = 0\<rparr>, \<lparr>ge_name = ''sandbox'', ge_gid = 998\<rparr>]"

definition root_credentials :: credentials where
  "root_credentials = \<lparr>cr_ruid = 0, cr_euid = 0, cr_suid = 0, cr_rgid = 0, cr_egid = 0, cr_sgid = 0, cr_groups = [0]\<rparr>"

theorem privileges_dropped_for_good_witness:
  "\<exists>c'. drop_privileges (posix_unistd image_users image_groups (\<lambda>_. [])) \<lparr>rt_run_as_user = Some ''sandbox'', rt_run_as_group = None\<rparr>
       root_credentials = Inr c' \<and> cr_groups c' = [998]
     \<and> runs_as 998 (fold (cred_step (posix_unistd image_users image_groups (\<lambda>_. []))) [SetUid 0, SetGid 0] c')"
proof -
  have pre: "cr_euid root_credentials = 0"
    "nonempty_name (rt_run_as_user \<lparr>rt_run_as_user = Some ''sandbox'', rt_run_as_group = None\<rparr>) = Some ''sandbox''"
    "find (\<lambda>u. ue_name u = ''sandbox'') image_users = Some \<lparr>ue_name = ''sandbox'', ue_uid = 998, ue_gid = 998, ue_dir = ''/sandbox''\<rparr>"
    "ue_uid \<lparr>ue_name = ''sandbox'', ue_uid = 998, ue_gid = 998, ue_dir = ''/sandbox''\<rparr> \<noteq> 0" "CHR 0x00 \<notin> set ''sandbox''"
    "drop_group (posix_unistd image_users image_groups (\<lambda>_. []))
       (nonempty_name (rt_run_as_group \<lparr>rt_run_as_user = Some ''sandbox'', rt_run_as_group = None\<rparr>))
       \<lparr>ue_name = ''sandbox'', ue_uid = 998, ue_gid = 998, ue_dir = ''/sandbox''\<rparr> = Inr \<lparr>ge_name = ''sandbox'', ge_gid = 998\<rparr>"
    by (simp_all add: root_credentials_def nonempty_name_def image_users_def image_groups_def drop_group_def)
  obtain c' where "drop_privileges (posix_unistd image_users image_groups (\<lambda>_. [])) \<lparr>rt_run_as_user = Some ''sandbox'', rt_run_as_group = None\<rparr>
       root_credentials = Inr c'" "cr_groups c' = [998]"
     "\<forall>calls. runs_as 998 (fold (cred_step (posix_unistd image_users image_groups (\<lambda>_. []))) calls c')"
    using privileges_dropped_for_good [OF pre] by auto
  then show ?thesis by blast
qed

text \<open>A policy that names a group but no user leaves a root supervisor's child root: the fallback to the user \<open>sandbox\<close>
  is only taken when neither is named, and the group alone is switched. The start-up check of the \<open>sandbox\<close> user passes all the same.\<close>

theorem group_only_keeps_root:
  assumes "cr_euid c = 0" "nonempty_name (rt_run_as_user process) = None" "nonempty_name (rt_run_as_group process) = Some gname"
    and "find (\<lambda>u. ue_uid u = 0) passwd = Some root" "find (\<lambda>g. ge_name g = gname) groupdb = Some grp"
  shows "drop_privileges (posix_unistd passwd groupdb member_of) process c
    = Inr (c\<lparr>cr_rgid := ge_gid grp, cr_egid := ge_gid grp, cr_sgid := ge_gid grp\<rparr>)"
  using assms
  by (simp add: drop_privileges_def drop_named_def drop_user_def drop_group_def switch_group_def posix_setgid_def)

theorem group_only_keeps_root_witness:
  "\<exists>c'. drop_privileges (posix_unistd image_users image_groups (\<lambda>_. [])) \<lparr>rt_run_as_user = None, rt_run_as_group = Some ''sandbox''\<rparr>
       root_credentials = Inr c' \<and> runs_as 0 c'"
proof -
  have pre: "cr_euid root_credentials = 0"
    "nonempty_name (rt_run_as_user \<lparr>rt_run_as_user = None, rt_run_as_group = Some ''sandbox''\<rparr>) = None"
    "nonempty_name (rt_run_as_group \<lparr>rt_run_as_user = None, rt_run_as_group = Some ''sandbox''\<rparr>) = Some ''sandbox''"
    "find (\<lambda>u. ue_uid u = 0) image_users = Some \<lparr>ue_name = ''root'', ue_uid = 0, ue_gid = 0, ue_dir = ''/root''\<rparr>"
    "find (\<lambda>g. ge_name g = ''sandbox'') image_groups = Some \<lparr>ge_name = ''sandbox'', ge_gid = 998\<rparr>"
    by (simp_all add: root_credentials_def nonempty_name_def image_users_def image_groups_def)
  from group_only_keeps_root [OF pre, of "\<lambda>_. []"] show ?thesis by (simp add: runs_as_def root_credentials_def)
qed

section \<open>Facts: Landlock\<close>

lemma landlock_add_rules_iff:
  "landlock_add_rules k c rules = Inr ls \<longleftrightarrow>
     list_all2 (\<lambda>(path, access) (l, access'). kn_path_fd k c path = Inr l \<and> access' = access \<and> kn_add_rule k l access = Inr ()) rules ls"
proof (induction k c rules arbitrary: ls rule: landlock_add_rules.induct)
  case (2 k c path access rules)
  then show ?case by (fastforce simp: list_all2_Cons1)
qed auto

lemma landlock_add_rules_fails:
  "(path, access) \<in> set rules \<Longrightarrow> kn_path_fd k c path = Inl e \<Longrightarrow> \<exists>e'. landlock_add_rules k c rules = Inl e'"
proof (induction k c rules rule: landlock_add_rules.induct)
  case (2 k c p a rules)
  then show ?case by (cases "kn_path_fd k c p"; cases "landlock_add_rules k c rules") (auto split: sum.splits, metis result_bind.simps sum.exhaust)+
qed simp

lemma landlock_wanted_Nil:
  "landlock_wanted fs workdir = [] \<longleftrightarrow> rf_read_only fs = [] \<and> landlock_read_write fs workdir = []"
  by (simp add: landlock_wanted_def)

text \<open>The rules a process is under are the policy's, path by path.\<close>

definition landlock_enforces ::
  "('c, 'l) kernel \<Rightarrow> 'c \<Rightarrow> runtime_policy \<Rightarrow> bytes option \<Rightarrow> (ruleset_status \<times> ('l \<times> access_fs) list) option \<Rightarrow> bool" where
  "landlock_enforces k c policy workdir rs \<longleftrightarrow>
     (\<exists>ls. rs = Some (FullyEnforced, ls) \<and>
        list_all2 (\<lambda>(path, access) (l, access'). kn_path_fd k c path = Inr l \<and> access' = access)
          (landlock_wanted (rp_filesystem policy) workdir) ls)"

text \<open>What the crate documents of a hard requirement: restricting succeeds only when all of it is enforced.\<close>

definition hard_requirement_law :: "('c, 'l) kernel \<Rightarrow> bool" where
  "hard_requirement_law k \<longleftrightarrow> (\<forall>status. kn_restrict_self k HardRequirement = Inr status \<longrightarrow> status = FullyEnforced)"

lemma landlock_apply_hard:
  assumes "landlock_apply k policy workdir c = Inr rs" "rp_landlock policy = HardRequirement" "hard_requirement_law k"
    and "landlock_wanted (rp_filesystem policy) workdir \<noteq> []"
  shows "landlock_enforces k c policy workdir rs"
proof -
  from assms(1,2,4) obtain status ls where r: "rs = Some (status, ls)" "landlock_ruleset k policy workdir c = Inr (status, ls)"
    by (auto simp: landlock_apply_def landlock_wanted_Nil split: sum.splits if_splits)
  from r(2) assms(2,3) have st: "status = FullyEnforced" and a: "landlock_add_rules k c (landlock_wanted (rp_filesystem policy) workdir) = Inr ls"
    by (auto simp: landlock_ruleset_def hard_requirement_law_def)
  from a have "list_all2 (\<lambda>(path, access) (l, access'). kn_path_fd k c path = Inr l \<and> access' = access)
      (landlock_wanted (rp_filesystem policy) workdir) ls"
    unfolding landlock_add_rules_iff by (rule list_all2_mono) auto
  with r(1) st show ?thesis by (simp add: landlock_enforces_def)
qed

section \<open>Facts: seccomp\<close>

lemma fold_domain_rules:
  "fold add_socket_domain_rule ds [(SYS_socket, rs)] = [(SYS_socket, rs @ map (\<lambda>d. [\<lparr>sk_arg = 0, sk_equals = d\<rparr>]) ds)]"
  by (induction ds arbitrary: rs) (auto simp: add_socket_domain_rule_def)

lemma filter_rules:
  "fold add_socket_domain_rule (blocked_domains b) [] = [(SYS_socket, map (\<lambda>d. [\<lparr>sk_arg = 0, sk_equals = d\<rparr>]) (blocked_domains b))]"
proof -
  have "fold add_socket_domain_rule (d # ds) [] = [(SYS_socket, map (\<lambda>d. [\<lparr>sk_arg = 0, sk_equals = d\<rparr>]) (d # ds))]" for d ds
    by (simp add: add_socket_domain_rule_def fold_domain_rules)
  then show ?thesis by (simp only: blocked_domains_def append_Cons)
qed

lemma filter_refuses_iff:
  "build_filter arch b = Inr rules \<Longrightarrow>
     seccomp_refuses rules nr args \<longleftrightarrow> nr = SYS_socket \<and> unat (args ! 0) mod 2 ^ 32 \<in> set (blocked_domains b)"
  by (auto simp: build_filter_def Let_def filter_rules seccomp_refuses_def list_ex_iff split: if_splits)

lemma enter_netns_Inr:
  "enter_netns_and_sandbox k os netns_fd policy workdir c = Inr cf \<longleftrightarrow>
     (case netns_fd of Some fd \<Rightarrow> kn_setns k fd | None \<Rightarrow> Inr ()) = Inr () \<and> cf_netns cf = netns_fd
     \<and> drop_privileges os (rp_process policy) c = Inr (cf_creds cf) \<and> landlock_apply k policy workdir (cf_creds cf) = Inr (cf_landlock cf)
     \<and> seccomp_apply k policy = Inr (cf_seccomp cf)"
  by (cases cf) (auto simp: enter_netns_and_sandbox_def)


definition bare_kernel :: "bytes list \<Rightarrow> ('c, bytes) kernel" where
  "bare_kernel existing =
     \<lparr>kn_setns = (\<lambda>_. Inr ()), kn_handle_access = (\<lambda>_. Inr ()), kn_create = Inr (),
      kn_path_fd = (\<lambda>_ p. if p \<in> set existing then Inr p else Inl ''No such file or directory''),
      kn_add_rule = (\<lambda>_ _. Inr ()), kn_restrict_self = (\<lambda>_. Inr FullyEnforced), kn_no_new_privs = Inr (),
      kn_arch_supported = True, kn_apply_filter = Inr ()\<rparr>"

definition tmp_policy :: "landlock_compatibility \<Rightarrow> runtime_policy" where
  "tmp_policy level = \<lparr>rp_version = 1, rp_filesystem = \<lparr>rf_read_only = [''/usr''], rf_read_write = [''/tmp''], rf_include_workdir = True\<rparr>,
     rp_network = proxy_network, rp_landlock = level, rp_process = \<lparr>rt_run_as_user = Some ''sandbox'', rt_run_as_group = None\<rparr>\<rparr>"

abbreviation sample_kernel :: "(credentials, bytes) kernel" where
  "sample_kernel \<equiv> bare_kernel [''/usr'', ''/tmp'', ''/work'']"

abbreviation sample_unistd :: "credentials unistd" where
  "sample_unistd \<equiv> posix_unistd image_users image_groups (\<lambda>_. [])"

lemma sample_landlock_wanted:
  "landlock_wanted (rp_filesystem (tmp_policy HardRequirement)) (Some ''/work'') = [(''/usr'', AccessRead), (''/tmp'', AccessAll), (''/work'', AccessAll)]"
  by (simp add: landlock_wanted_def landlock_read_write_def tmp_policy_def same_path_def) code_simp

lemma sample_spawn:
  "\<exists>child. spawn_impl sample_kernel sample_unistd None [] ''/bin/agent'' [] (Some ''/work'') True (tmp_policy HardRequirement) fd None [] root_credentials
     = Inr child"
proof -
  have "rp_landlock (tmp_policy HardRequirement) = HardRequirement" by (simp add: tmp_policy_def)
  moreover have "nw_mode (rp_network (tmp_policy HardRequirement)) = ModeProxy" by (simp add: tmp_policy_def proxy_network_def)
  moreover have "\<exists>c'. drop_privileges sample_unistd (rp_process (tmp_policy HardRequirement)) root_credentials = Inr c'"
    by (simp add: tmp_policy_def drop_privileges_def nonempty_name_def drop_named_def drop_user_def drop_group_def image_users_def
        image_groups_def root_credentials_def switch_group_def switch_user_def posix_setuid_def posix_setgid_def posix_initgroups_def)
  moreover have "\<exists>v. proxy_vars_for (tmp_policy HardRequirement) fd = Inr v"
    by (simp add: proxy_vars_for_def tmp_policy_def proxy_network_def)
  moreover have "rf_read_only (rp_filesystem (tmp_policy HardRequirement)) \<noteq> []" by (simp add: tmp_policy_def)
  moreover have "landlock_ruleset sample_kernel (tmp_policy HardRequirement) (Some ''/work'') c =
      Inr (FullyEnforced, [(''/usr'', AccessRead), (''/tmp'', AccessAll), (''/work'', AccessAll)])" for c
    by (simp add: landlock_ruleset_def sample_landlock_wanted bare_kernel_def)
  ultimately show ?thesis
    by (cases fd; simp add: spawn_impl_def enter_netns_and_sandbox_def landlock_apply_def seccomp_apply_def build_filter_def Let_def)
       (auto simp: bare_kernel_def)
qed


text \<open>With the best-effort level, one listed path that cannot be opened leaves the process without any Landlock restriction: the
  ruleset that was being built is dropped and the error ignored. Baseline paths are listed whether or not the image has them.\<close>

theorem missing_path_disables_landlock:
  assumes "rp_landlock policy = BestEffort" "(path, access) \<in> set (landlock_wanted (rp_filesystem policy) workdir)"
    and "kn_path_fd k c path = Inl e"
  shows "landlock_apply k policy workdir c = Inr None"
proof -
  obtain e' where "landlock_add_rules k c (landlock_wanted (rp_filesystem policy) workdir) = Inl e'"
    using landlock_add_rules_fails [OF assms(2,3)] by blast
  then have "\<exists>e''. landlock_ruleset k policy workdir c = Inl e''"
    by (cases "kn_handle_access k (rp_landlock policy)"; cases "kn_create k") (simp_all add: landlock_ruleset_def)
  with assms(1) show ?thesis by (auto simp: landlock_apply_def)
qed

theorem missing_path_disables_landlock_witness:
  "landlock_apply (bare_kernel [''/usr'', ''/tmp'', ''/lib'', ''/etc'', ''/var/log'', ''/sandbox''])
     (enrich_sandbox_baseline_paths (tmp_policy BestEffort)) None root_credentials = Inr None"
proof -
  have e: "enrich_sandbox_baseline_paths (tmp_policy BestEffort) = (tmp_policy BestEffort)\<lparr>rp_filesystem :=
      \<lparr>rf_read_only = [''/usr'', ''/lib'', ''/etc'', ''/app'', ''/var/log''], rf_read_write = [''/tmp'', ''/sandbox''], rf_include_workdir = True\<rparr>\<rparr>"
    by code_simp
  have "rp_landlock (enrich_sandbox_baseline_paths (tmp_policy BestEffort)) = BestEffort" unfolding e by (simp add: tmp_policy_def)
  moreover have "(''/app'', AccessRead) \<in> set (landlock_wanted (rp_filesystem (enrich_sandbox_baseline_paths (tmp_policy BestEffort))) None)"
    by (simp add: e landlock_wanted_def)
  moreover have "kn_path_fd (bare_kernel [''/usr'', ''/tmp'', ''/lib'', ''/etc'', ''/var/log'', ''/sandbox'']) root_credentials ''/app''
      = Inl ''No such file or directory''" by (simp add: bare_kernel_def)
  ultimately show ?thesis by (rule missing_path_disables_landlock)
qed

section \<open>Facts: the environment\<close>

lemma env_all_get: "hm_inv env \<Longrightarrow> map_of (env_all kvs env) = map_of env ++ map_of (rev kvs)"
  by (simp add: env_all_def hm.get_fold_ins)

lemma env_all_inv: "hm_inv env \<Longrightarrow> hm_inv (env_all kvs env)"
  by (simp add: env_all_def hm.inv_fold_ins)

lemma spawn_env_get:
  assumes "hm_inv inherited"
  shows "map_of (spawn_env inherited provider_env proxy_vars ca_paths) =
    (map_of inherited)(''CLUSTERSHELL_SANDBOX'' \<mapsto> ''1'', SSH_HANDSHAKE_SECRET_ENV := None)
      ++ map_of (rev provider_env) ++ map_of (rev proxy_vars) ++ map_of (rev (ca_vars ca_paths))"
  using assms
  by (simp add: spawn_env_def inject_provider_env_def scrub_sensitive_env_def env_all_get env_all_inv hm.inv_ins hm.inv_del hm.get_ins hm.get_del)

end
