(* ===== verification/Ssh_Session.thy ===== *)
theory Ssh_Session
  imports Confinement
begin

text \<open>
  An SSH session in the sandbox, \<open>crates/clustershell-sandbox/src/ssh.rs\<close>: the handler's reaction to every event of the
  protocol, the processes it starts with their environment, terminal and standard input, and port forwarding. The SSH
  library calls the handler and is the sequence of events; the kernel and the user database are those of \<open>Confinement\<close>.
\<close>

section \<open>Terminals\<close>

definition to_u16 :: "nat \<Rightarrow> nat" where
  "to_u16 v = min v 65535"

record pty_request =
  pr_term :: bytes
  pr_col_width :: nat
  pr_row_height :: nat
  pr_pixel_width :: nat
  pr_pixel_height :: nat

record winsize =
  ws_row :: nat
  ws_col :: nat
  ws_xpixel :: nat
  ws_ypixel :: nat

definition winsize_of :: "nat \<Rightarrow> nat \<Rightarrow> nat \<Rightarrow> nat \<Rightarrow> winsize" where
  "winsize_of col_width row_height pixel_width pixel_height =
     \<lparr>ws_row = to_u16 (max row_height 1), ws_col = to_u16 (max col_width 1), ws_xpixel = to_u16 pixel_width, ws_ypixel = to_u16 pixel_height\<rparr>"

section \<open>Environment\<close>

definition session_user_and_home :: "'c unistd \<Rightarrow> runtime_policy \<Rightarrow> bytes \<times> bytes" where
  "session_user_and_home os policy =
     (case nonempty_name (rt_run_as_user (rp_process policy)) of
        Some user \<Rightarrow>
          (user, case user_from_name os user of Inr (Some u) \<Rightarrow> from_utf8_lossy (ue_dir u) | _ \<Rightarrow> ''/home/'' @ user)
      | None \<Rightarrow> (''sandbox'', ''/sandbox''))"

text \<open>\<open>path_var\<close> is the supervisor's own \<open>PATH\<close>; nothing else of its environment is passed on.\<close>

definition apply_child_env ::
  "bytes option \<Rightarrow> bytes \<Rightarrow> bytes \<Rightarrow> bytes \<Rightarrow> bytes option \<Rightarrow> (bytes \<times> bytes) option \<Rightarrow> env_vars \<Rightarrow> env_vars" where
  "apply_child_env path_var session_home session_user term proxy_url ca_file_paths provider_env =
     (let path = (case path_var of None \<Rightarrow> ''/usr/local/bin:/usr/bin:/bin'' | Some p \<Rightarrow> p);
          base = env_all [(''CLUSTERSHELL_SANDBOX'', ''1''), (''HOME'', session_home), (''USER'', session_user), (''SHELL'', ''/bin/bash''),
                          (''PATH'', path), (''TERM'', term)] [];
          proxied = (case proxy_url of None \<Rightarrow> base | Some url \<Rightarrow> env_all (proxy_env_vars url) base) in
      env_all provider_env (env_all (ca_vars ca_file_paths) proxied))"

section \<open>Processes of a session\<close>

text \<open>What a session's handler keeps, and what never changes in it.\<close>

record session_config =
  sn_policy :: runtime_policy
  sn_workdir :: "bytes option"
  sn_netns_fd :: "nat option"
  sn_proxy_url :: "bytes option"
  sn_ca_file_paths :: "(bytes \<times> bytes) option"
  sn_provider_env :: env_vars
  sn_path_var :: "bytes option"

text \<open>
  A process the session started. \<open>sp_input\<close> is what was sent to its input so far, \<open>sp_input_open\<close> whether a sender for
  more is still held.
\<close>

record ('c, 'l) session_process =
  sp_channel :: nat
  sp_args :: "bytes list"
  sp_env :: env_vars
  sp_window :: "winsize option"
  sp_confined :: "('c, 'l) confined"
  sp_input :: bytes
  sp_input_open :: bool

text \<open>The handler's fields name processes by their number.\<close>

record ('c, 'l) ssh_state =
  st_input_sender :: "nat option"
  st_pty_master :: "nat option"
  st_pty_request :: "pty_request option"
  st_processes :: "('c, 'l) session_process list"
  st_forwards :: "(bytes \<times> nat option) list"
  st_replies :: "(nat \<times> bool) list"

definition new_session :: "('c, 'l) ssh_state" where
  "new_session = \<lparr>st_input_sender = None, st_pty_master = None, st_pty_request = None, st_processes = [], st_forwards = [], st_replies = []\<rparr>"

text \<open>The parts of the operating system a session uses; \<open>sx_exec\<close> is the outcome of the n-th \<open>fork\<close> and \<open>exec\<close>.\<close>

record ('c, 'l) session_os =
  sx_kernel :: "('c, 'l) kernel"
  sx_unistd :: "'c unistd"
  sx_creds :: 'c
  sx_exec :: "nat \<Rightarrow> report option"
  sx_openpty :: "report option"
  sx_tty :: "report option"

definition bash_args :: "bool \<Rightarrow> bytes option \<Rightarrow> bytes list" where
  "bash_args pty command = (case command of Some cmd \<Rightarrow> [''-lc'', cmd] | None \<Rightarrow> (if pty then [''-i''] else []))"

definition session_env :: "('c, 'l) session_os \<Rightarrow> session_config \<Rightarrow> bytes \<Rightarrow> env_vars" where
  "session_env os cfg term =
     (let (session_user, session_home) = session_user_and_home (sx_unistd os) (sn_policy cfg) in
      apply_child_env (sn_path_var cfg) session_home session_user term (sn_proxy_url cfg) (sn_ca_file_paths cfg) (sn_provider_env cfg))"

text \<open>The hooks before \<open>exec\<close>: with a terminal, \<open>setsid\<close> and the controlling terminal come first.\<close>

definition session_pre_exec ::
  "('c, 'l) session_os \<Rightarrow> session_config \<Rightarrow> bool \<Rightarrow> (report, ('c, 'l) confined) result" where
  "session_pre_exec os cfg pty =
     result_bind (if pty then (case sx_tty os of Some e \<Rightarrow> Inl e | None \<Rightarrow> Inr ()) else Inr ()) (\<lambda>_.
       enter_netns_and_sandbox (sx_kernel os) (sx_unistd os) (sn_netns_fd cfg) (sn_policy cfg) (sn_workdir cfg) (sx_creds os))"

definition spawn_process ::
  "('c, 'l) session_os \<Rightarrow> session_config \<Rightarrow> nat \<Rightarrow> nat \<Rightarrow> bytes option \<Rightarrow> bytes \<Rightarrow> winsize option \<Rightarrow> (report, ('c, 'l) session_process) result" where
  "spawn_process os cfg n channel command term window =
     result_bind (session_pre_exec os cfg (window \<noteq> None)) (\<lambda>cf.
       case sx_exec os n of
         Some e \<Rightarrow> Inl e
       | None \<Rightarrow> Inr \<lparr>sp_channel = channel, sp_args = bash_args (window \<noteq> None) command, sp_env = session_env os cfg term,
                      sp_window = window, sp_confined = cf, sp_input = [], sp_input_open = True\<rparr>)"

definition spawn_pty_shell ::
  "('c, 'l) session_os \<Rightarrow> session_config \<Rightarrow> nat \<Rightarrow> nat \<Rightarrow> bytes option \<Rightarrow> pty_request \<Rightarrow> (report, ('c, 'l) session_process) result" where
  "spawn_pty_shell os cfg n channel command pty =
     (case sx_openpty os of
        Some e \<Rightarrow> Inl e
      | None \<Rightarrow> spawn_process os cfg n channel command (if pr_term pty = [] then ''xterm-256color'' else pr_term pty)
                  (Some (winsize_of (pr_col_width pty) (pr_row_height pty) (pr_pixel_width pty) (pr_pixel_height pty))))"

definition spawn_pipe_exec ::
  "('c, 'l) session_os \<Rightarrow> session_config \<Rightarrow> nat \<Rightarrow> nat \<Rightarrow> bytes option \<Rightarrow> (report, ('c, 'l) session_process) result" where
  "spawn_pipe_exec os cfg n channel command = spawn_process os cfg n channel command ''dumb'' None"

section \<open>Events\<close>

datatype ssh_event =
    AuthNone bytes
  | AuthPublickey bytes
  | ChannelOpenSession nat
  | ChannelOpenDirectTcpip nat bytes nat
  | PtyRequest nat bytes nat nat
  | WindowChange nat nat nat nat nat
  | ShellRequest nat
  | ExecRequest nat bytes
  | SubsystemRequest nat bytes
  | EnvRequest nat bytes bytes
  | ChannelData nat bytes
  | ChannelEof nat

text \<open>Dropping a sender ends the input of its process; assigning a new one drops the old.\<close>

definition close_input :: "nat option \<Rightarrow> ('c, 'l) session_process list \<Rightarrow> ('c, 'l) session_process list" where
  "close_input sender ps =
     (case sender of None \<Rightarrow> ps | Some i \<Rightarrow> (if i < length ps then ps[i := (ps ! i)\<lparr>sp_input_open := False\<rparr>] else ps))"

definition start_process :: "('c, 'l) session_process \<Rightarrow> ('c, 'l) ssh_state \<Rightarrow> ('c, 'l) ssh_state" where
  "start_process p s =
     s\<lparr>st_processes := close_input (st_input_sender s) (st_processes s) @ [p], st_input_sender := Some (length (st_processes s))\<rparr>"

definition start_shell ::
  "('c, 'l) session_os \<Rightarrow> session_config \<Rightarrow> nat \<Rightarrow> bytes option \<Rightarrow> ('c, 'l) ssh_state \<Rightarrow> (report, ('c, 'l) ssh_state) result" where
  "start_shell os cfg channel command s =
     (case st_pty_request s of
        Some pty \<Rightarrow>
          result_bind (spawn_pty_shell os cfg (length (st_processes s)) channel command pty) (\<lambda>p.
            Inr (start_process p (s\<lparr>st_pty_request := None, st_pty_master := Some (length (st_processes s))\<rparr>)))
      | None \<Rightarrow>
          result_bind (spawn_pipe_exec os cfg (length (st_processes s)) channel command) (\<lambda>p. Inr (start_process p s)))"

definition reply :: "nat \<Rightarrow> bool \<Rightarrow> ('c, 'l) ssh_state \<Rightarrow> ('c, 'l) ssh_state" where
  "reply channel ok s = s\<lparr>st_replies := st_replies s @ [(channel, ok)]\<rparr>"

text \<open>
  \<open>port_to_connect as u16\<close> is the port modulo \<open>2 ^ 16\<close>. A result \<^const>\<open>Inl\<close> ends the connection; so does a failed reply, which is
  the end of the event sequence.
\<close>

fun ssh_handle :: "('c, 'l) session_os \<Rightarrow> session_config \<Rightarrow> ssh_event \<Rightarrow> ('c, 'l) ssh_state \<Rightarrow> (report, ('c, 'l) ssh_state) result" where
  "ssh_handle os cfg (AuthNone user) s = Inr s"
| "ssh_handle os cfg (AuthPublickey user) s = Inr s"
| "ssh_handle os cfg (ChannelOpenSession channel) s = Inr (reply channel True s)"
| "ssh_handle os cfg (ChannelOpenDirectTcpip channel host port) s =
     (if host = ''127.0.0.1'' \<or> host = ''localhost'' \<or> host = ''::1'' then
        Inr (reply channel True (s\<lparr>st_forwards := st_forwards s @ [(host @ '':'' @ show_nat (port mod 2 ^ 16), sn_netns_fd cfg)]\<rparr>))
      else Inr (reply channel False s))"
| "ssh_handle os cfg (PtyRequest channel term col_width row_height) s =
     Inr (reply channel True (s\<lparr>st_pty_request :=
       Some \<lparr>pr_term = term, pr_col_width = col_width, pr_row_height = row_height, pr_pixel_width = 0, pr_pixel_height = 0\<rparr>\<rparr>))"
| "ssh_handle os cfg (WindowChange channel col_width row_height pixel_width pixel_height) s =
     Inr (case st_pty_master s of
            None \<Rightarrow> s
          | Some i \<Rightarrow> (if i < length (st_processes s) then
                         s\<lparr>st_processes := (st_processes s)[i := (st_processes s ! i)\<lparr>sp_window :=
                           Some (winsize_of col_width row_height pixel_width pixel_height)\<rparr>]\<rparr> else s))"
| "ssh_handle os cfg (ShellRequest channel) s = start_shell os cfg channel None (reply channel True s)"
| "ssh_handle os cfg (ExecRequest channel payload) s =
     (let command = trim_ws (from_utf8_lossy payload); s = reply channel True s in
      if command = [] then Inr s else start_shell os cfg channel (Some command) s)"
| "ssh_handle os cfg (SubsystemRequest channel name) s =
     (if name = ''sftp'' then
        (let s = reply channel True s in
         result_bind (spawn_pipe_exec os cfg (length (st_processes s)) channel (Some ''/usr/lib/openssh/sftp-server'')) (\<lambda>p.
           Inr (start_process p s)))
      else Inr (reply channel False s))"
| "ssh_handle os cfg (EnvRequest channel name v) s = Inr (reply channel True s)"
| "ssh_handle os cfg (ChannelData channel payload) s =
     Inr (case st_input_sender s of
            None \<Rightarrow> s
          | Some i \<Rightarrow> (if i < length (st_processes s) then
                         s\<lparr>st_processes := (st_processes s)[i := (st_processes s ! i)\<lparr>sp_input := sp_input (st_processes s ! i) @ payload\<rparr>]\<rparr>
                       else s))"
| "ssh_handle os cfg (ChannelEof channel) s =
     Inr (s\<lparr>st_processes := close_input (st_input_sender s) (st_processes s), st_input_sender := None\<rparr>)"

text \<open>A session is the events until one fails or the connection ends.\<close>

fun ssh_run :: "('c, 'l) session_os \<Rightarrow> session_config \<Rightarrow> ssh_event list \<Rightarrow> ('c, 'l) ssh_state \<Rightarrow> ('c, 'l) ssh_state" where
  "ssh_run os cfg [] s = s"
| "ssh_run os cfg (e # es) s = (case ssh_handle os cfg e s of Inl _ \<Rightarrow> s | Inr s' \<Rightarrow> ssh_run os cfg es s')"

text \<open>The exit status reported for a process; a process ended by a signal has no exit code.\<close>

definition reported_exit :: "int option \<Rightarrow> nat" where
  "reported_exit exit_code = nat \<bar>case exit_code of Some n \<Rightarrow> n | None \<Rightarrow> 1\<bar>"

section \<open>Facts: confinement of the whole session\<close>

definition loopback_forward :: "nat option \<Rightarrow> bytes \<times> nat option \<Rightarrow> bool" where
  "loopback_forward netns_fd f \<longleftrightarrow>
     snd f = netns_fd \<and> (\<exists>host port. fst f = host @ '':'' @ show_nat port \<and> host \<in> {''127.0.0.1'', ''localhost'', ''::1''} \<and> port < 2 ^ 16)"

definition process_ok :: "('c, 'l) session_os \<Rightarrow> session_config \<Rightarrow> ('c, 'l) session_process \<Rightarrow> bool" where
  "process_ok os cfg p \<longleftrightarrow>
     enter_netns_and_sandbox (sx_kernel os) (sx_unistd os) (sn_netns_fd cfg) (sn_policy cfg) (sn_workdir cfg) (sx_creds os) = Inr (sp_confined p)
     \<and> (\<exists>term. sp_env p = session_env os cfg term)"

definition session_ok :: "('c, 'l) session_os \<Rightarrow> session_config \<Rightarrow> ('c, 'l) ssh_state \<Rightarrow> bool" where
  "session_ok os cfg s \<longleftrightarrow> list_all (process_ok os cfg) (st_processes s) \<and> list_all (loopback_forward (sn_netns_fd cfg)) (st_forwards s)"

lemma process_ok_update [simp]:
  "process_ok os cfg (p\<lparr>sp_input := x\<rparr>) = process_ok os cfg p" "process_ok os cfg (p\<lparr>sp_input_open := b\<rparr>) = process_ok os cfg p"
  "process_ok os cfg (p\<lparr>sp_window := w\<rparr>) = process_ok os cfg p"
  by (simp_all add: process_ok_def)

lemma list_all_update: "list_all P xs \<Longrightarrow> (i < length xs \<Longrightarrow> P x) \<Longrightarrow> list_all P (xs[i := x])"
proof (cases "i < length xs")
  case True
  assume "list_all P xs" "i < length xs \<Longrightarrow> P x"
  with True show ?thesis using set_update_subset_insert [of xs i x] by (auto simp: list_all_iff)
qed (simp add: list_update_beyond)

lemma list_all_nth_lt: "list_all P xs \<Longrightarrow> i < length xs \<Longrightarrow> P (xs ! i)"
  by (simp add: list_all_length)

lemma close_input_ok: "list_all (process_ok os cfg) ps \<Longrightarrow> list_all (process_ok os cfg) (close_input sender ps)"
  by (auto simp: close_input_def list_all_nth_lt split: option.splits intro!: list_all_update)

lemma spawn_process_ok: "spawn_process os cfg n channel command term window = Inr p \<Longrightarrow> process_ok os cfg p"
  by (auto simp: spawn_process_def session_pre_exec_def process_ok_def split: option.splits)

lemma spawn_ok:
  "spawn_pty_shell os cfg n channel command pty = Inr p \<Longrightarrow> process_ok os cfg p"
  "spawn_pipe_exec os cfg n channel command = Inr p \<Longrightarrow> process_ok os cfg p"
  by (auto simp: spawn_pty_shell_def spawn_pipe_exec_def split: option.splits intro: spawn_process_ok)

lemma start_process_ok: "session_ok os cfg s \<Longrightarrow> process_ok os cfg p \<Longrightarrow> session_ok os cfg (start_process p s)"
  by (simp add: session_ok_def start_process_def close_input_ok)

lemma session_ok_fields [simp]:
  "session_ok os cfg (reply channel ok s) = session_ok os cfg s"
  "session_ok os cfg (s\<lparr>st_pty_request := r\<rparr>) = session_ok os cfg s"
  "session_ok os cfg (s\<lparr>st_pty_master := m\<rparr>) = session_ok os cfg s"
  "session_ok os cfg (s\<lparr>st_input_sender := i\<rparr>) = session_ok os cfg s"
  by (simp_all add: session_ok_def reply_def)

lemma start_shell_ok: "start_shell os cfg channel command s = Inr s' \<Longrightarrow> session_ok os cfg s \<Longrightarrow> session_ok os cfg s'"
  by (auto simp: start_shell_def split: option.splits intro!: start_process_ok dest: spawn_ok)

lemma session_ok_processes:
  "session_ok os cfg s \<Longrightarrow> list_all (process_ok os cfg) ps \<Longrightarrow> session_ok os cfg (s\<lparr>st_processes := ps\<rparr>)"
  by (simp add: session_ok_def)

lemma session_ok_all: "session_ok os cfg s \<Longrightarrow> list_all (process_ok os cfg) (st_processes s)"
  by (simp add: session_ok_def)

lemma session_ok_forward:
  "session_ok os cfg s \<Longrightarrow> loopback_forward (sn_netns_fd cfg) f \<Longrightarrow> session_ok os cfg (s\<lparr>st_forwards := st_forwards s @ [f]\<rparr>)"
  by (simp add: session_ok_def)

lemma loopback_forwardI:
  "host \<in> {''127.0.0.1'', ''localhost'', ''::1''} \<Longrightarrow> loopback_forward fd (host @ '':'' @ show_nat (port mod 2 ^ 16), fd)"
  unfolding loopback_forward_def by (intro conjI exI [of _ host] exI [of _ "port mod 2 ^ 16"]) auto

lemmas session_intros = start_process_ok session_ok_processes session_ok_forward list_all_update close_input_ok

lemma ssh_handle_ok: "ssh_handle os cfg e s = Inr s' \<Longrightarrow> session_ok os cfg s \<Longrightarrow> session_ok os cfg s'"
proof (cases e)
  case (ChannelOpenDirectTcpip channel host port)
  assume "ssh_handle os cfg e s = Inr s'" "session_ok os cfg s"
  then show ?thesis
    using session_ok_forward [OF _ loopback_forwardI, of os cfg s host port] by (auto simp: ChannelOpenDirectTcpip split: if_splits)
qed (auto simp: session_ok_all list_all_nth_lt Let_def split: option.splits if_splits
      intro!: session_intros intro: start_shell_ok dest: spawn_ok)

lemma ssh_run_ok: "session_ok os cfg s \<Longrightarrow> session_ok os cfg (ssh_run os cfg es s)"
  by (induction es arbitrary: s) (auto split: sum.splits dest: ssh_handle_ok)

text \<open>C9: Whatever a client of the SSH server sends, every process of its session was started through the hook that enters the
  network namespace, drops privileges and applies Landlock and seccomp, with the environment of the session's configuration, in which
  the client only chooses \<open>TERM\<close>; and every forwarded connection goes to a port of the loopback interface inside that namespace.\<close>

theorem session_stays_confined:
  "list_all (\<lambda>p. enter_netns_and_sandbox (sx_kernel os) (sx_unistd os) (sn_netns_fd cfg) (sn_policy cfg) (sn_workdir cfg) (sx_creds os)
        = Inr (sp_confined p) \<and> (\<exists>term. sp_env p = session_env os cfg term)) (st_processes (ssh_run os cfg events new_session))
   \<and> list_all (\<lambda>(addr, netns). netns = sn_netns_fd cfg
        \<and> (\<exists>host port. addr = host @ '':'' @ show_nat port \<and> host \<in> {''127.0.0.1'', ''localhost'', ''::1''} \<and> port < 2 ^ 16))
      (st_forwards (ssh_run os cfg events new_session))"
proof -
  have "session_ok os cfg (new_session :: ('a, 'b) ssh_state)" by (simp add: session_ok_def new_session_def)
  from ssh_run_ok [OF this, of events] show ?thesis
    unfolding session_ok_def process_ok_def loopback_forward_def by (simp add: case_prod_beta')
qed

section \<open>Facts: the environment\<close>

lemma apply_child_env_get:
  "map_of (apply_child_env path_var home user term proxy_url ca provider_env) =
     map_of (apply_child_env path_var home user term proxy_url ca []) ++ map_of (rev provider_env)"
proof -
  have inv: "hm_inv (env_all kvs [])" for kvs :: env_vars by (rule env_all_inv) (simp add: hm_inv_def)
  show ?thesis
    by (simp add: apply_child_env_def Let_def env_all_get env_all_inv inv split: option.split)
qed

lemma placeholder_env_get:
  assumes "distinct (map fst provider)"
  shows "map_of (rev (fst (from_provider_env provider))) key = map_option (\<lambda>_. placeholder_for_env_key key) (map_of provider key)"
proof (cases "provider = []")
  case False
  then obtain ce rs where e: "from_provider_env provider = (ce, Some rs)"
    and m: "map_of ce = map_option placeholder_for_env_key \<circ> (\<lambda>k. map_option (\<lambda>_. k) (map_of provider k))"
    using from_provider_env_cases [OF False assms] by metis
  have "ce = fold (\<lambda>(k, v). hm_insert k v) (map (\<lambda>(k, v). (k, placeholder_for_env_key k)) provider) []"
    using e False by (simp add: from_provider_env_def provider_fold)
  then have d: "distinct (map fst ce)" using hm.inv_distinct [OF hm.inv_collect] by simp
  then have "distinct (map fst (rev ce))" by (simp add: rev_map [symmetric])
  with d have "map_of (rev ce) = map_of ce" by (metis map_of_inject_set set_rev)
  with m e show ?thesis by (simp add: option.map_comp comp_def)
qed (simp add: from_provider_env_def)

lemma fixed_vars_lack_secret:
  "map_of (rev (proxy_env_vars url)) SSH_HANDSHAKE_SECRET_ENV = None" "map_of (rev (ca_vars ca)) SSH_HANDSHAKE_SECRET_ENV = None"
  "proxy_vars_for policy netns = Inr vars \<Longrightarrow> map_of (rev vars) SSH_HANDSHAKE_SECRET_ENV = None"
proof -
  show p: "map_of (rev (proxy_env_vars u)) SSH_HANDSHAKE_SECRET_ENV = None" for u
    by (simp add: proxy_env_vars_def SSH_HANDSHAKE_SECRET_ENV_def)
  show "map_of (rev (ca_vars ca)) SSH_HANDSHAKE_SECRET_ENV = None"
    by (cases ca) (auto simp: ca_vars_def tls_env_vars_def SSH_HANDSHAKE_SECRET_ENV_def)
  show "proxy_vars_for policy netns = Inr vars \<Longrightarrow> map_of (rev vars) SSH_HANDSHAKE_SECRET_ENV = None"
    using p by (auto simp: proxy_vars_for_def split: if_splits option.splits)
qed

lemma session_base_lacks_secret:
  "map_of (apply_child_env path_var home user term proxy_url ca []) SSH_HANDSHAKE_SECRET_ENV = None"
proof -
  have inv: "hm_inv (env_all kvs [])" for kvs :: env_vars by (rule env_all_inv) (simp add: hm_inv_def)
  have base: "map_of (env_all [(''CLUSTERSHELL_SANDBOX'', ''1''), (''HOME'', home), (''USER'', user), (''SHELL'', ''/bin/bash''),
      (''PATH'', p), (''TERM'', term)] []) SSH_HANDSHAKE_SECRET_ENV = None" for p
    by (subst env_all_get) (simp_all add: hm_inv_def SSH_HANDSHAKE_SECRET_ENV_def)
  show ?thesis
    by (simp add: apply_child_env_def Let_def env_all_get env_all_inv inv base map_add_def fixed_vars_lack_secret split: option.split)
qed

text \<open>C10: No process of the sandbox has a secret of the supervisor in its environment, neither the entrypoint nor a process of an SSH
  session: the handshake secret is absent, or a placeholder where a provider has a variable of that name; and a variable for which a
  provider has a credential holds its placeholder, or the proxy and certificate settings where these have its name.\<close>

theorem child_environments_hide_secrets:
  assumes "hm_inv inherited" "distinct (map fst provider)" "proxy_vars_for policy netns_fd = Inr proxy_vars"
    and "env = spawn_env inherited (fst (from_provider_env provider)) proxy_vars ca
      \<or> env = apply_child_env path_var home user term proxy_url ca (fst (from_provider_env provider))"
  shows "map_of env SSH_HANDSHAKE_SECRET_ENV \<in> {None, Some (placeholder_for_env_key SSH_HANDSHAKE_SECRET_ENV)}
    \<and> (\<forall>key credential v. map_of provider key = Some credential \<and> map_of env key = Some v \<longrightarrow>
         v = placeholder_for_env_key key \<or> (key, v) \<in> set (proxy_vars @ ca_vars ca))"
  using assms(4)
proof
  assume e: "env = spawn_env inherited (fst (from_provider_env provider)) proxy_vars ca"
  show ?thesis
    using fixed_vars_lack_secret(2) [of ca] fixed_vars_lack_secret(3) [OF assms(3)]
    by (auto simp: e spawn_env_get [OF assms(1)] placeholder_env_get [OF assms(2)] map_add_def split: option.splits dest: map_of_SomeD)
next
  assume e: "env = apply_child_env path_var home user term proxy_url ca (fst (from_provider_env provider))"
  have g: "map_of env = map_of (apply_child_env path_var home user term proxy_url ca []) ++ map_of (rev (fst (from_provider_env provider)))"
    unfolding e by (rule apply_child_env_get)
  show ?thesis
    by (auto simp: g placeholder_env_get [OF assms(2)] map_add_def session_base_lacks_secret split: option.splits)
qed

theorem child_environments_hide_secrets_witness:
  "map_of (spawn_env [(SSH_HANDSHAKE_SECRET_ENV, ''s3'')] (fst (from_provider_env [(''API_KEY'', ''sk'')])) (proxy_env_vars ''http://10.200.0.1:3128'')
      None) SSH_HANDSHAKE_SECRET_ENV \<in> {None, Some (placeholder_for_env_key SSH_HANDSHAKE_SECRET_ENV)}"
proof -
  have pre: "hm_inv [(SSH_HANDSHAKE_SECRET_ENV, ''s3'')]" "distinct (map fst [(''API_KEY'', ''sk'')])"
    "proxy_vars_for (tmp_policy BestEffort) (Some 7) = Inr (proxy_env_vars ''http://10.200.0.1:3128'')"
    by (simp_all add: hm_inv_def proxy_vars_for_def tmp_policy_def proxy_network_def) code_simp
  from child_environments_hide_secrets [OF pre disjI1 [OF refl]] show ?thesis by blast
qed

section \<open>Facts: standard input\<close>

text \<open>Events that leave the handler's process alone.\<close>

fun quiet :: "ssh_event \<Rightarrow> bool" where
  "quiet (ShellRequest _) = False"
| "quiet (ExecRequest _ _) = False"
| "quiet (SubsystemRequest _ _) = False"
| "quiet _ = True"

text \<open>The data up to the first end-of-file, of whatever channel.\<close>

fun sent_input :: "ssh_event list \<Rightarrow> bytes" where
  "sent_input [] = []"
| "sent_input (e # es) =
     (case e of ChannelData _ payload \<Rightarrow> payload @ sent_input es | ChannelEof _ \<Rightarrow> [] | _ \<Rightarrow> sent_input es)"

definition inputs :: "('c, 'l) ssh_state \<Rightarrow> (bytes \<times> bool) list" where
  "inputs s = map (\<lambda>p. (sp_input p, sp_input_open p)) (st_processes s)"

lemma inputs_length [simp]: "length (inputs s) = length (st_processes s)"
  by (simp add: inputs_def)

lemma inputs_close: "map (\<lambda>p. (sp_input p, sp_input_open p)) (close_input sender ps) =
    (case sender of None \<Rightarrow> map (\<lambda>p. (sp_input p, sp_input_open p)) ps
     | Some i \<Rightarrow> (map (\<lambda>p. (sp_input p, sp_input_open p)) ps)[i := (sp_input (ps ! i), False)])"
  by (auto simp: close_input_def map_update list_update_beyond split: option.split)

lemma map_update_same: "i < length ps \<Longrightarrow> f x = f (ps ! i) \<Longrightarrow> map f (ps[i := x]) = map f ps"
  by (simp add: map_update list_update_same_conv)

text \<open>A quiet event never fails; it touches the input of the handler's own process only.\<close>

definition quiet_inputs :: "ssh_event \<Rightarrow> nat option \<Rightarrow> (bytes \<times> bool) list \<Rightarrow> (bytes \<times> bool) list" where
  "quiet_inputs e sender xs =
     (case sender of
        None \<Rightarrow> xs
      | Some i \<Rightarrow>
          (if i < length xs then
             (case e of
                ChannelData _ payload \<Rightarrow> xs[i := (fst (xs ! i) @ payload, snd (xs ! i))]
              | ChannelEof _ \<Rightarrow> xs[i := (fst (xs ! i), False)]
              | _ \<Rightarrow> xs)
           else xs))"

lemma quiet_step:
  assumes "quiet e"
  shows "\<exists>s'. ssh_handle os cfg e s = Inr s' \<and> inputs s' = quiet_inputs e (st_input_sender s) (inputs s)
    \<and> st_input_sender s' = (case e of ChannelEof _ \<Rightarrow> None | _ \<Rightarrow> st_input_sender s) \<and> length (st_processes s') = length (st_processes s)"
proof (cases e)
  case (WindowChange a b c d f)
  then show ?thesis by (auto simp: inputs_def map_update_same quiet_inputs_def split: option.split)
next
  case (ChannelData a payload)
  then show ?thesis by (auto simp: inputs_def map_update quiet_inputs_def split: option.split)
next
  case (ChannelEof a)
  then show ?thesis by (auto simp: inputs_def inputs_close close_input_def map_update list_update_beyond quiet_inputs_def split: option.split)
qed (use assms in \<open>simp_all add: inputs_def reply_def quiet_inputs_def split: option.split\<close>)

lemma input_run_closed:
  "list_all quiet es \<Longrightarrow> st_input_sender s = None \<Longrightarrow> inputs (ssh_run os cfg es s) = inputs s"
proof (induction es arbitrary: s)
  case (Cons e es)
  from Cons.prems(1) have "quiet e" by simp
  from quiet_step [OF this, of os cfg s] obtain s' where s': "ssh_handle os cfg e s = Inr s'" "inputs s' = inputs s" "st_input_sender s' = None"
    by (auto simp: Cons.prems(2) quiet_inputs_def split: ssh_event.splits)
  with Cons show ?case by simp
qed simp

lemma input_run:
  "list_all quiet es \<Longrightarrow> st_input_sender s = Some i \<Longrightarrow> i < length (st_processes s) \<Longrightarrow>
     inputs (ssh_run os cfg es s) = (inputs s)[i := (fst (inputs s ! i) @ sent_input es,
       snd (inputs s ! i) \<and> list_all (\<lambda>e. case e of ChannelEof _ \<Rightarrow> False | _ \<Rightarrow> True) es)]"
proof (induction es arbitrary: s)
  case (Cons e es)
  from Cons.prems(1) have q: "quiet e" "list_all quiet es" by simp_all
  from quiet_step [OF q(1), of os cfg s] obtain s' where h: "ssh_handle os cfg e s = Inr s'"
    and i': "inputs s' = quiet_inputs e (st_input_sender s) (inputs s)"
    and sn: "st_input_sender s' = (case e of ChannelEof _ \<Rightarrow> None | _ \<Rightarrow> st_input_sender s)"
    and len: "length (st_processes s') = length (st_processes s)" by blast
  show ?case
  proof (cases "\<exists>a. e = ChannelEof a")
    case True
    with h i' sn Cons.prems(2,3) input_run_closed [OF q(2), of s' os cfg] show ?thesis by (auto simp: quiet_inputs_def)
  next
    case False
    then have "st_input_sender s' = Some i" "i < length (st_processes s')" using sn len Cons.prems by (auto split: ssh_event.splits)
    from Cons.IH [OF q(2) this] h i' False Cons.prems(2,3) show ?thesis by (cases e) (auto simp: quiet_inputs_def)
  qed
qed (simp add: list_update_same_conv)

lemma spawn_process_fresh:
  "spawn_process os cfg n channel command term window = Inr p \<Longrightarrow> sp_input p = [] \<and> sp_input_open p \<and> sp_channel p = channel"
  by (auto simp: spawn_process_def split: option.splits)

lemma exec_starts:
  assumes "ssh_handle os cfg (ExecRequest channel payload) s = Inr s'" "trim_ws (from_utf8_lossy payload) \<noteq> []"
  shows "inputs s' = (case st_input_sender s of None \<Rightarrow> inputs s | Some i \<Rightarrow> (inputs s)[i := (sp_input (st_processes s ! i), False)]) @ [([], True)]
    \<and> st_input_sender s' = Some (length (st_processes s)) \<and> length (st_processes s') = Suc (length (st_processes s))"
proof -
  from assms obtain p r where "s' = start_process p r" "sp_input p = []" "sp_input_open p" "st_processes r = st_processes s"
    "st_input_sender r = st_input_sender s"
    by (auto simp: Let_def start_shell_def spawn_pty_shell_def spawn_pipe_exec_def reply_def split: option.splits dest!: spawn_process_fresh)
  moreover from this have "length (st_processes s') = Suc (length (st_processes s))"
    by (auto simp: start_process_def close_input_def split: option.split)
  ultimately show ?thesis by (simp add: inputs_def start_process_def inputs_close split: option.split)
qed

text \<open>A session has one standard input, that of the process started last. A new command cuts off the process that had it, on
  whatever channel that runs, and from then on the data of every channel goes to the new process, up to the first end-of-file of any
  channel; the earlier processes get nothing more.\<close>

theorem channels_share_one_input:
  assumes "ssh_handle os cfg (ExecRequest channel payload) s = Inr s'" "trim_ws (from_utf8_lossy payload) \<noteq> []" "list_all quiet events"
  shows "inputs (ssh_run os cfg events s') =
    (case st_input_sender s of None \<Rightarrow> inputs s | Some i \<Rightarrow> (inputs s)[i := (sp_input (st_processes s ! i), False)])
    @ [(sent_input events, list_all (\<lambda>e. case e of ChannelEof _ \<Rightarrow> False | _ \<Rightarrow> True) events)]"
proof -
  have l: "length (case st_input_sender s of None \<Rightarrow> inputs s | Some i \<Rightarrow> (inputs s)[i := (sp_input (st_processes s ! i), False)])
      = length (st_processes s)" by (simp split: option.split)
  from exec_starts [OF assms(1,2)] input_run [OF assms(3), of s' "length (st_processes s)" os cfg] show ?thesis
    using l by (simp add: list_update_append nth_append)
qed

definition exec_os :: "(credentials, bytes) session_os" where
  "exec_os = \<lparr>sx_kernel = bare_kernel [''/usr'', ''/tmp''], sx_unistd = posix_unistd image_users image_groups (\<lambda>_. []), sx_creds = root_credentials,
     sx_exec = (\<lambda>_. None), sx_openpty = None, sx_tty = None\<rparr>"

definition exec_config :: session_config where
  "exec_config = \<lparr>sn_policy = tmp_policy BestEffort, sn_workdir = None, sn_netns_fd = Some 7, sn_proxy_url = None, sn_ca_file_paths = None,
     sn_provider_env = [], sn_path_var = None\<rparr>"

lemma exec_config_runs:
  assumes "st_pty_request s = None" "trim_ws (from_utf8_lossy payload) \<noteq> []"
  obtains s' where "ssh_handle exec_os exec_config (ExecRequest channel payload) s = Inr s'" "st_pty_request s' = None"
proof -
  have d: "\<exists>c'. drop_privileges (sx_unistd exec_os) (rp_process (sn_policy exec_config)) (sx_creds exec_os) = Inr c'"
    by (simp add: exec_os_def exec_config_def tmp_policy_def drop_privileges_def nonempty_name_def drop_named_def drop_user_def drop_group_def
        image_users_def image_groups_def root_credentials_def switch_group_def switch_user_def posix_setuid_def posix_setgid_def posix_initgroups_def)
  have l: "\<exists>r. landlock_apply (sx_kernel exec_os) (sn_policy exec_config) (sn_workdir exec_config) c = Inr r" for c
    by (simp add: landlock_apply_def exec_config_def tmp_policy_def split: sum.split)
  have sc: "\<exists>r. seccomp_apply (sx_kernel exec_os) (sn_policy exec_config) = Inr r"
    by (simp add: seccomp_apply_def exec_os_def exec_config_def tmp_policy_def bare_kernel_def build_filter_def Let_def proxy_network_def)
  have "\<exists>cf. session_pre_exec exec_os exec_config False = Inr cf"
    using d l sc by (auto simp: session_pre_exec_def enter_netns_and_sandbox_def) (auto simp: exec_config_def exec_os_def bare_kernel_def)
  then have "\<exists>p. spawn_pipe_exec exec_os exec_config n channel command = Inr p" for n command
    by (auto simp: spawn_pipe_exec_def spawn_process_def exec_os_def)
  from this [of "length (st_processes s)" "Some (trim_ws (from_utf8_lossy payload))"] assms that show thesis
    by (auto simp: Let_def start_shell_def reply_def start_process_def)
qed

theorem channels_share_one_input_witness:
  "\<exists>s1 s2. ssh_handle exec_os exec_config (ExecRequest 1 ''cat'') new_session = Inr s1
     \<and> ssh_handle exec_os exec_config (ExecRequest 2 ''cat'') s1 = Inr s2
     \<and> inputs (ssh_run exec_os exec_config [ChannelData 1 ''for one'', ChannelEof 1, ChannelData 2 ''for two''] s2)
         = [([], False), (''for one'', False)]"
proof -
  have cmd: "trim_ws (from_utf8_lossy ''cat'') \<noteq> []" by code_simp
  obtain s1 where s1: "ssh_handle exec_os exec_config (ExecRequest 1 ''cat'') new_session = Inr s1" "st_pty_request s1 = None"
    by (rule exec_config_runs [of new_session "''cat''" 1]) (use cmd in \<open>simp_all add: new_session_def\<close>)
  obtain s2 where s2: "ssh_handle exec_os exec_config (ExecRequest 2 ''cat'') s1 = Inr s2"
    by (rule exec_config_runs [of s1 "''cat''" 2]) (use cmd s1 in simp_all)
  from exec_starts [OF s1(1) cmd] have i1: "inputs s1 = [([], True)]" "st_input_sender s1 = Some 0"
    by (simp_all add: new_session_def inputs_def)
  then have z: "sp_input (st_processes s1 ! 0) = []" by (auto simp: inputs_def)
  have "list_all quiet [ChannelData 1 ''for one'', ChannelEof 1, ChannelData 2 ''for two'']" by simp
  from channels_share_one_input [OF s2 cmd this] s1(1) s2 i1 z show ?thesis by auto
qed

end
