(* ===== verification/Supervisor.thy ===== *)
theory Supervisor
  imports Confinement Gateway_Policy
begin

text \<open>
  Where the sandbox's policy comes from and how it stays current, \<open>crates/clustershell-sandbox/src/lib.rs\<close> with the gateway
  client of \<open>grpc_client.rs\<close>: \<open>load_policy\<close> at start-up and the loop that polls for changes. The gateway is a parameter with
  its own state, answering the messages that \<open>Gateway_Policy\<close> defines; files and YAML are parameters.
\<close>

section \<open>The gateway as its client sees it\<close>

record 'g gateway =
  gw_connect :: "'g \<Rightarrow> (report, unit) result \<times> 'g"
  gw_get_sandbox_config :: "bytes \<Rightarrow> 'g \<Rightarrow> (report, sandbox_config) result \<times> 'g"
  gw_update_config :: "update_config_request \<Rightarrow> 'g \<Rightarrow> (report, unit) result \<times> 'g"

type_synonym ('g, 'a) remote = "'g \<Rightarrow> (report, 'a) result \<times> 'g"

definition rbind :: "('g, 'a) remote \<Rightarrow> ('a \<Rightarrow> ('g, 'b) remote) \<Rightarrow> ('g, 'b) remote" where
  "rbind m f g = (case m g of (Inl e, g') \<Rightarrow> (Inl e, g') | (Inr a, g') \<Rightarrow> f a g')"

definition rlift :: "(report, 'a) result \<Rightarrow> ('g, 'a) remote" where
  "rlift r g = (r, g)"

definition fetch_policy_with_client :: "'g gateway \<Rightarrow> bytes \<Rightarrow> ('g, sandbox_policy option) remote" where
  "fetch_policy_with_client G sandbox_id =
     rbind (gw_get_sandbox_config G sandbox_id) (\<lambda>inner.
       if gc_version inner = 0 \<and> gc_policy inner = None then rlift (Inr None)
       else rlift (result_bind (ok_or ''Server returned non-zero version but empty policy'' (gc_policy inner)) (\<lambda>p. Inr (Some p))))"

definition fetch_policy :: "'g gateway \<Rightarrow> bytes \<Rightarrow> ('g, sandbox_policy option) remote" where
  "fetch_policy G sandbox_id = rbind (gw_connect G) (\<lambda>_. fetch_policy_with_client G sandbox_id)"

definition sync_request :: "bytes \<Rightarrow> sandbox_policy \<Rightarrow> update_config_request" where
  "sync_request sandbox policy =
     \<lparr>uc_name = sandbox, uc_policy = Some policy, uc_setting_key = [], uc_setting_value = None, uc_delete_setting = False, uc_global = False\<rparr>"

definition sync_policy_with_client :: "'g gateway \<Rightarrow> bytes \<Rightarrow> sandbox_policy \<Rightarrow> ('g, unit) remote" where
  "sync_policy_with_client G sandbox policy =
     (\<lambda>g. apfst (result_map_err (\<lambda>e. ''failed to sync policy to server: '' @ e)) (gw_update_config G (sync_request sandbox policy) g))"

definition sync_policy :: "'g gateway \<Rightarrow> bytes \<Rightarrow> sandbox_policy \<Rightarrow> ('g, unit) remote" where
  "sync_policy G sandbox policy = rbind (gw_connect G) (\<lambda>_. sync_policy_with_client G sandbox policy)"

definition discover_and_sync_policy :: "'g gateway \<Rightarrow> bytes \<Rightarrow> bytes \<Rightarrow> sandbox_policy \<Rightarrow> ('g, sandbox_policy) remote" where
  "discover_and_sync_policy G sandbox_id sandbox discovered =
     rbind (gw_connect G) (\<lambda>_.
     rbind (sync_policy_with_client G sandbox discovered) (\<lambda>_.
     rbind (fetch_policy_with_client G sandbox_id) (\<lambda>p.
       rlift (ok_or (''Server still returned no policy after sync '' @ [CHR 0xE2, CHR 0x80, CHR 0x94] @ '' this is a bug'') p))))"

section \<open>Discovery on disk\<close>

text \<open>\<open>read_to_string\<close> is the file system, \<open>from_str\<close> the YAML parser. The validator may panic.\<close>

record disk =
  dk_exists :: "bytes \<Rightarrow> bool"
  dk_read_to_string :: "bytes \<Rightarrow> (report, bytes) result"
  dk_yaml_policy :: "bytes \<Rightarrow> (report, policy_file) result"
  dk_yaml_data :: "bytes \<Rightarrow> (report, json) result"
  dk_rego_package :: "bytes \<Rightarrow> (report, bytes) result"

definition CONTAINER_POLICY_PATH :: bytes where
  "CONTAINER_POLICY_PATH = ''/etc/clustershell/policy.yaml''"

definition LEGACY_CONTAINER_POLICY_PATH :: bytes where
  "LEGACY_CONTAINER_POLICY_PATH = ''/etc/navigator/policy.yaml''"

definition discover_policy_from_path :: "disk \<Rightarrow> bytes \<Rightarrow> sandbox_policy outcome" where
  "discover_policy_from_path D path =
     (case dk_read_to_string D path of
        Inl _ \<Rightarrow> Returned restrictive_default_policy
      | Inr yaml \<Rightarrow>
          (case parse_sandbox_policy (dk_yaml_policy D) yaml of
             Inl _ \<Rightarrow> Returned restrictive_default_policy
           | Inr policy \<Rightarrow>
               (case validate_sandbox_policy policy of
                  None \<Rightarrow> Panicked
                | Some (Inl violations) \<Rightarrow> Returned restrictive_default_policy
                | Some (Inr _) \<Rightarrow> Returned policy)))"

definition discover_policy_from_disk_or_default :: "disk \<Rightarrow> sandbox_policy outcome" where
  "discover_policy_from_disk_or_default D =
     (if dk_exists D CONTAINER_POLICY_PATH then discover_policy_from_path D CONTAINER_POLICY_PATH
      else if dk_exists D LEGACY_CONTAINER_POLICY_PATH then discover_policy_from_path D LEGACY_CONTAINER_POLICY_PATH
      else discover_policy_from_path D CONTAINER_POLICY_PATH)"

section \<open>Loading\<close>

text \<open>\<open>OpaEngine::from_files\<close>: the module's package stands for the module.\<close>

definition engine_from_files :: "disk \<Rightarrow> bytes \<Rightarrow> bytes \<Rightarrow> (report, opa_engine) result" where
  "engine_from_files D policy_path data_path =
     result_bind (result_map_err (\<lambda>e. ''failed to read YAML data from '' @ data_path @ '': '' @ e) (dk_read_to_string D data_path)) (\<lambda>yaml.
     result_bind (dk_rego_package D policy_path) (\<lambda>pkg.
     result_bind (preprocess_yaml_data (dk_yaml_data D) yaml) (\<lambda>d. Inr (engine_from_data pkg d))))"

text \<open>Rego evaluation of the static configuration has no input; \<open>no_input\<close> stands for it.\<close>

definition load_policy_files ::
  "builtins \<Rightarrow> rego_input \<Rightarrow> disk \<Rightarrow> bytes \<Rightarrow> bytes \<Rightarrow> (report, runtime_policy \<times> opa_engine) result" where
  "load_policy_files B no_input D policy_file data_file =
     result_bind (engine_from_files D policy_file data_file) (\<lambda>engine.
     result_bind (query_sandbox_config B engine no_input) (\<lambda>config.
       Inr (enrich_sandbox_baseline_paths (runtime_of_config config), engine)))"

text \<open>The policy the gateway has, or the discovered one once the gateway has taken it.\<close>

definition obtain_policy :: "'g gateway \<Rightarrow> disk \<Rightarrow> bytes \<Rightarrow> bytes option \<Rightarrow> 'g \<Rightarrow> ((report, sandbox_policy) result \<times> 'g) outcome" where
  "obtain_policy G D sandbox_id sandbox g =
     (case fetch_policy G sandbox_id g of
        (Inl e, g') \<Rightarrow> Returned (Inl e, g')
      | (Inr (Some p), g') \<Rightarrow> Returned (Inr p, g')
      | (Inr None, g') \<Rightarrow>
          (case discover_policy_from_disk_or_default D of
             Panicked \<Rightarrow> Panicked
           | Returned discovered \<Rightarrow>
               Returned (case sandbox of
                 None \<Rightarrow> (Inl (''Cannot sync discovered policy: sandbox not available.'' @ [CHR 0x0A]
                     @ ''Set CLUSTERSHELL_SANDBOX or --sandbox to enable policy sync.''), g')
               | Some name \<Rightarrow> discover_and_sync_policy G sandbox_id name (snd (enrich_proto_baseline_paths discovered)) g')))"

text \<open>A policy the baseline paths were added to is sent back; a failure of that is only logged.\<close>

definition sync_enriched :: "'g gateway \<Rightarrow> bytes option \<Rightarrow> bool \<times> sandbox_policy \<Rightarrow> 'g \<Rightarrow> 'g" where
  "sync_enriched G sandbox enriched g =
     (case sandbox of
        Some name \<Rightarrow> (if fst enriched then snd (sync_policy G name (snd enriched) g) else g)
      | None \<Rightarrow> g)"

definition load_policy_gateway ::
  "'g gateway \<Rightarrow> disk \<Rightarrow> bytes \<Rightarrow> bytes option \<Rightarrow> 'g \<Rightarrow> ((report, runtime_policy \<times> opa_engine) result \<times> 'g) outcome" where
  "load_policy_gateway G D sandbox_id sandbox g =
     (case obtain_policy G D sandbox_id sandbox g of
        Panicked \<Rightarrow> Panicked
      | Returned (Inl e, g') \<Rightarrow> Returned (Inl e, g')
      | Returned (Inr p, g') \<Rightarrow>
          (let enriched = enrich_proto_baseline_paths p; g'' = sync_enriched G sandbox enriched g' in
           Returned (result_bind (engine_from_proto (snd enriched)) (\<lambda>engine. Inr (runtime_of_proto (snd enriched), engine)), g'')))"

definition POLICY_REQUIRED :: report where
  "POLICY_REQUIRED = ''Sandbox policy required. Provide one of:'' @ [CHR 0x0A]
     @ ''- --policy-rules and --policy-data (or CLUSTERSHELL_POLICY_RULES and CLUSTERSHELL_POLICY_DATA env vars)'' @ [CHR 0x0A]
     @ ''- --sandbox-id and --clustershell-endpoint (or CLUSTERSHELL_SANDBOX_ID and CLUSTERSHELL_ENDPOINT env vars)''"

definition load_policy ::
  "builtins \<Rightarrow> rego_input \<Rightarrow> 'g gateway \<Rightarrow> disk \<Rightarrow> bytes option \<Rightarrow> bytes option \<Rightarrow> bytes option \<Rightarrow> bytes option \<Rightarrow> bytes option \<Rightarrow> 'g
     \<Rightarrow> ((report, runtime_policy \<times> opa_engine) result \<times> 'g) outcome" where
  "load_policy B no_input G D sandbox_id sandbox endpoint policy_rules policy_data g =
     (case (policy_rules, policy_data) of
        (Some policy_file, Some data_file) \<Rightarrow> Returned (load_policy_files B no_input D policy_file data_file, g)
      | _ \<Rightarrow>
          (case (sandbox_id, endpoint) of
             (Some sid, Some _) \<Rightarrow> load_policy_gateway G D sid sandbox g
           | _ \<Rightarrow> Returned (Inl POLICY_REQUIRED, g)))"

section \<open>Polling\<close>

text \<open>\<open>format_setting_value\<close> and the lines \<open>log_setting_changes\<close> writes.\<close>

definition format_setting_value :: "effective_setting \<Rightarrow> bytes" where
  "format_setting_value es =
     (case es_value es of
        Some (Some (StringValue v)) \<Rightarrow> v
      | Some (Some (BoolValue v)) \<Rightarrow> (if v then ''true'' else ''false'')
      | Some (Some (IntValue v)) \<Rightarrow> show_int v
      | Some (Some (BytesValue _)) \<Rightarrow> ''<bytes>''
      | _ \<Rightarrow> ''<unset>'')"

datatype setting_change = SettingChanged bytes bytes bytes | SettingAdded bytes bytes | SettingRemoved bytes

definition log_setting_changes ::
  "(bytes \<times> effective_setting) list \<Rightarrow> (bytes \<times> effective_setting) list \<Rightarrow> setting_change list" where
  "log_setting_changes old new =
     concat (map (\<lambda>(key, new_es).
       case map_of old key of
         Some old_es \<Rightarrow>
           (if format_setting_value old_es \<noteq> format_setting_value new_es
            then [SettingChanged key (format_setting_value old_es) (format_setting_value new_es)] else [])
       | None \<Rightarrow> [SettingAdded key (format_setting_value new_es)]) new)
     @ map SettingRemoved (filter (\<lambda>key. map_of new key = None) (map fst old))"

text \<open>The loop's variables, the engine it shares with the proxy, and the reports and log lines it produced.\<close>

record poll_state =
  pl_config_revision :: nat
  pl_policy_hash :: bytes
  pl_settings :: "(bytes \<times> effective_setting) list"
  pl_engine :: opa_engine
  pl_reports :: "(nat \<times> bool \<times> bytes) list"
  pl_changes :: "setting_change list"

definition poll_start :: "opa_engine \<Rightarrow> poll_state" where
  "poll_start engine = \<lparr>pl_config_revision = 0, pl_policy_hash = [], pl_settings = [], pl_engine = engine, pl_reports = [], pl_changes = []\<rparr>"

definition remember :: "sandbox_config \<Rightarrow> poll_state \<Rightarrow> poll_state" where
  "remember result st =
     st\<lparr>pl_config_revision := gc_config_revision result, pl_policy_hash := gc_policy_hash result, pl_settings := gc_settings result\<rparr>"

definition poll_initial :: "(report, sandbox_config) result \<Rightarrow> poll_state \<Rightarrow> poll_state" where
  "poll_initial r st = (case r of Inr result \<Rightarrow> remember result st | Inl _ \<Rightarrow> st)"

text \<open>\<open>pkg\<close> is the package of the compiled-in module. A failed report is only logged.\<close>

definition poll_reload :: "bytes \<Rightarrow> sandbox_config \<Rightarrow> sandbox_policy \<Rightarrow> poll_state \<Rightarrow> poll_state" where
  "poll_reload pkg result policy st =
     (let (r, engine) = reload_from_proto pkg (pl_engine st) policy;
          report = (\<lambda>entry. if gc_version result > 0 \<and> gc_policy_source result = SourceSandbox then [entry] else []) in
      st\<lparr>pl_engine := engine,
         pl_reports := pl_reports st @ (case r of Inr _ \<Rightarrow> report (gc_version result, True, []) | Inl e \<Rightarrow> report (gc_version result, False, e))\<rparr>)"

definition poll_step :: "bytes \<Rightarrow> (report, sandbox_config) result \<Rightarrow> poll_state \<Rightarrow> poll_state" where
  "poll_step pkg r st =
     (case r of
        Inl _ \<Rightarrow> st
      | Inr result \<Rightarrow>
          (if gc_config_revision result = pl_config_revision st then st
           else let policy_changed = (gc_policy_hash result \<noteq> pl_policy_hash st);
                    logged = st\<lparr>pl_changes := pl_changes st @ log_setting_changes (pl_settings st) (gc_settings result)\<rparr> in
                if policy_changed then
                  (case gc_policy result of
                     None \<Rightarrow> remember result logged
                   | Some policy \<Rightarrow> remember result (poll_reload pkg result policy logged))
                else remember result logged))"

text \<open>\<open>run_policy_poll_loop\<close> on the answers it gets, the first one for the initial poll.\<close>

fun run_policy_poll_loop :: "bytes \<Rightarrow> opa_engine \<Rightarrow> (report, sandbox_config) result list \<Rightarrow> poll_state" where
  "run_policy_poll_loop pkg engine [] = poll_start engine"
| "run_policy_poll_loop pkg engine (r # rs) = fold (poll_step pkg) rs (poll_initial r (poll_start engine))"

section \<open>Facts: discovery\<close>

lemma restrictive_default_safe: "safe_policy restrictive_default_policy"
  by (simp add: safe_policy_def safe_process_def safe_filesystem_def safe_path_def restrictive_default_policy_def
      MAX_FILESYSTEM_PATHS_def MAX_PATH_LENGTH_def)

lemma discover_from_path_safe: "discover_policy_from_path D path = Returned p \<Longrightarrow> safe_policy p"
  by (auto simp: discover_policy_from_path_def restrictive_default_safe validate_ok_iff split: sum.splits option.splits)

lemma discover_safe: "discover_policy_from_disk_or_default D = Returned p \<Longrightarrow> safe_policy p"
  by (auto simp: discover_policy_from_disk_or_default_def split: if_splits intro: discover_from_path_safe)

lemma baseline_paths_safe:
  "p \<in> set PROXY_BASELINE_READ_ONLY \<Longrightarrow> safe_path p"
  "p \<in> set PROXY_BASELINE_READ_WRITE \<Longrightarrow> safe_path p \<and> (\<exists>c\<in>set p. c \<noteq> CHR ''/'')"
proof -
  have "list_all safe_path PROXY_BASELINE_READ_ONLY" "list_all (\<lambda>p. safe_path p \<and> (\<exists>c\<in>set p. c \<noteq> CHR ''/'')) PROXY_BASELINE_READ_WRITE"
    by (simp_all add: PROXY_BASELINE_READ_ONLY_def PROXY_BASELINE_READ_WRITE_def safe_path_def MAX_PATH_LENGTH_def)
  then show "p \<in> set PROXY_BASELINE_READ_ONLY \<Longrightarrow> safe_path p"
    "p \<in> set PROXY_BASELINE_READ_WRITE \<Longrightarrow> safe_path p \<and> (\<exists>c\<in>set p. c \<noteq> CHR ''/'')"
    unfolding list_all_iff by blast+
qed

definition path_count :: "sandbox_policy \<Rightarrow> nat" where
  "path_count p = (case sp_filesystem p of None \<Rightarrow> 0 | Some fs \<Rightarrow> length (fs_read_only fs) + length (fs_read_write fs))"

lemma enrich_safe:
  assumes "safe_policy p"
  shows "safe_policy (snd (enrich_proto_baseline_paths p)) \<longleftrightarrow> path_count (snd (enrich_proto_baseline_paths p)) \<le> MAX_FILESYSTEM_PATHS"
proof -
  define fs where "fs = (case sp_filesystem p of None \<Rightarrow> \<lparr>fs_include_workdir = True, fs_read_only = [], fs_read_write = []\<rparr> | Some f \<Rightarrow> f)"
  have fs: "\<forall>q\<in>set (fs_read_only fs) \<union> set (fs_read_write fs). safe_path q" "\<forall>q\<in>set (fs_read_write fs). \<exists>c\<in>set q. c \<noteq> CHR ''/''"
    using assms by (auto simp: fs_def safe_policy_def safe_filesystem_def split: option.splits)
  let ?ro = "snd (push_missing_paths (=) PROXY_BASELINE_READ_ONLY (fs_read_only fs))"
  let ?rw = "snd (push_missing_paths (=) PROXY_BASELINE_READ_WRITE (fs_read_write fs))"
  have ro: "safe_path q" if "q \<in> set ?ro" for q
    using text_eq.push_adds_baseline [OF that] fs(1) baseline_paths_safe(1) by blast
  have rw: "safe_path q \<and> (\<exists>c\<in>set q. c \<noteq> CHR ''/'')" if "q \<in> set ?rw" for q
    using text_eq.push_adds_baseline [OF that]
  proof
    assume "q \<in> set (fs_read_write fs)"
    with fs show ?thesis by simp
  qed (rule baseline_paths_safe(2))
  have all: "\<forall>q\<in>set ?ro \<union> set ?rw. safe_path q" "\<forall>q\<in>set ?rw. \<exists>c\<in>set q. c \<noteq> CHR ''/''"
    using ro rw by (simp_all add: ball_Un)
  show ?thesis
  proof (cases "sp_network_policies p = []")
    case True
    with assms show ?thesis
      by (auto simp: enrich_proto_baseline_paths_def safe_policy_def safe_filesystem_def path_count_def split: option.splits)
  next
    case False
    then have "snd (enrich_proto_baseline_paths p) = p\<lparr>sp_filesystem := Some (fs\<lparr>fs_read_only := ?ro, fs_read_write := ?rw\<rparr>)\<rparr>"
      by (simp add: enrich_proto_baseline_paths_def Let_def split_beta fs_def)
    with all assms show ?thesis by (auto simp: safe_policy_def safe_filesystem_def path_count_def)
  qed
qed

lemma validate_policy_safety_iff: "validate_policy_safety p = Inr () \<longleftrightarrow> safe_policy p"
  unfolding validate_ok_iff [symmetric] by (auto simp: validate_policy_safety_def split: option.splits sum.splits)

text \<open>Whatever is on the image's disk, the policy the supervisor discovers for a sandbox that has none is safe, the restrictive
  default when the file is missing, does not parse or is not safe. With the baseline paths added it passes the gateway's own safety check,
  unless the added paths exceed the limit on their number; and it keeps every path and every network rule of the discovered one.\<close>

theorem discovered_policy_is_safe:
  assumes "discover_policy_from_disk_or_default D = Returned p"
  shows "safe_policy p
    \<and> (validate_policy_safety (snd (enrich_proto_baseline_paths p)) = Inr () \<longleftrightarrow> path_count (snd (enrich_proto_baseline_paths p)) \<le> MAX_FILESYSTEM_PATHS)
    \<and> sp_network_policies (snd (enrich_proto_baseline_paths p)) = sp_network_policies p
    \<and> (\<forall>fs. sp_filesystem p = Some fs \<longrightarrow> (\<exists>fs'. sp_filesystem (snd (enrich_proto_baseline_paths p)) = Some fs'
          \<and> set (fs_read_only fs) \<subseteq> set (fs_read_only fs') \<and> set (fs_read_write fs) \<subseteq> set (fs_read_write fs')))"
proof (intro conjI)
  show safe: "safe_policy p" by (rule discover_safe [OF assms])
  show "validate_policy_safety (snd (enrich_proto_baseline_paths p)) = Inr () \<longleftrightarrow> path_count (snd (enrich_proto_baseline_paths p)) \<le> MAX_FILESYSTEM_PATHS"
    unfolding validate_policy_safety_iff by (rule enrich_safe [OF safe])
  show "sp_network_policies (snd (enrich_proto_baseline_paths p)) = sp_network_policies p"
    by (simp add: enrich_proto_baseline_paths_def Let_def split_beta)
  show "\<forall>fs. sp_filesystem p = Some fs \<longrightarrow> (\<exists>fs'. sp_filesystem (snd (enrich_proto_baseline_paths p)) = Some fs'
      \<and> set (fs_read_only fs) \<subseteq> set (fs_read_only fs') \<and> set (fs_read_write fs) \<subseteq> set (fs_read_write fs'))"
    by (auto simp: enrich_proto_baseline_paths_def Let_def split_beta intro: text_eq.push_keeps)
qed

text \<open>An image whose policy asks to run as root.\<close>

definition rooted_disk :: disk where
  "rooted_disk = \<lparr>dk_exists = (\<lambda>p. p = CONTAINER_POLICY_PATH), dk_read_to_string = (\<lambda>_. Inr ''process: {run_as_user: root}''),
     dk_yaml_policy = (\<lambda>_. Inr \<lparr>pf_version = 1, pf_filesystem_policy = None, pf_landlock = None,
        pf_process = Some \<lparr>pd_run_as_user = ''root'', pd_run_as_group = []\<rparr>, pf_network_policies = []\<rparr>),
     dk_yaml_data = (\<lambda>_. Inl []), dk_rego_package = (\<lambda>_. Inl [])\<rparr>"

theorem discovered_policy_is_safe_witness:
  "discover_policy_from_disk_or_default rooted_disk = Returned restrictive_default_policy \<and> safe_policy restrictive_default_policy"
proof -
  have d: "discover_policy_from_disk_or_default rooted_disk = Returned restrictive_default_policy" by code_simp
  from discovered_policy_is_safe [OF d] d show ?thesis by blast
qed

section \<open>Facts: polling\<close>

lemma loaded_not_poisoned: "engine_load_proto pkg p = Inr e \<Longrightarrow> \<not> eng_poisoned e"
  by (auto simp: engine_load_proto_def engine_from_data_def)

lemma reload_loaded:
  "\<not> eng_poisoned e \<Longrightarrow> engine_load_proto pkg p = Inr e' \<Longrightarrow> reload_from_proto pkg e p = (Inr (), e')"
  by (simp add: reload_from_proto_def engine_lock_def)

text \<open>The loop's variables and engine are those of an answer.\<close>

definition polled :: "bytes \<Rightarrow> sandbox_config \<Rightarrow> poll_state \<Rightarrow> bool" where
  "polled pkg a st \<longleftrightarrow> pl_config_revision st = gc_config_revision a \<and> pl_policy_hash st = gc_policy_hash a
     \<and> (\<exists>p. gc_policy a = Some p \<and> engine_load_proto pkg p = Inr (pl_engine st))"

definition identifies :: "sandbox_config \<Rightarrow> sandbox_config \<Rightarrow> bool" where
  "identifies a b \<longleftrightarrow> (gc_config_revision a = gc_config_revision b \<longrightarrow> gc_policy_hash a = gc_policy_hash b)
     \<and> (gc_policy_hash a = gc_policy_hash b \<longrightarrow> gc_policy a = gc_policy b)"

definition loadable :: "bytes \<Rightarrow> sandbox_config \<Rightarrow> bool" where
  "loadable pkg a \<longleftrightarrow> (\<exists>p e. gc_policy a = Some p \<and> engine_load_proto pkg p = Inr e)"

lemma poll_step_polled:
  assumes "polled pkg a st" "identifies b a" "loadable pkg b"
  shows "polled pkg b (poll_step pkg (Inr b) st)"
proof -
  obtain p where a: "pl_config_revision st = gc_config_revision a" "pl_policy_hash st = gc_policy_hash a" "gc_policy a = Some p"
    "engine_load_proto pkg p = Inr (pl_engine st)" using assms(1) by (auto simp: polled_def)
  obtain q e where b: "gc_policy b = Some q" "engine_load_proto pkg q = Inr e" using assms(3) by (auto simp: loadable_def)
  show ?thesis
  proof (cases "gc_policy_hash b = gc_policy_hash a")
    case True
    with assms(2) a b have "q = p" by (simp add: identifies_def)
    with True a b show ?thesis by (auto simp: poll_step_def polled_def remember_def Let_def)
  next
    case False
    with assms(2) have "gc_config_revision b \<noteq> gc_config_revision a" by (auto simp: identifies_def)
    with False a b reload_loaded [OF loaded_not_poisoned [OF a(4)] b(2)] show ?thesis
      by (auto simp: poll_step_def polled_def remember_def poll_reload_def Let_def)
  qed
qed

lemma polls_polled:
  assumes "polled pkg a st" "\<forall>x\<in>set (List.map_filter result_ok rs). loadable pkg x"
    and "\<forall>x\<in>set (a # List.map_filter result_ok rs). \<forall>y\<in>set (a # List.map_filter result_ok rs). identifies x y"
  shows "polled pkg (last (a # List.map_filter result_ok rs)) (fold (poll_step pkg) rs st)"
  using assms
proof (induction rs arbitrary: a st)
  case (Cons r rs)
  show ?case
  proof (cases r)
    case (Inl e)
    with Cons show ?thesis by (simp add: List.map_filter_simps poll_step_def)
  next
    case (Inr b)
    with Cons.prems have "polled pkg b (poll_step pkg r st)"
      by (intro poll_step_polled [of pkg a st b, folded Inr]) (auto simp: List.map_filter_simps)
    with Cons Inr show ?thesis by (auto simp: List.map_filter_simps)
  qed
qed (simp add: List.map_filter_simps)

text \<open>C11: As long as every policy the gateway serves loads and its revisions and hashes tell different policies apart, the engine the
  proxy asks is the one of the gateway's latest answer, through any number of polls, changes of settings only, and polls that fail; provided
  the first poll still answers with the policy the supervisor started with.\<close>

theorem polled_engine_is_current:
  assumes "engine_load_proto pkg p = Inr engine" "gc_policy first = Some p"
    and "\<forall>a\<in>set (List.map_filter result_ok rs). loadable pkg a"
    and "\<forall>a\<in>set (first # List.map_filter result_ok rs). \<forall>b\<in>set (first # List.map_filter result_ok rs). identifies a b"
  shows "\<exists>q. gc_policy (last (first # List.map_filter result_ok rs)) = Some q
    \<and> engine_load_proto pkg q = Inr (pl_engine (run_policy_poll_loop pkg engine (Inr first # rs)))"
proof -
  have "polled pkg first (poll_initial (Inr first) (poll_start engine))"
    using assms(1,2) by (simp add: polled_def poll_initial_def remember_def poll_start_def)
  from polls_polled [OF this assms(3,4)] show ?thesis by (simp add: polled_def)
qed

definition served_config :: "nat \<Rightarrow> sandbox_policy \<Rightarrow> sandbox_config" where
  "served_config n p = \<lparr>gc_policy = Some p, gc_version = n, gc_policy_hash = replicate n CHR ''h'', gc_settings = [], gc_config_revision = n,
     gc_policy_source = SourceSandbox, gc_global_policy_version = 0\<rparr>"

definition two_policies :: "nat \<Rightarrow> sandbox_policy" where
  "two_policies n = restrictive_default_policy\<lparr>sp_version := n\<rparr>"

lemma two_policies_load: "\<exists>e. engine_load_proto pkg (two_policies n) = Inr e"
proof -
  have "validate_l7_policies (proto_to_opa_data_json (two_policies n)) = ([], [])"
    by (simp add: two_policies_def restrictive_default_policy_def) code_simp
  then show ?thesis by (simp add: engine_load_proto_def validate_and_expand_def)
qed

theorem polled_engine_is_current_witness:
  "\<exists>engine q. engine_load_proto BAKED_PACKAGE (two_policies 1) = Inr engine
     \<and> engine_load_proto BAKED_PACKAGE q = Inr (pl_engine (run_policy_poll_loop BAKED_PACKAGE engine
           [Inr (served_config 1 (two_policies 1)), Inl ''unreachable'', Inr (served_config 2 (two_policies 2))]))
     \<and> q = two_policies 2"
proof -
  obtain engine where e: "engine_load_proto BAKED_PACKAGE (two_policies 1) = Inr engine" using two_policies_load by blast
  have f: "gc_policy (served_config 1 (two_policies 1)) = Some (two_policies 1)" by (simp add: served_config_def)
  have m: "List.map_filter result_ok [Inl ''unreachable'', Inr (served_config 2 (two_policies 2))] = [served_config 2 (two_policies 2)]"
    by (simp add: List.map_filter_simps)
  have l: "\<forall>a\<in>set (List.map_filter result_ok [Inl ''unreachable'', Inr (served_config 2 (two_policies 2))]). loadable BAKED_PACKAGE a"
    using two_policies_load unfolding m by (simp add: loadable_def served_config_def)
  have i: "\<forall>a\<in>set (served_config 1 (two_policies 1) # List.map_filter result_ok [Inl ''unreachable'', Inr (served_config 2 (two_policies 2))]).
      \<forall>b\<in>set (served_config 1 (two_policies 1) # List.map_filter result_ok [Inl ''unreachable'', Inr (served_config 2 (two_policies 2))]).
        identifies a b"
    unfolding m by (simp add: identifies_def served_config_def numeral_2_eq_2)
  from polled_engine_is_current [OF e f l i] e show ?thesis by (auto simp: m served_config_def)
qed

text \<open>A policy that changes between the supervisor's start-up fetch and its first poll is not loaded: the first poll only records the
  revision, so however often the same answer comes again, the engine stays the one built at start-up and nothing is reported.\<close>

theorem start_up_window_keeps_old_policy:
  "pl_engine (run_policy_poll_loop pkg engine (Inr changed # replicate n (Inr changed))) = engine
   \<and> pl_reports (run_policy_poll_loop pkg engine (Inr changed # replicate n (Inr changed))) = []"
proof -
  have "poll_step pkg (Inr changed) (remember changed st) = remember changed st" for st
    by (simp add: poll_step_def remember_def)
  then have "fold (poll_step pkg) (replicate n (Inr changed)) (remember changed (poll_start engine)) = remember changed (poll_start engine)"
    by (induction n) auto
  then show ?thesis by (simp add: poll_initial_def remember_def poll_start_def)
qed

end
