(* ===== verification/Gateway_Inference.thy ===== *)
theory Gateway_Inference
  imports Gateway_Policy Router Ssh_Tunnel
begin

text \<open>
  Inference routes at the gateway, \<open>crates/clustershell-server/src/inference.rs\<close>: the managed routes are stored with a
  provider's name and a model; a bundle resolves them to endpoints and credentials for the sandboxes. Endpoint verification is
  \<open>crates/clustershell-router/src/backend.rs\<close>. Protobuf of routes, the hasher and the HTTP client are parameters.
\<close>

section \<open>Stored routes\<close>

record cluster_inference_config =
  ci_provider_name :: bytes
  ci_model_id :: bytes

record inference_route =
  ir_id :: bytes
  ir_config :: "cluster_inference_config option"
  ir_name :: bytes
  ir_version :: nat

record route_codec =
  rx_route :: "inference_route \<Rightarrow> bytes"
  rx_route_of :: "bytes \<Rightarrow> (bytes, inference_route) result"

definition get_route_by_name :: "route_codec \<Rightarrow> bytes \<Rightarrow> inference_route option call" where
  "get_route_by_name R name = message_of (rx_route_of R) (execute (db_get_by_name ''inference_route'' name))"

definition put_route :: "route_codec \<Rightarrow> inference_route \<Rightarrow> unit call" where
  "put_route R r = execute (db_put ''inference_route'' (ir_id r) (ir_name r) (rx_route R r))"

definition CLUSTER_INFERENCE_ROUTE_NAME :: bytes where
  "CLUSTER_INFERENCE_ROUTE_NAME = ''inference.local''"

definition SANDBOX_SYSTEM_ROUTE_NAME :: bytes where
  "SANDBOX_SYSTEM_ROUTE_NAME = ''sandbox-system''"

definition effective_route_name :: "bytes \<Rightarrow> (status, bytes) result" where
  "effective_route_name name =
     (let t = trim_ws name in
      if t = [] \<or> t = ''inference.local'' then Inr CLUSTER_INFERENCE_ROUTE_NAME
      else if t = ''sandbox-system'' then Inr SANDBOX_SYSTEM_ROUTE_NAME
      else Inl (InvalidArgument, ''unknown route_name '' @ quoted t @ ''; expected 'inference.local' or '' @ quoted ''sandbox-system''))"

section \<open>Resolving a provider\<close>

text \<open>The first key with a value that is not blank.\<close>

fun first_value :: "(bytes \<times> bytes) list \<Rightarrow> bytes list \<Rightarrow> bytes option" where
  "first_value m [] = None"
| "first_value m (key # keys) =
     (case map_of m key of
        Some v \<Rightarrow> (if trim_ws v \<noteq> [] then Some v else first_value m keys)
      | None \<Rightarrow> first_value m keys)"

definition find_provider_api_key :: "provider \<Rightarrow> bytes list \<Rightarrow> bytes option" where
  "find_provider_api_key p preferred_key_names =
     (case first_value (pv_credentials p) preferred_key_names of
        Some v \<Rightarrow> Some v
      | None \<Rightarrow> first_value (pv_credentials p) (sort (map fst (pv_credentials p))))"

definition find_provider_config_value :: "provider \<Rightarrow> bytes list \<Rightarrow> bytes option" where
  "find_provider_config_value p preferred_keys = first_value (pv_config p) preferred_keys"

definition resolve_provider_route :: "provider \<Rightarrow> (status, bytes \<times> resolved_route) result" where
  "resolve_provider_route p =
     (let provider_type = to_ascii_lowercase (trim_ws (pv_type p)) in
      result_bind (ok_or (InvalidArgument, ''provider '' @ quoted (pv_name p) @ '' has unsupported type '' @ quoted provider_type
                     @ '' for cluster inference (supported: openai, anthropic, nvidia)'') (profile_for provider_type)) (\<lambda>profile.
      result_bind (ok_or (InvalidArgument, ''provider '' @ quoted (pv_name p) @ '' has no usable API key credential'')
                     (find_provider_api_key p (ipp_credential_key_names profile))) (\<lambda>api_key.
        let base_url = trim_ws (case find_provider_config_value p (ipp_base_url_config_keys profile) of
                                  Some u \<Rightarrow> u | None \<Rightarrow> ipp_default_base_url profile) in
        if base_url = [] then Inl (InvalidArgument, ''provider '' @ quoted (pv_name p) @ '' resolved to empty base_url'')
        else Inr (provider_type,
          \<lparr>rr_name = pv_name p, rr_endpoint = base_url, rr_model = [], rr_api_key = api_key, rr_protocols = ipp_protocols profile,
           rr_auth = ipp_auth profile, rr_default_headers = ipp_default_headers profile\<rparr>))))"

section \<open>Verifying an endpoint\<close>

record validated_endpoint =
  ve_url :: bytes
  ve_protocol :: bytes

datatype validation_failure_kind = RequestShape | Credentials | RateLimited | Connectivity | UpstreamHealth | Unexpected

record validation_probe =
  vp_path :: bytes
  vp_protocol :: bytes
  vp_body :: bytes

definition double_quote :: bytes where
  "double_quote = [CHR 0x22]"

definition json_text :: "bytes list \<Rightarrow> bytes" where
  "json_text parts = join_str double_quote parts"

text \<open>The three request bodies; \<open>json_text\<close> puts a quotation mark between its parts.\<close>

definition messages_probe :: bytes where
  "messages_probe = json_text [''{'', ''messages'', '':[{'', ''role'', '':'', ''user'', '','', ''content'', '':'', ''ping'', ''}],'', ''max_tokens'', '':32}'']"

definition responses_probe :: bytes where
  "responses_probe = json_text [''{'', ''input'', '':'', ''ping'', '','', ''max_output_tokens'', '':32}'']"

definition completions_probe :: bytes where
  "completions_probe = json_text [''{'', ''prompt'', '':'', ''ping'', '','', ''max_tokens'', '':32}'']"

definition validation_probe_for :: "resolved_route \<Rightarrow> (validation_failure_kind \<times> bytes, validation_probe) result" where
  "validation_probe_for route =
     (if ''openai_chat_completions'' \<in> set (rr_protocols route) then
        Inr \<lparr>vp_path = ''/v1/chat/completions'', vp_protocol = ''openai_chat_completions'', vp_body = messages_probe\<rparr>
      else if ''anthropic_messages'' \<in> set (rr_protocols route) then
        Inr \<lparr>vp_path = ''/v1/messages'', vp_protocol = ''anthropic_messages'', vp_body = messages_probe\<rparr>
      else if ''openai_responses'' \<in> set (rr_protocols route) then
        Inr \<lparr>vp_path = ''/v1/responses'', vp_protocol = ''openai_responses'', vp_body = responses_probe\<rparr>
      else if ''openai_completions'' \<in> set (rr_protocols route) then
        Inr \<lparr>vp_path = ''/v1/completions'', vp_protocol = ''openai_completions'', vp_body = completions_probe\<rparr>
      else Inl (RequestShape, ''route '' @ quoted (rr_name route) @ '' does not expose a writable inference protocol for validation''))"

fun send_failure :: "router_error \<Rightarrow> validation_failure_kind \<times> bytes" where
  "send_failure (UpstreamUnavailable details) = (Connectivity, details)"
| "send_failure (Internal details) = (Unexpected, details)"
| "send_failure (UpstreamProtocol details) = (Unexpected, details)"
| "send_failure (RouteNotFound details) = (Unexpected, details)"
| "send_failure (NoCompatibleRoute details) = (Unexpected, details)"
| "send_failure (Unauthorized details) = (Unexpected, details)"

definition status_failure_kind :: "nat \<Rightarrow> validation_failure_kind" where
  "status_failure_kind status =
     (if status \<in> {400, 404, 405, 422} then RequestShape
      else if status \<in> {401, 403} then Credentials
      else if status = 429 then RateLimited
      else if 500 \<le> status \<and> status \<le> 599 then UpstreamHealth
      else Unexpected)"

text \<open>\<open>show_status\<close> prints a status, \<open>text\<close> reads the body of the response.\<close>

record probe_client =
  pb_http :: http_client
  pb_show_status :: "nat \<Rightarrow> bytes"
  pb_text :: "streaming_response \<Rightarrow> (bytes, bytes) result"

definition status_details :: "probe_client \<Rightarrow> nat \<Rightarrow> bytes \<Rightarrow> bytes" where
  "status_details P status body_suffix =
     (let shown = pb_show_status P status in
      case status_failure_kind status of
        RequestShape \<Rightarrow> ''upstream rejected the validation request with HTTP '' @ shown @ ''.'' @ body_suffix
      | Credentials \<Rightarrow> ''upstream rejected credentials with HTTP '' @ shown @ ''.'' @ body_suffix
      | RateLimited \<Rightarrow> ''upstream rate-limited the validation request with HTTP '' @ shown @ ''.'' @ body_suffix
      | UpstreamHealth \<Rightarrow> ''upstream returned HTTP '' @ shown @ ''.'' @ body_suffix
      | _ \<Rightarrow> ''upstream returned unexpected HTTP '' @ shown @ ''.'' @ body_suffix)"

definition verify_backend_endpoint :: "probe_client \<Rightarrow> resolved_route \<Rightarrow> (validation_failure_kind \<times> bytes, validated_endpoint) result" where
  "verify_backend_endpoint P route =
     result_bind (validation_probe_for route) (\<lambda>probe.
       let endpoint = \<lparr>ve_url = build_backend_url (rr_endpoint route) (vp_path probe), ve_protocol = vp_protocol probe\<rparr> in
       if is_mock_route route then Inr endpoint
       else
         result_bind (result_map_err send_failure
             (send_backend_request (pb_http P) route ''POST'' (vp_path probe) [(''content-type'', ''application/json'')] (vp_body probe))) (\<lambda>response.
           if 200 \<le> sr_status response \<and> sr_status response \<le> 299 then Inr endpoint
           else
             result_bind (result_map_err (\<lambda>e. (Unexpected, ''failed to read validation response body: '' @ e)) (pb_text P response)) (\<lambda>body.
               let trimmed = trim_ws body;
                   body_suffix = (if trimmed = [] then [] else '' Response body: '' @ concat (take 200 (scalars trimmed))) in
               Inl (status_failure_kind (sr_status response), status_details P (sr_status response) body_suffix))))"

fun validation_next_steps :: "validation_failure_kind \<Rightarrow> bytes" where
  "validation_next_steps Credentials = ''verify the provider API key and any required auth headers''"
| "validation_next_steps RateLimited = ''retry later or verify quota/limits on the upstream provider''"
| "validation_next_steps RequestShape = ''confirm the provider type, base URL, and model identifier''"
| "validation_next_steps Connectivity = ''check that the service is running, confirm the base URL and protocol, and verify credentials''"
| "validation_next_steps UpstreamHealth = ''check whether the endpoint is healthy and serving requests''"
| "validation_next_steps Unexpected = ''confirm the endpoint URL, protocol, credentials, and model identifier''"

definition validation_failure :: "bytes \<Rightarrow> bytes \<Rightarrow> bytes \<Rightarrow> bytes \<Rightarrow> bytes \<Rightarrow> status" where
  "validation_failure provider_name model_id base_url details next_steps =
     (FailedPrecondition, ''failed to verify inference endpoint for provider '' @ quoted provider_name @ '' and model '' @ quoted model_id
        @ '' at '' @ quoted base_url @ '': '' @ details @ ''. Next steps: '' @ next_steps
        @ '', or retry with '--no-verify' if you want to skip verification'')"

definition verify_provider_endpoint :: "probe_client \<Rightarrow> bytes \<Rightarrow> bytes \<Rightarrow> resolved_route \<Rightarrow> (status, validated_endpoint) result" where
  "verify_provider_endpoint P provider_name model_id route =
     result_map_err (\<lambda>(kind, details). validation_failure provider_name model_id (rr_endpoint route) details (validation_next_steps kind))
       (verify_backend_endpoint P (route\<lparr>rr_model := model_id\<rparr>))"

section \<open>Setting and getting a route\<close>

text \<open>\<open>saturating_add\<close> on 64 bits.\<close>

definition next_route_version :: "nat \<Rightarrow> nat" where
  "next_route_version v = min (v + 1) (2 ^ 64 - 1)"

definition build_cluster_inference_config :: "provider \<Rightarrow> bytes \<Rightarrow> cluster_inference_config" where
  "build_cluster_inference_config p model_id = \<lparr>ci_provider_name = pv_name p, ci_model_id = model_id\<rparr>"

text \<open>The second half of \<open>upsert_cluster_inference_route\<close>: the next version of the route is written.\<close>

definition persist_route :: "route_codec \<Rightarrow> bytes \<Rightarrow> cluster_inference_config \<Rightarrow> inference_route handler" where
  "persist_route R route_name config =
     hbind (or_internal ''fetch route failed'' (get_route_by_name R route_name)) (\<lambda>existing.
     hbind (case existing of
              Some e \<Rightarrow> hreturn \<lparr>ir_id = ir_id e, ir_config = Some config, ir_name = ir_name e, ir_version = next_route_version (ir_version e)\<rparr>
            | None \<Rightarrow> hbind new_uuid (\<lambda>uuid. hreturn \<lparr>ir_id = uuid, ir_config = Some config, ir_name = route_name, ir_version = 1\<rparr>)) (\<lambda>route.
     hbind (or_internal ''persist route failed'' (put_route R route)) (\<lambda>_. hreturn route)))"

definition upsert_cluster_inference_route ::
  "codec \<Rightarrow> route_codec \<Rightarrow> probe_client \<Rightarrow> bytes \<Rightarrow> bytes \<Rightarrow> bytes \<Rightarrow> bool \<Rightarrow> (inference_route \<times> validated_endpoint list) handler" where
  "upsert_cluster_inference_route C R P route_name provider_name model_id verify =
     (if trim_ws provider_name = [] then hfail InvalidArgument ''provider_name is required''
      else if trim_ws model_id = [] then hfail InvalidArgument ''model_id is required''
      else
        hbind (or_internal ''fetch provider failed'' (get_provider_by_name C provider_name)) (\<lambda>found.
        hbind (hlift (ok_or (FailedPrecondition, ''provider '' @ quoted provider_name @ '' not found'') found)) (\<lambda>p.
        hbind (hlift (resolve_provider_route p)) (\<lambda>(provider_type, resolved).
        hbind (if verify then hlift (result_bind (verify_provider_endpoint P (pv_name p) model_id resolved) (\<lambda>v. Inr [v]))
               else hreturn []) (\<lambda>validation.
        hbind (persist_route R route_name (build_cluster_inference_config p model_id)) (\<lambda>route. hreturn (route, validation)))))))"

record inference_answer =
  ia_provider_name :: bytes
  ia_model_id :: bytes
  ia_version :: nat
  ia_route_name :: bytes
  ia_validated :: "validated_endpoint list"

definition set_cluster_inference ::
  "codec \<Rightarrow> route_codec \<Rightarrow> probe_client \<Rightarrow> bytes \<Rightarrow> bytes \<Rightarrow> bytes \<Rightarrow> bool \<Rightarrow> inference_answer handler" where
  "set_cluster_inference C R P req_route_name provider_name model_id no_verify =
     hbind (hlift (effective_route_name req_route_name)) (\<lambda>route_name.
     hbind (upsert_cluster_inference_route C R P route_name provider_name model_id (\<not> no_verify)) (\<lambda>(route, validation).
     hbind (hlift (ok_or (InternalStatus, ''managed route missing config'') (ir_config route))) (\<lambda>config.
       hreturn \<lparr>ia_provider_name = ci_provider_name config, ia_model_id = ci_model_id config, ia_version = ir_version route,
                ia_route_name = route_name, ia_validated = validation\<rparr>)))"

definition get_cluster_inference :: "route_codec \<Rightarrow> bytes \<Rightarrow> inference_answer handler" where
  "get_cluster_inference R req_route_name =
     hbind (hlift (effective_route_name req_route_name)) (\<lambda>route_name.
     hbind (or_internal ''fetch route failed'' (get_route_by_name R route_name)) (\<lambda>found.
     hbind (hlift (ok_or (NotFound, ''inference route '' @ quoted route_name
         @ '' is not configured; run '' @ quoted ''clustershell inference set --provider <name> --model <id>'') found)) (\<lambda>route.
     hbind (hlift (ok_or (InternalStatus, ''managed route missing config'') (ir_config route))) (\<lambda>config.
       if trim_ws (ci_provider_name config) = [] \<or> trim_ws (ci_model_id config) = [] then
         hfail FailedPrecondition ''managed route is missing provider/model metadata''
       else hreturn \<lparr>ia_provider_name = ci_provider_name config, ia_model_id = ci_model_id config, ia_version = ir_version route,
                     ia_route_name = route_name, ia_validated = []\<rparr>))))"

section \<open>Bundles\<close>

record bundle_route =
  bu_name :: bytes
  bu_base_url :: bytes
  bu_protocols :: "bytes list"
  bu_api_key :: bytes
  bu_model_id :: bytes
  bu_provider_type :: bytes

record inference_bundle =
  ib_routes :: "bundle_route list"
  ib_revision :: bytes
  ib_generated_at_ms :: int

definition resolve_route_by_name :: "codec \<Rightarrow> route_codec \<Rightarrow> bytes \<Rightarrow> bundle_route option handler" where
  "resolve_route_by_name C R route_name =
     hbind (or_internal ''fetch route failed'' (get_route_by_name R route_name)) (\<lambda>found.
       case found of
         None \<Rightarrow> hreturn None
       | Some route \<Rightarrow>
           (case ir_config route of
              None \<Rightarrow> hreturn None
            | Some config \<Rightarrow>
                (if trim_ws (ci_provider_name config) = [] then
                   hfail FailedPrecondition (''route '' @ quoted route_name @ '' is missing provider_name'')
                 else if trim_ws (ci_model_id config) = [] then
                   hfail FailedPrecondition (''route '' @ quoted route_name @ '' is missing model_id'')
                 else
                   hbind (or_internal ''fetch provider failed'' (get_provider_by_name C (ci_provider_name config))) (\<lambda>found.
                   hbind (hlift (ok_or (FailedPrecondition, ''configured provider '' @ quoted (ci_provider_name config) @ '' was not found'') found)) (\<lambda>p.
                   hbind (hlift (resolve_provider_route p)) (\<lambda>(provider_type, resolved).
                     hreturn (Some \<lparr>bu_name = route_name, bu_base_url = rr_endpoint resolved, bu_protocols = rr_protocols resolved,
                        bu_api_key = rr_api_key resolved, bu_model_id = ci_model_id config, bu_provider_type = provider_type\<rparr>)))))))"

text \<open>
  What the hasher is fed: a string is its bytes and the byte \<open>0xff\<close>, a vector its length in eight bytes and its elements
  (\<open>Hash\<close> for \<open>str\<close> and \<open>Vec\<close>). \<open>digest\<close> is the hasher with the formatting of its result.
\<close>

definition hash_str :: "bytes \<Rightarrow> bytes" where
  "hash_str s = s @ [CHR 0xFF]"

definition hash_vec :: "bytes list \<Rightarrow> bytes" where
  "hash_vec ss = le_bytes 8 (int (length ss)) @ concat (map hash_str ss)"

definition hash_route :: "bundle_route \<Rightarrow> bytes" where
  "hash_route r =
     hash_str (bu_name r) @ hash_str (bu_base_url r) @ hash_str (bu_model_id r) @ hash_str (bu_api_key r)
     @ hash_vec (bu_protocols r) @ hash_str (bu_provider_type r)"

definition bundle_revision :: "(bytes \<Rightarrow> bytes) \<Rightarrow> bundle_route list \<Rightarrow> bytes" where
  "bundle_revision digest routes = digest (concat (map hash_route routes))"

definition resolve_inference_bundle :: "codec \<Rightarrow> route_codec \<Rightarrow> (bytes \<Rightarrow> bytes) \<Rightarrow> inference_bundle handler" where
  "resolve_inference_bundle C R digest =
     hbind (resolve_route_by_name C R CLUSTER_INFERENCE_ROUTE_NAME) (\<lambda>user.
     hbind (resolve_route_by_name C R SANDBOX_SYSTEM_ROUTE_NAME) (\<lambda>system.
     hbind current_time_ms (\<lambda>now_ms.
       let routes = (case user of Some r \<Rightarrow> [r] | None \<Rightarrow> []) @ (case system of Some r \<Rightarrow> [r] | None \<Rightarrow> []) in
       hreturn \<lparr>ib_routes = routes, ib_revision = bundle_revision digest routes, ib_generated_at_ms = now_ms\<rparr>)))"

section \<open>Facts: revisions\<close>

text \<open>An encoding that shows where it ends.\<close>

locale self_delimiting =
  fixes enc :: "'a \<Rightarrow> bytes" and ok :: "'a \<Rightarrow> bool"
  assumes cancel: "ok a \<Longrightarrow> ok b \<Longrightarrow> enc a @ x = enc b @ y \<Longrightarrow> a = b \<and> x = y"
    and nonempty: "enc a \<noteq> []"
begin

lemma concat_inj: "list_all ok xs \<Longrightarrow> list_all ok ys \<Longrightarrow> concat (map enc xs) = concat (map enc ys) \<Longrightarrow> xs = ys"
proof (induction xs arbitrary: ys)
  case Nil
  then show ?case by (cases ys) (auto simp: nonempty)
next
  case (Cons a xs)
  have "ys \<noteq> []" using Cons.prems(3) nonempty [of a] by (cases ys) simp_all
  then obtain b ys' where ys: "ys = b # ys'" by (cases ys) simp_all
  with Cons.prems cancel [of a b "concat (map enc xs)" "concat (map enc ys')"] Cons.IH [of ys'] show ?case by auto
qed

lemma concat_cancel:
  "list_all ok xs \<Longrightarrow> list_all ok ys \<Longrightarrow> length xs = length ys \<Longrightarrow> concat (map enc xs) @ x = concat (map enc ys) @ y \<Longrightarrow> xs = ys \<and> x = y"
proof (induction xs arbitrary: ys)
  case (Cons a xs)
  then obtain b ys' where ys: "ys = b # ys'" by (cases ys) auto
  with Cons.prems cancel [of a b "concat (map enc xs) @ x" "concat (map enc ys') @ y"] Cons.IH [of ys'] show ?case by auto
qed simp

end

lemma no_ff_cancel:
  "CHR 0xFF \<notin> set s \<Longrightarrow> CHR 0xFF \<notin> set t \<Longrightarrow> s @ CHR 0xFF # x = t @ CHR 0xFF # y \<Longrightarrow> s = t \<and> x = y"
proof (induction s arbitrary: t)
  case Nil
  then show ?case by (cases t) simp_all
next
  case (Cons c s)
  show ?case
  proof (cases t)
    case (Cons d t')
    with Cons.prems Cons.IH [of t'] show ?thesis by simp
  qed (use Cons.prems in simp)
qed

interpretation str: self_delimiting hash_str "\<lambda>s. CHR 0xFF \<notin> set s"
proof
  fix a b x y :: bytes assume "CHR 0xFF \<notin> set a" "CHR 0xFF \<notin> set b" "hash_str a @ x = hash_str b @ y"
  then show "a = b \<and> x = y" by (intro no_ff_cancel) (simp_all add: hash_str_def)
qed (simp add: hash_str_def)

lemma le_bytes_inj: "n < 256 ^ k \<Longrightarrow> m < 256 ^ k \<Longrightarrow> le_bytes k (int n) = le_bytes k (int m) \<Longrightarrow> n = m"
proof (induction k arbitrary: n m)
  case (Suc k)
  have shift: "le_bytes (Suc k) (int j) = char_of (j mod 256) # le_bytes k (int (j div 256))" for j
  proof -
    have "nat (int j div 256 ^ Suc i mod 256) = nat (int (j div 256) div 256 ^ i mod 256)" for i
      by (simp add: zdiv_int div_mult2_eq zdiv_zmult2_eq)
    moreover have "nat (int j mod 256) = j mod 256" by (simp add: nat_mod_distrib)
    ultimately show ?thesis by (simp add: le_bytes_def upt_conv_Cons map_Suc_upt [symmetric] del: upt_Suc)
  qed
  from Suc.prems(3) have "char_of (n mod 256) = (char_of (m mod 256) :: char)" "le_bytes k (int (n div 256)) = le_bytes k (int (m div 256))"
    by (simp_all add: shift)
  moreover from this(2) Suc.IH [of "n div 256" "m div 256"] Suc.prems(1,2) have "n div 256 = m div 256"
    by (simp add: less_mult_imp_div_less mult.commute)
  ultimately show ?case by (metis char_of_eq_iff mod_mod_trivial div_mult_mod_eq of_char_of)
qed (simp add: le_bytes_def)

lemma le_bytes_length: "length (le_bytes k n) = k"
  by (simp add: le_bytes_def)

text \<open>A route whose strings are UTF-8, in which the byte \<open>0xff\<close> never occurs.\<close>

definition text_route :: "bundle_route \<Rightarrow> bool" where
  "text_route r \<longleftrightarrow> list_all (\<lambda>s. CHR 0xFF \<notin> set s) ([bu_name r, bu_base_url r, bu_model_id r, bu_api_key r, bu_provider_type r] @ bu_protocols r)
     \<and> length (bu_protocols r) < 256 ^ 8"

lemma hash_vec_cancel:
  assumes "list_all (\<lambda>s. CHR 0xFF \<notin> set s) ss" "list_all (\<lambda>s. CHR 0xFF \<notin> set s) ts" "length ss < 256 ^ 8" "length ts < 256 ^ 8"
    and "hash_vec ss @ x = hash_vec ts @ y"
  shows "ss = ts \<and> x = y"
proof -
  from assms(5) have "le_bytes 8 (int (length ss)) = le_bytes 8 (int (length ts))"
    "concat (map hash_str ss) @ x = concat (map hash_str ts) @ y" by (simp_all add: hash_vec_def le_bytes_length)
  with le_bytes_inj [OF assms(3,4)] str.concat_cancel [OF assms(1,2)] show ?thesis by blast
qed

interpretation route: self_delimiting hash_route text_route
proof
  fix a b x y assume ab: "text_route a" "text_route b" and e: "hash_route a @ x = hash_route b @ y"
  have t: "CHR 0xFF \<notin> set (bu_name r)" "CHR 0xFF \<notin> set (bu_base_url r)" "CHR 0xFF \<notin> set (bu_model_id r)"
    "CHR 0xFF \<notin> set (bu_api_key r)" "CHR 0xFF \<notin> set (bu_provider_type r)" "list_all (\<lambda>s. CHR 0xFF \<notin> set s) (bu_protocols r)"
    "length (bu_protocols r) < 256 ^ 8" if "text_route r" for r using that by (auto simp: text_route_def)
  note ta = t [OF ab(1)] and tb = t [OF ab(2)]
  from e have "hash_str (bu_name a) @ hash_str (bu_base_url a) @ hash_str (bu_model_id a) @ hash_str (bu_api_key a) @ hash_vec (bu_protocols a)
      @ hash_str (bu_provider_type a) @ x = hash_str (bu_name b) @ hash_str (bu_base_url b) @ hash_str (bu_model_id b) @ hash_str (bu_api_key b)
      @ hash_vec (bu_protocols b) @ hash_str (bu_provider_type b) @ y" by (simp only: hash_route_def append_assoc)
  note e1 = str.cancel [OF ta(1) tb(1) this]
  note e2 = str.cancel [OF ta(2) tb(2) e1 [THEN conjunct2]]
  note e3 = str.cancel [OF ta(3) tb(3) e2 [THEN conjunct2]]
  note e4 = str.cancel [OF ta(4) tb(4) e3 [THEN conjunct2]]
  note e5 = hash_vec_cancel [OF ta(6) tb(6) ta(7) tb(7) e4 [THEN conjunct2]]
  note e6 = str.cancel [OF ta(5) tb(5) e5 [THEN conjunct2]]
  from e1 e2 e3 e4 e5 e6 show "a = b \<and> x = y" by simp
qed (simp add: hash_route_def hash_str_def)

section \<open>Facts: where a bundle's credentials come from\<close>

text \<open>A message that was read is in a row of the tables, at some moment of the request.\<close>

definition stored :: "bytes \<Rightarrow> bytes \<Rightarrow> (bytes \<Rightarrow> (bytes, 'a) result) \<Rightarrow> 'a \<Rightarrow> db \<Rightarrow> bool" where
  "stored object_type name dec x d \<longleftrightarrow>
     (\<exists>r\<in>set (db_objects d). or_object_type r = object_type \<and> or_name r = name \<and> dec (or_payload r) = Inr x)"

lemma message_read:
  assumes "message_of dec (execute (db_get_by_name object_type name)) w = (Inr (Some x), w')" "fair w"
  shows "fair w' \<and> db_step\<^sup>*\<^sup>* (w_db w) (w_db w') \<and> stored object_type name dec x (w_db w')"
proof -
  obtain r where r: "execute (db_get_by_name object_type name) w = (Inr (Some r), w')" "dec (or_payload r) = Inr x"
    using assms(1) by (auto simp: message_of_def decoded_def split: prod.splits sum.splits option.splits)
  from run_fair(2) [OF r(1) assms(2)] obtain d now where d: "db_step\<^sup>*\<^sup>* (w_db w) d" "db_get_by_name object_type name now d = (Inr (Some r), w_db w')"
    by auto
  then have "d = w_db w'" and f: "find (\<lambda>r. or_object_type r = object_type \<and> or_name r = name) (db_objects d) = Some r"
    unfolding db_get_by_name_def by blast+
  with d find_Some_in [OF f] r(2) have "db_step\<^sup>*\<^sup>* (w_db w) (w_db w') \<and> stored object_type name dec x (w_db w')"
    by (auto simp: stored_def)
  with run_fair(1) [OF r(1) assms(2)] show ?thesis by blast
qed

lemma message_absent:
  assumes "message_of dec (execute (db_get_by_name object_type name)) w = (Inr None, w')" "fair w"
  shows "fair w' \<and> db_step\<^sup>*\<^sup>* (w_db w) (w_db w')"
proof -
  have r: "execute (db_get_by_name object_type name) w = (Inr None, w')"
    using assms(1) by (auto simp: message_of_def decoded_def split: prod.splits sum.splits option.splits)
  with run_fair [OF r assms(2)] show ?thesis by (auto simp: db_get_by_name_def)
qed

lemma first_value_Some: "first_value m keys = Some v \<Longrightarrow> (\<exists>key\<in>set keys. map_of m key = Some v) \<and> trim_ws v \<noteq> []"
  by (induction keys) (auto split: option.splits if_splits)

lemma api_key_of_provider: "find_provider_api_key p names = Some v \<Longrightarrow> (\<exists>key. map_of (pv_credentials p) key = Some v) \<and> trim_ws v \<noteq> []"
  by (auto simp: find_provider_api_key_def split: option.splits dest!: first_value_Some)

text \<open>What a bundle promises of a route, for the provider it was resolved from.\<close>

definition route_of_provider :: "provider \<Rightarrow> bundle_route \<Rightarrow> bool" where
  "route_of_provider p r \<longleftrightarrow> bu_provider_type r = to_ascii_lowercase (trim_ws (pv_type p)) \<and>
     (\<exists>profile. profile_for (bu_provider_type r) = Some profile \<and> bu_protocols r = ipp_protocols profile
        \<and> (\<exists>key. map_of (pv_credentials p) key = Some (bu_api_key r)) \<and> trim_ws (bu_api_key r) \<noteq> [] \<and> bu_base_url r \<noteq> []
        \<and> (bu_base_url r = trim_ws (ipp_default_base_url profile)
           \<or> (\<exists>key\<in>set (ipp_base_url_config_keys profile). map_option trim_ws (map_of (pv_config p) key) = Some (bu_base_url r))))"

lemma resolve_provider_route_Inr:
  assumes "resolve_provider_route p = Inr (t, resolved)"
  shows "route_of_provider p \<lparr>bu_name = name, bu_base_url = rr_endpoint resolved, bu_protocols = rr_protocols resolved,
     bu_api_key = rr_api_key resolved, bu_model_id = model, bu_provider_type = t\<rparr>"
proof -
  obtain profile key where k: "profile_for (to_ascii_lowercase (trim_ws (pv_type p))) = Some profile"
    "find_provider_api_key p (ipp_credential_key_names profile) = Some key"
    using assms by (auto simp: resolve_provider_route_def Let_def split: option.splits if_splits)
  show ?thesis
  proof (cases "find_provider_config_value p (ipp_base_url_config_keys profile)")
    case None
    with assms k api_key_of_provider [OF k(2)] show ?thesis
      by (auto simp: resolve_provider_route_def route_of_provider_def Let_def split: if_splits)
  next
    case (Some u)
    then obtain key where "key \<in> set (ipp_base_url_config_keys profile)" "map_of (pv_config p) key = Some u"
      using first_value_Some by (fastforce simp: find_provider_config_value_def)
    then have "\<exists>key\<in>set (ipp_base_url_config_keys profile). map_option trim_ws (map_of (pv_config p) key) = Some (trim_ws u)"
      by (intro bexI [of _ key]) simp_all
    moreover have "t = to_ascii_lowercase (trim_ws (pv_type p))" "rr_endpoint resolved = trim_ws u" "trim_ws u \<noteq> []"
      "rr_protocols resolved = ipp_protocols profile" "Some (rr_api_key resolved) = find_provider_api_key p (ipp_credential_key_names profile)"
      using Some assms k by (auto simp: resolve_provider_route_def Let_def split: if_splits)
    ultimately show ?thesis using k api_key_of_provider [of p "ipp_credential_key_names profile"] by (simp add: route_of_provider_def)
  qed
qed

text \<open>The tables went through states that held a route row and then the row of the provider it names.\<close>

definition resolved_from :: "codec \<Rightarrow> route_codec \<Rightarrow> db \<Rightarrow> db \<Rightarrow> bundle_route \<Rightarrow> bool" where
  "resolved_from C R d d' r \<longleftrightarrow>
     (\<exists>route config d0 p. db_step\<^sup>*\<^sup>* d d0 \<and> stored ''inference_route'' (bu_name r) (rx_route_of R) route d0 \<and> ir_config route = Some config
        \<and> bu_model_id r = ci_model_id config \<and> trim_ws (bu_model_id r) \<noteq> [] \<and> (\<exists>d1. db_step\<^sup>*\<^sup>* d0 d1
        \<and> stored ''provider'' (ci_provider_name config) (cc_provider_of C) p d1 \<and> route_of_provider p r \<and> db_step\<^sup>*\<^sup>* d1 d'))"

lemma resolve_route_Some:
  assumes "resolve_route_by_name C R name w = (Inr (Some r), w')" "fair w"
  shows "bu_name r = name \<and> resolved_from C R (w_db w) (w_db w') r"
proof -
  obtain route w1 config p t resolved where s: "get_route_by_name R name w = (Inr (Some route), w1)" "ir_config route = Some config"
    "trim_ws (ci_model_id config) \<noteq> []" "get_provider_by_name C (ci_provider_name config) w1 = (Inr (Some p), w')"
    "resolve_provider_route p = Inr (t, resolved)"
    and r: "r = \<lparr>bu_name = name, bu_base_url = rr_endpoint resolved, bu_protocols = rr_protocols resolved,
       bu_api_key = rr_api_key resolved, bu_model_id = ci_model_id config, bu_provider_type = t\<rparr>"
  proof -
    obtain found w1 where 1: "get_route_by_name R name w = (Inr found, w1)" using assms(1) by (auto simp: resolve_route_by_name_def)
    show ?thesis
    proof (cases found)
      case None
      with 1 assms(1) show ?thesis by (auto simp: resolve_route_by_name_def)
    next
      case (Some route)
      with 1 assms(1) show ?thesis
        by (cases "ir_config route") (fastforce simp: resolve_route_by_name_def elim!: ok_or.elims split: if_splits intro: that)+
    qed
  qed
  have 1: "fair w1 \<and> db_step\<^sup>*\<^sup>* (w_db w) (w_db w1) \<and> stored ''inference_route'' name (rx_route_of R) route (w_db w1)"
    by (rule message_read [OF s(1) [unfolded get_route_by_name_def] assms(2)])
  have 2: "fair w' \<and> db_step\<^sup>*\<^sup>* (w_db w1) (w_db w') \<and> stored ''provider'' (ci_provider_name config) (cc_provider_of C) p (w_db w')"
    using message_read [OF s(4) [unfolded get_provider_by_name_def]] 1 by blast
  have 3: "route_of_provider p r" unfolding r by (rule resolve_provider_route_Inr [OF s(5)])
  have "bu_name r = name" "bu_model_id r = ci_model_id config" using r by simp_all
  with 1 2 3 s(2,3) show ?thesis unfolding resolved_from_def by (intro conjI exI [of _ route] exI [of _ config] exI [of _ "w_db w1"] exI [of _ p] exI [of _ "w_db w'"]) auto
qed

lemma lawful_route_read: "lawful (\<lambda>_. True) (resolve_route_by_name C R name)"
proof -
  have st: "stable (\<lambda>_. True)" by (simp add: stable_def)
  have rd: "lawful (\<lambda>_. True) (execute (db_get_by_name ty nm))" for ty nm
    by (rule lawful_read [OF st]) (simp add: db_get_by_name_def)
  show ?thesis
    unfolding resolve_route_by_name_def get_route_by_name_def get_provider_by_name_def
    by (auto split: option.splits prod.splits intro!: lawful_intros st rd)
qed

section \<open>Facts: reading a route that was set\<close>

lemma get_by_name_quiet:
  "quiet w \<Longrightarrow> message_of dec (execute (db_get_by_name ty nm)) w =
     (case find (\<lambda>r. or_object_type r = ty \<and> or_name r = nm) (db_objects (w_db w)) of None \<Rightarrow> Inr None | Some r \<Rightarrow> decoded (dec (or_payload r)), w)"
  by (simp add: message_of_def run_quiet db_get_by_name_def split: option.splits)

lemma find_map_stable: "(\<And>x. P (f x) = P x) \<Longrightarrow> find P (map f xs) = map_option f (find P xs)"
  by (induction xs) auto

text \<open>After a put of a named object its name leads to the new payload, and the objects of other types are as before.\<close>

lemma find_after_put:
  assumes "db_put ty i nm payload now d = (Inr (), d')"
    and "(\<exists>r. find (\<lambda>r. or_object_type r = ty \<and> or_name r = nm) (db_objects d) = Some r \<and> or_id r = i) \<or> (\<forall>r\<in>set (db_objects d). or_id r \<noteq> i)"
  shows "\<exists>r. find (\<lambda>r. or_object_type r = ty \<and> or_name r = nm) (db_objects d') = Some r \<and> or_payload r = payload"
proof (cases "\<exists>r\<in>set (db_objects d). or_id r = i")
  case True
  then obtain r where r: "find (\<lambda>r. or_object_type r = ty \<and> or_name r = nm) (db_objects d) = Some r" "or_id r = i" using assms(2) by blast
  with True assms(1) find_Some_in [OF r(1)] show ?thesis by (auto simp: db_put_def find_map_stable)
next
  case False
  have "find (\<lambda>r. or_object_type r = ty \<and> or_name r = nm) (db_objects d) = None"
    using False assms(1) by (auto simp: db_put_def find_None_iff split: if_splits)
  with False assms(1) show ?thesis by (auto simp: db_put_def find_append split: if_splits)
qed

lemma find_other_type_after_put:
  assumes "db_put ty i nm payload now d = (Inr (), d')" "ty' \<noteq> ty"
  shows "find (\<lambda>r. or_object_type r = ty' \<and> or_name r = nm') (db_objects d') = find (\<lambda>r. or_object_type r = ty' \<and> or_name r = nm') (db_objects d)"
proof -
  let ?P = "\<lambda>r. or_object_type r = ty' \<and> or_name r = nm'"
  have "map_option (\<lambda>r. if or_id r = i \<and> or_object_type r = ty then r\<lparr>or_payload := payload, or_updated_at_ms := now\<rparr> else r) (find ?P (db_objects d))
      = find ?P (db_objects d)"
    using assms(2) by (cases "find ?P (db_objects d)") (auto dest: find_Some_in)
  then show ?thesis using assms
    by (auto simp: db_put_def find_map_stable find_append split: if_splits option.splits)
qed

text \<open>Rows that the gateway wrote: a route's row has the route's id and name, a provider's the provider's name.\<close>

definition rows_match :: "codec \<Rightarrow> route_codec \<Rightarrow> db \<Rightarrow> bool" where
  "rows_match C R d \<longleftrightarrow> list_all (\<lambda>row.
      (or_object_type row = ''inference_route'' \<longrightarrow> (case rx_route_of R (or_payload row) of Inr r \<Rightarrow> ir_id r = or_id row \<and> ir_name r = or_name row | Inl _ \<Rightarrow> False))
      \<and> (or_object_type row = ''provider'' \<longrightarrow> (case cc_provider_of C (or_payload row) of Inr p \<Rightarrow> pv_name p = or_name row | Inl _ \<Rightarrow> False)))
     (db_objects d)"

lemma rows_match_route:
  "rows_match C R d \<Longrightarrow> find (\<lambda>r. or_object_type r = ''inference_route'' \<and> or_name r = nm) (db_objects d) = Some row \<Longrightarrow> rx_route_of R (or_payload row) = Inr r
     \<Longrightarrow> ir_id r = or_id row \<and> ir_name r = nm"
  by (drule find_Some_in) (auto simp: rows_match_def list_all_iff)

lemma rows_match_provider:
  "rows_match C R d \<Longrightarrow> find (\<lambda>r. or_object_type r = ''provider'' \<and> or_name r = nm) (db_objects d) = Some row \<Longrightarrow> cc_provider_of C (or_payload row) = Inr p
     \<Longrightarrow> pv_name p = nm"
  by (drule find_Some_in) (auto simp: rows_match_def list_all_iff)

lemma decoded_Some [simp]: "decoded r = Inr y \<longleftrightarrow> (\<exists>x. r = Inr x \<and> y = Some x)"
  by (cases r) (auto simp: decoded_def)

lemma persist_quiet:
  assumes "persist_route R name config w = (Inr route, w')"
    and "quiet w" "rows_match C R (w_db w)" "\<forall>row\<in>set (db_objects (w_db w)). or_id row \<noteq> w_uuid w 0"
  shows "quiet w' \<and> ir_config route = Some config \<and> (\<exists>now. db_put ''inference_route'' (ir_id route) name (rx_route R route) now (w_db w) = (Inr (), w_db w'))
     \<and> (\<exists>row. find (\<lambda>r. or_object_type r = ''inference_route'' \<and> or_name r = name) (db_objects (w_db w')) = Some row \<and> or_payload row = rx_route R route)"
proof -
  let ?find = "find (\<lambda>r. or_object_type r = ''inference_route'' \<and> or_name r = name) (db_objects (w_db w))"
  have "\<exists>now. db_put ''inference_route'' (ir_id route) name (rx_route R route) now (w_db w) = (Inr (), w_db w') \<and> ir_config route = Some config \<and> quiet w'
      \<and> ((\<exists>row. ?find = Some row \<and> or_id row = ir_id route) \<or> (\<forall>row\<in>set (db_objects (w_db w)). or_id row \<noteq> ir_id route))"
  proof (cases ?find)
    case None
    with assms show ?thesis
      by (auto simp: persist_route_def get_route_by_name_def get_by_name_quiet put_route_def run_quiet split: prod.splits)
  next
    case (Some row)
    then obtain e where e: "rx_route_of R (or_payload row) = Inr e"
      using assms(1,2) by (auto simp: persist_route_def get_route_by_name_def get_by_name_quiet)
    with Some assms(1,2) rows_match_route [OF assms(3) Some e] show ?thesis
      by (auto simp: persist_route_def get_route_by_name_def get_by_name_quiet put_route_def run_quiet decoded_def split: prod.splits)
  qed
  with find_after_put [of "''inference_route''" "ir_id route" name "rx_route R route" _ "w_db w" "w_db w'"] show ?thesis by blast
qed

lemma upsert_quiet:
  assumes "upsert_cluster_inference_route C R P name provider_name model verify w = (Inr (route, validation), w')"
    and "quiet w" "rows_match C R (w_db w)" "\<forall>row\<in>set (db_objects (w_db w)). or_id row \<noteq> w_uuid w 0"
  shows "quiet w' \<and> trim_ws provider_name \<noteq> [] \<and> trim_ws model \<noteq> []
     \<and> ir_config route = Some \<lparr>ci_provider_name = provider_name, ci_model_id = model\<rparr>
     \<and> (\<exists>row. find (\<lambda>r. or_object_type r = ''inference_route'' \<and> or_name r = name) (db_objects (w_db w')) = Some row \<and> or_payload row = rx_route R route)
     \<and> (\<exists>row p t resolved. find (\<lambda>r. or_object_type r = ''provider'' \<and> or_name r = provider_name) (db_objects (w_db w')) = Some row
          \<and> cc_provider_of C (or_payload row) = Inr p \<and> resolve_provider_route p = Inr (t, resolved))"
proof -
  have named: "trim_ws provider_name \<noteq> []" "trim_ws model \<noteq> []"
    using assms(1) by (auto simp: upsert_cluster_inference_route_def split: if_splits)
  obtain prow p t resolved where p: "find (\<lambda>r. or_object_type r = ''provider'' \<and> or_name r = provider_name) (db_objects (w_db w)) = Some prow"
    "cc_provider_of C (or_payload prow) = Inr p" "resolve_provider_route p = Inr (t, resolved)"
    and rest: "persist_route R name (build_cluster_inference_config p model) w = (Inr route, w')"
    using assms(1,2) named
    by (auto simp: upsert_cluster_inference_route_def get_provider_by_name_def get_by_name_quiet elim!: ok_or.elims split: option.splits if_splits)
  have name: "pv_name p = provider_name" by (rule rows_match_provider [OF assms(3) p(1,2)])
  note persisted = persist_quiet [OF rest assms(2,3,4)]
  then obtain now where put: "db_put ''inference_route'' (ir_id route) name (rx_route R route) now (w_db w) = (Inr (), w_db w')" by blast
  with p find_other_type_after_put [OF put, of "''provider''" provider_name]
  have "\<exists>row p t resolved. find (\<lambda>r. or_object_type r = ''provider'' \<and> or_name r = provider_name) (db_objects (w_db w')) = Some row
          \<and> cc_provider_of C (or_payload row) = Inr p \<and> resolve_provider_route p = Inr (t, resolved)" by simp
  with named name persisted show ?thesis by (simp add: build_cluster_inference_config_def)
qed

section \<open>Properties\<close>

lemma bundle_Inr:
  assumes "resolve_inference_bundle C R digest w = (Inr b, w')"
  shows "\<exists>user system w1. resolve_route_by_name C R CLUSTER_INFERENCE_ROUTE_NAME w = (Inr user, w1)
     \<and> resolve_route_by_name C R SANDBOX_SYSTEM_ROUTE_NAME w1 = (Inr system, w')
     \<and> ib_routes b = (case user of Some r \<Rightarrow> [r] | None \<Rightarrow> []) @ (case system of Some r \<Rightarrow> [r] | None \<Rightarrow> [])
     \<and> ib_revision b = bundle_revision digest (ib_routes b)"
  using assms by (auto simp: resolve_inference_bundle_def Let_def)

lemma resolved_from_mono:
  "resolved_from C R d1 d2 r \<Longrightarrow> db_step\<^sup>*\<^sup>* d d1 \<Longrightarrow> db_step\<^sup>*\<^sup>* d2 d' \<Longrightarrow> resolved_from C R d d' r"
proof -
  assume a: "resolved_from C R d1 d2 r" "db_step\<^sup>*\<^sup>* d d1" "db_step\<^sup>*\<^sup>* d2 d'"
  have "db_step\<^sup>*\<^sup>* d x" if "db_step\<^sup>*\<^sup>* d1 x" for x by (rule rtranclp_trans [OF a(2) that])
  moreover have "db_step\<^sup>*\<^sup>* x d'" if "db_step\<^sup>*\<^sup>* x d2" for x by (rule rtranclp_trans [OF that a(3)])
  ultimately show ?thesis using a(1) unfolding resolved_from_def by blast
qed

lemma resolve_route_steps:
  "resolve_route_by_name C R name w = (r, w') \<Longrightarrow> fair w \<Longrightarrow> db_step\<^sup>*\<^sup>* (w_db w) (w_db w') \<and> fair w'"
  using lawful_route_read by (auto simp: lawful_def)

text \<open>Every route of a bundle has one of the two managed names, each at most once. While it was resolved, the tables held a row of that
  name and after it the row of the provider it names; the route's key is one of that provider's credentials and not blank, its URL is
  from that provider's configuration or its profile's default, and its model is the route's: keys of other providers never get into a bundle.\<close>

theorem bundle_routes_come_from_stored_providers:
  assumes "resolve_inference_bundle C R digest w = (Inr b, w')" "fair w"
  shows "distinct (map bu_name (ib_routes b)) \<and> (\<forall>r\<in>set (ib_routes b). bu_name r \<in> {CLUSTER_INFERENCE_ROUTE_NAME, SANDBOX_SYSTEM_ROUTE_NAME}
     \<and> resolved_from C R (w_db w) (w_db w') r)"
proof -
  from bundle_Inr [OF assms(1)] obtain user system w1 where u: "resolve_route_by_name C R CLUSTER_INFERENCE_ROUTE_NAME w = (Inr user, w1)"
    and s: "resolve_route_by_name C R SANDBOX_SYSTEM_ROUTE_NAME w1 = (Inr system, w')"
    and r: "ib_routes b = (case user of Some r \<Rightarrow> [r] | None \<Rightarrow> []) @ (case system of Some r \<Rightarrow> [r] | None \<Rightarrow> [])" by blast
  note s1 = resolve_route_steps [OF u assms(2)]
  note s2 = resolve_route_steps [OF s s1 [THEN conjunct2]]
  have names: "CLUSTER_INFERENCE_ROUTE_NAME \<noteq> SANDBOX_SYSTEM_ROUTE_NAME"
    by (simp add: CLUSTER_INFERENCE_ROUTE_NAME_def SANDBOX_SYSTEM_ROUTE_NAME_def)
  have "bu_name x = CLUSTER_INFERENCE_ROUTE_NAME \<and> resolved_from C R (w_db w) (w_db w') x" if "user = Some x" for x
    using resolve_route_Some [OF u [unfolded that] assms(2)] resolved_from_mono [OF _ rtranclp.rtrancl_refl s2 [THEN conjunct1]] by simp
  moreover have "bu_name x = SANDBOX_SYSTEM_ROUTE_NAME \<and> resolved_from C R (w_db w) (w_db w') x" if "system = Some x" for x
    using resolve_route_Some [OF s [unfolded that] s1 [THEN conjunct2]] resolved_from_mono [OF _ s1 [THEN conjunct1] rtranclp.rtrancl_refl] by simp
  moreover have "set (ib_routes b) = set_option user \<union> set_option system" "map bu_name (ib_routes b) =
      (case user of Some r \<Rightarrow> [bu_name r] | None \<Rightarrow> []) @ (case system of Some r \<Rightarrow> [bu_name r] | None \<Rightarrow> [])"
    using r by (auto split: option.splits)
  ultimately show ?thesis using names by (auto split: option.splits)
qed

text \<open>A bundle's revision changes exactly when its routes do: what is hashed shows where each string, each list of protocols and each
  route ends, so two bundles of UTF-8 strings that hash the same text have the same routes. (Two texts that the 64-bit hash maps to the same
  value are what the hypothesis on \<open>digest\<close> excludes.)\<close>

theorem bundle_revision_identifies_routes:
  assumes "resolve_inference_bundle C R digest w1 = (Inr b1, w1')" "resolve_inference_bundle C R digest w2 = (Inr b2, w2')"
    and "list_all text_route (ib_routes b1)" "list_all text_route (ib_routes b2)"
    and "inj_on digest {concat (map hash_route (ib_routes b1)), concat (map hash_route (ib_routes b2))}"
  shows "ib_revision b1 = ib_revision b2 \<longleftrightarrow> ib_routes b1 = ib_routes b2"
proof -
  have "ib_revision b1 = bundle_revision digest (ib_routes b1)" "ib_revision b2 = bundle_revision digest (ib_routes b2)"
    using bundle_Inr [OF assms(1)] bundle_Inr [OF assms(2)] by blast+
  moreover have "digest x = digest y \<longleftrightarrow> x = y" if "inj_on digest {x, y}" for x y using that by (auto simp: inj_on_def)
  ultimately show ?thesis unfolding bundle_revision_def
    using route.concat_inj [OF assms(3,4)] assms(5) by metis
qed

lemma ok_or_Inr: "ok_or e m = Inr x \<longleftrightarrow> m = Some x"
  by (cases m) simp_all

text \<open>What an operator sets is what the gateway serves. In a gateway that is left alone, with the route rows it wrote itself and a fresh
  identifier, a successful \<open>set_cluster_inference\<close> answers with the provider and model asked for; afterwards \<open>get_cluster_inference\<close> gives the
  same answer (without validation), and the sandboxes' route of that name resolves, with that model.\<close>

theorem set_route_is_served:
  assumes "set_cluster_inference C R P name provider_name model no_verify w = (Inr a, w')"
    and "quiet w" "rows_match C R (w_db w)" "\<forall>row\<in>set (db_objects (w_db w)). or_id row \<noteq> w_uuid w 0"
    and "\<forall>r. rx_route_of R (rx_route R r) = Inr r"
  shows "ia_provider_name a = provider_name \<and> ia_model_id a = model
     \<and> get_cluster_inference R name w' = (Inr (a\<lparr>ia_validated := []\<rparr>), w')
     \<and> (\<exists>r. resolve_route_by_name C R (ia_route_name a) w' = (Inr (Some r), w') \<and> bu_name r = ia_route_name a \<and> bu_model_id r = model)"
proof -
  obtain n route validation config where n: "effective_route_name name = Inr n"
    and up: "upsert_cluster_inference_route C R P n provider_name model (\<not> no_verify) w = (Inr (route, validation), w')"
    and config: "ir_config route = Some config"
    and a: "a = \<lparr>ia_provider_name = ci_provider_name config, ia_model_id = ci_model_id config, ia_version = ir_version route,
                ia_route_name = n, ia_validated = validation\<rparr>"
    using assms(1) unfolding set_cluster_inference_def hbind_Inr handler_Inr ok_or_Inr by (clarsimp split: prod.splits)
  note q = upsert_quiet [OF up assms(2,3,4)]
  then have c: "config = \<lparr>ci_provider_name = provider_name, ci_model_id = model\<rparr>" using config by simp
  from q obtain row where row: "find (\<lambda>r. or_object_type r = ''inference_route'' \<and> or_name r = n) (db_objects (w_db w')) = Some row"
    "or_payload row = rx_route R route" by blast
  have g: "get_route_by_name R n w' = (Inr (Some route), w')"
    using q row assms(5) by (simp add: get_route_by_name_def get_by_name_quiet decoded_def)
  from q obtain prow p t resolved where p: "find (\<lambda>r. or_object_type r = ''provider'' \<and> or_name r = provider_name) (db_objects (w_db w')) = Some prow"
    "cc_provider_of C (or_payload prow) = Inr p" "resolve_provider_route p = Inr (t, resolved)" by blast
  have gp: "get_provider_by_name C provider_name w' = (Inr (Some p), w')"
    using q p by (simp add: get_provider_by_name_def get_by_name_quiet decoded_def)
  have "get_cluster_inference R name w' = (Inr (a\<lparr>ia_validated := []\<rparr>), w')"
    using n g config c q by (simp add: get_cluster_inference_def a)
  moreover have "\<exists>r. resolve_route_by_name C R n w' = (Inr (Some r), w') \<and> bu_name r = n \<and> bu_model_id r = model"
    using g gp config c q p(3) by (simp add: resolve_route_by_name_def)
  ultimately show ?thesis by (simp add: a c)
qed

section \<open>Witnesses\<close>

definition framed_route :: "inference_route \<Rightarrow> bytes" where
  "framed_route r = put_str (ir_id r) @ put_str (ir_name r) @ put_int (int (ir_version r))
     @ (case ir_config r of None \<Rightarrow> put_int 0 | Some c \<Rightarrow> put_int 1 @ put_str (ci_provider_name c) @ put_str (ci_model_id c) @ [])"

definition unframed_route :: "bytes \<Rightarrow> (bytes, inference_route) result" where
  "unframed_route bs =
     (let (i, r1) = get_str bs; (n, r2) = get_str r1; (v, r3) = get_int r2; (some, r4) = get_int r3; (p, r5) = get_str r4; (m, r6) = get_str r5
      in Inr \<lparr>ir_id = i, ir_config = (if some = 0 then None else Some \<lparr>ci_provider_name = p, ci_model_id = m\<rparr>), ir_name = n, ir_version = nat v\<rparr>)"

definition framed_route_codec :: route_codec where
  "framed_route_codec = \<lparr>rx_route = framed_route, rx_route_of = unframed_route\<rparr>"

lemma framed_route_roundtrip: "unframed_route (framed_route r) = Inr r"
proof (cases "ir_config r")
  case None
  have "get_int (put_int 0) = (0, [])" using get_put_int [of 0 "[]"] by simp
  with None show ?thesis by (simp add: unframed_route_def framed_route_def Let_def split: prod.splits)
next
  case (Some c)
  then show ?thesis by (cases r) (simp add: unframed_route_def framed_route_def Let_def del: append_Nil2)
qed

definition openai_provider :: provider where
  "openai_provider = \<lparr>pv_id = ''p1'', pv_name = ''dev'', pv_type = ''OpenAI'', pv_credentials = [(''OPENAI_API_KEY'', ''sk-1'')], pv_config = []\<rparr>"

definition openai_codec :: codec where
  "openai_codec = sample_codec\<lparr>cc_provider_of := (\<lambda>_. Inr openai_provider)\<rparr>"

definition openai_world :: world where
  "openai_world = sample_world [sample_row ''provider'' ''dev'' []]"

lemma openai_resolves:
  "resolve_provider_route openai_provider = Inr (''openai'', \<lparr>rr_name = ''dev'', rr_endpoint = ''https://api.openai.com/v1'', rr_model = [],
     rr_api_key = ''sk-1'', rr_protocols = ipp_protocols OPENAI_PROFILE, rr_auth = ipp_auth OPENAI_PROFILE,
     rr_default_headers = ipp_default_headers OPENAI_PROFILE\<rparr>)"
  by code_simp

lemma openai_provider_read:
  "get_provider_by_name openai_codec ''dev'' (sample_world (sample_row ''provider'' ''dev'' [] # rows))
     = (Inr (Some openai_provider), sample_world (sample_row ''provider'' ''dev'' [] # rows))"
  by (simp add: get_provider_by_name_def get_by_name_quiet quiet_def sample_world_def sample_row_def openai_codec_def decoded_def)

definition openai_route :: inference_route where
  "openai_route = \<lparr>ir_id = ''uuid'', ir_config = Some \<lparr>ci_provider_name = ''dev'', ci_model_id = ''gpt''\<rparr>, ir_name = ''inference.local'', ir_version = 1\<rparr>"

definition openai_answer :: inference_answer where
  "openai_answer = \<lparr>ia_provider_name = ''dev'', ia_model_id = ''gpt'', ia_version = 1, ia_route_name = ''inference.local'', ia_validated = []\<rparr>"

lemma openai_set: "\<exists>w'. set_cluster_inference openai_codec framed_route_codec P [] ''dev'' ''gpt'' True openai_world = (Inr openai_answer, w')"
proof -
  have n: "effective_route_name [] = Inr ''inference.local''" "trim_ws ''dev'' = ''dev''" "trim_ws ''gpt'' = ''gpt''" by code_simp+
  have q: "quiet openai_world" by (simp add: openai_world_def sample_world_def quiet_def)
  have g: "get_route_by_name framed_route_codec ''inference.local'' openai_world = (Inr None, openai_world)"
    by (simp add: get_route_by_name_def get_by_name_quiet [OF q]) (simp add: openai_world_def sample_world_def sample_row_def)
  have "\<exists>w'. put_route framed_route_codec openai_route (openai_world\<lparr>w_uuid := \<lambda>n. w_uuid openai_world (Suc n)\<rparr>) = (Inr (), w')"
    by (simp add: put_route_def run_quiet q db_put_def openai_route_def) (simp add: openai_world_def sample_world_def sample_row_def)
  then obtain w' where "put_route framed_route_codec openai_route (openai_world\<lparr>w_uuid := \<lambda>n. w_uuid openai_world (Suc n)\<rparr>) = (Inr (), w')" ..
  with g have "persist_route framed_route_codec ''inference.local'' \<lparr>ci_provider_name = ''dev'', ci_model_id = ''gpt''\<rparr> openai_world = (Inr openai_route, w')"
    by (simp add: persist_route_def openai_route_def) (simp add: openai_world_def sample_world_def)
  moreover have "get_provider_by_name openai_codec ''dev'' openai_world = (Inr (Some openai_provider), openai_world)"
    by (simp add: openai_world_def openai_provider_read)
  ultimately have "upsert_cluster_inference_route openai_codec framed_route_codec P ''inference.local'' ''dev'' ''gpt'' False openai_world
      = (Inr (openai_route, []), w')"
    using n openai_resolves by (simp add: upsert_cluster_inference_route_def build_cluster_inference_config_def openai_provider_def)
  with n have "set_cluster_inference openai_codec framed_route_codec P [] ''dev'' ''gpt'' True openai_world = (Inr openai_answer, w')"
    by (simp add: set_cluster_inference_def openai_answer_def openai_route_def)
  then show ?thesis ..
qed

text \<open>A client that always answers \<open>200\<close>.\<close>

definition agreeable_client :: probe_client where
  "agreeable_client = \<lparr>pb_http = \<lparr>hc_send = (\<lambda>_. Inr \<lparr>sr_status = 200, sr_headers = [], sr_chunks = []\<rparr>), hc_valid_method = (\<lambda>_. True),
     hc_decode = (\<lambda>_. None), hc_encode = (\<lambda>_. [])\<rparr>, pb_show_status = (\<lambda>_. ''200 OK''), pb_text = (\<lambda>_. Inr [])\<rparr>"

theorem set_route_is_served_witness:
  "\<exists>w' r. set_cluster_inference openai_codec framed_route_codec agreeable_client [] ''dev'' ''gpt'' True openai_world = (Inr openai_answer, w')
     \<and> get_cluster_inference framed_route_codec [] w' = (Inr openai_answer, w')
     \<and> resolve_route_by_name openai_codec framed_route_codec ''inference.local'' w' = (Inr (Some r), w') \<and> bu_model_id r = ''gpt''"
proof -
  obtain w' where s: "set_cluster_inference openai_codec framed_route_codec agreeable_client [] ''dev'' ''gpt'' True openai_world = (Inr openai_answer, w')"
    using openai_set by blast
  have "quiet openai_world" "\<forall>row\<in>set (db_objects (w_db openai_world)). or_id row \<noteq> w_uuid openai_world 0"
    by (simp_all add: openai_world_def sample_world_def sample_row_def quiet_def)
  moreover have "rows_match openai_codec framed_route_codec (w_db openai_world)"
    by (simp add: rows_match_def openai_world_def sample_world_def sample_row_def openai_codec_def openai_provider_def)
  moreover have "\<forall>r. rx_route_of framed_route_codec (rx_route framed_route_codec r) = Inr r"
    by (simp add: framed_route_codec_def framed_route_roundtrip)
  ultimately show ?thesis using set_route_is_served [OF s] s by (auto simp: openai_answer_def)
qed

text \<open>A gateway with the provider and the user route.\<close>

definition served_world :: "bytes \<Rightarrow> world" where
  "served_world model = sample_world [sample_row ''provider'' ''dev'' [], sample_row ''inference_route'' ''inference.local''
     (framed_route (openai_route\<lparr>ir_config := Some \<lparr>ci_provider_name = ''dev'', ci_model_id = model\<rparr>\<rparr>))]"

definition openai_bundle :: "bytes \<Rightarrow> inference_bundle" where
  "openai_bundle model = (let routes = [\<lparr>bu_name = ''inference.local'', bu_base_url = ''https://api.openai.com/v1'',
       bu_protocols = ipp_protocols OPENAI_PROFILE, bu_api_key = ''sk-1'', bu_model_id = model, bu_provider_type = ''openai''\<rparr>] in
     \<lparr>ib_routes = routes, ib_revision = bundle_revision (\<lambda>x. x) routes, ib_generated_at_ms = 2\<rparr>)"

lemma openai_bundle_resolved:
  assumes "trim_ws model \<noteq> []"
  shows "resolve_inference_bundle openai_codec framed_route_codec (\<lambda>x. x) (served_world model) = (Inr (openai_bundle model), served_world model)"
proof -
  have q: "quiet (served_world model)" by (simp add: served_world_def sample_world_def quiet_def)
  have n: "trim_ws ''dev'' = ''dev''" by code_simp
  have u: "get_route_by_name framed_route_codec CLUSTER_INFERENCE_ROUTE_NAME (served_world model)
      = (Inr (Some (openai_route\<lparr>ir_config := Some \<lparr>ci_provider_name = ''dev'', ci_model_id = model\<rparr>\<rparr>)), served_world model)"
    by (simp add: get_route_by_name_def get_by_name_quiet [OF q])
      (simp add: served_world_def sample_world_def sample_row_def CLUSTER_INFERENCE_ROUTE_NAME_def decoded_def framed_route_codec_def framed_route_roundtrip)
  have s: "get_route_by_name framed_route_codec SANDBOX_SYSTEM_ROUTE_NAME (served_world model) = (Inr None, served_world model)"
    by (simp add: get_route_by_name_def get_by_name_quiet [OF q])
      (simp add: served_world_def sample_world_def sample_row_def SANDBOX_SYSTEM_ROUTE_NAME_def)
  have p: "get_provider_by_name openai_codec ''dev'' (served_world model) = (Inr (Some openai_provider), served_world model)"
    by (simp add: served_world_def openai_provider_read)
  have t: "current_time_ms (served_world model) = (Inr 2, served_world model)" by (simp add: served_world_def sample_world_def)
  show ?thesis using u s p n t assms openai_resolves
    by (simp add: resolve_inference_bundle_def resolve_route_by_name_def openai_route_def openai_bundle_def Let_def CLUSTER_INFERENCE_ROUTE_NAME_def)
qed

theorem bundle_routes_come_from_stored_providers_witness:
  "resolve_inference_bundle openai_codec framed_route_codec (\<lambda>x. x) (served_world ''gpt'') = (Inr (openai_bundle ''gpt''), served_world ''gpt'')
     \<and> (\<exists>r. ib_routes (openai_bundle ''gpt'') = [r] \<and> resolved_from openai_codec framed_route_codec (w_db (served_world ''gpt'')) (w_db (served_world ''gpt'')) r)"
proof -
  have r: "resolve_inference_bundle openai_codec framed_route_codec (\<lambda>x. x) (served_world ''gpt'') = (Inr (openai_bundle ''gpt''), served_world ''gpt'')"
    by (rule openai_bundle_resolved) code_simp
  have "fair (served_world ''gpt'')" by (simp add: fair_def served_world_def sample_world_def)
  from bundle_routes_come_from_stored_providers [OF r this] r show ?thesis by (simp add: openai_bundle_def Let_def)
qed

theorem bundle_revision_identifies_routes_witness:
  "ib_revision (openai_bundle ''gpt'') \<noteq> ib_revision (openai_bundle ''o1'')"
proof -
  have r: "resolve_inference_bundle openai_codec framed_route_codec (\<lambda>x. x) (served_world ''gpt'') = (Inr (openai_bundle ''gpt''), served_world ''gpt'')"
    "resolve_inference_bundle openai_codec framed_route_codec (\<lambda>x. x) (served_world ''o1'') = (Inr (openai_bundle ''o1''), served_world ''o1'')"
    by (rule openai_bundle_resolved, code_simp)+
  have t: "list_all text_route (ib_routes (openai_bundle ''gpt''))" "list_all text_route (ib_routes (openai_bundle ''o1''))"
    by (simp_all add: openai_bundle_def Let_def text_route_def OPENAI_PROFILE_def OPENAI_PROTOCOLS_def)
  from bundle_revision_identifies_routes [OF r t] show ?thesis by (simp add: openai_bundle_def Let_def)
qed

end
