(* ===== verification/Route_Refresh.thy ===== *)
theory Route_Refresh
  imports Gateway_Inference Inference_Tunnel
begin

text \<open>
  Where the supervisor gets its inference routes, \<open>crates/clustershell-sandbox/src/lib.rs\<close> (\<open>build_inference_context\<close>,
  \<open>spawn_route_refresh\<close>) with the routes file of \<open>crates/clustershell-router/src/config.rs\<close>. The user and the system cache are written
  by two locks, one after the other, so the refresh task is a step relation. Reading and parsing the file and the gRPC call are parameters.
\<close>

section \<open>Sources\<close>

definition DEFAULT_ROUTE_REFRESH_INTERVAL_SECS :: nat where
  "DEFAULT_ROUTE_REFRESH_INTERVAL_SECS = 5"

datatype inference_route_source = RouteFile | RouteCluster | RouteNone

definition infer_route_source :: "bytes option \<Rightarrow> bytes option \<Rightarrow> bytes option \<Rightarrow> inference_route_source" where
  "infer_route_source sandbox_id clustershell_endpoint inference_routes =
     (if inference_routes \<noteq> None then RouteFile
      else if sandbox_id \<noteq> None \<and> clustershell_endpoint \<noteq> None then RouteCluster
      else RouteNone)"

definition disable_inference_on_empty_routes :: "inference_route_source \<Rightarrow> bool" where
  "disable_inference_on_empty_routes source = (source \<noteq> RouteCluster)"

text \<open>\<open>env\<close> is the value of \<open>CLUSTERSHELL_ROUTE_REFRESH_INTERVAL_SECS\<close>.\<close>

definition route_refresh_interval_secs :: "bytes option \<Rightarrow> nat" where
  "route_refresh_interval_secs env =
     (case env of
        Some v \<Rightarrow>
          (case parse_u64 v of
             Some interval \<Rightarrow> (if interval > 0 then interval else DEFAULT_ROUTE_REFRESH_INTERVAL_SECS)
           | None \<Rightarrow> DEFAULT_ROUTE_REFRESH_INTERVAL_SECS)
      | None \<Rightarrow> DEFAULT_ROUTE_REFRESH_INTERVAL_SECS)"

fun show_router_error :: "router_error \<Rightarrow> bytes" where
  "show_router_error (RouteNotFound s) = ''route not found for route '' @ quoted s"
| "show_router_error (NoCompatibleRoute s) = ''no compatible route for protocol '' @ quoted s"
| "show_router_error (Unauthorized s) = ''unauthorized: '' @ s"
| "show_router_error (UpstreamUnavailable s) = ''upstream unavailable: '' @ s"
| "show_router_error (UpstreamProtocol s) = ''upstream protocol error: '' @ s"
| "show_router_error (Internal s) = ''internal error: '' @ s"

text \<open>\<open>read\<close> and \<open>parse\<close> are \<open>std::fs::read_to_string\<close> and \<open>serde_yaml::from_str\<close>.\<close>

record route_files =
  rf_read :: "bytes \<Rightarrow> (bytes, bytes) result"
  rf_parse :: "bytes \<Rightarrow> (bytes, route_config list) result"
  rf_env :: "bytes \<Rightarrow> bytes option"

fun resolve_keys :: "(bytes \<Rightarrow> bytes option) \<Rightarrow> route_config list \<Rightarrow> (router_error, unit) result" where
  "resolve_keys env [] = Inr ()"
| "resolve_keys env (r # rs) = result_bind (resolve_api_key env r) (\<lambda>_. resolve_keys env rs)"

definition load_from_file :: "route_files \<Rightarrow> bytes \<Rightarrow> (router_error, route_config list) result" where
  "load_from_file F path =
     result_bind (result_map_err (\<lambda>e. Internal (''failed to read router config '' @ path @ '': '' @ e)) (rf_read F path)) (\<lambda>content.
     result_bind (result_map_err (\<lambda>e. Internal (''failed to parse router config '' @ path @ '': '' @ e)) (rf_parse F content)) (\<lambda>config.
     result_bind (resolve_keys (rf_env F) config) (\<lambda>_. Inr config)))"

section \<open>Caches\<close>

definition partition_routes :: "resolved_route list \<Rightarrow> resolved_route list \<times> resolved_route list" where
  "partition_routes routes =
     foldl (\<lambda>(user, system) r. if rr_name r = SANDBOX_SYSTEM_ROUTE_NAME then (user, system @ [r]) else (user @ [r], system)) ([], []) routes"

definition bundle_to_resolved_routes :: "inference_bundle \<Rightarrow> resolved_route list" where
  "bundle_to_resolved_routes bundle =
     map (\<lambda>r. let (auth, default_headers) = auth_for_provider_type (bu_provider_type r) in
           \<lparr>rr_name = bu_name r, rr_endpoint = bu_base_url r, rr_model = bu_model_id r, rr_api_key = bu_api_key r,
            rr_protocols = bu_protocols r, rr_auth = auth, rr_default_headers = default_headers\<rparr>) (ib_routes bundle)"

text \<open>The refresh task between two of its writes.\<close>

datatype refresh_point = AtTick | WriteUser "resolved_route list" "resolved_route list" | WriteSystem "resolved_route list"

record refresh_state =
  rs_user :: "resolved_route list"
  rs_system :: "resolved_route list"
  rs_revision :: "bytes option"
  rs_point :: refresh_point

text \<open>One answer of \<open>fetch_inference_bundle\<close>.\<close>

definition refresh_fetch :: "(bytes, inference_bundle) result \<Rightarrow> refresh_state \<Rightarrow> refresh_state" where
  "refresh_fetch answer st =
     (case answer of
        Inl e \<Rightarrow> st
      | Inr bundle \<Rightarrow>
          (if rs_revision st = Some (ib_revision bundle) then st
           else let (user_routes, system_routes) = partition_routes (bundle_to_resolved_routes bundle) in
                st\<lparr>rs_revision := Some (ib_revision bundle), rs_point := WriteUser user_routes system_routes\<rparr>))"

inductive refresh_step :: "(bytes, inference_bundle) result option \<Rightarrow> refresh_state \<Rightarrow> refresh_state \<Rightarrow> bool" where
  fetch: "rs_point st = AtTick \<Longrightarrow> refresh_step (Some answer) st (refresh_fetch answer st)"
| write_user: "rs_point st = WriteUser us ss \<Longrightarrow> refresh_step None st (st\<lparr>rs_user := us, rs_point := WriteSystem ss\<rparr>)"
| write_system: "rs_point st = WriteSystem ss \<Longrightarrow> refresh_step None st (st\<lparr>rs_system := ss, rs_point := AtTick\<rparr>)"

inductive_cases refresh_stepE: "refresh_step l st st'"

text \<open>A run of the task, with the answers it fetched, the last one first.\<close>

inductive refresh_run :: "refresh_state \<Rightarrow> (bytes, inference_bundle) result list \<Rightarrow> refresh_state \<Rightarrow> bool" for st0 where
  run_start: "refresh_run st0 [] st0"
| run_fetch: "refresh_run st0 answers st \<Longrightarrow> refresh_step (Some answer) st st' \<Longrightarrow> refresh_run st0 (answer # answers) st'"
| run_write: "refresh_run st0 answers st \<Longrightarrow> refresh_step None st st' \<Longrightarrow> refresh_run st0 answers st'"

section \<open>Building the context\<close>

text \<open>The routes the supervisor starts with and their revision; \<open>None\<close> disables inference. \<open>fetched\<close> is the answer of the start-up
  fetch, whose two error branches only log differently.\<close>

definition initial_routes ::
  "route_files \<Rightarrow> (bytes, inference_bundle) result \<Rightarrow> inference_route_source \<Rightarrow> bytes option \<Rightarrow> (bytes, (resolved_route list \<times> bytes option) option) result" where
  "initial_routes F fetched source inference_routes =
     (case source of
        RouteFile \<Rightarrow>
          (case inference_routes of
             None \<Rightarrow> Inr None
           | Some path \<Rightarrow>
               result_bind (result_map_err (\<lambda>e. ''failed to load inference routes '' @ path @ '': '' @ show_router_error e) (load_from_file F path)) (\<lambda>config.
               result_bind (result_map_err (\<lambda>e. ''failed to resolve routes from '' @ path @ '': '' @ show_router_error e) (resolve_routes (rf_env F) config)) (\<lambda>rs.
                 Inr (Some (rs, None)))))
      | RouteCluster \<Rightarrow>
          (case fetched of
             Inr bundle \<Rightarrow> Inr (Some (bundle_to_resolved_routes bundle, Some (ib_revision bundle)))
           | Inl e \<Rightarrow> Inr None)
      | RouteNone \<Rightarrow> Inr None)"

text \<open>\<open>router_new\<close> is \<open>Router::new\<close>. The result has the context and, in cluster mode, the refresh task with its interval.\<close>

definition build_inference_context ::
  "route_files \<Rightarrow> (router_error, http_client) result \<Rightarrow> bytes option \<Rightarrow> (bytes, inference_bundle) result
     \<Rightarrow> bytes option \<Rightarrow> bytes option \<Rightarrow> bytes option \<Rightarrow> (bytes, (inference_context \<times> (refresh_state \<times> nat) option) option) result" where
  "build_inference_context F router_new interval_env fetched sandbox_id clustershell_endpoint inference_routes =
     (let source = infer_route_source sandbox_id clustershell_endpoint inference_routes in
      result_bind (initial_routes F fetched source inference_routes) (\<lambda>found.
        case found of
          None \<Rightarrow> Inr None
        | Some (rs, initial_revision) \<Rightarrow>
            (if rs = [] \<and> disable_inference_on_empty_routes source then Inr None
             else
               let (user_routes, system_routes) = partition_routes rs in
               result_bind (result_map_err (\<lambda>e. ''failed to initialize inference router: '' @ show_router_error e) router_new) (\<lambda>client.
                 Inr (Some (\<lparr>ix_patterns = default_patterns, ix_client = client, ix_routes = user_routes, ix_system_routes = system_routes\<rparr>,
                   if source = RouteCluster then
                     Some (\<lparr>rs_user = user_routes, rs_system = system_routes, rs_revision = initial_revision, rs_point = AtTick\<rparr>,
                           route_refresh_interval_secs interval_env)
                   else None))))))"

section \<open>Supervisor-only inference\<close>

text \<open>\<open>read_body\<close> is \<open>Response::bytes\<close>.\<close>

record proxy_response =
  pr_status :: nat
  pr_headers :: "(bytes \<times> bytes) list"
  pr_body :: bytes

definition proxy_to_backend ::
  "http_client \<Rightarrow> (streaming_response \<Rightarrow> (bytes, bytes) result) \<Rightarrow> resolved_route \<Rightarrow> bytes \<Rightarrow> bytes \<Rightarrow> (bytes \<times> bytes) list \<Rightarrow> bytes
     \<Rightarrow> (router_error, proxy_response) result" where
  "proxy_to_backend client read_body route meth path headers body =
     result_bind (send_backend_request client route meth path headers body) (\<lambda>response.
     result_bind (result_map_err (\<lambda>e. UpstreamProtocol (''failed to read response body: '' @ e)) (read_body response)) (\<lambda>resp_body.
       Inr \<lparr>pr_status = sr_status response, pr_headers = sr_headers response, pr_body = resp_body\<rparr>))"

definition proxy_with_candidates ::
  "http_client \<Rightarrow> (streaming_response \<Rightarrow> (bytes, bytes) result) \<Rightarrow> bytes \<Rightarrow> bytes \<Rightarrow> bytes \<Rightarrow> (bytes \<times> bytes) list \<Rightarrow> bytes \<Rightarrow> resolved_route list
     \<Rightarrow> (router_error, proxy_response) result" where
  "proxy_with_candidates client read_body source_protocol meth path headers body candidates =
     (case compatible_route source_protocol candidates of
        None \<Rightarrow> Inl (NoCompatibleRoute source_protocol)
      | Some route \<Rightarrow>
          (if is_mock_route route then
             (let buffered = mock_response (hc_encode client) route (to_ascii_lowercase (trim_ws source_protocol)) in
              Inr \<lparr>pr_status = sr_status buffered, pr_headers = sr_headers buffered, pr_body = concat (sr_chunks buffered)\<rparr>)
           else proxy_to_backend client read_body route meth path headers body))"

definition system_inference ::
  "(streaming_response \<Rightarrow> (bytes, bytes) result) \<Rightarrow> inference_context \<Rightarrow> bytes \<Rightarrow> bytes \<Rightarrow> bytes \<Rightarrow> (bytes \<times> bytes) list \<Rightarrow> bytes
     \<Rightarrow> (router_error, proxy_response) result" where
  "system_inference read_body ctx protocol meth path headers body =
     proxy_with_candidates (ix_client ctx) read_body protocol meth path headers body (ix_system_routes ctx)"

section \<open>Facts\<close>

lemma partition_routes_filter:
  "partition_routes routes = (filter (\<lambda>r. rr_name r \<noteq> SANDBOX_SYSTEM_ROUTE_NAME) routes, filter (\<lambda>r. rr_name r = SANDBOX_SYSTEM_ROUTE_NAME) routes)"
proof -
  have "foldl (\<lambda>(user, system) r. if rr_name r = SANDBOX_SYSTEM_ROUTE_NAME then (user, system @ [r]) else (user @ [r], system)) (us, ss) routes
      = (us @ filter (\<lambda>r. rr_name r \<noteq> SANDBOX_SYSTEM_ROUTE_NAME) routes, ss @ filter (\<lambda>r. rr_name r = SANDBOX_SYSTEM_ROUTE_NAME) routes)" for us ss
    by (induction routes arbitrary: us ss) auto
  then show ?thesis by (simp add: partition_routes_def)
qed

text \<open>The two caches and what is about to be written to them.\<close>

definition user_route :: "resolved_route \<Rightarrow> bool" where
  "user_route r \<longleftrightarrow> rr_name r \<noteq> SANDBOX_SYSTEM_ROUTE_NAME"

definition separated :: "refresh_state \<Rightarrow> bool" where
  "separated st \<longleftrightarrow> list_all user_route (rs_user st) \<and> list_all (\<lambda>r. \<not> user_route r) (rs_system st)
     \<and> (case rs_point st of AtTick \<Rightarrow> True | WriteUser us ss \<Rightarrow> list_all user_route us \<and> list_all (\<lambda>r. \<not> user_route r) ss
        | WriteSystem ss \<Rightarrow> list_all (\<lambda>r. \<not> user_route r) ss)"

lemma separated_step: "refresh_step l st st' \<Longrightarrow> separated st \<Longrightarrow> separated st'"
  by (erule refresh_stepE)
    (auto simp: separated_def refresh_fetch_def partition_routes_filter user_route_def list_all_iff split: sum.splits refresh_point.splits)

lemma separated_run: "refresh_run st0 answers st \<Longrightarrow> separated st0 \<Longrightarrow> separated st"
  by (induction rule: refresh_run.induct) (auto intro: separated_step)

text \<open>The successful fetches, the last one first and the start-up fetch at the end.\<close>

definition fetched_bundles :: "inference_bundle \<Rightarrow> (bytes, inference_bundle) result list \<Rightarrow> inference_bundle list" where
  "fetched_bundles first answers = List.map_filter result_ok answers @ [first]"

lemma fetched_bundles_Cons:
  "fetched_bundles first (Inl e # answers) = fetched_bundles first answers" "fetched_bundles first (Inr b # answers) = b # fetched_bundles first answers"
  by (simp_all add: fetched_bundles_def List.map_filter_simps)

text \<open>The task has the routes of bundle \<open>b\<close>, or is writing them.\<close>

definition holds_bundle :: "inference_bundle \<Rightarrow> refresh_state \<Rightarrow> bool" where
  "holds_bundle b st \<longleftrightarrow> rs_revision st = Some (ib_revision b) \<and>
     partition_routes (bundle_to_resolved_routes b) =
       (case rs_point st of AtTick \<Rightarrow> (rs_user st, rs_system st) | WriteUser us ss \<Rightarrow> (us, ss) | WriteSystem ss \<Rightarrow> (rs_user st, ss))"

lemma holds_bundle_write: "refresh_step None st st' \<Longrightarrow> holds_bundle b st \<Longrightarrow> holds_bundle b st'"
  by (erule refresh_stepE) (auto simp: holds_bundle_def)

lemma holds_bundle_fetch:
  assumes "refresh_step (Some answer) st st'" "holds_bundle b st" "\<And>b'. answer = Inr b' \<Longrightarrow> ib_revision b' = ib_revision b \<Longrightarrow> ib_routes b' = ib_routes b"
  shows "holds_bundle (case answer of Inl _ \<Rightarrow> b | Inr b' \<Rightarrow> b') st'"
  using assms by (auto elim!: refresh_stepE simp: holds_bundle_def refresh_fetch_def bundle_to_resolved_routes_def split: sum.splits prod.splits)

lemma holds_last_bundle:
  assumes "refresh_run st0 answers st" "holds_bundle first st0"
    and "\<And>b b'. b \<in> set (fetched_bundles first answers) \<Longrightarrow> b' \<in> set (fetched_bundles first answers) \<Longrightarrow> ib_revision b' = ib_revision b \<Longrightarrow> ib_routes b' = ib_routes b"
  shows "holds_bundle (hd (fetched_bundles first answers)) st"
  using assms(1,3)
proof (induction rule: refresh_run.induct)
  case run_start
  then show ?case using assms(2) by (simp add: fetched_bundles_def List.map_filter_simps)
next
  case (run_fetch answers st answer st')
  have sub: "set (fetched_bundles first answers) \<subseteq> set (fetched_bundles first (answer # answers))"
    by (cases answer) (auto simp: fetched_bundles_Cons)
  with run_fetch have IH: "holds_bundle (hd (fetched_bundles first answers)) st" by blast
  have "hd (fetched_bundles first answers) \<in> set (fetched_bundles first answers)"
    by (rule hd_in_set) (simp add: fetched_bundles_def)
  with sub have h: "hd (fetched_bundles first answers) \<in> set (fetched_bundles first (answer # answers))" by blast
  have "ib_routes b' = ib_routes (hd (fetched_bundles first answers))"
    if b': "answer = Inr b'" "ib_revision b' = ib_revision (hd (fetched_bundles first answers))" for b'
  proof (rule run_fetch.prems [OF h _ b'(2)])
    show "b' \<in> set (fetched_bundles first (answer # answers))" using b'(1) by (simp add: fetched_bundles_Cons)
  qed
  from holds_bundle_fetch [OF run_fetch.hyps(2) IH this] show ?case by (cases answer) (simp_all add: fetched_bundles_Cons)
next
  case (run_write answers st st')
  then show ?case by (blast intro: holds_bundle_write)
qed

text \<open>A context has the routes it started with, split by name.\<close>

lemma context_Some:
  assumes "build_inference_context F router_new interval_env fetched sid ep file = Inr (Some (ctx, task))"
  shows "\<exists>rs rev. initial_routes F fetched (infer_route_source sid ep file) file = Inr (Some (rs, rev)) \<and> partition_routes rs = (ix_routes ctx, ix_system_routes ctx)
     \<and> task = (if infer_route_source sid ep file = RouteCluster
          then Some (\<lparr>rs_user = ix_routes ctx, rs_system = ix_system_routes ctx, rs_revision = rev, rs_point = AtTick\<rparr>, route_refresh_interval_secs interval_env)
          else None)"
proof (cases "initial_routes F fetched (infer_route_source sid ep file) file")
  case (Inr found)
  with assms obtain rs rev where f: "found = Some (rs, rev)" by (cases found) (auto simp: build_inference_context_def)
  obtain us ss where p: "partition_routes rs = (us, ss)" by force
  from assms Inr f p show ?thesis by (auto simp: build_inference_context_def Let_def split: if_splits)
qed (use assms in \<open>simp add: build_inference_context_def\<close>)

lemma refresh_interval_positive: "0 < route_refresh_interval_secs env"
  by (simp add: route_refresh_interval_secs_def DEFAULT_ROUTE_REFRESH_INTERVAL_SECS_def split: option.splits)

lemma cluster_context:
  assumes "build_inference_context F router_new interval_env fetched sid ep file = Inr (Some (ctx, Some (st0, n)))"
  shows "\<exists>b. fetched = Inr b \<and> holds_bundle b st0"
proof -
  from context_Some [OF assms] obtain rs rev where r: "initial_routes F fetched (infer_route_source sid ep file) file = Inr (Some (rs, rev))"
    and p: "partition_routes rs = (ix_routes ctx, ix_system_routes ctx)" and c: "infer_route_source sid ep file = RouteCluster"
    and st0: "st0 = \<lparr>rs_user = ix_routes ctx, rs_system = ix_system_routes ctx, rs_revision = rev, rs_point = AtTick\<rparr>"
    by (auto split: if_splits)
  then show ?thesis by (cases fetched) (auto simp: initial_routes_def holds_bundle_def)
qed

section \<open>Properties\<close>

text \<open>C25: The system route is never offered to the sandbox's processes: in every state of the refresh task, also between its two writes and
  whatever the gateway answers, the user cache has no route named \<open>sandbox-system\<close> and the system cache only such routes; so it is for the
  context the supervisor starts with, from a file or from the gateway.\<close>

theorem system_routes_stay_private:
  assumes "build_inference_context F router_new interval_env fetched sid ep routes_file = Inr (Some (ctx, task))"
  shows "list_all user_route (ix_routes ctx) \<and> list_all (\<lambda>r. \<not> user_route r) (ix_system_routes ctx)
     \<and> (\<forall>st0 n answers st. task = Some (st0, n) \<longrightarrow> refresh_run st0 answers st \<longrightarrow> separated st)"
proof -
  from context_Some [OF assms] obtain rs rev where p: "partition_routes rs = (ix_routes ctx, ix_system_routes ctx)"
    and t: "task = (if infer_route_source sid ep routes_file = RouteCluster
        then Some (\<lparr>rs_user = ix_routes ctx, rs_system = ix_system_routes ctx, rs_revision = rev, rs_point = AtTick\<rparr>, route_refresh_interval_secs interval_env)
        else None)" by blast
  from p have "ix_routes ctx = filter user_route rs" "ix_system_routes ctx = filter (\<lambda>r. \<not> user_route r) rs"
    by (simp_all add: partition_routes_filter user_route_def [abs_def])
  then have s: "list_all user_route (ix_routes ctx)" "list_all (\<lambda>r. \<not> user_route r) (ix_system_routes ctx)" by (simp_all add: list_all_iff)
  with t have "separated st0" if "task = Some (st0, n)" for st0 n using that by (auto simp: separated_def split: if_splits)
  with s separated_run show ?thesis by blast
qed

text \<open>C24: The route caches follow the gateway. When the bundles fetched, at start-up and by the refresh task, were resolved by the gateway, are of
  UTF-8 strings and their revisions do not collide, then at every tick both caches hold exactly the routes of the last bundle that arrived, split by name:
  skipping a bundle of the same revision never leaves stale routes, and failed fetches change nothing.\<close>

theorem caches_follow_gateway:
  assumes "build_inference_context F router_new interval_env (Inr first) sid ep None = Inr (Some (ctx, Some (st0, n)))"
    and "refresh_run st0 answers st" "rs_point st = AtTick"
    and "\<forall>b\<in>set (fetched_bundles first answers). (\<exists>w w'. resolve_inference_bundle C R digest w = (Inr b, w')) \<and> list_all text_route (ib_routes b)"
    and "inj_on digest ((\<lambda>b. concat (map hash_route (ib_routes b))) ` set (fetched_bundles first answers))"
  shows "(rs_user st, rs_system st) = partition_routes (bundle_to_resolved_routes (hd (fetched_bundles first answers)))"
proof -
  let ?B = "set (fetched_bundles first answers)"
  from cluster_context [OF assms(1)] have first: "holds_bundle first st0" by blast
  have rev: "ib_revision b = digest (concat (map hash_route (ib_routes b)))" if "b \<in> ?B" for b
    using assms(4) that bundle_Inr by (fastforce simp: bundle_revision_def)
  have "ib_routes b' = ib_routes b" if b: "b \<in> ?B" "b' \<in> ?B" "ib_revision b' = ib_revision b" for b b'
  proof (rule route.concat_inj)
    show "list_all text_route (ib_routes b')" "list_all text_route (ib_routes b)" using assms(4) b by blast+
    show "concat (map hash_route (ib_routes b')) = concat (map hash_route (ib_routes b))"
    proof (rule inj_onD [OF assms(5)])
      show "digest (concat (map hash_route (ib_routes b'))) = digest (concat (map hash_route (ib_routes b)))"
        using rev [OF b(1)] rev [OF b(2)] b(3) by simp
    qed (use b in blast)+
  qed
  then have "holds_bundle (hd (fetched_bundles first answers)) st" by (intro holds_last_bundle [OF assms(2) first]) assumption
  then show ?thesis using assms(3) by (auto simp: holds_bundle_def)
qed

section \<open>Witnesses\<close>

definition no_files :: route_files where
  "no_files = \<lparr>rf_read = (\<lambda>_. Inl ''missing''), rf_parse = (\<lambda>_. Inl ''invalid''), rf_env = (\<lambda>_. None)\<rparr>"

definition openai_context :: inference_context where
  "openai_context = \<lparr>ix_patterns = default_patterns, ix_client = pb_http agreeable_client,
     ix_routes = bundle_to_resolved_routes (openai_bundle ''gpt''), ix_system_routes = []\<rparr>"

definition openai_task :: "bytes \<Rightarrow> refresh_state" where
  "openai_task model = \<lparr>rs_user = bundle_to_resolved_routes (openai_bundle model), rs_system = [],
     rs_revision = Some (ib_revision (openai_bundle model)), rs_point = AtTick\<rparr>"

lemma openai_partition: "partition_routes (bundle_to_resolved_routes (openai_bundle model)) = (bundle_to_resolved_routes (openai_bundle model), [])"
  by (simp add: partition_routes_filter bundle_to_resolved_routes_def openai_bundle_def Let_def SANDBOX_SYSTEM_ROUTE_NAME_def split: prod.splits)

lemma openai_built:
  "build_inference_context no_files (Inr (pb_http agreeable_client)) None (Inr (openai_bundle ''gpt'')) (Some ''sb'') (Some ''http://gw'') None
     = Inr (Some (openai_context, Some (openai_task ''gpt'', 5)))"
  by (simp add: build_inference_context_def initial_routes_def infer_route_source_def openai_partition openai_context_def openai_task_def
      disable_inference_on_empty_routes_def route_refresh_interval_secs_def DEFAULT_ROUTE_REFRESH_INTERVAL_SECS_def Let_def)

lemma openai_run: "refresh_run (openai_task ''gpt'') [Inr (openai_bundle ''o1''), Inl ''unavailable''] (openai_task ''o1'')"
proof -
  let ?st = "(openai_task ''gpt'')\<lparr>rs_revision := Some (ib_revision (openai_bundle ''o1''))\<rparr>"
  let ?new = "bundle_to_resolved_routes (openai_bundle ''o1'')"
  have differ: "ib_revision (openai_bundle ''gpt'') \<noteq> ib_revision (openai_bundle ''o1'')"
    by (simp add: openai_bundle_def Let_def bundle_revision_def hash_route_def hash_str_def)
  have "refresh_step (Some (Inl ''unavailable'')) (openai_task ''gpt'') (openai_task ''gpt'')"
    using refresh_step.fetch [of "openai_task ''gpt''" "Inl ''unavailable''"] by (simp add: openai_task_def refresh_fetch_def)
  from run_fetch [OF run_start this] have r1: "refresh_run (openai_task ''gpt'') [Inl ''unavailable''] (openai_task ''gpt'')" .
  have "refresh_step (Some (Inr (openai_bundle ''o1''))) (openai_task ''gpt'') (?st\<lparr>rs_point := WriteUser ?new []\<rparr>)"
    using refresh_step.fetch [of "openai_task ''gpt''" "Inr (openai_bundle ''o1'')"] differ
    by (simp add: openai_task_def refresh_fetch_def openai_partition)
  note r2 = run_fetch [OF r1 this]
  have "refresh_step None (?st\<lparr>rs_point := WriteUser ?new []\<rparr>) (?st\<lparr>rs_user := ?new, rs_point := WriteSystem []\<rparr>)"
    using write_user [of "?st\<lparr>rs_point := WriteUser ?new []\<rparr>" ?new "[]"] by (simp add: openai_task_def)
  note r3 = run_write [OF r2 this]
  have "refresh_step None (?st\<lparr>rs_user := ?new, rs_point := WriteSystem []\<rparr>) (openai_task ''o1'')"
    using write_system [of "?st\<lparr>rs_user := ?new, rs_point := WriteSystem []\<rparr>" "[]"] by (simp add: openai_task_def)
  from run_write [OF r3 this] show ?thesis .
qed

theorem system_routes_stay_private_witness:
  "refresh_run (openai_task ''gpt'') [Inr (openai_bundle ''o1''), Inl ''unavailable''] (openai_task ''o1'') \<and> separated (openai_task ''o1'')"
  using system_routes_stay_private [OF openai_built] openai_run by blast

theorem caches_follow_gateway_witness:
  "refresh_run (openai_task ''gpt'') [Inr (openai_bundle ''o1''), Inl ''unavailable''] (openai_task ''o1'')
   \<and> (rs_user (openai_task ''o1''), rs_system (openai_task ''o1'')) = partition_routes (bundle_to_resolved_routes (openai_bundle ''o1''))"
proof -
  have f: "fetched_bundles (openai_bundle ''gpt'') [Inr (openai_bundle ''o1''), Inl ''unavailable''] = [openai_bundle ''o1'', openai_bundle ''gpt'']"
    by (simp add: fetched_bundles_def List.map_filter_simps)
  have named: "trim_ws ''gpt'' \<noteq> []" "trim_ws ''o1'' \<noteq> []" by code_simp+
  have t: "list_all text_route (ib_routes (openai_bundle ''gpt''))" "list_all text_route (ib_routes (openai_bundle ''o1''))"
    by (simp_all add: openai_bundle_def Let_def text_route_def OPENAI_PROFILE_def OPENAI_PROTOCOLS_def)
  have g: "\<forall>b\<in>set (fetched_bundles (openai_bundle ''gpt'') [Inr (openai_bundle ''o1''), Inl ''unavailable'']).
      (\<exists>w w'. resolve_inference_bundle openai_codec framed_route_codec (\<lambda>x. x) w = (Inr b, w')) \<and> list_all text_route (ib_routes b)"
    unfolding f using openai_bundle_resolved [OF named(1)] openai_bundle_resolved [OF named(2)] t by auto
  have "rs_point (openai_task ''o1'') = AtTick" by (simp add: openai_task_def)
  from caches_follow_gateway [OF openai_built openai_run this g] f openai_run show ?thesis by simp
qed

end
