(* ===== verification/Sandbox_Pods.thy ===== *)
theory Sandbox_Pods
  imports Ssh_Tunnel Supervisor
begin

text \<open>
  How the gateway describes a sandbox to Kubernetes and reads its status back, the functions of
  \<open>crates/clustershell-server/src/sandbox/mod.rs\<close> that make no call: the pod of a sandbox with its environment, the labels, and the phase
  from the status conditions. A resource is the JSON document that is sent.
\<close>

section \<open>JSON edited in place\<close>

text \<open>\<open>v.entry(k).or_insert(d)\<close> changed by \<open>f\<close>, and a push on an array.\<close>

fun json_entry :: "bytes \<Rightarrow> json \<Rightarrow> (json \<Rightarrow> json) \<Rightarrow> json \<Rightarrow> json" where
  "json_entry k d f (JObj m) = JObj (bt_insert k (f (case map_of m k of Some x \<Rightarrow> x | None \<Rightarrow> d)) m)"
| "json_entry k d f v = v"

fun json_push :: "json \<Rightarrow> json \<Rightarrow> json" where
  "json_push x (JArr vs) = JArr (vs @ [x])"
| "json_push x v = v"

definition string_map_json :: "(bytes \<times> bytes) list \<Rightarrow> json" where
  "string_map_json m = json_object (map (\<lambda>(k, v). (k, JStr v)) m)"

text \<open>\<open>if cond { map.insert(k, v) }\<close>.\<close>

definition json_set_if :: "bool \<Rightarrow> bytes \<Rightarrow> json \<Rightarrow> json \<Rightarrow> json" where
  "json_set_if c k w v = (if c then json_set k w v else v)"

section \<open>Protobuf structs\<close>

text \<open>\<open>google.protobuf.Value\<close>; a number is its bits. \<open>sk_fields\<close> decodes a stored struct, \<open>sk_number\<close> is \<open>Number::from_f64\<close> with \<open>Null\<close> for what is not finite.\<close>

datatype proto_value = PNull | PNumber nat | PString bytes | PBool bool | PStruct "(bytes \<times> proto_value) list" | PList "proto_value list"

record struct_codec =
  sk_fields :: "bytes \<Rightarrow> (bytes \<times> proto_value) list"
  sk_number :: "nat \<Rightarrow> json"

fun proto_value_to_json :: "(nat \<Rightarrow> json) \<Rightarrow> proto_value \<Rightarrow> json" where
  "proto_value_to_json num (PNumber n) = num n"
| "proto_value_to_json num (PString s) = JStr s"
| "proto_value_to_json num (PBool b) = JBool b"
| "proto_value_to_json num (PStruct fs) = json_object (map (\<lambda>kv. (fst kv, proto_value_to_json num (snd kv))) fs)"
| "proto_value_to_json num (PList vs) = JArr (map (proto_value_to_json num) vs)"
| "proto_value_to_json num PNull = JNull"

definition struct_to_json :: "struct_codec \<Rightarrow> bytes option \<Rightarrow> json option" where
  "struct_to_json K input =
     map_option (\<lambda>b. json_object (map (\<lambda>kv. (fst kv, proto_value_to_json (sk_number K) (snd kv))) (sk_fields K b))) input"

section \<open>The environment\<close>

record sandbox_client =
  kc_namespace :: bytes
  kc_default_image :: bytes
  kc_image_pull_policy :: bytes
  kc_grpc_endpoint :: bytes
  kc_ssh_listen_addr :: bytes
  kc_ssh_handshake_secret :: bytes
  kc_ssh_handshake_skew_secs :: nat
  kc_client_tls_secret_name :: bytes
  kc_host_gateway_ip :: bytes

definition env_item :: "bytes \<Rightarrow> bytes \<Rightarrow> json" where
  "env_item name v = json_object [(''name'', JStr name), (''value'', JStr v)]"

definition item_name :: "json \<Rightarrow> bytes option" where
  "item_name item = Option.bind (json_get item ''name'') as_str"

fun upsert_env :: "bytes \<Rightarrow> bytes \<Rightarrow> json list \<Rightarrow> json list" where
  "upsert_env name v [] = [env_item name v]"
| "upsert_env name v (item # env) =
     (if item_name item = Some name then env_item name v # env else item # upsert_env name v env)"

definition apply_env_map :: "(bytes \<times> bytes) list \<Rightarrow> json list \<Rightarrow> json list" where
  "apply_env_map vs env = fold (\<lambda>(k, v). upsert_env k v) vs env"

text \<open>The names and values \<open>apply_required_env\<close> sets one after the other.\<close>

definition required_env :: "sandbox_client \<Rightarrow> bytes \<Rightarrow> bytes \<Rightarrow> (bytes \<times> bytes) list" where
  "required_env K sandbox_id sandbox_name =
     [(''CLUSTERSHELL_SANDBOX_ID'', sandbox_id), (''CLUSTERSHELL_SANDBOX'', sandbox_name), (''CLUSTERSHELL_ENDPOINT'', kc_grpc_endpoint K),
      (''CLUSTERSHELL_SANDBOX_COMMAND'', ''sleep infinity'')]
     @ (if kc_ssh_listen_addr K \<noteq> [] then [(''CLUSTERSHELL_SSH_LISTEN_ADDR'', kc_ssh_listen_addr K)] else [])
     @ [(''CLUSTERSHELL_SSH_HANDSHAKE_SECRET'', kc_ssh_handshake_secret K),
        (''CLUSTERSHELL_SSH_HANDSHAKE_SKEW_SECS'', show_nat (kc_ssh_handshake_skew_secs K))]
     @ (if kc_client_tls_secret_name K \<noteq> [] then
          [(''CLUSTERSHELL_TLS_CA'', ''/etc/clustershell-tls/client/ca.crt''), (''CLUSTERSHELL_TLS_CERT'', ''/etc/clustershell-tls/client/tls.crt''),
           (''CLUSTERSHELL_TLS_KEY'', ''/etc/clustershell-tls/client/tls.key'')]
        else [])"

definition apply_required_env :: "sandbox_client \<Rightarrow> bytes \<Rightarrow> bytes \<Rightarrow> json list \<Rightarrow> json list" where
  "apply_required_env K sandbox_id sandbox_name env = apply_env_map (required_env K sandbox_id sandbox_name) env"

definition build_env_list ::
  "json list option \<Rightarrow> (bytes \<times> bytes) list \<Rightarrow> (bytes \<times> bytes) list \<Rightarrow> sandbox_client \<Rightarrow> bytes \<Rightarrow> bytes \<Rightarrow> json list" where
  "build_env_list existing_env template_environment spec_environment K sandbox_id sandbox_name =
     apply_required_env K sandbox_id sandbox_name
       (apply_env_map spec_environment (apply_env_map template_environment (case existing_env of None \<Rightarrow> [] | Some env \<Rightarrow> env)))"

section \<open>The pod\<close>

definition GPU_RUNTIME_CLASS_NAME :: bytes where
  "GPU_RUNTIME_CLASS_NAME = ''nvidia''"

definition GPU_RESOURCE_NAME :: bytes where
  "GPU_RESOURCE_NAME = ''nvidia.com/gpu''"

definition GPU_RESOURCE_QUANTITY :: bytes where
  "GPU_RESOURCE_QUANTITY = ''1''"

definition SUPERVISOR_MOUNT_PATH :: bytes where
  "SUPERVISOR_MOUNT_PATH = ''/opt/clustershell/bin''"

definition SUPERVISOR_VOLUME_NAME :: bytes where
  "SUPERVISOR_VOLUME_NAME = ''clustershell-supervisor-bin''"

definition SUPERVISOR_HOST_PATH :: bytes where
  "SUPERVISOR_HOST_PATH = ''/opt/clustershell/bin''"

definition supervisor_volume :: json where
  "supervisor_volume = json_object [(''name'', JStr SUPERVISOR_VOLUME_NAME),
     (''hostPath'', json_object [(''path'', JStr SUPERVISOR_HOST_PATH), (''type'', JStr ''DirectoryOrCreate'')])]"

definition supervisor_volume_mount :: json where
  "supervisor_volume_mount = json_object [(''name'', JStr SUPERVISOR_VOLUME_NAME), (''mountPath'', JStr SUPERVISOR_MOUNT_PATH), (''readOnly'', JBool True)]"

definition supervisor_command :: json where
  "supervisor_command = JArr [JStr (SUPERVISOR_MOUNT_PATH @ ''/clustershell-sandbox'')]"

definition sideload_container :: "json \<Rightarrow> json" where
  "sideload_container c =
     json_entry ''volumeMounts'' (JArr []) (json_push supervisor_volume_mount)
       (json_entry ''securityContext'' (JObj []) (json_set ''runAsUser'' (JNum 0))
         (json_set ''command'' supervisor_command c))"

definition agent_index :: "json list \<Rightarrow> nat" where
  "agent_index cs = (case find (\<lambda>i. item_name (cs ! i) = Some ''agent'') [0..<length cs] of Some i \<Rightarrow> i | None \<Rightarrow> 0)"

definition sideload_spec :: "json \<Rightarrow> json" where
  "sideload_spec spec =
     (let spec1 = json_entry ''volumes'' (JArr []) (json_push supervisor_volume) spec in
      case json_get spec1 ''containers'' of
        Some (JArr cs) \<Rightarrow>
          (let i = agent_index cs in
           if i < length cs then json_set ''containers'' (JArr (cs[i := sideload_container (cs ! i)])) spec1 else spec1)
      | _ \<Rightarrow> spec1)"

definition apply_supervisor_sideload :: "json \<Rightarrow> json" where
  "apply_supervisor_sideload pod_template =
     (case json_get pod_template ''spec'' of
        Some (JObj spec) \<Rightarrow> json_set ''spec'' (sideload_spec (JObj spec)) pod_template
      | _ \<Rightarrow> pod_template)"

text \<open>What is not an object is replaced by an empty one, in the resources and in their limits.\<close>

fun or_empty_object :: "json \<Rightarrow> json" where
  "or_empty_object (JObj m) = JObj m"
| "or_empty_object v = JObj []"

definition apply_gpu_limit :: "json \<Rightarrow> json" where
  "apply_gpu_limit resources =
     json_entry ''limits'' (JObj []) (\<lambda>limits. json_set GPU_RESOURCE_NAME (JStr GPU_RESOURCE_QUANTITY) (or_empty_object limits)) (or_empty_object resources)"

definition container_resources :: "struct_codec \<Rightarrow> sandbox_template \<Rightarrow> bool \<Rightarrow> json option" where
  "container_resources S template gpu =
     (let resources0 = (case struct_to_json S (st_resources template) of None \<Rightarrow> JObj [] | Some r \<Rightarrow> r);
          resources = (if gpu then apply_gpu_limit resources0 else resources0) in
      if resources = JObj [] then None else Some resources)"

definition agent_container :: "struct_codec \<Rightarrow> sandbox_client \<Rightarrow> sandbox_template \<Rightarrow> bool \<Rightarrow> bytes \<Rightarrow> bytes \<Rightarrow> (bytes \<times> bytes) list \<Rightarrow> json" where
  "agent_container S K template gpu sandbox_id sandbox_name spec_environment =
     (let image = (if st_image template = [] then kc_default_image K else st_image template);
          env = build_env_list None (st_environment template) spec_environment K sandbox_id sandbox_name;
          c0 = json_object [(''name'', JStr ''agent'')];
          c1 = json_set_if (image \<noteq> []) ''image'' (JStr image) c0;
          c2 = json_set_if (image \<noteq> [] \<and> kc_image_pull_policy K \<noteq> []) ''imagePullPolicy'' (JStr (kc_image_pull_policy K)) c1;
          c3 = json_set ''env'' (JArr env) c2;
          c4 = json_set ''securityContext'' (json_object [(''capabilities'', json_object [(''add'',
                 json_str_array [''SYS_ADMIN'', ''NET_ADMIN'', ''SYS_PTRACE'', ''SYSLOG''])])]) c3;
          c5 = json_set_if (kc_client_tls_secret_name K \<noteq> []) ''volumeMounts'' (JArr [json_object
                 [(''name'', JStr ''clustershell-client-tls''), (''mountPath'', JStr ''/etc/clustershell-tls/client''), (''readOnly'', JBool True)]]) c4 in
      case container_resources S template gpu of None \<Rightarrow> c5 | Some resources \<Rightarrow> json_set ''resources'' resources c5)"

definition pod_spec :: "struct_codec \<Rightarrow> sandbox_client \<Rightarrow> sandbox_template \<Rightarrow> bool \<Rightarrow> bytes \<Rightarrow> bytes \<Rightarrow> (bytes \<times> bytes) list \<Rightarrow> json" where
  "pod_spec S K template gpu sandbox_id sandbox_name spec_environment =
     (let p0 = json_set_if (gpu \<or> st_runtime_class_name template \<noteq> []) ''runtimeClassName''
                 (JStr (if gpu then GPU_RUNTIME_CLASS_NAME else st_runtime_class_name template)) (JObj []);
          p1 = json_set ''containers'' (JArr [agent_container S K template gpu sandbox_id sandbox_name spec_environment]) p0;
          p2 = json_set_if (kc_client_tls_secret_name K \<noteq> []) ''volumes'' (JArr [json_object [(''name'', JStr ''clustershell-client-tls''),
                 (''secret'', json_object [(''secretName'', JStr (kc_client_tls_secret_name K)), (''defaultMode'', JNum 256)])]]) p1 in
      json_set_if (kc_host_gateway_ip K \<noteq> []) ''hostAliases'' (JArr [json_object [(''ip'', JStr (kc_host_gateway_ip K)),
         (''hostnames'', json_str_array [''host.docker.internal'', ''host.clustershell.internal''])]]) p2)"

definition pod_metadata :: "sandbox_template \<Rightarrow> json" where
  "pod_metadata template =
     json_set_if (st_annotations template \<noteq> []) ''annotations'' (string_map_json (st_annotations template))
       (json_set_if (st_labels template \<noteq> []) ''labels'' (string_map_json (st_labels template)) (JObj []))"

definition sandbox_template_to_k8s ::
  "struct_codec \<Rightarrow> sandbox_client \<Rightarrow> sandbox_template \<Rightarrow> bool \<Rightarrow> bytes \<Rightarrow> bytes \<Rightarrow> (bytes \<times> bytes) list \<Rightarrow> json" where
  "sandbox_template_to_k8s S K template gpu sandbox_id sandbox_name spec_environment =
     apply_supervisor_sideload
       (json_set ''spec'' (pod_spec S K template gpu sandbox_id sandbox_name spec_environment)
         (json_set_if (pod_metadata template \<noteq> JObj []) ''metadata'' (pod_metadata template) (JObj [])))"

definition default_template :: sandbox_template where
  "default_template = \<lparr>st_image = [], st_runtime_class_name = [], st_agent_socket = [], st_labels = [], st_annotations = [], st_environment = [],
     st_resources = None, st_volume_claim_templates = None\<rparr>"

definition sandbox_to_k8s_spec :: "struct_codec \<Rightarrow> sandbox_client \<Rightarrow> sandbox_spec option \<Rightarrow> bytes \<Rightarrow> bytes \<Rightarrow> json" where
  "sandbox_to_k8s_spec S K spec sandbox_id sandbox_name =
     (let root = (case spec of
            None \<Rightarrow> JObj []
          | Some spec \<Rightarrow>
              (let r0 = json_set_if (ss_log_level spec \<noteq> []) ''logLevel'' (JStr (ss_log_level spec)) (JObj []);
                   r1 = json_set_if (ss_environment spec \<noteq> []) ''environment'' (string_map_json (ss_environment spec)) r0 in
               case ss_template spec of
                 None \<Rightarrow> r1
               | Some template \<Rightarrow>
                   (let r2 = json_set ''podTemplate'' (sandbox_template_to_k8s S K template (ss_gpu spec) sandbox_id sandbox_name (ss_environment spec)) r1;
                        r3 = json_set_if (st_agent_socket template \<noteq> []) ''agentSocket'' (JStr (st_agent_socket template)) r2 in
                    case struct_to_json S (st_volume_claim_templates template) of
                      None \<Rightarrow> r3
                    | Some volume_templates \<Rightarrow> json_set ''volumeClaimTemplates'' volume_templates r3)));
          root' = (if json_get root ''podTemplate'' = None then
                     json_set ''podTemplate'' (sandbox_template_to_k8s S K default_template (case spec of None \<Rightarrow> False | Some s \<Rightarrow> ss_gpu s)
                       sandbox_id sandbox_name (case spec of None \<Rightarrow> [] | Some s \<Rightarrow> ss_environment s)) root
                   else root) in
      json_object [(''spec'', root')])"

section \<open>Objects and their status\<close>

text \<open>A \<open>DynamicObject\<close>; \<open>ko_deleting\<close> says whether it has a deletion timestamp.\<close>

record kube_object =
  ko_name :: "bytes option"
  ko_namespace :: "bytes option"
  ko_labels :: "(bytes \<times> bytes) list option"
  ko_deleting :: bool
  ko_data :: json

definition SANDBOX_ID_LABEL :: bytes where
  "SANDBOX_ID_LABEL = ''clustershell.ai/sandbox-id''"

definition sandbox_labels :: "sandbox \<Rightarrow> (bytes \<times> bytes) list" where
  "sandbox_labels sb = bt_insert ''clustershell.ai/managed-by'' ''clustershell'' (bt_insert SANDBOX_ID_LABEL (sx_id sb) [])"

definition sandbox_id_from_object :: "kube_object \<Rightarrow> (bytes, bytes) result" where
  "sandbox_id_from_object obj =
     (case Option.bind (ko_labels obj) (\<lambda>labels. map_of labels SANDBOX_ID_LABEL) of
        Some i \<Rightarrow> Inr i
      | None \<Rightarrow>
          (let name = (case ko_name obj of None \<Rightarrow> [] | Some n \<Rightarrow> n) in
           if starts_with name ''sandbox-'' then Inr (drop 8 name) else Inl ''sandbox id not found on object''))"

text \<open>The object \<open>SandboxClient::create\<close> posts.\<close>

definition sandbox_object :: "struct_codec \<Rightarrow> sandbox_client \<Rightarrow> sandbox \<Rightarrow> kube_object" where
  "sandbox_object S K sb =
     \<lparr>ko_name = Some (sx_name sb), ko_namespace = Some (kc_namespace K), ko_labels = Some (sandbox_labels sb), ko_deleting = False,
      ko_data = sandbox_to_k8s_spec S K (sx_spec sb) (sx_id sb) (sx_name sb)\<rparr>"

record sandbox_condition =
  sd_type :: bytes
  sd_status :: bytes
  sd_reason :: bytes
  sd_message :: bytes
  sd_last_transition_time :: bytes

record sandbox_status =
  sa_sandbox_name :: bytes
  sa_agent_pod :: bytes
  sa_agent_fd :: bytes
  sa_sandbox_fd :: bytes
  sa_conditions :: "sandbox_condition list"

definition condition_from_value :: "json \<Rightarrow> sandbox_condition option" where
  "condition_from_value v =
     (case (as_object v, Option.bind (json_get v ''type'') as_str, Option.bind (json_get v ''status'') as_str) of
        (Some _, Some t, Some s) \<Rightarrow>
          Some \<lparr>sd_type = t, sd_status = s, sd_reason = str_field v ''reason'', sd_message = str_field v ''message'',
                sd_last_transition_time = str_field v ''lastTransitionTime''\<rparr>
      | _ \<Rightarrow> None)"

definition status_from_object :: "kube_object \<Rightarrow> sandbox_status option" where
  "status_from_object obj =
     (case json_get (ko_data obj) ''status'' of
        Some (JObj m) \<Rightarrow>
          Some \<lparr>sa_sandbox_name = str_field (JObj m) ''sandboxName'', sa_agent_pod = str_field (JObj m) ''agentPod'',
                sa_agent_fd = str_field (JObj m) ''agentFd'', sa_sandbox_fd = str_field (JObj m) ''sandboxFd'',
                sa_conditions = (case array_field (JObj m) ''conditions'' of None \<Rightarrow> [] | Some items \<Rightarrow> List.map_filter condition_from_value items)\<rparr>
      | _ \<Rightarrow> None)"

definition GPU_UNSCHEDULABLE :: bytes where
  "GPU_UNSCHEDULABLE = ''GPU sandbox could not be scheduled on the active gateway. Another GPU sandbox may already be using the available GPU, or the gateway may not currently be able to satisfy GPU placement. Please refer to documentation and use `clustershell doctor` commands to inspect GPU support and gateway configuration.''"

definition rewrite_user_facing_conditions :: "sandbox_status option \<Rightarrow> sandbox_spec option \<Rightarrow> sandbox_status option" where
  "rewrite_user_facing_conditions status spec =
     (if \<not> (case spec of None \<Rightarrow> False | Some s \<Rightarrow> ss_gpu s) then status
      else map_option (\<lambda>st. st\<lparr>sa_conditions := map (\<lambda>c.
             if sd_type c = ''Ready'' \<and> eq_ignore_ascii_case (sd_status c) ''false'' \<and> eq_ignore_ascii_case (sd_reason c) ''Unschedulable''
             then c\<lparr>sd_message := GPU_UNSCHEDULABLE\<rparr> else c) (sa_conditions st)\<rparr>) status)"

text \<open>The phases that are not \<open>SANDBOX_READY\<close>.\<close>

definition SANDBOX_PROVISIONING :: nat where
  "SANDBOX_PROVISIONING = 1"

definition SANDBOX_ERROR :: nat where
  "SANDBOX_ERROR = 3"

definition SANDBOX_DELETING :: nat where
  "SANDBOX_DELETING = 4"

definition SANDBOX_UNKNOWN :: nat where
  "SANDBOX_UNKNOWN = 5"

definition is_terminal_failure_condition :: "sandbox_condition \<Rightarrow> bool" where
  "is_terminal_failure_condition c \<longleftrightarrow> to_ascii_lowercase (sd_reason c) \<notin> {''reconcilererror'', ''dependenciesnotready''}"

definition condition_phase :: "sandbox_condition \<Rightarrow> nat" where
  "condition_phase c =
     (if eq_ignore_ascii_case (sd_status c) ''true'' then SANDBOX_READY
      else if eq_ignore_ascii_case (sd_status c) ''false'' then
        (if is_terminal_failure_condition c then SANDBOX_ERROR else SANDBOX_PROVISIONING)
      else SANDBOX_PROVISIONING)"

fun conditions_phase :: "sandbox_condition list \<Rightarrow> nat" where
  "conditions_phase [] = SANDBOX_PROVISIONING"
| "conditions_phase (c # cs) = (if sd_type c = ''Ready'' then condition_phase c else conditions_phase cs)"

definition derive_phase :: "sandbox_status option \<Rightarrow> bool \<Rightarrow> nat" where
  "derive_phase status deleting =
     (if deleting then SANDBOX_DELETING
      else case status of Some st \<Rightarrow> conditions_phase (sa_conditions st) | None \<Rightarrow> SANDBOX_UNKNOWN)"

section \<open>Facts: edited JSON\<close>

lemma json_get_entry:
  "as_object v \<noteq> None \<Longrightarrow> json_get (json_entry k d f v) k' = (if k' = k then Some (f (case json_get v k of Some x \<Rightarrow> x | None \<Rightarrow> d)) else json_get v k')"
  by (cases v) (auto simp: bt_get_insert)

lemma as_object_entry [simp]: "(as_object (json_entry k d f v) = None) = (as_object v = None)"
  by (cases v) auto

lemma json_get_set_if:
  "as_object v \<noteq> None \<Longrightarrow> json_get (json_set_if c k w v) k' = (if c \<and> k' = k then Some w else json_get v k')"
  by (simp add: json_set_if_def json_get_set)

lemma as_object_set_if [simp]: "(as_object (json_set_if c k w v) = None) = (as_object v = None)"
  by (simp add: json_set_if_def)

lemma as_object_cases: "as_object v \<noteq> None \<longleftrightarrow> (\<exists>m. v = JObj m)"
  by (cases v) auto

lemmas json_gets = json_get_entry json_get_set_if json_get_set json_get_object

text \<open>What is found under a path of keys.\<close>

fun json_path :: "json \<Rightarrow> bytes list \<Rightarrow> json option" where
  "json_path v [] = Some v"
| "json_path v (k # ks) = (case json_get v k of None \<Rightarrow> None | Some w \<Rightarrow> json_path w ks)"

section \<open>Facts: the environment\<close>

definition env_value :: "json list \<Rightarrow> bytes \<Rightarrow> bytes option" where
  "env_value env n = (case find (\<lambda>item. item_name item = Some n) env of None \<Rightarrow> None | Some item \<Rightarrow> Option.bind (json_get item ''value'') as_str)"

lemma env_item_fields [simp]: "item_name (env_item n v) = Some n" "json_get (env_item n v) ''value'' = Some (JStr v)"
  by (simp_all add: env_item_def item_name_def json_get_object)

lemma env_value_Nil [simp]: "env_value [] n = None"
  by (simp add: env_value_def)

lemma env_value_upsert: "env_value (upsert_env n v env) m = (if m = n then Some v else env_value env m)"
  by (induction env) (auto simp: env_value_def)

lemma upsert_names:
  "map item_name (upsert_env n v env) = (if Some n \<in> set (map item_name env) then map item_name env else map item_name env @ [Some n])"
  by (induction env) auto

lemma upsert_distinct: "distinct (map item_name env) \<Longrightarrow> distinct (map item_name (upsert_env n v env))"
  by (auto simp: upsert_names simp del: set_map)

lemma apply_env_distinct: "distinct (map item_name env) \<Longrightarrow> distinct (map item_name (apply_env_map vs env))"
  unfolding apply_env_map_def
proof (induction vs arbitrary: env)
  case (Cons kv vs)
  then show ?case by (cases kv) (simp add: upsert_distinct)
qed simp

lemma env_value_apply: "env_value (apply_env_map vs env) n = (case map_of (rev vs) n of Some v \<Rightarrow> Some v | None \<Rightarrow> env_value env n)"
  unfolding apply_env_map_def
proof (induction vs arbitrary: env)
  case (Cons kv vs)
  then show ?case by (cases kv) (auto simp: env_value_upsert map_add_def split: option.splits)
qed simp

lemma required_env_distinct: "distinct (map fst (required_env K i n))"
  by (cases "kc_ssh_listen_addr K = []"; cases "kc_client_tls_secret_name K = []") (simp_all add: required_env_def)

lemma required_env_rev: "map_of (rev (required_env K i n)) = map_of (required_env K i n)"
  using required_env_distinct [of K i n]
  by (metis distinct_rev map_of_inject_set rev_map set_rev)

definition template_of :: "sandbox_spec option \<Rightarrow> sandbox_template" where
  "template_of spec = (case Option.bind spec ss_template of None \<Rightarrow> default_template | Some t \<Rightarrow> t)"

definition environment_of :: "sandbox_spec option \<Rightarrow> (bytes \<times> bytes) list" where
  "environment_of spec = (case spec of None \<Rightarrow> [] | Some s \<Rightarrow> ss_environment s)"

text \<open>What the sandbox asks for, under what the gateway sets.\<close>

definition pod_env :: "sandbox_client \<Rightarrow> sandbox \<Rightarrow> bytes \<Rightarrow> bytes option" where
  "pod_env K sb n =
     (case map_of (required_env K (sx_id sb) (sx_name sb)) n of
        Some v \<Rightarrow> Some v
      | None \<Rightarrow> (case map_of (rev (environment_of (sx_spec sb))) n of
          Some v \<Rightarrow> Some v
        | None \<Rightarrow> map_of (rev (st_environment (template_of (sx_spec sb)))) n))"

lemma build_env_value:
  "env_value (build_env_list None (st_environment (template_of (sx_spec sb))) (environment_of (sx_spec sb)) K (sx_id sb) (sx_name sb)) n = pod_env K sb n"
  by (simp add: build_env_list_def apply_required_env_def env_value_apply required_env_rev pod_env_def split: option.splits)

lemma build_env_distinct: "distinct (map item_name (build_env_list None te se K i n))"
  by (simp add: build_env_list_def apply_required_env_def apply_env_distinct)

section \<open>Facts: the container\<close>

lemma agent_container_gets:
  shows "as_object (agent_container S K t gpu i n se) \<noteq> None"
    and "json_get (agent_container S K t gpu i n se) ''name'' = Some (JStr ''agent'')"
    and "json_get (agent_container S K t gpu i n se) ''env'' = Some (JArr (build_env_list None (st_environment t) se K i n))"
    and "\<exists>m. json_get (agent_container S K t gpu i n se) ''securityContext'' = Some (JObj m)"
    and "\<exists>ms. json_get (agent_container S K t gpu i n se) ''volumeMounts'' = (if kc_client_tls_secret_name K = [] then None else Some (JArr ms))"
proof -
  let ?c = "agent_container S K t gpu i n se"
  show "as_object ?c \<noteq> None" "json_get ?c ''name'' = Some (JStr ''agent'')"
    "json_get ?c ''env'' = Some (JArr (build_env_list None (st_environment t) se K i n))"
    by (simp_all add: agent_container_def Let_def json_gets del: not_None_eq split: option.split)
  have "json_get ?c ''securityContext'' = Some (json_object [(''capabilities'', json_object [(''add'',
      json_str_array [''SYS_ADMIN'', ''NET_ADMIN'', ''SYS_PTRACE'', ''SYSLOG''])])])"
    by (simp add: agent_container_def Let_def json_gets del: not_None_eq split: option.split)
  then show "\<exists>m. json_get ?c ''securityContext'' = Some (JObj m)" by (auto simp: json_object_def)
  show "\<exists>ms. json_get ?c ''volumeMounts'' = (if kc_client_tls_secret_name K = [] then None else Some (JArr ms))"
    by (simp add: agent_container_def Let_def json_gets del: not_None_eq split: option.split)
qed

lemma sideload_gets:
  assumes "as_object c \<noteq> None" "\<exists>m. json_get c ''securityContext'' = Some (JObj m)" "json_get c ''volumeMounts'' = None \<or> (\<exists>ms. json_get c ''volumeMounts'' = Some (JArr ms))"
  shows "json_get (sideload_container c) ''command'' = Some supervisor_command"
    and "json_path (sideload_container c) [''securityContext'', ''runAsUser''] = Some (JNum 0)"
    and "json_get (sideload_container c) ''env'' = json_get c ''env''"
    and "\<exists>ms. json_get (sideload_container c) ''volumeMounts'' = Some (JArr ms) \<and> supervisor_volume_mount \<in> set ms"
  using assms by (auto simp: sideload_container_def json_gets bt_get_insert)

lemma pod_spec_gets:
  shows "\<exists>m. pod_spec S K t gpu i n se = JObj m"
    and "json_get (pod_spec S K t gpu i n se) ''containers'' = Some (JArr [agent_container S K t gpu i n se])"
    and "json_get (pod_spec S K t gpu i n se) ''volumes'' = None \<or> (\<exists>vs. json_get (pod_spec S K t gpu i n se) ''volumes'' = Some (JArr vs))"
proof -
  have "as_object (pod_spec S K t gpu i n se) \<noteq> None" by (simp add: pod_spec_def Let_def del: not_None_eq)
  then show "\<exists>m. pod_spec S K t gpu i n se = JObj m" by (simp only: as_object_cases)
qed (simp_all add: pod_spec_def Let_def json_gets del: not_None_eq)

lemma template_gets:
  shows "json_path (sandbox_template_to_k8s S K t gpu i n se) [''spec'', ''containers''] = Some (JArr [sideload_container (agent_container S K t gpu i n se)])"
    and "\<exists>vs. json_path (sandbox_template_to_k8s S K t gpu i n se) [''spec'', ''volumes''] = Some (JArr vs) \<and> supervisor_volume \<in> set vs"
proof -
  let ?c = "agent_container S K t gpu i n se" and ?pod = "sandbox_template_to_k8s S K t gpu i n se" and ?spec = "pod_spec S K t gpu i n se"
  obtain m where m: "?spec = JObj m" using pod_spec_gets(1) by blast
  have i: "agent_index [?c] = 0" using agent_container_gets(2) [of S K t gpu i n se] by (simp add: agent_index_def item_name_def)
  have "json_get (sideload_spec ?spec) ''containers'' = Some (JArr [sideload_container ?c])"
    using pod_spec_gets(2) [of S K t gpu i n se] i m by (simp add: sideload_spec_def Let_def json_gets bt_get_insert)
  moreover have "\<exists>vs. json_get (sideload_spec ?spec) ''volumes'' = Some (JArr vs) \<and> supervisor_volume \<in> set vs"
    using pod_spec_gets(2,3) [of S K t gpu i n se] i m by (auto simp: sideload_spec_def Let_def json_gets bt_get_insert)
  moreover have "json_get ?pod ''spec'' = Some (sideload_spec ?spec)"
    by (simp add: sandbox_template_to_k8s_def apply_supervisor_sideload_def json_gets m del: not_None_eq)
  ultimately show "json_path ?pod [''spec'', ''containers''] = Some (JArr [sideload_container ?c])"
    "\<exists>vs. json_path ?pod [''spec'', ''volumes''] = Some (JArr vs) \<and> supervisor_volume \<in> set vs" by auto
qed

lemma pod_template_of_object:
  "json_path (ko_data (sandbox_object S K sb)) [''spec'', ''podTemplate''] =
     Some (sandbox_template_to_k8s S K (template_of (sx_spec sb)) (case sx_spec sb of None \<Rightarrow> False | Some s \<Rightarrow> ss_gpu s) (sx_id sb) (sx_name sb) (environment_of (sx_spec sb)))"
proof (cases "sx_spec sb")
  case None
  then show ?thesis by (simp add: sandbox_object_def sandbox_to_k8s_spec_def template_of_def environment_of_def json_gets)
next
  case (Some spec)
  then show ?thesis
    by (cases "ss_template spec"; cases "struct_to_json S (st_volume_claim_templates (the (ss_template spec)))")
      (auto simp: sandbox_object_def sandbox_to_k8s_spec_def template_of_def environment_of_def Let_def json_gets simp del: not_None_eq)
qed

section \<open>Facts: well-formed documents\<close>

named_theorems json_wf_intros \<open>rules that show documents well-formed\<close>

lemma bt_insert_set: "set (bt_insert k v m) \<subseteq> insert (k, v) (set m)"
  by (induction k v m rule: bt_insert.induct) auto

lemma json_wf_set [json_wf_intros]: "json_wf w \<Longrightarrow> json_wf v \<Longrightarrow> json_wf (json_set k w v)"
  using bt_insert_set [of k w] by (cases v) (fastforce simp: bt_inv_insert)+

lemma json_wf_set_if [json_wf_intros]: "json_wf w \<Longrightarrow> json_wf v \<Longrightarrow> json_wf (json_set_if c k w v)"
  by (simp add: json_set_if_def json_wf_set)

lemma json_wf_get: "json_wf v \<Longrightarrow> json_get v k = Some w \<Longrightarrow> json_wf w"
  by (cases v) (auto dest!: map_of_SomeD)

lemma json_wf_entry [json_wf_intros]: "(\<And>x. json_wf x \<Longrightarrow> json_wf (f x)) \<Longrightarrow> json_wf d \<Longrightarrow> json_wf v \<Longrightarrow> json_wf (json_entry k d f v)"
proof (cases v)
  case (JObj m)
  assume f: "\<And>x. json_wf x \<Longrightarrow> json_wf (f x)" and d: "json_wf d" and v: "json_wf v"
  let ?x = "case map_of m k of Some x \<Rightarrow> x | None \<Rightarrow> d"
  have "json_wf ?x" using JObj v d json_wf_get [of v k] by (auto split: option.splits)
  from json_wf_set [OF f [OF this] v, of k] JObj show ?thesis by simp
qed simp_all

lemma json_wf_push [json_wf_intros]: "json_wf x \<Longrightarrow> json_wf v \<Longrightarrow> json_wf (json_push x v)"
  by (cases v) auto

lemma json_wf_object [json_wf_intros]: "list_all (\<lambda>kv. json_wf (snd kv)) kvs \<Longrightarrow> json_wf (json_object kvs)"
proof -
  have "bt_inv m \<and> (\<forall>kv\<in>set m. json_wf (snd kv)) \<longrightarrow> list_all (\<lambda>kv. json_wf (snd kv)) kvs \<longrightarrow>
      json_wf (JObj (fold (\<lambda>(k, v). bt_insert k v) kvs m))" for m
  proof (induction kvs arbitrary: m)
    case (Cons kv kvs)
    obtain k v where kv: "kv = (k, v)" by force
    show ?case using Cons.IH [of "bt_insert k v m"] kv bt_insert_set [of k v m] bt_inv_insert [of m k v] by auto
  qed simp
  from this [of "[]"] show "list_all (\<lambda>kv. json_wf (snd kv)) kvs \<Longrightarrow> json_wf (json_object kvs)"
    by (simp add: json_object_def bt_collect_def bt.inv_empty)
qed

lemma json_wf_simple [json_wf_intros]: "json_wf (JStr s)" "json_wf (JNum n)" "json_wf (JBool b)" "json_wf (JObj [])" "json_wf (JArr [])"
  "json_wf (json_str_array ss)" "json_wf (string_map_json m)"
proof -
  show "json_wf (string_map_json m)" unfolding string_map_json_def by (rule json_wf_object) (auto simp: list_all_iff)
qed (simp_all add: json_str_array_def bt.inv_empty)

lemma proto_value_wf: "(\<And>n. json_wf (num n)) \<Longrightarrow> json_wf (proto_value_to_json num v)"
proof (induction num v rule: proto_value_to_json.induct)
  case (4 num fs)
  then show ?case by (auto simp: list_all_iff intro!: json_wf_object)
qed auto

lemma struct_wf: "(\<And>n. json_wf (sk_number S n)) \<Longrightarrow> struct_to_json S input = Some v \<Longrightarrow> json_wf v"
  by (auto simp: struct_to_json_def list_all_iff intro!: json_wf_object proto_value_wf)

lemma env_wf: "list_all json_wf env \<Longrightarrow> list_all json_wf (apply_env_map vs env)"
proof -
  have u: "list_all json_wf env \<Longrightarrow> list_all json_wf (upsert_env n v env)" for n v env
    by (induction env) (auto simp: env_item_def intro!: json_wf_object)
  show "list_all json_wf env \<Longrightarrow> list_all json_wf (apply_env_map vs env)"
    unfolding apply_env_map_def by (induction vs arbitrary: env) (auto simp: u)
qed

lemma or_empty_object_wf [json_wf_intros]: "json_wf v \<Longrightarrow> json_wf (or_empty_object v)"
  by (cases v) (auto simp: bt.inv_empty)

lemma container_wf:
  assumes "\<And>n. json_wf (sk_number S n)"
  shows "json_wf (agent_container S K t gpu i n se)"
proof -
  have "list_all json_wf (build_env_list None (st_environment t) se K i n)"
    unfolding build_env_list_def apply_required_env_def by (intro env_wf) simp
  then have e: "json_wf (JArr (build_env_list None (st_environment t) se K i n))" by (simp add: list_all_iff)
  have r: "json_wf v" if "container_resources S t gpu = Some v" for v
    using that struct_wf [OF assms] unfolding container_resources_def apply_gpu_limit_def Let_def
    by (auto simp: bt.inv_empty split: if_splits option.splits intro!: json_wf_intros)
  show ?thesis
  proof (cases "container_resources S t gpu")
    case None
    then show ?thesis unfolding agent_container_def Let_def by (auto intro!: json_wf_intros e)
  next
    case (Some v)
    with r [OF Some] show ?thesis unfolding agent_container_def Let_def by (auto intro!: json_wf_intros e)
  qed
qed

lemma sideload_wf: "json_wf v \<Longrightarrow> json_wf (apply_supervisor_sideload v)"
proof -
  have c: "json_wf (sideload_container x)" if "json_wf x" for x
    using that unfolding sideload_container_def supervisor_volume_mount_def supervisor_command_def by (auto intro!: json_wf_intros)
  have s: "json_wf (sideload_spec x)" if x: "json_wf x" for x
  proof -
    let ?x = "json_entry ''volumes'' (JArr []) (json_push supervisor_volume) x"
    have wf: "json_wf ?x" using x unfolding supervisor_volume_def by (auto intro!: json_wf_intros)
    have "json_wf (JArr (cs[i := sideload_container (cs ! i)]))" if "json_get ?x ''containers'' = Some (JArr cs)" "i < length cs" for cs i
    proof -
      have all: "\<forall>x\<in>set cs. json_wf x" using json_wf_get [OF wf that(1)] by simp
      with that(2) have "json_wf (sideload_container (cs ! i))" by (intro c) simp
      with all have "\<forall>x\<in>set (cs[i := sideload_container (cs ! i)]). json_wf x"
        using set_update_subset_insert [of cs i "sideload_container (cs ! i)"] by blast
      then show ?thesis by simp
    qed
    with wf show ?thesis unfolding sideload_spec_def Let_def by (auto split: option.splits json.splits intro: json_wf_set)
  qed
  show "json_wf v \<Longrightarrow> json_wf (apply_supervisor_sideload v)"
    unfolding apply_supervisor_sideload_def using json_wf_get [of v "''spec''"] by (auto split: option.splits json.splits intro!: json_wf_set s)
qed

lemma template_wf: "(\<And>n. json_wf (sk_number S n)) \<Longrightarrow> json_wf (sandbox_template_to_k8s S K t gpu i n se)"
  unfolding sandbox_template_to_k8s_def pod_spec_def pod_metadata_def Let_def
  by (intro sideload_wf) (auto intro!: json_wf_intros container_wf)

section \<open>Properties\<close>

text \<open>C12: Whatever image, template and environment a sandbox asks for, its pod has one container, which runs the gateway's supervisor from
  the read-only mount, as root. Each variable is set once; those the gateway requires, among them the identity of the sandbox, the gateway's
  address and the secret of the SSH handshake, have the gateway's values, and every other variable is the specification's or else the template's.\<close>

theorem pod_runs_supervisor:
  "\<exists>c env vs ms. json_path (ko_data (sandbox_object S K sb)) [''spec'', ''podTemplate'', ''spec'', ''containers''] = Some (JArr [c])
     \<and> json_get c ''command'' = Some supervisor_command \<and> json_path c [''securityContext'', ''runAsUser''] = Some (JNum 0)
     \<and> json_path (ko_data (sandbox_object S K sb)) [''spec'', ''podTemplate'', ''spec'', ''volumes''] = Some (JArr vs) \<and> supervisor_volume \<in> set vs
     \<and> json_get c ''volumeMounts'' = Some (JArr ms) \<and> supervisor_volume_mount \<in> set ms
     \<and> json_get c ''env'' = Some (JArr env) \<and> distinct (map item_name env) \<and> env_value env = pod_env K sb"
proof -
  let ?t = "template_of (sx_spec sb)" and ?se = "environment_of (sx_spec sb)"
  from pod_template_of_object obtain gpu where pod: "json_path (ko_data (sandbox_object S K sb)) [''spec'', ''podTemplate''] =
     Some (sandbox_template_to_k8s S K ?t gpu (sx_id sb) (sx_name sb) ?se)" by blast
  let ?c = "agent_container S K ?t gpu (sx_id sb) (sx_name sb) ?se"
  note c = agent_container_gets [of S K ?t gpu "sx_id sb" "sx_name sb" ?se]
  from c(5) have "json_get ?c ''volumeMounts'' = None \<or> (\<exists>ms. json_get ?c ''volumeMounts'' = Some (JArr ms))" by (auto split: if_splits)
  note s = sideload_gets [OF c(1,4) this]
  have append: "json_path v (ks @ ks') = (case json_path v ks of None \<Rightarrow> None | Some w \<Rightarrow> json_path w ks')" for v ks ks'
    by (induction ks arbitrary: v) (auto split: option.splits)
  have "json_path (ko_data (sandbox_object S K sb)) [''spec'', ''podTemplate'', ''spec'', ''containers''] = Some (JArr [sideload_container ?c])"
    using append [of "ko_data (sandbox_object S K sb)" "[''spec'', ''podTemplate'']" "[''spec'', ''containers'']"] pod
      template_gets(1) [of S K ?t gpu "sx_id sb" "sx_name sb" ?se] by simp
  moreover have "\<exists>vs. json_path (ko_data (sandbox_object S K sb)) [''spec'', ''podTemplate'', ''spec'', ''volumes''] = Some (JArr vs) \<and> supervisor_volume \<in> set vs"
    using append [of "ko_data (sandbox_object S K sb)" "[''spec'', ''podTemplate'']" "[''spec'', ''volumes'']"] pod
      template_gets(2) [of S K ?t gpu "sx_id sb" "sx_name sb" ?se] by simp
  moreover have "env_value (build_env_list None (st_environment ?t) ?se K (sx_id sb) (sx_name sb)) = pod_env K sb"
    by (rule ext) (rule build_env_value)
  ultimately show ?thesis using s c(3) build_env_distinct by metis
qed


definition plain_client :: sandbox_client where
  "plain_client = \<lparr>kc_namespace = ''ns'', kc_default_image = ''base'', kc_image_pull_policy = [], kc_grpc_endpoint = ''http://gw'', kc_ssh_listen_addr = [],
     kc_ssh_handshake_secret = ''k'', kc_ssh_handshake_skew_secs = 300, kc_client_tls_secret_name = [], kc_host_gateway_ip = []\<rparr>"


text \<open>The identifier is read back from the object that was posted.\<close>

lemma created_object_identifies: "sandbox_id_from_object (sandbox_object S K sb) = Inr (sx_id sb)"
  by (simp add: sandbox_id_from_object_def sandbox_object_def sandbox_labels_def SANDBOX_ID_LABEL_def)

text \<open>The first condition of type \<open>Ready\<close> decides the phase.\<close>

lemma conditions_phase_first:
  "conditions_phase cs = (case find (\<lambda>c. sd_type c = ''Ready'') cs of None \<Rightarrow> SANDBOX_PROVISIONING | Some c \<Rightarrow> condition_phase c)"
  by (induction cs) auto

lemmas phase_defs = SANDBOX_READY_def SANDBOX_PROVISIONING_def SANDBOX_ERROR_def SANDBOX_DELETING_def SANDBOX_UNKNOWN_def

lemma derive_phase_ready:
  "derive_phase status deleting = SANDBOX_READY \<longleftrightarrow> \<not> deleting \<and> (\<exists>st c. status = Some st
     \<and> find (\<lambda>c. sd_type c = ''Ready'') (sa_conditions st) = Some c \<and> eq_ignore_ascii_case (sd_status c) ''true'')"
  by (auto simp: derive_phase_def conditions_phase_first condition_phase_def phase_defs split: option.splits if_splits)

lemma derive_phase_range: "derive_phase status deleting \<in> {SANDBOX_PROVISIONING, SANDBOX_READY, SANDBOX_ERROR, SANDBOX_DELETING, SANDBOX_UNKNOWN}"
  by (auto simp: derive_phase_def conditions_phase_first condition_phase_def split: option.splits)

lemma rewrite_keeps_phase: "derive_phase (rewrite_user_facing_conditions status spec) deleting = derive_phase status deleting"
proof -
  let ?f = "\<lambda>c. if sd_type c = ''Ready'' \<and> eq_ignore_ascii_case (sd_status c) ''false'' \<and> eq_ignore_ascii_case (sd_reason c) ''Unschedulable''
             then c\<lparr>sd_message := GPU_UNSCHEDULABLE\<rparr> else c"
  have c: "condition_phase (?f c) = condition_phase c" "sd_type (?f c) = sd_type c" for c
    by (simp_all add: condition_phase_def is_terminal_failure_condition_def)
  have "conditions_phase (map ?f cs) = conditions_phase cs" for cs by (induction cs) (simp_all only: list.map conditions_phase.simps c)
  then show ?thesis by (simp add: rewrite_user_facing_conditions_def derive_phase_def split: option.splits)
qed

text \<open>The gateway's values win only for the variables it sets itself. A sandbox whose environment names policy files gets them passed
  through to its supervisor, which then loads its policy from those files, inside the sandbox's image, and never asks the gateway: neither the sandbox's
  stored policy nor a global policy applies.\<close>

theorem environment_replaces_policy:
  assumes "sx_spec sb = Some spec" "hm_inv (ss_environment spec)"
    and "map_of (ss_environment spec) ''CLUSTERSHELL_POLICY_RULES'' = Some rules" "map_of (ss_environment spec) ''CLUSTERSHELL_POLICY_DATA'' = Some policy_data"
  shows "load_policy B no_input G D (pod_env K sb ''CLUSTERSHELL_SANDBOX_ID'') (pod_env K sb ''CLUSTERSHELL_SANDBOX'')
     (pod_env K sb ''CLUSTERSHELL_ENDPOINT'') (pod_env K sb ''CLUSTERSHELL_POLICY_RULES'') (pod_env K sb ''CLUSTERSHELL_POLICY_DATA'') g
     = Returned (load_policy_files B no_input D rules policy_data, g)"
proof -
  have "map_of (rev (ss_environment spec)) = map_of (ss_environment spec)"
    using assms(2) by (metis distinct_rev hm_inv_def map_of_inject_set rev_map set_rev)
  moreover have "map_of (required_env K i n) ''CLUSTERSHELL_POLICY_RULES'' = None" "map_of (required_env K i n) ''CLUSTERSHELL_POLICY_DATA'' = None" for i n
    by (simp_all add: required_env_def)
  ultimately have "pod_env K sb ''CLUSTERSHELL_POLICY_RULES'' = Some rules" "pod_env K sb ''CLUSTERSHELL_POLICY_DATA'' = Some policy_data"
    using assms by (simp_all add: pod_env_def environment_of_def)
  then show ?thesis by (simp add: load_policy_def)
qed

definition file_spec :: sandbox_spec where
  "file_spec = \<lparr>ss_log_level = [], ss_environment = [(''CLUSTERSHELL_POLICY_RULES'', ''/app/p.rego''), (''CLUSTERSHELL_POLICY_DATA'', ''/app/d.yaml'')],
     ss_template = None, ss_policy = Some restrictive_default_policy, ss_providers = [], ss_gpu = False\<rparr>"

theorem environment_replaces_policy_witness:
  "\<exists>sb. sx_spec sb = Some file_spec \<and> (\<forall>B no_input (G :: unit gateway) D.
     load_policy B no_input G D (pod_env plain_client sb ''CLUSTERSHELL_SANDBOX_ID'') (pod_env plain_client sb ''CLUSTERSHELL_SANDBOX'')
     (pod_env plain_client sb ''CLUSTERSHELL_ENDPOINT'') (pod_env plain_client sb ''CLUSTERSHELL_POLICY_RULES'') (pod_env plain_client sb ''CLUSTERSHELL_POLICY_DATA'') ()
     = Returned (load_policy_files B no_input D ''/app/p.rego'' ''/app/d.yaml'', ()))"
proof -
  let ?sb = "ready_sandbox\<lparr>sx_spec := Some file_spec\<rparr>"
  have "sx_spec ?sb = Some file_spec" "hm_inv (ss_environment file_spec)" "map_of (ss_environment file_spec) ''CLUSTERSHELL_POLICY_RULES'' = Some ''/app/p.rego''"
    "map_of (ss_environment file_spec) ''CLUSTERSHELL_POLICY_DATA'' = Some ''/app/d.yaml''" by (simp_all add: file_spec_def hm_inv_def)
  note e = this
  show ?thesis by (intro exI [of _ ?sb] conjI allI) (rule e(1), rule environment_replaces_policy [OF e])
qed

end
