(* ===== verification/Sandbox_Lifecycle.thy ===== *)
theory Sandbox_Lifecycle
  imports Sandbox_Pods Gateway_Inference
begin

text \<open>
  The life of a sandbox at the gateway: the handlers that create, read and delete it (\<open>crates/clustershell-server/src/grpc.rs\<close>), and the tasks that
  follow Kubernetes and sweep the store (\<open>sandbox/mod.rs\<close>, \<open>sandbox_index.rs\<close>). The cluster is a parameter: its state, and what a call of its
  interface answers and does to that state, including calls that time out and yet take effect.
\<close>

section \<open>The index\<close>

record sandbox_index =
  ix_sandbox_name_to_id :: "(bytes \<times> bytes) list"
  ix_agent_pod_to_id :: "(bytes \<times> bytes) list"

text \<open>\<open>ux_status\<close> is how a status is stored in a sandbox.\<close>

record status_codec =
  ux_status :: "sandbox_status \<Rightarrow> bytes"
  ux_agent_pod :: "bytes \<Rightarrow> bytes"

definition update_from_sandbox :: "status_codec \<Rightarrow> sandbox \<Rightarrow> sandbox_index \<Rightarrow> sandbox_index" where
  "update_from_sandbox U sb ix =
     (let ix1 = (if sx_name sb \<noteq> [] then ix\<lparr>ix_sandbox_name_to_id := hm_insert (sx_name sb) (sx_id sb) (ix_sandbox_name_to_id ix)\<rparr> else ix) in
      case sx_status sb of
        None \<Rightarrow> ix1
      | Some st \<Rightarrow>
          (if ux_agent_pod U st \<noteq> [] then ix1\<lparr>ix_agent_pod_to_id := hm_insert (ux_agent_pod U st) (sx_id sb) (ix_agent_pod_to_id ix1)\<rparr> else ix1))"

definition remove_sandbox :: "bytes \<Rightarrow> sandbox_index \<Rightarrow> sandbox_index" where
  "remove_sandbox sandbox_id ix =
     \<lparr>ix_sandbox_name_to_id = filter (\<lambda>kv. snd kv \<noteq> sandbox_id) (ix_sandbox_name_to_id ix),
      ix_agent_pod_to_id = filter (\<lambda>kv. snd kv \<noteq> sandbox_id) (ix_agent_pod_to_id ix)\<rparr>"

definition sandbox_id_for_sandbox_name :: "sandbox_index \<Rightarrow> bytes \<Rightarrow> bytes option" where
  "sandbox_id_for_sandbox_name ix name = map_of (ix_sandbox_name_to_id ix) name"

definition sandbox_id_for_agent_pod :: "sandbox_index \<Rightarrow> bytes \<Rightarrow> bytes option" where
  "sandbox_id_for_agent_pod ix pod = map_of (ix_agent_pod_to_id ix) pod"

section \<open>The cluster\<close>

text \<open>What a call of the Kubernetes interface gives within 30 seconds: a result, an error with its code if it has one, or nothing.\<close>

datatype kube_answer = KubeOk | KubeFailed "nat option" bytes | KubeElapsed

datatype kube_error = KubeError "nat option" bytes

text \<open>\<open>ka_show\<close> is how an error is displayed.\<close>

record 'k kube_api =
  ka_show :: "kube_error \<Rightarrow> bytes"
  ka_create :: "kube_object \<Rightarrow> 'k \<Rightarrow> kube_answer \<times> 'k"
  ka_delete :: "bytes \<Rightarrow> 'k \<Rightarrow> kube_answer \<times> 'k"
  ka_get :: "bytes \<Rightarrow> 'k \<Rightarrow> kube_answer \<times> 'k"
  ka_gpu_runtime_class :: "'k \<Rightarrow> (bytes, bool) result \<times> 'k"
  ka_node_gpus :: "'k \<Rightarrow> (bytes, bytes option list) result \<times> 'k"

fun is_not_found :: "kube_answer \<Rightarrow> bool" where
  "is_not_found (KubeFailed code msg) = (code = Some 404)"
| "is_not_found answer = False"

definition KUBE_TIMED_OUT :: kube_error where
  "KUBE_TIMED_OUT = KubeError (Some 504) ''timed out after 30s waiting for Kubernetes API''"

text \<open>\<open>SandboxClient::create\<close> and \<open>delete\<close>.\<close>

definition client_create :: "'k kube_api \<Rightarrow> struct_codec \<Rightarrow> sandbox_client \<Rightarrow> sandbox \<Rightarrow> 'k \<Rightarrow> (kube_error, unit) result \<times> 'k" where
  "client_create A S K sb k =
     (case ka_create A (sandbox_object S K sb) k of
        (KubeOk, k') \<Rightarrow> (Inr (), k')
      | (KubeFailed code msg, k') \<Rightarrow> (Inl (KubeError code msg), k')
      | (KubeElapsed, k') \<Rightarrow> (Inl KUBE_TIMED_OUT, k'))"

definition client_delete :: "'k kube_api \<Rightarrow> bytes \<Rightarrow> 'k \<Rightarrow> (kube_error, bool) result \<times> 'k" where
  "client_delete A name k =
     (case ka_delete A name k of
        (KubeOk, k') \<Rightarrow> (Inr True, k')
      | (KubeFailed code msg, k') \<Rightarrow> (if code = Some 404 then (Inr False, k') else (Inl (KubeError code msg), k'))
      | (KubeElapsed, k') \<Rightarrow> (Inl KUBE_TIMED_OUT, k'))"

definition NOT_GPU_ENABLED :: bytes where
  "NOT_GPU_ENABLED = ''GPU sandbox requested, but the active gateway is not GPU-enabled. To start a gateway with GPU support run: `clustershell gateway start --gpu`''"

definition NO_ALLOCATABLE_GPUS :: bytes where
  "NO_ALLOCATABLE_GPUS = ''GPU sandbox requested, but the active gateway has no allocatable GPUs. Please refer to documentation and use `clustershell doctor` commands to inspect GPU support and gateway configuration.''"

text \<open>A node's allocatable quantity of the resource, where it has one.\<close>

definition validate_gpu_support :: "'k kube_api \<Rightarrow> 'k \<Rightarrow> (status, unit) result \<times> 'k" where
  "validate_gpu_support A k =
     (case ka_gpu_runtime_class A k of
        (Inl e, k1) \<Rightarrow> (Inl (InternalStatus, ''check GPU runtime class failed: '' @ e), k1)
      | (Inr False, k1) \<Rightarrow> (Inl (FailedPrecondition, NOT_GPU_ENABLED), k1)
      | (Inr True, k1) \<Rightarrow>
          (case ka_node_gpus A k1 of
             (Inl e, k2) \<Rightarrow> (Inl (InternalStatus, ''check GPU node capacity failed: '' @ e), k2)
           | (Inr nodes, k2) \<Rightarrow>
               (if list_ex (\<lambda>q. case q of None \<Rightarrow> False | Some quantity \<Rightarrow> quantity \<noteq> ''0'') nodes then (Inr (), k2)
                else (Inl (FailedPrecondition, NO_ALLOCATABLE_GPUS), k2))))"

section \<open>Operations on both\<close>

text \<open>The state beside the tables: the cluster, the index, and the sandboxes whose log, event and watch channels were dropped.\<close>

record 'k fleet =
  fl_kube :: 'k
  fl_index :: sandbox_index
  fl_dropped :: "bytes list"

type_synonym ('k, 'e, 'a) operation = "world \<times> 'k fleet \<Rightarrow> ('e, 'a) result \<times> (world \<times> 'k fleet)"

definition obind :: "('k, 'e, 'a) operation \<Rightarrow> ('a \<Rightarrow> ('k, 'e, 'b) operation) \<Rightarrow> ('k, 'e, 'b) operation" where
  "obind m f s = (case m s of (Inl e, s') \<Rightarrow> (Inl e, s') | (Inr x, s') \<Rightarrow> f x s')"

definition oreturn :: "'a \<Rightarrow> ('k, 'e, 'a) operation" where
  "oreturn x s = (Inr x, s)"

definition ofail :: "'e \<Rightarrow> ('k, 'e, 'a) operation" where
  "ofail e s = (Inl e, s)"

definition on_tables :: "(world \<Rightarrow> ('e, 'a) result \<times> world) \<Rightarrow> ('k, 'e, 'a) operation" where
  "on_tables h s = (case h (fst s) of (r, w') \<Rightarrow> (r, (w', snd s)))"

definition on_cluster :: "('k \<Rightarrow> ('e, 'a) result \<times> 'k) \<Rightarrow> ('k, 'e, 'a) operation" where
  "on_cluster h s = (case h (fl_kube (snd s)) of (r, k') \<Rightarrow> (r, (fst s, (snd s)\<lparr>fl_kube := k'\<rparr>)))"

definition on_index :: "(sandbox_index \<Rightarrow> sandbox_index) \<Rightarrow> ('k, 'e, unit) operation" where
  "on_index f s = (Inr (), (fst s, (snd s)\<lparr>fl_index := f (fl_index (snd s))\<rparr>))"

definition drop_channels :: "bytes \<Rightarrow> ('k, 'e, unit) operation" where
  "drop_channels sandbox_id s = (Inr (), (fst s, (snd s)\<lparr>fl_dropped := sandbox_id # fl_dropped (snd s)\<rparr>))"

definition wake :: "bytes \<Rightarrow> ('k, 'e, unit) operation" where
  "wake sandbox_id s = (Inr (), ((fst s)\<lparr>w_notified := w_notified (fst s) @ [sandbox_id]\<rparr>, snd s))"

text \<open>A statement whose error is logged or thrown away.\<close>

definition best_effort :: "'a call \<Rightarrow> ('k, 'e, unit) operation" where
  "best_effort c s = (Inr (), (snd (c (fst s)), snd s))"

section \<open>Creating\<close>

fun require_providers :: "codec \<Rightarrow> bytes list \<Rightarrow> unit handler" where
  "require_providers C [] = hreturn ()"
| "require_providers C (name # names) =
     hbind (or_internal ''fetch provider failed'' (get_provider_by_name C name)) (\<lambda>found.
     hbind (hlift (ok_or (FailedPrecondition, ''provider '' @ quoted name @ '' not found'') found)) (\<lambda>_.
       require_providers C names))"

definition resolved_image :: "sandbox_client \<Rightarrow> sandbox_spec \<Rightarrow> sandbox_spec" where
  "resolved_image K spec =
     (let template = (case ss_template spec of None \<Rightarrow> default_template | Some t \<Rightarrow> t) in
      spec\<lparr>ss_template := Some (if st_image template = [] then template\<lparr>st_image := kc_default_image K\<rparr> else template)\<rparr>)"

definition checked_policy :: "sandbox_spec \<Rightarrow> (status, sandbox_spec) result" where
  "checked_policy spec =
     (case ss_policy spec of
        None \<Rightarrow> Inr spec
      | Some policy \<Rightarrow>
          (let policy' = ensure_sandbox_process_identity policy in
           result_bind (validate_policy_safety policy') (\<lambda>_. Inr (spec\<lparr>ss_policy := Some policy'\<rparr>))))"

text \<open>What happens before anything is written; \<open>fresh_name\<close> is what \<open>petname\<close> or \<open>generate_name\<close> draws.\<close>

definition prepare_sandbox ::
  "codec \<Rightarrow> 'k kube_api \<Rightarrow> sandbox_client \<Rightarrow> bytes \<Rightarrow> bytes \<Rightarrow> bytes \<Rightarrow> sandbox_spec option \<Rightarrow> ('k, status, sandbox) operation" where
  "prepare_sandbox C A K namespace fresh_name req_name req_spec =
     (case req_spec of
        None \<Rightarrow> ofail (InvalidArgument, ''spec is required'')
      | Some spec0 \<Rightarrow>
          obind (on_tables (hlift (validate_sandbox_spec C req_name spec0))) (\<lambda>_.
          obind (on_tables (require_providers C (ss_providers spec0))) (\<lambda>_.
            let spec1 = resolved_image K spec0 in
            obind (if ss_gpu spec1 then on_cluster (validate_gpu_support A) else oreturn ()) (\<lambda>_.
            obind (on_tables (hlift (checked_policy spec1))) (\<lambda>spec.
            obind (on_tables new_uuid) (\<lambda>i.
              oreturn \<lparr>sx_id = i, sx_name = (if req_name = [] then fresh_name else req_name), sx_namespace = namespace, sx_spec = Some spec,
                       sx_status = None, sx_phase = SANDBOX_PROVISIONING, sx_created_at_ms = 0, sx_current_policy_version = 0\<rparr>))))))"

definition create_sandbox ::
  "codec \<Rightarrow> status_codec \<Rightarrow> struct_codec \<Rightarrow> 'k kube_api \<Rightarrow> sandbox_client \<Rightarrow> bytes \<Rightarrow> bytes \<Rightarrow> bytes \<Rightarrow> sandbox_spec option
     \<Rightarrow> ('k, status, sandbox) operation" where
  "create_sandbox C U S A K namespace fresh_name req_name req_spec =
     obind (prepare_sandbox C A K namespace fresh_name req_name req_spec) (\<lambda>sb.
     obind (on_index (update_from_sandbox U sb)) (\<lambda>_.
     obind (on_tables (or_internal ''persist sandbox failed'' (put_sandbox C sb))) (\<lambda>_.
     obind (\<lambda>s. case on_cluster (client_create A S K sb) s of (r, s') \<Rightarrow> (Inr r, s')) (\<lambda>created.
       case created of
         Inr _ \<Rightarrow> obind (wake (sx_id sb)) (\<lambda>_. oreturn sb)
       | Inl (KubeError code msg) \<Rightarrow>
           obind (best_effort (execute (db_delete ''sandbox'' (sx_id sb)))) (\<lambda>_.
           obind (on_index (remove_sandbox (sx_id sb))) (\<lambda>_.
             if code = Some 409 then ofail (AlreadyExists, ''sandbox already exists'')
             else ofail (InternalStatus, ''create sandbox in kubernetes failed: '' @ ka_show A (KubeError code msg))))))))"

section \<open>Reading\<close>

definition get_sandbox :: "codec \<Rightarrow> bytes \<Rightarrow> sandbox handler" where
  "get_sandbox C name =
     (if name = [] then hfail InvalidArgument ''name is required''
      else hbind (or_internal ''fetch sandbox failed'' (get_sandbox_by_name C name)) (\<lambda>found.
             hlift (ok_or (NotFound, ''sandbox not found'') found)))"

fun decode_sandboxes :: "codec \<Rightarrow> object_record list \<Rightarrow> (status, sandbox list) result" where
  "decode_sandboxes C [] = Inr []"
| "decode_sandboxes C (r # rs) =
     (case cc_sandbox_of C (or_payload r) of
        Inl e \<Rightarrow> Inl (InternalStatus, ''decode sandbox failed: '' @ e)
      | Inr sb \<Rightarrow> result_bind (decode_sandboxes C rs) (\<lambda>sbs. Inr (sb\<lparr>sx_created_at_ms := or_created_at_ms r\<rparr> # sbs)))"

definition list_sandboxes :: "codec \<Rightarrow> nat \<Rightarrow> nat \<Rightarrow> sandbox list handler" where
  "list_sandboxes C limit offset =
     hbind (or_internal ''list sandboxes failed'' (execute (db_list ''sandbox'' (clamp_limit limit 100 MAX_PAGE_SIZE) offset))) (\<lambda>records.
       hlift (decode_sandboxes C records))"

section \<open>Deleting\<close>

fun delete_sessions :: "session_codec \<Rightarrow> bytes \<Rightarrow> object_record list \<Rightarrow> ('k, status, unit) operation" where
  "delete_sessions Q sandbox_id [] = oreturn ()"
| "delete_sessions Q sandbox_id (r # rs) =
     obind (case sc_session_of Q (or_payload r) of
              Inr session \<Rightarrow> (if se_sandbox_id session = sandbox_id then best_effort (execute (db_delete ''ssh_session'' (se_id session))) else oreturn ())
            | Inl _ \<Rightarrow> oreturn ()) (\<lambda>_.
       delete_sessions Q sandbox_id rs)"

definition clean_sessions :: "session_codec \<Rightarrow> bytes \<Rightarrow> ('k, status, unit) operation" where
  "clean_sessions Q sandbox_id s =
     (case execute (db_list ''ssh_session'' 1000 0) (fst s) of
        (Inr records, w') \<Rightarrow> delete_sessions Q sandbox_id records (w', snd s)
      | (Inl _, w') \<Rightarrow> (Inr (), (w', snd s)))"

definition delete_sandbox ::
  "codec \<Rightarrow> status_codec \<Rightarrow> session_codec \<Rightarrow> 'k kube_api \<Rightarrow> bytes \<Rightarrow> ('k, status, bool) operation" where
  "delete_sandbox C U Q A name =
     obind (on_tables (get_sandbox C name)) (\<lambda>found.
       let sb = found\<lparr>sx_phase := SANDBOX_DELETING\<rparr>; i = sx_id found in
       obind (on_tables (or_internal ''persist sandbox failed'' (put_sandbox C sb))) (\<lambda>_.
       obind (on_index (update_from_sandbox U sb)) (\<lambda>_.
       obind (wake i) (\<lambda>_.
       obind (clean_sessions Q i) (\<lambda>_.
       obind (best_effort (execute (db_delete ''sandbox_settings'' (sandbox_settings_id i)))) (\<lambda>_.
       obind (\<lambda>s. case on_cluster (client_delete A (sx_name sb)) s of (r, s') \<Rightarrow> (Inr r, s')) (\<lambda>gone.
         case gone of
           Inl e \<Rightarrow> ofail (InternalStatus, ''delete sandbox in kubernetes failed: '' @ ka_show A e)
         | Inr deleted \<Rightarrow>
             obind (if deleted then oreturn () else best_effort (execute (db_delete ''sandbox'' i))) (\<lambda>_.
             obind (drop_channels i) (\<lambda>_. oreturn deleted)))))))))"

section \<open>Following Kubernetes\<close>

text \<open>The record the watcher writes when it finds none.\<close>

definition placeholder :: "bytes \<Rightarrow> bytes \<Rightarrow> bytes \<Rightarrow> sandbox" where
  "placeholder i name namespace =
     \<lparr>sx_id = i, sx_name = name, sx_namespace = namespace, sx_spec = None, sx_status = None, sx_phase = SANDBOX_UNKNOWN,
      sx_created_at_ms = 0, sx_current_policy_version = 0\<rparr>"

definition observed :: "status_codec \<Rightarrow> sandbox_client \<Rightarrow> kube_object \<Rightarrow> bytes \<Rightarrow> sandbox option \<Rightarrow> sandbox" where
  "observed U K obj i existing =
     (let status = rewrite_user_facing_conditions (status_from_object obj) (Option.bind existing sx_spec);
          name = (case ko_name obj of None \<Rightarrow> [] | Some n \<Rightarrow> n);
          namespace = (case ko_namespace obj of None \<Rightarrow> kc_namespace K | Some n \<Rightarrow> n);
          sb = (case existing of None \<Rightarrow> placeholder i name namespace | Some sb \<Rightarrow> sb) in
      sb\<lparr>sx_status := map_option (ux_status U) status, sx_phase := derive_phase status (ko_deleting obj)\<rparr>)"

definition handle_applied :: "codec \<Rightarrow> status_codec \<Rightarrow> sandbox_client \<Rightarrow> kube_object \<Rightarrow> ('k, bytes, unit) operation" where
  "handle_applied C U K obj =
     (case sandbox_id_from_object obj of
        Inl e \<Rightarrow> ofail e
      | Inr i \<Rightarrow>
          obind (on_tables (get_sandbox_message C i)) (\<lambda>existing.
            let sb = observed U K obj i existing in
            obind (on_index (update_from_sandbox U sb)) (\<lambda>_.
            obind (on_tables (put_sandbox C sb)) (\<lambda>_.
              wake i))))"

definition handle_deleted :: "kube_object \<Rightarrow> ('k, bytes, unit) operation" where
  "handle_deleted obj =
     (case sandbox_id_from_object obj of
        Inl e \<Rightarrow> ofail e
      | Inr i \<Rightarrow>
          obind (on_tables (execute (db_delete ''sandbox'' i))) (\<lambda>_.
          obind (on_index (remove_sandbox i)) (\<lambda>_.
          obind (wake i) (\<lambda>_.
            drop_channels i))))"

datatype watch_event = WatchApplied kube_object | WatchDeleted kube_object | WatchRestarted "kube_object list"

fun watch_event_step :: "codec \<Rightarrow> status_codec \<Rightarrow> sandbox_client \<Rightarrow> watch_event \<Rightarrow> world \<times> 'k fleet \<Rightarrow> world \<times> 'k fleet" where
  "watch_event_step C U K (WatchApplied obj) s = snd (handle_applied C U K obj s)"
| "watch_event_step C U K (WatchDeleted obj) s = snd (handle_deleted obj s)"
| "watch_event_step C U K (WatchRestarted objs) s = fold (\<lambda>obj s. snd (handle_applied C U K obj s)) objs s"

section \<open>Sweeping\<close>

definition ORPHAN_GRACE_MS :: int where
  "ORPHAN_GRACE_MS = 300000"

text \<open>\<open>i64::saturating_sub\<close>.\<close>

definition saturating_sub :: "int \<Rightarrow> int \<Rightarrow> int" where
  "saturating_sub a b = max (- (2 ^ 63)) (min (2 ^ 63 - 1) (a - b))"

definition sweep_record :: "codec \<Rightarrow> 'k kube_api \<Rightarrow> int \<Rightarrow> object_record \<Rightarrow> ('k, bytes, unit) operation" where
  "sweep_record C A now_ms r =
     (case cc_sandbox_of C (or_payload r) of
        Inl _ \<Rightarrow> oreturn ()
      | Inr sb \<Rightarrow>
          (if sx_phase sb \<noteq> SANDBOX_PROVISIONING then oreturn ()
           else if saturating_sub now_ms (or_created_at_ms r) < ORPHAN_GRACE_MS then oreturn ()
           else
             obind (\<lambda>s. case ka_get A (sx_name sb) (fl_kube (snd s)) of (answer, k') \<Rightarrow> (Inr answer, (fst s, (snd s)\<lparr>fl_kube := k'\<rparr>))) (\<lambda>answer.
               if is_not_found answer then
                 obind (best_effort (execute (db_delete ''sandbox'' (sx_id sb)))) (\<lambda>_.
                 obind (on_index (remove_sandbox (sx_id sb))) (\<lambda>_.
                 obind (wake (sx_id sb)) (\<lambda>_.
                   drop_channels (sx_id sb))))
               else oreturn ())))"

fun sweep_records :: "codec \<Rightarrow> 'k kube_api \<Rightarrow> int \<Rightarrow> object_record list \<Rightarrow> ('k, bytes, unit) operation" where
  "sweep_records C A now_ms [] = oreturn ()"
| "sweep_records C A now_ms (r # rs) = obind (sweep_record C A now_ms r) (\<lambda>_. sweep_records C A now_ms rs)"

definition reconcile_orphaned_sandboxes :: "codec \<Rightarrow> 'k kube_api \<Rightarrow> ('k, bytes, unit) operation" where
  "reconcile_orphaned_sandboxes C A =
     obind (on_tables (execute (db_list ''sandbox'' 500 0))) (\<lambda>records s.
       sweep_records C A (w_now (fst s)) records s)"

section \<open>Facts: operations\<close>

named_theorems operation_simps \<open>operations run on a pair of states\<close>

lemma operation_runs [operation_simps]:
  "oreturn x s = (Inr x, s)" "ofail e s = (Inl e, s)"
  "on_tables h (w, f) = (case h w of (r, w') \<Rightarrow> (r, (w', f)))"
  "on_cluster hk (w, f) = (case hk (fl_kube f) of (r, k') \<Rightarrow> (r, (w, f\<lparr>fl_kube := k'\<rparr>)))"
  "on_index g (w, f) = (Inr (), (w, f\<lparr>fl_index := g (fl_index f)\<rparr>))"
  "drop_channels i (w, f) = (Inr (), (w, f\<lparr>fl_dropped := i # fl_dropped f\<rparr>))"
  "wake i (w, f) = (Inr (), (w\<lparr>w_notified := w_notified w @ [i]\<rparr>, f))"
  "best_effort c (w, f) = (Inr (), (snd (c w), f))"
  by (simp_all add: oreturn_def ofail_def on_tables_def on_cluster_def on_index_def drop_channels_def wake_def best_effort_def)

lemma obind_run [operation_simps]:
  "m s = (Inl e, s') \<Longrightarrow> obind m f s = (Inl e, s')" "m s = (Inr x, s') \<Longrightarrow> obind m f s = f x s'"
  by (simp_all add: obind_def)

lemma get_sandbox_message_quiet:
  "quiet w \<Longrightarrow> get_sandbox_message C i w =
     (case find (\<lambda>r. or_object_type r = ''sandbox'' \<and> or_id r = i) (db_objects (w_db w)) of None \<Rightarrow> Inr None | Some r \<Rightarrow> decoded (cc_sandbox_of C (or_payload r)), w)"
  by (simp add: get_sandbox_message_def message_of_def run_quiet db_get_def split: option.splits)

lemma get_sandbox_by_name_quiet:
  "quiet w \<Longrightarrow> get_sandbox_by_name C nm w =
     (case find (\<lambda>r. or_object_type r = ''sandbox'' \<and> or_name r = nm) (db_objects (w_db w)) of None \<Rightarrow> Inr None | Some r \<Rightarrow> decoded (cc_sandbox_of C (or_payload r)), w)"
  by (simp add: get_sandbox_by_name_def get_by_name_quiet)

lemma require_providers_quiet: "quiet w \<Longrightarrow> \<exists>r. require_providers C names w = (r, w)"
proof (induction names)
  case (Cons name names)
  obtain found where f: "get_provider_by_name C name w = (found, w)"
    using get_by_name_quiet [OF Cons.prems, of "cc_provider_of C" "''provider''" name] by (simp add: get_provider_by_name_def)
  show ?case
  proof (cases found)
    case (Inr p)
    with f Cons show ?thesis by (cases p) (auto simp: hbind_def or_internal_def hlift_def)
  qed (use f in \<open>simp add: hbind_def or_internal_def\<close>)
qed (simp add: hreturn_def)

text \<open>What is prepared in a gateway that is left alone.\<close>

definition prepared_from :: "world \<Rightarrow> bytes \<Rightarrow> bytes \<Rightarrow> sandbox \<Rightarrow> bool" where
  "prepared_from w fresh_name req_name sb \<longleftrightarrow> sx_id sb = w_uuid w 0 \<and> sx_name sb = (if req_name = [] then fresh_name else req_name)
     \<and> sx_phase sb = SANDBOX_PROVISIONING \<and> (\<exists>spec. sx_spec sb = Some spec \<and> (\<forall>p. ss_policy spec = Some p \<longrightarrow> validate_sandbox_policy p = Some (Inr ())))"

lemma checked_policy_safe: "checked_policy spec = Inr spec' \<Longrightarrow> ss_policy spec' = Some p \<Longrightarrow> validate_sandbox_policy p = Some (Inr ())"
  by (auto simp: checked_policy_def validate_policy_safety_def Let_def split: option.splits sum.splits)

lemma prepare_quiet:
  assumes "quiet w"
  shows "\<exists>k. (\<exists>e. prepare_sandbox C A K namespace fresh_name req_name req_spec (w, f) = (Inl e, (w, f\<lparr>fl_kube := k\<rparr>)))
     \<or> (\<exists>sb. prepare_sandbox C A K namespace fresh_name req_name req_spec (w, f) = (Inr sb, (w\<lparr>w_uuid := \<lambda>n. w_uuid w (Suc n)\<rparr>, f\<lparr>fl_kube := k\<rparr>))
         \<and> prepared_from w fresh_name req_name sb)"
proof (cases req_spec)
  case None
  have "f\<lparr>fl_kube := fl_kube f\<rparr> = f" by simp
  with None show ?thesis by (auto simp: prepare_sandbox_def operation_simps intro!: exI [of _ "fl_kube f"])
next
  case (Some spec0)
  have keep: "f\<lparr>fl_kube := fl_kube f\<rparr> = f" by simp
  show ?thesis
  proof (cases "validate_sandbox_spec C req_name spec0")
    case (Inl e)
    with Some keep show ?thesis by (auto simp: prepare_sandbox_def operation_simps hlift_def intro!: exI [of _ "fl_kube f"])
  next
    case (Inr u)
    obtain r where r: "require_providers C (ss_providers spec0) w = (r, w)" using require_providers_quiet [OF assms] by blast
    let ?spec1 = "resolved_image K spec0"
    obtain g k where g: "(if ss_gpu ?spec1 then on_cluster (validate_gpu_support A) else oreturn ()) (w, f) = (g, (w, f\<lparr>fl_kube := k\<rparr>))"
      by (cases "validate_gpu_support A (fl_kube f)"; cases "ss_gpu ?spec1") (auto simp: operation_simps intro: that [of _ "fl_kube f"])
    show ?thesis
      using Some Inr r g keep checked_policy_safe [of ?spec1]
      by (cases r; cases g; cases "checked_policy ?spec1")
        (auto simp: prepare_sandbox_def operation_simps obind_def hlift_def new_uuid_def prepared_from_def Let_def
          intro: exI [of _ k] exI [of _ "fl_kube f"])
  qed
qed

lemma prepare_cases:
  assumes "quiet w"
  obtains (refused) k e where "prepare_sandbox C A K namespace fresh_name req_name req_spec (w, f) = (Inl e, (w, f\<lparr>fl_kube := k\<rparr>))"
    | (prepared) k sb where "prepare_sandbox C A K namespace fresh_name req_name req_spec (w, f) =
        (Inr sb, (w\<lparr>w_uuid := \<lambda>n. w_uuid w (Suc n)\<rparr>, f\<lparr>fl_kube := k\<rparr>))" "prepared_from w fresh_name req_name sb"
  using prepare_quiet [OF assms, of C A K namespace fresh_name req_name req_spec f] by blast

section \<open>Facts: creation\<close>

definition sandbox_row :: "codec \<Rightarrow> sandbox \<Rightarrow> int \<Rightarrow> object_record" where
  "sandbox_row C sb now = \<lparr>or_object_type = ''sandbox'', or_id = sx_id sb, or_name = sx_name sb, or_payload = cc_sandbox C sb,
     or_created_at_ms = now, or_updated_at_ms = now\<rparr>"

definition name_taken :: "db \<Rightarrow> bytes \<Rightarrow> bool" where
  "name_taken d name \<longleftrightarrow> (\<exists>r\<in>set (db_objects d). or_object_type r = ''sandbox'' \<and> or_name r = name)"

lemma put_fresh_sandbox:
  assumes "quiet w" "\<forall>row\<in>set (db_objects (w_db w)). or_id row \<noteq> sx_id sb"
  shows "put_sandbox C sb w =
    (if name_taken (w_db w) (sx_name sb) then (Inl (unique_failed ''objects.object_type, objects.name''), w)
     else (Inr (), w\<lparr>w_db := (w_db w)\<lparr>db_objects := db_objects (w_db w) @ [sandbox_row C sb (w_now w)]\<rparr>\<rparr>))"
  using assms by (auto simp: put_sandbox_def run_quiet db_put_def name_taken_def sandbox_row_def)

lemma delete_fresh_sandbox:
  assumes "\<forall>row\<in>set rows. or_id row \<noteq> sx_id sb"
  shows "filter (\<lambda>r. \<not> (or_object_type r = ''sandbox'' \<and> or_id r = sx_id sb)) (rows @ [sandbox_row C sb now]) = rows"
  using assms by (auto simp: sandbox_row_def filter_id_conv)

text \<open>The three ways a creation ends once the sandbox is prepared.\<close>

lemma create_prepared:
  assumes "quiet w" "\<forall>row\<in>set (db_objects (w_db w)). or_id row \<noteq> sx_id sb"
    and "prepare_sandbox C A K namespace fresh_name req_name req_spec (w0, f0) = (Inr sb, (w, f))"
    and "create_sandbox C U S A K namespace fresh_name req_name req_spec (w0, f0) = (r, (w', f'))"
  shows "quiet w' \<and> (if name_taken (w_db w) (sx_name sb) then
       (\<exists>e. r = Inl (InternalStatus, e)) \<and> w_db w' = w_db w \<and> fl_index f' = update_from_sandbox U sb (fl_index f)
     else case client_create A S K sb (fl_kube f) of
       (Inr _, k) \<Rightarrow> r = Inr sb \<and> w_db w' = (w_db w)\<lparr>db_objects := db_objects (w_db w) @ [sandbox_row C sb (w_now w)]\<rparr>
          \<and> f' = f\<lparr>fl_kube := k, fl_index := update_from_sandbox U sb (fl_index f)\<rparr> \<and> w_notified w' = w_notified w @ [sx_id sb]
     | (Inl _, k) \<Rightarrow> (\<exists>e. r = Inl e) \<and> w_db w' = w_db w
          \<and> f' = f\<lparr>fl_kube := k, fl_index := remove_sandbox (sx_id sb) (update_from_sandbox U sb (fl_index f))\<rparr>)"
proof (cases "name_taken (w_db w) (sx_name sb)")
  case True
  with assms show ?thesis by (auto simp: create_sandbox_def obind_def operation_simps or_internal_def put_fresh_sandbox)
next
  case False
  obtain cr k where cr: "client_create A S K sb (fl_kube f) = (cr, k)" by force
  let ?w1 = "w\<lparr>w_db := (w_db w)\<lparr>db_objects := db_objects (w_db w) @ [sandbox_row C sb (w_now w)]\<rparr>\<rparr>"
  have q: "quiet ?w1" using assms(1) by simp
  have d: "execute (db_delete ''sandbox'' (sx_id sb)) ?w1 = (Inr True, ?w1\<lparr>w_db := w_db w\<rparr>)"
    using run_quiet [OF q, of "db_delete ''sandbox'' (sx_id sb)"] delete_fresh_sandbox [OF assms(2), of C "w_now w"]
    by (simp add: db_delete_def delete_rows_def) (simp add: sandbox_row_def)
  show ?thesis
  proof (cases cr)
    case (Inl e)
    obtain code msg where "e = KubeError code msg" by (cases e)
    with Inl False cr d assms show ?thesis
      by (auto simp: create_sandbox_def obind_def operation_simps or_internal_def put_fresh_sandbox split: if_splits)
  next
    case (Inr u)
    with False cr assms show ?thesis
      by (auto simp: create_sandbox_def obind_def operation_simps or_internal_def put_fresh_sandbox)
  qed
qed

text \<open>The index knows a name after an update, and nothing of a sandbox after its removal.\<close>

lemma index_after_update:
  "sx_name sb \<noteq> [] \<Longrightarrow> sandbox_id_for_sandbox_name (update_from_sandbox U sb ix) (sx_name sb) = Some (sx_id sb)"
  by (auto simp: update_from_sandbox_def sandbox_id_for_sandbox_name_def Let_def hm_insert_def update_conv' split: option.splits)

lemma index_after_removal:
  "sandbox_id_for_sandbox_name (remove_sandbox i ix) name \<noteq> Some i" "sandbox_id_for_agent_pod (remove_sandbox i ix) pod \<noteq> Some i"
  by (auto simp: remove_sandbox_def sandbox_id_for_sandbox_name_def sandbox_id_for_agent_pod_def dest!: map_of_SomeD)

section \<open>Properties: creation\<close>

text \<open>C13: A sandbox whose creation is confirmed is stored and deployed. In a gateway that is left alone, with a fresh identifier, the sandbox returned is provisioning,
  its policy (if it has one) is safe, the store finds it under its name, the index under its name leads to its identifier, and Kubernetes accepted the object made of it,
  whose labels lead back to its identifier.\<close>

theorem created_sandbox_is_deployed:
  assumes "create_sandbox C U S A K namespace fresh_name req_name req_spec (w, f) = (Inr sb, (w', f'))" "quiet w"
    and "\<forall>row\<in>set (db_objects (w_db w)). or_id row \<noteq> w_uuid w 0" "cc_sandbox_of C (cc_sandbox C sb) = Inr sb"
  shows "prepared_from w fresh_name req_name sb \<and> get_sandbox_by_name C (sx_name sb) w' = (Inr (Some sb), w')
     \<and> (sx_name sb \<noteq> [] \<longrightarrow> sandbox_id_for_sandbox_name (fl_index f') (sx_name sb) = Some (sx_id sb))
     \<and> (\<exists>k. ka_create A (sandbox_object S K sb) k = (KubeOk, fl_kube f')) \<and> sandbox_id_from_object (sandbox_object S K sb) = Inr (sx_id sb)"
proof -
  obtain k sb0 where p: "prepare_sandbox C A K namespace fresh_name req_name req_spec (w, f) =
      (Inr sb0, (w\<lparr>w_uuid := \<lambda>n. w_uuid w (Suc n)\<rparr>, f\<lparr>fl_kube := k\<rparr>))" "prepared_from w fresh_name req_name sb0"
    using assms(1) by (cases rule: prepare_cases [OF assms(2), of C A K namespace fresh_name req_name req_spec f]) (auto simp: create_sandbox_def obind_def)
  have fresh: "\<forall>row\<in>set (db_objects (w_db (w\<lparr>w_uuid := \<lambda>n. w_uuid w (Suc n)\<rparr>))). or_id row \<noteq> sx_id sb0"
    using assms(3) p(2) by (simp add: prepared_from_def)
  note c = create_prepared [OF _ fresh p(1) assms(1)]
  from c assms(2) have nt: "\<not> name_taken (w_db w) (sx_name sb0)" by (auto split: if_splits)
  from c assms(2) nt obtain k' where k': "client_create A S K sb0 k = (Inr (), k')" and sb: "sb = sb0" "quiet w'"
    "w_db w' = (w_db w)\<lparr>db_objects := db_objects (w_db w) @ [sandbox_row C sb0 (w_now w)]\<rparr>"
    "f' = f\<lparr>fl_kube := k', fl_index := update_from_sandbox U sb0 (fl_index f)\<rparr>" by (auto split: prod.splits sum.splits)
  have "find (\<lambda>r. or_object_type r = ''sandbox'' \<and> or_name r = sx_name sb) (db_objects (w_db w)) = None"
    using nt sb(1) by (auto simp: name_taken_def find_None_iff)
  then have "get_sandbox_by_name C (sx_name sb) w' = (Inr (Some sb), w')"
    using sb assms(4) by (simp add: get_sandbox_by_name_quiet find_append sandbox_row_def decoded_def)
  moreover have "ka_create A (sandbox_object S K sb) k = (KubeOk, fl_kube f')"
    using k' sb by (auto simp: client_create_def KUBE_TIMED_OUT_def split: prod.splits kube_answer.splits)
  ultimately show ?thesis using p(2) sb index_after_update [of sb U "fl_index f"] created_object_identifies by auto
qed

lemma create_sandbox_failed:
  assumes "create_sandbox C U S A K namespace fresh_name req_name req_spec (w, f) = (Inl e, (w', f'))" "quiet w"
    and "\<forall>row\<in>set (db_objects (w_db w)). or_id row \<noteq> w_uuid w 0"
  shows "w_db w' = w_db w \<and> quiet w'"
proof -
  show ?thesis
  proof (cases rule: prepare_cases [OF assms(2), of C A K namespace fresh_name req_name req_spec f])
    case (1 k e')
    with assms show ?thesis by (auto simp: create_sandbox_def obind_def)
  next
    case prepared: (2 k sb)
    have fresh: "\<forall>row\<in>set (db_objects (w_db (w\<lparr>w_uuid := \<lambda>n. w_uuid w (Suc n)\<rparr>))). or_id row \<noteq> sx_id sb"
      using assms(3) prepared(2) by (simp add: prepared_from_def)
    from create_prepared [OF _ fresh prepared(1) assms(1)] assms(2) show ?thesis by (auto split: if_splits prod.splits sum.splits)
  qed
qed


text \<open>Creating a sandbox under a name that is taken fails only when it is written, after the index was changed: the name of the sandbox
  that has it then leads to an identifier no sandbox has.\<close>

theorem name_clash_redirects_index:
  assumes "create_sandbox C U S A K namespace fresh_name req_name req_spec (w, f) = (r, (w', f'))" "quiet w"
    and "\<forall>row\<in>set (db_objects (w_db w)). or_id row \<noteq> w_uuid w 0"
    and "prepare_sandbox C A K namespace fresh_name req_name req_spec (w, f) = (Inr sb, s)" "name_taken (w_db w) (sx_name sb)" "sx_name sb \<noteq> []"
  shows "(\<exists>e. r = Inl (InternalStatus, e)) \<and> w_db w' = w_db w \<and> sandbox_id_for_sandbox_name (fl_index f') (sx_name sb) = Some (w_uuid w 0)"
proof (cases rule: prepare_cases [OF assms(2), of C A K namespace fresh_name req_name req_spec f])
  case (2 k sb')
  with assms(4) have sb: "sb' = sb" by simp
  have fresh: "\<forall>row\<in>set (db_objects (w_db (w\<lparr>w_uuid := \<lambda>n. w_uuid w (Suc n)\<rparr>))). or_id row \<noteq> sx_id sb'"
    using assms(3) 2(2) by (simp add: prepared_from_def)
  from create_prepared [OF _ fresh 2(1) assms(1)] assms(2,5,6) 2(2) sb index_after_update [of sb U "fl_index f"]
  show ?thesis by (simp add: prepared_from_def)
qed (use assms(4) in simp)

section \<open>Properties: following Kubernetes\<close>

lemma find_id_after_put:
  assumes "db_put ''sandbox'' i nm payload now d = (Inr (), d')"
    and "(\<exists>r. find (\<lambda>r. or_object_type r = ''sandbox'' \<and> or_id r = i) (db_objects d) = Some r) \<or> (\<forall>r\<in>set (db_objects d). or_id r \<noteq> i)"
  shows "\<exists>r. find (\<lambda>r. or_object_type r = ''sandbox'' \<and> or_id r = i) (db_objects d') = Some r \<and> or_payload r = payload"
proof (cases "\<exists>r\<in>set (db_objects d). or_id r = i")
  case True
  then obtain r where r: "find (\<lambda>r. or_object_type r = ''sandbox'' \<and> or_id r = i) (db_objects d) = Some r" using assms(2) by blast
  with True assms(1) find_Some_in [OF r] show ?thesis by (auto simp: db_put_def find_map_stable)
next
  case False
  have "find (\<lambda>r. or_object_type r = ''sandbox'' \<and> or_id r = i) (db_objects d) = None" using False by (auto simp: find_None_iff)
  with False assms(1) show ?thesis by (auto simp: db_put_def find_append split: if_splits)
qed

lemma applied_quiet:
  assumes "quiet w" "sandbox_id_from_object obj = Inr i" "get_sandbox_message C i w = (Inr existing, w)"
    and "sb = observed U K obj i existing" "sx_id sb = i" "db_put ''sandbox'' i (sx_name sb) (cc_sandbox C sb) (w_now w) (w_db w) = (Inr (), d)"
  shows "handle_applied C U K obj (w, f) = (Inr (), (w\<lparr>w_db := d, w_notified := w_notified w @ [i]\<rparr>, f\<lparr>fl_index := update_from_sandbox U sb (fl_index f)\<rparr>))"
  using assms by (simp add: handle_applied_def obind_def operation_simps put_sandbox_def run_quiet Let_def)

text \<open>The watcher changes nothing but status and phase of a sandbox that is stored: its name, its specification with the policy and its policy version
  stay as they are, and the phase is ready exactly when the object is not being deleted and the first condition of type \<open>Ready\<close> is true.\<close>

theorem watcher_updates_only_status:
  assumes "quiet w" "sandbox_id_from_object obj = Inr i" "get_sandbox_message C i w = (Inr (Some sb), w)" "sx_id sb = i"
    and "cc_sandbox_of C (cc_sandbox C (observed U K obj i (Some sb))) = Inr (observed U K obj i (Some sb))"
  shows "\<exists>w' f' st phase. handle_applied C U K obj (w, f) = (Inr (), (w', f'))
     \<and> get_sandbox_message C i w' = (Inr (Some (sb\<lparr>sx_status := st, sx_phase := phase\<rparr>)), w')
     \<and> (phase = SANDBOX_READY \<longleftrightarrow> \<not> ko_deleting obj \<and> (\<exists>status c. status_from_object obj = Some status
          \<and> find (\<lambda>c. sd_type c = ''Ready'') (sa_conditions status) = Some c \<and> eq_ignore_ascii_case (sd_status c) ''true''))"
proof -
  let ?sb = "observed U K obj i (Some sb)"
  obtain r where r: "find (\<lambda>r. or_object_type r = ''sandbox'' \<and> or_id r = i) (db_objects (w_db w)) = Some r"
    using assms(1,3) by (auto simp: get_sandbox_message_quiet split: option.splits)
  have sb: "?sb = sb\<lparr>sx_status := sx_status ?sb, sx_phase := sx_phase ?sb\<rparr>" and id: "sx_id ?sb = i" using assms(4) by (simp_all add: observed_def Let_def)
  have "\<exists>d. db_put ''sandbox'' i (sx_name ?sb) (cc_sandbox C ?sb) (w_now w) (w_db w) = (Inr (), d)"
    using find_Some_in [OF r] by (auto simp: db_put_def)
  then obtain d where d: "db_put ''sandbox'' i (sx_name ?sb) (cc_sandbox C ?sb) (w_now w) (w_db w) = (Inr (), d)" by blast
  let ?w' = "w\<lparr>w_db := d, w_notified := w_notified w @ [i]\<rparr>"
  have q: "quiet ?w'" using assms(1) by simp
  have "get_sandbox_message C i ?w' = (Inr (Some ?sb), ?w')"
    using find_id_after_put [OF d] r assms(5) by (auto simp: get_sandbox_message_quiet [OF q] decoded_def)
  moreover note applied_quiet [OF assms(1-3) refl id d, of f]
  moreover have "sx_phase ?sb = derive_phase (status_from_object obj) (ko_deleting obj)"
    by (simp add: observed_def Let_def rewrite_keeps_phase)
  ultimately show ?thesis using sb derive_phase_ready [of "status_from_object obj" "ko_deleting obj"] by metis
qed

text \<open>A creation that failed at the gateway may still have taken effect in the cluster, when the call timed out. Its record is gone then, and when the
  cluster reports the object, the watcher stores it anew, without a specification: the sandbox runs, under its identifier, with no policy and no providers.\<close>

theorem timed_out_creation_loses_spec:
  assumes "create_sandbox C U S A K namespace fresh_name req_name req_spec (w, f) = (Inl e, (w', f'))" "quiet w"
    and "\<forall>row\<in>set (db_objects (w_db w)). or_id row \<noteq> w_uuid w 0"
    and "sandbox_id_from_object obj = Inr (w_uuid w 0)" "ko_name obj = Some name" "\<not> name_taken (w_db w) name"
    and "cc_sandbox_of C (cc_sandbox C (observed U K obj (w_uuid w 0) None)) = Inr (observed U K obj (w_uuid w 0) None)"
  shows "\<exists>w2 f2 sb. handle_applied C U K obj (w', f') = (Inr (), (w2, f2))
     \<and> get_sandbox_message C (w_uuid w 0) w2 = (Inr (Some sb), w2) \<and> sx_name sb = name \<and> sx_spec sb = None"
proof -
  have kept: "w_db w' = w_db w" "quiet w'" using create_sandbox_failed [OF assms(1-3)] by blast+
  let ?i = "w_uuid w 0" and ?sb = "observed U K obj (w_uuid w 0) None"
  have none: "get_sandbox_message C ?i w' = (Inr None, w')"
    using assms(3) kept by (auto simp: get_sandbox_message_quiet find_None_iff split: option.splits dest!: find_Some_in)
  have sb: "sx_id ?sb = ?i" "sx_name ?sb = name" "sx_spec ?sb = None" using assms(5) by (simp_all add: observed_def placeholder_def Let_def)
  have "\<exists>d. db_put ''sandbox'' ?i (sx_name ?sb) (cc_sandbox C ?sb) (w_now w') (w_db w') = (Inr (), d)"
    using assms(3,6) kept sb by (auto simp: db_put_def name_taken_def)
  then obtain d where d: "db_put ''sandbox'' ?i (sx_name ?sb) (cc_sandbox C ?sb) (w_now w') (w_db w') = (Inr (), d)" by blast
  let ?w2 = "w'\<lparr>w_db := d, w_notified := w_notified w' @ [?i]\<rparr>"
  have q: "quiet ?w2" using kept by simp
  have "get_sandbox_message C ?i ?w2 = (Inr (Some ?sb), ?w2)"
    using find_id_after_put [OF d] assms(3,7) kept by (auto simp: get_sandbox_message_quiet [OF q] decoded_def)
  with applied_quiet [OF kept(2) assms(4) none refl sb(1) d, of f'] sb show ?thesis by blast
qed

section \<open>Properties: sweeping and deleting\<close>

text \<open>A record the sweep may remove: a sandbox that is still provisioning after the grace period and that the cluster does not know.\<close>

definition orphaned :: "codec \<Rightarrow> 'k kube_api \<Rightarrow> int \<Rightarrow> object_record \<Rightarrow> bytes \<Rightarrow> bool" where
  "orphaned C A now r i \<longleftrightarrow> (\<exists>sb answer k k'. cc_sandbox_of C (or_payload r) = Inr sb \<and> sx_id sb = i \<and> sx_phase sb = SANDBOX_PROVISIONING
     \<and> ORPHAN_GRACE_MS \<le> saturating_sub now (or_created_at_ms r) \<and> ka_get A (sx_name sb) k = (answer, k') \<and> is_not_found answer)"

definition not_sandbox :: "bytes \<Rightarrow> object_record \<Rightarrow> bool" where
  "not_sandbox i r \<longleftrightarrow> \<not> (or_object_type r = ''sandbox'' \<and> or_id r = i)"

lemma sweep_record_quiet:
  assumes "quiet w"
  shows "\<exists>w' f'. sweep_record C A now r (w, f) = (Inr (), (w', f')) \<and> quiet w' \<and> w_now w' = w_now w
     \<and> (db_objects (w_db w') = db_objects (w_db w) \<or> (\<exists>i. orphaned C A now r i \<and> db_objects (w_db w') = filter (not_sandbox i) (db_objects (w_db w))))"
proof (cases "cc_sandbox_of C (or_payload r)")
  case (Inr sb)
  obtain answer k' where a: "ka_get A (sx_name sb) (fl_kube f) = (answer, k')" by force
  show ?thesis
  proof (cases "sx_phase sb = SANDBOX_PROVISIONING \<and> \<not> saturating_sub now (or_created_at_ms r) < ORPHAN_GRACE_MS \<and> is_not_found answer")
    case True
    with Inr a have "orphaned C A now r (sx_id sb)" unfolding orphaned_def by force
    moreover have "filter (\<lambda>r. \<not> (or_object_type r = ''sandbox'' \<and> or_id r = sx_id sb)) rows = filter (not_sandbox (sx_id sb)) rows" for rows
      by (rule filter_cong) (simp_all add: not_sandbox_def)
    ultimately show ?thesis using True Inr a assms
      by (auto simp: sweep_record_def obind_def operation_simps run_quiet db_delete_def delete_rows_def)
  next
    case False
    with Inr a assms show ?thesis by (auto simp: sweep_record_def obind_def operation_simps)
  qed
qed (use assms in \<open>simp add: sweep_record_def operation_simps\<close>)

lemma sweep_records_quiet:
  assumes "quiet w"
  shows "\<exists>w' f'. sweep_records C A now rs (w, f) = (Inr (), (w', f')) \<and> quiet w' \<and> set (db_objects (w_db w')) \<subseteq> set (db_objects (w_db w))
     \<and> (\<forall>row\<in>set (db_objects (w_db w)) - set (db_objects (w_db w')). or_object_type row = ''sandbox'' \<and> (\<exists>r\<in>set rs. orphaned C A now r (or_id row)))"
  using assms
proof (induction rs arbitrary: w f)
  case Nil
  then show ?case by (simp add: operation_simps)
next
  case (Cons r rs)
  from sweep_record_quiet [OF Cons.prems, of C A now r f] obtain w1 f1 where 1: "sweep_record C A now r (w, f) = (Inr (), (w1, f1))" "quiet w1"
    and rows: "db_objects (w_db w1) = db_objects (w_db w) \<or> (\<exists>i. orphaned C A now r i \<and> db_objects (w_db w1) = filter (not_sandbox i) (db_objects (w_db w)))"
    by blast
  from Cons.IH [OF 1(2), of f1] obtain w' f' where 2: "sweep_records C A now rs (w1, f1) = (Inr (), (w', f'))" "quiet w'"
    "set (db_objects (w_db w')) \<subseteq> set (db_objects (w_db w1))"
    "\<forall>row\<in>set (db_objects (w_db w1)) - set (db_objects (w_db w')). or_object_type row = ''sandbox'' \<and> (\<exists>r\<in>set rs. orphaned C A now r (or_id row))"
    by blast
  have "set (db_objects (w_db w1)) \<subseteq> set (db_objects (w_db w))" using rows by auto
  moreover have "or_object_type row = ''sandbox'' \<and> (\<exists>r\<in>set (r # rs). orphaned C A now r (or_id row))"
    if row: "row \<in> set (db_objects (w_db w)) - set (db_objects (w_db w'))" for row
  proof (cases "row \<in> set (db_objects (w_db w1))")
    case True
    with 2(4) row show ?thesis by auto
  next
    case False
    with rows row show ?thesis by (auto simp: not_sandbox_def)
  qed
  ultimately show ?case using 1 2 by (auto simp: obind_def)
qed

text \<open>C15: The sweep removes exactly what it is for: in a gateway that is left alone, whose rows have the identifiers of the sandboxes in them, it returns, adds nothing, and every row that
  is gone was of a sandbox still provisioning, at least five minutes old, which the cluster reported as not found.\<close>

theorem sweep_removes_only_orphans:
  assumes "quiet w" "distinct (map or_id (db_objects (w_db w)))"
    and "\<forall>r\<in>set (db_objects (w_db w)). or_object_type r = ''sandbox'' \<longrightarrow> (\<forall>sb. cc_sandbox_of C (or_payload r) = Inr sb \<longrightarrow> sx_id sb = or_id r)"
  shows "\<exists>w' f'. reconcile_orphaned_sandboxes C A (w, f) = (Inr (), (w', f')) \<and> set (db_objects (w_db w')) \<subseteq> set (db_objects (w_db w))
     \<and> (\<forall>row\<in>set (db_objects (w_db w)) - set (db_objects (w_db w')). or_object_type row = ''sandbox'' \<and> orphaned C A (w_now w) row (or_id row))"
proof -
  obtain records where l: "execute (db_list ''sandbox'' 500 0) w = (Inr records, w)" and sub: "set records \<subseteq> {r \<in> set (db_objects (w_db w)). or_object_type r = ''sandbox''}"
  proof -
    let ?records = "take 500 (drop 0 (sort_key or_created_at_ms (sort_key or_name (filter (\<lambda>r. or_object_type r = ''sandbox'') (db_objects (w_db w))))))"
    have "set ?records \<subseteq> {r \<in> set (db_objects (w_db w)). or_object_type r = ''sandbox''}" using set_take_subset [of 500] by fastforce
    moreover have "execute (db_list ''sandbox'' 500 0) w = (Inr ?records, w)" using assms(1) by (simp add: run_quiet db_list_def)
    ultimately show ?thesis by (rule that [rotated])
  qed
  from sweep_records_quiet [OF assms(1), of C A "w_now w" records f] obtain w' f' where s: "sweep_records C A (w_now w) records (w, f) = (Inr (), (w', f'))"
    "set (db_objects (w_db w')) \<subseteq> set (db_objects (w_db w))"
    "\<forall>row\<in>set (db_objects (w_db w)) - set (db_objects (w_db w')). or_object_type row = ''sandbox'' \<and> (\<exists>r\<in>set records. orphaned C A (w_now w) r (or_id row))"
    by blast
  have "orphaned C A (w_now w) row (or_id row)" if row: "row \<in> set (db_objects (w_db w))" and r: "r \<in> set records" "orphaned C A (w_now w) r (or_id row)" for row r
  proof -
    from r(2) obtain sb where "cc_sandbox_of C (or_payload r) = Inr sb" "sx_id sb = or_id row" by (auto simp: orphaned_def)
    with assms(3) r(1) sub have "or_id r = or_id row" by auto
    with assms(2) row r(1) sub have "r = row" by (auto simp: distinct_map inj_on_def)
    with r(2) show ?thesis by simp
  qed
  with s l show ?thesis by (auto simp: reconcile_orphaned_sandboxes_def obind_def operation_simps)
qed

text \<open>The rows \<open>delete_sessions\<close> goes for.\<close>

definition session_of_sandbox :: "session_codec \<Rightarrow> bytes \<Rightarrow> object_record \<Rightarrow> bool" where
  "session_of_sandbox Q i r \<longleftrightarrow> (case sc_session_of Q (or_payload r) of Inr session \<Rightarrow> se_sandbox_id session = i | Inl _ \<Rightarrow> False)"

definition session_rows :: "db \<Rightarrow> object_record list" where
  "session_rows d = filter (\<lambda>r. or_object_type r = ''ssh_session'') (db_objects d)"

text \<open>A row of a session has the session's identifier.\<close>

definition session_row_ok :: "session_codec \<Rightarrow> object_record \<Rightarrow> bool" where
  "session_row_ok Q r \<longleftrightarrow> (case sc_session_of Q (or_payload r) of Inr session \<Rightarrow> se_id session = or_id r | Inl _ \<Rightarrow> True)"

lemma delete_sessions_quiet:
  assumes "quiet w" "list_all (session_row_ok Q) rs"
  shows "\<exists>w'. delete_sessions Q i rs (w, f) = (Inr (), (w', f)) \<and> quiet w' \<and> db_objects (w_db w') =
     filter (\<lambda>row. \<not> (or_object_type row = ''ssh_session'' \<and> or_id row \<in> or_id ` set (filter (session_of_sandbox Q i) rs))) (db_objects (w_db w))"
  using assms
proof (induction rs arbitrary: w)
  case Nil
  then show ?case by (simp add: operation_simps)
next
  case (Cons r rs)
  show ?case
  proof (cases "session_of_sandbox Q i r")
    case True
    then obtain session where s: "sc_session_of Q (or_payload r) = Inr session" "se_sandbox_id session = i" by (auto simp: session_of_sandbox_def split: sum.splits)
    with Cons.prems(2) have id: "se_id session = or_id r" by (auto simp: session_row_ok_def)
    let ?w1 = "w\<lparr>w_db := (w_db w)\<lparr>db_objects := filter (\<lambda>row. \<not> (or_object_type row = ''ssh_session'' \<and> or_id row = or_id r)) (db_objects (w_db w))\<rparr>\<rparr>"
    have "snd (execute (db_delete ''ssh_session'' (se_id session)) w) = ?w1"
      using Cons.prems(1) id by (simp add: run_quiet db_delete_def delete_rows_def)
    then have step: "delete_sessions Q i (r # rs) (w, f) = delete_sessions Q i rs (?w1, f)" using s by (simp add: obind_def operation_simps)
    from Cons.IH [of ?w1] Cons.prems obtain w' where w': "delete_sessions Q i rs (?w1, f) = (Inr (), (w', f))" "quiet w'"
      "db_objects (w_db w') = filter (\<lambda>row. \<not> (or_object_type row = ''ssh_session'' \<and> or_id row \<in> or_id ` set (filter (session_of_sandbox Q i) rs))) (db_objects (w_db ?w1))"
      by auto
    have "db_objects (w_db w') = filter (\<lambda>row. \<not> (or_object_type row = ''ssh_session'' \<and> or_id row \<in> or_id ` set (filter (session_of_sandbox Q i) (r # rs)))) (db_objects (w_db w))"
      using True by (simp add: w'(3)) (rule filter_cong, auto)
    with w' step show ?thesis by auto
  next
    case False
    then have "delete_sessions Q i (r # rs) (w, f) = delete_sessions Q i rs (w, f)"
      by (auto simp: session_of_sandbox_def obind_def operation_simps split: sum.splits)
    with Cons False show ?thesis by auto
  qed
qed

lemma clean_sessions_quiet:
  assumes "quiet w" "list_all (session_row_ok Q) (session_rows (w_db w))" "length (session_rows (w_db w)) \<le> 1000"
  shows "\<exists>w'. clean_sessions Q i (w, f) = (Inr (), (w', f)) \<and> quiet w' \<and> set (db_objects (w_db w')) \<subseteq> set (db_objects (w_db w))
     \<and> (\<forall>row\<in>set (session_rows (w_db w')). \<not> session_of_sandbox Q i row)"
proof -
  let ?records = "take 1000 (drop 0 (sort_key or_created_at_ms (sort_key or_name (session_rows (w_db w)))))"
  have r: "execute (db_list ''ssh_session'' 1000 0) w = (Inr ?records, w)" using assms(1) by (simp add: run_quiet db_list_def session_rows_def)
  have set: "set ?records = set (session_rows (w_db w))" using assms(3) by simp
  with assms(2) have "list_all (session_row_ok Q) ?records" by (simp add: list_all_iff)
  from delete_sessions_quiet [OF assms(1) this, of i f] obtain w' where w': "delete_sessions Q i ?records (w, f) = (Inr (), (w', f))" "quiet w'"
    and rows: "db_objects (w_db w') = filter (\<lambda>row. \<not> (or_object_type row = ''ssh_session'' \<and> or_id row \<in> or_id ` set (filter (session_of_sandbox Q i) ?records))) (db_objects (w_db w))"
    by blast
  have "\<not> session_of_sandbox Q i row" if "row \<in> set (session_rows (w_db w'))" for row
  proof
    assume "session_of_sandbox Q i row"
    moreover have "row \<in> set (session_rows (w_db w))" using that rows by (auto simp: session_rows_def)
    ultimately have "row \<in> set (filter (session_of_sandbox Q i) ?records)" using set by simp
    with that rows show False by (auto simp: session_rows_def)
  qed
  with w' r rows show ?thesis by (auto simp: clean_sessions_def)
qed

lemma clean_sessions_returns: "\<exists>s'. clean_sessions Q i s = (Inr (), s')"
proof -
  have "\<exists>s'. delete_sessions Q i rs s = (Inr (), s')" for rs s
    by (induction rs arbitrary: s) (auto simp: obind_def oreturn_def best_effort_def split: sum.splits if_splits)
  then show ?thesis by (auto simp: clean_sessions_def split: prod.splits sum.splits)
qed

lemma put_sandbox_session_rows:
  assumes "put_sandbox C sb w = (Inr (), w')" "quiet w"
  shows "session_rows (w_db w') = session_rows (w_db w) \<and> quiet w'"
proof -
  have m: "filter (\<lambda>r. or_object_type r = ''ssh_session'') (map (\<lambda>r. if or_id r = i \<and> or_object_type r = ''sandbox'' then g r else r) rows)
      = filter (\<lambda>r. or_object_type r = ''ssh_session'') rows" if "\<And>r. or_object_type (g r) = or_object_type r" for g i rows
    using that by (induction rows) auto
  show ?thesis using assms by (auto simp: put_sandbox_def run_quiet db_put_def session_rows_def m split: if_splits)
qed

text \<open>A confirmed deletion leaves nothing that would let anyone back in: in a gateway that is left alone, with at most a thousand SSH sessions, no session of the
  sandbox and no settings of it are stored any more, its channels are dropped, and its record is gone if the cluster did not know it.\<close>

theorem deleted_sandbox_is_cleaned_up:
  assumes "delete_sandbox C U Q A name (w, f) = (Inr deleted, (w', f'))" "quiet w"
    and "list_all (session_row_ok Q) (session_rows (w_db w))" "length (session_rows (w_db w)) \<le> 1000"
  shows "\<exists>sb. get_sandbox C name w = (Inr sb, w) \<and> (\<forall>row\<in>set (session_rows (w_db w')). \<not> session_of_sandbox Q (sx_id sb) row)
     \<and> (\<forall>row\<in>set (db_objects (w_db w')). \<not> (or_object_type row = ''sandbox_settings'' \<and> or_id row = sandbox_settings_id (sx_id sb)))
     \<and> (\<not> deleted \<longrightarrow> (\<forall>row\<in>set (db_objects (w_db w')). not_sandbox (sx_id sb) row)) \<and> sx_id sb \<in> set (fl_dropped f')"
proof -
  obtain sb where sb: "get_sandbox C name w = (Inr sb, w)"
    using assms(1,2) by (auto simp: delete_sandbox_def obind_def operation_simps get_sandbox_def hbind_def or_internal_def hlift_def
        get_sandbox_by_name_quiet hfail_def split: if_splits prod.splits sum.splits)
  let ?sb = "sb\<lparr>sx_phase := SANDBOX_DELETING\<rparr>" and ?i = "sx_id sb"
  obtain w1 where w1: "put_sandbox C ?sb w = (Inr (), w1)"
    using assms(1) sb by (auto simp: delete_sandbox_def obind_def operation_simps or_internal_def Let_def split: prod.splits sum.splits)
  note q1 = put_sandbox_session_rows [OF w1 assms(2)]
  let ?w2 = "w1\<lparr>w_notified := w_notified w1 @ [?i]\<rparr>" and ?f2 = "f\<lparr>fl_index := update_from_sandbox U ?sb (fl_index f)\<rparr>"
  obtain w3 where w3: "clean_sessions Q ?i (?w2, ?f2) = (Inr (), (w3, ?f2))" "quiet w3" "\<forall>row\<in>set (session_rows (w_db w3)). \<not> session_of_sandbox Q ?i row"
    using clean_sessions_quiet [of ?w2 Q ?i ?f2] q1 assms(3,4) by auto
  let ?w4 = "snd (execute (db_delete ''sandbox_settings'' (sandbox_settings_id ?i)) w3)"
  have w4: "quiet ?w4" "db_objects (w_db ?w4) = filter (\<lambda>row. \<not> (or_object_type row = ''sandbox_settings'' \<and> or_id row = sandbox_settings_id ?i)) (db_objects (w_db w3))"
    using w3(2) by (simp_all add: run_quiet db_delete_def delete_rows_def)
  obtain cr k where cr: "client_delete A (sx_name sb) (fl_kube f) = (cr, k)" by force
  have run: "delete_sandbox C U Q A name (w, f) = (case cr of
        Inl e \<Rightarrow> (Inl (InternalStatus, ''delete sandbox in kubernetes failed: '' @ ka_show A e), (?w4, ?f2\<lparr>fl_kube := k\<rparr>))
      | Inr gone \<Rightarrow> (Inr gone, ((if gone then ?w4 else snd (execute (db_delete ''sandbox'' ?i) ?w4)), ?f2\<lparr>fl_kube := k, fl_dropped := ?i # fl_dropped f\<rparr>)))"
    using sb w1 w3 cr by (auto simp: delete_sandbox_def obind_def operation_simps or_internal_def Let_def split: sum.splits)
  with assms(1) have w': "w' = (if deleted then ?w4 else snd (execute (db_delete ''sandbox'' ?i) ?w4))" "sx_id sb \<in> set (fl_dropped f')"
    by (auto split: sum.splits)
  have rows: "set (db_objects (w_db w')) \<subseteq> set (db_objects (w_db ?w4))" "\<not> deleted \<Longrightarrow> \<forall>row\<in>set (db_objects (w_db w')). not_sandbox ?i row"
    using w'(1) w4(1) by (auto simp: run_quiet db_delete_def delete_rows_def not_sandbox_def split: if_splits)
  have "\<forall>row\<in>set (session_rows (w_db w')). \<not> session_of_sandbox Q ?i row"
    using rows(1) w4(2) w3(3) by (auto simp: session_rows_def)
  moreover have "\<forall>row\<in>set (db_objects (w_db w')). \<not> (or_object_type row = ''sandbox_settings'' \<and> or_id row = sandbox_settings_id ?i)"
    using rows(1) w4(2) by auto
  ultimately show ?thesis using sb rows(2) w'(2) by blast
qed

section \<open>Witnesses\<close>

definition bare_spec :: sandbox_spec where
  "bare_spec = \<lparr>ss_log_level = [], ss_environment = [], ss_template = None, ss_policy = None, ss_providers = [], ss_gpu = False\<rparr>"

definition bare_sandbox :: sandbox where
  "bare_sandbox = \<lparr>sx_id = ''uuid'', sx_name = ''dev'', sx_namespace = ''ns'', sx_spec = Some (resolved_image plain_client bare_spec), sx_status = None,
     sx_phase = SANDBOX_PROVISIONING, sx_created_at_ms = 0, sx_current_policy_version = 0\<rparr>"

text \<open>A codec that knows one sandbox, and a cluster that always answers the same.\<close>

definition one_sandbox_codec :: "sandbox \<Rightarrow> codec" where
  "one_sandbox_codec sb = sample_codec\<lparr>cc_sandbox_of := (\<lambda>_. Inr sb)\<rparr>"

definition steady_cluster :: "kube_answer \<Rightarrow> unit kube_api" where
  "steady_cluster answer = \<lparr>ka_show = (\<lambda>_. []), ka_create = (\<lambda>_ k. (answer, k)), ka_delete = (\<lambda>_ k. (answer, k)), ka_get = (\<lambda>_ k. (answer, k)),
     ka_gpu_runtime_class = (\<lambda>k. (Inr True, k)), ka_node_gpus = (\<lambda>k. (Inr [], k))\<rparr>"

definition plain_status :: status_codec where
  "plain_status = \<lparr>ux_status = (\<lambda>_. []), ux_agent_pod = (\<lambda>_. [])\<rparr>"

definition plain_struct :: struct_codec where
  "plain_struct = \<lparr>sk_fields = (\<lambda>_. []), sk_number = (\<lambda>_. JNull)\<rparr>"

definition empty_fleet :: "unit fleet" where
  "empty_fleet = \<lparr>fl_kube = (), fl_index = \<lparr>ix_sandbox_name_to_id = [], ix_agent_pod_to_id = []\<rparr>, fl_dropped = []\<rparr>"

abbreviation bare_creation :: "sandbox \<Rightarrow> kube_answer \<Rightarrow> (status, sandbox) result \<times> (world \<times> unit fleet)" where
  "bare_creation known answer \<equiv> create_sandbox (one_sandbox_codec known) plain_status plain_struct (steady_cluster answer) plain_client ''ns'' ''x'' ''dev''
     (Some bare_spec) (sample_world [], empty_fleet)"

lemma bare_prepared:
  "prepare_sandbox (one_sandbox_codec known) (steady_cluster answer) plain_client ''ns'' ''x'' ''dev'' (Some bare_spec) (sample_world [], empty_fleet)
     = (Inr bare_sandbox, ((sample_world [])\<lparr>w_uuid := \<lambda>n. w_uuid (sample_world []) (Suc n)\<rparr>, empty_fleet))"
proof -
  have v: "validate_sandbox_spec (one_sandbox_codec known) ''dev'' bare_spec = Inr ()"
    by (simp add: validate_sandbox_spec_def bare_spec_def at_most_def validate_string_map_def MAX_NAME_LEN_def)
  have "ss_providers bare_spec = []" "ss_gpu (resolved_image plain_client bare_spec) = False" "ss_policy (resolved_image plain_client bare_spec) = None"
    by (simp_all add: bare_spec_def resolved_image_def Let_def)
  with v show ?thesis
    by (simp add: prepare_sandbox_def obind_def operation_simps hlift_def hreturn_def new_uuid_def checked_policy_def Let_def bare_sandbox_def)
      (simp add: sample_world_def)
qed

lemma bare_created:
  assumes "bare_creation known answer = (r, (w', f'))"
  shows "case answer of KubeOk \<Rightarrow> r = Inr bare_sandbox | _ \<Rightarrow> (\<exists>e. r = Inl e)"
proof -
  have "\<forall>row\<in>set (db_objects (w_db ((sample_world [])\<lparr>w_uuid := \<lambda>n. w_uuid (sample_world []) (Suc n)\<rparr>))). or_id row \<noteq> sx_id bare_sandbox"
    by (simp add: sample_world_def)
  from create_prepared [OF _ this bare_prepared assms] show ?thesis
    by (cases answer) (auto simp: quiet_def sample_world_def name_taken_def client_create_def steady_cluster_def split: prod.splits sum.splits)
qed

theorem created_sandbox_is_deployed_witness:
  "\<exists>w' f'. bare_creation bare_sandbox KubeOk = (Inr bare_sandbox, (w', f'))
     \<and> get_sandbox_by_name (one_sandbox_codec bare_sandbox) ''dev'' w' = (Inr (Some bare_sandbox), w')
     \<and> sandbox_id_for_sandbox_name (fl_index f') ''dev'' = Some ''uuid''"
proof -
  obtain r w' f' where c: "bare_creation bare_sandbox KubeOk = (r, (w', f'))" by (metis prod.collapse)
  with bare_created [OF c] have "bare_creation bare_sandbox KubeOk = (Inr bare_sandbox, (w', f'))" by simp
  from created_sandbox_is_deployed [OF this] this show ?thesis
    by (simp add: quiet_def sample_world_def one_sandbox_codec_def) (simp add: bare_sandbox_def)
qed


text \<open>The object of the sandbox as the cluster reports it.\<close>

definition reported_object :: kube_object where
  "reported_object = \<lparr>ko_name = Some ''dev'', ko_namespace = Some ''ns'', ko_labels = Some [(SANDBOX_ID_LABEL, ''uuid'')], ko_deleting = False,
     ko_data = json_object [(''status'', json_object [(''conditions'', JArr [json_object [(''type'', JStr ''Ready''), (''status'', JStr ''True'')]])])]\<rparr>"

definition lost_sandbox :: sandbox where
  "lost_sandbox = observed plain_status plain_client reported_object ''uuid'' None"

theorem timed_out_creation_loses_spec_witness:
  "\<exists>e w' f' w2 f2 sb. bare_creation lost_sandbox KubeElapsed = (Inl e, (w', f'))
     \<and> handle_applied (one_sandbox_codec lost_sandbox) plain_status plain_client reported_object (w', f') = (Inr (), (w2, f2))
     \<and> get_sandbox_message (one_sandbox_codec lost_sandbox) ''uuid'' w2 = (Inr (Some sb), w2) \<and> sx_spec sb = None"
proof -
  obtain r w' f' where c: "bare_creation lost_sandbox KubeElapsed = (r, (w', f'))" by (metis prod.collapse)
  with bare_created [OF c] obtain e where e: "bare_creation lost_sandbox KubeElapsed = (Inl e, (w', f'))" by auto
  have "sandbox_id_from_object reported_object = Inr ''uuid''" by (simp add: reported_object_def sandbox_id_from_object_def)
  moreover have "cc_sandbox_of (one_sandbox_codec lost_sandbox) x = Inr lost_sandbox" for x by (simp add: one_sandbox_codec_def)
  moreover have "w_uuid (sample_world []) 0 = ''uuid''" "quiet (sample_world [])" "db_objects (w_db (sample_world [])) = []" "ko_name reported_object = Some ''dev''"
    by (simp_all add: sample_world_def quiet_def reported_object_def)
  ultimately show ?thesis
    using timed_out_creation_loses_spec [OF e, of reported_object "''dev''"] e by (auto simp: lost_sandbox_def name_taken_def)
qed

definition stored_world :: world where
  "stored_world = (sample_world [\<lparr>or_object_type = ''sandbox'', or_id = ''uuid'', or_name = ''dev'', or_payload = [], or_created_at_ms = 1, or_updated_at_ms = 1\<rparr>,
     \<lparr>or_object_type = ''ssh_session'', or_id = ''tok'', or_name = ''n'', or_payload = framed_session ((session_of ''tok'')\<lparr>se_sandbox_id := ''uuid''\<rparr>),
      or_created_at_ms = 1, or_updated_at_ms = 1\<rparr>])\<lparr>w_now := 300001\<rparr>"

definition ready_bare_sandbox :: sandbox where
  "ready_bare_sandbox = observed plain_status plain_client reported_object ''uuid'' (Some bare_sandbox)"

definition two_sandbox_codec :: codec where
  "two_sandbox_codec = sample_codec\<lparr>cc_sandbox := (\<lambda>_. ''new''), cc_sandbox_of := (\<lambda>b. Inr (if b = [] then bare_sandbox else ready_bare_sandbox))\<rparr>"

lemma bare_sandbox_id: "sx_id bare_sandbox = ''uuid''"
  by (simp add: bare_sandbox_def)

lemma stored_world_facts [simp]: "quiet stored_world" "w_now stored_world = 300001"
  by (simp_all add: stored_world_def sample_world_def quiet_def)

lemma stored_sandbox: "get_sandbox_message two_sandbox_codec ''uuid'' stored_world = (Inr (Some bare_sandbox), stored_world)"
  by (simp add: get_sandbox_message_quiet) (simp add: stored_world_def sample_world_def two_sandbox_codec_def decoded_def)

theorem watcher_updates_only_status_witness:
  "\<exists>w' f' st phase. handle_applied two_sandbox_codec plain_status plain_client reported_object (stored_world, empty_fleet) = (Inr (), (w', f'))
     \<and> get_sandbox_message two_sandbox_codec ''uuid'' w' = (Inr (Some (bare_sandbox\<lparr>sx_status := st, sx_phase := phase\<rparr>)), w') \<and> phase = SANDBOX_READY"
proof -
  have o: "sandbox_id_from_object reported_object = Inr ''uuid''" "sx_id bare_sandbox = ''uuid''"
    by (simp_all add: reported_object_def sandbox_id_from_object_def bare_sandbox_def)
  have c: "cc_sandbox_of two_sandbox_codec (cc_sandbox two_sandbox_codec (observed plain_status plain_client reported_object ''uuid'' (Some bare_sandbox)))
      = Inr (observed plain_status plain_client reported_object ''uuid'' (Some bare_sandbox))" by (simp add: two_sandbox_codec_def ready_bare_sandbox_def)
  have "derive_phase (status_from_object reported_object) (ko_deleting reported_object) = SANDBOX_READY" by code_simp
  then show ?thesis
    unfolding derive_phase_ready
    using watcher_updates_only_status [OF stored_world_facts(1) o(1) stored_sandbox o(2) c, of empty_fleet] by blast
qed

theorem sweep_removes_only_orphans_witness:
  "\<exists>w' f'. reconcile_orphaned_sandboxes two_sandbox_codec (steady_cluster (KubeFailed (Some 404) ''not found'')) (stored_world, empty_fleet) = (Inr (), (w', f'))
     \<and> set (db_objects (w_db w')) \<subseteq> set (db_objects (w_db stored_world))"
proof -
  have "distinct (map or_id (db_objects (w_db stored_world)))" by (simp add: stored_world_def sample_world_def)
  moreover have "\<forall>r\<in>set (db_objects (w_db stored_world)). or_object_type r = ''sandbox'' \<longrightarrow>
      (\<forall>sb. cc_sandbox_of two_sandbox_codec (or_payload r) = Inr sb \<longrightarrow> sx_id sb = or_id r)"
    by (simp add: stored_world_def sample_world_def two_sandbox_codec_def bare_sandbox_def)
  ultimately show ?thesis
    using sweep_removes_only_orphans [OF stored_world_facts(1), of two_sandbox_codec "steady_cluster (KubeFailed (Some 404) ''not found'')" empty_fleet] by blast
qed

theorem deleted_sandbox_is_cleaned_up_witness:
  "\<exists>deleted w' f'. delete_sandbox two_sandbox_codec plain_status framed_codec (steady_cluster KubeOk) ''dev'' (stored_world, empty_fleet) = (Inr deleted, (w', f'))
     \<and> (\<forall>row\<in>set (session_rows (w_db w')). \<not> session_of_sandbox framed_codec ''uuid'' row)"
proof -
  have g: "get_sandbox two_sandbox_codec ''dev'' stored_world = (Inr bare_sandbox, stored_world)"
    by (simp add: get_sandbox_def get_sandbox_by_name_quiet) (simp add: stored_world_def sample_world_def two_sandbox_codec_def decoded_def)
  have ok: "list_all (session_row_ok framed_codec) (session_rows (w_db stored_world))" "length (session_rows (w_db stored_world)) \<le> 1000"
    by (simp_all add: stored_world_def sample_world_def session_rows_def session_row_ok_def framed_codec_def session_of_def)
  obtain r w' f' where d: "delete_sandbox two_sandbox_codec plain_status framed_codec (steady_cluster KubeOk) ''dev'' (stored_world, empty_fleet) = (r, (w', f'))"
    by (metis prod.collapse)
  have "\<exists>w1. put_sandbox two_sandbox_codec sb stored_world = (Inr (), w1)" if "sx_id sb = ''uuid''" for sb
    using that by (simp add: put_sandbox_def run_quiet db_put_def) (simp add: stored_world_def sample_world_def)
  then obtain w1 where "put_sandbox two_sandbox_codec (bare_sandbox\<lparr>sx_phase := SANDBOX_DELETING\<rparr>) stored_world = (Inr (), w1)"
    by (metis bare_sandbox_id sandbox.select_convs(1) sandbox.surjective sandbox.update_convs(6))
  moreover obtain s where "clean_sessions framed_codec ''uuid'' (w1\<lparr>w_notified := w_notified w1 @ [''uuid'']\<rparr>,
      empty_fleet\<lparr>fl_index := update_from_sandbox plain_status (bare_sandbox\<lparr>sx_phase := SANDBOX_DELETING\<rparr>) (fl_index empty_fleet)\<rparr>) = (Inr (), s)"
    using clean_sessions_returns by blast
  ultimately have "r = Inr True"
    using d g by (cases s) (auto simp: delete_sandbox_def obind_def operation_simps or_internal_def Let_def bare_sandbox_id client_delete_def steady_cluster_def)
  with d deleted_sandbox_is_cleaned_up [OF _ stored_world_facts(1) ok, of two_sandbox_codec plain_status "steady_cluster KubeOk" "''dev''" empty_fleet True w' f'] g
  show ?thesis by (auto simp: bare_sandbox_id)
qed

end
