(* ===== verification/Log_Bus.thy ===== *)
theory Log_Bus
  imports Sandbox_Lifecycle
begin

text \<open>
  The gateway's buses, \<open>crates/clustershell-server/src/tracing_bus.rs\<close> and \<open>sandbox_watch.rs\<close>: log lines, platform events and change notices, each
  broadcast per sandbox, the first two also kept in a bounded buffer for late subscribers; and the handlers of \<open>grpc.rs\<close> that read the lines and
  take them in. The broadcast channel itself is the runtime's: a channel is a number, and what is sent on it is recorded in order.
\<close>

section \<open>Events\<close>

record log_line =
  ll_sandbox_id :: bytes
  ll_timestamp_ms :: int
  ll_level :: bytes
  ll_target :: bytes
  ll_message :: bytes
  ll_source :: bytes
  ll_fields :: "(bytes \<times> bytes) list"

record platform_event =
  pe_timestamp_ms :: int
  pe_source :: bytes
  pe_type :: bytes
  pe_reason :: bytes
  pe_message :: bytes
  pe_metadata :: "(bytes \<times> bytes) list"

text \<open>The gateway builds no other payload.\<close>

datatype stream_payload = SandboxPayload sandbox | LogPayload log_line | EventPayload platform_event

type_synonym stream_event = "stream_payload option"

section \<open>Buses\<close>

text \<open>\<open>bus_senders\<close> holds the senders by sandbox, \<open>bus_tails\<close> the buffers; the bus of change notices has no buffers.\<close>

record 'e bus =
  bus_senders :: "(bytes \<times> nat) list"
  bus_tails :: "(bytes \<times> 'e list) list"
  bus_fresh :: nat
  bus_sent :: "(nat \<times> 'e) list"

definition new_bus :: "'e bus" where
  "new_bus = \<lparr>bus_senders = [], bus_tails = [], bus_fresh = 0, bus_sent = []\<rparr>"

definition sender_for :: "bytes \<Rightarrow> 'e bus \<Rightarrow> nat \<times> 'e bus" where
  "sender_for sandbox_id b =
     (case map_of (bus_senders b) sandbox_id of
        Some c \<Rightarrow> (c, b)
      | None \<Rightarrow> (bus_fresh b, b\<lparr>bus_senders := hm_insert sandbox_id (bus_fresh b) (bus_senders b), bus_fresh := Suc (bus_fresh b)\<rparr>))"

text \<open>A receiver gets what is sent on its channel after it subscribed.\<close>

type_synonym receiver = "nat \<times> nat"

definition bus_subscribe :: "bytes \<Rightarrow> 'e bus \<Rightarrow> receiver \<times> 'e bus" where
  "bus_subscribe sandbox_id b = (case sender_for sandbox_id b of (c, b') \<Rightarrow> ((c, length (bus_sent b')), b'))"

text \<open>\<open>tx.send(event)\<close>; its result is thrown away.\<close>

definition announce :: "bytes \<Rightarrow> 'e \<Rightarrow> 'e bus \<Rightarrow> 'e bus" where
  "announce sandbox_id event b = (case sender_for sandbox_id b of (c, b') \<Rightarrow> b'\<lparr>bus_sent := bus_sent b' @ [(c, event)]\<rparr>)"

function pop_excess :: "nat \<Rightarrow> 'e list \<Rightarrow> 'e list" where
  "pop_excess tail_cap deque = (if tail_cap < length deque then pop_excess tail_cap (tl deque) else deque)"
  by pat_completeness auto
termination
  by (relation "measure (\<lambda>(cap, d). length d)") auto

declare pop_excess.simps [simp del]

definition tail_of :: "bytes \<Rightarrow> 'e bus \<Rightarrow> 'e list" where
  "tail_of sandbox_id b = (case map_of (bus_tails b) sandbox_id of None \<Rightarrow> [] | Some deque \<Rightarrow> deque)"

definition buffer_event :: "nat \<Rightarrow> bytes \<Rightarrow> 'e \<Rightarrow> 'e bus \<Rightarrow> 'e bus" where
  "buffer_event tail_cap sandbox_id event b =
     b\<lparr>bus_tails := hm_insert sandbox_id (pop_excess tail_cap (tail_of sandbox_id b @ [event])) (bus_tails b)\<rparr>"

text \<open>Two critical sections.\<close>

definition publish :: "nat \<Rightarrow> bytes \<Rightarrow> 'e \<Rightarrow> 'e bus \<Rightarrow> 'e bus" where
  "publish tail_cap sandbox_id event b = buffer_event tail_cap sandbox_id event (announce sandbox_id event b)"

definition bus_remove :: "bytes \<Rightarrow> 'e bus \<Rightarrow> 'e bus" where
  "bus_remove sandbox_id b = b\<lparr>bus_senders := hm_remove sandbox_id (bus_senders b), bus_tails := hm_remove sandbox_id (bus_tails b)\<rparr>"

definition bus_tail :: "bytes \<Rightarrow> nat \<Rightarrow> 'e bus \<Rightarrow> 'e list" where
  "bus_tail sandbox_id n b = rev (take n (rev (tail_of sandbox_id b)))"

definition LOG_TAIL :: nat where
  "LOG_TAIL = 2000"

definition PLATFORM_TAIL :: nat where
  "PLATFORM_TAIL = 50"

text \<open>\<open>PlatformEventBus::publish\<close>.\<close>

definition publish_platform :: "bytes \<Rightarrow> stream_event \<Rightarrow> stream_event bus \<Rightarrow> stream_event bus" where
  "publish_platform = publish PLATFORM_TAIL"

text \<open>\<open>SandboxWatchBus\<close>: \<open>notify\<close> and \<open>remove\<close>.\<close>

definition notify_watchers :: "bytes \<Rightarrow> unit bus \<Rightarrow> unit bus" where
  "notify_watchers sandbox_id b = announce sandbox_id () b"

definition remove_watchers :: "bytes \<Rightarrow> unit bus \<Rightarrow> unit bus" where
  "remove_watchers sandbox_id b = b\<lparr>bus_senders := hm_remove sandbox_id (bus_senders b)\<rparr>"

section \<open>Log lines\<close>

definition publish_external :: "log_line \<Rightarrow> stream_event bus \<Rightarrow> stream_event bus" where
  "publish_external log b = publish LOG_TAIL (ll_sandbox_id log) (Some (LogPayload log)) b"

text \<open>A field of a tracing event, as a string or as its debug text.\<close>

datatype field_value = StrValue bytes | DebugValue bytes

fun field_text :: "field_value \<Rightarrow> bytes" where
  "field_text (StrValue s) = s"
| "field_text (DebugValue s) = s"

record log_visitor =
  lv_sandbox_id :: "bytes option"
  lv_message :: "bytes option"

definition visit_field :: "bytes \<times> field_value \<Rightarrow> log_visitor \<Rightarrow> log_visitor" where
  "visit_field kv v =
     (if fst kv = ''sandbox_id'' then v\<lparr>lv_sandbox_id := Some (field_text (snd kv))\<rparr>
      else if fst kv = ''message'' then v\<lparr>lv_message := Some (field_text (snd kv))\<rparr>
      else v)"

record tracing_event =
  te_level :: bytes
  te_target :: bytes
  te_name :: bytes
  te_fields :: "(bytes \<times> field_value) list"

text \<open>\<open>SandboxLogLayer::on_event\<close>; \<open>now\<close> is what \<open>current_time_ms\<close> gives.\<close>

definition gateway_log_event :: "int option \<Rightarrow> tracing_event \<Rightarrow> stream_event bus \<Rightarrow> stream_event bus" where
  "gateway_log_event now event b =
     (let visitor = fold visit_field (te_fields event) \<lparr>lv_sandbox_id = None, lv_message = None\<rparr> in
      case lv_sandbox_id visitor of
        None \<Rightarrow> b
      | Some sandbox_id \<Rightarrow>
          publish LOG_TAIL sandbox_id
            (Some (LogPayload
              \<lparr>ll_sandbox_id = sandbox_id, ll_timestamp_ms = (case now of None \<Rightarrow> 0 | Some ts \<Rightarrow> ts), ll_level = te_level event,
               ll_target = te_target event, ll_message = (case lv_message visitor of None \<Rightarrow> te_name event | Some msg \<Rightarrow> msg),
               ll_source = ''gateway'', ll_fields = []\<rparr>)) b)"

section \<open>Reading lines\<close>

definition source_matches :: "bytes \<Rightarrow> bytes list \<Rightarrow> bool" where
  "source_matches log_source filters =
     (let effective = (if log_source = [] then ''gateway'' else log_source) in list_ex (\<lambda>f. f = effective) filters)"

text \<open>\<open>upper\<close> is \<open>str::to_uppercase\<close>.\<close>

definition level_number :: "(bytes \<Rightarrow> bytes) \<Rightarrow> bytes \<Rightarrow> nat" where
  "level_number upper s =
     (if upper s = ''ERROR'' then 0
      else if upper s = ''WARN'' then 1
      else if upper s = ''INFO'' then 2
      else if upper s = ''DEBUG'' then 3
      else if upper s = ''TRACE'' then 4
      else 5)"

definition level_matches :: "(bytes \<Rightarrow> bytes) \<Rightarrow> bytes \<Rightarrow> bytes \<Rightarrow> bool" where
  "level_matches upper log_level min_level = (min_level = [] \<or> level_number upper log_level \<le> level_number upper min_level)"

text \<open>The filters of \<open>get_sandbox_logs\<close> and of the replay and, without the first, of the live lines of \<open>watch_sandbox\<close>.\<close>

definition line_since :: "int \<Rightarrow> log_line \<Rightarrow> bool" where
  "line_since since_ms log = (\<not> (0 < since_ms \<and> ll_timestamp_ms log < since_ms))"

definition line_wanted :: "(bytes \<Rightarrow> bytes) \<Rightarrow> bytes list \<Rightarrow> bytes \<Rightarrow> log_line \<Rightarrow> bool" where
  "line_wanted upper sources min_level log =
     (\<not> (sources \<noteq> [] \<and> \<not> source_matches (ll_source log) sources) \<and> level_matches upper (ll_level log) min_level)"

record logs_request =
  lq_sandbox_id :: bytes
  lq_lines :: nat
  lq_since_ms :: int
  lq_sources :: "bytes list"
  lq_min_level :: bytes

definition requested_line :: "(bytes \<Rightarrow> bytes) \<Rightarrow> logs_request \<Rightarrow> stream_event \<Rightarrow> log_line option" where
  "requested_line upper req evt =
     (case evt of
        Some (LogPayload log) \<Rightarrow>
          (if line_since (lq_since_ms req) log \<and> line_wanted upper (lq_sources req) (lq_min_level req) log then Some log else None)
      | _ \<Rightarrow> None)"

text \<open>The lines and their number before filtering, cut to 32 bits.\<close>

definition get_sandbox_logs :: "(bytes \<Rightarrow> bytes) \<Rightarrow> logs_request \<Rightarrow> stream_event bus \<Rightarrow> (status, log_line list \<times> nat) result" where
  "get_sandbox_logs upper req b =
     (if lq_sandbox_id req = [] then Inl (InvalidArgument, ''sandbox_id is required'')
      else
        let lines = (if lq_lines req = 0 then 2000 else lq_lines req);
            tail = bus_tail (lq_sandbox_id req) lines b in
        Inr (List.map_filter (requested_line upper req) tail, length tail mod 2 ^ 32))"

section \<open>Taking lines in\<close>

record push_request =
  pq_sandbox_id :: bytes
  pq_logs :: "log_line list"

definition attributed :: "push_request \<Rightarrow> log_line \<Rightarrow> log_line" where
  "attributed batch log = log\<lparr>ll_source := ''sandbox'', ll_sandbox_id := pq_sandbox_id batch\<rparr>"

definition require_sandbox :: "codec \<Rightarrow> bytes \<Rightarrow> unit handler" where
  "require_sandbox C sandbox_id =
     hbind (or_internal ''fetch sandbox failed'' (get_sandbox_message C sandbox_id)) (\<lambda>found.
     hbind (hlift (ok_or (NotFound, ''sandbox not found'') found)) (\<lambda>_. hreturn ()))"

text \<open>The requests are what the stream yields: batches, or an error.\<close>

fun push_sandbox_logs ::
  "codec \<Rightarrow> bool \<Rightarrow> (bytes, push_request) result list \<Rightarrow> world \<times> stream_event bus \<Rightarrow> (status, unit) result \<times> (world \<times> stream_event bus)" where
  "push_sandbox_logs C validated [] s = (Inr (), s)"
| "push_sandbox_logs C validated (Inl e # requests) s = (Inl (InternalStatus, ''stream error: '' @ e), s)"
| "push_sandbox_logs C validated (Inr batch # requests) (w, b) =
     (if pq_sandbox_id batch = [] then push_sandbox_logs C validated requests (w, b)
      else case (if validated then hreturn () w else require_sandbox C (pq_sandbox_id batch) w) of
             (Inl e, w') \<Rightarrow> (Inl e, (w', b))
           | (Inr _, w') \<Rightarrow>
               push_sandbox_logs C True requests (w', fold publish_external (map (attributed batch) (take 100 (pq_logs batch))) b))"

section \<open>What the buffers hold\<close>

definition last_n :: "nat \<Rightarrow> 'a list \<Rightarrow> 'a list" where
  "last_n n xs = drop (length xs - n) xs"

lemma last_n_Nil [simp]: "last_n n [] = []"
  by (simp add: last_n_def)

lemma last_n_rev: "last_n n xs = rev (take n (rev xs))"
  by (simp add: last_n_def take_rev)

lemma last_n_last_n [simp]: "last_n n (last_n m xs) = last_n (min n m) xs"
  by (simp add: last_n_rev)

lemma last_n_append: "n \<le> m \<Longrightarrow> last_n n (last_n m xs @ ys) = last_n n (xs @ ys)"
  by (simp add: last_n_rev min_absorb1)

lemma last_n_append_le: "length ys \<ge> n \<Longrightarrow> last_n n (xs @ ys) = last_n n ys"
  by (simp add: last_n_def)

lemma set_last_n: "set (last_n n xs) \<subseteq> set xs"
  by (simp add: last_n_def set_drop_subset)

lemma pop_excess_last_n: "pop_excess cap xs = last_n cap xs"
proof (induction cap xs rule: pop_excess.induct)
  case (1 cap xs)
  then show ?case
    by (subst pop_excess.simps) (cases xs; simp add: last_n_def Suc_diff_le less_Suc_eq_le)
qed

lemma bus_tail_last_n: "bus_tail i n b = last_n n (tail_of i b)"
  by (simp add: bus_tail_def last_n_def take_rev)

lemma hm_get [simp]: "map_of (hm_insert k v m) = (map_of m)(k \<mapsto> v)" "map_of (hm_remove k m) = (map_of m)(k := None)"
  by (simp_all add: hm_insert_def hm_remove_def update_conv' delete_conv')

text \<open>
  The contract of a bus with a buffer of \<open>cap\<close> events: a publication is at the end of the buffer of its sandbox, a removal empties it, and neither
  shows in another sandbox's.
\<close>

locale buffered_bus =
  fixes sub :: "bytes \<Rightarrow> 'b \<Rightarrow> receiver \<times> 'b"
    and ann :: "bytes \<Rightarrow> 'e \<Rightarrow> 'b \<Rightarrow> 'b"
    and buf :: "bytes \<Rightarrow> 'e \<Rightarrow> 'b \<Rightarrow> 'b"
    and rem :: "bytes \<Rightarrow> 'b \<Rightarrow> 'b"
    and recent :: "bytes \<Rightarrow> nat \<Rightarrow> 'b \<Rightarrow> 'e list"
    and cap :: nat
  assumes recent_sub: "recent i n (snd (sub j b)) = recent i n b"
    and recent_ann: "recent i n (ann j e b) = recent i n b"
    and recent_buf: "recent i n (buf j e b) = (if i = j then last_n n (last_n cap (recent i cap b @ [e])) else recent i n b)"
    and recent_rem: "recent i n (rem j b) = (if i = j then [] else recent i n b)"

text \<open>What tasks do to a bus; \<open>BusPublish\<close> is a publication nobody interrupts.\<close>

datatype 'e bus_op =
  BusSubscribe bytes | BusAnnounce bytes 'e | BusBuffer bytes 'e | BusPublish bytes 'e | BusRemove bytes

fun bus_do :: "nat \<Rightarrow> 'e bus_op \<Rightarrow> 'e bus \<Rightarrow> 'e bus" where
  "bus_do cap (BusSubscribe i) b = snd (bus_subscribe i b)"
| "bus_do cap (BusAnnounce i e) b = announce i e b"
| "bus_do cap (BusBuffer i e) b = buffer_event cap i e b"
| "bus_do cap (BusPublish i e) b = publish cap i e b"
| "bus_do cap (BusRemove i) b = bus_remove i b"

text \<open>The abstract log of a sandbox: what was put into its buffer since it was last removed.\<close>

fun history_step :: "bytes \<Rightarrow> 'e bus_op \<Rightarrow> 'e list \<Rightarrow> 'e list" where
  "history_step i (BusBuffer j e) h = (if j = i then h @ [e] else h)"
| "history_step i (BusPublish j e) h = (if j = i then h @ [e] else h)"
| "history_step i (BusRemove j) h = (if j = i then [] else h)"
| "history_step i op h = h"

definition history :: "bytes \<Rightarrow> 'e bus_op list \<Rightarrow> 'e list" where
  "history i ops = fold (history_step i) ops []"

context buffered_bus
begin

fun perform :: "'e bus_op \<Rightarrow> 'b \<Rightarrow> 'b" where
  "perform (BusSubscribe i) b = snd (sub i b)"
| "perform (BusAnnounce i e) b = ann i e b"
| "perform (BusBuffer i e) b = buf i e b"
| "perform (BusPublish i e) b = buf i e (ann i e b)"
| "perform (BusRemove i) b = rem i b"

lemma recent_perform:
  assumes "\<And>n. recent i n b = last_n (min n cap) h"
  shows "recent i n (perform op b) = last_n (min n cap) (history_step i op h)"
  by (cases op) (auto simp: assms recent_sub recent_ann recent_buf recent_rem last_n_append)

lemma recent_refines:
  assumes "\<And>n. recent i n b = last_n (min n cap) h"
  shows "recent i n (fold perform ops b) = last_n (min n cap) (fold (history_step i) ops h)"
  using assms by (induction ops arbitrary: b h n) (simp_all add: recent_perform)

end

lemma tail_of_simps [simp]:
  "tail_of i (snd (bus_subscribe j b)) = tail_of i b" "tail_of i (announce j e b) = tail_of i b"
  "tail_of i (buffer_event cap j e b) = (if i = j then last_n cap (tail_of i b @ [e]) else tail_of i b)"
  "tail_of i (publish cap j e b) = (if i = j then last_n cap (tail_of i b @ [e]) else tail_of i b)"
  "tail_of i (bus_remove j b) = (if i = j then [] else tail_of i b)" "tail_of i new_bus = []"
  by (auto simp: tail_of_def bus_subscribe_def announce_def buffer_event_def publish_def bus_remove_def sender_for_def new_bus_def
      pop_excess_last_n split: option.splits prod.splits)

interpretation log: buffered_bus bus_subscribe announce "buffer_event LOG_TAIL" bus_remove bus_tail LOG_TAIL
  by unfold_locales (simp_all add: bus_tail_last_n last_n_append)

interpretation platform: buffered_bus bus_subscribe announce "buffer_event PLATFORM_TAIL" bus_remove bus_tail PLATFORM_TAIL
  by unfold_locales (simp_all add: bus_tail_last_n last_n_append)

lemma bus_do_perform_at: "bus_do LOG_TAIL op b = log.perform op b" "bus_do PLATFORM_TAIL op b = platform.perform op b"
  by (cases op; simp add: publish_def)+

lemma bus_do_perform: "bus_do LOG_TAIL = log.perform" "bus_do PLATFORM_TAIL = platform.perform"
  by (intro ext bus_do_perform_at)+

lemma log_tail_history: "bus_tail i n (fold (bus_do LOG_TAIL) ops new_bus) = last_n (min n LOG_TAIL) (history i ops)"
  unfolding bus_do_perform history_def by (rule log.recent_refines) (simp add: bus_tail_last_n)

lemma platform_tail_history: "bus_tail i n (fold (bus_do PLATFORM_TAIL) ops new_bus) = last_n (min n PLATFORM_TAIL) (history i ops)"
  unfolding bus_do_perform history_def by (rule platform.recent_refines) (simp add: bus_tail_last_n)


section \<open>What a subscriber receives\<close>

text \<open>What is sent on a receiver's channel after it subscribed.\<close>

definition received :: "receiver \<Rightarrow> 'e bus \<Rightarrow> 'e list" where
  "received rx b = map snd (filter (\<lambda>x. fst x = fst rx) (drop (snd rx) (bus_sent b)))"

text \<open>No two sandboxes share a channel, and no channel is used twice.\<close>

definition bus_inv :: "'e bus \<Rightarrow> bool" where
  "bus_inv b \<longleftrightarrow> (\<forall>i c. map_of (bus_senders b) i = Some c \<longrightarrow> c < bus_fresh b)
     \<and> (\<forall>i j c. map_of (bus_senders b) i = Some c \<longrightarrow> map_of (bus_senders b) j = Some c \<longrightarrow> i = j)
     \<and> (\<forall>x\<in>set (bus_sent b). fst x < bus_fresh b)"

lemma bus_inv_new: "bus_inv new_bus"
  by (simp add: bus_inv_def new_bus_def)

lemma sender_for_inv:
  assumes "bus_inv b" "sender_for i b = (c, b')"
  shows "bus_inv b'" "map_of (bus_senders b') i = Some c" "bus_sent b' = bus_sent b" "c < bus_fresh b'"
    "map_of (bus_senders b) j = Some d \<Longrightarrow> map_of (bus_senders b') j = Some d"
  using assms by (fastforce simp: sender_for_def bus_inv_def split: option.splits if_splits)+

fun announced :: "bytes \<Rightarrow> 'e bus_op \<Rightarrow> 'e list" where
  "announced i (BusAnnounce j e) = (if j = i then [e] else [])"
| "announced i (BusPublish j e) = (if j = i then [e] else [])"
| "announced i op = []"

lemma announce_received:
  assumes "bus_inv b" "map_of (bus_senders b) i = Some c" "p \<le> length (bus_sent b)"
  shows "bus_inv (announce j e b)" "map_of (bus_senders (announce j e b)) i = Some c" "p \<le> length (bus_sent (announce j e b))"
    "received (c, p) (announce j e b) = received (c, p) b @ (if j = i then [e] else [])"
proof -
  obtain d b' where s: "sender_for j b = (d, b')" by force
  note f = sender_for_inv [OF assms(1) s]
  have "c = d \<longleftrightarrow> j = i"
    using f(1,2) f(5) [OF assms(2)] by (auto simp: bus_inv_def)
  then show "bus_inv (announce j e b)" "map_of (bus_senders (announce j e b)) i = Some c" "p \<le> length (bus_sent (announce j e b))"
    "received (c, p) (announce j e b) = received (c, p) b @ (if j = i then [e] else [])"
    using f(1,3,4) f(5) [OF assms(2)] assms(3) by (auto simp: announce_def s bus_inv_def received_def)
qed

lemma buffer_event_received [simp]:
  "bus_inv (buffer_event cap j e b) = bus_inv b" "bus_senders (buffer_event cap j e b) = bus_senders b"
  "bus_sent (buffer_event cap j e b) = bus_sent b" "received rx (buffer_event cap j e b) = received rx b"
  by (simp_all add: buffer_event_def bus_inv_def received_def)

lemma bus_do_received:
  assumes "bus_inv b" "map_of (bus_senders b) i = Some c" "p \<le> length (bus_sent b)" "op \<noteq> BusRemove i"
  shows "bus_inv (bus_do cap op b) \<and> map_of (bus_senders (bus_do cap op b)) i = Some c \<and> p \<le> length (bus_sent (bus_do cap op b))
    \<and> received (c, p) (bus_do cap op b) = received (c, p) b @ announced i op"
proof (cases op)
  case (BusSubscribe j)
  obtain d b' where s: "sender_for j b = (d, b')" by force
  show ?thesis
    using sender_for_inv [OF assms(1) s] assms by (simp add: BusSubscribe bus_subscribe_def s received_def)
next
  case (BusRemove j)
  then show ?thesis using assms by (auto simp: bus_remove_def bus_inv_def received_def split: if_splits)
qed (use assms announce_received [OF assms(1-3)] in \<open>simp_all add: publish_def\<close>)

lemma bus_do_inv: "bus_inv b \<Longrightarrow> bus_inv (bus_do cap op b)"
proof (cases op)
  case (BusSubscribe j)
  assume "bus_inv b"
  then show ?thesis using sender_for_inv(1) [of b j] by (auto simp: BusSubscribe bus_subscribe_def split: prod.splits)
next
  assume b: "bus_inv b"
  have a: "bus_inv (announce j e b)" for j e
    using sender_for_inv [OF b, of j] by (auto simp: announce_def bus_inv_def split: prod.splits)
  { case (BusAnnounce j e) then show ?thesis by (simp add: a) }
  { case (BusPublish j e) then show ?thesis by (simp add: a publish_def) }
  { case (BusBuffer j e) then show ?thesis by (simp add: b) }
  { case (BusRemove j) then show ?thesis using b by (auto simp: bus_remove_def bus_inv_def split: if_splits) }
qed

lemma bus_run_inv: "bus_inv b \<Longrightarrow> bus_inv (fold (bus_do cap) ops b)"
  by (induction ops arbitrary: b) (simp_all add: bus_do_inv)

definition published :: "bytes \<Rightarrow> 'e bus_op list \<Rightarrow> 'e list" where
  "published i ops = concat (map (announced i) ops)"

lemma bus_run_received:
  assumes "bus_inv b" "map_of (bus_senders b) i = Some c" "p \<le> length (bus_sent b)" "BusRemove i \<notin> set ops"
  shows "received (c, p) (fold (bus_do cap) ops b) = received (c, p) b @ published i ops"
  using assms
proof (induction ops arbitrary: b)
  case (Cons op ops)
  then show ?case using bus_do_received [OF Cons.prems(1-3), of op cap] by (auto simp: published_def)
qed (simp add: published_def)

text \<open>A publication nobody interrupts reaches the subscribers and the buffer alike.\<close>

fun uninterrupted :: "'e bus_op \<Rightarrow> bool" where
  "uninterrupted (BusAnnounce i e) = False"
| "uninterrupted (BusBuffer i e) = False"
| "uninterrupted op = True"

lemma history_published:
  assumes "list_all uninterrupted ops" "BusRemove i \<notin> set ops"
  shows "fold (history_step i) ops h = h @ published i ops"
  using assms
proof (induction ops arbitrary: h)
  case (Cons op ops)
  then show ?case by (cases op) (auto simp: published_def)
qed (simp add: published_def)

lemma subscriber_cover:
  assumes "bus_subscribe i (fold (bus_do LOG_TAIL) earlier new_bus) = (rx, b1)"
    and "list_all uninterrupted meanwhile" "BusRemove i \<notin> set (meanwhile @ later)"
  shows "bus_tail i n (fold (bus_do LOG_TAIL) meanwhile b1) = last_n (min n 2000) (history i earlier @ published i meanwhile)
    \<and> received rx (fold (bus_do LOG_TAIL) (meanwhile @ later) b1) = published i meanwhile @ published i later"
proof
  have b1: "b1 = fold (bus_do LOG_TAIL) (earlier @ [BusSubscribe i]) new_bus"
    using assms(1) by simp
  have "bus_tail i n (fold (bus_do LOG_TAIL) ((earlier @ [BusSubscribe i]) @ meanwhile) new_bus)
      = last_n (min n LOG_TAIL) (history i ((earlier @ [BusSubscribe i]) @ meanwhile))"
    by (rule log_tail_history)
  then show "bus_tail i n (fold (bus_do LOG_TAIL) meanwhile b1) = last_n (min n 2000) (history i earlier @ published i meanwhile)"
    using assms(2,3) by (simp add: b1 history_def history_published LOG_TAIL_def)
next
  obtain c b' where s: "sender_for i (fold (bus_do LOG_TAIL) earlier new_bus) = (c, b')" by force
  have rx: "rx = (c, length (bus_sent b'))" "b1 = b'"
    using assms(1) s by (auto simp: bus_subscribe_def)
  note f = sender_for_inv [OF bus_run_inv [OF bus_inv_new] s]
  have "received rx b1 = []" by (simp add: rx received_def)
  then show "received rx (fold (bus_do LOG_TAIL) (meanwhile @ later) b1) = published i meanwhile @ published i later"
    using bus_run_received [of b1 i c "length (bus_sent b')" "meanwhile @ later" LOG_TAIL] f(1,2) assms(3)
    by (simp add: rx published_def)
qed

text \<open>A client that subscribes and then reads the buffer misses no line: what it reads ends with everything published in between, after as much of what came
  before as the buffer and the request allow, and what it receives begins with that again and goes on with everything published later, however the
  publications of later are interrupted. Lines published between the two steps come twice, none is left out.\<close>

theorem subscriber_misses_nothing:
  assumes "bus_subscribe i (fold (bus_do LOG_TAIL) earlier new_bus) = (rx, b1)"
    and "list_all uninterrupted meanwhile" "BusRemove i \<notin> set (meanwhile @ later)"
  shows "bus_tail i n (fold (bus_do LOG_TAIL) meanwhile b1) = last_n (min n 2000) (history i earlier @ published i meanwhile)
    \<and> received rx (fold (bus_do LOG_TAIL) (meanwhile @ later) b1) = published i meanwhile @ published i later"
  using assms by (rule subscriber_cover)

text \<open>A publication that is interrupted can be missed for good: a client that subscribes after the line was broadcast and reads the buffer before the line is put
  there neither reads it nor receives it.\<close>

theorem racing_line_is_missed:
  assumes "bus_subscribe i (bus_do LOG_TAIL (BusAnnounce i e) new_bus) = (rx, b1)"
  shows "bus_tail i n b1 = [] \<and> received rx (bus_do LOG_TAIL (BusBuffer i e) b1) = []
    \<and> bus_tail i 1 (bus_do LOG_TAIL (BusBuffer i e) b1) = [e]"
proof -
  have b1: "b1 = fold (bus_do LOG_TAIL) [BusAnnounce i e, BusSubscribe i] new_bus" using assms by simp
  have rx: "snd rx = length (bus_sent b1)" using assms by (auto simp: bus_subscribe_def split: prod.splits)
  have "bus_tail i n b1 = []" unfolding b1 log_tail_history by (simp add: history_def)
  moreover have "bus_tail i 1 (bus_do LOG_TAIL (BusBuffer i e) b1) = [e]"
    by (simp add: b1 bus_tail_last_n last_n_def LOG_TAIL_def)
  ultimately show ?thesis by (simp add: rx received_def)
qed

section \<open>Whose lines they are\<close>

lemma push_publishes:
  "\<exists>lines. snd (snd (push_sandbox_logs C validated requests (w, b))) = fold publish_external lines b \<and> length lines \<le> 100 * length requests
     \<and> (\<forall>l\<in>set lines. ll_source l = ''sandbox'' \<and> ll_sandbox_id l \<noteq> [] \<and> ll_sandbox_id l \<in> pq_sandbox_id ` {batch. Inr batch \<in> set requests})"
proof (induction C validated requests "(w, b)" arbitrary: w b rule: push_sandbox_logs.induct)
  case (1 C validated w b)
  show ?case by (rule exI [of _ "[]"]) simp
next
  case (2 C validated e requests w b)
  show ?case by (rule exI [of _ "[]"]) simp
next
  case (3 C validated batch requests w b)
  let ?goal = "\<lambda>rs lines. length lines \<le> 100 * length rs \<and> (\<forall>l\<in>set lines. ll_source l = ''sandbox'' \<and> ll_sandbox_id l \<noteq> []
      \<and> ll_sandbox_id l \<in> pq_sandbox_id ` {batch. Inr batch \<in> set rs})"
  have mono: "?goal (Inr batch # requests) (now @ lines)" if "?goal requests lines" "length now \<le> 100"
    "\<forall>l\<in>set now. ll_source l = ''sandbox'' \<and> ll_sandbox_id l \<noteq> [] \<and> ll_sandbox_id l = pq_sandbox_id batch" for now lines
    using that by auto
  show ?case
  proof (cases "pq_sandbox_id batch = []")
    case True
    then show ?thesis using 3(1) mono [of _ "[]"] by auto
  next
    case False
    obtain r w' where r: "(if validated then hreturn () w else require_sandbox C (pq_sandbox_id batch) w) = (r, w')" by force
    show ?thesis
    proof (cases r)
      case (Inl e)
      then show ?thesis using False r by (intro exI [of _ "[]"]) simp
    next
      case (Inr u)
      let ?now = "map (attributed batch) (take 100 (pq_logs batch))"
      obtain lines where "snd (snd (push_sandbox_logs C True requests (w', fold publish_external ?now b))) = fold publish_external lines (fold publish_external ?now b)"
        and l: "?goal requests lines"
        using 3(2) [OF False r [symmetric] Inr] by blast
      moreover have "?goal (Inr batch # requests) (?now @ lines)"
        using l False by (intro mono) (auto simp: attributed_def)
      ultimately show ?thesis using False r Inr by (intro exI [of _ "?now @ lines"]) simp
    qed
  qed
qed

lemma tail_of_published:
  assumes "e \<in> set (tail_of i (fold publish_external lines b))"
  shows "e \<in> set (tail_of i b) \<or> (\<exists>l\<in>set lines. ll_sandbox_id l = i \<and> e = Some (LogPayload l))"
  using assms
proof (induction lines arbitrary: b)
  case (Cons l lines)
  then have "e \<in> set (tail_of i (publish_external l b)) \<or> (\<exists>l\<in>set lines. ll_sandbox_id l = i \<and> e = Some (LogPayload l))" by simp
  moreover have "set (tail_of i (publish_external l b)) \<subseteq> set (tail_of i b) \<union> (if ll_sandbox_id l = i then {Some (LogPayload l)} else {})"
    using set_last_n [of LOG_TAIL "tail_of i b @ [Some (LogPayload l)]"] by (simp add: publish_external_def)
  ultimately show ?case by (auto split: if_splits)
qed simp

text \<open>C19: A sandbox cannot speak for the gateway: whatever a stream of pushed batches holds and however it ends, a line a reader finds afterwards in any
  sandbox's buffer was there before, or is marked as coming from a sandbox, under the identifier of one of the batches.\<close>

theorem pushed_lines_are_attributed:
  assumes "evt \<in> set (bus_tail i n (snd (snd (push_sandbox_logs C validated requests (w, b)))))"
  shows "evt \<in> set (tail_of i b) \<or> (\<exists>l batch. evt = Some (LogPayload l) \<and> ll_source l = ''sandbox'' \<and> ll_sandbox_id l = i
    \<and> Inr batch \<in> set requests \<and> pq_sandbox_id batch = i)"
proof -
  obtain lines where l: "snd (snd (push_sandbox_logs C validated requests (w, b))) = fold publish_external lines b"
    "\<forall>l\<in>set lines. ll_source l = ''sandbox'' \<and> ll_sandbox_id l \<noteq> [] \<and> ll_sandbox_id l \<in> pq_sandbox_id ` {batch. Inr batch \<in> set requests}"
    using push_publishes [of C validated requests w b] by blast
  have "evt \<in> set (tail_of i (fold publish_external lines b))"
    using assms set_last_n [of n "tail_of i (fold publish_external lines b)"] by (auto simp: l(1) bus_tail_last_n)
  from tail_of_published [OF this] l(2) show ?thesis by fastforce
qed

text \<open>C20: Only the first batch of a stream is checked: once it named a sandbox that exists, the lines of a second batch are taken in under any identifier, whether that
  sandbox exists or not. A stream opened for one sandbox writes into the log of another.\<close>

theorem push_checks_only_first_batch:
  assumes "get_sandbox_message C i w = (Inr (Some sb), w')" "i \<noteq> []" "j \<noteq> []" "logs \<noteq> []"
  shows "\<exists>b'. push_sandbox_logs C False [Inr \<lparr>pq_sandbox_id = i, pq_logs = []\<rparr>, Inr \<lparr>pq_sandbox_id = j, pq_logs = logs\<rparr>] (w, b) = (Inr (), (w', b'))
    \<and> Some (LogPayload (attributed \<lparr>pq_sandbox_id = j, pq_logs = logs\<rparr> (last (take 100 logs)))) \<in> set (bus_tail j 1 b')"
proof -
  let ?batch = "\<lparr>pq_sandbox_id = j, pq_logs = logs\<rparr>"
  let ?lines = "map (attributed ?batch) (take 100 logs)"
  let ?b = "fold publish_external ?lines b"
  have "require_sandbox C i w = (Inr (), w')"
    using assms(1) by (simp add: require_sandbox_def)
  then have "push_sandbox_logs C False [Inr \<lparr>pq_sandbox_id = i, pq_logs = []\<rparr>, Inr ?batch] (w, b) = (Inr (), (w', ?b))"
    using assms(2,3) by (simp add: hreturn_def)
  moreover have "Some (LogPayload (attributed ?batch (last (take 100 logs)))) \<in> set (bus_tail j 1 ?b)"
  proof -
    have ne: "take 100 logs \<noteq> []" using assms(4) by simp
    have "?lines = map (attributed ?batch) (butlast (take 100 logs)) @ [attributed ?batch (last (take 100 logs))]"
      using ne by (metis append_butlast_last_id list.simps(8,9) map_append)
    then show ?thesis
      by (simp add: publish_external_def bus_tail_last_n attributed_def last_n_def LOG_TAIL_def)
  qed
  ultimately show ?thesis by blast
qed

text \<open>Lines that arrive after the sandbox was removed set up its channel and its buffer again.\<close>

theorem late_line_revives_bus:
  assumes "ll_sandbox_id log = i"
  shows "bus_tail i 1 (publish_external log (bus_remove i b)) = [Some (LogPayload log)]
    \<and> map_of (bus_senders (publish_external log (bus_remove i b))) i \<noteq> None"
  using assms by (simp add: publish_external_def bus_tail_last_n last_n_def LOG_TAIL_def)
    (simp add: publish_def announce_def sender_for_def bus_remove_def)

text \<open>A line whose level is not one of the five is left out by every filter that names one of them.\<close>

theorem unknown_level_is_filtered:
  "level_number upper lvl = 5 \<Longrightarrow> level_number upper min_level < 5 \<Longrightarrow> min_level \<noteq> [] \<Longrightarrow> \<not> level_matches upper lvl min_level"
  by (simp add: level_matches_def)

section \<open>Instances\<close>

definition sample_log_line :: "bytes \<Rightarrow> bytes \<Rightarrow> log_line" where
  "sample_log_line i msg = \<lparr>ll_sandbox_id = i, ll_timestamp_ms = 1, ll_level = ''INFO'', ll_target = ''t'', ll_message = msg, ll_source = ''gateway'', ll_fields = []\<rparr>"

theorem subscriber_misses_nothing_witness:
  "\<exists>rx b1. bus_subscribe ''sb'' (fold (bus_do LOG_TAIL) [BusPublish ''sb'' (1::nat), BusPublish ''x'' 7] new_bus) = (rx, b1)
     \<and> bus_tail ''sb'' 9 (fold (bus_do LOG_TAIL) [BusPublish ''sb'' 2] b1) = [1, 2]
     \<and> received rx (fold (bus_do LOG_TAIL) [BusPublish ''sb'' 2, BusAnnounce ''sb'' 3] b1) = [2, 3]"
proof -
  obtain rx b1 where s: "bus_subscribe ''sb'' (fold (bus_do LOG_TAIL) [BusPublish ''sb'' (1::nat), BusPublish ''x'' 7] new_bus) = (rx, b1)" by (rule prod.exhaust)
  show ?thesis
    using subscriber_misses_nothing [OF s, of "[BusPublish ''sb'' 2]" "[BusAnnounce ''sb'' 3]" 9] s
    by (auto simp: history_def published_def last_n_def)
qed

theorem racing_line_is_missed_witness:
  "\<exists>rx b1. bus_subscribe ''sb'' (bus_do LOG_TAIL (BusAnnounce ''sb'' (1::nat)) new_bus) = (rx, b1) \<and> bus_tail ''sb'' 200 b1 = []
     \<and> received rx (bus_do LOG_TAIL (BusBuffer ''sb'' 1) b1) = []"
proof -
  obtain rx b1 where s: "bus_subscribe ''sb'' (bus_do LOG_TAIL (BusAnnounce ''sb'' (1::nat)) new_bus) = (rx, b1)" by (rule prod.exhaust)
  show ?thesis using racing_line_is_missed [OF s] s by blast
qed

theorem push_checks_only_first_batch_witness:
  "\<exists>b'. push_sandbox_logs two_sandbox_codec False [Inr \<lparr>pq_sandbox_id = ''uuid'', pq_logs = []\<rparr>, Inr \<lparr>pq_sandbox_id = ''other'', pq_logs = [sample_log_line [] ''hi'']\<rparr>]
        (stored_world, new_bus) = (Inr (), (stored_world, b'))
     \<and> Some (LogPayload ((sample_log_line ''other'' ''hi'')\<lparr>ll_source := ''sandbox''\<rparr>)) \<in> set (bus_tail ''other'' 1 b')"
  using push_checks_only_first_batch [OF stored_sandbox, of "''other''" "[sample_log_line [] ''hi'']" new_bus]
  by (simp add: attributed_def sample_log_line_def)

theorem pushed_lines_are_attributed_witness:
  "\<exists>evt l. evt \<in> set (bus_tail ''uuid'' 9 (snd (snd (push_sandbox_logs two_sandbox_codec False
       [Inr \<lparr>pq_sandbox_id = ''uuid'', pq_logs = [sample_log_line [] ''hi'']\<rparr>] (stored_world, new_bus)))))
     \<and> evt = Some (LogPayload l) \<and> ll_source l = ''sandbox'' \<and> ll_sandbox_id l = ''uuid''"
proof -
  let ?b = "snd (snd (push_sandbox_logs two_sandbox_codec False [Inr \<lparr>pq_sandbox_id = ''uuid'', pq_logs = [sample_log_line [] ''hi'']\<rparr>] (stored_world, new_bus)))"
  have "require_sandbox two_sandbox_codec ''uuid'' stored_world = (Inr (), stored_world)"
    using stored_sandbox by (simp add: require_sandbox_def)
  then have "length (bus_tail ''uuid'' 9 ?b) = 1"
    by (simp add: publish_external_def attributed_def sample_log_line_def bus_tail_last_n last_n_def LOG_TAIL_def)
  then obtain evt where "evt \<in> set (bus_tail ''uuid'' 9 ?b)" by (cases "bus_tail ''uuid'' 9 ?b") auto
  with pushed_lines_are_attributed [OF this] show ?thesis by auto
qed

end
