(* ===== verification/Watch_Stream.thy ===== *)
theory Watch_Stream
  imports Log_Bus
begin

text \<open>
  Watching a sandbox, \<open>watch_sandbox\<close> in \<open>crates/clustershell-server/src/grpc.rs\<close>, with the events of the cluster it streams
  (\<open>sandbox_watch.rs\<close>). The task that fills the stream is run between the actions of other tasks: what they do to the buses before each of its steps
  is an argument, and so is what its receivers yield and when the client goes away.
\<close>

section \<open>Events of the cluster\<close>

record kube_event =
  kv_kind :: "bytes option"
  kv_name :: "bytes option"
  kv_namespace :: "bytes option"
  kv_last_timestamp :: "int option"
  kv_first_timestamp :: "int option"
  kv_count :: "int option"
  kv_type :: "bytes option"
  kv_reason :: "bytes option"
  kv_message :: "bytes option"

definition or_empty :: "bytes option \<Rightarrow> bytes" where
  "or_empty x = (case x of None \<Rightarrow> [] | Some s \<Rightarrow> s)"

definition involved_sandbox :: "sandbox_index \<Rightarrow> bytes \<Rightarrow> bytes \<Rightarrow> bytes option" where
  "involved_sandbox ix kind name =
     (if kind = ''Sandbox'' then sandbox_id_for_sandbox_name ix name
      else if kind = ''Pod'' then
        (case sandbox_id_for_sandbox_name ix name of None \<Rightarrow> sandbox_id_for_agent_pod ix name | Some i \<Rightarrow> Some i)
      else None)"

definition event_metadata :: "kube_event \<Rightarrow> (bytes \<times> bytes) list" where
  "event_metadata obj =
     (let m1 = hm_insert ''involved_name'' (or_empty (kv_name obj)) (hm_insert ''involved_kind'' (or_empty (kv_kind obj)) []);
          m2 = (case kv_namespace obj of None \<Rightarrow> m1 | Some ns \<Rightarrow> hm_insert ''namespace'' ns m1) in
      case kv_count obj of None \<Rightarrow> m2 | Some count \<Rightarrow> hm_insert ''count'' (show_int count) m2)"

definition map_kube_event_to_platform :: "sandbox_index \<Rightarrow> kube_event \<Rightarrow> (bytes \<times> stream_event) option" where
  "map_kube_event_to_platform ix obj =
     (case involved_sandbox ix (or_empty (kv_kind obj)) (or_empty (kv_name obj)) of
        None \<Rightarrow> None
      | Some sandbox_id \<Rightarrow>
          Some (sandbox_id, Some (EventPayload
            \<lparr>pe_timestamp_ms = (case (kv_last_timestamp obj, kv_first_timestamp obj) of (Some t, _) \<Rightarrow> t | (None, Some t) \<Rightarrow> t | (None, None) \<Rightarrow> 0),
             pe_source = ''kubernetes'', pe_type = or_empty (kv_type obj), pe_reason = or_empty (kv_reason obj),
             pe_message = or_empty (kv_message obj), pe_metadata = event_metadata obj\<rparr>)))"

datatype tailer_event = TailerApplied kube_event | TailerDeleted kube_event | TailerRestarted "kube_event list" | TailerError bytes

section \<open>The shared state\<close>

record gateway_streams =
  gs_index :: sandbox_index
  gs_log :: "stream_event bus"
  gs_platform :: "stream_event bus"
  gs_watch :: "unit bus"

text \<open>The loop of \<open>spawn_kube_event_tailer\<close> until its stream ends.\<close>

fun tail_kube_events :: "tailer_event list \<Rightarrow> gateway_streams \<Rightarrow> gateway_streams" where
  "tail_kube_events [] gs = gs"
| "tail_kube_events (TailerApplied obj # events) gs =
     tail_kube_events events
       (case map_kube_event_to_platform (gs_index gs) obj of
          None \<Rightarrow> gs
        | Some (sandbox_id, evt) \<Rightarrow> gs\<lparr>gs_platform := publish_platform sandbox_id evt (gs_platform gs)\<rparr>)"
| "tail_kube_events (TailerDeleted obj # events) gs = tail_kube_events events gs"
| "tail_kube_events (TailerRestarted objs # events) gs = tail_kube_events events gs"
| "tail_kube_events (TailerError e # events) gs = tail_kube_events events gs"

section \<open>The request and the stream\<close>

record watch_request =
  wr_id :: bytes
  wr_follow_status :: bool
  wr_follow_logs :: bool
  wr_follow_events :: bool
  wr_log_tail_lines :: nat
  wr_stop_on_terminal :: bool
  wr_log_since_ms :: int
  wr_log_sources :: "bytes list"
  wr_log_min_level :: bytes

definition log_tail_of :: "watch_request \<Rightarrow> nat" where
  "log_tail_of req = (if wr_log_tail_lines req = 0 then 200 else wr_log_tail_lines req)"

type_synonym stream_item = "(status, stream_event) result"

datatype recv_error = RecvClosed | RecvLagged nat

fun broadcast_to_status :: "recv_error \<Rightarrow> status" where
  "broadcast_to_status RecvClosed = (Cancelled, ''stream closed'')"
| "broadcast_to_status (RecvLagged n) = (ResourceExhausted, ''watch stream lagged; dropped '' @ show_nat n @ '' messages'')"

text \<open>The branch of \<open>select!\<close> that fires, with what its receiver yields.\<close>

datatype watch_arm =
    StatusArm "(recv_error, unit) result"
  | LogArm "(recv_error, stream_event) result"
  | PlatformArm "(recv_error, stream_event) result"

text \<open>The task: whether it still runs, what it put into the stream, and the state it shares.\<close>

record watch_task =
  wt_running :: bool
  wt_out :: "stream_item list"
  wt_world :: world
  wt_shared :: gateway_streams

text \<open>\<open>tx.send\<close>; \<open>alive n\<close> says whether the client is there when the item after the first \<open>n\<close> is sent. A failed send ends the task.\<close>

definition deliver :: "(nat \<Rightarrow> bool) \<Rightarrow> stream_item \<Rightarrow> watch_task \<Rightarrow> watch_task" where
  "deliver alive item t =
     (if alive (length (wt_out t)) then t\<lparr>wt_out := wt_out t @ [item]\<rparr> else t\<lparr>wt_running := False\<rparr>)"

text \<open>A send whose result does not matter because the task returns.\<close>

definition finish_with :: "(nat \<Rightarrow> bool) \<Rightarrow> stream_item \<Rightarrow> watch_task \<Rightarrow> watch_task" where
  "finish_with alive item t = (deliver alive item t)\<lparr>wt_running := False\<rparr>"

definition stops_at :: "watch_request \<Rightarrow> sandbox \<Rightarrow> bool" where
  "stops_at req sb = (wr_stop_on_terminal req \<and> sx_phase sb = SANDBOX_READY)"

definition fetch_failed :: "bytes \<Rightarrow> stream_item" where
  "fetch_failed e = Inl (InternalStatus, ''fetch sandbox failed: '' @ e)"

definition SANDBOX_NOT_FOUND :: stream_item where
  "SANDBOX_NOT_FOUND = Inl (NotFound, ''sandbox not found'')"

text \<open>The record is read, the index told, and the record sent. The first snapshot is sent whether the client is there or not.\<close>

definition snapshot ::
  "codec \<Rightarrow> status_codec \<Rightarrow> (nat \<Rightarrow> bool) \<Rightarrow> watch_request \<Rightarrow> bool \<Rightarrow> watch_task \<Rightarrow> watch_task" where
  "snapshot C U alive req initial t =
     (case get_sandbox_message C (wr_id req) (wt_world t) of
        (Inr (Some sb), w') \<Rightarrow>
          (let t1 = t\<lparr>wt_world := w', wt_shared := (wt_shared t)\<lparr>gs_index := update_from_sandbox U sb (gs_index (wt_shared t))\<rparr>\<rparr>;
               t2 = deliver alive (Inr (Some (SandboxPayload sb))) t1;
               t3 = (if initial then t2\<lparr>wt_running := True\<rparr> else t2) in
           if wt_running t3 \<and> stops_at req sb then t3\<lparr>wt_running := False\<rparr> else t3)
      | (Inr None, w') \<Rightarrow>
          (if initial then finish_with alive SANDBOX_NOT_FOUND (t\<lparr>wt_world := w'\<rparr>) else t\<lparr>wt_world := w', wt_running := False\<rparr>)
      | (Inl e, w') \<Rightarrow> finish_with alive (fetch_failed e) (t\<lparr>wt_world := w'\<rparr>))"

section \<open>Replaying\<close>

definition live_passes :: "(bytes \<Rightarrow> bytes) \<Rightarrow> watch_request \<Rightarrow> stream_event \<Rightarrow> bool" where
  "live_passes upper req evt =
     (case evt of Some (LogPayload log) \<Rightarrow> line_wanted upper (wr_log_sources req) (wr_log_min_level req) log | _ \<Rightarrow> True)"

definition replay_passes :: "(bytes \<Rightarrow> bytes) \<Rightarrow> watch_request \<Rightarrow> stream_event \<Rightarrow> bool" where
  "replay_passes upper req evt =
     (case evt of
        Some (LogPayload log) \<Rightarrow> line_since (wr_log_since_ms req) log \<and> line_wanted upper (wr_log_sources req) (wr_log_min_level req) log
      | _ \<Rightarrow> True)"

fun replay :: "(nat \<Rightarrow> bool) \<Rightarrow> (stream_event \<Rightarrow> bool) \<Rightarrow> stream_event list \<Rightarrow> watch_task \<Rightarrow> watch_task" where
  "replay alive passes [] t = t"
| "replay alive passes (evt # evts) t =
     (if \<not> passes evt then replay alive passes evts t
      else let t' = deliver alive (Inr evt) t in if wt_running t' then replay alive passes evts t' else t')"

section \<open>Following\<close>

fun watch_step ::
  "codec \<Rightarrow> status_codec \<Rightarrow> (bytes \<Rightarrow> bytes) \<Rightarrow> (nat \<Rightarrow> bool) \<Rightarrow> watch_request \<Rightarrow> watch_arm \<Rightarrow> watch_task \<Rightarrow> watch_task" where
  "watch_step C U upper alive req (StatusArm (Inr _)) t = snapshot C U alive req False t"
| "watch_step C U upper alive req (StatusArm (Inl err)) t = finish_with alive (Inl (broadcast_to_status err)) t"
| "watch_step C U upper alive req (LogArm (Inr evt)) t = (if live_passes upper req evt then deliver alive (Inr evt) t else t)"
| "watch_step C U upper alive req (LogArm (Inl err)) t = finish_with alive (Inl (broadcast_to_status err)) t"
| "watch_step C U upper alive req (PlatformArm (Inr evt)) t = deliver alive (Inr evt) t"
| "watch_step C U upper alive req (PlatformArm (Inl err)) t = finish_with alive (Inl (broadcast_to_status err)) t"

text \<open>A receiver the request did not ask for never yields anything.\<close>

fun arm_enabled :: "watch_request \<Rightarrow> watch_arm \<Rightarrow> bool" where
  "arm_enabled req (StatusArm r) = wr_follow_status req"
| "arm_enabled req (LogArm r) = wr_follow_logs req"
| "arm_enabled req (PlatformArm r) = wr_follow_events req"

text \<open>The loop, over the branches as they fire; when they run out, the task waits.\<close>

fun watch_loop ::
  "codec \<Rightarrow> status_codec \<Rightarrow> (bytes \<Rightarrow> bytes) \<Rightarrow> (nat \<Rightarrow> bool) \<Rightarrow> watch_request \<Rightarrow> watch_arm list \<Rightarrow> watch_task \<Rightarrow> watch_task" where
  "watch_loop C U upper alive req [] t = t"
| "watch_loop C U upper alive req (arm # arms) t =
     (if \<not> wt_running t then t
      else if arm_enabled req arm then watch_loop C U upper alive req arms (watch_step C U upper alive req arm t)
      else watch_loop C U upper alive req arms t)"

section \<open>The task\<close>

definition during :: "(gateway_streams \<Rightarrow> gateway_streams) \<Rightarrow> watch_task \<Rightarrow> watch_task" where
  "during others t = t\<lparr>wt_shared := others (wt_shared t)\<rparr>"

definition while_running :: "(watch_task \<Rightarrow> watch_task) \<Rightarrow> watch_task \<Rightarrow> watch_task" where
  "while_running f t = (if wt_running t then f t else t)"

text \<open>The sandbox must exist before anything is subscribed to.\<close>

definition validate_watched :: "codec \<Rightarrow> (nat \<Rightarrow> bool) \<Rightarrow> watch_request \<Rightarrow> watch_task \<Rightarrow> watch_task" where
  "validate_watched C alive req t =
     (case get_sandbox_message C (wr_id req) (wt_world t) of
        (Inr (Some _), w') \<Rightarrow> t\<lparr>wt_world := w'\<rparr>
      | (Inr None, w') \<Rightarrow> finish_with alive SANDBOX_NOT_FOUND (t\<lparr>wt_world := w'\<rparr>)
      | (Inl e, w') \<Rightarrow> finish_with alive (fetch_failed e) (t\<lparr>wt_world := w'\<rparr>))"

definition subscribe_all :: "watch_request \<Rightarrow> gateway_streams \<Rightarrow> gateway_streams" where
  "subscribe_all req gs =
     (let gs1 = (if wr_follow_status req then gs\<lparr>gs_watch := snd (bus_subscribe (wr_id req) (gs_watch gs))\<rparr> else gs);
          gs2 = (if wr_follow_logs req then gs1\<lparr>gs_log := snd (bus_subscribe (wr_id req) (gs_log gs1))\<rparr> else gs1) in
      if wr_follow_events req then gs2\<lparr>gs_platform := snd (bus_subscribe (wr_id req) (gs_platform gs2))\<rparr> else gs2)"

definition replay_logs :: "(bytes \<Rightarrow> bytes) \<Rightarrow> (nat \<Rightarrow> bool) \<Rightarrow> watch_request \<Rightarrow> watch_task \<Rightarrow> watch_task" where
  "replay_logs upper alive req t =
     (if wr_follow_logs req then replay alive (replay_passes upper req) (bus_tail (wr_id req) (log_tail_of req) (gs_log (wt_shared t))) t else t)"

definition replay_events :: "(nat \<Rightarrow> bool) \<Rightarrow> watch_request \<Rightarrow> watch_task \<Rightarrow> watch_task" where
  "replay_events alive req t =
     (if wr_follow_events req then replay alive (\<lambda>_. True) (bus_tail (wr_id req) 50 (gs_platform (wt_shared t))) t else t)"

text \<open>\<open>others k\<close> is what other tasks do to the buses and the index before the \<open>k\<close>-th stage.\<close>

definition watch_producer ::
  "codec \<Rightarrow> status_codec \<Rightarrow> (bytes \<Rightarrow> bytes) \<Rightarrow> (nat \<Rightarrow> bool) \<Rightarrow> (nat \<Rightarrow> gateway_streams \<Rightarrow> gateway_streams) \<Rightarrow> watch_request
     \<Rightarrow> watch_arm list \<Rightarrow> watch_task \<Rightarrow> watch_task" where
  "watch_producer C U upper alive others req arms t =
     (let t1 = validate_watched C alive req t;
          t2 = while_running (\<lambda>t. during (subscribe_all req) (during (others 0) t)) t1;
          t3 = while_running (\<lambda>t. snapshot C U alive req True (during (others 1) t)) t2;
          t4 = while_running (\<lambda>t. replay_logs upper alive req (during (others 2) t)) t3;
          t5 = while_running (\<lambda>t. replay_events alive req (during (others 3) t)) t4 in
      watch_loop C U upper alive req arms t5)"

definition watch_sandbox ::
  "codec \<Rightarrow> status_codec \<Rightarrow> (bytes \<Rightarrow> bytes) \<Rightarrow> (nat \<Rightarrow> bool) \<Rightarrow> (nat \<Rightarrow> gateway_streams \<Rightarrow> gateway_streams) \<Rightarrow> watch_request
     \<Rightarrow> watch_arm list \<Rightarrow> world \<times> gateway_streams \<Rightarrow> (status, watch_task) result" where
  "watch_sandbox C U upper alive others req arms s =
     (if wr_id req = [] then Inl (InvalidArgument, ''id is required'')
      else Inr (watch_producer C U upper alive others req arms
                  \<lparr>wt_running = True, wt_out = [], wt_world = fst s, wt_shared = snd s\<rparr>))"

section \<open>The lines a client gets\<close>

fun log_of :: "stream_event \<Rightarrow> log_line option" where
  "log_of (Some (LogPayload log)) = Some log"
| "log_of evt = None"

fun line_of :: "stream_item \<Rightarrow> log_line option" where
  "line_of (Inr evt) = log_of evt"
| "line_of (Inl e) = None"

definition lines_of :: "stream_item list \<Rightarrow> log_line list" where
  "lines_of items = List.map_filter line_of items"

definition log_events :: "watch_arm list \<Rightarrow> stream_event list" where
  "log_events arms = List.map_filter (\<lambda>arm. case arm of LogArm (Inr evt) \<Rightarrow> Some evt | _ \<Rightarrow> None) arms"

lemma lines_of_append [simp]: "lines_of (xs @ ys) = lines_of xs @ lines_of ys"
  by (simp add: lines_of_def List.map_filter_def)

lemma lines_of_events [simp]: "lines_of (map Inr evts) = List.map_filter log_of evts"
  by (simp add: lines_of_def List.map_filter_def comp_def filter_map)

lemma lines_of_single [simp]: "lines_of [item] = (case line_of item of None \<Rightarrow> [] | Some l \<Rightarrow> [l])"
  by (auto simp: lines_of_def List.map_filter_def)

lemma deliver_simps [simp]:
  "wt_running (deliver alive item t) \<longleftrightarrow> wt_running t \<and> alive (length (wt_out t))"
  "wt_world (deliver alive item t) = wt_world t" "wt_shared (deliver alive item t) = wt_shared t"
  by (auto simp: deliver_def)

lemma deliver_out: "alive (length (wt_out t)) \<Longrightarrow> wt_out (deliver alive item t) = wt_out t @ [item]"
  by (simp add: deliver_def)

lemma finish_with_simps [simp]:
  "\<not> wt_running (finish_with alive item t)" "wt_world (finish_with alive item t) = wt_world t" "wt_shared (finish_with alive item t) = wt_shared t"
  by (simp_all add: finish_with_def)

lemma replay_running:
  assumes "wt_running (replay alive passes evts t)" "wt_running t"
  shows "wt_out (replay alive passes evts t) = wt_out t @ map Inr (filter passes evts)"
  using assms
proof (induction evts arbitrary: t)
  case (Cons evt evts)
  then show ?case by (auto simp: Let_def deliver_out split: if_splits)
qed simp

lemma replay_shared [simp]:
  "wt_world (replay alive passes evts t) = wt_world t" "wt_shared (replay alive passes evts t) = wt_shared t"
  by (induction evts arbitrary: t) (auto simp: Let_def)

lemma snapshot_running:
  assumes "wt_running (snapshot C U alive req initial t)" "wt_running t"
  shows "lines_of (wt_out (snapshot C U alive req initial t)) = lines_of (wt_out t)"
  using assms by (auto simp: snapshot_def Let_def deliver_def split: prod.splits sum.splits option.splits if_splits)

lemma snapshot_log [simp]: "gs_log (wt_shared (snapshot C U alive req initial t)) = gs_log (wt_shared t)"
  by (auto simp: snapshot_def Let_def split: prod.splits sum.splits option.splits)

lemma watch_step_lines:
  assumes "wt_running (watch_step C U upper alive req arm t)" "wt_running t" "\<not> wr_follow_events req" "arm_enabled req arm"
  shows "lines_of (wt_out (watch_step C U upper alive req arm t))
    = lines_of (wt_out t) @ List.map_filter log_of (filter (live_passes upper req) (log_events [arm]))"
proof (cases arm)
  case (StatusArm r)
  then show ?thesis using assms by (cases r) (auto simp: snapshot_running log_events_def List.map_filter_def)
next
  case (LogArm r)
  then show ?thesis using assms by (cases r) (auto simp: deliver_out log_events_def List.map_filter_def split: if_splits option.splits)
qed (use assms in simp)

lemma watch_loop_running: "wt_running (watch_loop C U upper alive req arms t) \<Longrightarrow> wt_running t"
  by (induction C U upper alive req arms t rule: watch_loop.induct) (auto split: if_splits)

lemma watch_loop_lines:
  assumes "wt_running (watch_loop C U upper alive req arms t)" "wr_follow_logs req" "\<not> wr_follow_events req"
  shows "lines_of (wt_out (watch_loop C U upper alive req arms t))
    = lines_of (wt_out t) @ List.map_filter log_of (filter (live_passes upper req) (log_events arms))"
  using assms
proof (induction C U upper alive req arms t rule: watch_loop.induct)
  case (2 C U upper alive req arm arms t)
  have t: "wt_running t" using watch_loop_running [OF "2.prems"(1)] .
  have split: "log_events (arm # arms) = log_events [arm] @ log_events arms"
    by (simp add: log_events_def List.map_filter_def)
  show ?case
  proof (cases "arm_enabled req arm")
    case True
    then have run: "wt_running (watch_loop C U upper alive req arms (watch_step C U upper alive req arm t))"
      using "2.prems"(1) t by simp
    from "2.IH"(1) [OF _ True run "2.prems"(2,3)] watch_step_lines [OF watch_loop_running [OF run] t "2.prems"(3) True] t True
    show ?thesis by (simp add: split) (simp add: List.map_filter_def)
  next
    case False
    then have "log_events [arm] = []" using "2.prems"(2) by (cases arm) (auto simp: log_events_def List.map_filter_def)
    then show ?thesis using "2.IH"(2) False t "2.prems" by (simp add: split)
  qed
qed (simp add: log_events_def List.map_filter_def)

lemma subscribe_all_log:
  "gs_log (subscribe_all req gs) = (if wr_follow_logs req then snd (bus_subscribe (wr_id req) (gs_log gs)) else gs_log gs)"
  by (simp add: subscribe_all_def Let_def)

lemma validate_watched_simps [simp]:
  "wt_shared (validate_watched C alive req t) = wt_shared t"
  "wt_running (validate_watched C alive req t) \<Longrightarrow> wt_out (validate_watched C alive req t) = wt_out t"
  by (auto simp: validate_watched_def split: prod.splits sum.splits option.splits)


section \<open>Why a stream ends\<close>

text \<open>A task that is over with its client still there has said why, has shown the sandbox ready to a client that waits for that, or has found the record gone.\<close>

definition ended_for_cause :: "codec \<Rightarrow> watch_request \<Rightarrow> watch_task \<Rightarrow> bool" where
  "ended_for_cause C req t \<longleftrightarrow> wt_running t
     \<or> (\<exists>before e. wt_out t = before @ [Inl e])
     \<or> (\<exists>before sb. wt_out t = before @ [Inr (Some (SandboxPayload sb))] \<and> wr_stop_on_terminal req \<and> sx_phase sb = SANDBOX_READY)
     \<or> (\<exists>w. get_sandbox_message C (wr_id req) w = (Inr None, wt_world t))"

lemma ended_for_cause_running [intro]: "wt_running t \<Longrightarrow> ended_for_cause C req t"
  by (simp add: ended_for_cause_def)

lemma ended_for_cause_finish [intro]: "alive (length (wt_out t)) \<Longrightarrow> ended_for_cause C req (finish_with alive (Inl e) t)"
  by (auto simp: ended_for_cause_def finish_with_def deliver_def)

lemma ended_for_cause_while: "ended_for_cause C req t \<Longrightarrow> (wt_running t \<Longrightarrow> ended_for_cause C req (f t)) \<Longrightarrow> ended_for_cause C req (while_running f t)"
  by (simp add: while_running_def)

lemma snapshot_cause:
  assumes "\<And>n. alive n" "wt_running t"
  shows "ended_for_cause C req (snapshot C U alive req initial t)"
proof -
  obtain r w' where r: "get_sandbox_message C (wr_id req) (wt_world t) = (r, w')" by force
  show ?thesis
  proof (cases r)
    case (Inl e)
    then show ?thesis using assms by (auto simp: snapshot_def r fetch_failed_def)
  next
    case (Inr found)
    show ?thesis
    proof (cases found)
      case None
      show ?thesis
      proof (cases initial)
        case True
        then show ?thesis using assms r Inr None by (auto simp: snapshot_def SANDBOX_NOT_FOUND_def)
      next
        case False
        then show ?thesis using r Inr None by (auto simp: snapshot_def ended_for_cause_def)
      qed
    next
      case (Some sb)
      then show ?thesis using assms r Inr
        by (simp add: snapshot_def Let_def ended_for_cause_def stops_at_def deliver_def)
    qed
  qed
qed

lemma replay_cause: "(\<And>n. alive n) \<Longrightarrow> wt_running t \<Longrightarrow> wt_running (replay alive passes evts t)"
  by (induction evts arbitrary: t) (simp_all add: Let_def)

lemma watch_step_cause:
  assumes "\<And>n. alive n" "wt_running t"
  shows "ended_for_cause C req (watch_step C U upper alive req arm t)"
  using assms by (cases "(C, U, upper, alive, req, arm, t)" rule: watch_step.cases) (auto intro: snapshot_cause)

lemma watch_loop_cause:
  assumes "\<And>n. alive n" "ended_for_cause C req t"
  shows "ended_for_cause C req (watch_loop C U upper alive req arms t)"
  using assms(2)
proof (induction arms arbitrary: t)
  case (Cons arm arms)
  have "ended_for_cause C req (watch_step C U upper alive req arm t)" if "wt_running t"
    by (rule watch_step_cause [OF assms(1) that])
  then show ?case using Cons by simp
qed simp

text \<open>A watch stream does not end quietly: while the client is there, the task ends only after sending an error, after showing a sandbox that is ready to a client that
  asked to stop there, or on finding the record of the sandbox gone. A sandbox in the error phase does not end it.\<close>

theorem watch_ends_for_cause:
  assumes "watch_sandbox C U upper (\<lambda>_. True) others req arms s = Inr t" "\<not> wt_running t"
  shows "(\<exists>before e. wt_out t = before @ [Inl e])
    \<or> (\<exists>before sb. wt_out t = before @ [Inr (Some (SandboxPayload sb))] \<and> wr_stop_on_terminal req \<and> sx_phase sb = SANDBOX_READY)
    \<or> (\<exists>w. get_sandbox_message C (wr_id req) w = (Inr None, wt_world t))"
proof -
  let ?alive = "\<lambda>_ :: nat. True"
  have v: "ended_for_cause C req (validate_watched C ?alive req t)" if "wt_running t" for t
    using that by (auto simp: validate_watched_def SANDBOX_NOT_FOUND_def fetch_failed_def split: prod.splits sum.splits option.splits)
  have l: "ended_for_cause C req (replay_logs upper ?alive req (during f t))" "ended_for_cause C req (replay_events ?alive req (during f t))"
    "ended_for_cause C req (during (subscribe_all req) (during f t))" "ended_for_cause C req (snapshot C U ?alive req True (during f t))"
    if "wt_running t" for f t
    using that by (auto simp: replay_logs_def replay_events_def during_def intro!: replay_cause snapshot_cause)
  have "ended_for_cause C req (watch_producer C U upper ?alive others req arms \<lparr>wt_running = True, wt_out = [], wt_world = fst s, wt_shared = snd s\<rparr>)"
    unfolding watch_producer_def Let_def by (intro watch_loop_cause ended_for_cause_while v l) simp_all
  moreover have "t = watch_producer C U upper ?alive others req arms \<lparr>wt_running = True, wt_out = [], wt_world = fst s, wt_shared = snd s\<rparr>"
    using assms(1) by (auto simp: watch_sandbox_def split: if_splits)
  ultimately show ?thesis using assms(2) by (simp add: ended_for_cause_def)
qed

section \<open>Instances\<close>

definition watching :: watch_request where
  "watching =
     \<lparr>wr_id = ''uuid'', wr_follow_status = True, wr_follow_logs = True, wr_follow_events = False, wr_log_tail_lines = 0, wr_stop_on_terminal = False,
      wr_log_since_ms = 0, wr_log_sources = [], wr_log_min_level = []\<rparr>"

definition log_event :: "bytes \<Rightarrow> stream_event" where
  "log_event msg = Some (LogPayload (sample_log_line ''uuid'' msg))"

definition quiet_streams :: "stream_event bus \<Rightarrow> gateway_streams" where
  "quiet_streams b = \<lparr>gs_index = \<lparr>ix_sandbox_name_to_id = [], ix_agent_pod_to_id = []\<rparr>, gs_log = b, gs_platform = new_bus, gs_watch = new_bus\<rparr>"

definition publishing_once :: "nat \<Rightarrow> gateway_streams \<Rightarrow> gateway_streams" where
  "publishing_once n gs = (if n = 1 then gs\<lparr>gs_log := publish LOG_TAIL ''uuid'' (log_event ''b'') (gs_log gs)\<rparr> else gs)"

lemma sample_line_message [simp]: "sample_log_line i m = sample_log_line j k \<longleftrightarrow> i = j \<and> m = k"
  by (simp add: sample_log_line_def)


theorem watch_ends_for_cause_witness:
  "\<exists>t. watch_sandbox two_sandbox_codec plain_status (\<lambda>s. s) (\<lambda>_. True) publishing_once watching [StatusArm (Inl RecvClosed)]
         (stored_world, quiet_streams new_bus) = Inr t \<and> \<not> wt_running t
     \<and> ((\<exists>before e. wt_out t = before @ [Inl e]) \<or> (\<exists>w. get_sandbox_message two_sandbox_codec ''uuid'' w = (Inr None, wt_world t)))"
proof -
  let ?w = "watch_sandbox two_sandbox_codec plain_status (\<lambda>s. s) (\<lambda>_. True) publishing_once watching [StatusArm (Inl RecvClosed)] (stored_world, quiet_streams new_bus)"
  obtain t where t: "?w = Inr t" by (simp add: watch_sandbox_def watching_def)
  have r: "\<not> wt_running t"
    using t by (auto simp: watch_sandbox_def watching_def watch_producer_def while_running_def validate_watched_def stored_sandbox
        snapshot_def Let_def during_def stops_at_def replay_logs_def replay_events_def replay_cause)
  show ?thesis
    using watch_ends_for_cause [OF t r] t r by (auto simp: watching_def)
qed

end
