(* ===== verification/Log_Push.thy ===== *)
theory Log_Push
  imports Log_Bus "HOL-Library.Multiset" "HOL-Library.Sublist"
begin

text \<open>
  Pushing the supervisor's log to the gateway, \<open>crates/clustershell-sandbox/src/log_push.rs\<close>: the tracing layer that makes lines, and the task
  that batches them, with its connections, its back-off and what it keeps and drops, run over the events it waits for. The last section joins it to the
  gateway's handler.
\<close>

section \<open>The layer\<close>

record push_visitor =
  lp_message :: "bytes option"
  lp_fields :: "(bytes \<times> bytes) list"

definition visit_pushed :: "bytes \<times> field_value \<Rightarrow> push_visitor \<Rightarrow> push_visitor" where
  "visit_pushed kv v =
     (if fst kv = ''message'' then v\<lparr>lp_message := Some (field_text (snd kv))\<rparr>
      else v\<lparr>lp_fields := lp_fields v @ [(fst kv, field_text (snd kv))]\<rparr>)"

definition into_parts :: "bytes \<Rightarrow> push_visitor \<Rightarrow> bytes \<times> (bytes \<times> bytes) list" where
  "into_parts fallback v = ((case lp_message v of None \<Rightarrow> fallback | Some msg \<Rightarrow> msg), hm_collect (lp_fields v))"

text \<open>\<open>LogPushLayer::on_event\<close>, up to \<open>try_send\<close>; \<open>exceeds\<close> compares levels.\<close>

definition pushed_event :: "(bytes \<Rightarrow> bytes \<Rightarrow> bool) \<Rightarrow> bytes \<Rightarrow> bytes \<Rightarrow> int option \<Rightarrow> tracing_event \<Rightarrow> log_line option" where
  "pushed_event exceeds max_level sandbox_id now event =
     (if exceeds (te_level event) max_level then None
      else case into_parts (te_name event) (fold visit_pushed (te_fields event) \<lparr>lp_message = None, lp_fields = []\<rparr>) of (msg, flds) \<Rightarrow>
        Some \<lparr>ll_sandbox_id = sandbox_id, ll_timestamp_ms = (case now of None \<Rightarrow> 0 | Some ts \<Rightarrow> ts), ll_level = te_level event,
              ll_target = te_target event, ll_message = msg, ll_source = ''sandbox'', ll_fields = flds\<rparr>)"

section \<open>The task\<close>

definition MAX_BUFFERED :: nat where
  "MAX_BUFFERED = 200"

definition BATCH_LINES :: nat where
  "BATCH_LINES = 50"

definition INITIAL_BACKOFF :: nat where
  "INITIAL_BACKOFF = 1"

definition MAX_BACKOFF :: nat where
  "MAX_BACKOFF = 30"

datatype push_mode = Connecting | Streaming | Stopped

text \<open>
  \<open>pl_sent\<close> are the requests handed to a stream, \<open>pl_taken\<close> the lines received from the layer, \<open>pl_lost\<close> those of them that were dropped;
  seconds are those of the back-off.
\<close>

record push_loop =
  pl_mode :: push_mode
  pl_batch :: "log_line list"
  pl_backoff :: nat
  pl_sent :: "push_request list"
  pl_taken :: "log_line list"
  pl_lost :: "log_line list"

text \<open>What the task waits for: a connection, and while it has one a line, the end of the lines, the timer, or the end of the call. \<open>ok\<close> says whether the stream takes a request.\<close>

datatype push_event =
    ConnectFailed "log_line list"
  | Connected bool
  | LineReceived log_line bool
  | LinesEnded bool
  | TimerTick bool
  | CallEnded

definition new_push_loop :: push_loop where
  "new_push_loop = \<lparr>pl_mode = Connecting, pl_batch = [], pl_backoff = INITIAL_BACKOFF, pl_sent = [], pl_taken = [], pl_lost = []\<rparr>"

text \<open>\<open>drain_during_backoff\<close>, on the lines that arrive.\<close>

definition drain_line :: "log_line \<Rightarrow> push_loop \<Rightarrow> push_loop" where
  "drain_line l s =
     (if length (pl_batch s) < MAX_BUFFERED then s\<lparr>pl_taken := pl_taken s @ [l], pl_batch := pl_batch s @ [l]\<rparr>
      else s\<lparr>pl_taken := pl_taken s @ [l], pl_lost := pl_lost s @ [l]\<rparr>)"

text \<open>The batch is handed over, or lost with the stream.\<close>

definition send_batch :: "bytes \<Rightarrow> bool \<Rightarrow> push_mode \<Rightarrow> push_loop \<Rightarrow> push_loop" where
  "send_batch sandbox_id ok broken s =
     (if ok then s\<lparr>pl_batch := [], pl_sent := pl_sent s @ [\<lparr>pq_sandbox_id = sandbox_id, pq_logs = pl_batch s\<rparr>]\<rparr>
      else s\<lparr>pl_batch := [], pl_lost := pl_lost s @ pl_batch s, pl_mode := broken, pl_backoff := INITIAL_BACKOFF\<rparr>)"

fun push_step :: "bytes \<Rightarrow> push_event \<Rightarrow> push_loop \<Rightarrow> push_loop" where
  "push_step sandbox_id (ConnectFailed ls) s =
     (if pl_mode s = Connecting then (fold drain_line ls s)\<lparr>pl_backoff := min (2 * pl_backoff s) MAX_BACKOFF\<rparr> else s)"
| "push_step sandbox_id (Connected ok) s =
     (if pl_mode s = Connecting then
        (let s1 = s\<lparr>pl_mode := Streaming, pl_backoff := INITIAL_BACKOFF\<rparr> in
         if pl_batch s1 \<noteq> [] then send_batch sandbox_id ok Connecting s1 else s1)
      else s)"
| "push_step sandbox_id (LineReceived l ok) s =
     (if pl_mode s = Streaming then
        (let s1 = s\<lparr>pl_taken := pl_taken s @ [l], pl_batch := pl_batch s @ [l]\<rparr> in
         if BATCH_LINES \<le> length (pl_batch s1) then send_batch sandbox_id ok Connecting s1 else s1)
      else s)"
| "push_step sandbox_id (LinesEnded ok) s =
     (if pl_mode s = Streaming then
        (if pl_batch s \<noteq> [] then (send_batch sandbox_id ok Stopped s)\<lparr>pl_mode := Stopped\<rparr> else s\<lparr>pl_mode := Stopped\<rparr>)
      else s)"
| "push_step sandbox_id (TimerTick ok) s =
     (if pl_mode s = Streaming \<and> pl_batch s \<noteq> [] then send_batch sandbox_id ok Connecting s else s)"
| "push_step sandbox_id CallEnded s =
     (if pl_mode s = Streaming then s\<lparr>pl_mode := Connecting, pl_backoff := INITIAL_BACKOFF\<rparr> else s)"

definition push_run :: "bytes \<Rightarrow> push_event list \<Rightarrow> push_loop" where
  "push_run sandbox_id events = fold (push_step sandbox_id) events new_push_loop"

section \<open>What becomes of a line\<close>

definition handed_over :: "push_loop \<Rightarrow> log_line list" where
  "handed_over s = concat (map pq_logs (pl_sent s))"

text \<open>Every line received was handed over, is waiting or was dropped; the first two are in the order they came. Requests are bounded.\<close>

definition push_inv :: "bytes \<Rightarrow> push_loop \<Rightarrow> bool" where
  "push_inv sandbox_id s \<longleftrightarrow>
     mset (pl_taken s) = mset (handed_over s) + mset (pl_batch s) + mset (pl_lost s)
     \<and> subseq (handed_over s @ pl_batch s) (pl_taken s)
     \<and> length (pl_batch s) \<le> MAX_BUFFERED \<and> (pl_mode s = Streaming \<longrightarrow> length (pl_batch s) < BATCH_LINES)
     \<and> 1 \<le> pl_backoff s \<and> pl_backoff s \<le> MAX_BACKOFF
     \<and> (\<forall>r\<in>set (pl_sent s). pq_sandbox_id r = sandbox_id \<and> pq_logs r \<noteq> [] \<and> length (pq_logs r) \<le> MAX_BUFFERED)"

lemma push_inv_new: "push_inv i new_push_loop"
  by (simp add: push_inv_def new_push_loop_def handed_over_def BATCH_LINES_def INITIAL_BACKOFF_def MAX_BACKOFF_def)

lemma drain_line_fields [simp]:
  "pl_mode (drain_line l s) = pl_mode s" "pl_sent (drain_line l s) = pl_sent s" "pl_backoff (drain_line l s) = pl_backoff s"
  by (simp_all add: drain_line_def)

lemma push_inv_drain:
  assumes "push_inv i s" "pl_mode s = Connecting"
  shows "push_inv i (drain_line l s)"
proof -
  have "subseq (handed_over s @ pl_batch s) (pl_taken s @ [l])"
    using assms(1) by (simp add: push_inv_def list_emb_prefix)
  moreover have "subseq ((handed_over s @ pl_batch s) @ [l]) (pl_taken s @ [l])"
    using assms(1) by (intro list_emb_append_mono) (simp_all add: push_inv_def)
  ultimately show ?thesis
    using assms by (auto simp: push_inv_def drain_line_def handed_over_def)
qed

lemma push_inv_drain_all: "push_inv i s \<Longrightarrow> pl_mode s = Connecting \<Longrightarrow> push_inv i (fold drain_line ls s)"
  by (induction ls arbitrary: s) (simp_all add: push_inv_drain)

text \<open>The part of the invariant that says nothing of the mode, and a batch that is handed over or lost.\<close>

definition lines_kept :: "bytes \<Rightarrow> push_loop \<Rightarrow> bool" where
  "lines_kept sandbox_id s \<longleftrightarrow>
     mset (pl_taken s) = mset (handed_over s) + mset (pl_batch s) + mset (pl_lost s)
     \<and> subseq (handed_over s @ pl_batch s) (pl_taken s) \<and> length (pl_batch s) \<le> MAX_BUFFERED
     \<and> 1 \<le> pl_backoff s \<and> pl_backoff s \<le> MAX_BACKOFF
     \<and> (\<forall>r\<in>set (pl_sent s). pq_sandbox_id r = sandbox_id \<and> pq_logs r \<noteq> [] \<and> length (pq_logs r) \<le> MAX_BUFFERED)"

lemma push_inv_lines: "push_inv i s \<longleftrightarrow> lines_kept i s \<and> (pl_mode s = Streaming \<longrightarrow> length (pl_batch s) < BATCH_LINES)"
  by (auto simp: push_inv_def lines_kept_def)

lemma lines_kept_mode [simp]: "lines_kept i (s\<lparr>pl_mode := m\<rparr>) = lines_kept i s"
  by (simp add: lines_kept_def handed_over_def)

lemma lines_kept_backoff: "lines_kept i s \<Longrightarrow> 1 \<le> n \<Longrightarrow> n \<le> MAX_BACKOFF \<Longrightarrow> lines_kept i (s\<lparr>pl_backoff := n\<rparr>)"
  by (simp add: lines_kept_def handed_over_def)

lemma lines_kept_take:
  assumes "lines_kept i s" "length (pl_batch s) < MAX_BUFFERED"
  shows "lines_kept i (s\<lparr>pl_taken := pl_taken s @ [l], pl_batch := pl_batch s @ [l]\<rparr>)"
proof -
  have "subseq ((handed_over s @ pl_batch s) @ [l]) (pl_taken s @ [l])"
    using assms(1) by (intro list_emb_append_mono) (simp_all add: lines_kept_def)
  then show ?thesis using assms by (simp add: lines_kept_def handed_over_def)
qed

lemma lines_kept_send:
  assumes "lines_kept i s" "pl_batch s \<noteq> []"
  shows "lines_kept i (send_batch i ok broken s)"
proof -
  have "subseq (handed_over s) (pl_taken s)"
    using assms(1) unfolding lines_kept_def by (metis list_emb_append_mono append_Nil2 list_emb_Nil subseq_order.order_refl subseq_order.trans)
  then show ?thesis
    using assms by (auto simp: lines_kept_def send_batch_def handed_over_def INITIAL_BACKOFF_def MAX_BACKOFF_def)
qed

lemma send_batch_empty [simp]: "pl_batch (send_batch i ok broken s) = []"
  by (simp add: send_batch_def)

lemma push_step_inv:
  assumes "push_inv i s"
  shows "push_inv i (push_step i e s)"
proof (cases "(i, e, s)" rule: push_step.cases)
  case (1 i ls s)
  moreover from 1 have "1 \<le> min (2 * pl_backoff s) MAX_BACKOFF"
    using assms by (simp add: push_inv_def MAX_BACKOFF_def)
  ultimately show ?thesis using assms push_inv_drain_all [of i s ls]
    by (simp add: push_inv_lines lines_kept_backoff)
next
  case (2 i ok s)
  then show ?thesis using assms
    by (auto simp: push_inv_lines Let_def INITIAL_BACKOFF_def MAX_BACKOFF_def BATCH_LINES_def intro!: lines_kept_send lines_kept_backoff)
next
  case (3 i l ok s)
  then show ?thesis using assms lines_kept_take [of i s l]
    by (auto simp: push_inv_lines Let_def BATCH_LINES_def MAX_BUFFERED_def intro!: lines_kept_send)
next
  case (4 i ok s)
  then show ?thesis using assms by (auto simp: push_inv_lines intro!: lines_kept_send)
next
  case (5 i ok s)
  then show ?thesis using assms by (auto simp: push_inv_lines BATCH_LINES_def intro!: lines_kept_send)
next
  case (6 i s)
  then show ?thesis using assms by (auto simp: push_inv_lines INITIAL_BACKOFF_def MAX_BACKOFF_def intro!: lines_kept_backoff)
qed

lemma push_run_inv: "push_inv i (push_run i events)"
proof -
  have "push_inv i s \<Longrightarrow> push_inv i (fold (push_step i) events s)" for s
    by (induction events arbitrary: s) (simp_all add: push_step_inv)
  then show ?thesis by (simp add: push_run_def push_inv_new)
qed

text \<open>No line the layer hands to the push task disappears unaccounted for: it was put into a request, waits in the batch, or was dropped; what was put into
  requests and what waits keeps the order of arrival; at most 200 lines wait and no request is empty or holds more, and the back-off stays between one and
  thirty seconds.\<close>

theorem push_conserves_lines:
  "mset (pl_taken (push_run i events)) = mset (handed_over (push_run i events)) + mset (pl_batch (push_run i events)) + mset (pl_lost (push_run i events))
   \<and> subseq (handed_over (push_run i events) @ pl_batch (push_run i events)) (pl_taken (push_run i events))
   \<and> length (pl_batch (push_run i events)) \<le> 200 \<and> pl_backoff (push_run i events) \<in> {1..30}
   \<and> list_all (\<lambda>r. pq_sandbox_id r = i \<and> length (pq_logs r) \<in> {1..200}) (pl_sent (push_run i events))"
  using push_run_inv [of i events] by (auto simp: push_inv_def MAX_BUFFERED_def MAX_BACKOFF_def list_all_iff Suc_le_eq)

section \<open>Together with the gateway\<close>

text \<open>Nothing goes wrong with the connection.\<close>

fun steady :: "push_event \<Rightarrow> bool" where
  "steady (ConnectFailed ls) = False"
| "steady (Connected ok) = ok"
| "steady (LineReceived l ok) = ok"
| "steady (LinesEnded ok) = ok"
| "steady (TimerTick ok) = ok"
| "steady CallEnded = True"

definition steady_inv :: "push_loop \<Rightarrow> bool" where
  "steady_inv s \<longleftrightarrow> pl_taken s = handed_over s @ pl_batch s \<and> length (pl_batch s) < BATCH_LINES \<and> (\<forall>r\<in>set (pl_sent s). length (pq_logs r) \<le> BATCH_LINES)"

lemma steady_step:
  assumes "steady_inv s" "steady e"
  shows "steady_inv (push_step i e s)"
  using assms by (cases e) (auto simp: steady_inv_def handed_over_def send_batch_def Let_def BATCH_LINES_def)

lemma steady_run:
  assumes "list_all steady events"
  shows "steady_inv (push_run i events)"
proof -
  have "steady_inv s \<Longrightarrow> list_all steady events \<Longrightarrow> steady_inv (fold (push_step i) events s)" for s
    by (induction events arbitrary: s) (simp_all add: steady_step)
  moreover have "steady_inv new_push_loop" by (simp add: steady_inv_def new_push_loop_def handed_over_def BATCH_LINES_def)
  ultimately show ?thesis using assms by (simp add: push_run_def)
qed

definition marked :: "bytes \<Rightarrow> log_line \<Rightarrow> log_line" where
  "marked i l = l\<lparr>ll_source := ''sandbox'', ll_sandbox_id := i\<rparr>"

lemma push_all_batches:
  assumes "i \<noteq> []" "\<forall>r\<in>set rs. pq_sandbox_id r = i \<and> length (pq_logs r) \<le> 100"
  shows "push_sandbox_logs C True (map Inr rs) (w, b) = (Inr (), (w, fold publish_external (map (marked i) (concat (map pq_logs rs))) b))"
  using assms(2)
proof (induction rs arbitrary: b)
  case (Cons r rs)
  have "attributed r = marked i" using Cons.prems by (intro ext) (simp add: attributed_def marked_def)
  then show ?case using Cons assms(1) by (simp add: hreturn_def)
qed simp

lemma push_first_batch:
  assumes "i \<noteq> []" "get_sandbox_message C i w = (Inr (Some sb), w')" "pq_sandbox_id r = i"
  shows "push_sandbox_logs C False (Inr r # rs) (w, b) = push_sandbox_logs C True rs (w', fold publish_external (map (marked i) (take 100 (pq_logs r))) b)"
proof -
  have "attributed r = marked i" using assms(3) by (intro ext) (simp add: attributed_def marked_def)
  then show ?thesis using assms by (simp add: require_sandbox_def hbind_def or_internal_def hlift_def hreturn_def)
qed

text \<open>C21: From the supervisor's tracing layer to the gateway's buffers: while the connection holds, the requests of the push task, given to the gateway's handler for a
  sandbox it knows, publish exactly the lines received and no longer waiting, in order, each once and in the sandbox's name.\<close>

theorem steady_push_delivers:
  assumes "list_all steady events" "i \<noteq> []" "get_sandbox_message C i w = (Inr (Some sb), w')"
  shows "\<exists>sent w''. pl_taken (push_run i events) = sent @ pl_batch (push_run i events) \<and> length (pl_batch (push_run i events)) < 50
    \<and> push_sandbox_logs C False (map Inr (pl_sent (push_run i events))) (w, b) = (Inr (), (w'', fold publish_external (map (marked i) sent) b))"
proof -
  let ?s = "push_run i events"
  have inv: "steady_inv ?s" "push_inv i ?s" using steady_run [OF assms(1)] push_run_inv by auto
  have r: "\<forall>r\<in>set (pl_sent ?s). pq_sandbox_id r = i \<and> length (pq_logs r) \<le> 100"
    using inv by (fastforce simp: steady_inv_def push_inv_def BATCH_LINES_def)
  have "\<exists>w''. push_sandbox_logs C False (map Inr (pl_sent ?s)) (w, b) = (Inr (), (w'', fold publish_external (map (marked i) (handed_over ?s)) b))"
  proof (cases "pl_sent ?s")
    case Nil
    then show ?thesis by (simp add: handed_over_def)
  next
    case (Cons q rs)
    then show ?thesis
      using push_first_batch [OF assms(2,3), of q "map Inr rs" b] push_all_batches [OF assms(2), of rs] r by (simp add: handed_over_def)
  qed
  then show ?thesis using inv(1) by (auto simp: steady_inv_def BATCH_LINES_def)
qed

text \<open>After a failed connection it does not: the task keeps up to 200 lines and hands them over as one request, of which the gateway takes the first hundred. The
  others are lost although neither side counts them as dropped.\<close>

theorem reconnect_flush_is_cut:
  assumes "100 < length ls" "length ls \<le> 200" "i \<noteq> []" "get_sandbox_message C i w = (Inr (Some sb), w')"
  shows "handed_over (push_run i [ConnectFailed ls, Connected True]) = ls \<and> pl_lost (push_run i [ConnectFailed ls, Connected True]) = []
    \<and> push_sandbox_logs C False (map Inr (pl_sent (push_run i [ConnectFailed ls, Connected True]))) (w, b)
        = (Inr (), (w', fold publish_external (map (marked i) (take 100 ls)) b))"
proof -
  have drain: "length (pl_batch s) + length ls \<le> 200 \<Longrightarrow>
      fold drain_line ls s = s\<lparr>pl_taken := pl_taken s @ ls, pl_batch := pl_batch s @ ls\<rparr>" for ls s
    by (induction ls arbitrary: s) (simp_all add: drain_line_def MAX_BUFFERED_def)
  have "push_run i [ConnectFailed ls, Connected True] =
      \<lparr>pl_mode = Streaming, pl_batch = [], pl_backoff = 1, pl_sent = [\<lparr>pq_sandbox_id = i, pq_logs = ls\<rparr>], pl_taken = ls, pl_lost = []\<rparr>"
    using assms(1,2) by (auto simp: push_run_def new_push_loop_def drain Let_def send_batch_def INITIAL_BACKOFF_def)
  then show ?thesis using push_first_batch [OF assms(3,4), of "\<lparr>pq_sandbox_id = i, pq_logs = ls\<rparr>" "[]" b] by (simp add: handed_over_def)
qed

text \<open>A task that finds no gateway goes on when the layer is gone: the end of the lines only ends a wait.\<close>

theorem unconnected_push_never_stops:
  assumes "list_all (\<lambda>e. \<exists>ls ok. e = ConnectFailed ls \<or> e = LinesEnded ok) events"
  shows "pl_mode (push_run i events) = Connecting"
proof -
  have d: "pl_mode (fold drain_line ls s) = pl_mode s" for ls s by (induction ls arbitrary: s) simp_all
  have "pl_mode s = Connecting \<Longrightarrow> list_all (\<lambda>e. \<exists>ls ok. e = ConnectFailed ls \<or> e = LinesEnded ok) events
      \<Longrightarrow> pl_mode (fold (push_step i) events s) = Connecting" for s
    by (induction events arbitrary: s) (auto simp: d)
  then show ?thesis using assms by (simp add: push_run_def new_push_loop_def)
qed

section \<open>Instances\<close>

theorem steady_push_delivers_witness:
  "\<exists>sent w''. pl_taken (push_run ''uuid'' [Connected True, LineReceived (sample_log_line ''uuid'' ''a'') True, TimerTick True]) = sent
     \<and> push_sandbox_logs two_sandbox_codec False (map Inr (pl_sent (push_run ''uuid'' [Connected True, LineReceived (sample_log_line ''uuid'' ''a'') True, TimerTick True])))
        (stored_world, new_bus) = (Inr (), (w'', fold publish_external (map (marked ''uuid'') sent) new_bus)) \<and> length sent = 1"
proof -
  let ?events = "[Connected True, LineReceived (sample_log_line ''uuid'' ''a'') True, TimerTick True]"
  have "pl_batch (push_run ''uuid'' ?events) = []" "length (pl_taken (push_run ''uuid'' ?events)) = 1"
    by (simp_all add: push_run_def new_push_loop_def Let_def send_batch_def BATCH_LINES_def)
  then show ?thesis
    using steady_push_delivers [of ?events "''uuid''" two_sandbox_codec stored_world bare_sandbox stored_world new_bus] stored_sandbox by auto
qed

theorem reconnect_flush_is_cut_witness:
  "\<exists>w' b'. push_sandbox_logs two_sandbox_codec False
       (map Inr (pl_sent (push_run ''uuid'' [ConnectFailed (replicate 150 (sample_log_line ''uuid'' ''a'')), Connected True]))) (stored_world, new_bus) = (Inr (), (w', b'))
     \<and> handed_over (push_run ''uuid'' [ConnectFailed (replicate 150 (sample_log_line ''uuid'' ''a'')), Connected True]) = replicate 150 (sample_log_line ''uuid'' ''a'')
     \<and> b' = fold publish_external (map (marked ''uuid'') (replicate 100 (sample_log_line ''uuid'' ''a''))) new_bus"
  using reconnect_flush_is_cut [of "replicate 150 (sample_log_line ''uuid'' ''a'')" "''uuid''", OF _ _ _ stored_sandbox, of new_bus]
  by simp

end
