(* ===== verification/Netns.thy ===== *)
theory Netns
  imports Confinement
begin

text \<open>
  The network namespace of a sandbox, \<open>crates/clustershell-sandbox/src/sandbox/linux/netns.rs\<close>, and the part of \<open>run_sandbox\<close> in \<open>lib.rs\<close> that
  sets it up. What the \<open>ip\<close> tool answers is a parameter that may depend on all commands run before; the state is those commands.
\<close>

section \<open>Commands\<close>

text \<open>The tool did as told, failed with a message on standard error, or could not be started.\<close>

datatype tool_result = ToolOk | ToolFailed bytes | ToolMissing bytes

type_synonym ip_tool = "bytes list list \<Rightarrow> bytes list \<Rightarrow> tool_result"

definition run_tool :: "ip_tool \<Rightarrow> (bytes \<Rightarrow> bytes) \<Rightarrow> bytes list \<Rightarrow> bytes list list \<Rightarrow> (report, unit) result \<times> bytes list list" where
  "run_tool tool failed args past =
     ((case tool past args of ToolOk \<Rightarrow> Inr () | ToolFailed err \<Rightarrow> Inl (failed (trim_ws err)) | ToolMissing e \<Rightarrow> Inl e), past @ [args])"

definition run_ip :: "ip_tool \<Rightarrow> bytes list \<Rightarrow> bytes list list \<Rightarrow> (report, unit) result \<times> bytes list list" where
  "run_ip tool args = run_tool tool (\<lambda>err. ''ip '' @ join_str '' '' args @ '' failed: '' @ err) args"

definition run_ip_netns :: "ip_tool \<Rightarrow> bytes \<Rightarrow> bytes list \<Rightarrow> bytes list list \<Rightarrow> (report, unit) result \<times> bytes list list" where
  "run_ip_netns tool netns args =
     run_tool tool (\<lambda>err. ''ip netns exec '' @ netns @ '' ip '' @ join_str '' '' args @ '' failed: '' @ err)
       ([''netns'', ''exec'', netns, ''ip''] @ args)"

definition run_iptables_netns :: "ip_tool \<Rightarrow> bytes \<Rightarrow> bytes \<Rightarrow> bytes list \<Rightarrow> bytes list list \<Rightarrow> (report, unit) result \<times> bytes list list" where
  "run_iptables_netns tool netns iptables_cmd args =
     run_tool tool (\<lambda>err. ''ip netns exec '' @ netns @ '' '' @ iptables_cmd @ '' failed: '' @ err)
       ([''netns'', ''exec'', netns, iptables_cmd] @ args)"

section \<open>Creating\<close>

record network_namespace =
  ns_name :: bytes
  ns_veth_host :: bytes
  ns_veth_sandbox :: bytes
  ns_host_ip :: bytes
  ns_sandbox_ip :: bytes
  ns_fd :: "nat option"

definition HOST_IP :: bytes where
  "HOST_IP = ''10.200.0.1''"

definition SANDBOX_IP :: bytes where
  "SANDBOX_IP = ''10.200.0.2''"

text \<open>A step of the set-up, on the host or in the namespace, with what is undone when it fails.\<close>

datatype setup_command = OnHost "bytes list" | InNamespace "bytes list"

fun run_setup :: "ip_tool \<Rightarrow> bytes \<Rightarrow> setup_command \<Rightarrow> bytes list list \<Rightarrow> (report, unit) result \<times> bytes list list" where
  "run_setup tool name (OnHost args) = run_ip tool args"
| "run_setup tool name (InNamespace args) = run_ip_netns tool name args"

definition delete_netns :: "bytes \<Rightarrow> bytes list" where
  "delete_netns name = [''netns'', ''delete'', name]"

definition delete_link :: "bytes \<Rightarrow> bytes list" where
  "delete_link veth = [''link'', ''delete'', veth]"

definition setup_steps :: "bytes \<Rightarrow> bytes \<Rightarrow> bytes \<Rightarrow> (setup_command \<times> bytes list list) list" where
  "setup_steps name veth_host veth_sandbox =
     (let undo = [delete_link veth_host, delete_netns name] in
      [(OnHost [''netns'', ''add'', name], []),
       (OnHost [''link'', ''add'', veth_host, ''type'', ''veth'', ''peer'', ''name'', veth_sandbox], [delete_netns name]),
       (OnHost [''link'', ''set'', veth_sandbox, ''netns'', name], undo),
       (OnHost [''addr'', ''add'', HOST_IP @ ''/24'', ''dev'', veth_host], undo),
       (OnHost [''link'', ''set'', veth_host, ''up''], undo),
       (InNamespace [''addr'', ''add'', SANDBOX_IP @ ''/24'', ''dev'', veth_sandbox], undo),
       (InNamespace [''link'', ''set'', veth_sandbox, ''up''], undo),
       (InNamespace [''link'', ''set'', ''lo'', ''up''], undo),
       (InNamespace [''route'', ''add'', ''default'', ''via'', HOST_IP], undo)])"

fun run_steps :: "ip_tool \<Rightarrow> bytes \<Rightarrow> (setup_command \<times> bytes list list) list \<Rightarrow> bytes list list \<Rightarrow> (report, unit) result \<times> bytes list list" where
  "run_steps tool name [] past = (Inr (), past)"
| "run_steps tool name ((command, undo) # steps) past =
     (case run_setup tool name command past of
        (Inr _, past') \<Rightarrow> run_steps tool name steps past'
      | (Inl e, past') \<Rightarrow> (Inl e, fold (\<lambda>args p. snd (run_ip tool args p)) undo past'))"

text \<open>\<open>uuid\<close> is the text of a fresh identifier, \<open>opened\<close> what opening the namespace's file gives.\<close>

definition create_namespace :: "ip_tool \<Rightarrow> bytes \<Rightarrow> (bytes \<Rightarrow> (report, nat) result) \<Rightarrow> bytes list list \<Rightarrow> (report, network_namespace) result \<times> bytes list list" where
  "create_namespace tool uuid opened past =
     (let short_id = take 8 uuid; name = ''sandbox-'' @ short_id; veth_host = ''veth-h-'' @ short_id; veth_sandbox = ''veth-s-'' @ short_id in
      case run_steps tool name (setup_steps name veth_host veth_sandbox) past of
        (Inl e, past') \<Rightarrow> (Inl e, past')
      | (Inr _, past') \<Rightarrow>
          (Inr \<lparr>ns_name = name, ns_veth_host = veth_host, ns_veth_sandbox = veth_sandbox, ns_host_ip = HOST_IP, ns_sandbox_ip = SANDBOX_IP,
                ns_fd = (case opened (''/var/run/netns/'' @ name) of Inr fd \<Rightarrow> Some fd | Inl _ \<Rightarrow> None)\<rparr>, past'))"

definition enter_namespace :: "('c, 'l) kernel \<Rightarrow> network_namespace \<Rightarrow> (report, unit) result" where
  "enter_namespace k ns =
     (case ns_fd ns of Some fd \<Rightarrow> kn_setns k fd | None \<Rightarrow> Inl ''No namespace file descriptor available for setns'')"

text \<open>\<open>drop\<close>, apart from closing the file.\<close>

definition drop_namespace :: "ip_tool \<Rightarrow> network_namespace \<Rightarrow> bytes list list \<Rightarrow> bytes list list" where
  "drop_namespace tool ns past = snd (run_ip tool (delete_netns (ns_name ns)) (snd (run_ip tool (delete_link (ns_veth_host ns)) past)))"

section \<open>Bypass rules\<close>

definition IPTABLES_SEARCH_PATHS :: "bytes list" where
  "IPTABLES_SEARCH_PATHS = [''/usr/sbin/iptables'', ''/sbin/iptables'', ''/usr/bin/iptables'']"

definition find_iptables :: "(bytes \<Rightarrow> bool) \<Rightarrow> bytes option" where
  "find_iptables path_exists = find path_exists IPTABLES_SEARCH_PATHS"

text \<open>\<open>str::replace\<close>.\<close>

definition str_replace :: "bytes \<Rightarrow> bytes \<Rightarrow> bytes \<Rightarrow> bytes" where
  "str_replace s p r = join_str r (split_str p s)"

definition find_ip6tables :: "(bytes \<Rightarrow> bool) \<Rightarrow> bytes \<Rightarrow> bytes option" where
  "find_ip6tables path_exists iptables_path =
     (let ip6_path = str_replace iptables_path ''iptables'' ''ip6tables'' in if path_exists ip6_path then Some ip6_path else None)"

definition ACCEPT_LOOPBACK :: "bytes list" where
  "ACCEPT_LOOPBACK = [''-A'', ''OUTPUT'', ''-o'', ''lo'', ''-j'', ''ACCEPT'']"

definition ACCEPT_ESTABLISHED :: "bytes list" where
  "ACCEPT_ESTABLISHED = [''-A'', ''OUTPUT'', ''-m'', ''conntrack'', ''--ctstate'', ''ESTABLISHED,RELATED'', ''-j'', ''ACCEPT'']"

definition accept_proxy :: "bytes \<Rightarrow> bytes \<Rightarrow> bytes list" where
  "accept_proxy host_ip proxy_port = [''-A'', ''OUTPUT'', ''-d'', host_ip @ ''/32'', ''-p'', ''tcp'', ''--dport'', proxy_port, ''-j'', ''ACCEPT'']"

definition log_tcp :: "bytes \<Rightarrow> bytes list" where
  "log_tcp log_prefix =
     [''-A'', ''OUTPUT'', ''-p'', ''tcp'', ''--syn'', ''-m'', ''limit'', ''--limit'', ''5/sec'', ''--limit-burst'', ''10'', ''-j'', ''LOG'',
      ''--log-prefix'', log_prefix, ''--log-uid'']"

definition log_udp :: "bytes \<Rightarrow> bytes list" where
  "log_udp log_prefix =
     [''-A'', ''OUTPUT'', ''-p'', ''udp'', ''-m'', ''limit'', ''--limit'', ''5/sec'', ''--limit-burst'', ''10'', ''-j'', ''LOG'',
      ''--log-prefix'', log_prefix, ''--log-uid'']"

definition reject_with :: "bytes \<Rightarrow> bytes \<Rightarrow> bytes list" where
  "reject_with proto answer = [''-A'', ''OUTPUT'', ''-p'', proto, ''-j'', ''REJECT'', ''--reject-with'', answer]"

text \<open>A rule that must be installed, and one whose failure is only reported.\<close>

datatype rule_step = MustRun "bytes list" | MayFail "bytes list"

fun run_rules :: "ip_tool \<Rightarrow> bytes \<Rightarrow> bytes \<Rightarrow> rule_step list \<Rightarrow> bytes list list \<Rightarrow> (report, unit) result \<times> bytes list list" where
  "run_rules tool name cmd [] past = (Inr (), past)"
| "run_rules tool name cmd (MustRun args # steps) past =
     (case run_iptables_netns tool name cmd args past of (Inl e, past') \<Rightarrow> (Inl e, past') | (Inr _, past') \<Rightarrow> run_rules tool name cmd steps past')"
| "run_rules tool name cmd (MayFail args # steps) past = run_rules tool name cmd steps (snd (run_iptables_netns tool name cmd args past))"

definition bypass_rules :: "bytes \<Rightarrow> bytes \<Rightarrow> bytes \<Rightarrow> rule_step list" where
  "bypass_rules host_ip proxy_port log_prefix =
     [MustRun (accept_proxy host_ip proxy_port), MustRun ACCEPT_LOOPBACK, MustRun ACCEPT_ESTABLISHED,
      MayFail (log_tcp log_prefix), MustRun (reject_with ''tcp'' ''icmp-port-unreachable''),
      MayFail (log_udp log_prefix), MustRun (reject_with ''udp'' ''icmp-port-unreachable'')]"

definition bypass_rules_v6 :: "bytes \<Rightarrow> rule_step list" where
  "bypass_rules_v6 log_prefix =
     [MustRun ACCEPT_LOOPBACK, MustRun ACCEPT_ESTABLISHED,
      MayFail (log_tcp log_prefix), MustRun (reject_with ''tcp'' ''icmp6-port-unreachable''),
      MayFail (log_udp log_prefix), MustRun (reject_with ''udp'' ''icmp6-port-unreachable'')]"

definition bypass_log_prefix :: "bytes \<Rightarrow> bytes" where
  "bypass_log_prefix name = ''clustershell:bypass:'' @ name @ '':''"

definition install_bypass_rules ::
  "ip_tool \<Rightarrow> (bytes \<Rightarrow> bool) \<Rightarrow> network_namespace \<Rightarrow> nat \<Rightarrow> bytes list list \<Rightarrow> (report, unit) result \<times> bytes list list" where
  "install_bypass_rules tool path_exists ns proxy_port past =
     (case find_iptables path_exists of
        None \<Rightarrow> (Inr (), past)
      | Some iptables_path \<Rightarrow>
          (let log_prefix = bypass_log_prefix (ns_name ns) in
           case run_rules tool (ns_name ns) iptables_path (bypass_rules (ns_host_ip ns) (show_nat proxy_port) log_prefix) past of
             (Inl e, past') \<Rightarrow> (Inl e, past')
           | (Inr _, past') \<Rightarrow>
               (Inr (), (case find_ip6tables path_exists iptables_path of
                           None \<Rightarrow> past'
                         | Some ip6_path \<Rightarrow> snd (run_rules tool (ns_name ns) ip6_path (bypass_rules_v6 log_prefix) past')))))"

section \<open>In the supervisor\<close>

definition NETNS_REQUIRED :: "report \<Rightarrow> report" where
  "NETNS_REQUIRED e =
     ''Network namespace creation failed and proxy mode requires isolation. Ensure CAP_NET_ADMIN and CAP_SYS_ADMIN are available and iproute2 is installed. Error: '' @ e"

definition sandbox_netns ::
  "ip_tool \<Rightarrow> (bytes \<Rightarrow> bool) \<Rightarrow> bytes \<Rightarrow> (bytes \<Rightarrow> (report, nat) result) \<Rightarrow> runtime_policy \<Rightarrow> bytes list list
     \<Rightarrow> (report, network_namespace option) result \<times> bytes list list" where
  "sandbox_netns tool path_exists uuid opened policy past =
     (if nw_mode (rp_network policy) = ModeProxy then
        (case create_namespace tool uuid opened past of
           (Inl e, past') \<Rightarrow> (Inl (NETNS_REQUIRED e), past')
         | (Inr ns, past') \<Rightarrow>
             (let proxy_port = (case Option.bind (nw_proxy (rp_network policy)) px_http_addr of None \<Rightarrow> 3128 | Some addr \<Rightarrow> snd addr) in
              (Inr (Some ns), snd (install_bypass_rules tool path_exists ns proxy_port past'))))
      else (Inr None, past))"

section \<open>Failures are undone\<close>

fun command_args :: "bytes \<Rightarrow> setup_command \<Rightarrow> bytes list" where
  "command_args name (OnHost args) = args"
| "command_args name (InNamespace args) = [''netns'', ''exec'', name, ''ip''] @ args"

lemma run_setup_past: "snd (run_setup tool name command past) = past @ [command_args name command]"
  by (cases command) (simp_all add: run_ip_def run_ip_netns_def run_tool_def)

lemma run_ip_past: "snd (run_ip tool args past) = past @ [args]"
  by (simp add: run_ip_def run_tool_def)

lemma undo_past: "fold (\<lambda>args p. snd (run_ip tool args p)) undo past = past @ undo"
  by (induction undo arbitrary: past) (simp_all add: run_ip_past)

lemma run_steps_fails:
  assumes "run_steps tool name steps past = (Inl e, past')"
  shows "\<exists>k<length steps. past' = past @ map (command_args name \<circ> fst) (take (Suc k) steps) @ snd (steps ! k)"
  using assms
proof (induction tool name steps past rule: run_steps.induct)
  case (2 tool name command undo steps past)
  obtain r p where r: "run_setup tool name command past = (r, p)" by force
  have p: "p = past @ [command_args name command]" using run_setup_past [of tool name command past] r by simp
  show ?case
  proof (cases r)
    case (Inl e')
    then show ?thesis using "2.prems" r by (intro exI [of _ 0]) (auto simp: p undo_past)
  next
    case (Inr u)
    then obtain k where "k < length steps" "past' = p @ map (command_args name \<circ> fst) (take (Suc k) steps) @ snd (steps ! k)"
      using 2 r by auto
    then show ?thesis by (intro exI [of _ "Suc k"]) (simp add: p)
  qed
qed simp

lemma run_steps_ok:
  "run_steps tool name steps past = (Inr u, past') \<Longrightarrow> past' = past @ map (command_args name \<circ> fst) steps"
proof (induction tool name steps past rule: run_steps.induct)
  case (2 tool name command undo steps past)
  obtain r p where r: "run_setup tool name command past = (r, p)" by force
  then show ?case using 2 run_setup_past [of tool name command past] by (cases r) auto
qed simp

lemma length_setup_steps [simp]: "length (setup_steps name veth_host veth_sandbox) = 9"
  by (simp add: setup_steps_def Let_def)

text \<open>C22: A namespace that cannot be set up is taken down again: when creation fails, the commands run are the first of the set-up, in order, up to the one that failed,
  and then exactly those that undo them, the deletion of the interface pair if it had been asked for and had not failed, and that of the namespace if
  it had been added.\<close>

theorem failed_setup_is_undone:
  assumes "create_namespace tool uuid opened past = (Inl e, past')"
  defines "name \<equiv> ''sandbox-'' @ take 8 uuid" and "veth_host \<equiv> ''veth-h-'' @ take 8 uuid" and "veth_sandbox \<equiv> ''veth-s-'' @ take 8 uuid"
  shows "\<exists>k<9. past' = past @ map (command_args name \<circ> fst) (take (Suc k) (setup_steps name veth_host veth_sandbox))
    @ (if 2 \<le> k then [delete_link veth_host] else []) @ (if 1 \<le> k then [delete_netns name] else [])"
proof -
  have "run_steps tool name (setup_steps name veth_host veth_sandbox) past = (Inl e, past')"
    using assms by (auto simp: create_namespace_def Let_def split: prod.splits sum.splits)
  from run_steps_fails [OF this] obtain k where k: "k < 9"
    "past' = past @ map (command_args name \<circ> fst) (take (Suc k) (setup_steps name veth_host veth_sandbox)) @ snd (setup_steps name veth_host veth_sandbox ! k)"
    by auto
  have "k \<in> {0, 1, 2, 3, 4, 5, 6, 7, 8}" using k(1) by auto
  then have "snd (setup_steps name veth_host veth_sandbox ! k) = (if 2 \<le> k then [delete_link veth_host] else []) @ (if 1 \<le> k then [delete_netns name] else [])"
    by (elim insertE) (simp_all add: setup_steps_def Let_def)
  with k show ?thesis by auto
qed

section \<open>Rejection does not depend on logging\<close>

fun rule_args :: "rule_step \<Rightarrow> bytes list" where
  "rule_args (MustRun args) = args"
| "rule_args (MayFail args) = args"

lemma run_rules_all:
  assumes "\<And>past args. MustRun args \<in> set steps \<Longrightarrow> tool past ([''netns'', ''exec'', name, cmd] @ args) = ToolOk"
  shows "run_rules tool name cmd steps past = (Inr (), past @ map (\<lambda>r. [''netns'', ''exec'', name, cmd] @ rule_args r) steps)"
  using assms
  by (induction tool name cmd steps past rule: run_rules.induct) (auto simp: run_iptables_netns_def run_tool_def)

text \<open>Whether or not the kernel can log, direct connections are refused: if only logging rules may fail, then where \<open>iptables\<close> is found every rule is asked for in order,
  acceptance of the proxy, of the loopback interface and of established connections first, and the rejection of all other TCP and UDP traffic
  included, for both address families where both tools are there.\<close>

theorem rejection_survives_failed_logging:
  assumes "find_iptables path_exists = Some cmd"
    and "\<And>past n c args. \<forall>p. args \<noteq> log_tcp p \<and> args \<noteq> log_udp p \<Longrightarrow> tool past ([''netns'', ''exec'', n, c] @ args) = ToolOk"
  shows "install_bypass_rules tool path_exists ns port past =
    (Inr (), past @ map (\<lambda>r. [''netns'', ''exec'', ns_name ns, cmd] @ rule_args r) (bypass_rules (ns_host_ip ns) (show_nat port) (bypass_log_prefix (ns_name ns)))
      @ (case find_ip6tables path_exists cmd of
           None \<Rightarrow> []
         | Some cmd6 \<Rightarrow> map (\<lambda>r. [''netns'', ''exec'', ns_name ns, cmd6] @ rule_args r) (bypass_rules_v6 (bypass_log_prefix (ns_name ns)))))"
proof -
  have len: "length (log_tcp p) = 16" "length (log_udp p) = 15" for p
    by (simp_all add: log_tcp_def log_udp_def)
  have "length args \<le> 10" if "MustRun args \<in> set (bypass_rules h q l) \<union> set (bypass_rules_v6 l)" for args h q l
    using that by (auto simp: bypass_rules_def bypass_rules_v6_def accept_proxy_def ACCEPT_LOOPBACK_def ACCEPT_ESTABLISHED_def reject_with_def)
  then have "args \<noteq> log_tcp p \<and> args \<noteq> log_udp p" if "MustRun args \<in> set (bypass_rules h q l) \<union> set (bypass_rules_v6 l)" for args h q l p
    using that len [of p] by fastforce
  then have ok: "tool past ([''netns'', ''exec'', n, c] @ args) = ToolOk" if "MustRun args \<in> set (bypass_rules h q l) \<union> set (bypass_rules_v6 l)" for past n c args h q l
    using that assms(2) by blast
  have "run_rules tool n c (bypass_rules h q l) past = (Inr (), past @ map (\<lambda>r. [''netns'', ''exec'', n, c] @ rule_args r) (bypass_rules h q l))"
    "run_rules tool n c (bypass_rules_v6 l) past = (Inr (), past @ map (\<lambda>r. [''netns'', ''exec'', n, c] @ rule_args r) (bypass_rules_v6 l))" for n c h q l past
    by (rule run_rules_all, rule ok, blast)+
  then show ?thesis using assms(1) by (simp add: install_bypass_rules_def Let_def split: option.split)
qed

section \<open>Entering it\<close>

text \<open>C16: In proxy mode the supervisor has a namespace or stops, and the entrypoint it spawns is in that namespace exactly if the namespace's file could be opened. When it
  could not, the process is started all the same, outside: the fallback the warning speaks of does not exist.\<close>

theorem proxied_process_namespace:
  assumes "sandbox_netns tool path_exists uuid opened policy past = (Inr netns, past')" "nw_mode (rp_network policy) = ModeProxy"
    and "spawn_impl k os exec_error inherited program args workdir interactive policy (Option.bind netns ns_fd) ca_paths provider_env c = Inr child"
  shows "\<exists>ns. netns = Some ns \<and> (case opened (''/var/run/netns/'' @ ns_name ns) of
      Inr fd \<Rightarrow> cf_netns (ch_confined child) = Some fd \<and> kn_setns k fd = Inr ()
    | Inl _ \<Rightarrow> cf_netns (ch_confined child) = None)"
proof -
  obtain ns where ns: "netns = Some ns" "ns_fd ns = (case opened (''/var/run/netns/'' @ ns_name ns) of Inr fd \<Rightarrow> Some fd | Inl _ \<Rightarrow> None)"
    using assms(1,2) by (auto simp: sandbox_netns_def create_namespace_def Let_def split: prod.splits sum.splits)
  have "enter_netns_and_sandbox k os (ns_fd ns) policy workdir c = Inr (ch_confined child)"
    using assms(3) ns(1) by (auto simp: spawn_impl_def split: option.splits)
  then show ?thesis unfolding enter_netns_Inr using ns by (auto split: sum.splits option.splits)
qed

text \<open>The prefix given to the logging rules is 37 characters long, where \<open>iptables\<close> accepts at most 29.\<close>

theorem log_prefix_length:
  assumes "create_namespace tool uuid opened past = (Inr ns, past')" "8 \<le> length uuid"
  shows "length (bypass_log_prefix (ns_name ns)) = 37"
  using assms by (auto simp: create_namespace_def Let_def bypass_log_prefix_def split: prod.splits sum.splits)

section \<open>Instances\<close>

text \<open>A tool that fails from the fourth command on, one that cannot log, and one that does everything.\<close>

definition weary_tool :: ip_tool where
  "weary_tool past args = (if length past < 3 then ToolOk else ToolFailed ''no'')"

definition silent_tool :: ip_tool where
  "silent_tool past args = (let r = drop 4 args in if r = log_tcp (r ! 14) \<or> r = log_udp (r ! 13) then ToolFailed ''no'' else ToolOk)"

theorem failed_setup_is_undone_witness:
  "\<exists>e past'. create_namespace weary_tool ''01234567-89ab'' (\<lambda>_. Inr 7) [] = (Inl e, past') \<and> past' \<noteq> [] \<and> last past' = [''netns'', ''delete'', ''sandbox-01234567'']"
proof -
  have "\<exists>e past'. create_namespace weary_tool ''01234567-89ab'' (\<lambda>_. Inr 7) [] = (Inl e, past') \<and> length past' = 6"
    by (simp add: create_namespace_def setup_steps_def Let_def run_ip_def run_tool_def weary_tool_def)
  then obtain e past' where c: "create_namespace weary_tool ''01234567-89ab'' (\<lambda>_. Inr 7) [] = (Inl e, past')" "length past' = 6" by blast
  from failed_setup_is_undone [OF c(1)] obtain k where k: "k < 9"
    "past' = map (command_args ''sandbox-01234567'' \<circ> fst) (take (Suc k) (setup_steps ''sandbox-01234567'' ''veth-h-01234567'' ''veth-s-01234567''))
      @ (if 2 \<le> k then [delete_link ''veth-h-01234567''] else []) @ (if 1 \<le> k then [delete_netns ''sandbox-01234567''] else [])"
    by auto
  from k c(2) have "k = 3" by (auto split: if_splits)
  with k(2) c show ?thesis by (auto simp: delete_netns_def)
qed

theorem rejection_survives_failed_logging_witness:
  "\<exists>past. install_bypass_rules silent_tool (\<lambda>p. p = ''/sbin/iptables'')
       \<lparr>ns_name = ''sandbox-0'', ns_veth_host = [], ns_veth_sandbox = [], ns_host_ip = HOST_IP, ns_sandbox_ip = SANDBOX_IP, ns_fd = None\<rparr> 3128 [] = (Inr (), past)
     \<and> [''netns'', ''exec'', ''sandbox-0'', ''/sbin/iptables'', ''-A'', ''OUTPUT'', ''-p'', ''tcp'', ''-j'', ''REJECT'', ''--reject-with'', ''icmp-port-unreachable''] \<in> set past"
proof -
  have "find_iptables (\<lambda>p. p = ''/sbin/iptables'') = Some ''/sbin/iptables''"
    by (simp add: find_iptables_def IPTABLES_SEARCH_PATHS_def)
  moreover have "silent_tool past ([''netns'', ''exec'', n, c] @ args) = ToolOk" if "\<forall>p. args \<noteq> log_tcp p \<and> args \<noteq> log_udp p" for past n c args
    using that by (simp add: silent_tool_def Let_def)
  ultimately show ?thesis
    using rejection_survives_failed_logging [of "\<lambda>p. p = ''/sbin/iptables''" "''/sbin/iptables''" silent_tool
        "\<lparr>ns_name = ''sandbox-0'', ns_veth_host = [], ns_veth_sandbox = [], ns_host_ip = HOST_IP, ns_sandbox_ip = SANDBOX_IP, ns_fd = None\<rparr>" 3128 "[]"]
    by (simp add: bypass_rules_def reject_with_def)
qed

theorem proxied_process_namespace_witness:
  "\<exists>netns past' child. sandbox_netns (\<lambda>_ _. ToolOk) (\<lambda>_. False) ''01234567-89ab'' (\<lambda>_. Inl ''EMFILE'') (tmp_policy HardRequirement) [] = (Inr netns, past')
     \<and> spawn_impl sample_kernel sample_unistd None [] ''/bin/agent'' [] (Some ''/work'') True (tmp_policy HardRequirement) (Option.bind netns ns_fd) None [] root_credentials = Inr child
     \<and> netns \<noteq> None \<and> cf_netns (ch_confined child) = None"
proof -
  have m: "nw_mode (rp_network (tmp_policy HardRequirement)) = ModeProxy" by (simp add: tmp_policy_def proxy_network_def)
  obtain netns past' where n: "sandbox_netns (\<lambda>_ _. ToolOk) (\<lambda>_. False) ''01234567-89ab'' (\<lambda>_. Inl ''EMFILE'') (tmp_policy HardRequirement) [] = (Inr netns, past')"
    by (simp add: sandbox_netns_def m create_namespace_def setup_steps_def Let_def run_ip_def run_ip_netns_def run_tool_def)
  obtain child where c: "spawn_impl sample_kernel sample_unistd None [] ''/bin/agent'' [] (Some ''/work'') True (tmp_policy HardRequirement) (Option.bind netns ns_fd)
      None [] root_credentials = Inr child"
    using sample_spawn by blast
  show ?thesis using proxied_process_namespace [OF n m c] n c by auto
qed

end
