(* ===== verification/Bypass_Monitor.thy ===== *)
theory Bypass_Monitor
  imports Procfs Denials Netns
begin

text \<open>
  The bypass monitor, \<open>crates/clustershell-sandbox/src/bypass_monitor.rs\<close>: lines of the kernel log that the rules of the namespace produce are read
  back into events and reported as denials. The lines, the entrypoint's process number and \<open>/proc\<close> at each line are arguments.
\<close>

section \<open>Reading a line\<close>

record bypass_event =
  be_dst_addr :: bytes
  be_dst_port :: nat
  be_src_port :: nat
  be_proto :: bytes
  be_uid :: "nat option"

definition extract_field :: "bytes \<Rightarrow> bytes \<Rightarrow> bytes option" where
  "extract_field s key =
     (case find_sub key s of
        None \<Rightarrow> None
      | Some i \<Rightarrow>
          (let rest = drop (i + length key) s;
               stop = (case find_sub '' '' rest of None \<Rightarrow> length rest | Some j \<Rightarrow> j);
               v = take stop rest in
           if v = [] then None else Some v))"

text \<open>\<open>lower\<close> is \<open>str::to_lowercase\<close>.\<close>

definition parse_kmsg_line :: "(bytes \<Rightarrow> bytes) \<Rightarrow> bytes \<Rightarrow> bytes \<Rightarrow> bypass_event option" where
  "parse_kmsg_line lower line namespace_prefix =
     Option.bind (find_sub namespace_prefix line) (\<lambda>prefix_pos.
     let relevant = drop (prefix_pos + length namespace_prefix) line in
     Option.bind (extract_field relevant ''DST='') (\<lambda>dst_addr.
     Option.bind (Option.bind (extract_field relevant ''DPT='') parse_u16) (\<lambda>dst_port.
       Some \<lparr>be_dst_addr = dst_addr, be_dst_port = dst_port,
             be_src_port = (case Option.bind (extract_field relevant ''SPT='') parse_u16 of None \<Rightarrow> 0 | Some p \<Rightarrow> p),
             be_proto = lower (case extract_field relevant ''PROTO='' of None \<Rightarrow> ''unknown'' | Some p \<Rightarrow> p),
             be_uid = Option.bind (extract_field relevant ''UID='') parse_u32\<rparr>)))"

definition hint_for_event :: "bypass_event \<Rightarrow> bytes" where
  "hint_for_event event =
     (if be_proto event = ''udp'' \<and> be_dst_port event = 53 then ''DNS queries should route through the sandbox proxy; check resolver configuration''
      else if be_proto event = ''udp'' then ''UDP traffic must route through the sandbox proxy''
      else ''ensure process honors HTTP_PROXY/HTTPS_PROXY; for Node.js set NODE_USE_ENV_PROXY=1'')"

section \<open>Reporting\<close>

text \<open>Binary, process number and ancestors as texts. The outer option is the walk of \<open>procfs.rs\<close> over descendants, which may not end.\<close>

definition UNRESOLVED :: "bytes \<times> bytes \<times> bytes" where
  "UNRESOLVED = (''-'', ''-'', ''-'')"

definition resolve_process_identity :: "proc_fs \<Rightarrow> nat \<Rightarrow> nat \<Rightarrow> (bytes \<times> bytes \<times> bytes) option" where
  "resolve_process_identity pf entrypoint_pid src_port =
     map_option (\<lambda>r. case r of
         Inl _ \<Rightarrow> UNRESOLVED
       | Inr (path, pid) \<Rightarrow>
           (let ancestors = collect_ancestor_binaries pf pid entrypoint_pid in
            (from_utf8_lossy path, show_nat pid, if ancestors = [] then ''-'' else join_str '' -> '' (map from_utf8_lossy ancestors))))
       (resolve_tcp_peer_identity pf entrypoint_pid src_port)"

definition BYPASS_REASON :: bytes where
  "BYPASS_REASON = ''direct connection bypassed HTTP CONNECT proxy''"

definition bypass_denial :: "bypass_event \<Rightarrow> bytes \<times> bytes \<times> bytes \<Rightarrow> denial_event" where
  "bypass_denial event identity =
     (case identity of (binary, binary_pid, ancestors) \<Rightarrow>
        \<lparr>de_host = be_dst_addr event, de_port = be_dst_port event, de_binary = binary,
         de_ancestors = (if ancestors = ''-'' then [] else split_str '' -> '' ancestors),
         de_deny_reason = BYPASS_REASON, de_denial_stage = ''bypass'', de_l7_method = None, de_l7_path = None\<rparr>)"

text \<open>What the kernel's log yields at one turn of the loop: a line or an error, with the process number and \<open>/proc\<close> at that time.\<close>

record kmsg_turn =
  kt_line :: "(bytes, bytes) result"
  kt_pid :: nat
  kt_proc :: proc_fs

definition monitor_turn :: "(bytes \<Rightarrow> bytes) \<Rightarrow> bytes \<Rightarrow> kmsg_turn \<Rightarrow> denial_event list option" where
  "monitor_turn lower prefix t =
     (case kt_line t of
        Inl _ \<Rightarrow> Some []
      | Inr line \<Rightarrow>
          (case parse_kmsg_line lower line prefix of
             None \<Rightarrow> Some []
           | Some event \<Rightarrow>
               map_option (\<lambda>identity. [bypass_denial event identity])
                 (if be_proto event = ''tcp'' \<and> 0 < be_src_port event \<and> 0 < kt_pid t
                  then resolve_process_identity (kt_proc t) (kt_pid t) (be_src_port event)
                  else Some UNRESOLVED)))"

text \<open>The denials sent while the log is followed; \<^const>\<open>None\<close> when a lookup never returns.\<close>

fun monitor_loop :: "(bytes \<Rightarrow> bytes) \<Rightarrow> bytes \<Rightarrow> kmsg_turn list \<Rightarrow> denial_event list option" where
  "monitor_loop lower prefix [] = Some []"
| "monitor_loop lower prefix (t # ts) =
     Option.bind (monitor_turn lower prefix t) (\<lambda>sent. map_option ((@) sent) (monitor_loop lower prefix ts))"

definition spawn_monitor :: "(bytes \<Rightarrow> bytes) \<Rightarrow> bool \<Rightarrow> bytes \<Rightarrow> kmsg_turn list \<Rightarrow> denial_event list option option" where
  "spawn_monitor lower dmesg_available namespace_name turns =
     (if \<not> dmesg_available then None else Some (monitor_loop lower (bypass_log_prefix namespace_name) turns))"

section \<open>What the kernel writes\<close>

text \<open>A word of a logged packet: an attribute with a value, or a flag.\<close>

datatype packet_word = PacketFlag bytes | PacketAttr bytes bytes

fun word_text :: "packet_word \<Rightarrow> bytes" where
  "word_text (PacketFlag f) = f"
| "word_text (PacketAttr n v) = n @ ''='' @ v"

definition plain :: "bytes \<Rightarrow> bool" where
  "plain s \<longleftrightarrow> CHR '' '' \<notin> set s \<and> CHR ''='' \<notin> set s"

fun word_ok :: "packet_word \<Rightarrow> bool" where
  "word_ok (PacketFlag f) = plain f"
| "word_ok (PacketAttr n v) = (plain n \<and> plain v)"

text \<open>The value of the first attribute whose name ends in \<open>k\<close>, unless that value is empty.\<close>

fun packet_field :: "bytes \<Rightarrow> packet_word list \<Rightarrow> bytes option" where
  "packet_field k [] = None"
| "packet_field k (PacketFlag f # ws) = packet_field k ws"
| "packet_field k (PacketAttr n v # ws) =
     (if ends_with n k then (if v = [] then None else Some v) else packet_field k ws)"

lemma starts_with_before_sep: "c \<notin> set p \<Longrightarrow> starts_with (w @ c # s) p \<longleftrightarrow> starts_with w p"
proof
  assume c: "c \<notin> set p" and "starts_with (w @ c # s) p"
  then obtain t where t: "w @ c # s = p @ t" unfolding starts_with_split by blast
  then have "\<exists>us. w = p @ us \<and> us @ c # s = t \<or> w @ us = p \<and> c # s = us @ t"
    by (simp add: append_eq_append_conv2)
  then show "starts_with w p" using c by (auto simp: starts_with_split append_eq_Cons_conv Cons_eq_append_conv)
qed (simp add: starts_with_append_mono)

lemma find_sub_before_sep:
  assumes "c \<notin> set p" "p \<noteq> []"
  shows "find_sub p (w @ c # s) =
    (case find_sub p w of Some i \<Rightarrow> Some i | None \<Rightarrow> map_option (\<lambda>i. Suc (length w) + i) (find_sub p s))"
proof (induction w)
  case Nil
  have "\<not> starts_with (c # s) p" using starts_with_before_sep [OF assms(1), of "[]" s] assms(2) by (auto simp: starts_with_def)
  then show ?case using assms(2) by (cases "find_sub p s") simp_all
next
  case (Cons x w)
  have "starts_with ((x # w) @ c # s) p \<longleftrightarrow> starts_with (x # w) p" by (rule starts_with_before_sep [OF assms(1)])
  then show ?case using Cons by (cases "find_sub p w"; cases "find_sub p s") simp_all
qed

lemma find_sub_absent: "c \<in> set p \<Longrightarrow> c \<notin> set s \<Longrightarrow> find_sub p s = None"
proof (induction s)
  case (Cons x s)
  have "\<not> starts_with (x # s) p"
  proof
    assume "starts_with (x # s) p"
    then obtain t where "x # s = p @ t" unfolding starts_with_split by blast
    then have "set p \<subseteq> set (x # s)" by (metis set_append sup_ge1)
    with Cons.prems show False by auto
  qed
  with Cons show ?case by simp
qed auto

lemma ends_with_Cons: "ends_with (x # n) k \<longleftrightarrow> k = x # n \<or> ends_with n k"
  by (auto simp: ends_with_split Cons_eq_append_conv)

lemma find_sub_attr:
  assumes "CHR ''='' \<notin> set k" "CHR ''='' \<notin> set n" "CHR ''='' \<notin> set v"
  shows "find_sub (k @ ''='') (n @ ''='' @ v) = (if ends_with n k then Some (length n - length k) else None)"
  using assms(2)
proof (induction n)
  case Nil
  have "starts_with (''='' @ v) (k @ ''='') \<longleftrightarrow> k = []"
    using assms(1) by (cases k) (auto simp: starts_with_def)
  then show ?case using find_sub_absent [OF _ assms(3), of "k @ ''=''"] by (auto simp: ends_with_def)
next
  case (Cons x n)
  have "starts_with ((x # n) @ ''='' @ v) (k @ ''='') \<longleftrightarrow> k = x # n"
  proof
    assume "starts_with ((x # n) @ ''='' @ v) (k @ ''='')"
    then obtain t where "(x # n) @ CHR ''='' # v = k @ CHR ''='' # t" by (auto simp: starts_with_split)
    from append_Cons_eq_iff [THEN iffD1, OF _ _ this] show "k = x # n"
      using Cons.prems assms by auto
  next
    assume "k = x # n"
    then show "starts_with ((x # n) @ ''='' @ v) (k @ ''='')" by (simp add: starts_with_def)
  qed
  moreover have "ends_with n k \<Longrightarrow> length k \<le> length n" by (simp add: ends_with_def)
  ultimately show ?case using Cons by (auto simp: ends_with_Cons Suc_diff_le)
qed

lemma find_sub_word:
  assumes "word_ok w" "plain k"
  shows "find_sub (k @ ''='') (word_text w) =
    (case w of PacketFlag f \<Rightarrow> None | PacketAttr n v \<Rightarrow> if ends_with n k then Some (length n - length k) else None)"
  using assms find_sub_attr [of k] find_sub_absent [of "CHR ''=''" "k @ ''=''"] by (cases w) (simp_all add: plain_def)

lemma word_no_space: "word_ok w \<Longrightarrow> CHR '' '' \<notin> set (word_text w)"
  by (cases w) (auto simp: plain_def)

lemma word_value:
  "ends_with n k \<Longrightarrow> drop (length n - length k + length (k @ ''='')) (word_text (PacketAttr n v)) = v"
  by (simp add: ends_with_def)

lemma extract_field_step:
  assumes "word_ok w" "plain k"
  shows "extract_field (word_text w @ CHR '' '' # s) (k @ ''='') =
    (case w of PacketAttr n v \<Rightarrow> if ends_with n k then (if v = [] then None else Some v) else extract_field s (k @ ''='')
     | PacketFlag f \<Rightarrow> extract_field s (k @ ''=''))"
    "extract_field (word_text w) (k @ ''='') =
    (case w of PacketAttr n v \<Rightarrow> if ends_with n k then (if v = [] then None else Some v) else None | PacketFlag f \<Rightarrow> None)"
proof -
  let ?K = "k @ ''=''"
  have K: "CHR '' '' \<notin> set ?K" "?K \<noteq> []" using assms(2) by (simp_all add: plain_def)
  have miss: "extract_field (word_text w @ CHR '' '' # s) ?K = extract_field s ?K" "extract_field (word_text w) ?K = None"
    if "find_sub ?K (word_text w) = None"
    using that find_sub_before_sep [OF K, of "word_text w" s] by (auto simp: extract_field_def split: option.splits)
  have hit: "extract_field (word_text w @ CHR '' '' # s) ?K = (if v = [] then None else Some v)"
      "extract_field (word_text w) ?K = (if v = [] then None else Some v)"
    if i: "find_sub ?K (word_text w) = Some i" "drop (i + length ?K) (word_text w) = v" for i v
  proof -
    have sp: "CHR '' '' \<notin> set v" using word_no_space [OF assms(1)] i(2) by (metis in_set_dropD)
    have le: "i + length ?K \<le> length (word_text w)" by (rule find_sub_Some_bound [OF i(1)])
    show "extract_field (word_text w @ CHR '' '' # s) ?K = (if v = [] then None else Some v)"
      using find_sub_before_sep [OF K, of "word_text w" s] i le find_sub_char_append [OF sp] by (simp add: extract_field_def Let_def)
    show "extract_field (word_text w) ?K = (if v = [] then None else Some v)"
      using i sp find_sub_single [of "CHR '' ''" v, THEN iffD2] by (simp add: extract_field_def Let_def)
  qed
  show "extract_field (word_text w @ CHR '' '' # s) ?K =
    (case w of PacketAttr n v \<Rightarrow> if ends_with n k then (if v = [] then None else Some v) else extract_field s ?K
     | PacketFlag f \<Rightarrow> extract_field s ?K)"
    "extract_field (word_text w) ?K =
    (case w of PacketAttr n v \<Rightarrow> if ends_with n k then (if v = [] then None else Some v) else None | PacketFlag f \<Rightarrow> None)"
    using find_sub_word [OF assms] miss hit word_value by (cases w; simp)+
qed

lemma extract_field_packet:
  assumes "list_all word_ok ws" "plain k"
  shows "extract_field (join_str '' '' (map word_text ws)) (k @ ''='') = packet_field k ws"
  using assms(1)
proof (induction ws)
  case Nil
  show ?case by (simp add: extract_field_def)
next
  case (Cons w ws)
  then show ?case
    using extract_field_step [OF _ assms(2), of w] by (cases ws; cases w) (auto simp: join_str_Cons)
qed


section \<open>Reports\<close>

text \<open>Every line that is read is reported once, in order, as a denial at the bypass stage with the packet's destination.\<close>

definition read_events :: "(bytes \<Rightarrow> bytes) \<Rightarrow> bytes \<Rightarrow> kmsg_turn list \<Rightarrow> bypass_event list" where
  "read_events lower prefix turns =
     List.map_filter (\<lambda>t. case kt_line t of Inl _ \<Rightarrow> None | Inr line \<Rightarrow> parse_kmsg_line lower line prefix) turns"

lemma bypass_denial_fields [simp]:
  "de_host (bypass_denial event identity) = be_dst_addr event" "de_port (bypass_denial event identity) = be_dst_port event"
  "de_denial_stage (bypass_denial event identity) = ''bypass''"
  by (simp_all add: bypass_denial_def split: prod.split)

theorem bypass_reports_exact:
  assumes "monitor_loop lower prefix turns = Some denials"
  shows "map (\<lambda>d. (de_host d, de_port d, de_denial_stage d)) denials
    = map (\<lambda>e. (be_dst_addr e, be_dst_port e, ''bypass'')) (read_events lower prefix turns)"
  using assms
proof (induction turns arbitrary: denials)
  case (Cons t ts)
  then obtain sent rest where s: "monitor_turn lower prefix t = Some sent" "monitor_loop lower prefix ts = Some rest" "denials = sent @ rest"
    by (auto simp: bind_eq_Some_conv)
  have "map (\<lambda>d. (de_host d, de_port d, de_denial_stage d)) sent = map (\<lambda>e. (be_dst_addr e, be_dst_port e, ''bypass'')) (read_events lower prefix [t])"
    using s(1) by (auto simp: monitor_turn_def read_events_def List.map_filter_def split: sum.splits option.splits)
  then show ?case using Cons.IH [OF s(2)] s(3) by (simp add: read_events_def List.map_filter_def)
qed (simp add: read_events_def List.map_filter_def)

section \<open>An instance\<close>

definition logged_words :: "packet_word list" where
  "logged_words =
     [PacketAttr ''IN'' [], PacketAttr ''OUT'' ''veth-s-0'', PacketAttr ''SRC'' ''10.200.0.2'', PacketAttr ''DST'' ''93.184.216.34'', PacketAttr ''LEN'' ''60'',
      PacketFlag ''DF'', PacketAttr ''PROTO'' ''TCP'', PacketAttr ''SPT'' ''48012'', PacketAttr ''DPT'' ''443'', PacketFlag ''SYN'', PacketAttr ''UID'' ''1000'']"


end
