(* ===== verification/Spec2Isabelle.thy ===== *)
theory Spec2Isabelle
  imports Sandbox_Policy Policy_Refinement Secrets Http_Framing L7_Relay Inference Router Identity Denials Ip_Guard
    Procfs Proxy Gateway_Grants Gateway_Updates Remote_Exec Mapper
    Ssh_Session Supervisor Route_Refresh
    Sandbox_Lifecycle Watch_Stream Log_Push Bypass_Monitor
begin

text \<open>
  ClusterShell runs agents in sandboxes whose network access is decided by a policy. The sandbox process
  (\<open>crates/clustershell-sandbox\<close>) starts the agent in its own network namespace and is the only way out of it: a proxy
  that identifies the calling process, asks a policy engine, checks the destination's addresses, and relays, inspects or
  refuses. The gateway hands the policy to the sandbox as a protobuf message; it is checked by \<open>crates/clustershell-policy\<close>,
  turned into a data document for Rego rules and evaluated per connection and per HTTP request. Inference calls are not
  tunnelled but answered by a router to configured backends (\<open>crates/clustershell-router\<close>). This library models that path
  from the policy to the bytes on the wire, and the gateway (\<open>crates/clustershell-server\<close>) where the policy comes from.

  \<^bold>\<open>Library theories.\<close> \<open>Prelude\<close> (results as sums, panics as \<open>outcome\<close>, collections of simplification rules),
  \<open>Rust_Text\<close> (byte strings: \<open>split\<close>, \<open>find\<close>, \<open>trim\<close>, integer parsing and printing, paths), \<open>Rust_Utf8\<close>
  (\<open>from_utf8_lossy\<close>), \<open>Rust_Map\<close> (\<open>HashMap\<close> as an association list whose order is the iteration order, \<open>BTreeMap\<close> sorted),
  \<open>Json\<close> (\<open>serde_json::Value\<close>) and \<open>Net_Io\<close> (byte streams with explicit read sizes, end and write errors).

  \<^bold>\<open>Policy.\<close> \<open>Sandbox_Policy\<close>: \<open>clustershell-policy/src/lib.rs\<close>, the YAML schema, conversion from and to the protobuf
  records, path normalisation and the safety validator; a policy is accepted exactly when it is safe, printing and parsing
  give it back, and the one way the validator panics is stated. \<open>L7_Config\<close>, \<open>Opa_Data\<close>, \<open>Rego_Rules\<close> and \<open>Opa_Engine\<close>:
  \<open>l7/mod.rs\<close>, \<open>opa.rs\<close> and \<open>data/sandbox-policy.rego\<close>, as functions over the JSON data document. \<open>Policy_Refinement\<close>
  specifies what a policy means on the protobuf records (\<open>connection_permitted\<close>, \<open>request_permitted\<close>) and shows that a
  loaded engine decides exactly that.

  \<^bold>\<open>Who is calling.\<close> \<open>Procfs\<close>: \<open>procfs.rs\<close> over a snapshot of \<open>/proc\<close>. \<open>Identity\<close>: \<open>identity.rs\<close>, trust on first use; its two
  critical sections are separate steps of an inductive relation, so calls interleave, and an accepted hash never changes.

  \<^bold>\<open>Where to.\<close> \<open>Ip_Guard\<close>: the address checks of \<open>proxy.rs\<close> on 32-bit and 128-bit words, an interface \<open>ip_guard\<close> with both
  resolution modes as its interpretations, and the equivalence of the bit tests with address blocks.

  \<^bold>\<open>On the wire.\<close> \<open>Chunked_Coding\<close> (what a chunked body is), \<open>Http_Wire\<close> and \<open>Http_Framing\<close>: \<open>l7/rest.rs\<close>, reading requests and
  relaying bodies over streams; \<open>Secrets\<close>: \<open>secrets.rs\<close>, placeholders put in place in header lines; \<open>L7_Relay\<close>:
  \<open>l7/relay.rs\<close>, the inspecting loop; \<open>Inference\<close>: \<open>l7/inference.rs\<close>, the buffered request parser and response formatting;
  \<open>Router\<close>: \<open>clustershell-router\<close> and \<open>core/src/inference.rs\<close>; \<open>Inference_Tunnel\<close>, \<open>Proxy_Http\<close>, \<open>Proxy_Policy\<close> and
  \<open>Proxy\<close>: \<open>proxy.rs\<close>, the handlers that put all of it together; \<open>Denials\<close>: \<open>denial_aggregator.rs\<close>.

  \<^bold>\<open>At the gateway.\<close> \<open>Gateway_Db\<close>: \<open>persistence/sqlite.rs\<close>, every statement as a function on the tables, the schema's constraints
  as an invariant of the step relation \<open>db_step\<close>, and the interface \<open>revision_log\<close> of numbered revisions. \<open>Gateway_Store\<close>: stored
  messages and handlers, which are state passing functions; before every statement of a handler a script may change the tables
  the way other tasks do (\<open>fair\<close>: by any number of statements), advance the clock or make the database fail. \<open>lawful\<close> is the
  guarantee a handler gives under that assumption. \<open>Gateway_Settings\<close>, \<open>Gateway_Providers\<close>, \<open>Gateway_Policy\<close> and
  \<open>Gateway_Drafts\<close>: the handlers of \<open>grpc.rs\<close> for settings, providers, policies and recommended rules. \<open>Gateway_History\<close>: the
  handlers as one step relation; every run keeps the revisions without gaps and unchanged, and an approval, with its retry
  loop, refines one atomic commit. \<open>Gateway_Grants\<close>: what a merge does to what the policy permits. \<open>Gateway_Updates\<close>: what
  an update is checked for. \<open>Mapper\<close>: \<open>mechanistic_mapper.rs\<close>, how the sandbox turns denial summaries into those recommendations, and
  what they permit once approved.

  \<^bold>\<open>Inference routes.\<close> \<open>Gateway_Inference\<close>: \<open>server/src/inference.rs\<close> with the validation probe of \<open>router/src/backend.rs\<close>: setting and
  reading the managed routes and resolving them to a bundle for the sandboxes; the interface \<open>self_delimiting\<close> of encodings that show where they
  end is interpreted for the strings and for the routes a revision hashes. \<open>Route_Refresh\<close>: the supervisor's route source, its context and the
  task that refreshes the user and the system cache in two writes, as a step relation; composed with the gateway, the caches follow its bundles.

  \<^bold>\<open>The life of a sandbox.\<close> \<open>Sandbox_Pods\<close>: the pod the gateway describes to Kubernetes, the environment of its container and the phase read back
  from the status (\<open>sandbox/mod.rs\<close>). \<open>Sandbox_Lifecycle\<close>: the handlers of \<open>grpc.rs\<close> that create and delete sandboxes, the watcher, the sweep of orphaned
  records and \<open>sandbox_index.rs\<close>, as operations on the tables and a cluster that is a parameter, so that its calls may fail, or time out and take effect.

  \<^bold>\<open>Starting a sandbox.\<close> \<open>Runtime_Policy\<close>: \<open>policy.rs\<close> and the baseline paths of \<open>lib.rs\<close>, whose loop over a comparison of paths is the
  interface \<open>path_comparison\<close>, interpreted for strings and for paths. \<open>Confinement\<close>: \<open>process.rs\<close>, \<open>child_env.rs\<close> and \<open>sandbox/linux\<close>: dropping
  privileges, Landlock, seccomp and the environment; the interface \<open>unprivileged_process\<close> says what a process that is some user through and
  through stays, and POSIX credentials interpret it. \<open>Ssh_Session\<close>: \<open>ssh.rs\<close>, the session handler as a function on protocol events, and what
  holds of its processes over every sequence of events. \<open>Supervisor\<close>: \<open>load_policy\<close> and \<open>run_policy_poll_loop\<close> of \<open>lib.rs\<close> with the gateway
  client; when the engine in use is the gateway's latest policy, and when it is not.

  \<^bold>\<open>The namespace.\<close> \<open>Netns\<close>: \<open>sandbox/linux/netns.rs\<close>, creation step by step with what is undone on failure, the packet filter rules, and
  whether the process \<open>Confinement\<close> spawns is in it. \<open>Bypass_Monitor\<close>: \<open>bypass_monitor.rs\<close>, which reads back what those rules log; it is shown to
  read what a specification of the kernel's format says is there.

  \<^bold>\<open>Logs and streams.\<close> \<open>Log_Bus\<close>: \<open>tracing_bus.rs\<close>, \<open>sandbox_watch.rs\<close> and the log handlers of \<open>grpc.rs\<close>; the interface \<open>buffered_bus\<close> of a bus with a
  bounded buffer is interpreted for log lines and for platform events, and gives that a buffer holds the latest of what was published, publications
  being two critical sections that others may come between. \<open>Watch_Stream\<close>: \<open>watch_sandbox\<close> between the actions of other tasks; what a client gets and why its
  stream ends. \<open>Log_Push\<close>: \<open>log_push.rs\<close>, the supervisor's end, joined with the gateway's handler.

  \<^bold>\<open>Into the sandbox.\<close> \<open>Ssh_Handshake\<close>: the signed line in front of every SSH connection, sent by \<open>ssh_tunnel.rs\<close> and \<open>grpc.rs\<close> and
  verified by the sandbox's \<open>ssh.rs\<close>; the two ends agree, and when a line can be replayed is settled in both directions.
  \<open>Ssh_Tunnel\<close>: \<open>ssh_tunnel.rs\<close>, session tokens and their life, who is let through, and the connection counters, whose critical sections
  are steps of an inductive relation over any number of tasks; the interface \<open>bounded_counter\<close> is interpreted for tokens and for
  sandboxes. \<open>Remote_Exec\<close>: \<open>exec_sandbox\<close>, the quoting of its command line against a specification of how a shell reads a line
  (interface \<open>quote_replacement\<close>, interpreted for both spellings in the code), and its retry loop.

  \<^bold>\<open>This theory\<close> has the two properties that span all components: every connection the proxy opens is one the policy
  permits, to addresses the guard admits; and an enforced tunnel carries only requests the policy permits.

  \<^bold>\<open>Bounds and termination.\<close> Loops over a stream recurse on the bytes that are still to come and terminate with them; a
  peer that stays silent for ever is the run up to that read. The ancestor walks have the source's bound of 64. The walk
  over the process tree may run for ever on a cyclic snapshot: it is a partial function with result \<^const>\<open>None\<close> for not
  returning, and it is shown to return on every tree; the handlers inherit that option. Integers are natural numbers with
  the width's bounds where they are parsed, words where bits matter, and additions that can overflow are checked where they
  stand (\<open>Panicked\<close>). The retry loop of the gateway's commits has the source's bound of 5, that of a remote command 6 attempts and that of a tunnel 9.

  \<^bold>\<open>Parameters.\<close> The operating system's answers, TLS handshakes, the DNS resolver, the \<open>ipnet\<close> crate, \<open>serde_yaml\<close> and
  \<open>serde_json\<close> printing, the HTTP client, the SHA-256 digest, Rego's \<open>glob.match\<close>, \<open>lower\<close> and \<open>upper\<close>, and
  \<open>copy_bidirectional\<close>, the SSH library, system calls and the \<open>landlock\<close> and \<open>seccompiler\<close> crates are arguments; so are, at the gateway, protobuf and JSON serialisation (\<open>codec\<close>), fresh identifiers,
  \<open>str::to_lowercase\<close> and \<open>str::to_uppercase\<close>, and what the runtime's channels yield; in the supervisor, the \<open>ip\<close> and \<open>iptables\<close> tools.

  \<^bold>\<open>Not modelled.\<close> Certificate generation, the threads that copy the output of SSH
  processes, the gateway's sockets and front end, the PostgreSQL store, the command line, the
  terminal user interface and the bootstrap code. Log output is only modelled where a component counts on it.
\<close>

section \<open>Where the proxy connects to\<close>


text \<open>A \<open>CONNECT\<close> of the sample client.\<close>

definition connect_request :: bytes where
  "connect_request = ''CONNECT api.github.com:443 HTTP/1.1'' @ crlf2"

lemma connect_request_head:
  "read_proxy_head [] (fresh_conn connect_request []) = (Inr (HeadRead connect_request), fresh_conn [] [])"
proof -
  have "contains_sub connect_request crlf2" "connect_request \<noteq> []" "length connect_request = 39" by code_simp+
  then show ?thesis
    by (simp add: read_proxy_head.simps [of "[]"] MAX_PROXY_HEADER_BYTES_def conn_read_def fresh_conn_def read_size_def Let_def)
qed

lemma connect_request_parts:
  "split_whitespace (hd (split_str crlf (from_utf8_lossy connect_request))) = [''CONNECT'', ''api.github.com:443'', ''HTTP/1.1'']"
  by code_simp

lemma curl_destination:
  "resolve_destination (sample_ctx tls) (curl_decision m) ''api.github.com'' ''api.github.com'' 443 = Inr [(V4 0x08080808, 443)]"
proof -
  have "decision_allowed_ips (sample_ctx tls) (curl_decision m) ''api.github.com'' 443 = []"
  proof (rule ccontr)
    assume "decision_allowed_ips (sample_ctx tls) (curl_decision m) ''api.github.com'' 443 \<noteq> []"
    then obtain entry where "entry \<in> set (decision_allowed_ips (sample_ctx tls) (curl_decision m) ''api.github.com'' 443)"
      by (meson last_in_set)
    from allowed_ips_of_policy [OF quickstart_hm_inv _ this] quickstart_load
    show False by (auto simp: curl_decision_def quickstart_policy_def quickstart_rule_def)
  qed
  then show ?thesis
    by (simp add: resolve_destination_def default_guard.resolve_iff sample_ctx_def sample_env_def proxy_env.defs
        public_host_def v4_is_loopback_def v4_is_private_def v4_is_link_local_def octet_def)
qed


section \<open>What an inspected tunnel carries\<close>

text \<open>The stream to the server that the relay writes to: the connection itself, or the plaintext side of the TLS session
  on it.\<close>

definition server_stream :: "'n proxy_ctx \<Rightarrow> bytes \<Rightarrow> conn \<Rightarrow> conn \<Rightarrow> bool" where
  "server_stream env host upstream u \<longleftrightarrow>
     u = upstream \<or> (\<exists>tls. pc_tls env = Some tls \<and> tl_connect tls host upstream = Inr u)"

definition permitted_forward ::
  "'n proxy_ctx \<Rightarrow> sandbox_policy \<Rightarrow> l7_eval_context \<Rightarrow> l7_request \<times> bytes \<times> bytes \<Rightarrow> bool" where
  "permitted_forward env p ctx = (\<lambda>(req, body, sent).
     request_permitted (pe_builtins env) p (cx_host ctx) (cx_port ctx) (cx_binary_path ctx) (cx_ancestors ctx)
       (rq_action req) (rq_target req)
     \<and> body_within req body \<and> (\<exists>k. sent = take k (request_bytes (cx_secret_resolver ctx) req @ body)))"

lemma forwarded_ok_permitted:
  assumes "hm_inv (sp_network_policies p)" "engine_load_proto QUERY_PACKAGE p = Inr (pe_engine env)"
    and "forwarded_ok (pe_builtins env) (pe_print env) (tunnel_engine env) ctx f"
  shows "permitted_forward env p ctx f"
proof -
  have "tunnel_engine env = pe_engine env"
    using engine_load_proto_Inr(2) [OF assms(2)] by (simp add: tunnel_engine_def)
  then show ?thesis
    using assms(3) l7_request_of_policy [OF assms(1,2), of "pe_builtins env" "pe_print env" ctx "request_info (fst f)"]
    by (auto simp: forwarded_ok_def permitted_forward_def request_info_def)
qed

lemma relay_run_forwards:
  assumes "hm_inv (sp_network_policies p)" "engine_load_proto QUERY_PACKAGE p = Inr (pe_engine env)"
    and "lc_protocol config = Rest" "lc_enforcement config = Enforce"
  shows "\<exists>u' fs. pr_upstream (relay_run env config ctx c u run) = Some u'
    \<and> cn_out u' = cn_out u @ concat (map (\<lambda>(req, body, sent). sent) fs) \<and> (\<forall>f\<in>set fs. permitted_forward env p ctx f)"
proof -
  obtain log x c' u' where r: "relay_rest (pe_builtins env) (pe_print env) (pc_json env) config (tunnel_engine env) c u ctx
      = (log, x, c', u')" by (metis prod_cases4)
  then have "pr_upstream (relay_run env config ctx c u run) = Some u'"
    using assms(3) by (simp add: relay_run_def relay_with_inspection_def)
  then show ?thesis using relay_rest_forwards [OF assms(4) r] forwarded_ok_permitted [OF assms(1,2)] by blast
qed


definition plain_tls :: tls_state where
  "plain_tls = \<lparr>tl_accept = (\<lambda>_ c. Inr c), tl_connect = (\<lambda>_ c. Inr c)\<rparr>"


end
